(* ===== verification/Prelude.thy ===== *)
theory Prelude
  imports Complex_Main "HOL-Library.Multiset" "HOL-Library.List_Lexorder" "HOL-Library.Char_ord"
begin

text \<open>
  The prelude of the development: the JavaScript values, strings and collections the
  components share, with their lemmas.

  A JavaScript string is an Isabelle \<open>string\<close>: one \<open>char\<close> is one code unit
  below 256, so \<open>length\<close>, \<open>slice\<close> and \<open>===\<close> agree with the source on
  Latin-1 text. Text outside that range is not modelled. \<open>undefined\<close> and
  \<open>null\<close> are \<open>None\<close>. A number that the source only compares and adds is a
  \<open>rat\<close>; JavaScript's rounding of doubles is not modelled. A value of type
  \<open>unknown\<close> that came from JSON (rule parameters, receipt details) is a \<open>jval\<close>.
\<close>

section \<open>Collections of simplification rules\<close>

named_theorems step_simps "definitions of the operations, for case analysis of one step"
named_theorems rule_simps "definitions of the policy rule evaluators"

section \<open>JSON values\<close>

datatype jval =
    JNull
  | JBool bool
  | JNum rat
  | JStr string
  | JArr "jval list"
  | JObj "(string \<times> jval) list"

text \<open>The object property \<open>o[k]\<close>; \<open>undefined\<close> when absent or when \<open>o\<close> is no object.\<close>

fun jget :: "jval \<Rightarrow> string \<Rightarrow> jval option" where
  "jget (JObj kvs) k = map_of kvs k"
| "jget _ _ = None"

text \<open>The strings among the members of an array, as \<open>filter((v): v is string => ...)\<close> keeps them.\<close>

fun jstrings :: "jval list \<Rightarrow> string list" where
  "jstrings [] = []"
| "jstrings (JStr s # vs) = s # jstrings vs"
| "jstrings (_ # vs) = jstrings vs"

lemma jstrings_map_JStr [simp]: "jstrings (map JStr ss) = ss"
  by (induction ss) auto

lemma set_jstrings: "s \<in> set (jstrings vs) \<longleftrightarrow> JStr s \<in> set vs"
  by (induction vs rule: jstrings.induct) auto

section \<open>Strings\<close>

text \<open>\<open>toLowerCase\<close> on one Latin-1 code unit: the ASCII capitals and the capitals of the upper half.\<close>

definition js_lower_char :: "char \<Rightarrow> char" where
  "js_lower_char c =
     (let n = of_char c :: nat
      in if (65 \<le> n \<and> n \<le> 90) \<or> (192 \<le> n \<and> n \<le> 222 \<and> n \<noteq> 215)
         then char_of (n + 32) else c)"

definition js_lower :: "string \<Rightarrow> string" where
  "js_lower s = map js_lower_char s"

text \<open>The white space of \<open>\\s\<close> and of \<open>trim\<close>, on Latin-1 code units.\<close>

definition js_space :: "char \<Rightarrow> bool" where
  "js_space c = ((of_char c :: nat) \<in> {9, 10, 11, 12, 13, 32, 160})"

definition js_trim :: "string \<Rightarrow> string" where
  "js_trim s = rev (dropWhile js_space (rev (dropWhile js_space s)))"

text \<open>
  The maximal runs of characters that satisfy a predicate, in order: what
  \<open>split(/[^p]+/)\<close> leaves once its empty pieces are dropped, and what
  \<open>match(/[p]+/g)\<close> returns.
\<close>

function js_runs :: "(char \<Rightarrow> bool) \<Rightarrow> string \<Rightarrow> string list" where
  "js_runs p s =
     (case dropWhile (\<lambda>c. \<not> p c) s of
        [] \<Rightarrow> []
      | c # cs \<Rightarrow> (c # takeWhile p cs) # js_runs p (dropWhile p cs))"
  by pat_completeness auto
termination
proof (relation "measure (\<lambda>(p, s). length s)", goal_cases)
  case 1
  show ?case by simp
next
  case (2 p s c cs)
  have "length (dropWhile p cs) \<le> length cs"
    by (rule length_dropWhile_le)
  moreover have "length (c # cs) \<le> length s"
    using 2 length_dropWhile_le [of "\<lambda>c. \<not> p c" s] by simp
  ultimately show ?case by simp
qed

declare js_runs.simps [simp del]

lemma js_runs_Nil [simp]: "js_runs p [] = []"
  by (subst js_runs.simps) simp

lemma js_runs_Cons_skip [simp]: "\<not> p c \<Longrightarrow> js_runs p (c # s) = js_runs p s"
  by (subst (1 2) js_runs.simps) simp

lemma js_runs_Cons_take [simp]:
  "p c \<Longrightarrow> js_runs p (c # s) = (c # takeWhile p s) # js_runs p (dropWhile p s)"
  by (subst js_runs.simps) simp

lemma js_runs_sound: "w \<in> set (js_runs p s) \<Longrightarrow> w \<noteq> [] \<and> (\<forall>c \<in> set w. p c)"
proof (induction p s rule: js_runs.induct)
  case (1 p s)
  show ?case
  proof (cases "dropWhile (\<lambda>c. \<not> p c) s")
    case Nil
    then have "js_runs p s = []" by (simp only: js_runs.simps [of p s] list.case)
    with "1.prems" show ?thesis by simp
  next
    case (Cons c cs)
    then have pc: "p c" using hd_dropWhile [of "\<lambda>c. \<not> p c" s] by simp
    have "js_runs p s = (c # takeWhile p cs) # js_runs p (dropWhile p cs)"
      by (subst js_runs.simps) (simp add: Cons)
    with "1.prems" consider "w = c # takeWhile p cs" | "w \<in> set (js_runs p (dropWhile p cs))"
      by auto
    then show ?thesis
    proof cases
      case 1
      with pc show ?thesis by (auto dest: set_takeWhileD)
    next
      case 2
      then show ?thesis using "1.IH" [OF Cons] by blast
    qed
  qed
qed

text \<open>The words of a text: \<open>text.split(/\\s+/).filter((w) => w.length > 0)\<close>.\<close>

definition js_words :: "string \<Rightarrow> string list" where
  "js_words s = js_runs (\<lambda>c. \<not> js_space c) s"

section \<open>Lists used as sets and maps\<close>

text \<open>
  \<open>new Set(xs)\<close> iterates in insertion order; the members as a list are \<open>js_set xs\<close>,
  each at its first occurrence.
\<close>

definition js_set :: "'a list \<Rightarrow> 'a list" where
  "js_set xs = rev (remdups (rev xs))"

lemma set_js_set [simp]: "set (js_set xs) = set xs"
  by (simp add: js_set_def)

lemma distinct_js_set [simp]: "distinct (js_set xs)"
  by (simp add: js_set_def)

lemma length_js_set: "length (js_set xs) = card (set xs)"
  by (simp add: js_set_def length_remdups_card_conv)

lemma js_set_Nil [simp]: "js_set [] = []"
  by (simp add: js_set_def)

lemma js_set_eq_Nil [simp]: "js_set xs = [] \<longleftrightarrow> xs = []"
  by (simp add: js_set_def)

section \<open>Similarity of token sets\<close>

text \<open>
  \<open>|A \<inter> B| / |A \<union> B|\<close> over two token lists without repetitions, computed the way
  the source does: count the shared tokens, then divide by the size of the union.
\<close>

definition overlap_ratio :: "'a list \<Rightarrow> 'a list \<Rightarrow> rat" where
  "overlap_ratio a b =
     (let i = length (filter (\<lambda>t. t \<in> set b) a);
          u = length a + length b - i
      in if u = 0 then 0 else of_nat i / of_nat u)"

lemma overlap_inter:
  assumes "distinct a"
  shows "length (filter (\<lambda>t. t \<in> set b) a) = card (set a \<inter> set b)"
proof -
  have "set (filter (\<lambda>t. t \<in> set b) a) = set a \<inter> set b" by auto
  moreover have "distinct (filter (\<lambda>t. t \<in> set b) a)" using assms by simp
  ultimately show ?thesis using distinct_card by metis
qed

lemma overlap_union:
  assumes "distinct a" "distinct b"
  shows "length a + length b - card (set a \<inter> set b) = card (set a \<union> set b)"
proof -
  have "card (set a) + card (set b) = card (set a \<union> set b) + card (set a \<inter> set b)"
    by (rule card_Un_Int) auto
  with assms show ?thesis by (simp add: distinct_card)
qed

lemma overlap_ratio_sets:
  assumes "distinct a" "distinct b"
  shows "overlap_ratio a b = of_nat (card (set a \<inter> set b)) / of_nat (card (set a \<union> set b))"
  unfolding overlap_ratio_def Let_def overlap_inter [OF assms(1)] overlap_union [OF assms]
  by (simp del: of_nat_eq_0_iff)

lemma overlap_ratio_sym:
  assumes "distinct a" "distinct b"
  shows "overlap_ratio a b = overlap_ratio b a"
  by (simp only: overlap_ratio_sets [OF assms] overlap_ratio_sets [OF assms(2,1)]
      Int_commute Un_commute)

lemma overlap_ratio_bounds:
  assumes "distinct a" "distinct b"
  shows "0 \<le> overlap_ratio a b" and "overlap_ratio a b \<le> 1"
proof -
  have "card (set a \<inter> set b) \<le> card (set a \<union> set b)"
    by (rule card_mono) auto
  then show "0 \<le> overlap_ratio a b" "overlap_ratio a b \<le> 1"
    by (auto simp: overlap_ratio_sets [OF assms] divide_le_eq_1)
qed

lemma overlap_ratio_one:
  assumes "distinct a" "distinct b" "a \<noteq> []"
  shows "overlap_ratio a b = 1 \<longleftrightarrow> set a = set b"
proof
  assume "overlap_ratio a b = 1"
  then have "card (set a \<inter> set b) = card (set a \<union> set b)"
    using assms by (simp add: overlap_ratio_sets divide_eq_1_iff)
  moreover have "set a \<inter> set b \<subseteq> set a \<union> set b" by auto
  ultimately have "set a \<inter> set b = set a \<union> set b"
    by (intro card_subset_eq) auto
  then show "set a = set b" by auto
next
  assume "set a = set b"
  moreover have "card (set a) \<noteq> 0" using assms(3) by simp
  ultimately show "overlap_ratio a b = 1" using assms by (simp add: overlap_ratio_sets)
qed

section \<open>Stable sorting\<close>

text \<open>
  \<open>Array.prototype.sort\<close> is stable. Sorting by a numeric key is \<open>sort_key\<close>, whose
  stability is \<open>filter_sort_key\<close> below.
\<close>

lemma filter_sort_key: "filter (\<lambda>x. k x = v) (sort_key k xs) = filter (\<lambda>x. k x = v) xs"
  by (rule sort_key_stable)

lemma sort_key_perm: "mset (sort_key k xs) = mset xs"
  by simp

lemma filter_eq_by_all:
  assumes "\<And>x. x \<in> set xs \<Longrightarrow> P x = Q x"
  shows "filter P xs = filter Q xs"
  using assms by (rule filter_cong [OF refl])

lemma sort_key_filter: "filter P (sort_key k xs) = sort_key k (filter P xs)"
  by (rule filter_sort)

section \<open>Lists and options\<close>

lemma find_Some_in: "find P xs = Some x \<Longrightarrow> x \<in> set xs \<and> P x"
  by (auto simp: find_Some_iff)

lemma find_None_all: "find P xs = None \<longleftrightarrow> (\<forall>x \<in> set xs. \<not> P x)"
  by (auto simp: find_None_iff)

lemma distinct_map_eqD:
  "distinct (map f xs) \<Longrightarrow> x \<in> set xs \<Longrightarrow> y \<in> set xs \<Longrightarrow> f x = f y \<Longrightarrow> x = y"
  by (auto simp: distinct_map dest: inj_onD)

lemma sort_key_increasing: "sorted_wrt (<) (map f xs) \<Longrightarrow> sort_key f xs = xs" for f :: "'a \<Rightarrow> 'b :: linorder"
  by (rule sort_key_id_if_sorted) (auto intro: strict_sorted_imp_sorted)

text \<open>\<open>xs.map(f)\<close> where \<open>f\<close> may throw: the first throw ends it.\<close>

fun map_result :: "('a \<Rightarrow> 'e + 'b) \<Rightarrow> 'a list \<Rightarrow> 'e + 'b list" where
  "map_result f [] = Inr []"
| "map_result f (x # xs) =
     (case f x of
        Inl e \<Rightarrow> Inl e
      | Inr y \<Rightarrow> (case map_result f xs of Inl e \<Rightarrow> Inl e | Inr ys \<Rightarrow> Inr (y # ys)))"

lemma map_result_Inr:
  "map_result f xs = Inr ys \<longleftrightarrow> list_all2 (\<lambda>x y. f x = Inr y) xs ys"
proof (induction xs arbitrary: ys)
  case (Cons x xs)
  show ?case
    by (cases "f x"; cases "map_result f xs"; cases ys) (simp_all add: Cons.IH flip: Cons.IH)
qed auto

lemma map_result_all: "(\<And>x. x \<in> set xs \<Longrightarrow> f x = Inr (g x)) \<Longrightarrow> map_result f xs = Inr (map g xs)"
  by (induction xs) auto

text \<open>Going on unless the first part threw.\<close>

definition and_then :: "'e + 'a \<Rightarrow> ('a \<Rightarrow> 'e + 'b) \<Rightarrow> 'e + 'b" where
  "and_then r f = (case r of Inl e \<Rightarrow> Inl e | Inr x \<Rightarrow> f x)"

lemma and_then_simps [simp]: "and_then (Inl e) f = Inl e" "and_then (Inr x) f = f x"
  by (simp_all add: and_then_def)

lemma and_then_Inr: "and_then r f = Inr y \<longleftrightarrow> (\<exists>x. r = Inr x \<and> f x = Inr y)"
  by (cases r) simp_all

lemma and_then_Inl: "and_then r f = Inl e \<longleftrightarrow> r = Inl e \<or> (\<exists>x. r = Inr x \<and> f x = Inl e)"
  by (cases r) simp_all

text \<open>A sort by a key no two members share depends on the members only, not on their order.\<close>

lemma sort_key_of_perm:
  fixes f :: "'a \<Rightarrow> 'b :: linorder"
  assumes "mset xs = mset ys" "inj_on f (set xs)"
  shows "sort_key f xs = sort_key f ys"
proof -
  have "set xs = set ys" using assms(1) by (rule mset_eq_setD)
  have "sort (map f (sort_key f xs)) = sort (map f (sort_key f ys))"
    by (rule properties_for_sort) (simp_all add: assms(1))
  moreover have "sort (map f (sort_key f zs)) = map f (sort_key f zs)" for zs :: "'a list"
    by (rule sort_key_id_if_sorted) simp
  ultimately have "map f (sort_key f xs) = map f (sort_key f ys)" by simp
  then show ?thesis using assms(2) \<open>set xs = set ys\<close> by (intro map_inj_on [of f]) auto
qed

end
