(* ===== verification/Schema_Types.thy ===== *)
theory Schema_Types
  imports Prelude
begin

text \<open>
  The domain model of \<open>packages/schema\<close>: the closed vocabularies of \<open>enums.ts\<close> as
  datatypes with their wire names, the Zod objects as records, and the refinements of
  \<open>memory-candidate.ts\<close> and \<open>curated-memory.ts\<close> as predicates.

  A field the source validates with a Zod enum has the datatype. Two fields of the content
  metadata, \<open>audience\<close> and \<open>proposedByRole\<close>, stay strings: the code that reads them
  is written to fail closed on a value outside the vocabulary, and the model keeps those
  branches.
\<close>

section \<open>Closed vocabularies\<close>

datatype memory_source = Claude_session | Manual | Import | Mcp | Bulk_import

datatype trust_level = Trust_high | Trust_medium | Trust_low | Untrusted

datatype memory_category =
    Decision | Pattern | Convention | Architecture | Troubleshooting | Onboarding | Reference

datatype lifecycle_state = Active | Deprecated | Superseded | Archived

datatype candidate_status = Inbox | Promoted | Rejected | Flagged | Duplicate | Quarantined

datatype policy_rule_type =
    Secret_detection | Dedup_check | Relevance_score | Content_length | Source_trust
  | Tenant_match | Sensitivity_gate | Content_sanitization | Contradiction_check
  | Audience_narrowing

datatype policy_rule_action = Act_reject | Act_flag | Act_approve | Act_require_review

datatype audit_action =
    A_promoted | A_demoted | A_superseded | A_archived | A_deleted | A_searched | A_exported
  | A_recategorized | A_eval_result | A_proposed | A_governed | A_policy_upgraded
  | A_audience_narrowed | A_redacted | A_held | A_hold_recommended | A_hold_resolved

datatype proposer_role = Role_admin | Role_member

datatype audience_tier = Aud_tenant | Aud_admins | Aud_owner

datatype confidence = Conf_high | Conf_medium | Conf_low

datatype sensitivity = Public | Internal | Confidential | Restricted

datatype author_type = Human | Ai | System

datatype link_type = Relates_to | Supersedes | Contradicts | Depends_on | Part_of

datatype link_source = Link_curator | Link_import | Link_manual | Link_mcp

section \<open>Wire names\<close>

fun source_name :: "memory_source \<Rightarrow> string" where
  "source_name Claude_session = ''claude_session''"
| "source_name Manual = ''manual''"
| "source_name Import = ''import''"
| "source_name Mcp = ''mcp''"
| "source_name Bulk_import = ''bulk_import''"

fun trust_name :: "trust_level \<Rightarrow> string" where
  "trust_name Trust_high = ''high''"
| "trust_name Trust_medium = ''medium''"
| "trust_name Trust_low = ''low''"
| "trust_name Untrusted = ''untrusted''"

fun category_name :: "memory_category \<Rightarrow> string" where
  "category_name Decision = ''decision''"
| "category_name Pattern = ''pattern''"
| "category_name Convention = ''convention''"
| "category_name Architecture = ''architecture''"
| "category_name Troubleshooting = ''troubleshooting''"
| "category_name Onboarding = ''onboarding''"
| "category_name Reference = ''reference''"

fun lifecycle_name :: "lifecycle_state \<Rightarrow> string" where
  "lifecycle_name Active = ''active''"
| "lifecycle_name Deprecated = ''deprecated''"
| "lifecycle_name Superseded = ''superseded''"
| "lifecycle_name Archived = ''archived''"

fun status_name :: "candidate_status \<Rightarrow> string" where
  "status_name Inbox = ''inbox''"
| "status_name Promoted = ''promoted''"
| "status_name Rejected = ''rejected''"
| "status_name Flagged = ''flagged''"
| "status_name Duplicate = ''duplicate''"
| "status_name Quarantined = ''quarantined''"

fun rule_type_name :: "policy_rule_type \<Rightarrow> string" where
  "rule_type_name Secret_detection = ''secret_detection''"
| "rule_type_name Dedup_check = ''dedup_check''"
| "rule_type_name Relevance_score = ''relevance_score''"
| "rule_type_name Content_length = ''content_length''"
| "rule_type_name Source_trust = ''source_trust''"
| "rule_type_name Tenant_match = ''tenant_match''"
| "rule_type_name Sensitivity_gate = ''sensitivity_gate''"
| "rule_type_name Content_sanitization = ''content_sanitization''"
| "rule_type_name Contradiction_check = ''contradiction_check''"
| "rule_type_name Audience_narrowing = ''audience_narrowing''"

fun action_name :: "audit_action \<Rightarrow> string" where
  "action_name A_promoted = ''promoted''"
| "action_name A_demoted = ''demoted''"
| "action_name A_superseded = ''superseded''"
| "action_name A_archived = ''archived''"
| "action_name A_deleted = ''deleted''"
| "action_name A_searched = ''searched''"
| "action_name A_exported = ''exported''"
| "action_name A_recategorized = ''recategorized''"
| "action_name A_eval_result = ''eval-result''"
| "action_name A_proposed = ''proposed''"
| "action_name A_governed = ''governed''"
| "action_name A_policy_upgraded = ''policy_upgraded''"
| "action_name A_audience_narrowed = ''audience_narrowed''"
| "action_name A_redacted = ''redacted''"
| "action_name A_held = ''held''"
| "action_name A_hold_recommended = ''hold_recommended''"
| "action_name A_hold_resolved = ''hold_resolved''"

fun audience_name :: "audience_tier \<Rightarrow> string" where
  "audience_name Aud_tenant = ''tenant''"
| "audience_name Aud_admins = ''admins''"
| "audience_name Aud_owner = ''owner''"

fun confidence_name :: "confidence \<Rightarrow> string" where
  "confidence_name Conf_high = ''high''"
| "confidence_name Conf_medium = ''medium''"
| "confidence_name Conf_low = ''low''"

fun sensitivity_name :: "sensitivity \<Rightarrow> string" where
  "sensitivity_name Public = ''public''"
| "sensitivity_name Internal = ''internal''"
| "sensitivity_name Confidential = ''confidential''"
| "sensitivity_name Restricted = ''restricted''"

fun author_type_name :: "author_type \<Rightarrow> string" where
  "author_type_name Human = ''human''"
| "author_type_name Ai = ''ai''"
| "author_type_name System = ''system''"

fun link_type_name :: "link_type \<Rightarrow> string" where
  "link_type_name Relates_to = ''relates_to''"
| "link_type_name Supersedes = ''supersedes''"
| "link_type_name Contradicts = ''contradicts''"
| "link_type_name Depends_on = ''depends_on''"
| "link_type_name Part_of = ''part_of''"

text \<open>The members of each enum, in the order of \<open>z.enum([...])\<close>.\<close>

definition source_options :: "memory_source list" where
  "source_options = [Claude_session, Manual, Import, Mcp, Bulk_import]"

definition trust_options :: "trust_level list" where
  "trust_options = [Trust_high, Trust_medium, Trust_low, Untrusted]"

definition category_options :: "memory_category list" where
  "category_options =
     [Decision, Pattern, Convention, Architecture, Troubleshooting, Onboarding, Reference]"

definition lifecycle_options :: "lifecycle_state list" where
  "lifecycle_options = [Active, Deprecated, Superseded, Archived]"

definition status_options :: "candidate_status list" where
  "status_options = [Inbox, Promoted, Rejected, Flagged, Duplicate, Quarantined]"

definition rule_type_options :: "policy_rule_type list" where
  "rule_type_options =
     [Secret_detection, Dedup_check, Relevance_score, Content_length, Source_trust, Tenant_match,
      Sensitivity_gate, Content_sanitization, Contradiction_check, Audience_narrowing]"

definition audience_options :: "audience_tier list" where
  "audience_options = [Aud_tenant, Aud_admins, Aud_owner]"

definition confidence_options :: "confidence list" where
  "confidence_options = [Conf_high, Conf_medium, Conf_low]"

definition sensitivity_options :: "sensitivity list" where
  "sensitivity_options = [Public, Internal, Confidential, Restricted]"

definition author_type_options :: "author_type list" where
  "author_type_options = [Human, Ai, System]"

section \<open>Parsing a closed vocabulary\<close>

text \<open>\<open>z.enum(options).safeParse(s)\<close>: the member whose wire name is \<open>s\<close>, if any.\<close>

definition parse_enum :: "'e list \<Rightarrow> ('e \<Rightarrow> string) \<Rightarrow> string \<Rightarrow> 'e option" where
  "parse_enum options name s = find (\<lambda>e. name e = s) options"

text \<open>What a closed vocabulary promises its readers.\<close>

locale closed_vocabulary =
  fixes options :: "'e list"
    and name :: "'e \<Rightarrow> string"
  assumes complete: "e \<in> set options"
    and names_distinct: "distinct (map name options)"
begin

lemma name_inj: "name a = name b \<longleftrightarrow> a = b"
  using distinct_map_eqD [OF names_distinct] complete by metis

lemma parse_name: "parse_enum options name (name e) = Some e"
proof (cases "parse_enum options name (name e)")
  case None
  then show ?thesis using complete [of e] by (auto simp: parse_enum_def find_None_all)
next
  case (Some a)
  then have "name a = name e" by (auto simp: parse_enum_def dest: find_Some_in)
  with Some show ?thesis by (simp add: name_inj)
qed

lemma parse_Some: "parse_enum options name s = Some e \<longleftrightarrow> s = name e"
  using parse_name by (auto simp: parse_enum_def dest: find_Some_in)

lemma parse_None: "parse_enum options name s = None \<longleftrightarrow> s \<notin> range name"
proof -
  have "parse_enum options name s = None \<longleftrightarrow> (\<forall>e. parse_enum options name s \<noteq> Some e)"
    by auto
  then show ?thesis by (auto simp: parse_Some)
qed

end

interpretation source_vocab: closed_vocabulary source_options source_name
  by (unfold_locales, case_tac e) (simp_all add: source_options_def)

interpretation trust_vocab: closed_vocabulary trust_options trust_name
  by (unfold_locales, case_tac e) (simp_all add: trust_options_def)

interpretation category_vocab: closed_vocabulary category_options category_name
  by (unfold_locales, case_tac e) (simp_all add: category_options_def)

interpretation lifecycle_vocab: closed_vocabulary lifecycle_options lifecycle_name
  by (unfold_locales, case_tac e) (simp_all add: lifecycle_options_def)

interpretation status_vocab: closed_vocabulary status_options status_name
  by (unfold_locales, case_tac e) (simp_all add: status_options_def)

interpretation rule_type_vocab: closed_vocabulary rule_type_options rule_type_name
  by (unfold_locales, case_tac e) (simp_all add: rule_type_options_def)

interpretation audience_vocab: closed_vocabulary audience_options audience_name
  by (unfold_locales, case_tac e) (simp_all add: audience_options_def)

interpretation confidence_vocab: closed_vocabulary confidence_options confidence_name
  by (unfold_locales, case_tac e) (simp_all add: confidence_options_def)

interpretation sensitivity_vocab: closed_vocabulary sensitivity_options sensitivity_name
  by (unfold_locales, case_tac e) (simp_all add: sensitivity_options_def)

interpretation author_type_vocab: closed_vocabulary author_type_options author_type_name
  by (unfold_locales, case_tac e) (simp_all add: author_type_options_def)

section \<open>Records\<close>

type_synonym uuid = string
type_synonym iso_datetime = string
type_synonym tenant_id = string

record author =
  author_kind :: author_type
  author_id :: string
  author_name :: "string option"

record content_metadata =
  file_paths :: "string list"
  language :: "string option"
  project_context :: "string option"
  session_id :: "string option"
  repo_url :: "string option"
  branch :: "string option"
  md_confidence :: "confidence option"
  md_sensitivity :: "sensitivity option"
  tags :: "string list"
  subjects :: "string list option"
  proposed_by_role :: "string option"
  audience :: "string option"

record pre_policy_flags =
  potential_secret :: bool
  low_confidence :: bool
  duplicate_suspect :: bool

record candidate_origin =
  token_hmac :: string
  channel :: string
  minted_at :: iso_datetime

record memory_candidate =
  cand_id :: uuid
  cand_status :: candidate_status
  cand_source :: memory_source
  cand_content :: string
  cand_title :: string
  cand_category :: memory_category
  cand_trust :: trust_level
  cand_author :: author
  cand_tenant :: tenant_id
  cand_metadata :: content_metadata
  cand_flags :: pre_policy_flags
  captured_at :: iso_datetime
  cand_origin :: "candidate_origin option"

datatype rule_outcome = Pass | Fail | Flag

record policy_evaluation =
  pe_policy_id :: uuid
  pe_rule_id :: string
  pe_result :: rule_outcome
  pe_reason :: "string option"
  pe_evaluated_at :: iso_datetime

record supersession_link =
  superseded_by :: uuid
  link_reason :: string
  linked_at :: iso_datetime

record curated_memory =
  mem_id :: uuid
  mem_candidate_id :: uuid
  mem_source :: memory_source
  mem_content :: string
  mem_title :: string
  mem_category :: memory_category
  mem_trust :: trust_level
  mem_sensitivity :: sensitivity
  mem_author :: author
  mem_tenant :: tenant_id
  mem_metadata :: content_metadata
  mem_lifecycle :: lifecycle_state
  mem_content_hash :: string
  mem_evaluations :: "policy_evaluation list"
  mem_supersession :: "supersession_link option"
  promoted_at :: iso_datetime
  promoted_by :: author
  updated_at :: iso_datetime
  mem_version :: nat

record policy_rule =
  rule_id :: string
  rule_type :: policy_rule_type
  rule_action :: policy_rule_action
  rule_enabled :: bool
  rule_priority :: nat
  rule_parameters :: "(string \<times> jval) list"
  rule_description :: "string option"

record governance_policy =
  policy_id :: uuid
  policy_name :: string
  policy_tenant :: tenant_id
  policy_rules :: "policy_rule list"
  policy_enabled :: bool
  policy_version :: nat
  policy_created_at :: iso_datetime
  policy_updated_at :: iso_datetime

text \<open>The string formats zod checks (\<open>uuid()\<close>, \<open>datetime()\<close>) are left open.\<close>

record formats =
  fmt_uuid :: "string \<Rightarrow> bool"
  fmt_datetime :: "string \<Rightarrow> bool"

section \<open>Shapes and refinements\<close>

text \<open>\<open>NonEmptyString\<close>: trimmed, then at least one character.\<close>

definition non_empty_string :: "string \<Rightarrow> string option" where
  "non_empty_string s = (let t = js_trim s in if t = [] then None else Some t)"

definition is_digit :: "char \<Rightarrow> bool" where
  "is_digit c = (CHR ''0'' \<le> c \<and> c \<le> CHR ''9'')"

definition is_lower :: "char \<Rightarrow> bool" where
  "is_lower c = (CHR ''a'' \<le> c \<and> c \<le> CHR ''z'')"

definition is_lower_hex :: "char \<Rightarrow> bool" where
  "is_lower_hex c = (is_digit c \<or> (CHR ''a'' \<le> c \<and> c \<le> CHR ''f''))"

text \<open>\<open>Sha256Hash\<close>: \<open>/^[a-f0-9]{64}$/\<close>.\<close>

definition sha256_shape :: "string \<Rightarrow> bool" where
  "sha256_shape s = (length s = 64 \<and> list_all is_lower_hex s)"

text \<open>\<open>Tag\<close>: \<open>/^[a-z0-9][a-z0-9-]*$/\<close>.\<close>

definition tag_char :: "char \<Rightarrow> bool" where
  "tag_char c = (is_lower c \<or> is_digit c \<or> c = CHR ''-'')"

definition tag_shape :: "string \<Rightarrow> bool" where
  "tag_shape s = (case s of [] \<Rightarrow> False | c # cs \<Rightarrow> (is_lower c \<or> is_digit c) \<and> list_all tag_char cs)"

text \<open>
  \<open>SubjectKey\<close>: at most 96 characters, tags joined by single dots
  (\<open>/^[a-z0-9][a-z0-9-]*(\\.[a-z0-9][a-z0-9-]*)*$/\<close>). The recursion reads the segments.
\<close>

fun subject_segments :: "bool \<Rightarrow> string \<Rightarrow> bool" where
  "subject_segments inside [] = inside"
| "subject_segments inside (c # cs) =
     (if c = CHR ''.'' then inside \<and> subject_segments False cs
      else (is_lower c \<or> is_digit c \<or> (inside \<and> c = CHR ''-'')) \<and> subject_segments True cs)"

definition subject_shape :: "string \<Rightarrow> bool" where
  "subject_shape s = (length s \<le> 96 \<and> subject_segments False s)"

text \<open>\<open>OriginChannel\<close> and the reserved receipt word of \<open>CandidateOrigin\<close>'s refinement.\<close>

definition origin_shape :: "candidate_origin \<Rightarrow> bool" where
  "origin_shape og =
     (length (token_hmac og) = 64 \<and> list_all is_lower_hex (token_hmac og)
      \<and> tag_shape (channel og) \<and> length (channel og) \<le> 64
      \<and> channel og \<noteq> ''unattested'')"

text \<open>The refinement of \<open>MemoryCandidate\<close>: a bulk import cannot claim curated-grade trust.\<close>

definition candidate_refinement :: "memory_candidate \<Rightarrow> bool" where
  "candidate_refinement c =
     (cand_source c \<noteq> Bulk_import \<or> cand_trust c = Trust_low \<or> cand_trust c = Untrusted)"

text \<open>The refinement of \<open>CuratedMemory\<close>: a superseded memory carries its link.\<close>

definition memory_refinement :: "curated_memory \<Rightarrow> bool" where
  "memory_refinement m =
     (if mem_lifecycle m = Superseded then mem_supersession m \<noteq> None else True)"

lemma tag_is_subject: "tag_shape s \<Longrightarrow> length s \<le> 96 \<Longrightarrow> subject_shape s"
proof -
  have run: "list_all tag_char cs \<Longrightarrow> subject_segments True cs" for cs
    by (induction cs) (auto simp: tag_char_def is_lower_def is_digit_def)
  show "tag_shape s \<Longrightarrow> length s \<le> 96 \<Longrightarrow> subject_shape s"
    by (cases s) (auto simp: tag_shape_def subject_shape_def run is_lower_def is_digit_def)
qed

text \<open>A format check that accepts every string, for concrete examples.\<close>

definition any_format :: formats where
  "any_format = \<lparr>fmt_uuid = (\<lambda>_. True), fmt_datetime = (\<lambda>_. True)\<rparr>"

end
