(* ===== verification/Audience.thy ===== *)
theory Audience
  imports Schema_Types
begin

text \<open>
  Claim-level audience, \<open>packages/common/src/audience.ts\<close>, and the two other ranked
  vocabularies: sensitivity (\<open>policy-engine/src/sensitivity-constraint.ts\<close>) and trust
  (\<open>rules/source-trust-rule.ts\<close>). The predicates take plain strings, as the source does, and
  answer for strings outside the vocabulary too.
\<close>

section \<open>Ranks\<close>

text \<open>\<open>AUDIENCE_RANK\<close> and \<open>READER_ROLE_CLEARANCE\<close>: frozen records, \<open>None\<close> where \<open>Object.hasOwn\<close> is false.\<close>

definition audience_rank :: "string \<rightharpoonup> nat" where
  "audience_rank = map_of [(''tenant'', 0), (''admins'', 1), (''owner'', 2)]"

definition reader_role_clearance :: "string \<rightharpoonup> nat" where
  "reader_role_clearance = map_of [(''member'', 0), (''admin'', 1), (''owner'', 2)]"

definition default_audience :: string where
  "default_audience = ''tenant''"

definition resolve_audience :: "string option \<Rightarrow> string" where
  "resolve_audience a = (case a of None \<Rightarrow> default_audience | Some s \<Rightarrow> s)"

definition is_audience_visible_to_role :: "string option \<Rightarrow> string option \<Rightarrow> bool" where
  "is_audience_visible_to_role a role =
     (case role of
        None \<Rightarrow> False
      | Some r \<Rightarrow>
          (case reader_role_clearance r of
             None \<Rightarrow> False
           | Some clearance \<Rightarrow>
               (case audience_rank (resolve_audience a) of
                  None \<Rightarrow> False
                | Some rk \<Rightarrow> rk \<le> clearance)))"

definition is_exportable_audience :: "string option \<Rightarrow> bool" where
  "is_exportable_audience a = (resolve_audience a = default_audience)"

definition reader_role_for :: "string option \<Rightarrow> bool \<Rightarrow> string" where
  "reader_role_for role owner =
     (if role \<noteq> Some ''admin'' then ''member'' else if owner then ''owner'' else ''admin'')"

section \<open>Narrowing\<close>

datatype narrowing_refusal =
    Widening string string
  | Same_audience string
  | Unknown_from string
  | Unknown_to "string option"

text \<open>\<open>validateAudienceNarrowing\<close>: \<open>Inr (from, to)\<close> for a legal narrowing.\<close>

definition validate_audience_narrowing ::
  "string option \<Rightarrow> string option \<Rightarrow> narrowing_refusal + (string \<times> string)" where
  "validate_audience_narrowing from to_aud =
     (let current = resolve_audience from in
      case audience_rank current of
        None \<Rightarrow> Inl (Unknown_from current)
      | Some from_rank \<Rightarrow>
          (case to_aud of
             None \<Rightarrow> Inl (Unknown_to None)
           | Some t \<Rightarrow>
               (case audience_rank t of
                  None \<Rightarrow> Inl (Unknown_to (Some t))
                | Some to_rank \<Rightarrow>
                    if to_rank = from_rank then Inl (Same_audience current)
                    else if to_rank < from_rank then Inl (Widening current t)
                    else Inr (current, t))))"

definition is_audience_narrowing :: "string option \<Rightarrow> string \<Rightarrow> bool" where
  "is_audience_narrowing from to_aud =
     (case validate_audience_narrowing from (Some to_aud) of Inl _ \<Rightarrow> False | Inr _ \<Rightarrow> True)"

lemma audience_rank_simps [simp]:
  "audience_rank ''tenant'' = Some 0"
  "audience_rank ''admins'' = Some 1"
  "audience_rank ''owner'' = Some 2"
  by (simp_all add: audience_rank_def)

lemma clearance_simps [simp]:
  "reader_role_clearance ''member'' = Some 0"
  "reader_role_clearance ''admin'' = Some 1"
  "reader_role_clearance ''owner'' = Some 2"
  by (simp_all add: reader_role_clearance_def)

lemma audience_rank_dom:
  "audience_rank s = Some n \<Longrightarrow> s = ''tenant'' \<and> n = 0 \<or> s = ''admins'' \<and> n = 1 \<or> s = ''owner'' \<and> n = 2"
  unfolding audience_rank_def map_of.simps fun_upd_apply fst_conv snd_conv
  by (simp split: if_split_asm)

lemma audience_rank_inj: "audience_rank a = Some n \<Longrightarrow> audience_rank b = Some n \<Longrightarrow> a = b"
  by (drule audience_rank_dom, drule audience_rank_dom, elim disjE conjE) simp_all

lemma audience_rank_vocabulary: "audience_rank s \<noteq> None \<longleftrightarrow> parse_enum audience_options audience_name s \<noteq> None"
proof -
  have "audience_rank s \<noteq> None \<longleftrightarrow> s \<in> {''tenant'', ''admins'', ''owner''}"
    unfolding audience_rank_def map_of.simps fun_upd_apply fst_conv snd_conv by simp
  also have "\<dots> \<longleftrightarrow> s \<in> range audience_name"
  proof
    assume "s \<in> {''tenant'', ''admins'', ''owner''}"
    then show "s \<in> range audience_name"
      by (auto intro: range_eqI [of _ _ Aud_tenant] range_eqI [of _ _ Aud_admins]
          range_eqI [of _ _ Aud_owner])
  next
    assume "s \<in> range audience_name"
    then obtain a where "s = audience_name a" by auto
    then show "s \<in> {''tenant'', ''admins'', ''owner''}" by (cases a) auto
  qed
  finally show ?thesis by (simp add: audience_vocab.parse_None)
qed

lemma narrowing_ok_iff:
  "validate_audience_narrowing from (Some t) = Inr (c, t') \<longleftrightarrow>
     c = resolve_audience from \<and> t' = t
     \<and> (\<exists>i j. audience_rank (resolve_audience from) = Some i \<and> audience_rank t = Some j \<and> i < j)"
  by (auto simp: validate_audience_narrowing_def Let_def split: option.splits)

lemma is_narrowing_iff:
  "is_audience_narrowing from t \<longleftrightarrow>
     (\<exists>i j. audience_rank (resolve_audience from) = Some i \<and> audience_rank t = Some j \<and> i < j)"
  by (auto simp: is_audience_narrowing_def validate_audience_narrowing_def Let_def
      split: option.splits)

lemma visible_iff:
  "is_audience_visible_to_role a (Some r) \<longleftrightarrow>
     (\<exists>i j. audience_rank (resolve_audience a) = Some i \<and> reader_role_clearance r = Some j \<and> i \<le> j)"
  by (auto simp: is_audience_visible_to_role_def split: option.splits)

lemma not_visible_None [simp]: "\<not> is_audience_visible_to_role a None"
  by (simp add: is_audience_visible_to_role_def)

text \<open>
  A governed narrowing only ever removes readers. When \<open>validateAudienceNarrowing\<close>
  accepts a change, every role that may read the claim afterwards could already read it before,
  some known role loses access, and the reverse change is refused.
\<close>

theorem narrowing_removes_readers:
  assumes "validate_audience_narrowing from (Some t) = Inr (c, t')"
  shows "(\<forall>r. is_audience_visible_to_role (Some t') r \<longrightarrow> is_audience_visible_to_role from r)
    \<and> (\<exists>r. is_audience_visible_to_role from (Some r) \<and> \<not> is_audience_visible_to_role (Some t') (Some r))
    \<and> \<not> is_audience_narrowing (Some t') c"
proof -
  from assms obtain i j where ij: "audience_rank (resolve_audience from) = Some i"
      "audience_rank t = Some j" "i < j" and c: "c = resolve_audience from" and t: "t' = t"
    by (auto simp: narrowing_ok_iff)
  have keep: "is_audience_visible_to_role (Some t') r \<Longrightarrow> is_audience_visible_to_role from r" for r
    using ij t by (cases r) (auto simp: visible_iff resolve_audience_def)
  have "i = 0 \<or> i = 1" using ij(3) audience_rank_dom [OF ij(1)] audience_rank_dom [OF ij(2)]
    by linarith
  then have "is_audience_visible_to_role from (Some (if i = 0 then ''member'' else ''admin''))
      \<and> \<not> is_audience_visible_to_role (Some t') (Some (if i = 0 then ''member'' else ''admin''))"
    using ij t by (auto simp: visible_iff resolve_audience_def)
  moreover have "\<not> is_audience_narrowing (Some t') c"
    using ij c t by (auto simp: is_narrowing_iff resolve_audience_def)
  ultimately show ?thesis using keep by blast
qed

theorem narrowing_removes_readers_witness:
  "validate_audience_narrowing None (Some ''admins'') = Inr (''tenant'', ''admins'')
   \<and> \<not> is_audience_narrowing (Some ''admins'') ''tenant''"
proof -
  have h: "validate_audience_narrowing None (Some ''admins'') = Inr (''tenant'', ''admins'')"
    by (simp add: validate_audience_narrowing_def resolve_audience_def default_audience_def)
  show ?thesis using h narrowing_removes_readers [OF h] by simp
qed

text \<open>
  Audience checks fail closed. A claim whose declared tier is not one of the known tiers is
  hidden from every role, the owner included, is never exported and can never be narrowed from;
  an unknown or absent role reads nothing; and only an admin token with the owner flag reads
  owner claims.
\<close>

theorem audience_fails_closed:
  "(audience_rank a = None \<longrightarrow>
      \<not> is_audience_visible_to_role (Some a) role \<and> \<not> is_exportable_audience (Some a)
      \<and> (\<exists>e. validate_audience_narrowing (Some a) t = Inl e))
   \<and> (\<forall>r. reader_role_clearance r = None \<longrightarrow> \<not> is_audience_visible_to_role any (Some r))
   \<and> \<not> is_audience_visible_to_role any None
   \<and> (is_audience_visible_to_role (Some ''owner'') (Some (reader_role_for tok own))
        \<longleftrightarrow> tok = Some ''admin'' \<and> own)"
proof -
  have "audience_rank a = None \<Longrightarrow> \<not> is_audience_visible_to_role (Some a) role"
    by (cases role) (auto simp: visible_iff resolve_audience_def)
  moreover have "audience_rank a = None \<Longrightarrow> \<not> is_exportable_audience (Some a)"
    by (auto simp: is_exportable_audience_def resolve_audience_def default_audience_def)
  moreover have "audience_rank a = None \<Longrightarrow> \<exists>e. validate_audience_narrowing (Some a) t = Inl e"
    by (simp add: validate_audience_narrowing_def resolve_audience_def)
  moreover have "is_audience_visible_to_role (Some ''owner'') (Some (reader_role_for tok own))
      \<longleftrightarrow> tok = Some ''admin'' \<and> own"
    by (auto simp: visible_iff resolve_audience_def reader_role_for_def)
  ultimately show ?thesis by (auto simp: visible_iff)
qed

theorem audience_fails_closed_witness:
  "audience_rank ''everyone'' = None \<and> \<not> is_audience_visible_to_role (Some ''everyone'') (Some ''owner'')"
proof -
  have h: "audience_rank ''everyone'' = None" by (simp add: audience_rank_def)
  show ?thesis using h audience_fails_closed [of "''everyone''" "Some ''owner''"] by blast
qed

section \<open>Ranked vocabularies\<close>

text \<open>
  A vocabulary with a rank and an operation that keeps the higher-ranked of two members. The
  operation is a join: order of application does not matter and the result never ranks below
  either operand.
\<close>

locale rank_join =
  fixes rank :: "'a \<Rightarrow> nat"
    and join :: "'a \<Rightarrow> 'a \<Rightarrow> 'a"
  assumes rank_inj: "rank a = rank b \<Longrightarrow> a = b"
    and rank_join: "rank (join a b) = max (rank a) (rank b)"
begin

lemma join_commute: "join a b = join b a"
  by (rule rank_inj) (simp add: rank_join max.commute)

lemma join_assoc: "join (join a b) c = join a (join b c)"
  by (rule rank_inj) (simp add: rank_join max.assoc)

lemma join_idem [simp]: "join a a = a"
  by (rule rank_inj) (simp add: rank_join)

lemma join_left_commute: "join a (join b c) = join b (join a c)"
  by (rule rank_inj) (simp add: rank_join max.left_commute)

lemma rank_join_ge: "rank a \<le> rank (join a b)" "rank b \<le> rank (join a b)"
  by (simp_all add: rank_join)

lemma join_absorb: "rank b \<le> rank a \<Longrightarrow> join a b = a"
  by (rule rank_inj) (simp add: rank_join)

lemma rank_foldl: "rank (foldl join a xs) = Max (insert (rank a) (rank ` set xs))"
proof (induction xs arbitrary: a)
  case Nil
  show ?case by simp
next
  case (Cons x xs)
  have "Max (insert (max (rank a) (rank x)) (rank ` set xs))
      = Max (insert (rank a) (insert (rank x) (rank ` set xs)))"
    by (cases "set xs = {}") (auto simp: max.assoc)
  with Cons show ?case by (simp add: rank_join)
qed

lemma foldl_join_perm:
  assumes "mset xs = mset ys"
  shows "foldl join a xs = foldl join a ys"
proof -
  have "set xs = set ys" using assms by (rule mset_eq_setD)
  then show ?thesis by (intro rank_inj) (simp add: rank_foldl)
qed

end

text \<open>\<open>effectiveSensitivity\<close>: a reviewed floor can only raise the classifier's level.\<close>

fun sensitivity_rank :: "sensitivity \<Rightarrow> nat" where
  "sensitivity_rank Public = 0"
| "sensitivity_rank Internal = 1"
| "sensitivity_rank Confidential = 2"
| "sensitivity_rank Restricted = 3"

definition effective_sensitivity :: "sensitivity \<Rightarrow> sensitivity option \<Rightarrow> sensitivity" where
  "effective_sensitivity classified minimum =
     (case minimum of
        None \<Rightarrow> classified
      | Some m \<Rightarrow> if sensitivity_rank m > sensitivity_rank classified then m else classified)"

lemma sensitivity_rank_inj: "sensitivity_rank a = sensitivity_rank b \<Longrightarrow> a = b"
  by (cases a; cases b) simp_all

interpretation floor: rank_join sensitivity_rank "\<lambda>c m. effective_sensitivity c (Some m)"
  by unfold_locales (auto simp: effective_sensitivity_def dest: sensitivity_rank_inj)

lemma effective_None [simp]: "effective_sensitivity c None = c"
  by (simp add: effective_sensitivity_def)

instantiation sensitivity :: linorder
begin

definition less_eq_sensitivity :: "sensitivity \<Rightarrow> sensitivity \<Rightarrow> bool" where
  "a \<le> b \<longleftrightarrow> sensitivity_rank a \<le> sensitivity_rank b"

definition less_sensitivity :: "sensitivity \<Rightarrow> sensitivity \<Rightarrow> bool" where
  "a < b \<longleftrightarrow> sensitivity_rank a < sensitivity_rank b"

instance
  by standard (auto simp: less_eq_sensitivity_def less_sensitivity_def dest: sensitivity_rank_inj)

end

lemma effective_ge: "c \<le> effective_sensitivity c m" "m = Some f \<Longrightarrow> f \<le> effective_sensitivity c m"
  by (auto simp: effective_sensitivity_def less_eq_sensitivity_def split: option.splits)

lemma effective_is_max: "effective_sensitivity c (Some m) = max c m"
  by (auto simp: effective_sensitivity_def less_eq_sensitivity_def max_def
      dest: sensitivity_rank_inj)

text \<open>\<open>TRUST_ORDER\<close> of the source-trust rule.\<close>

fun trust_order :: "trust_level \<Rightarrow> nat" where
  "trust_order Trust_high = 4"
| "trust_order Trust_medium = 3"
| "trust_order Trust_low = 2"
| "trust_order Untrusted = 1"

lemma trust_order_inj: "trust_order a = trust_order b \<Longrightarrow> a = b"
  by (cases a; cases b) simp_all

lemma trust_order_bounds: "1 \<le> trust_order t" "trust_order t \<le> 4"
  by (cases t; simp)+

instantiation trust_level :: linorder
begin

definition less_eq_trust_level :: "trust_level \<Rightarrow> trust_level \<Rightarrow> bool" where
  "a \<le> b \<longleftrightarrow> trust_order a \<le> trust_order b"

definition less_trust_level :: "trust_level \<Rightarrow> trust_level \<Rightarrow> bool" where
  "a < b \<longleftrightarrow> trust_order a < trust_order b"

instance
  by standard (auto simp: less_eq_trust_level_def less_trust_level_def dest: trust_order_inj)

end

end
