(* ===== verification/Lifecycle.thy ===== *)
theory Lifecycle
  imports Schema_Types
begin

text \<open>
  The lifecycle state graph of \<open>packages/schema/src/lifecycle.ts\<close>: the table of allowed
  transitions, the validation of one transition request, and what can be reached along
  allowed transitions.
\<close>

record transition_request =
  tr_reason :: string
  tr_actor :: author
  tr_superseded_by :: "uuid option"

fun allowed_transitions :: "lifecycle_state \<Rightarrow> lifecycle_state list" where
  "allowed_transitions Active = [Deprecated, Superseded, Archived]"
| "allowed_transitions Deprecated = [Active, Archived]"
| "allowed_transitions Superseded = [Archived]"
| "allowed_transitions Archived = []"

definition is_transition_allowed :: "lifecycle_state \<Rightarrow> lifecycle_state \<Rightarrow> bool" where
  "is_transition_allowed from to_state = (to_state \<in> set (allowed_transitions from))"

datatype transition_error =
    Transition_not_allowed lifecycle_state lifecycle_state
  | Requires_superseded_by

text \<open>\<open>!request.supersededBy\<close> holds for an absent and for an empty string.\<close>

definition falsy :: "string option \<Rightarrow> bool" where
  "falsy s = (s = None \<or> s = Some [])"

definition validate_transition ::
  "lifecycle_state \<Rightarrow> lifecycle_state \<Rightarrow> transition_request \<Rightarrow> transition_error + unit" where
  "validate_transition from to_state request =
     (if \<not> is_transition_allowed from to_state
      then Inl (Transition_not_allowed from to_state)
      else if to_state = Superseded \<and> falsy (tr_superseded_by request)
      then Inl Requires_superseded_by
      else Inr ())"

definition get_allowed_transitions_from :: "lifecycle_state \<Rightarrow> lifecycle_state list" where
  "get_allowed_transitions_from state = allowed_transitions state"

lemma is_transition_allowed_simps [simp]:
  "is_transition_allowed Active t \<longleftrightarrow> t \<noteq> Active"
  "is_transition_allowed Deprecated t \<longleftrightarrow> t = Active \<or> t = Archived"
  "is_transition_allowed Superseded t \<longleftrightarrow> t = Archived"
  "\<not> is_transition_allowed Archived t"
  by (cases t; simp add: is_transition_allowed_def)+

lemma not_allowed_self [simp]: "\<not> is_transition_allowed s s"
  by (cases s) simp_all

lemma allowed_to_superseded [simp]: "is_transition_allowed s Superseded \<longleftrightarrow> s = Active"
  by (cases s) simp_all

lemma validate_ok_iff:
  "validate_transition from to_state r = Inr () \<longleftrightarrow>
     is_transition_allowed from to_state
     \<and> (to_state = Superseded \<longrightarrow> \<not> falsy (tr_superseded_by r))"
  by (simp add: validate_transition_def)

section \<open>Runs of validated transitions\<close>

text \<open>One validated step, and the states a memory can go through.\<close>

inductive lifecycle_step :: "lifecycle_state \<Rightarrow> lifecycle_state \<Rightarrow> bool" where
  step: "validate_transition s t r = Inr () \<Longrightarrow> lifecycle_step s t"

inductive_cases lifecycle_stepE: "lifecycle_step s t"

lemma lifecycle_step_iff: "lifecycle_step s t \<longleftrightarrow> is_transition_allowed s t"
proof
  assume "lifecycle_step s t"
  then show "is_transition_allowed s t"
    by (auto elim: lifecycle_stepE simp: validate_ok_iff)
next
  assume "is_transition_allowed s t"
  then have "validate_transition s t
      \<lparr>tr_reason = ''r'', tr_actor = \<lparr>author_kind = Human, author_id = ''a'', author_name = None\<rparr>,
       tr_superseded_by = Some ''u''\<rparr> = Inr ()"
    by (simp add: validate_ok_iff falsy_def)
  then show "lifecycle_step s t" by (rule lifecycle_step.step)
qed

abbreviation lifecycle_run :: "lifecycle_state \<Rightarrow> lifecycle_state \<Rightarrow> bool" where
  "lifecycle_run \<equiv> lifecycle_step\<^sup>*\<^sup>*"

lemma archived_final: "lifecycle_run Archived t \<Longrightarrow> t = Archived"
  by (induction rule: rtranclp_induct) (auto simp: lifecycle_step_iff)

lemma superseded_run: "lifecycle_run Superseded t \<Longrightarrow> t = Superseded \<or> t = Archived"
  by (induction rule: rtranclp_induct) (auto simp: lifecycle_step_iff)

lemma run_to_archived: "lifecycle_run s Archived"
  by (cases s) (auto simp: lifecycle_step_iff intro: r_into_rtranclp)

lemma active_run_back: "lifecycle_run s Active \<Longrightarrow> s = Active \<or> s = Deprecated"
  by (cases s) (auto dest: archived_final superseded_run)

text \<open>
  Retirement is final. Along any sequence of transitions that \<open>validateTransition\<close>
  accepts, an archived memory stays archived and a superseded memory only moves on to
  archived, so neither is ever active again; and every state can still be archived.
\<close>

theorem retirement_is_final:
  "(lifecycle_run Archived t \<longrightarrow> t = Archived)
   \<and> (lifecycle_run Superseded t \<longrightarrow> t = Superseded \<or> t = Archived)
   \<and> \<not> lifecycle_run Archived Active \<and> \<not> lifecycle_run Superseded Active
   \<and> lifecycle_run s Archived"
  using archived_final superseded_run run_to_archived active_run_back by blast

theorem retirement_is_final_witness:
  "lifecycle_run Superseded Archived \<and> (Archived = Superseded \<or> Archived = Archived)
   \<and> lifecycle_run Archived Archived"
  using retirement_is_final [of Archived Superseded] by simp

end
