(* ===== verification/Json.thy ===== *)
theory Json
  imports Prelude
begin

text \<open>
  \<open>JSON.stringify\<close> and \<open>JSON.parse\<close> as the store uses them: escaping and quoting of
  strings, the rendering of a value, and a parser that accepts the grammar of RFC 8259 over
  Latin-1 text. The lemmas show that quoting and rendering are injective also in the middle of a
  longer text, which the hash chain rests on, and that parsing a rendered value gives it back.
\<close>

section \<open>Rendering\<close>

definition hex_digit :: "nat \<Rightarrow> char" where
  "hex_digit n = (if n < 10 then char_of (48 + n) else char_of (87 + n))"

text \<open>\<open>QuoteJSONString\<close>: two-character escapes, \<open>u00xx\<close> below the space, the rest as it is.\<close>

definition json_escape :: "char \<Rightarrow> string" where
  "json_escape c =
     (if c = CHR 0x22 then [CHR 0x5C, CHR 0x22]
      else if c = CHR 0x5C then [CHR 0x5C, CHR 0x5C]
      else if c = CHR 0x08 then [CHR 0x5C, CHR ''b'']
      else if c = CHR 0x0C then [CHR 0x5C, CHR ''f'']
      else if c = CHR 0x0A then [CHR 0x5C, CHR ''n'']
      else if c = CHR 0x0D then [CHR 0x5C, CHR ''r'']
      else if c = CHR 0x09 then [CHR 0x5C, CHR ''t'']
      else if (of_char c :: nat) < 32
        then [CHR 0x5C, CHR ''u'', CHR ''0'', CHR ''0'',
              hex_digit (of_char c div 16), hex_digit (of_char c mod 16)]
      else [c])"

definition json_quote :: "string \<Rightarrow> string" where
  "json_quote s = CHR 0x22 # concat (map json_escape s) @ [CHR 0x22]"

definition json_nullable :: "string option \<Rightarrow> string" where
  "json_nullable s = (case s of None \<Rightarrow> ''null'' | Some x \<Rightarrow> json_quote x)"

fun decimal :: "nat \<Rightarrow> string" where
  "decimal n = (if n < 10 then [char_of (48 + n)] else decimal (n div 10) @ [char_of (48 + n mod 10)])"

declare decimal.simps [simp del]

text \<open>
  The digits after the point, at most \<open>fuel\<close> of them. A double that the source writes as a
  decimal with at most 17 significant digits and an exponent in JavaScript's positional range is
  rendered exactly.
\<close>

fun fraction_digits :: "nat \<Rightarrow> rat \<Rightarrow> string" where
  "fraction_digits 0 x = []"
| "fraction_digits (Suc n) x =
     (if x = 0 then [] else char_of (48 + nat \<lfloor>10 * x\<rfloor>) # fraction_digits n (10 * x - of_int \<lfloor>10 * x\<rfloor>))"

definition js_number :: "rat \<Rightarrow> string" where
  "js_number x =
     (let a = \<bar>x\<bar>; whole = decimal (nat \<lfloor>a\<rfloor>); rest = a - of_int \<lfloor>a\<rfloor>
      in (if x < 0 then ''-'' else '''') @ whole
         @ (if rest = 0 then '''' else ''.'' @ fraction_digits 17 rest))"

fun json_commas :: "string list \<Rightarrow> string" where
  "json_commas [] = []"
| "json_commas [x] = x"
| "json_commas (x # y # ys) = x @ '','' @ json_commas (y # ys)"

definition json_member :: "string \<Rightarrow> string \<Rightarrow> string" where
  "json_member k v = json_quote k @ '':'' @ v"

definition json_object :: "(string \<times> string) list \<Rightarrow> string" where
  "json_object kvs = ''{'' @ json_commas (map (\<lambda>(k, v). json_member k v) kvs) @ ''}''"

fun json_stringify :: "jval \<Rightarrow> string" where
  "json_stringify JNull = ''null''"
| "json_stringify (JBool b) = (if b then ''true'' else ''false'')"
| "json_stringify (JNum x) = js_number x"
| "json_stringify (JStr s) = json_quote s"
| "json_stringify (JArr vs) = ''['' @ json_commas (map json_stringify vs) @ '']''"
| "json_stringify (JObj kvs) =
     ''{'' @ json_commas (map (\<lambda>(k, v). json_quote k @ '':'' @ json_stringify v) kvs) @ ''}''"

section \<open>Parsing\<close>

definition hex_value :: "char \<Rightarrow> nat option" where
  "hex_value c =
     (let n = of_char c :: nat
      in if 48 \<le> n \<and> n \<le> 57 then Some (n - 48)
         else if 97 \<le> n \<and> n \<le> 102 then Some (n - 87)
         else if 65 \<le> n \<and> n \<le> 70 then Some (n - 55) else None)"

text \<open>
  The character a backslash introduces, and the text after it. A \<open>u\<close> escape above \<open>00ff\<close> is
  outside the modelled text and is refused.
\<close>

fun json_unescape :: "string \<Rightarrow> (char \<times> string) option" where
  "json_unescape (e # r) =
     (if e = CHR 0x22 \<or> e = CHR 0x5C \<or> e = CHR ''/'' then Some (e, r)
      else if e = CHR ''b'' then Some (CHR 0x08, r)
      else if e = CHR ''f'' then Some (CHR 0x0C, r)
      else if e = CHR ''n'' then Some (CHR 0x0A, r)
      else if e = CHR ''r'' then Some (CHR 0x0D, r)
      else if e = CHR ''t'' then Some (CHR 0x09, r)
      else if e = CHR ''u'' then
        (case r of
           z1 # z2 # h # l # r' \<Rightarrow>
             (case (hex_value h, hex_value l) of
                (Some a, Some b) \<Rightarrow>
                  if z1 = CHR ''0'' \<and> z2 = CHR ''0'' then Some (char_of (16 * a + b), r') else None
              | _ \<Rightarrow> None)
         | _ \<Rightarrow> None)
      else None)"
| "json_unescape [] = None"

lemma json_unescape_shorter: "json_unescape s = Some (c, r) \<Longrightarrow> length r < length s"
  by (cases s) (auto split: if_splits list.splits option.splits prod.splits)

text \<open>The body of a string literal up to its closing quote.\<close>

function json_body :: "string \<Rightarrow> (string \<times> string) option" where
  "json_body s =
     (case s of
        [] \<Rightarrow> None
      | c # r \<Rightarrow>
          if c = CHR 0x22 then Some ([], r)
          else if c = CHR 0x5C then
            (case json_unescape r of
               None \<Rightarrow> None
             | Some (d, r') \<Rightarrow> map_option (\<lambda>(t, u). (d # t, u)) (json_body r'))
          else if (of_char c :: nat) < 32 then None
          else map_option (\<lambda>(t, u). (c # t, u)) (json_body r))"
  by pat_completeness auto
termination
  by (relation "measure length") (auto dest: json_unescape_shorter)

declare json_body.simps [simp del]

definition json_ws :: "char \<Rightarrow> bool" where
  "json_ws c = ((of_char c :: nat) \<in> {9, 10, 13, 32})"

definition json_digit :: "char \<Rightarrow> bool" where
  "json_digit c = (let n = of_char c :: nat in 48 \<le> n \<and> n \<le> 57)"

definition digits_value :: "string \<Rightarrow> nat" where
  "digits_value ds = foldl (\<lambda>a c. 10 * a + (of_char c - 48)) 0 ds"

text \<open>The fraction and the exponent of a number, when present.\<close>

definition json_fraction :: "string \<Rightarrow> (rat \<times> string) option" where
  "json_fraction s =
     (case s of
        c # r \<Rightarrow>
          if c = CHR ''.'' then
            (let ds = takeWhile json_digit r
             in if ds = [] then None
                else Some (of_nat (digits_value ds) / 10 ^ length ds, dropWhile json_digit r))
          else Some (0, s)
      | [] \<Rightarrow> Some (0, s))"

definition json_exponent :: "string \<Rightarrow> (rat \<times> string) option" where
  "json_exponent s =
     (case s of
        c # r \<Rightarrow>
          if c = CHR ''e'' \<or> c = CHR ''E'' then
            (let neg = (take 1 r = ''-'');
                 r' = (if take 1 r = ''-'' \<or> take 1 r = ''+'' then drop 1 r else r);
                 ds = takeWhile json_digit r'
             in if ds = [] then None
                else Some (if neg then 1 / 10 ^ digits_value ds else 10 ^ digits_value ds,
                           dropWhile json_digit r'))
          else Some (1, s)
      | [] \<Rightarrow> Some (1, s))"

definition json_number :: "string \<Rightarrow> (jval \<times> string) option" where
  "json_number s =
     (let neg = (take 1 s = ''-'');
          s1 = (if neg then drop 1 s else s);
          ds = takeWhile json_digit s1
      in if ds = [] \<or> (length ds > 1 \<and> hd ds = CHR ''0'') then None
         else case json_fraction (dropWhile json_digit s1) of
                None \<Rightarrow> None
              | Some (fr, s2) \<Rightarrow>
                  (case json_exponent s2 of
                     None \<Rightarrow> None
                   | Some (ex, s3) \<Rightarrow>
                       let v = (of_nat (digits_value ds) + fr) * ex
                       in Some (JNum (if neg then - v else v), s3)))"

definition json_skip :: "string \<Rightarrow> string" where
  "json_skip s = dropWhile json_ws s"

text \<open>A repeated key keeps its first position and its last value.\<close>

fun json_put :: "string \<Rightarrow> jval \<Rightarrow> (string \<times> jval) list \<Rightarrow> (string \<times> jval) list" where
  "json_put k v [] = [(k, v)]"
| "json_put k v ((k', v') # kvs) = (if k = k' then (k, v) # kvs else (k', v') # json_put k v kvs)"

definition json_collect :: "(string \<times> jval) list \<Rightarrow> (string \<times> jval) list" where
  "json_collect kvs = foldl (\<lambda>acc (k, v). json_put k v acc) [] kvs"

text \<open>
  The parser proper. The fuel bounds the depth of the recursion; \<open>json_parse\<close> starts it at one
  more than twice the length of the text, and every call consumes at least one character per
  two levels.
\<close>

fun json_value :: "nat \<Rightarrow> string \<Rightarrow> (jval \<times> string) option"
  and json_elems :: "nat \<Rightarrow> string \<Rightarrow> (jval list \<times> string) option"
  and json_members :: "nat \<Rightarrow> string \<Rightarrow> ((string \<times> jval) list \<times> string) option"
where
  "json_value 0 s = None"
| "json_value (Suc n) s =
     (case json_skip s of
        [] \<Rightarrow> None
      | c # r \<Rightarrow>
          if c = CHR 0x22 then map_option (\<lambda>(t, u). (JStr t, u)) (json_body r)
          else if c = CHR ''['' then
            (if take 1 (json_skip r) = '']'' then Some (JArr [], drop 1 (json_skip r))
             else map_option (\<lambda>(vs, u). (JArr vs, u)) (json_elems n r))
          else if c = CHR ''{'' then
            (if take 1 (json_skip r) = ''}'' then Some (JObj [], drop 1 (json_skip r))
             else map_option (\<lambda>(kvs, u). (JObj (json_collect kvs), u)) (json_members n r))
          else if take 3 r = ''ull'' \<and> c = CHR ''n'' then Some (JNull, drop 3 r)
          else if take 3 r = ''rue'' \<and> c = CHR ''t'' then Some (JBool True, drop 3 r)
          else if take 4 r = ''alse'' \<and> c = CHR ''f'' then Some (JBool False, drop 4 r)
          else json_number (c # r))"
| "json_elems 0 s = None"
| "json_elems (Suc n) s =
     (case json_value n s of
        None \<Rightarrow> None
      | Some (v, r) \<Rightarrow>
          (case json_skip r of
             [] \<Rightarrow> None
           | c # u \<Rightarrow>
               if c = CHR '']'' then Some ([v], u)
               else if c = CHR '','' then map_option (\<lambda>(vs, w). (v # vs, w)) (json_elems n u)
               else None))"
| "json_members 0 s = None"
| "json_members (Suc n) s =
     (case json_skip s of
        [] \<Rightarrow> None
      | q # s1 \<Rightarrow>
          if q \<noteq> CHR 0x22 then None
          else case json_body s1 of
                 None \<Rightarrow> None
               | Some (k, s2) \<Rightarrow>
                   (case json_skip s2 of
                      [] \<Rightarrow> None
                    | d # s3 \<Rightarrow>
                        if d \<noteq> CHR '':'' then None
                        else case json_value n s3 of
                               None \<Rightarrow> None
                             | Some (v, s4) \<Rightarrow>
                                 (case json_skip s4 of
                                    [] \<Rightarrow> None
                                  | c # u \<Rightarrow>
                                      if c = CHR ''}'' then Some ([(k, v)], u)
                                      else if c = CHR '','' then
                                        map_option (\<lambda>(kvs, w). ((k, v) # kvs, w)) (json_members n u)
                                      else None)))"

definition json_parse :: "string \<Rightarrow> jval option" where
  "json_parse s =
     (case json_value (2 * length s + 1) s of
        Some (v, r) \<Rightarrow> if json_skip r = [] then Some v else None
      | None \<Rightarrow> None)"

section \<open>Quoting is injective\<close>

lemma hex_value_digit [simp]: "n < 16 \<Longrightarrow> hex_value (hex_digit n) = Some n"
  by (auto simp: hex_value_def hex_digit_def Let_def)

lemma of_char_lt: "(of_char c :: nat) < 256"
  by (metis of_char_mod_256 mod_less_divisor zero_less_numeral)

lemma unescape_escape:
  "json_escape c = CHR 0x5C # e \<Longrightarrow> json_unescape (e @ x) = Some (c, x)"
  "json_escape c \<noteq> [c] \<Longrightarrow> \<exists>e. json_escape c = CHR 0x5C # e"
proof -
  show "json_escape c \<noteq> [c] \<Longrightarrow> \<exists>e. json_escape c = CHR 0x5C # e"
    by (auto simp: json_escape_def split: if_split_asm)
  assume e: "json_escape c = CHR 0x5C # e"
  show "json_unescape (e @ x) = Some (c, x)"
  proof (cases "c \<in> {CHR 0x22, CHR 0x5C, CHR 0x08, CHR 0x0C, CHR 0x0A, CHR 0x0D, CHR 0x09}")
    case True
    then show ?thesis using e by (elim insertE emptyE) (auto simp: json_escape_def)
  next
    case False
    then have lt: "(of_char c :: nat) < 32" 
      and e': "e = [CHR ''u'', CHR ''0'', CHR ''0'', hex_digit (of_char c div 16), hex_digit (of_char c mod 16)]"
      using e by (auto simp: json_escape_def split: if_splits)
    have "(of_char c :: nat) div 16 < 16" using lt by simp
    then show ?thesis by (simp add: e')
  qed
qed

lemma escape_plain: "json_escape c = [c] \<Longrightarrow> c \<noteq> CHR 0x22 \<and> c \<noteq> CHR 0x5C \<and> \<not> (of_char c :: nat) < 32"
  by (auto simp: json_escape_def split: if_splits)

lemma json_body_escape: "json_body (json_escape c @ x) = map_option (\<lambda>(t, u). (c # t, u)) (json_body x)"
proof (cases "json_escape c = [c]")
  case True
  with escape_plain [OF True] show ?thesis by (subst json_body.simps) simp
next
  case False
  then obtain e where e: "json_escape c = CHR 0x5C # e" using unescape_escape(2) by blast
  show ?thesis
    by (subst json_body.simps) (simp add: e unescape_escape(1) [OF e])
qed

lemma json_body_quoted [simp]: "json_body (concat (map json_escape s) @ CHR 0x22 # r) = Some (s, r)"
proof (induction s)
  case Nil
  show ?case by (simp add: json_body.simps)
next
  case (Cons c s)
  then show ?case by (simp add: json_body_escape)
qed

lemma json_quote_inj [simp]: "json_quote a @ x = json_quote b @ y \<longleftrightarrow> a = b \<and> x = y"
proof
  assume "json_quote a @ x = json_quote b @ y"
  then have "json_body (concat (map json_escape a) @ CHR 0x22 # x) = json_body (concat (map json_escape b) @ CHR 0x22 # y)"
    by (simp add: json_quote_def)
  then show "a = b \<and> x = y" by simp
qed auto

lemma json_quote_eq [simp]: "json_quote a = json_quote b \<longleftrightarrow> a = b"
  using json_quote_inj [of a "[]" b "[]"] by simp

lemma json_quote_hd: "json_quote s = CHR 0x22 # tl (json_quote s)"
  by (simp add: json_quote_def)

lemma null_not_quote [simp]: "CHR ''n'' # x \<noteq> json_quote s @ y" "json_quote s @ y \<noteq> CHR ''n'' # x"
  by (simp_all add: json_quote_def)

lemma json_nullable_inj [simp]: "json_nullable a @ x = json_nullable b @ y \<longleftrightarrow> a = b \<and> x = y"
  by (cases a; cases b) (simp_all add: json_nullable_def)

section \<open>Parsing what was rendered\<close>

text \<open>Values whose numbers are integers and whose objects do not repeat a key.\<close>

fun json_plain :: "jval \<Rightarrow> bool" where
  "json_plain (JNum x) = (x \<in> \<int>)"
| "json_plain (JArr vs) = (\<forall>v \<in> set vs. json_plain v)"
| "json_plain (JObj kvs) = (distinct (map fst kvs) \<and> (\<forall>kv \<in> set kvs. json_plain (snd kv)))"
| "json_plain _ = True"

text \<open>
  Objects that do not repeat a key, whatever their numbers are, and the value a rendering reads
  back as: a number with more than seventeen decimals is cut after them.
\<close>

fun json_distinct :: "jval \<Rightarrow> bool" where
  "json_distinct (JArr vs) = (\<forall>v \<in> set vs. json_distinct v)"
| "json_distinct (JObj kvs) = (distinct (map fst kvs) \<and> (\<forall>kv \<in> set kvs. json_distinct (snd kv)))"
| "json_distinct _ = True"

definition js_round :: "rat \<Rightarrow> rat" where
  "js_round x =
     (let a = \<bar>x\<bar>; rest = a - of_int \<lfloor>a\<rfloor>; ds = fraction_digits 17 rest;
          v = of_nat (nat \<lfloor>a\<rfloor>) + (if rest = 0 then 0 else of_nat (digits_value ds) / 10 ^ length ds)
      in if x < 0 then - v else v)"

fun json_round :: "jval \<Rightarrow> jval" where
  "json_round (JNum x) = JNum (js_round x)"
| "json_round (JArr vs) = JArr (map json_round vs)"
| "json_round (JObj kvs) = JObj (map (\<lambda>kv. (fst kv, json_round (snd kv))) kvs)"
| "json_round v = v"

lemma js_round_int [simp]: "x \<in> \<int> \<Longrightarrow> js_round x = x"
  by (auto simp: js_round_def Let_def elim!: Ints_cases)

lemma plain_distinct: "json_plain v \<Longrightarrow> json_distinct v"
  by (induction v) auto

lemma plain_round: "json_plain v \<Longrightarrow> json_round v = v"
proof (induction v)
  case (JArr vs)
  then show ?case by (simp add: map_idI)
next
  case (JObj kvs)
  have "json_round (snd kv) = snd kv" if kv: "kv \<in> set kvs" for kv
  proof -
    have "snd kv \<in> Basic_BNFs.snds kv" by (cases kv) (simp add: snds.intros)
    then show ?thesis using JObj.IH [OF kv] JObj.prems kv by simp
  qed
  then show ?case by (simp add: map_idI)
qed auto

text \<open>What may follow a value inside a text.\<close>

definition json_stop :: "string \<Rightarrow> bool" where
  "json_stop r = (r = [] \<or> hd r \<in> {CHR '','', CHR '']'', CHR ''}''})"

lemma digit_char [simp]: "(n :: nat) < 10 \<Longrightarrow> json_digit (char_of (48 + n))"
  by (simp add: json_digit_def Let_def)

lemma decimal_digits: "\<forall>c \<in> set (decimal n). json_digit c"
  by (induction n rule: decimal.induct) (subst decimal.simps, auto)

lemma decimal_nonempty [simp]: "decimal n \<noteq> []"
  by (subst decimal.simps) simp

lemma digits_value_snoc: "digits_value (ds @ [c]) = 10 * digits_value ds + (of_char c - 48)"
  by (simp add: digits_value_def)

lemma digits_value_decimal [simp]: "digits_value (decimal n) = n"
proof (induction n rule: decimal.induct)
  case (1 n)
  show ?case
  proof (cases "n < 10")
    case True
    then show ?thesis by (subst decimal.simps) (simp add: digits_value_def)
  next
    case False
    then have "digits_value (decimal n) = 10 * (n div 10) + n mod 10"
      using 1 by (subst decimal.simps) (simp add: digits_value_snoc)
    then show ?thesis by simp
  qed
qed

lemma decimal_hd: "n \<noteq> 0 \<Longrightarrow> hd (decimal n) \<noteq> CHR ''0''"
proof (induction n rule: decimal.induct)
  case (1 n)
  show ?case
  proof (cases "n < 10")
    case True
    have "(of_char (char_of (48 + n) :: char) :: nat) = 48 + n" using True by simp
    moreover have "(of_char (CHR ''0'') :: nat) = 48" by simp
    ultimately have "char_of (48 + n) \<noteq> CHR ''0''" using 1 by (metis add_cancel_right_right)
    then show ?thesis using True by (subst decimal.simps) simp
  next
    case False
    then show ?thesis using 1 by (subst decimal.simps) simp
  qed
qed

lemma decimal_no_leading_zero: "length (decimal n) > 1 \<Longrightarrow> hd (decimal n) \<noteq> CHR ''0''"
  by (cases "n = 0") (simp add: decimal.simps, rule decimal_hd)

lemma json_skip_stop: "json_stop r \<Longrightarrow> json_skip r = r"
  by (cases r) (auto simp: json_stop_def json_skip_def json_ws_def)

lemma stop_takeWhile: "json_stop r \<Longrightarrow> takeWhile json_digit r = [] \<and> dropWhile json_digit r = r"
  by (cases r) (auto simp: json_stop_def json_digit_def)

lemma json_stop_fraction: "json_stop r \<Longrightarrow> json_fraction r = Some (0, r) \<and> json_exponent r = Some (1, r)"
  by (cases r) (auto simp: json_stop_def json_fraction_def json_exponent_def)

lemma fraction_are_digits: "0 \<le> x \<Longrightarrow> x < 1 \<Longrightarrow> c \<in> set (fraction_digits n x) \<Longrightarrow> json_digit c"
proof (induction n x rule: fraction_digits.induct)
  case (2 n x)
  have "\<lfloor>10 * x\<rfloor> < (10 :: int)" using "2.prems"(2) by (simp add: floor_less_iff)
  then have digit: "nat \<lfloor>10 * x\<rfloor> < 10" by linarith
  have "0 \<le> 10 * x - of_int \<lfloor>10 * x\<rfloor>" "10 * x - of_int \<lfloor>10 * x\<rfloor> < 1"
    using floor_correct [of "10 * x"] by linarith+
  then show ?case using 2 digit_char [OF digit] by (auto split: if_splits)
qed simp

lemma stop_fraction_digits:
  assumes "\<And>c. c \<in> set ds \<Longrightarrow> json_digit c" "ds \<noteq> []" "json_stop r"
  shows "json_fraction (CHR ''.'' # ds @ r) = Some (of_nat (digits_value ds) / 10 ^ length ds, r)"
  using assms stop_takeWhile [OF assms(3)]
  by (simp add: json_fraction_def takeWhile_append2 dropWhile_append2)

lemma json_number_render:
  assumes "json_stop r"
  shows "json_number (js_number x @ r) = Some (JNum (js_round x), r)"
proof -
  define n rest where "n = nat \<lfloor>\<bar>x\<bar>\<rfloor>" and "rest = \<bar>x\<bar> - of_int \<lfloor>\<bar>x\<bar>\<rfloor>"
  define tail where "tail = (if rest = 0 then [] else CHR ''.'' # fraction_digits 17 rest)"
  define fr :: rat where
    "fr = (if rest = 0 then 0 else of_nat (digits_value (fraction_digits 17 rest)) / 10 ^ length (fraction_digits 17 rest))"
  have js: "js_number x = (if x < 0 then ''-'' else '''') @ decimal n @ tail"
    by (simp add: js_number_def Let_def n_def rest_def tail_def)
  have val: "js_round x = (if x < 0 then - (of_nat n + fr) else of_nat n + fr)"
    by (simp add: js_round_def Let_def n_def rest_def fr_def)
  have rest: "0 \<le> rest" "rest < 1" using floor_correct [of "\<bar>x\<bar>"] unfolding rest_def by linarith+
  have frac: "json_fraction (tail @ r) = Some (fr, r)"
  proof (cases "rest = 0")
    case True
    then show ?thesis using json_stop_fraction [OF assms] by (simp add: tail_def fr_def)
  next
    case False
    then have "fraction_digits 17 rest \<noteq> []" by (simp add: numeral_eq_Suc)
    then show ?thesis using False stop_fraction_digits [OF fraction_are_digits [OF rest] _ assms]
      by (simp add: tail_def fr_def)
  qed
  have nodigit: "takeWhile json_digit (tail @ r) = []" "dropWhile json_digit (tail @ r) = tail @ r"
    using stop_takeWhile [OF assms] by (auto simp: tail_def json_digit_def)
  have tw: "takeWhile json_digit (decimal n @ tail @ r) = decimal n"
      "dropWhile json_digit (decimal n @ tail @ r) = tail @ r"
    using decimal_digits [of n] nodigit by (auto simp: takeWhile_append dropWhile_append)
  obtain d ds where dn: "decimal n = d # ds" by (cases "decimal n") auto
  have nominus: "d \<noteq> CHR ''-''"
    using decimal_digits [of n] by (auto simp: dn json_digit_def)
  have "json_exponent r = Some (1, r)" using json_stop_fraction [OF assms] by simp
  then have core: "json_number (decimal n @ tail @ r) = Some (JNum (of_nat n + fr), r)"
      "json_number (CHR ''-'' # decimal n @ tail @ r) = Some (JNum (- (of_nat n + fr)), r)"
    using nominus tw decimal_no_leading_zero [of n] frac
    by (simp_all add: json_number_def Let_def) (simp_all add: dn)
  then show ?thesis unfolding js val by simp
qed

text \<open>The fuel a value needs.\<close>

fun json_cost :: "jval \<Rightarrow> nat" where
  "json_cost (JArr vs) = Suc (sum_list (map (\<lambda>v. Suc (json_cost v)) vs))"
| "json_cost (JObj kvs) = Suc (sum_list (map (\<lambda>kv. Suc (json_cost (snd kv))) kvs))"
| "json_cost _ = 1"

lemma json_put_fresh: "k \<notin> set (map fst kvs) \<Longrightarrow> json_put k v kvs = kvs @ [(k, v)]"
  by (induction kvs) auto

lemma foldl_json_put:
  "distinct (map fst (acc @ kvs)) \<Longrightarrow> foldl (\<lambda>acc (k, v). json_put k v acc) acc kvs = acc @ kvs"
proof (induction kvs arbitrary: acc)
  case (Cons kv kvs)
  obtain k v where kv: "kv = (k, v)" by (cases kv)
  have "json_put k v acc = acc @ [(k, v)]" using Cons.prems by (intro json_put_fresh) (auto simp: kv)
  then show ?case using Cons.IH [of "acc @ [kv]"] Cons.prems by (simp add: kv)
qed simp

lemma json_collect_distinct: "distinct (map fst kvs) \<Longrightarrow> json_collect kvs = kvs"
  using foldl_json_put [of "[]" kvs] by (simp add: json_collect_def)

lemma stop_sep [simp]: "json_stop (CHR '','' # r)" "json_stop (CHR '']'' # r)" "json_stop (CHR ''}'' # r)"
    "json_stop []"
  by (simp_all add: json_stop_def)

lemma json_commas_Cons: "json_commas (x # xs) = x @ (if xs = [] then [] else CHR '','' # json_commas xs)"
  by (cases xs) auto

lemma skip_nonspace [simp]: "\<not> json_ws c \<Longrightarrow> json_skip (c # r) = c # r"
  by (simp add: json_skip_def)

text \<open>The first character of a rendered value, by the kind of value.\<close>

lemma js_number_start: "\<exists>c r. js_number x = c # r \<and> (c = CHR ''-'' \<or> json_digit c)"
proof -
  obtain d ds where d: "decimal (nat \<lfloor>\<bar>x\<bar>\<rfloor>) = d # ds" by (cases "decimal (nat \<lfloor>\<bar>x\<bar>\<rfloor>)") auto
  have "json_digit d" using decimal_digits [of "nat \<lfloor>\<bar>x\<bar>\<rfloor>"] by (simp add: d)
  then show ?thesis by (auto simp: js_number_def Let_def d)
qed

lemma stringify_start: "\<exists>c r. json_stringify v = c # r \<and> \<not> json_ws c \<and> c \<noteq> CHR '']'' \<and> c \<noteq> CHR ''}''"
proof (cases v)
  case (JNum x)
  with js_number_start [of x] show ?thesis by (auto simp: json_ws_def json_digit_def)
qed (auto simp: json_ws_def json_quote_def)

lemma json_elems_render:
  assumes "\<And>v n r. v \<in> set vs \<Longrightarrow> json_cost v \<le> n \<Longrightarrow> json_stop r \<Longrightarrow>
      json_value n (json_stringify v @ r) = Some (json_round v, r)"
    and "vs \<noteq> []" and "sum_list (map (\<lambda>v. Suc (json_cost v)) vs) \<le> n"
  shows "json_elems n (json_commas (map json_stringify vs) @ CHR '']'' # r) = Some (map json_round vs, r)"
  using assms
proof (induction vs arbitrary: n)
  case (Cons v vs)
  from Cons.prems(3) obtain m where n: "n = Suc m" by (cases n) auto
  show ?case
  proof (cases "vs = []")
    case True
    then show ?thesis using Cons.prems(1) [of v m "CHR '']'' # r"] Cons.prems(3)
      by (simp add: n json_ws_def)
  next
    case False
    have "json_elems m (json_commas (map json_stringify vs) @ CHR '']'' # r) = Some (map json_round vs, r)"
      using Cons.prems False by (intro Cons.IH) (auto simp: n)
    moreover have "json_value m (json_stringify v @ CHR '','' # json_commas (map json_stringify vs) @ CHR '']'' # r)
        = Some (json_round v, CHR '','' # json_commas (map json_stringify vs) @ CHR '']'' # r)"
      using Cons.prems(1,3) by (intro Cons.prems(1)) (auto simp: n)
    ultimately show ?thesis using False by (simp add: n json_commas_Cons json_ws_def)
  qed
qed simp

abbreviation render_member :: "string \<times> jval \<Rightarrow> string" where
  "render_member \<equiv> \<lambda>(k, v). json_quote k @ '':'' @ json_stringify v"

lemma json_members_render:
  assumes "\<And>kv n r. kv \<in> set kvs \<Longrightarrow> json_cost (snd kv) \<le> n \<Longrightarrow> json_stop r \<Longrightarrow>
      json_value n (json_stringify (snd kv) @ r) = Some (json_round (snd kv), r)"
    and "kvs \<noteq> []" and "sum_list (map (\<lambda>kv. Suc (json_cost (snd kv))) kvs) \<le> n"
  shows "json_members n (json_commas (map render_member kvs) @ CHR ''}'' # r) = Some (map (\<lambda>kv. (fst kv, json_round (snd kv))) kvs, r)"
  using assms
proof (induction kvs arbitrary: n)
  case (Cons kv kvs)
  obtain k v where kv: "kv = (k, v)" by (cases kv)
  from Cons.prems(3) obtain m where n: "n = Suc m" by (cases n) auto
  have quote: "json_quote k @ x = CHR 0x22 # concat (map json_escape k) @ CHR 0x22 # x" for x
    by (simp add: json_quote_def)
  show ?case
  proof (cases "kvs = []")
    case True
    then show ?thesis using Cons.prems(1) [of kv m "CHR ''}'' # r"] Cons.prems(3)
      by (simp add: n kv json_ws_def quote)
  next
    case False
    have "json_members m (json_commas (map render_member kvs) @ CHR ''}'' # r) = Some (map (\<lambda>kv. (fst kv, json_round (snd kv))) kvs, r)"
      using Cons.prems False by (intro Cons.IH) (auto simp: n)
    moreover have "json_value m (json_stringify v @ CHR '','' # json_commas (map render_member kvs) @ CHR ''}'' # r)
        = Some (json_round v, CHR '','' # json_commas (map render_member kvs) @ CHR ''}'' # r)"
      using Cons.prems(1) [of kv m] Cons.prems(3) by (auto simp: n kv)
    ultimately show ?thesis using False by (simp add: n kv json_commas_Cons json_ws_def quote)
  qed
qed simp

lemma json_value_render:
  "json_distinct v \<Longrightarrow> json_cost v \<le> n \<Longrightarrow> json_stop r \<Longrightarrow>
    json_value n (json_stringify v @ r) = Some (json_round v, r)"
proof (induction v arbitrary: n r)
  case (JNum x)
  from JNum.prems obtain m where n: "n = Suc m" by (cases n) auto
  obtain c t where ct: "js_number x = c # t" "c = CHR ''-'' \<or> json_digit c"
    using js_number_start [of x] by auto
  have "c \<noteq> CHR 0x22 \<and> c \<noteq> CHR ''['' \<and> c \<noteq> CHR ''{'' \<and> c \<noteq> CHR ''n'' \<and> c \<noteq> CHR ''t''
      \<and> c \<noteq> CHR ''f'' \<and> \<not> json_ws c"
    using ct(2) by (auto simp: json_digit_def json_ws_def)
  then show ?case using json_number_render [of r x] JNum.prems by (simp add: n ct)
next
  case (JArr vs)
  from JArr.prems obtain m where n: "n = Suc m" by (cases n) auto
  show ?case
  proof (cases "vs = []")
    case True
    then show ?thesis by (simp add: n json_ws_def)
  next
    case False
    have e: "json_elems m (json_commas (map json_stringify vs) @ CHR '']'' # r) = Some (map json_round vs, r)"
    proof (rule json_elems_render [OF _ False])
      fix v k u assume "v \<in> set vs" "json_cost v \<le> k" "json_stop u"
      with JArr.prems(1) show "json_value k (json_stringify v @ u) = Some (json_round v, u)"
        by (intro JArr.IH) simp_all
    next
      show "sum_list (map (\<lambda>v. Suc (json_cost v)) vs) \<le> m" using JArr.prems(2) by (simp add: n)
    qed
    obtain w ws where ws: "vs = w # ws" using False by (cases vs) auto
    obtain c t where "json_stringify w = c # t" "\<not> json_ws c" "c \<noteq> CHR '']''"
      using stringify_start [of w] by auto
    then have "take 1 (json_skip (json_commas (map json_stringify vs) @ CHR '']'' # r)) \<noteq> '']''"
      by (simp add: ws json_commas_Cons)
    with e show ?thesis by (simp add: n json_ws_def)
  qed
next
  case (JObj kvs)
  from JObj.prems obtain m where n: "n = Suc m" by (cases n) auto
  show ?case
  proof (cases "kvs = []")
    case True
    then show ?thesis by (simp add: n json_ws_def)
  next
    case False
    have e: "json_members m (json_commas (map render_member kvs) @ CHR ''}'' # r) = Some (map (\<lambda>kv. (fst kv, json_round (snd kv))) kvs, r)"
    proof (rule json_members_render [OF _ False])
      fix kv k u
      assume kv: "kv \<in> set kvs" and cost: "json_cost (snd kv) \<le> k" and stop: "json_stop u"
      have "snd kv \<in> Basic_BNFs.snds kv" by (cases kv) (simp add: snds.intros)
      moreover have "json_distinct (snd kv)" using JObj.prems(1) kv by simp
      ultimately show "json_value k (json_stringify (snd kv) @ u) = Some (json_round (snd kv), u)"
        using JObj.IH [OF kv] cost stop by blast
    next
      show "sum_list (map (\<lambda>kv. Suc (json_cost (snd kv))) kvs) \<le> m" using JObj.prems(2) by (simp add: n)
    qed
    obtain k v ws where ws: "kvs = (k, v) # ws" using False by (cases kvs) auto
    have "take 1 (json_skip (json_commas (map render_member kvs) @ CHR ''}'' # r)) \<noteq> ''}''"
      by (simp add: ws json_commas_Cons json_quote_def json_ws_def)
    with e JObj.prems(1) show ?thesis by (simp add: n json_ws_def json_collect_distinct comp_def)
  qed
next
  case (JStr s)
  from JStr.prems obtain m where n: "n = Suc m" by (cases n) auto
  show ?case by (simp add: n json_quote_def json_ws_def)
next
  case JNull
  then obtain m where n: "n = Suc m" by (cases n) auto
  show ?case by (simp add: n json_ws_def)
next
  case (JBool b)
  then obtain m where n: "n = Suc m" by (cases n) auto
  show ?case by (simp add: n json_ws_def)
qed

lemma json_commas_length:
  "xs \<noteq> [] \<Longrightarrow> Suc (length (json_commas xs)) = sum_list (map (\<lambda>x. Suc (length x)) xs)"
  by (induction xs rule: json_commas.induct) auto

lemma sum_list_twice: "sum_list (map (\<lambda>x. f x) xs) \<le> 2 * sum_list (map g xs)"
  if "\<And>x. x \<in> set xs \<Longrightarrow> f x \<le> 2 * (g x :: nat)"
  using that by (induction xs) fastforce+

lemma json_cost_length: "json_cost v \<le> 2 * length (json_stringify v) + 1"
proof (induction v)
  case (JArr vs)
  have "sum_list (map (\<lambda>v. Suc (json_cost v)) vs)
      \<le> 2 * sum_list (map (\<lambda>v. Suc (length (json_stringify v))) vs)"
    using JArr by (intro sum_list_twice) fastforce
  then show ?case using json_commas_length [of "map json_stringify vs"]
    by (cases "vs = []") (simp_all add: comp_def)
next
  case (JObj kvs)
  have "sum_list (map (\<lambda>kv. Suc (json_cost (snd kv))) kvs)
      \<le> 2 * sum_list (map (\<lambda>kv. Suc (length (render_member kv))) kvs)"
    using JObj by (intro sum_list_twice) fastforce
  then show ?case using json_commas_length [of "map render_member kvs"]
    by (cases "kvs = []") (simp_all add: comp_def)
qed auto

lemma json_parse_rounds: "json_distinct v \<Longrightarrow> json_parse (json_stringify v) = Some (json_round v)"
  using json_value_render [of v "2 * length (json_stringify v) + 1" "[]"] json_cost_length [of v]
  by (simp add: json_parse_def json_skip_def)

lemma json_parse_stringify: "json_plain v \<Longrightarrow> json_parse (json_stringify v) = Some v"
  using json_parse_rounds [OF plain_distinct] by (simp add: plain_round)

end
