(* ===== verification/Audit_Chain.thy ===== *)
theory Audit_Chain
  imports Json Schema_Types
begin

text \<open>
  The hash chain of \<open>packages/store/src/audit-chain.ts\<close>: the canonical bodies of the two hash
  versions and the entry hash. SHA-256 (\<open>node:crypto\<close>) is the parameter \<open>H\<close>, from the text
  to the hex digest; every statement about tampering ends in "or two different texts with the
  same digest", so nothing is assumed of it.
\<close>

section \<open>Canonical bodies\<close>

record canonical_row =
  cr_id :: string
  cr_action :: string
  cr_memory_id :: string
  cr_tenant_id :: string
  cr_actor_json :: string
  cr_reason :: "string option"
  cr_details_json :: string
  cr_timestamp :: string
  cr_prev :: "string option"

datatype hash_version = V1 | V2

definition current_audit_hash_version :: hash_version where
  "current_audit_hash_version = V2"

definition canonical_row_json_v1 :: "canonical_row \<Rightarrow> string" where
  "canonical_row_json_v1 r =
     json_object
       [(''id'', json_quote (cr_id r)),
        (''action'', json_quote (cr_action r)),
        (''memory_id'', json_quote (cr_memory_id r)),
        (''tenant_id'', json_quote (cr_tenant_id r)),
        (''actor_json'', json_quote (cr_actor_json r)),
        (''reason'', json_nullable (cr_reason r)),
        (''details_json'', json_quote (cr_details_json r)),
        (''timestamp'', json_quote (cr_timestamp r)),
        (''prev_entry_hash'', json_nullable (cr_prev r))]"

definition canonical_row_json_v2 :: "canonical_row \<Rightarrow> string" where
  "canonical_row_json_v2 r =
     json_object
       [(''id'', json_quote (cr_id r)),
        (''action'', json_quote (cr_action r)),
        (''memory_id'', json_quote (cr_memory_id r)),
        (''tenant_id'', json_quote (cr_tenant_id r)),
        (''actor_json'', json_quote (cr_actor_json r)),
        (''reason'', json_nullable (cr_reason r)),
        (''details_json'', json_quote (cr_details_json r)),
        (''prev_entry_hash'', json_nullable (cr_prev r))]"

definition canonical_row_json :: "hash_version \<Rightarrow> canonical_row \<Rightarrow> string" where
  "canonical_row_json v r = (if v = V1 then canonical_row_json_v1 r else canonical_row_json_v2 r)"

definition compute_entry_hash :: "(string \<Rightarrow> string) \<Rightarrow> hash_version \<Rightarrow> canonical_row \<Rightarrow> string" where
  "compute_entry_hash H v r = H (canonical_row_json v r)"

section \<open>What a body determines\<close>

text \<open>
  A text of one set and a different text of another with one digest. The statements below name
  the sets, so they say which hashed texts would have to collide: SHA-256 has collisions, but
  none of them is known.
\<close>

definition collision :: "(string \<Rightarrow> string) \<Rightarrow> string set \<Rightarrow> string set \<Rightarrow> bool" where
  "collision H A B = (\<exists>x \<in> A. \<exists>y \<in> B. x \<noteq> y \<and> H x = H y)"

lemma collision_mono: "collision H A B \<Longrightarrow> A \<subseteq> A' \<Longrightarrow> B \<subseteq> B' \<Longrightarrow> collision H A' B'"
  by (auto simp: collision_def)

lemma member_inj [simp]: "json_member k a @ x = json_member k b @ y \<longleftrightarrow> a @ x = b @ y"
  by (simp add: json_member_def)

lemma member_inj_end [simp]: "json_member k a = json_member k b \<longleftrightarrow> a = b"
  by (simp add: json_member_def)

lemma json_nullable_eq [simp]: "json_nullable a = json_nullable b \<longleftrightarrow> a = b"
  using json_nullable_inj [of a "[]" b "[]"] by simp

lemma member_append: "json_member k a @ x = json_quote k @ '':'' @ a @ x"
  by (simp add: json_member_def)

lemma v1_inj:
  "canonical_row_json_v1 r = canonical_row_json_v1 r' \<longleftrightarrow>
     cr_id r = cr_id r' \<and> cr_action r = cr_action r' \<and> cr_memory_id r = cr_memory_id r'
     \<and> cr_tenant_id r = cr_tenant_id r' \<and> cr_actor_json r = cr_actor_json r'
     \<and> cr_reason r = cr_reason r' \<and> cr_details_json r = cr_details_json r'
     \<and> cr_timestamp r = cr_timestamp r' \<and> cr_prev r = cr_prev r'"
  by (simp add: canonical_row_json_v1_def json_object_def)

lemma v2_inj:
  "canonical_row_json_v2 r = canonical_row_json_v2 r' \<longleftrightarrow>
     cr_id r = cr_id r' \<and> cr_action r = cr_action r' \<and> cr_memory_id r = cr_memory_id r'
     \<and> cr_tenant_id r = cr_tenant_id r' \<and> cr_actor_json r = cr_actor_json r'
     \<and> cr_reason r = cr_reason r' \<and> cr_details_json r = cr_details_json r'
     \<and> cr_prev r = cr_prev r'"
  by (simp add: canonical_row_json_v2_def json_object_def)

lemma v1_v2_differ: "canonical_row_json_v1 r \<noteq> canonical_row_json_v2 r'"
  by (simp add: canonical_row_json_v1_def canonical_row_json_v2_def json_object_def member_append)

lemma body_determines_row:
  assumes "compute_entry_hash H v r = compute_entry_hash H v' r'"
  shows "(v = v' \<and> r\<lparr>cr_timestamp := t\<rparr> = r'\<lparr>cr_timestamp := t\<rparr>
            \<and> (v = V1 \<longrightarrow> cr_timestamp r = cr_timestamp r'))
         \<or> collision H {canonical_row_json v r} {canonical_row_json v' r'}"
proof (cases "canonical_row_json v r = canonical_row_json v' r'")
  case True
  then show ?thesis
    by (cases v; cases v')
      (auto simp: canonical_row_json_def v1_inj v2_inj v1_v2_differ v1_v2_differ [symmetric])
next
  case False
  with assms show ?thesis unfolding compute_entry_hash_def collision_def by blast
qed

text \<open>
  The canonical bodies are injective. Under either hash version the serialised text of a row
  determines every field it covers, quotes and control characters in the fields included: all
  nine under version 1, all but the timestamp under version 2; the timestamp never enters the
  version 2 text; and no version 1 text is a version 2 text. So two rows that agree on the entry
  hash and differ in a covered field have different canonical texts with one digest.
\<close>

theorem canonical_body_determines_row:
  assumes "compute_entry_hash H v r = compute_entry_hash H v' r'"
  shows "((v = v' \<and> r\<lparr>cr_timestamp := t\<rparr> = r'\<lparr>cr_timestamp := t\<rparr>
            \<and> (v = V1 \<longrightarrow> cr_timestamp r = cr_timestamp r'))
         \<or> collision H {canonical_row_json v r} {canonical_row_json v' r'})
    \<and> compute_entry_hash H V2 (r\<lparr>cr_timestamp := t\<rparr>) = compute_entry_hash H V2 r"
  using body_determines_row [OF assms]
  by (simp_all add: compute_entry_hash_def canonical_row_json_def canonical_row_json_v2_def)

theorem canonical_body_determines_row_witness:
  "\<exists>r r' :: canonical_row. compute_entry_hash (\<lambda>s. s) V2 r = compute_entry_hash (\<lambda>s. s) V2 r'
     \<and> cr_timestamp r \<noteq> cr_timestamp r' \<and> cr_reason r = cr_reason r'"
proof -
  define r :: canonical_row where "r = \<lparr>cr_id = ''e1'', cr_action = ''promoted'', cr_memory_id = ''m1'',
    cr_tenant_id = ''t'', cr_actor_json = ''{}'', cr_reason = None, cr_details_json = ''{}'',
    cr_timestamp = ''2026-01-01'', cr_prev = None\<rparr>"
  have h: "compute_entry_hash (\<lambda>s. s) V2 r = compute_entry_hash (\<lambda>s. s) V2 (r\<lparr>cr_timestamp := ''2026-01-02''\<rparr>)"
    by (simp add: compute_entry_hash_def canonical_row_json_def v2_inj)
  have "\<not> collision (\<lambda>s :: string. s) A B" for A B by (auto simp: collision_def)
  with canonical_body_determines_row [OF h, of "''x''"]
  have "r\<lparr>cr_timestamp := ''x''\<rparr> = r\<lparr>cr_timestamp := ''2026-01-02''\<rparr>\<lparr>cr_timestamp := ''x''\<rparr>" by blast
  then have "cr_reason r = cr_reason (r\<lparr>cr_timestamp := ''2026-01-02''\<rparr>)" by simp
  moreover have "cr_timestamp r \<noteq> cr_timestamp (r\<lparr>cr_timestamp := ''2026-01-02''\<rparr>)" by (simp add: r_def)
  ultimately show ?thesis using h by blast
qed

end
