(* ===== verification/Audit_Repo.thy ===== *)
theory Audit_Repo
  imports Audit_Chain
begin

text \<open>
  The append-only log of \<open>repositories/audit-repository.ts\<close> over the table \<open>audit_events\<close>:
  the atomic append, the reads of the chain and the finders. The table is the list of its rows in
  insertion order. \<open>ORDER BY seq\<close> is a stable sort by the key; ties in \<open>ORDER BY timestamp\<close>
  keep row order. The string formats zod checks (\<open>uuid\<close>, \<open>datetime\<close>) are the parameters
  of \<open>formats\<close>.
\<close>

section \<open>Events and rows\<close>

record audit_event =
  ev_id :: uuid
  ev_action :: audit_action
  ev_memory_id :: uuid
  ev_tenant_id :: tenant_id
  ev_actor :: author
  ev_reason :: "string option"
  ev_details :: "(string \<times> jval) list"
  ev_timestamp :: iso_datetime

record audit_row =
  ar_id :: string
  ar_action :: string
  ar_memory_id :: string
  ar_tenant_id :: string
  ar_actor_json :: string
  ar_reason :: "string option"
  ar_details_json :: string
  ar_timestamp :: string
  ar_entry_hash :: "string option"
  ar_prev_entry_hash :: "string option"
  ar_hash_version :: "int option"
  ar_seq :: nat

type_synonym audit_table = "audit_row list"

datatype store_error =
    Unique_violation string
  | Check_violation string
  | Not_found string
  | Transition_refused string

definition author_json :: "author \<Rightarrow> jval" where
  "author_json a =
     JObj ([(''type'', JStr (author_type_name (author_kind a))), (''id'', JStr (author_id a))]
       @ (case author_name a of None \<Rightarrow> [] | Some n \<Rightarrow> [(''name'', JStr n)]))"

definition hash_version_number :: "hash_version \<Rightarrow> int" where
  "hash_version_number v = (if v = V1 then 1 else 2)"

section \<open>The append\<close>

text \<open>\<open>stmtFindAllChronological\<close>: \<open>ORDER BY seq ASC\<close>.\<close>

definition find_all_chronological :: "audit_table \<Rightarrow> audit_row list" where
  "find_all_chronological rows = sort_key ar_seq rows"

text \<open>\<open>stmtLastHash\<close> and \<open>stmtFindChainTip\<close>: the hashed row with the largest \<open>seq\<close>.\<close>

definition last_hashed_row :: "audit_table \<Rightarrow> audit_row option" where
  "last_hashed_row rows =
     (case rev (filter (\<lambda>r. ar_entry_hash r \<noteq> None) (sort_key ar_seq rows)) of
        [] \<Rightarrow> None
      | r # _ \<Rightarrow> Some r)"

definition next_seq :: "audit_table \<Rightarrow> nat" where
  "next_seq rows = fold max (map ar_seq rows) 0 + 1"

text \<open>The body of \<open>appendTxn\<close> up to the \<open>INSERT\<close>.\<close>

definition audit_append_row :: "(string \<Rightarrow> string) \<Rightarrow> audit_event \<Rightarrow> audit_table \<Rightarrow> audit_row" where
  "audit_append_row H e rows =
     (let prev = Option.bind (last_hashed_row rows) ar_entry_hash;
          actor = json_stringify (author_json (ev_actor e));
          details = json_stringify (JObj (ev_details e));
          body = \<lparr>cr_id = ev_id e, cr_action = action_name (ev_action e),
                  cr_memory_id = ev_memory_id e, cr_tenant_id = ev_tenant_id e,
                  cr_actor_json = actor, cr_reason = ev_reason e, cr_details_json = details,
                  cr_timestamp = ev_timestamp e, cr_prev = prev\<rparr>;
          entry = compute_entry_hash H current_audit_hash_version body
      in \<lparr>ar_id = ev_id e, ar_action = action_name (ev_action e), ar_memory_id = ev_memory_id e,
          ar_tenant_id = ev_tenant_id e, ar_actor_json = actor, ar_reason = ev_reason e,
          ar_details_json = details, ar_timestamp = ev_timestamp e, ar_entry_hash = Some entry,
          ar_prev_entry_hash = prev,
          ar_hash_version = Some (hash_version_number current_audit_hash_version),
          ar_seq = next_seq rows\<rparr>)"

text \<open>\<open>insert\<close>; the primary key refuses an id that is already there.\<close>

definition audit_insert ::
  "(string \<Rightarrow> string) \<Rightarrow> audit_event \<Rightarrow> audit_table \<Rightarrow> store_error + audit_table" where
  "audit_insert H e rows =
     (if ev_id e \<in> set (map ar_id rows) then Inl (Unique_violation (ev_id e))
      else Inr (rows @ [audit_append_row H e rows]))"

section \<open>Chain positions\<close>

record chain_position =
  cp_entry_hash :: string
  cp_sequence :: nat
  cp_hash_version :: int

definition row_to_chain_position :: "audit_row \<Rightarrow> chain_position option" where
  "row_to_chain_position r =
     (case ar_entry_hash r of
        None \<Rightarrow> None
      | Some h \<Rightarrow> Some \<lparr>cp_entry_hash = h, cp_sequence = ar_seq r,
                  cp_hash_version = (case ar_hash_version r of None \<Rightarrow> 1 | Some v \<Rightarrow> v)\<rparr>)"

definition find_chain_tip :: "audit_table \<Rightarrow> chain_position option" where
  "find_chain_tip rows = Option.bind (last_hashed_row rows) row_to_chain_position"

definition find_chain_position :: "string \<Rightarrow> audit_table \<Rightarrow> chain_position option" where
  "find_chain_position h rows =
     Option.bind (find (\<lambda>r. ar_entry_hash r = Some h) rows) row_to_chain_position"

section \<open>Reading events back\<close>

text \<open>\<open>Author\<close> parsed from JSON: unknown keys are dropped, strings are trimmed.\<close>

fun parse_non_empty :: "jval option \<Rightarrow> string option" where
  "parse_non_empty (Some (JStr s)) = non_empty_string s"
| "parse_non_empty _ = None"

fun parse_author :: "jval \<Rightarrow> author option" where
  "parse_author (JObj kvs) =
     (case (jget (JObj kvs) ''type'', parse_non_empty (jget (JObj kvs) ''id'')) of
        (Some (JStr t), Some i) \<Rightarrow>
          (case parse_enum author_type_options author_type_name t of
             None \<Rightarrow> None
           | Some k \<Rightarrow>
               (case jget (JObj kvs) ''name'' of
                  None \<Rightarrow> Some \<lparr>author_kind = k, author_id = i, author_name = None\<rparr>
                | Some v \<Rightarrow> map_option (\<lambda>n. \<lparr>author_kind = k, author_id = i, author_name = Some n\<rparr>)
                    (parse_non_empty (Some v))))
      | _ \<Rightarrow> None)"
| "parse_author _ = None"

definition action_options :: "audit_action list" where
  "action_options =
     [A_promoted, A_demoted, A_superseded, A_archived, A_deleted, A_searched, A_exported,
      A_recategorized, A_eval_result, A_proposed, A_governed, A_policy_upgraded,
      A_audience_narrowed, A_redacted, A_held, A_hold_recommended, A_hold_resolved]"

interpretation action_vocab: closed_vocabulary action_options action_name
  by (unfold_locales, case_tac e) (simp_all add: action_options_def)

datatype row_error =
    Actor_json_invalid string
  | Details_json_invalid string
  | Domain_invalid string

text \<open>\<open>rowToEvent\<close>: the two JSON columns, then the domain schema.\<close>

definition row_to_event :: "formats \<Rightarrow> audit_row \<Rightarrow> row_error + audit_event" where
  "row_to_event fmt r =
     (case json_parse (ar_actor_json r) of
        None \<Rightarrow> Inl (Actor_json_invalid (ar_id r))
      | Some actor \<Rightarrow>
          (case json_parse (ar_details_json r) of
             None \<Rightarrow> Inl (Details_json_invalid (ar_id r))
           | Some details \<Rightarrow>
               (case (parse_enum action_options action_name (ar_action r),
                      non_empty_string (ar_tenant_id r), parse_author actor, details) of
                  (Some action, Some tenant, Some a, JObj kvs) \<Rightarrow>
                    if \<not> (fmt_uuid fmt (ar_id r) \<and> fmt_uuid fmt (ar_memory_id r)
                          \<and> fmt_datetime fmt (ar_timestamp r))
                    then Inl (Domain_invalid (ar_id r))
                    else (case ar_reason r of
                            None \<Rightarrow>
                              Inr \<lparr>ev_id = ar_id r, ev_action = action, ev_memory_id = ar_memory_id r,
                                   ev_tenant_id = tenant, ev_actor = a, ev_reason = None,
                                   ev_details = kvs, ev_timestamp = ar_timestamp r\<rparr>
                          | Some reason \<Rightarrow>
                              (case non_empty_string reason of
                                 None \<Rightarrow> Inl (Domain_invalid (ar_id r))
                               | Some t \<Rightarrow>
                                   Inr \<lparr>ev_id = ar_id r, ev_action = action,
                                        ev_memory_id = ar_memory_id r, ev_tenant_id = tenant,
                                        ev_actor = a, ev_reason = Some t, ev_details = kvs,
                                        ev_timestamp = ar_timestamp r\<rparr>))
                | _ \<Rightarrow> Inl (Domain_invalid (ar_id r)))))"

text \<open>\<open>rows.map(rowToEvent)\<close>: the first row that does not parse throws.\<close>

definition rows_to_events :: "formats \<Rightarrow> audit_row list \<Rightarrow> row_error + audit_event list" where
  "rows_to_events fmt rows = map_result (row_to_event fmt) rows"

abbreviation by_timestamp :: "audit_row list \<Rightarrow> audit_row list" where
  "by_timestamp \<equiv> sort_key ar_timestamp"

definition find_by_memory :: "formats \<Rightarrow> uuid \<Rightarrow> audit_table \<Rightarrow> row_error + audit_event list" where
  "find_by_memory fmt m rows =
     rows_to_events fmt (by_timestamp (filter (\<lambda>r. ar_memory_id r = m) rows))"

definition find_by_memory_and_tenant ::
  "formats \<Rightarrow> uuid \<Rightarrow> tenant_id \<Rightarrow> audit_table \<Rightarrow> row_error + audit_event list" where
  "find_by_memory_and_tenant fmt m t rows =
     rows_to_events fmt (by_timestamp (filter (\<lambda>r. ar_memory_id r = m \<and> ar_tenant_id r = t) rows))"

definition find_by_tenant :: "formats \<Rightarrow> tenant_id \<Rightarrow> audit_table \<Rightarrow> row_error + audit_event list" where
  "find_by_tenant fmt t rows =
     rows_to_events fmt (by_timestamp (filter (\<lambda>r. ar_tenant_id r = t) rows))"

definition find_by_action :: "formats \<Rightarrow> string \<Rightarrow> audit_table \<Rightarrow> row_error + audit_event list" where
  "find_by_action fmt a rows =
     rows_to_events fmt (by_timestamp (filter (\<lambda>r. ar_action r = a) rows))"

definition find_by_tenant_and_action ::
  "formats \<Rightarrow> tenant_id \<Rightarrow> string \<Rightarrow> audit_table \<Rightarrow> row_error + audit_event list" where
  "find_by_tenant_and_action fmt t a rows =
     rows_to_events fmt (by_timestamp (filter (\<lambda>r. ar_tenant_id r = t \<and> ar_action r = a) rows))"

definition find_in_range ::
  "formats \<Rightarrow> string \<Rightarrow> string \<Rightarrow> audit_table \<Rightarrow> row_error + audit_event list" where
  "find_in_range fmt lo hi rows =
     rows_to_events fmt (by_timestamp (filter (\<lambda>r. lo \<le> ar_timestamp r \<and> ar_timestamp r \<le> hi) rows))"

definition count_by_action :: "audit_table \<Rightarrow> (string \<times> nat) list" where
  "count_by_action rows =
     map (\<lambda>a. (a, length (filter (\<lambda>r. ar_action r = a) rows))) (sort (remdups (map ar_action rows)))"

definition count_by_tenant_and_action :: "tenant_id \<Rightarrow> audit_table \<Rightarrow> (string \<times> nat) list" where
  "count_by_tenant_and_action t rows = count_by_action (filter (\<lambda>r. ar_tenant_id r = t) rows)"

section \<open>Redaction receipts\<close>

record redaction_receipt =
  rr_event_id :: string
  rr_target_id :: string
  rr_candidate :: bool
  rr_old_hash :: string
  rr_new_hash :: string
  rr_sequence :: nat

definition row_to_redaction_receipt :: "audit_row \<Rightarrow> redaction_receipt option" where
  "row_to_redaction_receipt r =
     (case json_parse (ar_details_json r) of
        None \<Rightarrow> None
      | Some d \<Rightarrow>
          (case (jget d ''oldContentHash'', jget d ''newContentHash'') of
             (Some (JStr old), Some (JStr new)) \<Rightarrow>
               Some \<lparr>rr_event_id = ar_id r, rr_target_id = ar_memory_id r,
                     rr_candidate = (jget d ''target'' = Some (JStr ''candidate'')),
                     rr_old_hash = old, rr_new_hash = new, rr_sequence = ar_seq r\<rparr>
           | _ \<Rightarrow> None))"

definition old_hash_is :: "string \<Rightarrow> audit_row \<Rightarrow> bool" where
  "old_hash_is h r =
     (case json_parse (ar_details_json r) of
        None \<Rightarrow> False
      | Some d \<Rightarrow> jget d ''oldContentHash'' = Some (JStr h))"

text \<open>
  \<open>findRedactionByOldContentHash\<close>. SQLite's \<open>json_extract\<close> raises an error on malformed
  JSON, which the append never writes; such a row is skipped here.
\<close>

definition find_redaction_by_old_content_hash ::
  "string \<Rightarrow> tenant_id \<Rightarrow> audit_table \<Rightarrow> redaction_receipt option" where
  "find_redaction_by_old_content_hash h t rows =
     Option.bind
       (find (\<lambda>r. ar_action r = ''redacted'' \<and> ar_tenant_id r = t \<and> old_hash_is h r)
             (sort_key ar_seq rows))
       row_to_redaction_receipt"

definition find_redactions_for :: "string \<Rightarrow> audit_table \<Rightarrow> redaction_receipt list" where
  "find_redactions_for target rows =
     List.map_filter row_to_redaction_receipt
       (sort_key ar_seq (filter (\<lambda>r. ar_action r = ''redacted'' \<and> ar_memory_id r = target) rows))"

section \<open>The table the append keeps\<close>

text \<open>Distinct ids and strictly increasing sequence numbers, in insertion order.\<close>

definition audit_table_ok :: "audit_table \<Rightarrow> bool" where
  "audit_table_ok rows = (distinct (map ar_id rows) \<and> sorted_wrt (<) (map ar_seq rows))"

lemma audit_table_ok_Nil [simp]: "audit_table_ok []"
  by (simp add: audit_table_ok_def)

lemma fold_max_ge: "a \<le> fold max ns (a :: nat) \<and> (\<forall>n \<in> set ns. n \<le> fold max ns a)"
  by (induction ns arbitrary: a) (fastforce simp: max_def split: if_splits)+

lemma next_seq_greater: "r \<in> set rows \<Longrightarrow> ar_seq r < next_seq rows"
  using fold_max_ge [of 0 "map ar_seq rows"] by (auto simp: next_seq_def less_Suc_eq_le)

lemma find_all_ok: "audit_table_ok rows \<Longrightarrow> find_all_chronological rows = rows"
  by (simp add: find_all_chronological_def audit_table_ok_def sort_key_increasing)

lemma last_hashed_ok:
  "audit_table_ok rows \<Longrightarrow>
    last_hashed_row rows = (case rev (filter (\<lambda>r. ar_entry_hash r \<noteq> None) rows) of
       [] \<Rightarrow> None | r # _ \<Rightarrow> Some r)"
  by (simp add: last_hashed_row_def audit_table_ok_def sort_key_increasing)

lemma append_row_simps [simp]:
  "ar_id (audit_append_row H e rows) = ev_id e"
  "ar_action (audit_append_row H e rows) = action_name (ev_action e)"
  "ar_memory_id (audit_append_row H e rows) = ev_memory_id e"
  "ar_tenant_id (audit_append_row H e rows) = ev_tenant_id e"
  "ar_actor_json (audit_append_row H e rows) = json_stringify (author_json (ev_actor e))"
  "ar_reason (audit_append_row H e rows) = ev_reason e"
  "ar_details_json (audit_append_row H e rows) = json_stringify (JObj (ev_details e))"
  "ar_timestamp (audit_append_row H e rows) = ev_timestamp e"
  "ar_prev_entry_hash (audit_append_row H e rows) = Option.bind (last_hashed_row rows) ar_entry_hash"
  "ar_entry_hash (audit_append_row H e rows) \<noteq> None"
  "ar_hash_version (audit_append_row H e rows) = Some 2"
  "ar_seq (audit_append_row H e rows) = next_seq rows"
  by (simp_all add: audit_append_row_def Let_def hash_version_number_def
      current_audit_hash_version_def)

lemma audit_insert_Inr:
  "audit_insert H e rows = Inr rows' \<longleftrightarrow>
     ev_id e \<notin> set (map ar_id rows) \<and> rows' = rows @ [audit_append_row H e rows]"
  by (auto simp: audit_insert_def)

lemma audit_insert_Inl:
  "audit_insert H e rows = Inl x \<longleftrightarrow> ev_id e \<in> set (map ar_id rows) \<and> x = Unique_violation (ev_id e)"
  by (auto simp: audit_insert_def)

lemma audit_insert_ok:
  assumes "audit_table_ok rows" "audit_insert H e rows = Inr rows'"
  shows "audit_table_ok rows'"
  using assms next_seq_greater [of _ rows]
  by (auto simp: audit_table_ok_def audit_insert_Inr sorted_wrt_append)

text \<open>Appending a list of events, stopping at the first one that is refused.\<close>

fun audit_insert_all ::
  "(string \<Rightarrow> string) \<Rightarrow> audit_event list \<Rightarrow> audit_table \<Rightarrow> store_error + audit_table" where
  "audit_insert_all H [] rows = Inr rows"
| "audit_insert_all H (e # es) rows =
     (case audit_insert H e rows of Inl x \<Rightarrow> Inl x | Inr rows' \<Rightarrow> audit_insert_all H es rows')"

lemma audit_insert_all_ok:
  "audit_table_ok rows \<Longrightarrow> audit_insert_all H es rows = Inr rows' \<Longrightarrow> audit_table_ok rows'"
  by (induction es arbitrary: rows) (auto intro: audit_insert_ok split: sum.splits)

lemma audit_insert_all_prefix:
  "audit_insert_all H es rows = Inr rows' \<Longrightarrow>
    \<exists>new. rows' = rows @ new \<and> map ar_id new = map ev_id es"
proof (induction es arbitrary: rows)
  case (Cons e es)
  then obtain mid where mid: "audit_insert H e rows = Inr mid" "audit_insert_all H es mid = Inr rows'"
    by (auto split: sum.splits)
  then obtain new where "rows' = mid @ new" "map ar_id new = map ev_id es" using Cons.IH by blast
  with mid(1) show ?case by (auto simp: audit_insert_Inr)
qed simp

lemma audit_insert_all_total:
  "distinct (map ev_id es) \<Longrightarrow> set (map ev_id es) \<inter> set (map ar_id rows) = {} \<Longrightarrow>
    \<exists>rows'. audit_insert_all H es rows = Inr rows'"
proof (induction es arbitrary: rows)
  case (Cons e es)
  have "\<exists>rows'. audit_insert_all H es (rows @ [audit_append_row H e rows]) = Inr rows'"
    using Cons.prems by (intro Cons.IH) auto
  with Cons.prems show ?case by (auto simp: audit_insert_def)
qed simp

section \<open>An appended event reads back\<close>

text \<open>An event as the schema produces it: trimmed strings and JSON details.\<close>

definition event_wf :: "formats \<Rightarrow> audit_event \<Rightarrow> bool" where
  "event_wf fmt e =
     (fmt_uuid fmt (ev_id e) \<and> fmt_uuid fmt (ev_memory_id e) \<and> fmt_datetime fmt (ev_timestamp e)
      \<and> non_empty_string (ev_tenant_id e) = Some (ev_tenant_id e)
      \<and> non_empty_string (author_id (ev_actor e)) = Some (author_id (ev_actor e))
      \<and> (case author_name (ev_actor e) of None \<Rightarrow> True | Some n \<Rightarrow> non_empty_string n = Some n)
      \<and> (case ev_reason e of None \<Rightarrow> True | Some n \<Rightarrow> non_empty_string n = Some n)
      \<and> json_plain (JObj (ev_details e)))"

lemma author_json_plain [simp]: "json_plain (author_json a)"
  by (cases "author_name a") (simp_all add: author_json_def)

lemma parse_author_json:
  assumes "non_empty_string (author_id a) = Some (author_id a)"
    and "\<And>n. author_name a = Some n \<Longrightarrow> non_empty_string n = Some n"
  shows "parse_author (author_json a) = Some a"
  using assms
  by (cases "author_name a") (simp_all add: author_json_def author_type_vocab.parse_name)

text \<open>
  An event whose details are any JSON object reads back with its numbers as their rendering gives
  them.
\<close>

definition event_storable :: "formats \<Rightarrow> audit_event \<Rightarrow> bool" where
  "event_storable fmt e \<longleftrightarrow> event_wf fmt (e\<lparr>ev_details := []\<rparr>) \<and> json_distinct (JObj (ev_details e))"

definition as_read :: "audit_event \<Rightarrow> audit_event" where
  "as_read e = e\<lparr>ev_details := map (\<lambda>kv. (fst kv, json_round (snd kv))) (ev_details e)\<rparr>"

lemma as_read_fields [simp]:
  "ev_id (as_read e) = ev_id e" "ev_action (as_read e) = ev_action e" "ev_memory_id (as_read e) = ev_memory_id e"
  "ev_tenant_id (as_read e) = ev_tenant_id e" "ev_actor (as_read e) = ev_actor e" "ev_reason (as_read e) = ev_reason e"
  "ev_timestamp (as_read e) = ev_timestamp e"
  by (simp_all add: as_read_def)

lemma row_to_event_stored:
  assumes "event_storable fmt e"
  shows "row_to_event fmt (audit_append_row H e rows) = Inr (as_read e)"
proof -
  have "parse_author (author_json (ev_actor e)) = Some (ev_actor e)"
    using assms by (intro parse_author_json) (auto simp: event_wf_def event_storable_def)
  moreover have "json_parse (json_stringify (JObj (ev_details e))) = Some (JObj (ev_details (as_read e)))"
    using json_parse_rounds [of "JObj (ev_details e)"] assms by (simp add: event_storable_def as_read_def)
  ultimately show ?thesis using assms
    by (cases "ev_reason e")
      (simp_all add: row_to_event_def event_wf_def event_storable_def json_parse_stringify action_vocab.parse_name
        as_read_def del: json_stringify.simps json_plain.simps)
qed

lemma wf_storable: "event_wf fmt e \<Longrightarrow> event_storable fmt e \<and> as_read e = e"
proof -
  assume wf: "event_wf fmt e"
  then have "json_plain (JObj (ev_details e))" by (simp add: event_wf_def)
  from plain_distinct [OF this] plain_round [OF this] show ?thesis
    using wf by (auto simp: event_storable_def event_wf_def as_read_def)
qed

lemma row_to_event_append: "event_wf fmt e \<Longrightarrow> row_to_event fmt (audit_append_row H e rows) = Inr e"
  using row_to_event_stored [of fmt e] wf_storable [of fmt e] by simp

text \<open>
  What is appended is what is read. Inserting a well-formed event succeeds exactly when its id
  is new; the old rows are kept as they were and in front, the new row takes a larger sequence
  number than each of them, and both it and its place in the tenant's history read back as the
  event itself, with every field and the JSON details intact.
\<close>

lemma map_result_mem:
  "map_result f xs = Inr ys \<Longrightarrow> x \<in> set xs \<Longrightarrow> f x = Inr y \<Longrightarrow> y \<in> set ys"
  by (induction xs arbitrary: ys) (auto split: sum.splits)

theorem appended_event_reads_back:
  assumes "event_wf fmt e"
  shows "(ev_id e \<in> set (map ar_id rows) \<longrightarrow> audit_insert H e rows = Inl (Unique_violation (ev_id e)))
   \<and> (ev_id e \<notin> set (map ar_id rows) \<longrightarrow>
       (\<exists>r. audit_insert H e rows = Inr (rows @ [r]) \<and> (\<forall>old \<in> set rows. ar_seq old < ar_seq r)
          \<and> row_to_event fmt r = Inr e
          \<and> (\<forall>es. find_by_tenant fmt (ev_tenant_id e) (rows @ [r]) = Inr es \<longrightarrow> e \<in> set es)))"
proof (intro conjI impI)
  let ?r = "audit_append_row H e rows"
  have rd: "row_to_event fmt ?r = Inr e" by (rule row_to_event_append [OF assms])
  have "e \<in> set es" if "find_by_tenant fmt (ev_tenant_id e) (rows @ [?r]) = Inr es" for es
    using that unfolding find_by_tenant_def rows_to_events_def
    by (rule map_result_mem [where x = ?r]) (simp_all add: rd)
  then show "ev_id e \<notin> set (map ar_id rows) \<Longrightarrow>
      \<exists>r. audit_insert H e rows = Inr (rows @ [r]) \<and> (\<forall>old \<in> set rows. ar_seq old < ar_seq r)
        \<and> row_to_event fmt r = Inr e
        \<and> (\<forall>es. find_by_tenant fmt (ev_tenant_id e) (rows @ [r]) = Inr es \<longrightarrow> e \<in> set es)"
    using rd next_seq_greater by (intro exI [of _ ?r]) (auto simp: audit_insert_def)
qed (simp add: audit_insert_def)

text \<open>
  The tenant-scoped reads do not leak. \<open>findByTenant\<close>, \<open>findByMemoryAndTenant\<close>,
  \<open>findByTenantAndAction\<close>, the counts per action and the redaction lookup by an old content
  hash are computed from that tenant's rows alone: removing every other tenant's row from the
  table changes none of these answers, errors included.
\<close>

lemma find_filter: "(\<And>x. P x \<Longrightarrow> Q x) \<Longrightarrow> find P (filter Q xs) = find P xs"
  by (induction xs) auto

theorem tenant_reads_are_isolated:
  "find_by_tenant fmt t rows = find_by_tenant fmt t (filter (\<lambda>r. ar_tenant_id r = t) rows)
   \<and> find_by_memory_and_tenant fmt m t rows
       = find_by_memory_and_tenant fmt m t (filter (\<lambda>r. ar_tenant_id r = t) rows)
   \<and> find_by_tenant_and_action fmt t a rows
       = find_by_tenant_and_action fmt t a (filter (\<lambda>r. ar_tenant_id r = t) rows)
   \<and> find_redaction_by_old_content_hash h t rows
       = find_redaction_by_old_content_hash h t (filter (\<lambda>r. ar_tenant_id r = t) rows)
   \<and> count_by_tenant_and_action t rows
       = count_by_tenant_and_action t (filter (\<lambda>r. ar_tenant_id r = t) rows)"
proof -
  let ?T = "\<lambda>r. ar_tenant_id r = t"
  have sorted: "sort_key ar_seq (filter ?T rows) = filter ?T (sort_key ar_seq rows)"
    by (simp add: filter_sort)
  have red: "find (\<lambda>r. ar_action r = ''redacted'' \<and> ?T r \<and> old_hash_is h r) (filter ?T xs)
      = find (\<lambda>r. ar_action r = ''redacted'' \<and> ?T r \<and> old_hash_is h r) xs" for xs
    by (rule find_filter) simp
  have conj: "filter (\<lambda>r. P r \<and> ?T r) (filter ?T rows) = filter (\<lambda>r. P r \<and> ?T r) rows"
    "filter (\<lambda>r. ?T r \<and> P r) (filter ?T rows) = filter (\<lambda>r. ?T r \<and> P r) rows" for P
    by (auto intro: filter_cong)
  show ?thesis
    by (simp add: find_by_tenant_def find_by_memory_and_tenant_def find_by_tenant_and_action_def
        count_by_tenant_and_action_def find_redaction_by_old_content_hash_def sorted red conj
        del: filter_filter)
qed

end
