(* ===== verification/Audit_Verify.thy ===== *)
theory Audit_Verify
  imports Audit_Repo
begin

text \<open>
  The chain verifier of \<open>packages/store/src/audit-verify.ts\<close>. One row of the walk is
  \<open>verify_row\<close>; the loop is a fold of it over the rows in \<open>seq\<close> order. The lemmas relate
  the walk to a declarative specification of an intact chain and to the append of
  \<open>Audit_Repo\<close>.
\<close>

section \<open>The walk\<close>

datatype break_reason =
    Entry_hash_mismatch
  | Prev_link_mismatch
  | Prev_link_and_entry_hash_mismatch
  | Chain_fork

record chain_break =
  cb_index :: nat
  cb_id :: string
  cb_action :: string
  cb_timestamp :: string
  cb_tenant_id :: string
  cb_expected_entry_hash :: string
  cb_actual_entry_hash :: "string option"
  cb_expected_prev :: "string option"
  cb_actual_prev :: "string option"
  cb_reason :: break_reason

record audit_verify_result =
  total_rows :: nat
  unverified_rows :: nat
  clean_rows :: nat
  breaks :: "chain_break list"

text \<open>The local variables of the loop.\<close>

record verify_state =
  vs_index :: nat
  vs_unverified :: nat
  vs_clean :: nat
  vs_breaks :: "chain_break list"
  vs_expected_prev :: "string option"
  vs_seen :: "string list"

definition verify_init :: verify_state where
  "verify_init = \<lparr>vs_index = 0, vs_unverified = 0, vs_clean = 0, vs_breaks = [],
     vs_expected_prev = None, vs_seen = []\<rparr>"

definition row_hash_version :: "audit_row \<Rightarrow> hash_version" where
  "row_hash_version r = (if ar_hash_version r = Some 2 then V2 else V1)"

definition row_body :: "audit_row \<Rightarrow> canonical_row" where
  "row_body r = \<lparr>cr_id = ar_id r, cr_action = ar_action r, cr_memory_id = ar_memory_id r,
     cr_tenant_id = ar_tenant_id r, cr_actor_json = ar_actor_json r, cr_reason = ar_reason r,
     cr_details_json = ar_details_json r, cr_timestamp = ar_timestamp r,
     cr_prev = ar_prev_entry_hash r\<rparr>"

definition row_hash :: "(string \<Rightarrow> string) \<Rightarrow> audit_row \<Rightarrow> string" where
  "row_hash H r = compute_entry_hash H (row_hash_version r) (row_body r)"

definition unchained :: "audit_row \<Rightarrow> bool" where
  "unchained r = (ar_entry_hash r = None \<and> ar_prev_entry_hash r = None)"

definition entry_matches :: "(string \<Rightarrow> string) \<Rightarrow> audit_row \<Rightarrow> bool" where
  "entry_matches H r = (ar_entry_hash r = Some (row_hash H r))"

definition mark_seen :: "audit_row \<Rightarrow> string list \<Rightarrow> string list" where
  "mark_seen r seen = (case ar_entry_hash r of None \<Rightarrow> seen | Some h \<Rightarrow> h # seen)"

definition break_reason_of :: "bool \<Rightarrow> bool \<Rightarrow> audit_row \<Rightarrow> string list \<Rightarrow> break_reason" where
  "break_reason_of prev_ok entry_ok r seen =
     (if entry_ok \<and> (case ar_prev_entry_hash r of None \<Rightarrow> False | Some p \<Rightarrow> p \<in> set seen)
      then Chain_fork
      else if \<not> prev_ok \<and> \<not> entry_ok then Prev_link_and_entry_hash_mismatch
      else if \<not> prev_ok then Prev_link_mismatch
      else Entry_hash_mismatch)"

definition verify_row :: "(string \<Rightarrow> string) \<Rightarrow> verify_state \<Rightarrow> audit_row \<Rightarrow> verify_state" where
  "verify_row H st r =
     (if unchained r
      then st\<lparr>vs_index := vs_index st + 1, vs_unverified := vs_unverified st + 1\<rparr>
      else
        let prev_ok = (ar_prev_entry_hash r = vs_expected_prev st);
            entry_ok = entry_matches H r
        in if prev_ok \<and> entry_ok
           then st\<lparr>vs_index := vs_index st + 1, vs_clean := vs_clean st + 1,
                   vs_expected_prev := ar_entry_hash r, vs_seen := mark_seen r (vs_seen st)\<rparr>
           else st\<lparr>vs_index := vs_index st + 1,
                   vs_breaks := vs_breaks st @
                     [\<lparr>cb_index = vs_index st, cb_id = ar_id r, cb_action = ar_action r,
                       cb_timestamp = ar_timestamp r, cb_tenant_id = ar_tenant_id r,
                       cb_expected_entry_hash = row_hash H r,
                       cb_actual_entry_hash = ar_entry_hash r,
                       cb_expected_prev = vs_expected_prev st,
                       cb_actual_prev = ar_prev_entry_hash r,
                       cb_reason = break_reason_of prev_ok entry_ok r (vs_seen st)\<rparr>],
                   vs_expected_prev := ar_entry_hash r,
                   vs_seen := (if entry_ok then mark_seen r (vs_seen st) else vs_seen st)\<rparr>)"

definition verify_walk :: "(string \<Rightarrow> string) \<Rightarrow> audit_row list \<Rightarrow> verify_state" where
  "verify_walk H rows = foldl (verify_row H) verify_init rows"

text \<open>\<open>verifyAuditChain\<close> on the rows its repository argument returns.\<close>

definition verify_rows :: "(string \<Rightarrow> string) \<Rightarrow> audit_row list \<Rightarrow> audit_verify_result" where
  "verify_rows H rows =
     (let st = verify_walk H rows
      in \<lparr>total_rows = length rows, unverified_rows = vs_unverified st,
          clean_rows = vs_clean st, breaks = vs_breaks st\<rparr>)"

definition verify_audit_chain :: "(string \<Rightarrow> string) \<Rightarrow> audit_table \<Rightarrow> audit_verify_result" where
  "verify_audit_chain H table = verify_rows H (find_all_chronological table)"

section \<open>What the loop variables hold\<close>

text \<open>The last row of a prefix that carries a hash column: its stored hash is the next anchor.\<close>

definition anchor_of :: "audit_row list \<Rightarrow> string option" where
  "anchor_of rows = (case rev (filter (\<lambda>r. \<not> unchained r) rows) of [] \<Rightarrow> None | r # _ \<Rightarrow> ar_entry_hash r)"

definition intact_hashes :: "(string \<Rightarrow> string) \<Rightarrow> audit_row list \<Rightarrow> string set" where
  "intact_hashes H rows = {h. \<exists>r \<in> set rows. \<not> unchained r \<and> entry_matches H r \<and> ar_entry_hash r = Some h}"

definition links_clean :: "(string \<Rightarrow> string) \<Rightarrow> audit_row list \<Rightarrow> audit_row \<Rightarrow> bool" where
  "links_clean H before r = (ar_prev_entry_hash r = anchor_of before \<and> entry_matches H r)"

lemma anchor_of_Nil [simp]: "anchor_of [] = None"
  by (simp add: anchor_of_def)

lemma anchor_of_snoc [simp]:
  "anchor_of (rows @ [r]) = (if unchained r then anchor_of rows else ar_entry_hash r)"
  by (simp add: anchor_of_def)

lemma intact_hashes_Nil [simp]: "intact_hashes H [] = {}"
  by (simp add: intact_hashes_def)

lemma intact_hashes_snoc [simp]:
  "intact_hashes H (rows @ [r]) =
     (if \<not> unchained r \<and> entry_matches H r then insert (row_hash H r) (intact_hashes H rows)
      else intact_hashes H rows)"
  by (auto simp: intact_hashes_def entry_matches_def)

lemma matches_chained: "entry_matches H r \<Longrightarrow> \<not> unchained r"
  by (simp add: entry_matches_def unchained_def)

lemma verify_walk_Nil [simp]: "verify_walk H [] = verify_init"
  by (simp add: verify_walk_def)

lemma verify_walk_snoc [simp]: "verify_walk H (rows @ [r]) = verify_row H (verify_walk H rows) r"
  by (simp add: verify_walk_def)

lemma verify_init_simps [simp]:
  "vs_index verify_init = 0" "vs_unverified verify_init = 0" "vs_clean verify_init = 0"
  "vs_breaks verify_init = []" "vs_expected_prev verify_init = None" "vs_seen verify_init = []"
  by (simp_all add: verify_init_def)

lemma set_mark_seen:
  "entry_matches H r \<Longrightarrow> set (mark_seen r seen) = insert (row_hash H r) (set seen)"
  by (simp add: mark_seen_def entry_matches_def)

lemma walk_variables:
  "vs_index (verify_walk H rows) = length rows
   \<and> vs_expected_prev (verify_walk H rows) = anchor_of rows
   \<and> set (vs_seen (verify_walk H rows)) = intact_hashes H rows"
  by (induction rows rule: rev_induct)
    (auto simp: verify_row_def Let_def set_mark_seen dest: matches_chained)

lemmas walk_index = walk_variables [THEN conjunct1]
lemmas walk_anchor = walk_variables [THEN conjunct2, THEN conjunct1]
lemmas walk_seen = walk_variables [THEN conjunct2, THEN conjunct2]

text \<open>The three outcomes of one row, in terms of the rows before it.\<close>

definition break_at :: "(string \<Rightarrow> string) \<Rightarrow> audit_row list \<Rightarrow> audit_row \<Rightarrow> chain_break" where
  "break_at H before r =
     \<lparr>cb_index = length before, cb_id = ar_id r, cb_action = ar_action r,
      cb_timestamp = ar_timestamp r, cb_tenant_id = ar_tenant_id r,
      cb_expected_entry_hash = row_hash H r, cb_actual_entry_hash = ar_entry_hash r,
      cb_expected_prev = anchor_of before, cb_actual_prev = ar_prev_entry_hash r,
      cb_reason =
        (if entry_matches H r \<and> (\<exists>p \<in> intact_hashes H before. ar_prev_entry_hash r = Some p)
         then Chain_fork
         else if ar_prev_entry_hash r \<noteq> anchor_of before \<and> \<not> entry_matches H r
         then Prev_link_and_entry_hash_mismatch
         else if ar_prev_entry_hash r \<noteq> anchor_of before then Prev_link_mismatch
         else Entry_hash_mismatch)\<rparr>"

lemma break_reason_walk:
  "break_reason_of (ar_prev_entry_hash r = anchor_of before) (entry_matches H r) r
      (vs_seen (verify_walk H before)) = cb_reason (break_at H before r)"
  by (cases "ar_prev_entry_hash r") (simp_all add: break_reason_of_def break_at_def walk_seen)

lemma walk_snoc_cases:
  "unchained r \<Longrightarrow> vs_unverified (verify_row H (verify_walk H before) r) = vs_unverified (verify_walk H before) + 1
      \<and> vs_clean (verify_row H (verify_walk H before) r) = vs_clean (verify_walk H before)
      \<and> vs_breaks (verify_row H (verify_walk H before) r) = vs_breaks (verify_walk H before)"
  "\<not> unchained r \<Longrightarrow> links_clean H before r \<Longrightarrow>
     vs_unverified (verify_row H (verify_walk H before) r) = vs_unverified (verify_walk H before)
      \<and> vs_clean (verify_row H (verify_walk H before) r) = vs_clean (verify_walk H before) + 1
      \<and> vs_breaks (verify_row H (verify_walk H before) r) = vs_breaks (verify_walk H before)"
  "\<not> unchained r \<Longrightarrow> \<not> links_clean H before r \<Longrightarrow>
     vs_unverified (verify_row H (verify_walk H before) r) = vs_unverified (verify_walk H before)
      \<and> vs_clean (verify_row H (verify_walk H before) r) = vs_clean (verify_walk H before)
      \<and> vs_breaks (verify_row H (verify_walk H before) r) = vs_breaks (verify_walk H before) @ [break_at H before r]"
proof -
  show "unchained r \<Longrightarrow> vs_unverified (verify_row H (verify_walk H before) r) = vs_unverified (verify_walk H before) + 1
      \<and> vs_clean (verify_row H (verify_walk H before) r) = vs_clean (verify_walk H before)
      \<and> vs_breaks (verify_row H (verify_walk H before) r) = vs_breaks (verify_walk H before)"
    by (simp add: verify_row_def)
  show "\<not> unchained r \<Longrightarrow> links_clean H before r \<Longrightarrow>
     vs_unverified (verify_row H (verify_walk H before) r) = vs_unverified (verify_walk H before)
      \<and> vs_clean (verify_row H (verify_walk H before) r) = vs_clean (verify_walk H before) + 1
      \<and> vs_breaks (verify_row H (verify_walk H before) r) = vs_breaks (verify_walk H before)"
    by (simp add: verify_row_def Let_def links_clean_def walk_anchor)
  assume "\<not> unchained r" and nc: "\<not> links_clean H before r"
  then have "verify_row H (verify_walk H before) r = (verify_walk H before)
      \<lparr>vs_index := length before + 1, vs_breaks := vs_breaks (verify_walk H before) @ [break_at H before r],
       vs_expected_prev := ar_entry_hash r,
       vs_seen := (if entry_matches H r then mark_seen r (vs_seen (verify_walk H before))
                   else vs_seen (verify_walk H before))\<rparr>"
    by (simp add: verify_row_def Let_def links_clean_def walk_anchor walk_index break_reason_walk)
      (auto simp: break_at_def)
  then show "vs_unverified (verify_row H (verify_walk H before) r) = vs_unverified (verify_walk H before)
      \<and> vs_clean (verify_row H (verify_walk H before) r) = vs_clean (verify_walk H before)
      \<and> vs_breaks (verify_row H (verify_walk H before) r) = vs_breaks (verify_walk H before) @ [break_at H before r]"
    by simp
qed

text \<open>The breaks a table should report: one for each chained row that does not link cleanly.\<close>

fun chain_breaks :: "(string \<Rightarrow> string) \<Rightarrow> audit_row list \<Rightarrow> audit_row list \<Rightarrow> chain_break list" where
  "chain_breaks H before [] = []"
| "chain_breaks H before (r # rows) =
     (if unchained r \<or> links_clean H before r then [] else [break_at H before r])
     @ chain_breaks H (before @ [r]) rows"

lemma chain_breaks_snoc:
  "chain_breaks H before (rows @ [r]) = chain_breaks H before rows
     @ (if unchained r \<or> links_clean H (before @ rows) r then [] else [break_at H (before @ rows) r])"
  by (induction rows arbitrary: before) simp_all

lemma walk_breaks: "vs_breaks (verify_walk H rows) = chain_breaks H [] rows"
proof (induction rows rule: rev_induct)
  case (snoc r rows)
  then show ?case
    by (cases "unchained r"; cases "links_clean H rows r")
      (simp_all add: chain_breaks_snoc walk_snoc_cases)
qed simp

lemma walk_counts:
  "vs_unverified (verify_walk H rows) = length (filter unchained rows)
   \<and> vs_clean (verify_walk H rows) + length (chain_breaks H [] rows) = length (filter (\<lambda>r. \<not> unchained r) rows)"
proof (induction rows rule: rev_induct)
  case (snoc r rows)
  then show ?case
    by (cases "unchained r"; cases "links_clean H rows r")
      (auto simp: chain_breaks_snoc walk_snoc_cases)
qed simp

lemma chain_breaks_iff:
  "b \<in> set (chain_breaks H before rows) \<longleftrightarrow>
     (\<exists>i < length rows. \<not> unchained (rows ! i) \<and> \<not> links_clean H (before @ take i rows) (rows ! i)
        \<and> b = break_at H (before @ take i rows) (rows ! i))"
proof (induction rows rule: rev_induct)
  case (snoc r rows)
  have "(\<exists>i < length (rows @ [r]). P i) \<longleftrightarrow> (\<exists>i < length rows. P i) \<or> P (length rows)" for P
    by (auto simp: less_Suc_eq)
  then show ?case using snoc by (auto simp: chain_breaks_snoc nth_append)
qed simp

lemma verify_simps [simp]:
  "total_rows (verify_audit_chain H t) = length t"
  "unverified_rows (verify_audit_chain H t) = length (filter unchained (find_all_chronological t))"
  "breaks (verify_audit_chain H t) = chain_breaks H [] (find_all_chronological t)"
  "clean_rows (verify_audit_chain H t) = vs_clean (verify_walk H (find_all_chronological t))"
  by (simp_all add: verify_audit_chain_def verify_rows_def Let_def walk_breaks walk_counts
      find_all_chronological_def)

lemma length_split_filter: "length (filter P xs) + length (filter (\<lambda>x. \<not> P x) xs) = length xs"
  by (rule sum_length_filter_compl)

text \<open>
  C39. The verifier accounts for every row and reports exactly the broken ones. The total is the
  sum of the unverified, clean and broken rows; and a break is reported if and only if some row
  that carries a hash column either does not hash to its stored value under its own version or
  does not point at the stored hash of the previous such row, the break naming that row and its
  position in write order.
\<close>

theorem verify_reports_exactly_the_breaks:
  "total_rows (verify_audit_chain H table) = unverified_rows (verify_audit_chain H table)
       + clean_rows (verify_audit_chain H table) + length (breaks (verify_audit_chain H table))
   \<and> (b \<in> set (breaks (verify_audit_chain H table)) \<longleftrightarrow>
        (\<exists>i rows r. rows = find_all_chronological table \<and> i < length rows \<and> r = rows ! i
           \<and> \<not> unchained r
           \<and> (ar_entry_hash r \<noteq> Some (row_hash H r) \<or> ar_prev_entry_hash r \<noteq> anchor_of (take i rows))
           \<and> b = break_at H (take i rows) r))"
proof
  let ?rows = "find_all_chronological table"
  have "length ?rows = length table" by (simp add: find_all_chronological_def)
  then show "total_rows (verify_audit_chain H table) = unverified_rows (verify_audit_chain H table)
       + clean_rows (verify_audit_chain H table) + length (breaks (verify_audit_chain H table))"
    using walk_counts [of H ?rows] length_split_filter [of unchained ?rows] by simp
  show "b \<in> set (breaks (verify_audit_chain H table)) \<longleftrightarrow>
        (\<exists>i rows r. rows = find_all_chronological table \<and> i < length rows \<and> r = rows ! i
           \<and> \<not> unchained r
           \<and> (ar_entry_hash r \<noteq> Some (row_hash H r) \<or> ar_prev_entry_hash r \<noteq> anchor_of (take i rows))
           \<and> b = break_at H (take i rows) r)"
    by (auto simp: chain_breaks_iff links_clean_def entry_matches_def)
qed

text \<open>
  A fork verdict is never given to tampering. A break is reported as \<open>CHAIN_FORK\<close> only when
  the row's own content still hashes to its stored value and its link points at the stored hash
  of an earlier row whose own content is intact too; a row whose content was changed is always
  reported under one of the tampering reasons.
\<close>

theorem fork_is_not_tampering:
  assumes "b \<in> set (breaks (verify_audit_chain H table))"
  shows "(cb_reason b = Chain_fork \<longrightarrow>
      (\<exists>i j rows. rows = find_all_chronological table \<and> j < i \<and> i < length rows
        \<and> cb_index b = i \<and> cb_id b = ar_id (rows ! i)
        \<and> entry_matches H (rows ! i) \<and> entry_matches H (rows ! j)
        \<and> ar_prev_entry_hash (rows ! i) = ar_entry_hash (rows ! j)))
    \<and> (cb_actual_entry_hash b \<noteq> Some (cb_expected_entry_hash b) \<longrightarrow>
      cb_reason b \<in> {Entry_hash_mismatch, Prev_link_and_entry_hash_mismatch})"
proof (intro conjI impI)
  define rows where "rows = find_all_chronological table"
  from assms obtain i where i: "i < length rows" and b: "b = break_at H (take i rows) (rows ! i)"
    by (auto simp: rows_def chain_breaks_iff)
  show "cb_reason b \<in> {Entry_hash_mismatch, Prev_link_and_entry_hash_mismatch}"
    if "cb_actual_entry_hash b \<noteq> Some (cb_expected_entry_hash b)"
    using that by (auto simp: b break_at_def entry_matches_def)
  assume "cb_reason b = Chain_fork"
  then obtain p where e: "entry_matches H (rows ! i)" and p: "p \<in> intact_hashes H (take i rows)"
      "ar_prev_entry_hash (rows ! i) = Some p"
    by (auto simp: b break_at_def split: if_splits)
  from p(1) obtain r where r: "r \<in> set (take i rows)" "entry_matches H r" "ar_entry_hash r = Some p"
    by (auto simp: intact_hashes_def)
  from r(1) obtain j where j: "j < i" "r = rows ! j" using i by (auto simp: in_set_conv_nth)
  have "cb_index b = i" "cb_id b = ar_id (rows ! i)" using i by (simp_all add: b break_at_def)
  with i e r j p(2) show "\<exists>i j rows. rows = find_all_chronological table \<and> j < i \<and> i < length rows
        \<and> cb_index b = i \<and> cb_id b = ar_id (rows ! i)
        \<and> entry_matches H (rows ! i) \<and> entry_matches H (rows ! j)
        \<and> ar_prev_entry_hash (rows ! i) = ar_entry_hash (rows ! j)"
    by (metis rows_def)
qed

section \<open>The append and the verifier\<close>

text \<open>No row holds a link without a hash of its own; the append never writes one.\<close>

definition no_orphan_links :: "audit_table \<Rightarrow> bool" where
  "no_orphan_links rows = (\<forall>r \<in> set rows. ar_entry_hash r = None \<longrightarrow> ar_prev_entry_hash r = None)"

lemma anchor_is_last_hash:
  assumes "audit_table_ok rows" "no_orphan_links rows"
  shows "Option.bind (last_hashed_row rows) ar_entry_hash = anchor_of rows"
proof -
  have "filter (\<lambda>r. ar_entry_hash r \<noteq> None) rows = filter (\<lambda>r. \<not> unchained r) rows"
    using assms(2) by (intro filter_cong) (auto simp: no_orphan_links_def unchained_def)
  then show ?thesis
    by (simp add: last_hashed_ok [OF assms(1)] anchor_of_def split: list.split)
qed

lemma append_row_body:
  "row_body (audit_append_row H e rows) = \<lparr>cr_id = ev_id e, cr_action = action_name (ev_action e),
     cr_memory_id = ev_memory_id e, cr_tenant_id = ev_tenant_id e,
     cr_actor_json = json_stringify (author_json (ev_actor e)), cr_reason = ev_reason e,
     cr_details_json = json_stringify (JObj (ev_details e)), cr_timestamp = ev_timestamp e,
     cr_prev = Option.bind (last_hashed_row rows) ar_entry_hash\<rparr>"
  by (simp add: row_body_def)

lemma append_entry_matches: "entry_matches H (audit_append_row H e rows)"
proof -
  have "row_hash_version (audit_append_row H e rows) = V2" by (simp add: row_hash_version_def)
  then have "row_hash H (audit_append_row H e rows) = compute_entry_hash H V2 (row_body (audit_append_row H e rows))"
    by (simp add: row_hash_def)
  then show ?thesis unfolding entry_matches_def append_row_body
    by (simp add: audit_append_row_def Let_def current_audit_hash_version_def)
qed

lemma append_links_clean:
  "audit_table_ok rows \<Longrightarrow> no_orphan_links rows \<Longrightarrow> links_clean H rows (audit_append_row H e rows)"
  by (simp add: links_clean_def append_entry_matches anchor_is_last_hash)

lemma append_keeps_no_orphans:
  "no_orphan_links rows \<Longrightarrow> audit_insert H e rows = Inr rows' \<Longrightarrow> no_orphan_links rows'"
  using append_row_simps(10) [of H e rows]
  by (auto simp: no_orphan_links_def audit_insert_Inr simp del: append_row_simps(10))

lemma verify_after_insert:
  assumes ok: "audit_table_ok rows" "no_orphan_links rows" and ins: "audit_insert H e rows = Inr rows'"
  shows "verify_audit_chain H rows' = (verify_audit_chain H rows)
      \<lparr>total_rows := total_rows (verify_audit_chain H rows) + 1,
       clean_rows := clean_rows (verify_audit_chain H rows) + 1\<rparr>"
proof -
  have rows': "rows' = rows @ [audit_append_row H e rows]" using ins by (simp add: audit_insert_Inr)
  have "find_all_chronological rows' = rows'" "find_all_chronological rows = rows"
    using ok ins by (auto intro: find_all_ok audit_insert_ok)
  then show ?thesis
    using walk_snoc_cases(2) [OF matches_chained [OF append_entry_matches] append_links_clean [OF ok], of H e]
    by (simp add: verify_audit_chain_def verify_rows_def Let_def rows')
qed

lemma verify_after_insert_all:
  "audit_table_ok rows \<Longrightarrow> no_orphan_links rows \<Longrightarrow> audit_insert_all H es rows = Inr rows' \<Longrightarrow>
    verify_audit_chain H rows' = (verify_audit_chain H rows)
      \<lparr>total_rows := total_rows (verify_audit_chain H rows) + length es,
       clean_rows := clean_rows (verify_audit_chain H rows) + length es\<rparr>"
proof (induction es arbitrary: rows)
  case (Cons e es)
  then obtain mid where mid: "audit_insert H e rows = Inr mid" "audit_insert_all H es mid = Inr rows'"
    by (auto split: sum.splits)
  have "audit_table_ok mid" "no_orphan_links mid"
    using Cons.prems mid(1) by (blast intro: audit_insert_ok append_keeps_no_orphans)+
  from Cons.IH [OF this mid(2)] verify_after_insert [OF Cons.prems(1,2) mid(1)]
  show ?case by (simp del: verify_simps)
qed simp

text \<open>
  C20. Appending never breaks the chain. However many events are appended to a well-formed log,
  under whatever hash function, verification afterwards reports the breaks and the unverified
  rows it reported before and no others, and counts every appended row clean; a log that was
  only ever written by \<open>insert\<close> verifies with no break and every row clean.
\<close>

theorem appending_keeps_the_chain:
  assumes "audit_table_ok rows" "no_orphan_links rows" "audit_insert_all H es rows = Inr rows'"
  shows "breaks (verify_audit_chain H rows') = breaks (verify_audit_chain H rows)
    \<and> unverified_rows (verify_audit_chain H rows') = unverified_rows (verify_audit_chain H rows)
    \<and> clean_rows (verify_audit_chain H rows') = clean_rows (verify_audit_chain H rows) + length es
    \<and> (rows = [] \<longrightarrow> verify_audit_chain H rows' =
           \<lparr>total_rows = length es, unverified_rows = 0, clean_rows = length es, breaks = []\<rparr>)"
  using verify_after_insert_all [OF assms]
  by (auto simp: verify_audit_chain_def verify_rows_def find_all_chronological_def)

section \<open>Tamper evidence\<close>

text \<open>What the hash of a row covers.\<close>

definition row_seal :: "audit_row \<Rightarrow> hash_version \<times> canonical_row" where
  "row_seal r = (row_hash_version r,
     (if row_hash_version r = V1 then row_body r else (row_body r)\<lparr>cr_timestamp := []\<rparr>))"

text \<open>Every row is chained and the verifier finds nothing.\<close>

definition strictly_clean :: "(string \<Rightarrow> string) \<Rightarrow> audit_table \<Rightarrow> bool" where
  "strictly_clean H t =
     (unverified_rows (verify_audit_chain H t) = 0 \<and> breaks (verify_audit_chain H t) = [])"

definition intact :: "(string \<Rightarrow> string) \<Rightarrow> audit_row list \<Rightarrow> bool" where
  "intact H rows = (filter unchained rows = [] \<and> chain_breaks H [] rows = [])"

lemma intact_snoc:
  "intact H (rows @ [r]) \<longleftrightarrow> intact H rows \<and> \<not> unchained r \<and> links_clean H rows r"
  by (auto simp: intact_def chain_breaks_snoc)

lemma strictly_clean_intact: "strictly_clean H t \<longleftrightarrow> intact H (find_all_chronological t)"
  by (simp add: strictly_clean_def intact_def)

lemma intact_anchor_None: "intact H rows \<Longrightarrow> anchor_of rows = None \<longleftrightarrow> rows = []"
  by (cases rows rule: rev_cases) (auto simp: intact_snoc links_clean_def entry_matches_def)

text \<open>The text a row is hashed from.\<close>

definition row_text :: "audit_row \<Rightarrow> string" where
  "row_text r = canonical_row_json (row_hash_version r) (row_body r)"

lemma equal_hash_equal_seal:
  assumes "row_hash H r = row_hash H r'" "\<not> collision H {row_text r} {row_text r'}"
  shows "row_seal r = row_seal r'"
proof -
  have "row_hash_version r = row_hash_version r'
      \<and> (row_body r)\<lparr>cr_timestamp := []\<rparr> = (row_body r')\<lparr>cr_timestamp := []\<rparr>
      \<and> (row_hash_version r = V1 \<longrightarrow> cr_timestamp (row_body r) = cr_timestamp (row_body r'))"
    using body_determines_row [OF assms(1) [unfolded row_hash_def]] assms(2) unfolding row_text_def by blast
  moreover have "x\<lparr>cr_timestamp := []\<rparr> = y\<lparr>cr_timestamp := []\<rparr> \<Longrightarrow> cr_timestamp x = cr_timestamp y \<Longrightarrow> x = y"
    for x y :: canonical_row by (cases x; cases y) simp
  ultimately show ?thesis by (auto simp: row_seal_def)
qed

lemma intact_same_tip:
  assumes "intact H rows" "intact H rows'" "anchor_of rows = anchor_of rows'"
    "\<not> collision H (row_text ` set rows) (row_text ` set rows')"
  shows "map row_seal rows = map row_seal rows' \<and> map ar_entry_hash rows = map ar_entry_hash rows'"
  using assms
proof (induction rows arbitrary: rows' rule: rev_induct)
  case Nil
  then show ?case using intact_anchor_None [of H rows'] by simp
next
  case (snoc r rows)
  have ne: "rows' \<noteq> []" using snoc.prems by (auto simp: intact_snoc links_clean_def entry_matches_def)
  then obtain front r' where rows': "rows' = front @ [r']" by (cases rows' rule: rev_cases) auto
  have r: "intact H rows" "\<not> unchained r" "links_clean H rows r"
    and r': "intact H front" "\<not> unchained r'" "links_clean H front r'"
    using snoc.prems by (auto simp: rows' intact_snoc)
  have tip: "ar_entry_hash r = ar_entry_hash r'" using snoc.prems(3) r(2) r'(2) by (simp add: rows')
  then have "row_hash H r = row_hash H r'" using r(3) r'(3) by (simp add: links_clean_def entry_matches_def)
  moreover have "\<not> collision H {row_text r} {row_text r'}"
    using snoc.prems(4) by (rule contrapos_nn) (erule collision_mono; simp add: rows')
  ultimately have seal: "row_seal r = row_seal r'" by (rule equal_hash_equal_seal)
  have nc: "\<not> collision H (row_text ` set rows) (row_text ` set front)"
    using snoc.prems(4) by (rule contrapos_nn) (erule collision_mono; auto simp: rows')
  from seal have "cr_prev (row_body r) = cr_prev (row_body r')"
    by (auto simp: row_seal_def split: if_splits dest: arg_cong [of _ _ cr_prev])
  then have "anchor_of rows = anchor_of front" using r(3) r'(3) by (simp add: row_body_def links_clean_def)
  with snoc.IH [OF r(1) r'(1) _ nc] seal tip show ?case by (simp add: rows')
qed

text \<open>
  C19. Tamper evidence. If two logs both verify strictly clean and end in the same entry hash,
  they have the same number of rows and agree, row by row in write order, on every field the hash
  covers: no row can have been edited, inserted, removed or reordered while the tip stays the
  same, unless a row of one log and a row of the other are hashed from different texts with one
  digest.
\<close>

theorem clean_tip_determines_log:
  assumes "strictly_clean H t" "strictly_clean H t'"
    and "anchor_of (find_all_chronological t) = anchor_of (find_all_chronological t')"
  shows "(length t = length t'
      \<and> map row_seal (find_all_chronological t) = map row_seal (find_all_chronological t'))
    \<or> collision H (row_text ` set t) (row_text ` set t')"
proof (cases "collision H (row_text ` set t) (row_text ` set t')")
  case False
  then have nc: "\<not> collision H (row_text ` set (find_all_chronological t)) (row_text ` set (find_all_chronological t'))"
    by (simp add: find_all_chronological_def)
  have "map row_seal (find_all_chronological t) = map row_seal (find_all_chronological t')"
    using intact_same_tip [OF _ _ assms(3) nc] assms(1,2) by (simp add: strictly_clean_intact)
  moreover from this have "length (find_all_chronological t) = length (find_all_chronological t')"
    by (rule map_eq_imp_length_eq)
  ultimately show ?thesis by (simp add: find_all_chronological_def)
qed simp

section \<open>Concrete logs\<close>

definition sample_event :: "string \<Rightarrow> string \<Rightarrow> audit_event" where
  "sample_event i ts = \<lparr>ev_id = i, ev_action = A_promoted, ev_memory_id = ''m1'', ev_tenant_id = ''acme'',
     ev_actor = \<lparr>author_kind = Human, author_id = ''u1'', author_name = None\<rparr>, ev_reason = None,
     ev_details = [], ev_timestamp = ts\<rparr>"

theorem appended_event_reads_back_witness:
  "\<exists>r. audit_insert (\<lambda>s. s) (sample_event ''e1'' ''t1'') [] = Inr [r]
     \<and> row_to_event any_format r = Inr (sample_event ''e1'' ''t1'')"
proof -
  have ne: "non_empty_string ''acme'' = Some ''acme''" "non_empty_string ''u1'' = Some ''u1''" by code_simp+
  then have "event_wf any_format (sample_event ''e1'' ''t1'')"
    by (simp add: event_wf_def any_format_def sample_event_def)
  from appended_event_reads_back [OF this, where rows = "[]" and H = "\<lambda>s. s"] show ?thesis by auto
qed

text \<open>A row written outside the repository, hashed over its own content.\<close>

definition sealed_row :: "(string \<Rightarrow> string) \<Rightarrow> string \<Rightarrow> nat \<Rightarrow> string option \<Rightarrow> audit_row" where
  "sealed_row H i n prev =
     (let r = \<lparr>ar_id = i, ar_action = ''promoted'', ar_memory_id = ''m1'', ar_tenant_id = ''acme'',
               ar_actor_json = ''{}'', ar_reason = None, ar_details_json = ''{}'', ar_timestamp = ''t'',
               ar_entry_hash = None, ar_prev_entry_hash = prev, ar_hash_version = Some 2, ar_seq = n\<rparr>
      in r\<lparr>ar_entry_hash := Some (row_hash H r)\<rparr>)"

lemma sealed_simps [simp]:
  "ar_id (sealed_row H i n p) = i" "ar_seq (sealed_row H i n p) = n"
  "ar_prev_entry_hash (sealed_row H i n p) = p" "entry_matches H (sealed_row H i n p)"
  "\<not> unchained (sealed_row H i n p)"
  by (simp_all add: sealed_row_def Let_def entry_matches_def row_hash_def row_hash_version_def row_body_def
      unchained_def)

lemma sealed_hash: "ar_entry_hash (sealed_row H i n p) = Some (row_hash H (sealed_row H i n p))"
  using sealed_simps(4) unfolding entry_matches_def .

lemma strictly_clean_single: "strictly_clean H [audit_append_row H e []]"
  using intact_snoc [of H "[]" "audit_append_row H e []"] append_links_clean [of "[]" H e]
    matches_chained [OF append_entry_matches, of H e "[]"]
  by (simp add: strictly_clean_intact find_all_chronological_def intact_def no_orphan_links_def)

abbreviation fork_log :: "audit_table" where
  "fork_log \<equiv>
     (let a = sealed_row id ''e1'' 1 None; b = sealed_row id ''e2'' 2 (ar_entry_hash a)
      in [a, b, sealed_row id ''e3'' 3 (ar_entry_hash a)])"

lemma fork_log_distinct: "row_hash id (sealed_row id ''e1'' 1 None) \<noteq> row_hash id (sealed_row id ''e2'' 2 p)"
  by (simp add: row_hash_def compute_entry_hash_def canonical_row_json_def row_hash_version_def
      sealed_row_def Let_def row_body_def v2_inj v1_inj)

lemma fork_log_break:
  "find_all_chronological fork_log = fork_log"
  "\<exists>b \<in> set (breaks (verify_audit_chain id fork_log)). cb_index b = 2 \<and> cb_reason b = Chain_fork
     \<and> cb_actual_entry_hash b = Some (cb_expected_entry_hash b)"
proof -
  show s: "find_all_chronological fork_log = fork_log"
    by (simp add: find_all_chronological_def sort_key_increasing Let_def)
  show "\<exists>b \<in> set (breaks (verify_audit_chain id fork_log)). cb_index b = 2 \<and> cb_reason b = Chain_fork
     \<and> cb_actual_entry_hash b = Some (cb_expected_entry_hash b)"
    unfolding verify_simps s using fork_log_distinct
    by (auto simp: Let_def chain_breaks.simps links_clean_def anchor_of_def break_at_def
        intact_hashes_def sealed_hash)
qed

theorem verify_reports_exactly_the_breaks_witness:
  "\<exists>i rows r. rows = find_all_chronological fork_log \<and> i < length rows \<and> r = rows ! i
     \<and> ar_prev_entry_hash r \<noteq> anchor_of (take i rows) \<and> ar_entry_hash r = Some (row_hash id r)"
proof -
  obtain b where b: "b \<in> set (breaks (verify_audit_chain id fork_log))"
      "cb_actual_entry_hash b = Some (cb_expected_entry_hash b)"
    using fork_log_break(2) by blast
  from verify_reports_exactly_the_breaks [THEN conjunct2, THEN iffD1, OF b(1)] obtain i rows r where
    "rows = find_all_chronological fork_log" "i < length rows" "r = rows ! i"
    "ar_entry_hash r \<noteq> Some (row_hash id r) \<or> ar_prev_entry_hash r \<noteq> anchor_of (take i rows)"
    "b = break_at id (take i rows) r" by blast
  then show ?thesis using b(2) by (auto simp: break_at_def simp del: Let_def)
qed

theorem fork_is_not_tampering_witness:
  "\<exists>b \<in> set (breaks (verify_audit_chain id fork_log)). cb_reason b = Chain_fork
     \<and> (\<exists>j. j < cb_index b \<and> entry_matches id (fork_log ! j))"
proof -
  obtain b where b: "b \<in> set (breaks (verify_audit_chain id fork_log))" "cb_reason b = Chain_fork"
    using fork_log_break(2) by blast
  from fork_is_not_tampering [OF b(1)] b(2) obtain j where "j < cb_index b" "entry_matches id (fork_log ! j)"
    unfolding fork_log_break(1) by blast
  with b show ?thesis by blast
qed

theorem appending_keeps_the_chain_witness:
  "\<exists>rows'. audit_insert_all id [sample_event ''e1'' ''t1'', sample_event ''e2'' ''t0''] [] = Inr rows'
     \<and> verify_audit_chain id rows' = \<lparr>total_rows = 2, unverified_rows = 0, clean_rows = 2, breaks = []\<rparr>"
proof -
  obtain rows' where r: "audit_insert_all id [sample_event ''e1'' ''t1'', sample_event ''e2'' ''t0''] [] = Inr rows'"
    using audit_insert_all_total [of "[sample_event ''e1'' ''t1'', sample_event ''e2'' ''t0'']" "[]" id]
    by (auto simp: sample_event_def)
  from appending_keeps_the_chain [OF _ _ r]
  have "verify_audit_chain id rows' = \<lparr>total_rows = 2, unverified_rows = 0, clean_rows = 2, breaks = []\<rparr>"
    by (simp add: no_orphan_links_def del: verify_simps)
  with r show ?thesis by blast
qed

theorem clean_tip_determines_log_witness:
  "\<exists>t t'. t \<noteq> t' \<and> strictly_clean id t \<and> strictly_clean id t'
     \<and> map row_seal (find_all_chronological t) = map row_seal (find_all_chronological t')"
proof -
  define t where "t = (\<lambda>ts. [audit_append_row id (sample_event ''e1'' ts) []])"
  have c: "strictly_clean id (t ts)" for ts by (simp add: t_def strictly_clean_single)
  have tip: "anchor_of (find_all_chronological (t ''a'')) = anchor_of (find_all_chronological (t ''b''))"
    by (simp add: t_def find_all_chronological_def anchor_of_def unchained_def audit_append_row_def Let_def
        sample_event_def compute_entry_hash_def canonical_row_json_def v2_inj
        current_audit_hash_version_def)
  have "t ''a'' \<noteq> t ''b''"
  proof
    assume "t ''a'' = t ''b''"
    then have "ar_timestamp (hd (t ''a'')) = ar_timestamp (hd (t ''b''))" by simp
    then show False by (simp add: t_def sample_event_def)
  qed
  with c clean_tip_determines_log [OF c c tip] show ?thesis by (auto simp: collision_def)
qed

end
