(* ===== verification/Audit_Anchor.thy ===== *)
theory Audit_Anchor
  imports Audit_Verify
begin

text \<open>
  The external anchor log of \<open>packages/store/src/audit-anchor.ts\<close>: snapshots of the chain head
  in a hash chain of their own, and the cross-check that exposes a rewrite the chain verifier
  alone accepts. The log is the list of its records; the JSONL file and the clock are left to the
  caller.
\<close>

section \<open>Anchor records\<close>

record anchor_body =
  an_anchored_at :: string
  an_tenant_id :: string
  an_chained_rows :: nat
  an_chain_head :: string
  an_prev :: "string option"

record anchor_record = anchor_body +
  an_hash :: string

definition anchor_body_json :: "'a anchor_body_scheme \<Rightarrow> string" where
  "anchor_body_json b =
     json_object
       [(''schemaVersion'', decimal 1),
        (''anchoredAt'', json_quote (an_anchored_at b)),
        (''tenantId'', json_quote (an_tenant_id b)),
        (''chainedRows'', decimal (an_chained_rows b)),
        (''chainHead'', json_quote (an_chain_head b)),
        (''prevAnchorHash'', json_nullable (an_prev b))]"

definition compute_anchor_hash :: "(string \<Rightarrow> string) \<Rightarrow> 'a anchor_body_scheme \<Rightarrow> string" where
  "compute_anchor_hash H b = H (anchor_body_json b)"

definition chained_rows_of :: "audit_table \<Rightarrow> audit_row list" where
  "chained_rows_of table = filter (\<lambda>r. ar_entry_hash r \<noteq> None) (find_all_chronological table)"

text \<open>The head of the chained rows, the empty string when there are none.\<close>

definition head_hash :: "audit_row list \<Rightarrow> string" where
  "head_hash rows =
     (case rev rows of [] \<Rightarrow> '''' | r # _ \<Rightarrow> (case ar_entry_hash r of None \<Rightarrow> '''' | Some h \<Rightarrow> h))"

definition last_of :: "'a list \<Rightarrow> 'a option" where
  "last_of xs = (case rev xs of [] \<Rightarrow> None | x # _ \<Rightarrow> Some x)"

text \<open>\<open>appendAnchor\<close>: the record it returns and the log afterwards.\<close>

definition append_anchor ::
  "(string \<Rightarrow> string) \<Rightarrow> tenant_id \<Rightarrow> string \<Rightarrow> audit_table \<Rightarrow> anchor_record list
    \<Rightarrow> anchor_record \<times> anchor_record list"
where
  "append_anchor H tenant now table alog =
     (let rows = chained_rows_of table; head = head_hash rows;
          body = \<lparr>an_anchored_at = now, an_tenant_id = tenant, an_chained_rows = length rows,
                  an_chain_head = head, an_prev = map_option an_hash (last_of alog)\<rparr>;
          rec = \<lparr>an_anchored_at = now, an_tenant_id = tenant, an_chained_rows = length rows,
                 an_chain_head = head, an_prev = map_option an_hash (last_of alog),
                 an_hash = compute_anchor_hash H body\<rparr>
      in case last_of alog of
           None \<Rightarrow> (rec, alog @ [rec])
         | Some a \<Rightarrow> if an_chain_head a = head \<and> an_chained_rows a = length rows then (a, alog)
                     else (rec, alog @ [rec]))"

section \<open>The cross-check\<close>

datatype anchor_break_reason =
    Anchor_hash_mismatch
  | Anchor_link_mismatch "string option" "string option"
  | History_truncated nat nat
  | History_rewritten nat "string option" string

record anchor_break =
  ab_index :: nat
  ab_anchored_at :: string
  ab_reason :: anchor_break_reason

record anchor_verify_result =
  av_chain :: audit_verify_result
  av_anchor_count :: nat
  av_breaks :: "anchor_break list"
  av_ok :: bool

definition anchor_reasons ::
  "(string \<Rightarrow> string) \<Rightarrow> audit_row list \<Rightarrow> string option \<Rightarrow> anchor_record \<Rightarrow> anchor_break_reason list"
where
  "anchor_reasons H rows expected_prev a =
     (if compute_anchor_hash H a \<noteq> an_hash a then [Anchor_hash_mismatch] else [])
     @ (if an_prev a \<noteq> expected_prev then [Anchor_link_mismatch (an_prev a) expected_prev] else [])
     @ (if length rows < an_chained_rows a
        then [History_truncated (an_chained_rows a) (length rows)]
        else if 0 < an_chained_rows a
             \<and> ar_entry_hash (rows ! (an_chained_rows a - 1)) \<noteq> Some (an_chain_head a)
        then [History_rewritten (an_chained_rows a)
                (ar_entry_hash (rows ! (an_chained_rows a - 1))) (an_chain_head a)]
        else [])"

fun anchor_loop ::
  "(string \<Rightarrow> string) \<Rightarrow> audit_row list \<Rightarrow> nat \<Rightarrow> string option \<Rightarrow> anchor_record list \<Rightarrow> anchor_break list"
where
  "anchor_loop H rows i expected_prev [] = []"
| "anchor_loop H rows i expected_prev (a # alog) =
     map (\<lambda>r. \<lparr>ab_index = i, ab_anchored_at = an_anchored_at a, ab_reason = r\<rparr>)
         (anchor_reasons H rows expected_prev a)
     @ anchor_loop H rows (i + 1) (Some (an_hash a)) alog"

text \<open>\<open>verifyAnchorRecords\<close>, and \<open>verifyAnchors\<close> once the log is read.\<close>

definition verify_anchor_records ::
  "(string \<Rightarrow> string) \<Rightarrow> audit_table \<Rightarrow> anchor_record list \<Rightarrow> anchor_verify_result" where
  "verify_anchor_records H table alog =
     (let chain = verify_audit_chain H table;
          brks = anchor_loop H (chained_rows_of table) 0 None alog
      in \<lparr>av_chain = chain, av_anchor_count = length alog, av_breaks = brks,
          av_ok = (breaks chain = [] \<and> brks = [])\<rparr>)"

section \<open>Anchored prefixes\<close>

lemma last_of_snoc [simp]: "last_of (xs @ [x]) = Some x"
  by (simp add: last_of_def)

lemma last_of_Nil [simp]: "last_of [] = None"
  by (simp add: last_of_def)

text \<open>One record agrees with a chain.\<close>

definition anchor_agrees :: "audit_row list \<Rightarrow> anchor_record \<Rightarrow> bool" where
  "anchor_agrees rows a =
     (an_chained_rows a \<le> length rows
      \<and> (0 < an_chained_rows a \<longrightarrow> ar_entry_hash (rows ! (an_chained_rows a - 1)) = Some (an_chain_head a)))"

lemma anchor_reasons_empty:
  "anchor_reasons H rows p a = [] \<longleftrightarrow>
     compute_anchor_hash H a = an_hash a \<and> an_prev a = p \<and> anchor_agrees rows a"
  by (auto simp: anchor_reasons_def anchor_agrees_def)

lemma anchor_loop_agrees: "anchor_loop H rows i p alog = [] \<Longrightarrow> a \<in> set alog \<Longrightarrow> anchor_agrees rows a"
  by (induction alog arbitrary: i p) (auto simp: anchor_reasons_empty)

lemma anchor_loop_snoc:
  "anchor_loop H rows i p (alog @ [a]) = [] \<longleftrightarrow>
     anchor_loop H rows i p alog = []
     \<and> anchor_reasons H rows (case last_of alog of None \<Rightarrow> p | Some b \<Rightarrow> Some (an_hash b)) a = []"
proof (induction alog arbitrary: i p)
  case (Cons b alog)
  have "last_of (b # alog) = (case last_of alog of None \<Rightarrow> Some b | Some c \<Rightarrow> Some c)"
    by (cases alog rule: rev_cases) (auto simp: last_of_def)
  then show ?case using Cons by (auto split: option.splits)
qed simp

lemma anchor_agrees_append: "anchor_agrees rows a \<Longrightarrow> anchor_agrees (rows @ later) a"
  by (auto simp: anchor_agrees_def nth_append)

lemma anchor_loop_append_rows:
  "anchor_loop H rows i p alog = [] \<Longrightarrow> anchor_loop H (rows @ later) i p alog = []"
  by (induction alog arbitrary: i p) (auto simp: anchor_reasons_empty anchor_agrees_append)

lemma head_hash_last:
  "rows \<noteq> [] \<Longrightarrow> \<forall>r \<in> set rows. ar_entry_hash r \<noteq> None \<Longrightarrow>
    ar_entry_hash (rows ! (length rows - 1)) = Some (head_hash rows)"
  by (cases rows rule: rev_cases) (auto simp: head_hash_def nth_append)

lemma append_anchor_keeps:
  assumes "anchor_loop H (chained_rows_of table) 0 None alog = []"
  shows "anchor_loop H (chained_rows_of table) 0 None (snd (append_anchor H tenant now table alog)) = []"
proof -
  let ?rows = "chained_rows_of table"
  have ch: "\<forall>r \<in> set ?rows. ar_entry_hash r \<noteq> None" by (simp add: chained_rows_of_def)
  have "snd (append_anchor H tenant now table alog) = alog
      \<or> (\<exists>a. snd (append_anchor H tenant now table alog) = alog @ [a] \<and> an_chained_rows a = length ?rows
           \<and> an_chain_head a = head_hash ?rows \<and> an_prev a = map_option an_hash (last_of alog)
           \<and> compute_anchor_hash H a = an_hash a)"
    by (auto simp: append_anchor_def Let_def compute_anchor_hash_def anchor_body_json_def
        split: option.splits)
  then show ?thesis
  proof (elim disjE exE conjE)
    fix a assume a: "snd (append_anchor H tenant now table alog) = alog @ [a]"
      "an_chained_rows a = length ?rows" "an_chain_head a = head_hash ?rows"
      "an_prev a = map_option an_hash (last_of alog)" "compute_anchor_hash H a = an_hash a"
    have "anchor_agrees ?rows a"
      using a head_hash_last [OF _ ch] by (cases "?rows = []") (auto simp: anchor_agrees_def)
    with a assms show ?thesis
      by (simp add: anchor_loop_snoc anchor_reasons_empty split: option.split)
  qed (use assms in simp)
qed

section \<open>Runs of the log and its anchors\<close>

datatype log_action = Do_append audit_event | Do_anchor tenant_id string

fun run_log ::
  "(string \<Rightarrow> string) \<Rightarrow> log_action list \<Rightarrow> audit_table \<times> anchor_record list
    \<Rightarrow> store_error + audit_table \<times> anchor_record list"
where
  "run_log H [] s = Inr s"
| "run_log H (Do_append e # as) (t, l) =
     (case audit_insert H e t of Inl x \<Rightarrow> Inl x | Inr t' \<Rightarrow> run_log H as (t', l))"
| "run_log H (Do_anchor tn now # as) (t, l) = run_log H as (t, snd (append_anchor H tn now t l))"

lemma chained_rows_insert:
  assumes "audit_table_ok t" "audit_insert H e t = Inr t'"
  shows "\<exists>r. chained_rows_of t' = chained_rows_of t @ [r]"
proof -
  have "find_all_chronological t' = t'" "find_all_chronological t = t" "t' = t @ [audit_append_row H e t]"
    using assms audit_insert_ok [OF assms] by (simp_all add: find_all_ok audit_insert_Inr)
  then show ?thesis by (simp add: chained_rows_of_def)
qed

lemma run_log_ok:
  assumes "run_log H as (t, l) = Inr (t', l')"
    and "audit_table_ok t" "no_orphan_links t" "breaks (verify_audit_chain H t) = []"
    and "anchor_loop H (chained_rows_of t) 0 None l = []"
  shows "av_ok (verify_anchor_records H t' l')"
  using assms
proof (induction as arbitrary: t l)
  case Nil
  then show ?case by (simp add: verify_anchor_records_def)
next
  case (Cons x as)
  show ?case
  proof (cases x)
    case (Do_append e)
    then obtain mid where mid: "audit_insert H e t = Inr mid" "run_log H as (mid, l) = Inr (t', l')"
      using Cons.prems(1) by (auto split: sum.splits)
    obtain r where r: "chained_rows_of mid = chained_rows_of t @ [r]"
      using chained_rows_insert [OF Cons.prems(2) mid(1)] by blast
    have "breaks (verify_audit_chain H mid) = []"
      using verify_after_insert [OF Cons.prems(2,3) mid(1)] Cons.prems(4) by (simp del: verify_simps)
    moreover have "audit_table_ok mid" "no_orphan_links mid"
      using Cons.prems(2,3) mid(1) by (blast intro: audit_insert_ok append_keeps_no_orphans)+
    moreover have "anchor_loop H (chained_rows_of mid) 0 None l = []"
      using Cons.prems(5) by (simp add: r anchor_loop_append_rows)
    ultimately show ?thesis using Cons.IH [OF mid(2)] by blast
  next
    case (Do_anchor tn now)
    then show ?thesis
      using Cons.IH [of t "snd (append_anchor H tn now t l)"] Cons.prems append_anchor_keeps by simp
  qed
qed

text \<open>
  Honest operation never trips the anchors. Whatever events are appended to an empty log and
  whenever anchors are taken in between, the cross-check of the chain against the anchor log
  reports nothing.
\<close>

theorem honest_runs_stay_anchored:
  assumes "run_log H as ([], []) = Inr (t, l)"
  shows "av_ok (verify_anchor_records H t l)"
  by (rule run_log_ok [OF assms]) (simp_all add: no_orphan_links_def find_all_chronological_def chained_rows_of_def)

lemma intact_append: "intact H (xs @ ys) \<Longrightarrow> intact H xs"
  by (induction ys rule: rev_induct) (simp_all add: intact_snoc flip: append_assoc)

lemma intact_chained: "intact H rows \<Longrightarrow> filter (\<lambda>r. ar_entry_hash r \<noteq> None) rows = rows"
  by (induction rows rule: rev_induct) (auto simp: intact_snoc links_clean_def entry_matches_def)

lemma intact_anchor_nth:
  assumes "intact H rows" "0 < n" "n \<le> length rows"
  shows "anchor_of (take n rows) = ar_entry_hash (rows ! (n - 1))"
proof -
  have split: "take n rows = take (n - 1) rows @ [rows ! (n - 1)]"
    using assms(2,3) take_Suc_conv_app_nth [of "n - 1" rows] by simp
  have "intact H (take n rows)" using assms(1) intact_append [of H "take n rows" "drop n rows"] by simp
  then have "\<not> unchained (rows ! (n - 1))" unfolding split by (simp add: intact_snoc)
  then show ?thesis unfolding split by simp
qed

text \<open>
  C40. Anchored history cannot be rewritten. Let a log verify strictly clean against an anchor log,
  and let some other log do so against the same anchors. Then the two agree, row by row, on
  everything the hashes cover up to each anchored position, and neither is shorter than any
  anchored count, unless a row of one and a row of the other are hashed from different texts with
  one digest: the full re-hash of history that the chain verifier accepts is caught by the anchors.
\<close>

theorem anchored_history_is_fixed:
  assumes "strictly_clean H t" "av_breaks (verify_anchor_records H t alog) = []"
    and "strictly_clean H t'" "av_breaks (verify_anchor_records H t' alog) = []"
    and "a \<in> set alog"
  shows "(an_chained_rows a \<le> length t \<and> an_chained_rows a \<le> length t'
      \<and> map row_seal (take (an_chained_rows a) (find_all_chronological t))
        = map row_seal (take (an_chained_rows a) (find_all_chronological t')))
    \<or> collision H (row_text ` set t) (row_text ` set t')"
proof (cases "collision H (row_text ` set t) (row_text ` set t')")
  case False
  let ?n = "an_chained_rows a" and ?r = "find_all_chronological t" and ?r' = "find_all_chronological t'"
  have i: "intact H ?r" "intact H ?r'" using assms(1,3) by (simp_all add: strictly_clean_intact)
  have c: "chained_rows_of t = ?r" "chained_rows_of t' = ?r'"
    unfolding chained_rows_of_def by (rule intact_chained, rule i)+
  have ag: "anchor_agrees ?r a" "anchor_agrees ?r' a"
    using assms(2,4,5) by (auto simp: verify_anchor_records_def Let_def c intro: anchor_loop_agrees)
  have "intact H (take ?n ?r)" "intact H (take ?n ?r')"
    using i intact_append [of H "take ?n _" "drop ?n _"] by (metis append_take_drop_id)+
  moreover have "anchor_of (take ?n ?r) = anchor_of (take ?n ?r')"
    using ag i by (cases "?n = 0") (auto simp: anchor_agrees_def intact_anchor_nth)
  moreover have "\<not> collision H (row_text ` set (take ?n ?r)) (row_text ` set (take ?n ?r'))"
    using False by (rule contrapos_nn)
      (erule collision_mono; auto simp: find_all_chronological_def dest: in_set_takeD)
  ultimately have "map row_seal (take ?n ?r) = map row_seal (take ?n ?r')"
    using intact_same_tip by blast
  then show ?thesis using ag by (simp add: anchor_agrees_def find_all_chronological_def)
qed simp

theorem honest_runs_stay_anchored_witness:
  "\<exists>t l. run_log id [Do_append (sample_event ''e1'' ''t1''), Do_anchor ''acme'' ''t2'',
       Do_append (sample_event ''e2'' ''t3'')] ([], []) = Inr (t, l)
     \<and> l \<noteq> [] \<and> av_ok (verify_anchor_records id t l)"
proof -
  let ?as = "[Do_append (sample_event ''e1'' ''t1''), Do_anchor ''acme'' ''t2'',
       Do_append (sample_event ''e2'' ''t3'')]"
  have ids: "ev_id (sample_event i ts) = i" for i ts by (simp add: sample_event_def)
  obtain t l where r: "run_log id ?as ([], []) = Inr (t, l)" and l: "l \<noteq> []"
    by (simp add: audit_insert_def ids append_anchor_def Let_def)
  with honest_runs_stay_anchored [OF r] show ?thesis by blast
qed

theorem anchored_history_is_fixed_witness:
  "\<exists>t t' (l :: anchor_record list) a. t \<noteq> t' \<and> a \<in> set l \<and> an_chained_rows a = 1
     \<and> map row_seal (take 1 (find_all_chronological t)) = map row_seal (take 1 (find_all_chronological t'))"
proof -
  define t where "t = (\<lambda>ts. [audit_append_row id (sample_event ''e1'' ts) []])"
  define l where "l = snd (append_anchor id ''acme'' ''t9'' (t ''a'') [])"
  have f: "find_all_chronological (t x) = t x" "chained_rows_of (t x) = t x" for x
    by (simp_all add: t_def find_all_chronological_def chained_rows_of_def)
  have same: "map ar_entry_hash (t ''a'') = map ar_entry_hash (t ''b'')"
    by (simp add: t_def audit_append_row_def Let_def sample_event_def compute_entry_hash_def
        canonical_row_json_def v2_inj current_audit_hash_version_def)
  have c: "strictly_clean id (t x)" for x by (simp add: t_def strictly_clean_single)
  obtain a where a: "l = [a]" "an_chained_rows a = 1"
    by (simp add: l_def append_anchor_def Let_def f) (simp add: t_def)
  have la: "anchor_loop id (t ''a'') 0 None l = []"
    unfolding l_def using append_anchor_keeps [of id "t ''a''" "[]"] by (simp add: f)
  then have lb: "anchor_loop id (t ''b'') 0 None l = []"
    using same by (simp add: a anchor_reasons_empty anchor_agrees_def t_def)
  have "t ''a'' \<noteq> t ''b''"
  proof
    assume "t ''a'' = t ''b''"
    then have "ar_timestamp (hd (t ''a'')) = ar_timestamp (hd (t ''b''))" by simp
    then show False by (simp add: t_def sample_event_def)
  qed
  moreover have "map row_seal (take 1 (find_all_chronological (t ''a'')))
      = map row_seal (take 1 (find_all_chronological (t ''b'')))"
    using anchored_history_is_fixed [OF c _ c, of "''a''" l "''b''" a] la lb
    by (simp add: verify_anchor_records_def Let_def f a collision_def)
  moreover have "a \<in> set l" using a(1) by simp
  ultimately show ?thesis using a(2)
    by - (rule exI [of _ "t ''a''"], rule exI [of _ "t ''b''"], rule exI [of _ l], rule exI [of _ a],
        intro conjI)
qed

end
