(* ===== verification/Audit_Merge.thy ===== *)
theory Audit_Merge
  imports Audit_Anchor
begin

text \<open>
  The verification of a merge: \<open>packages/store/src/audit-verify-merge.ts\<close> and the signed anchors
  of \<open>signed-merge-anchor.ts\<close>. Ed25519 is a parameter: \<open>edv key bytes sig\<close> is
  \<open>edVerify\<close>, false when Node throws on a malformed key, and \<open>eds\<close> is \<open>edSign\<close>.
\<close>

section \<open>Order and walk\<close>

text \<open>The comparison of \<open>canonicalMergeOrder\<close> is the order of the ids.\<close>

definition canonical_merge_order :: "audit_row list \<Rightarrow> audit_row list" where
  "canonical_merge_order rows = sort_key ar_id rows"

text \<open>One row of \<open>walkChain\<close>.\<close>

definition walk_row :: "(string \<Rightarrow> string) \<Rightarrow> verify_state \<Rightarrow> audit_row \<Rightarrow> verify_state" where
  "walk_row H st r =
     (if unchained r
      then st\<lparr>vs_index := vs_index st + 1, vs_unverified := vs_unverified st + 1\<rparr>
      else
        let prev_ok = (ar_prev_entry_hash r = vs_expected_prev st);
            entry_ok = entry_matches H r
        in if prev_ok \<and> entry_ok
           then st\<lparr>vs_index := vs_index st + 1, vs_clean := vs_clean st + 1,
                   vs_expected_prev := ar_entry_hash r\<rparr>
           else st\<lparr>vs_index := vs_index st + 1,
                   vs_breaks := vs_breaks st @
                     [\<lparr>cb_index = vs_index st, cb_id = ar_id r, cb_action = ar_action r,
                       cb_timestamp = ar_timestamp r, cb_tenant_id = ar_tenant_id r,
                       cb_expected_entry_hash = row_hash H r,
                       cb_actual_entry_hash = ar_entry_hash r,
                       cb_expected_prev = vs_expected_prev st,
                       cb_actual_prev = ar_prev_entry_hash r,
                       cb_reason = (if \<not> prev_ok \<and> \<not> entry_ok then Prev_link_and_entry_hash_mismatch
                                    else if \<not> prev_ok then Prev_link_mismatch
                                    else Entry_hash_mismatch)\<rparr>],
                   vs_expected_prev := ar_entry_hash r\<rparr>)"

definition walk_chain :: "(string \<Rightarrow> string) \<Rightarrow> audit_row list \<Rightarrow> audit_verify_result" where
  "walk_chain H rows =
     (let st = foldl (walk_row H) verify_init rows
      in \<lparr>total_rows = length rows, unverified_rows = vs_unverified st,
          clean_rows = vs_clean st, breaks = vs_breaks st\<rparr>)"

definition same_set :: "string list \<Rightarrow> string list \<Rightarrow> bool" where
  "same_set a b = (length a = length b \<and> list_all2 (=) (sort a) (sort b))"

fun chain_head_rev :: "audit_row list \<Rightarrow> string" where
  "chain_head_rev [] = ''''"
| "chain_head_rev (r # rows) = (case ar_entry_hash r of Some h \<Rightarrow> h | None \<Rightarrow> chain_head_rev rows)"

definition chain_head_of :: "audit_row list \<Rightarrow> string" where
  "chain_head_of rows = chain_head_rev (rev rows)"

section \<open>Signed merge anchors\<close>

record signed_body =
  sb_anchored_at :: string
  sb_tenant_id :: string
  sb_chained_rows :: nat
  sb_chain_head :: string
  sb_parents :: "string list"
  sb_commit_hash :: "string option"
  sb_lamport :: nat
  sb_prev :: "string option"
  sb_signer :: string

record signed_anchor = signed_body +
  sa_signature :: string
  sa_hash :: string

definition signed_merge_anchor_body_json :: "'a signed_body_scheme \<Rightarrow> string" where
  "signed_merge_anchor_body_json b =
     json_object
       [(''schemaVersion'', decimal 2),
        (''anchoredAt'', json_quote (sb_anchored_at b)),
        (''tenantId'', json_quote (sb_tenant_id b)),
        (''chainedRows'', decimal (sb_chained_rows b)),
        (''chainHead'', json_quote (sb_chain_head b)),
        (''parents'', ''['' @ json_commas (map json_quote (sort (sb_parents b))) @ '']''),
        (''commitHash'', json_nullable (sb_commit_hash b)),
        (''lamportClock'', decimal (sb_lamport b)),
        (''prevAnchorHash'', json_nullable (sb_prev b)),
        (''signerPublicKey'', json_quote (sb_signer b))]"

definition compute_signed_merge_anchor_hash :: "(string \<Rightarrow> string) \<Rightarrow> 'a signed_body_scheme \<Rightarrow> string" where
  "compute_signed_merge_anchor_hash H b = H (signed_merge_anchor_body_json b)"

definition sign_merge_anchor ::
  "(string \<Rightarrow> string \<Rightarrow> string) \<Rightarrow> 'a signed_body_scheme \<Rightarrow> string \<Rightarrow> string" where
  "sign_merge_anchor eds b private_key = eds private_key (signed_merge_anchor_body_json b)"

definition verify_merge_anchor_signature ::
  "(string \<Rightarrow> string \<Rightarrow> string \<Rightarrow> bool) \<Rightarrow> signed_anchor \<Rightarrow> bool" where
  "verify_merge_anchor_signature edv a =
     edv (sb_signer a) (signed_merge_anchor_body_json a) (sa_signature a)"

record signing_options =
  so_tenant_id :: tenant_id
  so_parents :: "string list"
  so_lamport :: nat
  so_private :: string
  so_public :: string
  so_commit :: "string option"
  so_now :: string

definition append_signed_merge_anchor ::
  "(string \<Rightarrow> string) \<Rightarrow> (string \<Rightarrow> string \<Rightarrow> string) \<Rightarrow> signing_options \<Rightarrow> audit_table
    \<Rightarrow> signed_anchor list \<Rightarrow> signed_anchor \<times> signed_anchor list"
where
  "append_signed_merge_anchor H eds so table alog =
     (let rows = chained_rows_of table;
          body = \<lparr>sb_anchored_at = so_now so, sb_tenant_id = so_tenant_id so,
                  sb_chained_rows = length rows, sb_chain_head = head_hash rows,
                  sb_parents = so_parents so, sb_commit_hash = so_commit so,
                  sb_lamport = so_lamport so, sb_prev = map_option sa_hash (last_of alog),
                  sb_signer = so_public so\<rparr>;
          a = signed_body.extend body
                \<lparr>sa_signature = sign_merge_anchor eds body (so_private so),
                 sa_hash = compute_signed_merge_anchor_hash H body\<rparr>
      in (a, alog @ [a]))"

datatype signed_break_reason =
    S_hash_mismatch
  | S_link_mismatch "string option" "string option"
  | S_signature_invalid
  | S_truncated nat nat
  | S_rewritten nat "string option" string
  | S_parent_mismatch "string list" "string list"

record signed_break =
  sbk_index :: nat
  sbk_anchored_at :: string
  sbk_reason :: signed_break_reason

definition signed_reasons ::
  "(string \<Rightarrow> string) \<Rightarrow> (string \<Rightarrow> string \<Rightarrow> string \<Rightarrow> bool) \<Rightarrow> audit_row list \<Rightarrow> string option
    \<Rightarrow> signed_anchor \<Rightarrow> signed_break_reason list"
where
  "signed_reasons H edv rows expected_prev a =
     (if compute_signed_merge_anchor_hash H a \<noteq> sa_hash a then [S_hash_mismatch] else [])
     @ (if \<not> verify_merge_anchor_signature edv a then [S_signature_invalid] else [])
     @ (if sb_prev a \<noteq> expected_prev then [S_link_mismatch (sb_prev a) expected_prev] else [])
     @ (if length rows < sb_chained_rows a then [S_truncated (sb_chained_rows a) (length rows)]
        else if 0 < sb_chained_rows a
             \<and> ar_entry_hash (rows ! (sb_chained_rows a - 1)) \<noteq> Some (sb_chain_head a)
        then [S_rewritten (sb_chained_rows a)
                (ar_entry_hash (rows ! (sb_chained_rows a - 1))) (sb_chain_head a)]
        else [])"

fun signed_loop ::
  "(string \<Rightarrow> string) \<Rightarrow> (string \<Rightarrow> string \<Rightarrow> string \<Rightarrow> bool) \<Rightarrow> audit_row list \<Rightarrow> nat \<Rightarrow> string option
    \<Rightarrow> signed_anchor list \<Rightarrow> signed_break list"
where
  "signed_loop H edv rows i expected_prev [] = []"
| "signed_loop H edv rows i expected_prev (a # alog) =
     map (\<lambda>r. \<lparr>sbk_index = i, sbk_anchored_at = sb_anchored_at a, sbk_reason = r\<rparr>)
         (signed_reasons H edv rows expected_prev a)
     @ signed_loop H edv rows (i + 1) (Some (sa_hash a)) alog"

definition verify_signed_merge_anchors ::
  "(string \<Rightarrow> string) \<Rightarrow> (string \<Rightarrow> string \<Rightarrow> string \<Rightarrow> bool) \<Rightarrow> audit_table \<Rightarrow> signed_anchor list
    \<Rightarrow> string list option \<Rightarrow> signed_break list"
where
  "verify_signed_merge_anchors H edv table alog expected_parents =
     signed_loop H edv (chained_rows_of table) 0 None alog
     @ (case (expected_parents, last_of alog) of
          (Some ps, Some a) \<Rightarrow>
            if same_set (sb_parents a) ps then []
            else [\<lparr>sbk_index = length alog - 1, sbk_anchored_at = sb_anchored_at a,
                   sbk_reason = S_parent_mismatch (sort (sb_parents a)) (sort ps)\<rparr>]
        | _ \<Rightarrow> [])"

section \<open>The merge verifier\<close>

datatype dag_break =
    Dag_anchor_missing
  | Dag_signature_invalid
  | Dag_parent_mismatch "string list" "string list"
  | Dag_head_mismatch string string

definition verify_dag_anchor ::
  "(string \<Rightarrow> string \<Rightarrow> string \<Rightarrow> bool) \<Rightarrow> signed_anchor option \<Rightarrow> string \<Rightarrow> string \<Rightarrow> string \<Rightarrow> dag_break list"
where
  "verify_dag_anchor edv anchor head_a head_b merged_head =
     (case anchor of
        None \<Rightarrow> [Dag_anchor_missing]
      | Some a \<Rightarrow>
          (if \<not> verify_merge_anchor_signature edv a then [Dag_signature_invalid] else [])
          @ (if \<not> same_set (sb_parents a) [head_a, head_b]
             then [Dag_parent_mismatch (sort (sb_parents a)) (sort [head_a, head_b])] else [])
          @ (if sb_chain_head a \<noteq> merged_head then [Dag_head_mismatch (sb_chain_head a) merged_head]
             else []))"

record merge_verify_result =
  mv_clone_a :: audit_verify_result
  mv_clone_b :: audit_verify_result
  mv_merged :: audit_verify_result
  mv_dag_breaks :: "dag_break list"
  mv_ok :: bool

definition verify_merge_audit_chain ::
  "(string \<Rightarrow> string) \<Rightarrow> (string \<Rightarrow> string \<Rightarrow> string \<Rightarrow> bool) \<Rightarrow> audit_row list \<Rightarrow> audit_row list
    \<Rightarrow> audit_row list \<Rightarrow> signed_anchor list \<Rightarrow> merge_verify_result"
where
  "verify_merge_audit_chain H edv rows_a rows_b merged anchors =
     (let a = verify_rows H rows_a; b = verify_rows H rows_b;
          ordered = canonical_merge_order merged; m = walk_chain H ordered;
          dag = verify_dag_anchor edv (last_of anchors)
                  (chain_head_of rows_a) (chain_head_of rows_b) (chain_head_of ordered)
      in \<lparr>mv_clone_a = a, mv_clone_b = b, mv_merged = m, mv_dag_breaks = dag,
          mv_ok = (breaks a = [] \<and> breaks b = [] \<and> breaks m = [] \<and> dag = [])\<rparr>)"

section \<open>The two walks\<close>

text \<open>The reason the merge walk gives where the linear verifier says \<open>CHAIN_FORK\<close>.\<close>

definition without_fork :: "chain_break \<Rightarrow> chain_break" where
  "without_fork b = (if cb_reason b = Chain_fork then b\<lparr>cb_reason := Prev_link_mismatch\<rparr> else b)"

lemma walks_agree:
  "vs_index (foldl (walk_row H) verify_init rows) = vs_index (verify_walk H rows)
   \<and> vs_unverified (foldl (walk_row H) verify_init rows) = vs_unverified (verify_walk H rows)
   \<and> vs_clean (foldl (walk_row H) verify_init rows) = vs_clean (verify_walk H rows)
   \<and> vs_expected_prev (foldl (walk_row H) verify_init rows) = vs_expected_prev (verify_walk H rows)
   \<and> vs_breaks (foldl (walk_row H) verify_init rows) = map without_fork (vs_breaks (verify_walk H rows))"
proof (induction rows rule: rev_induct)
  case (snoc r rows)
  then show ?case
    by (cases "unchained r"; cases "entry_matches H r")
      (auto simp: walk_row_def verify_row_def Let_def without_fork_def break_reason_of_def
        split: option.splits)
qed simp

text \<open>
  The merge walk is the linear verifier but for one label. On any sequence of rows the two
  count the same rows as unverified and clean and break at the same rows with the same evidence;
  they differ only where the linear verifier says \<open>CHAIN_FORK\<close>, which the merge walk reports as
  a broken link.
\<close>

theorem merge_walk_is_linear_walk:
  "walk_chain H rows = (verify_rows H rows)\<lparr>breaks := map without_fork (breaks (verify_rows H rows))\<rparr>"
  using walks_agree [of H rows] by (simp add: walk_chain_def verify_rows_def Let_def)

lemma walk_breaks_empty: "breaks (walk_chain H rows) = [] \<longleftrightarrow> breaks (verify_rows H rows) = []"
  using walks_agree [of H rows] by (simp add: walk_chain_def verify_rows_def Let_def)

lemma same_set_mset: "same_set a b \<longleftrightarrow> mset a = mset b"
proof
  assume "same_set a b"
  then have "sort a = sort b" by (simp add: same_set_def list.rel_eq)
  then show "mset a = mset b" by (metis mset_sort)
next
  assume m: "mset a = mset b"
  then have "sort a = sort b" by (metis properties_for_sort mset_sort sorted_sort)
  with mset_eq_length [OF m] show "same_set a b" by (simp add: same_set_def list.rel_eq)
qed

text \<open>
  The verdict on a merge does not depend on which clone is called A or in which order the
  merged rows are listed. Swapping the clones and permuting the merged rows (whose ids are
  distinct) leaves the merged walk, the anchor verdict and \<open>ok\<close> as they are.
\<close>

theorem merge_verdict_is_symmetric:
  assumes "mset merged' = mset merged" "distinct (map ar_id merged)"
  shows "mv_ok (verify_merge_audit_chain H edv rows_b rows_a merged' anchors)
        = mv_ok (verify_merge_audit_chain H edv rows_a rows_b merged anchors)
    \<and> mv_merged (verify_merge_audit_chain H edv rows_b rows_a merged' anchors)
        = mv_merged (verify_merge_audit_chain H edv rows_a rows_b merged anchors)
    \<and> (mv_dag_breaks (verify_merge_audit_chain H edv rows_b rows_a merged' anchors) = []
        \<longleftrightarrow> mv_dag_breaks (verify_merge_audit_chain H edv rows_a rows_b merged anchors) = [])"
proof -
  have "canonical_merge_order merged' = canonical_merge_order merged"
    unfolding canonical_merge_order_def using assms
    by (intro sort_key_of_perm) (auto simp: distinct_map dest: mset_eq_setD)
  moreover have "same_set ps [x, y] = same_set ps [y, x]" for ps x y
    by (simp add: same_set_mset add_mset_commute)
  ultimately show ?thesis
    by (auto simp: verify_merge_audit_chain_def Let_def verify_dag_anchor_def split: option.splits)
qed

text \<open>
  A merge that verifies is anchored and clean. When \<open>ok\<close> holds, both clones verify without
  a break, the merged rows in the order of their ids verify without a break under the linear
  verifier too, and the last anchor is signed under its key, names exactly the two clone heads as
  parents and the merged head as its head.
\<close>

theorem merge_ok_means_anchored:
  assumes "mv_ok (verify_merge_audit_chain H edv rows_a rows_b merged anchors)"
  shows "breaks (verify_rows H rows_a) = [] \<and> breaks (verify_rows H rows_b) = []
    \<and> breaks (verify_rows H (canonical_merge_order merged)) = []
    \<and> sorted (map ar_id (canonical_merge_order merged))
    \<and> (\<exists>a. last_of anchors = Some a
        \<and> edv (sb_signer a) (signed_merge_anchor_body_json a) (sa_signature a)
        \<and> mset (sb_parents a) = {#chain_head_of rows_a, chain_head_of rows_b#}
        \<and> sb_chain_head a = chain_head_of (canonical_merge_order merged))"
  using assms
  by (auto simp: verify_merge_audit_chain_def Let_def verify_dag_anchor_def walk_breaks_empty
      same_set_mset verify_merge_anchor_signature_def canonical_merge_order_def
      split: option.splits if_splits)

section \<open>Concrete merges\<close>

lemma chain_head_single: "chain_head_of [r] = (case ar_entry_hash r of Some h \<Rightarrow> h | None \<Rightarrow> '''')"
  by (simp add: chain_head_of_def split: option.split)

definition sample_anchor :: "audit_row \<Rightarrow> audit_row \<Rightarrow> audit_row \<Rightarrow> signed_anchor" where
  "sample_anchor a b m = \<lparr>sb_anchored_at = ''t'', sb_tenant_id = ''acme'', sb_chained_rows = 1,
     sb_chain_head = chain_head_of [m], sb_parents = [chain_head_of [b], chain_head_of [a]],
     sb_commit_hash = None, sb_lamport = 1, sb_prev = None, sb_signer = ''pk'',
     sa_signature = ''sig'', sa_hash = ''h''\<rparr>"

lemma sealed_single_clean: "breaks (verify_rows H [sealed_row H i n None]) = []"
  by (simp add: verify_rows_def Let_def walk_breaks links_clean_def)

lemma sample_merge_ok:
  "mv_ok (verify_merge_audit_chain id (\<lambda>k m s. s = ''sig'') [sealed_row id ''a'' 1 None]
     [sealed_row id ''b'' 1 None] [sealed_row id ''m'' 1 None]
     [sample_anchor (sealed_row id ''a'' 1 None) (sealed_row id ''b'' 1 None) (sealed_row id ''m'' 1 None)])"
proof -
  have o: "canonical_merge_order [x] = [x]" for x
    by (simp add: canonical_merge_order_def)
  have l: "last_of [x] = Some x" for x :: signed_anchor by (simp add: last_of_def)
  show ?thesis
    by (simp add: verify_merge_audit_chain_def Let_def o l sealed_single_clean walk_breaks_empty
        verify_dag_anchor_def sample_anchor_def verify_merge_anchor_signature_def same_set_mset
        add_mset_commute)
qed

theorem merge_ok_means_anchored_witness:
  "\<exists>a. last_of [sample_anchor (sealed_row id ''a'' 1 None) (sealed_row id ''b'' 1 None) (sealed_row id ''m'' 1 None)]
       = Some a \<and> size (mset (sb_parents a)) = 2
     \<and> sb_chain_head a = chain_head_of (canonical_merge_order [sealed_row id ''m'' 1 None])"
  using merge_ok_means_anchored [OF sample_merge_ok] by (auto simp del: size_mset)

theorem merge_verdict_is_symmetric_witness:
  "mv_ok (verify_merge_audit_chain id (\<lambda>k m s. s = ''sig'') [sealed_row id ''b'' 1 None]
     [sealed_row id ''a'' 1 None] [sealed_row id ''m'' 1 None]
     [sample_anchor (sealed_row id ''a'' 1 None) (sealed_row id ''b'' 1 None) (sealed_row id ''m'' 1 None)])"
  using merge_verdict_is_symmetric [of "[sealed_row id ''m'' 1 None]" "[sealed_row id ''m'' 1 None]" id
      "\<lambda>k m s. s = ''sig''" "[sealed_row id ''b'' 1 None]" "[sealed_row id ''a'' 1 None]"] sample_merge_ok
  by simp

end
