(* ===== verification/Exception_Manifest.thy ===== *)
theory Exception_Manifest
  imports Audit_Verify "HOL-Library.Product_Lexorder"
begin

text \<open>
  The byte-pinned exception manifest of \<open>packages/store/src/exception-manifest.ts\<close>: its
  canonical body and hash, the gates of \<open>readManifest\<close> and the three-state classifier of
  chain breaks, with \<open>rowsByIdOf\<close> of \<open>eval-surface/src/provenance-integrity.ts\<close> for the
  map the classifier reads. A file is the text read from it, \<open>None\<close> when reading throws.
\<close>

section \<open>Manifests\<close>

datatype tamper_reason = T_entry | T_prev | T_prev_and_entry

fun tamper_name :: "tamper_reason \<Rightarrow> string" where
  "tamper_name T_entry = ''ENTRY_HASH_MISMATCH''"
| "tamper_name T_prev = ''PREV_LINK_MISMATCH''"
| "tamper_name T_prev_and_entry = ''PREV_LINK_AND_ENTRY_HASH_MISMATCH''"

fun tamper_break :: "tamper_reason \<Rightarrow> break_reason" where
  "tamper_break T_entry = Entry_hash_mismatch"
| "tamper_break T_prev = Prev_link_mismatch"
| "tamper_break T_prev_and_entry = Prev_link_and_entry_hash_mismatch"

definition tamper_options :: "tamper_reason list" where
  "tamper_options = [T_entry, T_prev, T_prev_and_entry]"

interpretation tamper_vocab: closed_vocabulary tamper_options tamper_name
  by (unfold_locales, case_tac e) (simp_all add: tamper_options_def)

record exception_entry =
  ex_id :: string
  ex_entry_hash :: "string option"
  ex_prev :: "string option"
  ex_hash_version :: rat
  ex_seq :: rat
  ex_reason :: tamper_reason

record manifest_body =
  mb_brain_id :: "string option"
  mb_generated_at :: string
  mb_entry_count :: rat
  mb_entries :: "exception_entry list"

record manifest = manifest_body +
  manifest_hash :: string

definition jnullable :: "string option \<Rightarrow> jval" where
  "jnullable s = (case s of None \<Rightarrow> JNull | Some x \<Rightarrow> JStr x)"

definition entry_jval :: "exception_entry \<Rightarrow> jval" where
  "entry_jval e =
     JObj [(''id'', JStr (ex_id e)), (''entryHash'', jnullable (ex_entry_hash e)),
           (''prevEntryHash'', jnullable (ex_prev e)), (''hashVersion'', JNum (ex_hash_version e)),
           (''seq'', JNum (ex_seq e)), (''reason'', JStr (tamper_name (ex_reason e)))]"

definition sorted_entries :: "exception_entry list \<Rightarrow> exception_entry list" where
  "sorted_entries es = sort_key (\<lambda>e. (ex_seq e, ex_id e)) es"

definition manifest_jval :: "'a manifest_body_scheme \<Rightarrow> jval" where
  "manifest_jval b =
     JObj [(''schemaVersion'', JNum 1), (''brainId'', jnullable (mb_brain_id b)),
           (''generatedAt'', JStr (mb_generated_at b)), (''entryCount'', JNum (mb_entry_count b)),
           (''entries'', JArr (map entry_jval (sorted_entries (mb_entries b))))]"

definition manifest_body_json :: "'a manifest_body_scheme \<Rightarrow> string" where
  "manifest_body_json b = json_stringify (manifest_jval b)"

definition compute_manifest_hash :: "(string \<Rightarrow> string) \<Rightarrow> 'a manifest_body_scheme \<Rightarrow> string" where
  "compute_manifest_hash H b = H (manifest_body_json b)"

section \<open>Reading a manifest\<close>

datatype manifest_error =
    Cannot_read
  | Not_json
  | Schema_invalid
  | Count_drift rat nat
  | Manifest_hash_mismatch string string

fun parse_nullable :: "jval option \<Rightarrow> string option option" where
  "parse_nullable (Some JNull) = Some None"
| "parse_nullable (Some (JStr s)) = Some (Some s)"
| "parse_nullable _ = None"

fun parse_entry :: "jval \<Rightarrow> exception_entry option" where
  "parse_entry (JObj kvs) =
     (case (jget (JObj kvs) ''id'', parse_nullable (jget (JObj kvs) ''entryHash''),
            parse_nullable (jget (JObj kvs) ''prevEntryHash''), jget (JObj kvs) ''hashVersion'',
            jget (JObj kvs) ''seq'', jget (JObj kvs) ''reason'') of
        (Some (JStr i), Some eh, Some ph, Some (JNum v), Some (JNum q), Some (JStr r)) \<Rightarrow>
          map_option (\<lambda>reason. \<lparr>ex_id = i, ex_entry_hash = eh, ex_prev = ph, ex_hash_version = v,
              ex_seq = q, ex_reason = reason\<rparr>)
            (parse_enum tamper_options tamper_name r)
      | _ \<Rightarrow> None)"
| "parse_entry _ = None"

text \<open>\<open>z.array\<close>: every member must parse.\<close>

fun parse_all :: "('a \<Rightarrow> 'b option) \<Rightarrow> 'a list \<Rightarrow> 'b list option" where
  "parse_all p [] = Some []"
| "parse_all p (x # xs) =
     (case (p x, parse_all p xs) of (Some y, Some ys) \<Rightarrow> Some (y # ys) | _ \<Rightarrow> None)"

text \<open>\<open>ExceptionManifestSchema.safeParse\<close>; an absent \<open>brainId\<close> and a null one both parse.\<close>

fun parse_manifest :: "jval \<Rightarrow> manifest option" where
  "parse_manifest (JObj kvs) =
     (case (jget (JObj kvs) ''schemaVersion'',
            (case jget (JObj kvs) ''brainId'' of None \<Rightarrow> Some None | Some v \<Rightarrow> parse_nullable (Some v)),
            jget (JObj kvs) ''generatedAt'', jget (JObj kvs) ''entryCount'',
            jget (JObj kvs) ''entries'', jget (JObj kvs) ''manifestHash'') of
        (Some (JNum sv), Some brain, Some (JStr g), Some (JNum n), Some (JArr es), Some (JStr h)) \<Rightarrow>
          if sv \<noteq> 1 then None
          else map_option (\<lambda>entries. \<lparr>mb_brain_id = brain, mb_generated_at = g, mb_entry_count = n,
                  mb_entries = entries, manifest_hash = h\<rparr>)
                (parse_all parse_entry es)
      | _ \<Rightarrow> None)"
| "parse_manifest _ = None"

definition read_manifest :: "(string \<Rightarrow> string) \<Rightarrow> string option \<Rightarrow> manifest_error + manifest" where
  "read_manifest H raw =
     (case raw of
        None \<Rightarrow> Inl Cannot_read
      | Some text \<Rightarrow>
          (case json_parse text of
             None \<Rightarrow> Inl Not_json
           | Some parsed \<Rightarrow>
               (case parse_manifest parsed of
                  None \<Rightarrow> Inl Schema_invalid
                | Some m \<Rightarrow>
                    if of_nat (length (mb_entries m)) \<noteq> mb_entry_count m
                    then Inl (Count_drift (mb_entry_count m) (length (mb_entries m)))
                    else
                      let recomputed = compute_manifest_hash H m
                      in if recomputed \<noteq> manifest_hash m
                         then Inl (Manifest_hash_mismatch recomputed (manifest_hash m))
                         else Inr m)))"

section \<open>The classifier\<close>

record stored_tuple =
  st_entry_hash :: "string option"
  st_prev :: "string option"
  st_hash_version :: rat
  st_seq :: rat

record classified_breaks =
  cl_verified :: bool
  cl_documented :: "chain_break list"
  cl_tamper :: "chain_break list"
  cl_forks :: "chain_break list"

definition row_tuple :: "audit_row \<Rightarrow> stored_tuple" where
  "row_tuple r = \<lparr>st_entry_hash = ar_entry_hash r, st_prev = ar_prev_entry_hash r,
     st_hash_version = (case ar_hash_version r of None \<Rightarrow> 1 | Some v \<Rightarrow> of_int v),
     st_seq = of_nat (ar_seq r)\<rparr>"

text \<open>\<open>new Map\<close> filled in order: the last entry for a key wins.\<close>

definition rows_by_id :: "audit_row list \<Rightarrow> string \<rightharpoonup> stored_tuple" where
  "rows_by_id rows = map_of (rev (map (\<lambda>r. (ar_id r, row_tuple r)) rows))"

definition manifest_by_id :: "manifest option \<Rightarrow> string \<rightharpoonup> exception_entry" where
  "manifest_by_id m =
     (case m of None \<Rightarrow> Map.empty | Some mf \<Rightarrow> map_of (rev (map (\<lambda>e. (ex_id e, e)) (mb_entries mf))))"

definition is_documented ::
  "(string \<rightharpoonup> exception_entry) \<Rightarrow> (string \<rightharpoonup> stored_tuple) \<Rightarrow> chain_break \<Rightarrow> bool" where
  "is_documented by_id stored brk =
     (case (by_id (cb_id brk), stored (cb_id brk)) of
        (Some e, Some st) \<Rightarrow>
          st_entry_hash st = ex_entry_hash e \<and> st_prev st = ex_prev e
          \<and> st_hash_version st = ex_hash_version e \<and> st_seq st = ex_seq e
          \<and> tamper_break (ex_reason e) = cb_reason brk
      | _ \<Rightarrow> False)"

text \<open>The loop over the breaks: the fork branch first, then the byte match.\<close>

definition classify_step ::
  "(string \<rightharpoonup> exception_entry) \<Rightarrow> (string \<rightharpoonup> stored_tuple) \<Rightarrow> classified_breaks \<Rightarrow> chain_break \<Rightarrow> classified_breaks"
where
  "classify_step by_id stored c brk =
     (if cb_reason brk = Chain_fork then c\<lparr>cl_forks := cl_forks c @ [brk]\<rparr>
      else if is_documented by_id stored brk then c\<lparr>cl_documented := cl_documented c @ [brk]\<rparr>
      else c\<lparr>cl_tamper := cl_tamper c @ [brk]\<rparr>)"

definition classify_chain_breaks ::
  "chain_break list \<Rightarrow> manifest option \<Rightarrow> (string \<rightharpoonup> stored_tuple) \<Rightarrow> classified_breaks" where
  "classify_chain_breaks brks m stored =
     (let c = foldl (classify_step (manifest_by_id m) stored)
                \<lparr>cl_verified = False, cl_documented = [], cl_tamper = [], cl_forks = []\<rparr> brks
      in c\<lparr>cl_verified := cl_tamper c = [] \<and> cl_forks c = []\<rparr>)"

text \<open>The verdict on a whole table.\<close>

definition classify_table :: "(string \<Rightarrow> string) \<Rightarrow> manifest option \<Rightarrow> audit_table \<Rightarrow> classified_breaks" where
  "classify_table H m table =
     classify_chain_breaks (breaks (verify_audit_chain H table)) m (rows_by_id (find_all_chronological table))"

lemma classify_loop:
  "cl_documented (foldl (classify_step by_id stored) c brks) = cl_documented c
       @ filter (\<lambda>b. cb_reason b \<noteq> Chain_fork \<and> is_documented by_id stored b) brks
   \<and> cl_tamper (foldl (classify_step by_id stored) c brks) = cl_tamper c
       @ filter (\<lambda>b. cb_reason b \<noteq> Chain_fork \<and> \<not> is_documented by_id stored b) brks
   \<and> cl_forks (foldl (classify_step by_id stored) c brks) = cl_forks c
       @ filter (\<lambda>b. cb_reason b = Chain_fork) brks"
  by (induction brks arbitrary: c) (auto simp: classify_step_def)

lemma classify_simps [simp]:
  "cl_documented (classify_chain_breaks brks m stored) =
     filter (\<lambda>b. cb_reason b \<noteq> Chain_fork \<and> is_documented (manifest_by_id m) stored b) brks"
  "cl_tamper (classify_chain_breaks brks m stored) =
     filter (\<lambda>b. cb_reason b \<noteq> Chain_fork \<and> \<not> is_documented (manifest_by_id m) stored b) brks"
  "cl_forks (classify_chain_breaks brks m stored) = filter (\<lambda>b. cb_reason b = Chain_fork) brks"
  "cl_verified (classify_chain_breaks brks m stored) \<longleftrightarrow>
     (\<forall>b \<in> set brks. cb_reason b \<noteq> Chain_fork \<and> is_documented (manifest_by_id m) stored b)"
  by (auto simp: classify_chain_breaks_def Let_def classify_loop filter_empty_conv)

lemma documented_not_fork: "is_documented by_id stored b \<Longrightarrow> cb_reason b \<noteq> Chain_fork"
proof -
  assume "is_documented by_id stored b"
  then have "\<exists>e :: exception_entry. tamper_break (ex_reason e) = cb_reason b"
    by (auto simp: is_documented_def split: option.split_asm)
  then show ?thesis by (metis tamper_break.elims break_reason.distinct)
qed

lemma three_way_partition:
  "mset (filter (\<lambda>b. F b \<and> P b) xs) + mset (filter (\<lambda>b. F b \<and> \<not> P b) xs) + mset (filter (\<lambda>b. \<not> F b) xs) = mset xs"
  by (induction xs) auto

lemma manifest_by_id_entry:
  "manifest_by_id (Some m) i = Some e \<Longrightarrow> e \<in> set (mb_entries m) \<and> ex_id e = i"
  by (auto simp: manifest_by_id_def dest!: map_of_SomeD)

text \<open>
  The amnesty is byte-pinned. Classification puts every reported break into exactly one of
  the three buckets and keeps them all. A break is carried as a documented exception only when
  an entry of the manifest names its row, the four hash columns the row holds now equal the
  pinned tuple and the break's reason is the pinned one; a fork is never carried; the verdict is
  "verified" exactly when every break is documented; and without a manifest it is "verified"
  exactly when there is no break at all.
\<close>

theorem amnesty_is_byte_pinned:
  "mset brks = mset (cl_documented (classify_chain_breaks brks m stored))
      + mset (cl_tamper (classify_chain_breaks brks m stored))
      + mset (cl_forks (classify_chain_breaks brks m stored))
   \<and> (b \<in> set (cl_documented (classify_chain_breaks brks m stored)) \<longrightarrow>
        (\<exists>mf e st. m = Some mf \<and> e \<in> set (mb_entries mf) \<and> ex_id e = cb_id b \<and> stored (cb_id b) = Some st
          \<and> st = \<lparr>st_entry_hash = ex_entry_hash e, st_prev = ex_prev e,
                 st_hash_version = ex_hash_version e, st_seq = ex_seq e\<rparr>
          \<and> cb_reason b = tamper_break (ex_reason e) \<and> cb_reason b \<noteq> Chain_fork))
   \<and> (cl_verified (classify_chain_breaks brks m stored)
        \<longleftrightarrow> cl_documented (classify_chain_breaks brks m stored) = brks)
   \<and> (m = None \<longrightarrow> cl_verified (classify_chain_breaks brks m stored) = (brks = []))"
proof (intro conjI impI)
  show "mset brks = mset (cl_documented (classify_chain_breaks brks m stored))
      + mset (cl_tamper (classify_chain_breaks brks m stored))
      + mset (cl_forks (classify_chain_breaks brks m stored))"
    using three_way_partition [of "\<lambda>b. cb_reason b \<noteq> Chain_fork" _ brks] by simp
  show "cl_verified (classify_chain_breaks brks m stored)
        \<longleftrightarrow> cl_documented (classify_chain_breaks brks m stored) = brks"
    by (auto simp: filter_id_conv)
  show "cl_verified (classify_chain_breaks brks m stored) = (brks = [])" if "m = None"
    using that by (cases brks) (auto simp: is_documented_def manifest_by_id_def)
  assume "b \<in> set (cl_documented (classify_chain_breaks brks m stored))"
  then have d: "is_documented (manifest_by_id m) stored b" "cb_reason b \<noteq> Chain_fork" by auto
  then obtain e st where e: "manifest_by_id m (cb_id b) = Some e" "stored (cb_id b) = Some st"
      "st_entry_hash st = ex_entry_hash e \<and> st_prev st = ex_prev e
       \<and> st_hash_version st = ex_hash_version e \<and> st_seq st = ex_seq e
       \<and> tamper_break (ex_reason e) = cb_reason b"
    by (auto simp: is_documented_def split: option.splits)
  then obtain mf where mf: "m = Some mf" by (cases m) (auto simp: manifest_by_id_def)
  have "st = \<lparr>st_entry_hash = ex_entry_hash e, st_prev = ex_prev e,
      st_hash_version = ex_hash_version e, st_seq = ex_seq e\<rparr>"
    using e(3) by (cases st) simp
  with e mf d manifest_by_id_entry show "\<exists>mf e st. m = Some mf \<and> e \<in> set (mb_entries mf)
      \<and> ex_id e = cb_id b \<and> stored (cb_id b) = Some st
      \<and> st = \<lparr>st_entry_hash = ex_entry_hash e, st_prev = ex_prev e,
             st_hash_version = ex_hash_version e, st_seq = ex_seq e\<rparr>
      \<and> cb_reason b = tamper_break (ex_reason e) \<and> cb_reason b \<noteq> Chain_fork"
    by metis
qed

section \<open>The manifest hash\<close>

lemma parse_nullable_jnullable [simp]: "parse_nullable (Some (jnullable s)) = Some s"
  by (cases s) (simp_all add: jnullable_def)

lemma parse_entry_jval [simp]: "parse_entry (entry_jval e) = Some e"
  by (simp add: entry_jval_def tamper_vocab.parse_name)

lemma entry_jval_inj [simp]: "entry_jval a = entry_jval b \<longleftrightarrow> a = b"
  using parse_entry_jval by (metis option.inject)

lemma parse_all_Some: "parse_all p xs = Some ys \<Longrightarrow> length ys = length xs"
  by (induction xs arbitrary: ys) (auto split: option.splits)

definition integral_entries :: "exception_entry list \<Rightarrow> bool" where
  "integral_entries es = (\<forall>e \<in> set es. ex_hash_version e \<in> \<int> \<and> ex_seq e \<in> \<int>)"

lemma jnullable_plain [simp]: "json_plain (jnullable s)"
  by (cases s) (simp_all add: jnullable_def)

lemma set_sorted_entries [simp]: "set (sorted_entries es) = set es"
  by (simp add: sorted_entries_def)

lemma manifest_jval_plain:
  "integral_entries (mb_entries b) \<Longrightarrow> mb_entry_count b \<in> \<int> \<Longrightarrow> json_plain (manifest_jval b)"
  by (auto simp: manifest_jval_def entry_jval_def integral_entries_def)

lemma manifest_jval_inj:
  "manifest_jval a = manifest_jval b \<longleftrightarrow>
     mb_brain_id a = mb_brain_id b \<and> mb_generated_at a = mb_generated_at b
     \<and> mb_entry_count a = mb_entry_count b \<and> sorted_entries (mb_entries a) = sorted_entries (mb_entries b)"
proof -
  have "inj entry_jval" by (rule injI) simp
  moreover have "jnullable x = jnullable y \<longleftrightarrow> x = y" for x y
    by (cases x; cases y) (auto simp: jnullable_def)
  ultimately show ?thesis by (auto simp: manifest_jval_def inj_map_eq_map)
qed

lemma read_manifest_Inr:
  "read_manifest H raw = Inr m \<Longrightarrow>
     of_nat (length (mb_entries m)) = mb_entry_count m \<and> manifest_hash m = compute_manifest_hash H m"
  by (auto simp: read_manifest_def Let_def split: option.splits if_splits)

text \<open>
  A manifest that loads is exactly the one its hash names. Any file \<open>readManifest\<close> accepts
  holds as many entries as it declares and its stored hash is the hash of its canonical body;
  and two accepted files with the same hash agree on the brain, the date and the entries as a
  multiset (the numbers being integers), so the amnesty cannot be widened behind an unchanged
  hash unless the two canonical bodies differ and have one digest.
\<close>

theorem manifest_hash_pins_entries:
  assumes "read_manifest H raw = Inr m" "read_manifest H raw' = Inr m'"
    and "integral_entries (mb_entries m)" "integral_entries (mb_entries m')"
    and "manifest_hash m = manifest_hash m'"
  shows "(mb_brain_id m = mb_brain_id m' \<and> mb_generated_at m = mb_generated_at m'
      \<and> mset (mb_entries m) = mset (mb_entries m')
      \<and> of_nat (length (mb_entries m)) = mb_entry_count m
      \<and> manifest_hash m = compute_manifest_hash H m)
    \<or> collision H {manifest_body_json m} {manifest_body_json m'}"
proof (cases "manifest_body_json m = manifest_body_json m'")
  case False
  moreover have "H (manifest_body_json m) = H (manifest_body_json m')"
    using assms read_manifest_Inr by (metis compute_manifest_hash_def)
  ultimately show ?thesis by (simp add: collision_def)
next
  case True
  have "json_plain (manifest_jval m)" "json_plain (manifest_jval m')"
    using assms read_manifest_Inr [OF assms(1)] read_manifest_Inr [OF assms(2)]
    by (auto intro!: manifest_jval_plain intro: Ints_of_nat simp flip: of_nat_eq_iff)
      (metis Ints_of_nat)+
  then have "manifest_jval m = manifest_jval m'"
    using True json_parse_stringify unfolding manifest_body_json_def by (metis option.inject)
  then have eq: "mb_brain_id m = mb_brain_id m'" "mb_generated_at m = mb_generated_at m'"
    and s: "sorted_entries (mb_entries m) = sorted_entries (mb_entries m')"
    by (simp_all add: manifest_jval_inj)
  from s have "mset (mb_entries m) = mset (mb_entries m')"
    by (metis mset_sort sorted_entries_def)
  then show ?thesis using eq read_manifest_Inr [OF assms(1)] by simp
qed

text \<open>The hash ignores the order of the entries when no two share a sequence number and id.\<close>

lemma sorted_entries_perm:
  assumes "mset es = mset es'" "inj_on (\<lambda>e. (ex_seq e, ex_id e)) (set es)"
  shows "sorted_entries es = sorted_entries es'"
  unfolding sorted_entries_def using assms by (rule sort_key_of_perm)

section \<open>What the pin does not cover\<close>

text \<open>
  Two versions of a row that agree on the columns the pin names, neither hashing to its stored
  value.
\<close>

definition same_pinned_columns :: "(string \<Rightarrow> string) \<Rightarrow> audit_row \<Rightarrow> audit_row \<Rightarrow> bool" where
  "same_pinned_columns H r r' =
     (ar_id r = ar_id r' \<and> ar_entry_hash r = ar_entry_hash r'
      \<and> ar_prev_entry_hash r = ar_prev_entry_hash r' \<and> ar_hash_version r = ar_hash_version r'
      \<and> ar_seq r = ar_seq r' \<and> \<not> entry_matches H r \<and> \<not> entry_matches H r')"

lemma same_columns_break:
  assumes "same_pinned_columns H r r'"
  shows "unchained r = unchained r'" "links_clean H before r = links_clean H before r'"
    "cb_id (break_at H before r) = cb_id (break_at H before r')"
    "cb_reason (break_at H before r) = cb_reason (break_at H before r')"
  using assms by (simp_all add: same_pinned_columns_def unchained_def links_clean_def break_at_def)

text \<open>Prefixes with the same anchor and the same intact hashes treat every later row alike.\<close>

lemma chain_breaks_cong:
  assumes "anchor_of p = anchor_of q" "intact_hashes H p = intact_hashes H q"
  shows "map (\<lambda>b. (cb_id b, cb_reason b)) (chain_breaks H p rows)
    = map (\<lambda>b. (cb_id b, cb_reason b)) (chain_breaks H q rows)"
  using assms
proof (induction rows arbitrary: p q)
  case (Cons r rows)
  have "links_clean H p r = links_clean H q r" using Cons.prems by (simp add: links_clean_def)
  moreover have "cb_id (break_at H p r) = cb_id (break_at H q r)"
    "cb_reason (break_at H p r) = cb_reason (break_at H q r)"
    using Cons.prems by (simp_all add: break_at_def)
  ultimately show ?case
    using Cons.IH [of "p @ [r]" "q @ [r]"] Cons.prems by simp
qed simp

lemma chain_breaks_append:
  "chain_breaks H p (xs @ ys) = chain_breaks H p xs @ chain_breaks H (p @ xs) ys"
  by (induction xs arbitrary: p) auto

lemma edited_row_breaks:
  assumes "same_pinned_columns H r r'"
  shows "map (\<lambda>b. (cb_id b, cb_reason b)) (chain_breaks H [] (before @ r # rest))
    = map (\<lambda>b. (cb_id b, cb_reason b)) (chain_breaks H [] (before @ r' # rest))"
proof -
  have "anchor_of (before @ [r]) = anchor_of (before @ [r'])"
    and "intact_hashes H (before @ [r]) = intact_hashes H (before @ [r'])"
    using assms same_columns_break(1) [OF assms] by (simp_all add: same_pinned_columns_def)
  from chain_breaks_cong [OF this, of rest] same_columns_break(1) [OF assms]
    same_columns_break(2-4) [OF assms, of before]
  show ?thesis by (simp add: chain_breaks_append)
qed

lemma verified_by_keys:
  assumes "map (\<lambda>b. (cb_id b, cb_reason b)) bs = map (\<lambda>b. (cb_id b, cb_reason b)) bs'"
  shows "cl_verified (classify_chain_breaks bs m stored) = cl_verified (classify_chain_breaks bs' m stored)"
proof -
  have doc: "is_documented (manifest_by_id m) stored b = is_documented (manifest_by_id m) stored b'"
    if "(cb_id b, cb_reason b) = (cb_id b', cb_reason b')" for b b' :: chain_break
    using that by (simp add: is_documented_def split: option.split)
  let ?key = "\<lambda>b :: chain_break. (cb_id b, cb_reason b)"
  have "list_all2 (=) (map ?key bs) (map ?key bs')" using assms by (simp only: list.rel_eq)
  then have keys: "list_all2 (\<lambda>b b'. ?key b = ?key b') bs bs'" by (simp only: list.rel_map)
  define P where "P b \<longleftrightarrow> cb_reason b \<noteq> Chain_fork \<and> is_documented (manifest_by_id m) stored b" for b
  have "(\<forall>b \<in> set bs. P b) = (\<forall>b \<in> set bs'. P b)"
    using keys
  proof (induction rule: list_all2_induct)
    case (Cons b bs b' bs')
    have "P b = P b'" using doc [OF Cons(1)] Cons(1) by (simp add: P_def)
    with Cons show ?case by simp
  qed simp
  then show ?thesis unfolding classify_simps P_def .
qed

text \<open>
  The pin covers the stored hash columns, not the content. Take a row whose stored hash does
  not match its content. Replacing its content (details, actor, reason, timestamp, action, tenant)
  by any other content that does not match either, with the hash columns left alone, never
  changes the verdict: a log whose documented row was edited again still classifies as verified.
\<close>

theorem content_edit_keeps_verdict:
  assumes "audit_table_ok (before @ r # rest)" "same_pinned_columns H r r'"
  shows "cl_verified (classify_table H m (before @ r' # rest)) = cl_verified (classify_table H m (before @ r # rest))"
proof -
  have ok': "audit_table_ok (before @ r' # rest)"
    using assms by (simp add: audit_table_ok_def same_pinned_columns_def)
  have "row_tuple r = row_tuple r'" "ar_id r = ar_id r'"
    using assms(2) by (simp_all add: same_pinned_columns_def row_tuple_def)
  then have "rows_by_id (before @ r' # rest) = rows_by_id (before @ r # rest)"
    by (simp add: rows_by_id_def)
  then show ?thesis
    using verified_by_keys [OF edited_row_breaks [OF assms(2)]]
    by (simp add: classify_table_def find_all_ok [OF assms(1)] find_all_ok [OF ok'] del: classify_simps)
qed

section \<open>A concrete manifest\<close>

text \<open>A row whose content was edited after it was hashed, and the entry that pins it.\<close>

definition edited_row :: "string \<Rightarrow> audit_row" where
  "edited_row details = (sealed_row id ''e1'' 1 None)\<lparr>ar_details_json := details, ar_entry_hash := Some ''deadbeef''\<rparr>"

definition pin :: exception_entry where
  "pin = \<lparr>ex_id = ''e1'', ex_entry_hash = Some ''deadbeef'', ex_prev = None, ex_hash_version = 2,
     ex_seq = 1, ex_reason = T_entry\<rparr>"

definition pin_manifest :: manifest where
  "pin_manifest = \<lparr>mb_brain_id = None, mb_generated_at = ''2026-06-01'', mb_entry_count = 1,
     mb_entries = [pin], manifest_hash = ''h''\<rparr>"

lemma edited_row_mismatch: "\<not> entry_matches id (edited_row d)"
  by (simp add: edited_row_def entry_matches_def row_hash_def compute_entry_hash_def
      canonical_row_json_def row_hash_version_def sealed_row_def Let_def canonical_row_json_v2_def
      json_object_def)

lemma edited_row_columns [simp]:
  "ar_id (edited_row d) = ''e1''" "ar_seq (edited_row d) = 1" "ar_prev_entry_hash (edited_row d) = None"
  "ar_entry_hash (edited_row d) = Some ''deadbeef''" "ar_hash_version (edited_row d) = Some 2"
  by (simp_all add: edited_row_def sealed_row_def Let_def)

lemma edited_rows_same: "same_pinned_columns id (edited_row d) (edited_row d')"
  by (simp add: same_pinned_columns_def edited_row_mismatch)

lemma edited_row_break:
  "chain_breaks id [] [edited_row d] = [break_at id [] (edited_row d)]"
  "cb_id (break_at id [] (edited_row d)) = ''e1''"
  "cb_reason (break_at id [] (edited_row d)) = Entry_hash_mismatch"
  using edited_row_mismatch [of d]
  by (simp_all add: links_clean_def break_at_def unchained_def)

lemma pin_documents:
  "is_documented (manifest_by_id (Some pin_manifest)) (rows_by_id [edited_row d]) (break_at id [] (edited_row d))"
  by (simp add: is_documented_def manifest_by_id_def pin_manifest_def rows_by_id_def edited_row_break
      row_tuple_def) (simp add: pin_def)

lemma pinned_table_verified: "cl_verified (classify_table id (Some pin_manifest) [edited_row ''{}''])"
  using pin_documents [of "''{}''"]
  by (simp add: classify_table_def find_all_chronological_def edited_row_break)

theorem content_edit_keeps_verdict_witness:
  "cl_verified (classify_table id (Some pin_manifest) [edited_row ''{\"amount\":9}''])
   \<and> edited_row ''{\"amount\":9}'' \<noteq> edited_row ''{}''"
proof
  have "audit_table_ok ([] @ edited_row ''{}'' # [])" by (simp add: audit_table_ok_def)
  from content_edit_keeps_verdict [OF this edited_rows_same, of "Some pin_manifest" "''{\"amount\":9}''"]
  show "cl_verified (classify_table id (Some pin_manifest) [edited_row ''{\"amount\":9}''])"
    using pinned_table_verified by simp
  show "edited_row ''{\"amount\":9}'' \<noteq> edited_row ''{}''"
  proof
    assume "edited_row ''{\"amount\":9}'' = edited_row ''{}''"
    then have "ar_details_json (edited_row ''{\"amount\":9}'') = ar_details_json (edited_row ''{}'')" by simp
    then show False by (simp add: edited_row_def)
  qed
qed

theorem amnesty_is_byte_pinned_witness:
  "\<exists>b. b \<in> set (cl_documented (classify_table id (Some pin_manifest) [edited_row ''{}'']))
     \<and> cb_reason b = Entry_hash_mismatch
     \<and> (\<exists>e \<in> set (mb_entries pin_manifest). ex_id e = cb_id b)"
proof -
  let ?b = "break_at id [] (edited_row ''{}'')"
  have b: "?b \<in> set (cl_documented (classify_table id (Some pin_manifest) [edited_row ''{}'']))"
    using pin_documents [of "''{}''"]
    by (simp add: classify_table_def find_all_chronological_def edited_row_break del: chain_breaks.simps)
  from amnesty_is_byte_pinned [THEN conjunct2, THEN conjunct1, THEN mp, OF b [unfolded classify_table_def]]
  obtain e where "e \<in> set (mb_entries pin_manifest)" "ex_id e = cb_id ?b" by blast
  with b edited_row_break(3) show ?thesis by blast
qed

text \<open>The file of a manifest: the body with its hash appended.\<close>

definition manifest_file :: "(string \<Rightarrow> string) \<Rightarrow> manifest_body \<Rightarrow> string" where
  "manifest_file H b =
     json_stringify (JObj [(''schemaVersion'', JNum 1), (''brainId'', jnullable (mb_brain_id b)),
           (''generatedAt'', JStr (mb_generated_at b)), (''entryCount'', JNum (mb_entry_count b)),
           (''entries'', JArr (map entry_jval (mb_entries b))),
           (''manifestHash'', JStr (compute_manifest_hash H b))])"

lemma parse_all_entries: "parse_all parse_entry (map entry_jval es) = Some es"
  by (induction es) auto

lemma read_manifest_file:
  assumes "integral_entries (mb_entries b)" "mb_entry_count b = of_nat (length (mb_entries b))"
  shows "read_manifest H (Some (manifest_file H b))
    = Inr \<lparr>mb_brain_id = mb_brain_id b, mb_generated_at = mb_generated_at b,
           mb_entry_count = mb_entry_count b, mb_entries = mb_entries b,
           manifest_hash = compute_manifest_hash H b\<rparr>"
proof -
  let ?v = "JObj [(''schemaVersion'', JNum 1), (''brainId'', jnullable (mb_brain_id b)),
           (''generatedAt'', JStr (mb_generated_at b)), (''entryCount'', JNum (mb_entry_count b)),
           (''entries'', JArr (map entry_jval (mb_entries b))),
           (''manifestHash'', JStr (compute_manifest_hash H b))]"
  have "json_plain ?v" using assms by (auto simp: entry_jval_def integral_entries_def)
  then have p: "json_parse (manifest_file H b) = Some ?v"
    unfolding manifest_file_def by (rule json_parse_stringify)
  have m: "parse_manifest ?v = Some \<lparr>mb_brain_id = mb_brain_id b, mb_generated_at = mb_generated_at b,
           mb_entry_count = mb_entry_count b, mb_entries = mb_entries b,
           manifest_hash = compute_manifest_hash H b\<rparr>"
    by (simp add: parse_all_entries)
  have h: "compute_manifest_hash H \<lparr>mb_brain_id = mb_brain_id b, mb_generated_at = mb_generated_at b,
           mb_entry_count = mb_entry_count b, mb_entries = mb_entries b,
           manifest_hash = x\<rparr> = compute_manifest_hash H b" for x
    by (simp add: compute_manifest_hash_def manifest_body_json_def manifest_jval_def)
  show ?thesis unfolding read_manifest_def option.case p m by (simp add: h Let_def flip: assms(2))
qed

theorem manifest_hash_pins_entries_witness:
  "\<exists>m m'. read_manifest id (Some (manifest_file id \<lparr>mb_brain_id = None, mb_generated_at = ''d'', mb_entry_count = 2,
         mb_entries = [pin, pin\<lparr>ex_id := ''e2''\<rparr>]\<rparr>)) = Inr m
     \<and> read_manifest id (Some (manifest_file id \<lparr>mb_brain_id = None, mb_generated_at = ''d'', mb_entry_count = 2,
         mb_entries = [pin\<lparr>ex_id := ''e2''\<rparr>, pin]\<rparr>)) = Inr m'
     \<and> m \<noteq> m' \<and> mset (mb_entries m) = mset (mb_entries m')"
proof -
  define b where "b es = \<lparr>mb_brain_id = None, mb_generated_at = ''d'', mb_entry_count = 2,
     mb_entries = es\<rparr>" for es
  let ?e2 = "pin\<lparr>ex_id := ''e2''\<rparr>"
  have i: "integral_entries [pin, ?e2]" "integral_entries [?e2, pin]"
    by (simp_all add: integral_entries_def pin_def)
  have "sorted_entries [pin, ?e2] = sorted_entries [?e2, pin]"
    by (rule sorted_entries_perm) (auto simp: pin_def inj_on_def)
  then have h: "compute_manifest_hash id (b [pin, ?e2]) = compute_manifest_hash id (b [?e2, pin])"
    by (simp add: compute_manifest_hash_def manifest_body_json_def manifest_jval_def b_def)
  obtain m m' where r: "read_manifest id (Some (manifest_file id (b [pin, ?e2]))) = Inr m"
      "read_manifest id (Some (manifest_file id (b [?e2, pin]))) = Inr m'"
    and e: "mb_entries m = [pin, ?e2]" "mb_entries m' = [?e2, pin]" "manifest_hash m = manifest_hash m'"
    using read_manifest_file [of "b [pin, ?e2]" id] read_manifest_file [of "b [?e2, pin]" id] i h
    by (simp add: b_def)
  from manifest_hash_pins_entries [OF r _ _ e(3)] e i have "mset (mb_entries m) = mset (mb_entries m')"
    by (auto simp: collision_def)
  moreover have "m \<noteq> m'" using e by (auto simp: pin_def)
  ultimately show ?thesis using r by (auto simp: b_def)
qed

end
