(* ===== verification/Regex.thy ===== *)
theory Regex
  imports Prelude
begin

text \<open>
  Regular expressions as \<open>RegExp.prototype.test\<close> uses them: whether some match exists. The
  position of a match and the greediness of a quantifier do not matter for \<open>test\<close>, so an
  expression denotes, from a start position, the list of the positions where a match may end.
  Back references and look-around do not occur in the patterns modelled here.
\<close>

datatype rx =
    RChar "char \<Rightarrow> bool"
  | RSeq rx rx
  | RAlt rx rx
  | ROpt rx
  | RPlus rx
  | RRange nat nat rx
  | RWordB

definition word_char :: "char \<Rightarrow> bool" where
  "word_char c =
     (let n = of_char c :: nat
      in (48 \<le> n \<and> n \<le> 57) \<or> (65 \<le> n \<and> n \<le> 90) \<or> n = 95 \<or> (97 \<le> n \<and> n \<le> 122))"

definition word_at :: "string \<Rightarrow> nat \<Rightarrow> bool" where
  "word_at s i = (i < length s \<and> word_char (s ! i))"

text \<open>The ends reached by one or more steps, at most \<open>fuel\<close> of them.\<close>

fun plus_ends :: "nat \<Rightarrow> (nat \<Rightarrow> nat list) \<Rightarrow> nat list \<Rightarrow> nat list" where
  "plus_ends 0 step from = []"
| "plus_ends (Suc n) step from =
     (let next = remdups (concat (map step from))
      in if next = [] then [] else remdups (next @ plus_ends n step next))"

fun range_ends :: "nat \<Rightarrow> nat \<Rightarrow> (nat \<Rightarrow> nat list) \<Rightarrow> nat list \<Rightarrow> nat list" where
  "range_ends (Suc m) n step from =
     (if n = 0 then [] else range_ends m (n - 1) step (remdups (concat (map step from))))"
| "range_ends 0 0 step from = from"
| "range_ends 0 (Suc n) step from =
     remdups (from @ range_ends 0 n step (remdups (concat (map step from))))"

text \<open>
  A repetition never needs more rounds than the text is long, as every round of a pattern that
  matters consumes a character.
\<close>

fun rx_ends :: "rx \<Rightarrow> string \<Rightarrow> nat \<Rightarrow> nat list" where
  "rx_ends (RChar p) s i = (if i < length s \<and> p (s ! i) then [i + 1] else [])"
| "rx_ends (RSeq a b) s i = remdups (concat (map (rx_ends b s) (rx_ends a s i)))"
| "rx_ends (RAlt a b) s i = remdups (rx_ends a s i @ rx_ends b s i)"
| "rx_ends (ROpt a) s i = remdups (i # rx_ends a s i)"
| "rx_ends (RPlus a) s i = plus_ends (Suc (length s)) (rx_ends a s) [i]"
| "rx_ends (RRange m n a) s i = range_ends m n (rx_ends a s) [i]"
| "rx_ends RWordB s i = (if (0 < i \<and> word_at s (i - 1)) \<noteq> word_at s i then [i] else [])"

definition rx_test :: "rx \<Rightarrow> string \<Rightarrow> bool" where
  "rx_test r s = list_ex (\<lambda>i. rx_ends r s i \<noteq> []) [0..<Suc (length s)]"

text \<open>Literals, classes and repetitions in the notation of the patterns.\<close>

definition rx_lit1 :: "char \<Rightarrow> rx" where
  "rx_lit1 c = RChar (\<lambda>d. d = c)"

fun rx_lit :: "string \<Rightarrow> rx" where
  "rx_lit [] = RRange 0 0 RWordB"
| "rx_lit [c] = rx_lit1 c"
| "rx_lit (c # d # cs) = RSeq (rx_lit1 c) (rx_lit (d # cs))"

definition rx_range :: "char \<Rightarrow> char \<Rightarrow> char \<Rightarrow> bool" where
  "rx_range a b c = ((of_char a :: nat) \<le> of_char c \<and> (of_char c :: nat) \<le> of_char b)"

definition rx_digit :: "char \<Rightarrow> bool" where
  "rx_digit = rx_range CHR ''0'' CHR ''9''"

definition rx_alnum :: "char \<Rightarrow> bool" where
  "rx_alnum c = (rx_range CHR ''a'' CHR ''z'' c \<or> rx_range CHR ''A'' CHR ''Z'' c \<or> rx_digit c)"

definition rx_alts :: "rx list \<Rightarrow> rx" where
  "rx_alts rs = foldr RAlt (butlast rs) (last rs)"

definition rx_seqs :: "rx list \<Rightarrow> rx" where
  "rx_seqs rs = foldr RSeq (butlast rs) (last rs)"

section \<open>What a match promises\<close>

lemma rx_test_iff: "rx_test r s \<longleftrightarrow> (\<exists>i \<le> length s. rx_ends r s i \<noteq> [])"
proof -
  have "set [0..<Suc (length s)] = {..length s}" by auto
  then show ?thesis unfolding rx_test_def list_ex_iff by (simp only: Bex_def atMost_iff)
qed

lemma rx_ends_lit1 [simp]: "rx_ends (rx_lit1 c) s i = (if i < length s \<and> s ! i = c then [i + 1] else [])"
  by (simp add: rx_lit1_def)

end
