(* ===== verification/Policy_Rules.thy ===== *)
theory Policy_Rules
  imports Regex Audience
begin

text \<open>
  The ten rule evaluators of \<open>packages/policy-engine/src/rules/\<close>, the content classifier of
  \<open>claude-runtime/src/secrets/content-classifier.ts\<close> and the governance secret scan. The raw
  pattern scanner \<open>scanForSecrets\<close> and SHA-256 are fields of \<open>env\<close>, so every statement
  holds for any scanner and any hash. The text of a \<open>reason\<close> is a value of \<open>rule_reason\<close>
  that carries what the text interpolates. Scores are exact rationals; the source rounds doubles
  to two decimals.
\<close>

section \<open>Scanner and environment\<close>

record secret_match =
  sm_pattern_id :: string
  sm_pattern_name :: string
  sm_line :: nat

record env =
  env_hash :: "string \<Rightarrow> string"
  env_scan_secrets :: "string \<Rightarrow> secret_match list"
  env_scan_pii :: "string \<Rightarrow> secret_match list"

record secret_finding =
  sf_pattern_id :: string
  sf_pattern_name :: string
  sf_lines :: "nat list"

definition compute_content_hash :: "env \<Rightarrow> string \<Rightarrow> string" where
  "compute_content_hash env content = env_hash env content"

text \<open>
  \<open>scanTextForSecrets\<close>: one finding per pattern, under the name it was first seen with, sorted
  by pattern id (\<open>localeCompare\<close> is the order of the code units on these lowercase ids).
\<close>

definition scan_text_for_secrets :: "env \<Rightarrow> string \<Rightarrow> secret_finding list" where
  "scan_text_for_secrets env text =
     (let ms = env_scan_secrets env text
      in map (\<lambda>i. let own = filter (\<lambda>m. sm_pattern_id m = i) ms
                  in \<lparr>sf_pattern_id = i, sf_pattern_name = sm_pattern_name (hd own),
                      sf_lines = sort (remdups (map sm_line own))\<rparr>)
             (sort (remdups (map sm_pattern_id ms))))"

section \<open>The content classifier\<close>

definition path_name_char :: "char \<Rightarrow> bool" where
  "path_name_char c = (rx_alnum c \<or> c \<in> {CHR ''_'', CHR ''.'', CHR ''-''})"

definition unix_home_rx :: rx where
  "unix_home_rx = rx_seqs [rx_lit ''/home/'', RPlus (RChar path_name_char), rx_lit ''/'']"

definition macos_user_rx :: rx where
  "macos_user_rx = rx_seqs [rx_lit ''/Users/'', RPlus (RChar path_name_char), rx_lit ''/'']"

definition windows_path_rx :: rx where
  "windows_path_rx = rx_seqs [RChar (rx_range CHR ''A'' CHR ''Z''), rx_lit1 CHR '':'', rx_lit1 CHR 0x5C]"

definition internal_path_patterns :: "rx list" where
  "internal_path_patterns = [unix_home_rx, macos_user_rx, windows_path_rx]"

record content_classification =
  cc_level :: sensitivity
  cc_matched :: "string list"
  cc_pii :: bool
  cc_credentials :: bool
  cc_paths :: bool

definition classify_content :: "env \<Rightarrow> string \<Rightarrow> content_classification" where
  "classify_content env content =
     (let creds = env_scan_secrets env content;
          pii = env_scan_pii env content;
          paths = list_ex (\<lambda>r. rx_test r content) internal_path_patterns;
          level = (if creds \<noteq> [] then Restricted else if pii \<noteq> [] then Confidential
                   else if paths then Internal else Public)
      in \<lparr>cc_level = level,
          cc_matched = js_set (map sm_pattern_id (creds @ pii)) @ (if paths then [''internal-path''] else []),
          cc_pii = pii \<noteq> [], cc_credentials = creds \<noteq> [], cc_paths = paths\<rparr>)"

section \<open>Rule results\<close>

datatype rule_reason =
    No_secrets
  | Secrets_detected "string list" "string list" "(string \<times> nat list) list"
  | Too_short nat rat
  | Too_long nat rat
  | Length_within nat rat rat
  | Trust_meets trust_level trust_level
  | Trust_below trust_level trust_level
  | Relevance_meets rat rat
  | Relevance_below_import rat rat memory_source
  | Relevance_below rat rat
  | Dedup_skipped
  | Exact_duplicate string
  | Content_unique string
  | Tenant_inactive
  | Tenant_confirmed string
  | Tenant_mismatch string string
  | Sensitivity_allowed sensitivity "(sensitivity \<times> sensitivity) option"
  | Sensitivity_blocked sensitivity "(sensitivity \<times> sensitivity) option" "string list"
  | Sanitization_clean
  | Internal_references "string list"
  | Contradiction_skipped
  | No_overlap memory_category rat
  | Potential_contradiction nat memory_category "(string \<times> rat) list"
  | Audience_unknown string
  | Audience_fits string string
  | Audience_too_wide string string "string list" string

record rule_result =
  rr_rule_id :: string
  rr_rule_type :: policy_rule_type
  rr_outcome :: rule_outcome
  rr_reason :: rule_reason
  rr_score :: "rat option"

text \<open>What a rule may read: the projection of an active memory and the evaluation context.\<close>

record active_memory =
  am_id :: string
  am_content :: string

record evaluation_context =
  ctx_minimum_sensitivity :: "sensitivity option"
  ctx_existing_hashes :: "string list option"
  ctx_tenant_id :: "tenant_id option"
  ctx_active_memories :: "(memory_category \<Rightarrow> active_memory list) option"

definition empty_context :: evaluation_context where
  "empty_context = \<lparr>ctx_minimum_sensitivity = None, ctx_existing_hashes = None, ctx_tenant_id = None,
     ctx_active_memories = None\<rparr>"

type_synonym rule_evaluator = "memory_candidate \<Rightarrow> policy_rule \<Rightarrow> evaluation_context \<Rightarrow> rule_result"

definition result_of :: "policy_rule \<Rightarrow> rule_outcome \<Rightarrow> rule_reason \<Rightarrow> rat option \<Rightarrow> rule_result" where
  "result_of r outcome reason score =
     \<lparr>rr_rule_id = rule_id r, rr_rule_type = rule_type r, rr_outcome = outcome, rr_reason = reason,
      rr_score = score\<rparr>"

definition param :: "policy_rule \<Rightarrow> string \<Rightarrow> jval option" where
  "param r k = map_of (rule_parameters r) k"

text \<open>\<open>typeof v === 'number' ? v : fallback\<close>.\<close>

definition number_param :: "policy_rule \<Rightarrow> string \<Rightarrow> rat \<Rightarrow> rat" where
  "number_param r k fallback = (case param r k of Some (JNum x) \<Rightarrow> x | _ \<Rightarrow> fallback)"

section \<open>The evaluators\<close>

definition evaluate_secret_detection :: "env \<Rightarrow> rule_evaluator" where
  "evaluate_secret_detection env c r ctx =
     (let findings = scan_text_for_secrets env (cand_content c)
      in if findings = [] then result_of r Pass No_secrets None
         else result_of r Fail
                (Secrets_detected (js_set (map sf_pattern_name findings)) (map sf_pattern_id findings)
                   (map (\<lambda>f. (sf_pattern_id f, sf_lines f)) findings)) None)"

definition evaluate_content_length :: rule_evaluator where
  "evaluate_content_length c r ctx =
     (let mn = number_param r ''min'' 10; mx = number_param r ''max'' 50000;
          len = length (cand_content c)
      in if of_nat len < mn then result_of r Fail (Too_short len mn) None
         else if of_nat len > mx then result_of r Fail (Too_long len mx) None
         else result_of r Pass (Length_within len mn mx) (Some (min (of_nat len / mx) 1)))"

definition evaluate_source_trust :: rule_evaluator where
  "evaluate_source_trust c r ctx =
     (let minimum = (case param r ''minimumTrust'' of
                       Some (JStr s) \<Rightarrow>
                         (case parse_enum trust_options trust_name s of Some t \<Rightarrow> t | None \<Rightarrow> Trust_low)
                     | _ \<Rightarrow> Trust_low);
          score = trust_order (cand_trust c)
      in if trust_order minimum \<le> score
         then result_of r Pass (Trust_meets (cand_trust c) minimum) (Some (of_nat score / 4))
         else result_of r (if rule_action r = Act_flag then Flag else Fail)
                (Trust_below (cand_trust c) minimum) None)"

text \<open>The structural relevance score, and the sources a low score may reject.\<close>

definition relevance_score :: "memory_candidate \<Rightarrow> rat" where
  "relevance_score c =
     (if js_trim (cand_title c) \<noteq> [] then 20/100 else 0)
     + (if length (cand_content c) > 200 then 20/100
        else if length (cand_content c) > 50 then 10/100 else 0)
     + 5/100
     + (if file_paths (cand_metadata c) \<noteq> [] then 10/100 else 0)
     + (if project_context (cand_metadata c) \<noteq> None \<and> project_context (cand_metadata c) \<noteq> Some []
        then 10/100 else 0)
     + (if tags (cand_metadata c) \<noteq> [] then 10/100 else 0)
     + (if cand_trust c = Trust_high then 5/100 else 0)
     + (if length (js_set (js_words (js_lower (cand_content c)))) > 15 then 10/100 else 0)
     + (if cand_source c = Manual \<or> cand_source c = Import then 10/100 else 0)"

definition reject_sources :: "policy_rule \<Rightarrow> string list" where
  "reject_sources r =
     (case param r ''rejectSources'' of
        Some (JArr vs) \<Rightarrow> filter (\<lambda>s. parse_enum source_options source_name s \<noteq> None) (jstrings vs)
      | _ \<Rightarrow> [''import'', ''bulk_import''])"

definition evaluate_relevance_score :: rule_evaluator where
  "evaluate_relevance_score c r ctx =
     (let mn = number_param r ''minimumScore'' (3/10); score = relevance_score c
      in if mn \<le> score then result_of r Pass (Relevance_meets score mn) (Some score)
         else if source_name (cand_source c) \<in> set (reject_sources r)
         then result_of r Fail (Relevance_below_import score mn (cand_source c)) (Some score)
         else result_of r Flag (Relevance_below score mn) (Some score))"

definition evaluate_dedup_check :: "env \<Rightarrow> rule_evaluator" where
  "evaluate_dedup_check env c r ctx =
     (case ctx_existing_hashes ctx of
        None \<Rightarrow> result_of r Pass Dedup_skipped None
      | Some hs \<Rightarrow>
          if hs = [] then result_of r Pass Dedup_skipped None
          else let h = compute_content_hash env (cand_content c)
               in if h \<in> set hs then result_of r Fail (Exact_duplicate h) None
                  else result_of r Pass (Content_unique h) None)"

definition evaluate_tenant_match :: rule_evaluator where
  "evaluate_tenant_match c r ctx =
     (case ctx_tenant_id ctx of
        None \<Rightarrow> result_of r Pass Tenant_inactive None
      | Some t \<Rightarrow>
          if cand_tenant c = t then result_of r Pass (Tenant_confirmed (cand_tenant c)) None
          else result_of r Fail (Tenant_mismatch (cand_tenant c) t) None)"

definition parse_blocked_levels :: "policy_rule \<Rightarrow> sensitivity list" where
  "parse_blocked_levels r =
     (case param r ''blockedLevels'' of
        Some (JArr vs) \<Rightarrow>
          (let levels = List.map_filter (parse_enum sensitivity_options sensitivity_name) (jstrings vs)
           in if levels \<noteq> [] then levels else [Restricted, Confidential])
      | _ \<Rightarrow> [Restricted, Confidential])"

definition evaluate_sensitivity_gate :: "env \<Rightarrow> rule_evaluator" where
  "evaluate_sensitivity_gate env c r ctx =
     (let cls = classify_content env (cand_content c);
          blocked = parse_blocked_levels r;
          effective = effective_sensitivity (cc_level cls) (ctx_minimum_sensitivity ctx);
          assessed = map_option (\<lambda>m. (m, effective)) (ctx_minimum_sensitivity ctx)
      in if \<not> (cc_level cls \<in> set blocked \<or> effective \<in> set blocked)
         then result_of r Pass (Sensitivity_allowed (cc_level cls) assessed) None
         else result_of r Fail (Sensitivity_blocked (cc_level cls) assessed (cc_matched cls)) None)"

definition hostname_char :: "char \<Rightarrow> bool" where
  "hostname_char c = (rx_alnum c \<or> c = CHR ''-'')"

definition rx_digits13 :: rx where
  "rx_digits13 = RRange 1 3 (RChar rx_digit)"

definition dot_octet :: rx where
  "dot_octet = RSeq (rx_lit1 CHR ''.'') rx_digits13"

definition rfc1918_rx :: rx where
  "rfc1918_rx = rx_seqs [RWordB,
     rx_alts
       [rx_seqs [rx_lit ''10'', dot_octet, dot_octet, dot_octet],
        rx_seqs [rx_lit ''172.'',
          rx_alts [RSeq (rx_lit1 CHR ''1'') (RChar (rx_range CHR ''6'' CHR ''9'')),
                   RSeq (rx_lit1 CHR ''2'') (RChar rx_digit),
                   RSeq (rx_lit1 CHR ''3'') (RChar (rx_range CHR ''0'' CHR ''1''))],
          dot_octet, dot_octet],
        rx_seqs [rx_lit ''192.168'', dot_octet, dot_octet]],
     RWordB]"

definition default_patterns :: "(string \<times> rx) list" where
  "default_patterns =
     [(''unix-home-path'', unix_home_rx),
      (''macos-user-path'', macos_user_rx),
      (''windows-path'', windows_path_rx),
      (''internal-hostname'', rx_seqs [RPlus (RChar hostname_char), rx_lit ''.internal'', RWordB]),
      (''local-hostname'', rx_seqs [RPlus (RChar hostname_char), rx_lit ''.local'', RWordB]),
      (''rfc1918-ip'', rfc1918_rx)]"

definition evaluate_content_sanitization :: rule_evaluator where
  "evaluate_content_sanitization c r ctx =
     (let patterns = (case param r ''enabledPatterns'' of
                        Some (JArr vs) \<Rightarrow> filter (\<lambda>p. fst p \<in> set (jstrings vs)) default_patterns
                      | _ \<Rightarrow> default_patterns);
          matched = map fst (filter (\<lambda>p. rx_test (snd p) (cand_content c)) patterns)
      in if matched = [] then result_of r Pass Sanitization_clean None
         else result_of r Flag (Internal_references matched) None)"

text \<open>
  \<open>TOKEN_PATTERN\<close> on Latin-1 text: the maximal runs of letters and digits (no character of the
  range belongs to the scripts that are cut one by one).
\<close>

definition latin_alnum :: "char \<Rightarrow> bool" where
  "latin_alnum c =
     (let n = of_char c :: nat
      in (48 \<le> n \<and> n \<le> 57) \<or> (65 \<le> n \<and> n \<le> 90) \<or> (97 \<le> n \<and> n \<le> 122)
         \<or> n \<in> {170, 178, 179, 181, 185, 186, 188, 189, 190}
         \<or> (192 \<le> n \<and> n \<noteq> 215 \<and> n \<noteq> 247))"

definition token_set :: "string \<Rightarrow> string list" where
  "token_set text = js_set (js_runs latin_alnum (js_lower text))"

definition parse_threshold :: "policy_rule \<Rightarrow> rat" where
  "parse_threshold r =
     (case param r ''threshold'' of Some (JNum x) \<Rightarrow> min 1 (max 0 x) | _ \<Rightarrow> 6/10)"

definition contradiction_suspects ::
  "rat \<Rightarrow> memory_candidate \<Rightarrow> active_memory list \<Rightarrow> (string \<times> rat) list" where
  "contradiction_suspects threshold c memories =
     filter (\<lambda>(i, sim). threshold \<le> sim)
       (map (\<lambda>m. (am_id m, overlap_ratio (token_set (cand_content c)) (token_set (am_content m))))
          (filter (\<lambda>m. am_content m \<noteq> cand_content c) memories))"

definition evaluate_contradiction_check :: rule_evaluator where
  "evaluate_contradiction_check c r ctx =
     (case ctx_active_memories ctx of
        None \<Rightarrow> result_of r Pass Contradiction_skipped None
      | Some lookup \<Rightarrow>
          (let suspects = contradiction_suspects (parse_threshold r) c (lookup (cand_category c))
           in if suspects = []
              then result_of r Pass (No_overlap (cand_category c) (parse_threshold r)) None
              else let ranked = sort_key (\<lambda>s. - snd s) suspects
                   in result_of r Flag
                        (Potential_contradiction (length suspects) (cand_category c) (take 5 ranked))
                        (Some (snd (hd ranked)))))"

datatype audience_basis = Basis_credentials | Basis_pii | Basis_none

record audience_recommendation =
  ar_declared :: string
  ar_recommended :: string
  ar_should_narrow :: bool
  ar_basis :: audience_basis
  ar_matched :: "string list"

definition parse_tier :: "jval option \<Rightarrow> string \<Rightarrow> string" where
  "parse_tier v fallback =
     (case v of Some (JStr s) \<Rightarrow> if audience_rank s \<noteq> None then s else fallback | _ \<Rightarrow> fallback)"

definition recommend_audience ::
  "env \<Rightarrow> string \<Rightarrow> string option \<Rightarrow> jval option \<Rightarrow> jval option \<Rightarrow> audience_recommendation" where
  "recommend_audience env content declared_audience credentials_tier pii_tier =
     (let cls = classify_content env content;
          declared = resolve_audience declared_audience;
          basis = (if cc_credentials cls then Basis_credentials else if cc_pii cls then Basis_pii
                   else Basis_none);
          recommended = (if cc_credentials cls then parse_tier credentials_tier ''owner''
                         else if cc_pii cls then parse_tier pii_tier ''admins'' else ''tenant'')
      in \<lparr>ar_declared = declared, ar_recommended = recommended,
          ar_should_narrow = (case validate_audience_narrowing (Some declared) (Some recommended) of
                                Inl _ \<Rightarrow> False | Inr _ \<Rightarrow> True),
          ar_basis = basis, ar_matched = filter (\<lambda>i. i \<noteq> ''internal-path'') (cc_matched cls)\<rparr>)"

fun basis_name :: "audience_basis \<Rightarrow> string" where
  "basis_name Basis_credentials = ''credentials''"
| "basis_name Basis_pii = ''pii''"
| "basis_name Basis_none = ''none''"

definition evaluate_audience_narrowing :: "env \<Rightarrow> rule_evaluator" where
  "evaluate_audience_narrowing env c r ctx =
     (let declared = resolve_audience (audience (cand_metadata c))
      in if audience_rank declared = None then result_of r Flag (Audience_unknown declared) None
         else let rec_aud = recommend_audience env (cand_content c) (Some declared)
                         (param r ''credentialsAudience'') (param r ''piiAudience'')
              in if \<not> ar_should_narrow rec_aud
                 then result_of r Pass (Audience_fits declared (ar_recommended rec_aud)) None
                 else result_of r Flag
                        (Audience_too_wide declared (basis_name (ar_basis rec_aud)) (ar_matched rec_aud)
                           (ar_recommended rec_aud)) None)"

text \<open>\<open>RULE_REGISTRY\<close> and \<open>createRule\<close>: total on the vocabulary.\<close>

fun create_rule :: "env \<Rightarrow> policy_rule_type \<Rightarrow> rule_evaluator" where
  "create_rule env Secret_detection = evaluate_secret_detection env"
| "create_rule env Content_length = evaluate_content_length"
| "create_rule env Source_trust = evaluate_source_trust"
| "create_rule env Relevance_score = evaluate_relevance_score"
| "create_rule env Dedup_check = evaluate_dedup_check env"
| "create_rule env Tenant_match = evaluate_tenant_match"
| "create_rule env Sensitivity_gate = evaluate_sensitivity_gate env"
| "create_rule env Content_sanitization = evaluate_content_sanitization"
| "create_rule env Contradiction_check = evaluate_contradiction_check"
| "create_rule env Audience_narrowing = evaluate_audience_narrowing env"

lemmas evaluator_defs =
  evaluate_secret_detection_def evaluate_content_length_def evaluate_source_trust_def
  evaluate_relevance_score_def evaluate_dedup_check_def evaluate_tenant_match_def
  evaluate_sensitivity_gate_def evaluate_content_sanitization_def evaluate_contradiction_check_def
  evaluate_audience_narrowing_def

lemma result_of_simps [simp]:
  "rr_rule_id (result_of r out why sc) = rule_id r"
  "rr_rule_type (result_of r out why sc) = rule_type r"
  "rr_outcome (result_of r out why sc) = out"
  "rr_reason (result_of r out why sc) = why"
  "rr_score (result_of r out why sc) = sc"
  by (simp_all add: result_of_def)

section \<open>Flag-only rules\<close>

text \<open>The contract of an evaluator that may raise a flag but never a failure.\<close>

locale flag_only =
  fixes eval :: rule_evaluator
  assumes never_fails: "rr_outcome (eval c r ctx) \<noteq> Fail"
begin

lemma pass_or_flag: "rr_outcome (eval c r ctx) = Pass \<or> rr_outcome (eval c r ctx) = Flag"
  using never_fails [of c r ctx] by (cases "rr_outcome (eval c r ctx)") auto

end

interpretation contradiction: flag_only evaluate_contradiction_check
  by unfold_locales (simp add: evaluate_contradiction_check_def Let_def split: option.split)

interpretation narrowing: flag_only "evaluate_audience_narrowing env" for env
  by unfold_locales (simp add: evaluate_audience_narrowing_def Let_def)

interpretation sanitization: flag_only evaluate_content_sanitization
  by unfold_locales (simp add: evaluate_content_sanitization_def Let_def)

section \<open>The evaluators, one by one\<close>

lemma relevance_score_bounds: "5/100 \<le> relevance_score c" "relevance_score c \<le> 1"
  by (simp_all add: relevance_score_def)

lemma reject_sources_known: "s \<in> set (reject_sources r) \<Longrightarrow> \<exists>src. s = source_name src"
proof -
  assume s: "s \<in> set (reject_sources r)"
  have "parse_enum source_options source_name s \<noteq> None"
  proof (cases "\<exists>vs. param r ''rejectSources'' = Some (JArr vs)")
    case True
    then show ?thesis using s by (auto simp: reject_sources_def)
  next
    case False
    then have "reject_sources r = [''import'', ''bulk_import'']"
      by (auto simp: reject_sources_def split: option.splits jval.splits)
    then have "s = source_name Import \<or> s = source_name Bulk_import" using s by auto
    then show ?thesis by (elim disjE) (simp_all only: source_vocab.parse_name, simp_all)
  qed
  then show ?thesis by (auto simp: source_vocab.parse_Some)
qed

text \<open>
  A low relevance score rejects only by a two-key turn. The score lies between 0.05 and 1
  whatever the candidate; the evaluator fails a candidate only when the score is below the
  rule's minimum and the candidate's own source is listed, and flags every other low score, so a
  source that is not listed is never rejectable; without parameters only the two import sources
  are.
\<close>

theorem relevance_rejects_listed_sources_only:
  "5/100 \<le> relevance_score c \<and> relevance_score c \<le> 1
   \<and> (rr_outcome (evaluate_relevance_score c r ctx) = Fail \<longleftrightarrow>
        relevance_score c < number_param r ''minimumScore'' (3/10)
        \<and> source_name (cand_source c) \<in> set (reject_sources r))
   \<and> (rr_outcome (evaluate_relevance_score c r ctx) = Pass \<longleftrightarrow>
        number_param r ''minimumScore'' (3/10) \<le> relevance_score c)
   \<and> (rule_parameters r = [] \<and> rr_outcome (evaluate_relevance_score c r ctx) = Fail \<longrightarrow>
        cand_source c = Import \<or> cand_source c = Bulk_import)"
proof -
  have "reject_sources r = [''import'', ''bulk_import'']" if "rule_parameters r = []"
    using that by (simp add: reject_sources_def param_def)
  moreover have "source_name s = ''import'' \<Longrightarrow> s = Import" "source_name s = ''bulk_import'' \<Longrightarrow> s = Bulk_import" for s
    by (cases s; simp)+
  ultimately show ?thesis using relevance_score_bounds [of c]
    by (auto simp: evaluate_relevance_score_def Let_def)
qed

text \<open>
  A reviewed sensitivity floor only tightens the gate. Whatever levels the rule blocks, a
  candidate that the sensitivity gate fails without a reviewed minimum is failed under every
  minimum, and a candidate classified public with a restricted floor is failed by the default
  levels.
\<close>

theorem sensitivity_floor_only_tightens:
  assumes "rr_outcome (evaluate_sensitivity_gate env c r (ctx\<lparr>ctx_minimum_sensitivity := None\<rparr>)) = Fail"
  shows "rr_outcome (evaluate_sensitivity_gate env c r (ctx\<lparr>ctx_minimum_sensitivity := m\<rparr>)) = Fail
    \<and> effective_sensitivity (cc_level (classify_content env (cand_content c))) m
        \<ge> cc_level (classify_content env (cand_content c))"
  using assms effective_ge(1)
  by (auto simp: evaluate_sensitivity_gate_def Let_def split: if_splits)

text \<open>
  The contradiction check flags exactly the same-topic rivals. It never fails a candidate; it
  flags one exactly when some active memory of the candidate's category has different content and
  a word-set similarity (shared words over all words, between 0 and 1, symmetric) at or above the
  threshold; the named suspects are at most five, in descending similarity, and each is such a
  memory.
\<close>

theorem contradiction_flags_overlap:
  assumes "ctx_active_memories ctx = Some lookup"
  shows "rr_outcome (evaluate_contradiction_check c r ctx) \<noteq> Fail
    \<and> (rr_outcome (evaluate_contradiction_check c r ctx) = Flag \<longleftrightarrow>
        (\<exists>m \<in> set (lookup (cand_category c)). am_content m \<noteq> cand_content c
           \<and> parse_threshold r \<le> overlap_ratio (token_set (cand_content c)) (token_set (am_content m))))
    \<and> (\<forall>n cat named. rr_reason (evaluate_contradiction_check c r ctx) = Potential_contradiction n cat named \<longrightarrow>
        length named \<le> 5 \<and> sorted (map (\<lambda>s. - snd s) named)
        \<and> (\<forall>(i, sim) \<in> set named. \<exists>m \<in> set (lookup (cand_category c)).
             i = am_id m \<and> am_content m \<noteq> cand_content c
             \<and> sim = overlap_ratio (token_set (am_content m)) (token_set (cand_content c))
             \<and> 0 \<le> sim \<and> sim \<le> 1 \<and> parse_threshold r \<le> sim))"
proof (intro conjI)
  let ?s = "contradiction_suspects (parse_threshold r) c (lookup (cand_category c))"
  have d: "distinct (token_set t)" for t by (simp add: token_set_def)
  show "rr_outcome (evaluate_contradiction_check c r ctx) \<noteq> Fail" by (rule contradiction.never_fails)
  have "?s \<noteq> [] \<longleftrightarrow> (\<exists>m \<in> set (lookup (cand_category c)). am_content m \<noteq> cand_content c
           \<and> parse_threshold r \<le> overlap_ratio (token_set (cand_content c)) (token_set (am_content m)))"
    by (auto simp: contradiction_suspects_def filter_empty_conv)
  then show "rr_outcome (evaluate_contradiction_check c r ctx) = Flag \<longleftrightarrow>
        (\<exists>m \<in> set (lookup (cand_category c)). am_content m \<noteq> cand_content c
           \<and> parse_threshold r \<le> overlap_ratio (token_set (cand_content c)) (token_set (am_content m)))"
    using assms by (auto simp: evaluate_contradiction_check_def Let_def)
  have sus: "\<exists>m \<in> set (lookup (cand_category c)). i = am_id m \<and> am_content m \<noteq> cand_content c
             \<and> sim = overlap_ratio (token_set (am_content m)) (token_set (cand_content c))
             \<and> 0 \<le> sim \<and> sim \<le> 1 \<and> parse_threshold r \<le> sim" if "(i, sim) \<in> set ?s" for i sim
    using that overlap_ratio_sym [OF d d] overlap_ratio_bounds [OF d d]
    by (auto simp: contradiction_suspects_def)
  show "\<forall>n cat named. rr_reason (evaluate_contradiction_check c r ctx) = Potential_contradiction n cat named \<longrightarrow>
        length named \<le> 5 \<and> sorted (map (\<lambda>s. - snd s) named)
        \<and> (\<forall>(i, sim) \<in> set named. \<exists>m \<in> set (lookup (cand_category c)).
             i = am_id m \<and> am_content m \<noteq> cand_content c
             \<and> sim = overlap_ratio (token_set (am_content m)) (token_set (cand_content c))
             \<and> 0 \<le> sim \<and> sim \<le> 1 \<and> parse_threshold r \<le> sim)"
  proof (intro allI impI)
    fix n cat named
    assume "rr_reason (evaluate_contradiction_check c r ctx) = Potential_contradiction n cat named"
    then have n: "named = take 5 (sort_key (\<lambda>s. - snd s) ?s)"
      using assms by (auto simp: evaluate_contradiction_check_def Let_def split: if_splits)
    have "sorted (map (\<lambda>s. - snd s) named)" by (simp add: n sorted_wrt_take flip: take_map)
    moreover have "set named \<subseteq> set ?s" using set_take_subset [of 5 "sort_key (\<lambda>s. - snd s) ?s"] by (simp add: n)
    ultimately show "length named \<le> 5 \<and> sorted (map (\<lambda>s. - snd s) named)
        \<and> (\<forall>(i, sim) \<in> set named. \<exists>m \<in> set (lookup (cand_category c)).
             i = am_id m \<and> am_content m \<noteq> cand_content c
             \<and> sim = overlap_ratio (token_set (am_content m)) (token_set (cand_content c))
             \<and> 0 \<le> sim \<and> sim \<le> 1 \<and> parse_threshold r \<le> sim)"
      using sus by (auto simp: n)
  qed
qed

lemma recommend_simps:
  "ar_declared (recommend_audience env content d ct pt) = resolve_audience d"
  "ar_should_narrow (recommend_audience env content d ct pt) \<longleftrightarrow>
     is_audience_narrowing d (ar_recommended (recommend_audience env content d ct pt))"
  by (simp_all add: recommend_audience_def Let_def is_audience_narrowing_def
      validate_audience_narrowing_def resolve_audience_def)

lemma parse_tier_known: "audience_rank fallback \<noteq> None \<Longrightarrow> audience_rank (parse_tier v fallback) \<noteq> None"
  by (auto simp: parse_tier_def split: option.splits jval.splits)

lemma recommended_known: "audience_rank (ar_recommended (recommend_audience env content d ct pt)) \<noteq> None"
  using parse_tier_known [of "''owner''" ct] parse_tier_known [of "''admins''" pt]
  by (simp add: recommend_audience_def Let_def)

section \<open>Concrete inputs\<close>

definition sample_metadata :: content_metadata where
  "sample_metadata = \<lparr>file_paths = [], language = None, project_context = None, session_id = None,
     repo_url = None, branch = None, md_confidence = None, md_sensitivity = None, tags = [],
     subjects = None, proposed_by_role = None, audience = None\<rparr>"

definition sample_candidate :: "memory_source \<Rightarrow> string \<Rightarrow> memory_candidate" where
  "sample_candidate src text = \<lparr>cand_id = ''c1'', cand_status = Inbox, cand_source = src,
     cand_content = text, cand_title = ''t'', cand_category = Decision, cand_trust = Trust_medium,
     cand_author = \<lparr>author_kind = Human, author_id = ''u1'', author_name = None\<rparr>, cand_tenant = ''acme'',
     cand_metadata = sample_metadata,
     cand_flags = \<lparr>potential_secret = False, low_confidence = False, duplicate_suspect = False\<rparr>,
     captured_at = ''2026-01-01'', cand_origin = None\<rparr>"

definition sample_rule :: "policy_rule_type \<Rightarrow> policy_rule_action \<Rightarrow> policy_rule" where
  "sample_rule ty act = \<lparr>rule_id = rule_type_name ty, rule_type = ty, rule_action = act,
     rule_enabled = True, rule_priority = 0, rule_parameters = [], rule_description = None\<rparr>"

text \<open>A scanner that knows one secret word and one e-mail marker.\<close>

definition sample_env :: env where
  "sample_env = \<lparr>env_hash = (\<lambda>s. s),
     env_scan_secrets = (\<lambda>s. if s = ''key AKIA'' then [\<lparr>sm_pattern_id = ''aws-key'', sm_pattern_name = ''AWS'', sm_line = 1\<rparr>] else []),
     env_scan_pii = (\<lambda>s. if s = ''mail a@b'' then [\<lparr>sm_pattern_id = ''email-address'', sm_pattern_name = ''Email'', sm_line = 1\<rparr>] else [])\<rparr>"

lemma sample_candidate_simps [simp]:
  "cand_content (sample_candidate src text) = text" "cand_source (sample_candidate src text) = src"
  "cand_category (sample_candidate src text) = Decision" "cand_id (sample_candidate src text) = ''c1''"
  "cand_tenant (sample_candidate src text) = ''acme''"
  "cand_metadata (sample_candidate src text) = sample_metadata"
  "cand_title (sample_candidate src text) = ''t''" "cand_trust (sample_candidate src text) = Trust_medium"
  by (simp_all add: sample_candidate_def)

lemma sample_rule_simps [simp]:
  "rule_id (sample_rule ty act) = rule_type_name ty" "rule_type (sample_rule ty act) = ty"
  "rule_action (sample_rule ty act) = act" "rule_enabled (sample_rule ty act)"
  "rule_priority (sample_rule ty act) = 0" "rule_parameters (sample_rule ty act) = []"
  by (simp_all add: sample_rule_def)

lemma sample_relevance:
  "relevance_score (sample_candidate Bulk_import ''junk'') = 25/100"
proof -
  have "js_trim ''t'' \<noteq> []" by code_simp
  moreover have "length (js_set (js_words (js_lower ''junk''))) = 1" by code_simp
  ultimately show ?thesis by (simp add: relevance_score_def sample_metadata_def)
qed

theorem relevance_rejects_listed_sources_only_witness:
  "rr_outcome (evaluate_relevance_score (sample_candidate Bulk_import ''junk'')
      (sample_rule Relevance_score Act_reject) empty_context) = Fail
   \<and> cand_source (sample_candidate Bulk_import ''junk'') = Bulk_import"
proof -
  have "rr_outcome (evaluate_relevance_score (sample_candidate Bulk_import ''junk'')
      (sample_rule Relevance_score Act_reject) empty_context) = Fail"
    by (simp add: evaluate_relevance_score_def Let_def sample_relevance number_param_def param_def
        reject_sources_def)
  with relevance_rejects_listed_sources_only [of "sample_candidate Bulk_import ''junk''"
      "sample_rule Relevance_score Act_reject" empty_context]
  show ?thesis by simp
qed

theorem sensitivity_floor_only_tightens_witness:
  "rr_outcome (evaluate_sensitivity_gate sample_env (sample_candidate Mcp ''mail a@b'')
      (sample_rule Sensitivity_gate Act_flag) (empty_context\<lparr>ctx_minimum_sensitivity := Some Public\<rparr>)) = Fail"
proof -
  have "rr_outcome (evaluate_sensitivity_gate sample_env (sample_candidate Mcp ''mail a@b'')
      (sample_rule Sensitivity_gate Act_flag) (empty_context\<lparr>ctx_minimum_sensitivity := None\<rparr>)) = Fail"
    by (simp add: evaluate_sensitivity_gate_def Let_def classify_content_def sample_env_def
        parse_blocked_levels_def param_def empty_context_def)
  from sensitivity_floor_only_tightens [OF this, of "Some Public"] show ?thesis by simp
qed

definition rival_context :: evaluation_context where
  "rival_context = empty_context\<lparr>ctx_active_memories :=
     Some (\<lambda>_. [\<lparr>am_id = ''m1'', am_content = ''never deploy on fridays''\<rparr>])\<rparr>"

lemma rival_overlap:
  "overlap_ratio (token_set ''deploy on fridays'') (token_set ''never deploy on fridays'') = 3/4"
  by code_simp

theorem contradiction_flags_overlap_witness:
  "rr_outcome (evaluate_contradiction_check (sample_candidate Mcp ''deploy on fridays'')
      (sample_rule Contradiction_check Act_reject) rival_context) = Flag"
proof -
  have h: "ctx_active_memories rival_context = Some (\<lambda>_. [\<lparr>am_id = ''m1'', am_content = ''never deploy on fridays''\<rparr>])"
    by (simp add: rival_context_def)
  from contradiction_flags_overlap [OF h, of "sample_candidate Mcp ''deploy on fridays''"
      "sample_rule Contradiction_check Act_reject"]
  show ?thesis by (simp add: rival_overlap parse_threshold_def param_def)
qed

end
