(* ===== verification/Supersession.thy ===== *)
theory Supersession
  imports Policy_Rules
begin

text \<open>
  The supersession planner of \<open>packages/policy-engine/src/supersession/supersession-detector.ts\<close>.
  The memory source is the function \<open>findByTenantAndLifecycle\<close>; ids compare by code unit, which
  is \<open>localeCompare\<close> on the lowercase ids in use.
\<close>

section \<open>Planning\<close>

datatype supersession_basis = By_subject | By_title

record supersession_match =
  sx_id :: uuid
  sx_title :: string
  sx_similarity :: rat
  sx_basis :: supersession_basis
  sx_subject :: "string option"

record supersession_block =
  bl_would_supersede :: nat
  bl_cap :: nat
  bl_subjects :: "string list"

record supersession_plan =
  sp_matches :: "supersession_match list"
  sp_blocked :: "supersession_block option"

type_synonym memory_source_fn = "tenant_id \<Rightarrow> lifecycle_state \<Rightarrow> curated_memory list"

definition authoritative_categories :: "memory_category list" where
  "authoritative_categories = [Decision, Architecture, Convention]"

definition default_supersession_threshold :: rat where
  "default_supersession_threshold = 6/10"

definition default_max_supersedes :: nat where
  "default_max_supersedes = 25"

definition title_tokens :: "string \<Rightarrow> string list" where
  "title_tokens text = js_words (js_lower text)"

definition compute_title_similarity :: "string \<Rightarrow> string \<Rightarrow> rat" where
  "compute_title_similarity a b =
     (let ta = js_set (title_tokens a); tb = js_set (title_tokens b)
      in if ta = [] \<and> tb = [] then 1
         else if ta = [] \<or> tb = [] then 0
         else overlap_ratio ta tb)"

definition subjects_of :: "content_metadata \<Rightarrow> string list" where
  "subjects_of md = (case subjects md of None \<Rightarrow> [] | Some ss \<Rightarrow> ss)"

text \<open>The smallest shared subject key, when there is one.\<close>

definition shared_subject :: "memory_candidate \<Rightarrow> curated_memory \<Rightarrow> string option" where
  "shared_subject c m =
     (case sort (filter (\<lambda>s. s \<in> set (subjects_of (cand_metadata c))) (subjects_of (mem_metadata m))) of
        [] \<Rightarrow> None
      | s # _ \<Rightarrow> Some s)"

text \<open>One round of the subject loop: the match it pushes, if it does not \<open>continue\<close>.\<close>

definition subject_match :: "memory_candidate \<Rightarrow> curated_memory \<Rightarrow> supersession_match option" where
  "subject_match c m =
     (case shared_subject c m of
        None \<Rightarrow> None
      | Some s \<Rightarrow>
          if cand_category c \<notin> set authoritative_categories \<and> mem_category m \<noteq> cand_category c then None
          else if promoted_at m > captured_at c then None
          else Some \<lparr>sx_id = mem_id m, sx_title = mem_title m, sx_similarity = 1,
                     sx_basis = By_subject, sx_subject = Some s\<rparr>)"

fun best_title_match ::
  "rat \<Rightarrow> memory_candidate \<Rightarrow> supersession_match option \<Rightarrow> curated_memory list \<Rightarrow> supersession_match option"
where
  "best_title_match threshold c best [] = best"
| "best_title_match threshold c best (m # ms) =
     (if mem_category m \<noteq> cand_category c then best_title_match threshold c best ms
      else let sim = compute_title_similarity (cand_title c) (mem_title m)
           in if threshold \<le> sim \<and> (case best of None \<Rightarrow> True | Some b \<Rightarrow> sx_similarity b < sim)
              then best_title_match threshold c
                     (Some \<lparr>sx_id = mem_id m, sx_title = mem_title m, sx_similarity = sim,
                            sx_basis = By_title, sx_subject = None\<rparr>) ms
              else best_title_match threshold c best ms)"

definition plan_supersession ::
  "memory_candidate \<Rightarrow> memory_source_fn \<Rightarrow> rat option \<Rightarrow> nat option \<Rightarrow> supersession_plan" where
  "plan_supersession c source threshold_opt cap_opt =
     (let threshold = (case threshold_opt of None \<Rightarrow> default_supersession_threshold | Some t \<Rightarrow> t);
          cap = (case cap_opt of None \<Rightarrow> default_max_supersedes | Some n \<Rightarrow> n);
          active = source (cand_tenant c) Active;
          subjects = js_set (subjects_of (cand_metadata c));
          matches = (if subjects \<noteq> [] then List.map_filter (subject_match c) active else [])
      in if length matches > cap then
           \<lparr>sp_matches = [],
            sp_blocked = Some \<lparr>bl_would_supersede = length matches, bl_cap = cap, bl_subjects = sort subjects\<rparr>\<rparr>
         else if matches \<noteq> [] then \<lparr>sp_matches = sort_key sx_id matches, sp_blocked = None\<rparr>
         else \<lparr>sp_matches = (case best_title_match threshold c None active of None \<Rightarrow> [] | Some b \<Rightarrow> [b]),
               sp_blocked = None\<rparr>)"

definition detect_supersession ::
  "memory_candidate \<Rightarrow> memory_source_fn \<Rightarrow> rat \<Rightarrow> supersession_match option" where
  "detect_supersession c source threshold =
     (case sp_matches (plan_supersession c source (Some threshold) None) of [] \<Rightarrow> None | m # _ \<Rightarrow> Some m)"

section \<open>What a plan may retire\<close>

text \<open>The guards of the subject path, declaratively.\<close>

definition subject_target :: "memory_candidate \<Rightarrow> curated_memory \<Rightarrow> bool" where
  "subject_target c m =
     ((\<exists>s. s \<in> set (subjects_of (cand_metadata c)) \<and> s \<in> set (subjects_of (mem_metadata m)))
      \<and> (cand_category c \<in> set authoritative_categories \<or> mem_category m = cand_category c)
      \<and> promoted_at m \<le> captured_at c)"

lemma shared_subject_iff:
  "shared_subject c m = None \<longleftrightarrow>
     \<not> (\<exists>s. s \<in> set (subjects_of (cand_metadata c)) \<and> s \<in> set (subjects_of (mem_metadata m)))"
  "shared_subject c m = Some s \<Longrightarrow>
     s \<in> set (subjects_of (cand_metadata c)) \<and> s \<in> set (subjects_of (mem_metadata m))"
proof -
  let ?f = "filter (\<lambda>s. s \<in> set (subjects_of (cand_metadata c))) (subjects_of (mem_metadata m))"
  have "set (sort ?f) = set ?f" by simp
  then show "shared_subject c m = None \<longleftrightarrow>
     \<not> (\<exists>s. s \<in> set (subjects_of (cand_metadata c)) \<and> s \<in> set (subjects_of (mem_metadata m)))"
    by (cases "sort ?f") (auto simp: shared_subject_def)
  show "shared_subject c m = Some s \<Longrightarrow>
     s \<in> set (subjects_of (cand_metadata c)) \<and> s \<in> set (subjects_of (mem_metadata m))"
    using \<open>set (sort ?f) = set ?f\<close> by (cases "sort ?f") (auto simp: shared_subject_def)
qed

lemma subject_match_iff: "subject_match c m \<noteq> None \<longleftrightarrow> subject_target c m"
  using shared_subject_iff(1) [of c m]
  by (auto simp: subject_match_def subject_target_def not_less split: option.splits)

lemma subject_match_Some:
  "subject_match c m = Some x \<Longrightarrow> sx_id x = mem_id m \<and> sx_basis x = By_subject \<and> subject_target c m
     \<and> (\<exists>s. sx_subject x = Some s \<and> s \<in> set (subjects_of (cand_metadata c)) \<and> s \<in> set (subjects_of (mem_metadata m)))"
  using subject_match_iff [of c m] shared_subject_iff(2) [of c m]
  by (auto simp: subject_match_def split: option.splits if_splits)

lemma no_subjects_no_target: "subjects_of (cand_metadata c) = [] \<Longrightarrow> \<not> subject_target c m"
  by (simp add: subject_target_def)

lemma map_filter_eq: "List.map_filter f xs = map (the \<circ> f) (filter (\<lambda>x. f x \<noteq> None) xs)"
  by (simp add: List.map_filter_def)

lemma title_similarity_bounds: "0 \<le> compute_title_similarity a b" "compute_title_similarity a b \<le> 1"
  by (simp_all add: compute_title_similarity_def Let_def overlap_ratio_bounds)

lemma title_similarity_sym: "compute_title_similarity a b = compute_title_similarity b a"
  by (auto simp: compute_title_similarity_def Let_def overlap_ratio_sym)

lemma title_similarity_refl: "compute_title_similarity a a = 1"
  by (auto simp: compute_title_similarity_def Let_def overlap_ratio_one)

text \<open>A title match the loop may hold.\<close>

definition title_ok :: "rat \<Rightarrow> memory_candidate \<Rightarrow> curated_memory list \<Rightarrow> supersession_match \<Rightarrow> bool" where
  "title_ok threshold c ms b =
     (sx_basis b = By_title \<and> threshold \<le> sx_similarity b
      \<and> (\<exists>m \<in> set ms. sx_id b = mem_id m \<and> mem_category m = cand_category c
           \<and> sx_similarity b = compute_title_similarity (cand_title c) (mem_title m)))"

text \<open>One round: the new best is at least as good, and at least as good as an eligible memory.\<close>

definition title_step :: "rat \<Rightarrow> memory_candidate \<Rightarrow> supersession_match option \<Rightarrow> curated_memory \<Rightarrow> supersession_match option" where
  "title_step threshold c best m =
     (let sim = compute_title_similarity (cand_title c) (mem_title m)
      in if mem_category m = cand_category c \<and> threshold \<le> sim
            \<and> (case best of None \<Rightarrow> True | Some b \<Rightarrow> sx_similarity b < sim)
         then Some \<lparr>sx_id = mem_id m, sx_title = mem_title m, sx_similarity = sim,
                    sx_basis = By_title, sx_subject = None\<rparr>
         else best)"

lemma best_title_step:
  "best_title_match threshold c best (m # ms) = best_title_match threshold c (title_step threshold c best m) ms"
  by (simp add: title_step_def Let_def)

declare best_title_match.simps(2) [simp del]
declare best_title_step [simp]

lemma title_step_ge: "best = Some b \<Longrightarrow> \<exists>r. title_step threshold c best m = Some r \<and> sx_similarity b \<le> sx_similarity r"
  by (simp add: title_step_def Let_def)

lemma title_step_eligible:
  assumes "mem_category m = cand_category c" "threshold \<le> compute_title_similarity (cand_title c) (mem_title m)"
  shows "\<exists>r. title_step threshold c best m = Some r
    \<and> compute_title_similarity (cand_title c) (mem_title m) \<le> sx_similarity r"
  using assms by (cases best) (auto simp: title_step_def Let_def not_less)

lemma best_title_ge:
  "best = Some b \<Longrightarrow> \<exists>r. best_title_match threshold c best ms = Some r \<and> sx_similarity b \<le> sx_similarity r"
proof (induction ms arbitrary: best b)
  case (Cons m ms)
  obtain r where r: "title_step threshold c best m = Some r" "sx_similarity b \<le> sx_similarity r"
    using title_step_ge [OF Cons.prems] by blast
  from Cons.IH [OF r(1)] r(2) show ?case by fastforce
qed simp

lemma best_title_max:
  assumes "m \<in> set ms" "mem_category m = cand_category c"
    and "threshold \<le> compute_title_similarity (cand_title c) (mem_title m)"
  shows "\<exists>r. best_title_match threshold c best ms = Some r
    \<and> compute_title_similarity (cand_title c) (mem_title m) \<le> sx_similarity r"
  using assms(1)
proof (induction ms arbitrary: best)
  case (Cons x ms)
  show ?case
  proof (cases "x = m")
    case True
    obtain r where r: "title_step threshold c best x = Some r"
        "compute_title_similarity (cand_title c) (mem_title m) \<le> sx_similarity r"
      using title_step_eligible [OF assms(2,3)] True by blast
    from best_title_ge [OF r(1), of threshold c ms] r(2) show ?thesis by fastforce
  next
    case False
    then show ?thesis using Cons by simp
  qed
qed simp

lemma best_title_ok:
  assumes "best_title_match threshold c best ms = Some b"
  shows "best = Some b \<or> title_ok threshold c ms b"
  using assms
proof (induction ms arbitrary: best)
  case (Cons m ms)
  have weaken: "title_ok threshold c ms b \<Longrightarrow> title_ok threshold c (m # ms) b"
    by (auto simp: title_ok_def)
  have "title_step threshold c best m = Some b \<or> title_ok threshold c ms b"
    using Cons by simp
  moreover have "title_step threshold c best m = Some b \<Longrightarrow> best = Some b \<or> title_ok threshold c (m # ms) b"
    by (auto simp: title_step_def Let_def title_ok_def split: if_splits)
  ultimately show ?case using weaken by blast
qed simp

text \<open>
  A supersession plan stays within its guards. On the subject path every target is an active
  memory of the candidate's tenant that shares a declared subject, was not promoted after the
  candidate was captured, and is of the candidate's own category unless the candidate's category
  is authoritative; and every such memory is a target, unless there are more than the cap, when
  nothing at all is retired and the plan says how many would have been. Only when there is no
  such memory is a single target taken by title: same category, similarity at or above the
  threshold, and none better.
\<close>

theorem supersession_stays_within_guards:
  fixes c source threshold cap
  shows "(sp_blocked (plan_supersession c source (Some threshold) (Some cap)) \<noteq> None \<longleftrightarrow>
            cap < length (filter (subject_target c) (source (cand_tenant c) Active)))
    \<and> (sp_blocked (plan_supersession c source (Some threshold) (Some cap)) \<noteq> None \<longrightarrow>
         sp_matches (plan_supersession c source (Some threshold) (Some cap)) = [])
    \<and> (filter (subject_target c) (source (cand_tenant c) Active) \<noteq> []
         \<and> sp_blocked (plan_supersession c source (Some threshold) (Some cap)) = None \<longrightarrow>
         mset (map sx_id (sp_matches (plan_supersession c source (Some threshold) (Some cap))))
           = mset (map mem_id (filter (subject_target c) (source (cand_tenant c) Active)))
         \<and> length (sp_matches (plan_supersession c source (Some threshold) (Some cap))) \<le> cap)
    \<and> (filter (subject_target c) (source (cand_tenant c) Active) = [] \<longrightarrow>
         length (sp_matches (plan_supersession c source (Some threshold) (Some cap))) \<le> 1
         \<and> (\<forall>x \<in> set (sp_matches (plan_supersession c source (Some threshold) (Some cap))).
              title_ok threshold c (source (cand_tenant c) Active) x
              \<and> (\<forall>m \<in> set (source (cand_tenant c) Active). mem_category m = cand_category c \<longrightarrow>
                   compute_title_similarity (cand_title c) (mem_title m) \<le> sx_similarity x)))"
proof -
  let ?act = "source (cand_tenant c) Active"
  let ?plan = "plan_supersession c source (Some threshold) (Some cap)"
  let ?targets = "filter (subject_target c) ?act"
  define ms where "ms = (if js_set (subjects_of (cand_metadata c)) \<noteq> [] then List.map_filter (subject_match c) ?act else [])"
  have filt: "filter (\<lambda>m. subject_match c m \<noteq> None) ?act = ?targets"
    by (rule filter_cong [OF refl]) (rule subject_match_iff)
  have ids: "map sx_id ms = map mem_id ?targets"
  proof (cases "subjects_of (cand_metadata c) = []")
    case True
    then have "?targets = []" using no_subjects_no_target by (simp add: filter_empty_conv)
    with True show ?thesis by (simp add: ms_def)
  next
    case False
    have "map (sx_id \<circ> (the \<circ> subject_match c)) ?targets = map mem_id ?targets"
      using subject_match_iff subject_match_Some by (intro map_cong refl) fastforce
    with False show ?thesis unfolding ms_def map_filter_eq filt by simp
  qed
  then have len: "length ms = length ?targets" by (metis length_map)
  have plan: "?plan = (if length ms > cap then
           \<lparr>sp_matches = [], sp_blocked = Some \<lparr>bl_would_supersede = length ms, bl_cap = cap,
              bl_subjects = sort (js_set (subjects_of (cand_metadata c)))\<rparr>\<rparr>
         else if ms \<noteq> [] then \<lparr>sp_matches = sort_key sx_id ms, sp_blocked = None\<rparr>
         else \<lparr>sp_matches = (case best_title_match threshold c None ?act of None \<Rightarrow> [] | Some b \<Rightarrow> [b]),
               sp_blocked = None\<rparr>)"
    unfolding plan_supersession_def Let_def ms_def by simp
  have perm: "mset (map sx_id (sort_key sx_id ms)) = mset (map sx_id ms)" by simp
  have title: "length (sp_matches ?plan) \<le> 1 \<and> (\<forall>x \<in> set (sp_matches ?plan). title_ok threshold c ?act x
              \<and> (\<forall>m \<in> set ?act. mem_category m = cand_category c \<longrightarrow>
                   compute_title_similarity (cand_title c) (mem_title m) \<le> sx_similarity x))"
    if "?targets = []"
  proof (cases "best_title_match threshold c None ?act")
    case None
    with that len show ?thesis by (simp add: plan)
  next
    case (Some b)
    have "title_ok threshold c ?act b" using best_title_ok [OF Some] by simp
    moreover have "compute_title_similarity (cand_title c) (mem_title m) \<le> sx_similarity b"
      if "m \<in> set ?act" "mem_category m = cand_category c" for m
      using best_title_max [OF that, of threshold None] Some \<open>title_ok threshold c ?act b\<close>
      by (cases "threshold \<le> compute_title_similarity (cand_title c) (mem_title m)") (auto simp: title_ok_def)
    ultimately show ?thesis using Some that len by (simp add: plan)
  qed
  show ?thesis
    using len ids perm title by (auto simp: plan simp del: mset_map)
qed

section \<open>What the title path does not check\<close>

text \<open>
  The title path ignores the age of its target. Whatever the candidate's capture time and the
  memory's promotion time, a sole active memory of the candidate's tenant and category with the
  candidate's title is retired by the title path as soon as the subject path takes no target, even
  when the subject path refused that very memory because it is newer than the candidate.
\<close>

theorem title_path_retires_newer:
  assumes "source (cand_tenant c) Active = [m]" "mem_category m = cand_category c"
    and "mem_title m = cand_title c" "\<not> subject_target c m" "threshold \<le> 1"
  shows "sp_matches (plan_supersession c source (Some threshold) cap) =
    [\<lparr>sx_id = mem_id m, sx_title = mem_title m, sx_similarity = 1, sx_basis = By_title, sx_subject = None\<rparr>]"
proof -
  have "subject_match c m = None" using assms(4) subject_match_iff [of c m] by (cases "subject_match c m") auto
  then show ?thesis using assms
    by (simp add: plan_supersession_def Let_def title_step_def title_similarity_refl List.map_filter_def)
qed

section \<open>Concrete plans\<close>

definition sample_memory :: "uuid \<Rightarrow> string \<Rightarrow> string list \<Rightarrow> iso_datetime \<Rightarrow> curated_memory" where
  "sample_memory i title subj promoted = \<lparr>mem_id = i, mem_candidate_id = ''c0'', mem_source = Manual,
     mem_content = ''text'', mem_title = title, mem_category = Decision, mem_trust = Trust_high,
     mem_sensitivity = Internal, mem_author = \<lparr>author_kind = Human, author_id = ''u1'', author_name = None\<rparr>,
     mem_tenant = ''acme'', mem_metadata = sample_metadata\<lparr>subjects := Some subj\<rparr>, mem_lifecycle = Active,
     mem_content_hash = ''h'', mem_evaluations = [], mem_supersession = None, promoted_at = promoted,
     promoted_by = \<lparr>author_kind = Human, author_id = ''u1'', author_name = None\<rparr>, updated_at = promoted,
     mem_version = 1\<rparr>"

definition keyed_candidate :: "string \<Rightarrow> memory_candidate" where
  "keyed_candidate title = (sample_candidate Mcp ''body'')\<lparr>cand_title := title,
     cand_metadata := sample_metadata\<lparr>subjects := Some [''hosting'']\<rparr>\<rparr>"

lemma keyed_simps [simp]:
  "cand_title (keyed_candidate t) = t" "cand_category (keyed_candidate t) = Decision"
  "cand_tenant (keyed_candidate t) = ''acme''" "captured_at (keyed_candidate t) = ''2026-01-01''"
  "subjects_of (cand_metadata (keyed_candidate t)) = [''hosting'']"
  by (simp_all add: keyed_candidate_def subjects_of_def) (simp add: sample_candidate_def)

lemma sample_memory_simps [simp]:
  "mem_id (sample_memory i t ss p) = i" "mem_title (sample_memory i t ss p) = t"
  "mem_category (sample_memory i t ss p) = Decision" "promoted_at (sample_memory i t ss p) = p"
  "subjects_of (mem_metadata (sample_memory i t ss p)) = ss"
  by (simp_all add: sample_memory_def subjects_of_def)

text \<open>The memory shares the subject but was promoted a day after the candidate was captured.\<close>

theorem title_path_retires_newer_witness:
  "shared_subject (keyed_candidate ''hosting'') (sample_memory ''m1'' ''hosting'' [''hosting''] ''2026-01-02'') = Some ''hosting''
   \<and> promoted_at (sample_memory ''m1'' ''hosting'' [''hosting''] ''2026-01-02'') > captured_at (keyed_candidate ''hosting'')
   \<and> map sx_id (sp_matches (plan_supersession (keyed_candidate ''hosting'')
        (\<lambda>_ _. [sample_memory ''m1'' ''hosting'' [''hosting''] ''2026-01-02'']) (Some (6/10)) None)) = [''m1'']"
proof (intro conjI)
  let ?c = "keyed_candidate ''hosting''" and ?m = "sample_memory ''m1'' ''hosting'' [''hosting''] ''2026-01-02''"
  show "shared_subject ?c ?m = Some ''hosting''" by (simp add: shared_subject_def)
  have newer: "(''2026-01-02'' :: string) > ''2026-01-01''" by code_simp
  then show "promoted_at ?m > captured_at ?c" by simp
  have "\<not> subject_target ?c ?m" using newer by (simp add: subject_target_def not_le)
  from title_path_retires_newer [of "\<lambda>_ _. [?m]", OF _ _ _ this, of "6/10" None]
  show "map sx_id (sp_matches (plan_supersession ?c (\<lambda>_ _. [?m]) (Some (6/10)) None)) = [''m1'']"
    by simp
qed

theorem supersession_stays_within_guards_witness:
  "mset (map sx_id (sp_matches (plan_supersession (keyed_candidate ''x'')
      (\<lambda>_ _. [sample_memory ''m1'' ''a'' [''hosting''] ''2025'', sample_memory ''m2'' ''b'' [''other''] ''2025''])
      (Some (6/10)) (Some 1)))) = {#''m1''#}"
proof -
  let ?src = "\<lambda>_ _. [sample_memory ''m1'' ''a'' [''hosting''] ''2025'', sample_memory ''m2'' ''b'' [''other''] ''2025'']"
  let ?c = "keyed_candidate ''x''"
  have older: "(''2025'' :: string) \<le> ''2026-01-01''" by code_simp
  have t: "filter (subject_target ?c) (?src (cand_tenant ?c) Active) = [sample_memory ''m1'' ''a'' [''hosting''] ''2025'']"
    using older by (simp add: subject_target_def authoritative_categories_def)
  from supersession_stays_within_guards [of ?c ?src "6/10" 1] t show ?thesis by simp
qed

end
