(* ===== verification/Pipeline.thy ===== *)
theory Pipeline
  imports Policy_Rules
begin

text \<open>
  The two-phase policy pipeline of \<open>packages/policy-engine/src/pipeline.ts\<close> and the recommended
  policy with its completeness gate (\<open>recommended-policy.ts\<close>). The loops are written over
  \<open>run\<close>, what one rule returns for the candidate at hand; \<open>rule_runner\<close> states what the
  loops rely on and is interpreted on the registry.
\<close>

section \<open>Evaluation\<close>

datatype pipeline_outcome = Approved | Rejected_outcome | Flagged_outcome

record pipeline_result =
  pr_candidate_id :: uuid
  pr_outcome :: pipeline_outcome
  pr_evaluations :: "rule_result list"
  pr_rejected_by :: "string option"
  pr_flagged_by :: "string list option"

text \<open>\<open>.filter(enabled)\<close>, the split by type and the stable sort by priority.\<close>

definition contradiction_rules :: "governance_policy \<Rightarrow> policy_rule list" where
  "contradiction_rules p =
     sort_key rule_priority (filter (\<lambda>r. rule_type r = Contradiction_check) (filter rule_enabled (policy_rules p)))"

definition standard_rules :: "governance_policy \<Rightarrow> policy_rule list" where
  "standard_rules p =
     sort_key rule_priority (filter (\<lambda>r. rule_type r \<noteq> Contradiction_check) (filter rule_enabled (policy_rules p)))"

text \<open>Phase 1: every rule runs, anything but a pass is a flag. The lists grow at the end.\<close>

fun run_phase1 ::
  "(policy_rule \<Rightarrow> rule_result) \<Rightarrow> policy_rule list \<Rightarrow> rule_result list \<times> string list
    \<Rightarrow> rule_result list \<times> string list"
where
  "run_phase1 run [] acc = acc"
| "run_phase1 run (r # rs) (evals, flags) =
     (let res = run r
      in run_phase1 run rs
           (evals @ [res], if rr_outcome res \<noteq> Pass then flags @ [rule_id r] else flags))"

text \<open>Phase 2: the first failing rule whose action is \<open>reject\<close> ends it, with that rule's id.\<close>

fun run_phase2 ::
  "(policy_rule \<Rightarrow> rule_result) \<Rightarrow> policy_rule list \<Rightarrow> rule_result list \<times> string list
    \<Rightarrow> (rule_result list \<times> string list) \<times> string option"
where
  "run_phase2 run [] acc = (acc, None)"
| "run_phase2 run (r # rs) (evals, flags) =
     (let res = run r
      in if rr_outcome res = Fail then
           (if rule_action r = Act_reject then ((evals @ [res], flags), Some (rule_id r))
            else run_phase2 run rs (evals @ [res], flags @ [rule_id r]))
         else if rr_outcome res = Flag then run_phase2 run rs (evals @ [res], flags @ [rule_id r])
         else run_phase2 run rs (evals @ [res], flags))"

definition evaluate_rules ::
  "(policy_rule \<Rightarrow> rule_result) \<Rightarrow> uuid \<Rightarrow> governance_policy \<Rightarrow> pipeline_result" where
  "evaluate_rules run cid p =
     (case run_phase2 run (standard_rules p) (run_phase1 run (contradiction_rules p) ([], [])) of
        ((evals, flags), Some rid) \<Rightarrow>
          \<lparr>pr_candidate_id = cid, pr_outcome = Rejected_outcome, pr_evaluations = evals,
           pr_rejected_by = Some rid, pr_flagged_by = (if flags \<noteq> [] then Some flags else None)\<rparr>
      | ((evals, flags), None) \<Rightarrow>
          if flags \<noteq> [] then
            \<lparr>pr_candidate_id = cid, pr_outcome = Flagged_outcome, pr_evaluations = evals,
             pr_rejected_by = None, pr_flagged_by = Some flags\<rparr>
          else
            \<lparr>pr_candidate_id = cid, pr_outcome = Approved, pr_evaluations = evals,
             pr_rejected_by = None, pr_flagged_by = None\<rparr>)"

text \<open>\<open>PolicyPipeline.evaluate\<close>.\<close>

definition evaluate ::
  "env \<Rightarrow> governance_policy \<Rightarrow> memory_candidate \<Rightarrow> evaluation_context \<Rightarrow> pipeline_result" where
  "evaluate env p c ctx =
     evaluate_rules (\<lambda>r. create_rule env (rule_type r) c r ctx) (cand_id c) p"

section \<open>What the loops compute\<close>

text \<open>A reject rule that fails.\<close>

definition rejecting :: "(policy_rule \<Rightarrow> rule_result) \<Rightarrow> policy_rule \<Rightarrow> bool" where
  "rejecting run r = (rr_outcome (run r) = Fail \<and> rule_action r = Act_reject)"

abbreviation not_passed :: "(policy_rule \<Rightarrow> rule_result) \<Rightarrow> policy_rule list \<Rightarrow> string list" where
  "not_passed run rs \<equiv> map rule_id (filter (\<lambda>r. rr_outcome (run r) \<noteq> Pass) rs)"

lemma run_phase1_eq: "run_phase1 run rs (e, f) = (e @ map run rs, f @ not_passed run rs)"
  by (induction rs arbitrary: e f) (auto simp: Let_def)

lemma run_phase2_eq:
  "run_phase2 run rs (e, f) =
     (let before = takeWhile (\<lambda>r. \<not> rejecting run r) rs
      in case find (rejecting run) rs of
           None \<Rightarrow> ((e @ map run rs, f @ not_passed run rs), None)
         | Some r \<Rightarrow> ((e @ map run before @ [run r], f @ not_passed run before), Some (rule_id r)))"
proof (induction rs arbitrary: e f)
  case (Cons r rs)
  show ?case
    by (cases "rr_outcome (run r)"; cases "rule_action r = Act_reject")
      (simp_all add: Cons.IH rejecting_def Let_def split: option.split)
qed simp

lemma takeWhile_not_find: "find P xs = None \<Longrightarrow> takeWhile (\<lambda>x. \<not> P x) xs = xs"
  by (simp add: find_None_all)

lemma evaluate_rules_eq:
  "evaluate_rules run cid p =
     (let first = contradiction_rules p; std = standard_rules p;
          before = takeWhile (\<lambda>r. \<not> rejecting run r) std;
          flags = not_passed run (first @ before)
      in case find (rejecting run) std of
           Some r \<Rightarrow>
             \<lparr>pr_candidate_id = cid, pr_outcome = Rejected_outcome,
              pr_evaluations = map run (first @ before @ [r]), pr_rejected_by = Some (rule_id r),
              pr_flagged_by = (if flags \<noteq> [] then Some flags else None)\<rparr>
         | None \<Rightarrow>
             if flags \<noteq> [] then
               \<lparr>pr_candidate_id = cid, pr_outcome = Flagged_outcome, pr_evaluations = map run (first @ std),
                pr_rejected_by = None, pr_flagged_by = Some flags\<rparr>
             else
               \<lparr>pr_candidate_id = cid, pr_outcome = Approved, pr_evaluations = map run (first @ std),
                pr_rejected_by = None, pr_flagged_by = None\<rparr>)"
proof (cases "find (rejecting run) (standard_rules p)")
  case None
  show ?thesis
    by (simp add: evaluate_rules_def run_phase1_eq run_phase2_eq Let_def None takeWhile_not_find [OF None])
next
  case (Some r)
  then show ?thesis by (simp add: evaluate_rules_def run_phase1_eq run_phase2_eq Let_def)
qed

definition flags_of :: "pipeline_result \<Rightarrow> string list" where
  "flags_of res = (case pr_flagged_by res of None \<Rightarrow> [] | Some fs \<Rightarrow> fs)"

lemma flags_of_evaluate:
  "flags_of (evaluate_rules run cid p) =
     not_passed run (contradiction_rules p @ takeWhile (\<lambda>r. \<not> rejecting run r) (standard_rules p))"
  by (auto simp: evaluate_rules_eq Let_def flags_of_def split: option.split)

lemma outcome_cases:
  "pr_outcome (evaluate_rules run cid p) = Rejected_outcome \<longleftrightarrow> (\<exists>r \<in> set (standard_rules p). rejecting run r)"
  "pr_rejected_by (evaluate_rules run cid p) = map_option rule_id (find (rejecting run) (standard_rules p))"
  "pr_outcome (evaluate_rules run cid p) = Approved \<longleftrightarrow>
     (\<forall>r \<in> set (contradiction_rules p @ standard_rules p). rr_outcome (run r) = Pass)"
proof -
  show "pr_rejected_by (evaluate_rules run cid p) = map_option rule_id (find (rejecting run) (standard_rules p))"
    by (simp add: evaluate_rules_eq Let_def split: option.split)
  have f: "find (rejecting run) (standard_rules p) \<noteq> None \<longleftrightarrow> (\<exists>r \<in> set (standard_rules p). rejecting run r)"
    by (auto simp: find_None_iff)
  then show "pr_outcome (evaluate_rules run cid p) = Rejected_outcome \<longleftrightarrow> (\<exists>r \<in> set (standard_rules p). rejecting run r)"
    by (cases "find (rejecting run) (standard_rules p)") (auto simp: evaluate_rules_eq Let_def)
  show "pr_outcome (evaluate_rules run cid p) = Approved \<longleftrightarrow>
     (\<forall>r \<in> set (contradiction_rules p @ standard_rules p). rr_outcome (run r) = Pass)"
  proof (cases "find (rejecting run) (standard_rules p)")
    case None
    then show ?thesis
      by (auto simp: evaluate_rules_eq Let_def filter_empty_conv takeWhile_not_find [OF None])
  next
    case (Some r)
    then have "r \<in> set (standard_rules p)" "rr_outcome (run r) \<noteq> Pass"
      by (auto dest: find_Some_in simp: rejecting_def)
    with Some show ?thesis by (auto simp: evaluate_rules_eq Let_def)
  qed
qed

lemma set_rules [simp]:
  "set (contradiction_rules p) = {r \<in> set (policy_rules p). rule_enabled r \<and> rule_type r = Contradiction_check}"
  "set (standard_rules p) = {r \<in> set (policy_rules p). rule_enabled r \<and> rule_type r \<noteq> Contradiction_check}"
  by (auto simp: contradiction_rules_def standard_rules_def)

section \<open>The rules behind the loops\<close>

text \<open>What the loops rely on: a result names the rule that produced it.\<close>

locale rule_runner =
  fixes run :: "policy_rule \<Rightarrow> rule_result"
  assumes run_id: "rr_rule_id (run r) = rule_id r"
    and run_type: "rr_rule_type (run r) = rule_type r"
begin

lemma evaluated_rules:
  "res \<in> set (pr_evaluations (evaluate_rules run cid p)) \<Longrightarrow>
    \<exists>r \<in> set (policy_rules p). rule_enabled r \<and> rr_rule_id res = rule_id r \<and> rr_rule_type res = rule_type r"
proof -
  assume "res \<in> set (pr_evaluations (evaluate_rules run cid p))"
  then have "res \<in> run ` (set (contradiction_rules p) \<union> set (standard_rules p))"
    by (fastforce simp: evaluate_rules_eq Let_def simp del: set_rules dest: set_takeWhileD find_Some_in
        split: option.splits if_splits)
  then show ?thesis by (auto simp: run_id run_type)
qed

lemma flagged_evaluations:
  "flags_of (evaluate_rules run cid p) = map rr_rule_id
     (filter (\<lambda>res. rr_outcome res \<noteq> Pass)
        (map run (contradiction_rules p @ takeWhile (\<lambda>r. \<not> rejecting run r) (standard_rules p))))"
  by (simp add: flags_of_evaluate filter_map comp_def run_id)

lemma contradiction_first:
  "take (length (contradiction_rules p)) (pr_evaluations (evaluate_rules run cid p))
    = map run (contradiction_rules p)"
  by (auto simp: evaluate_rules_eq Let_def split: option.split)

end

lemma create_rule_names:
  "rr_rule_id (create_rule env ty c r ctx) = rule_id r"
  "rr_rule_type (create_rule env ty c r ctx) = rule_type r"
  by (cases ty; simp add: evaluator_defs Let_def split: option.split)+

interpretation registry: rule_runner "\<lambda>r. create_rule env (rule_type r) c r ctx" for env c ctx
  by unfold_locales (simp_all add: create_rule_names)

text \<open>
  A contradiction is never masked. Every enabled contradiction rule is evaluated, before any
  other rule, in every run of the pipeline; when one of them does not pass, the result is not
  "approved" and the rule's id is among its flags, whatever the other rules, their priorities and
  actions do; and no contradiction rule is ever the rule that rejects, even with action reject.
\<close>

theorem contradiction_never_masked:
  assumes "r \<in> set (policy_rules p)" "rule_enabled r" "rule_type r = Contradiction_check"
  shows "evaluate_contradiction_check c r ctx
        \<in> set (take (length (contradiction_rules p)) (pr_evaluations (evaluate env p c ctx)))
    \<and> (rr_outcome (evaluate_contradiction_check c r ctx) \<noteq> Pass \<longrightarrow>
         rule_id r \<in> set (flags_of (evaluate env p c ctx)) \<and> pr_outcome (evaluate env p c ctx) \<noteq> Approved)
    \<and> (pr_rejected_by (evaluate env p c ctx) = Some rid \<longrightarrow>
         (\<exists>q \<in> set (policy_rules p). rule_id q = rid \<and> rule_type q \<noteq> Contradiction_check))"
proof -
  let ?run = "\<lambda>r. create_rule env (rule_type r) c r ctx"
  have r: "r \<in> set (contradiction_rules p)" using assms by simp
  have run: "?run r = evaluate_contradiction_check c r ctx" using assms(3) by simp
  have "?run r \<in> set (map ?run (contradiction_rules p))" unfolding set_map using r by (rule imageI)
  then have "evaluate_contradiction_check c r ctx
        \<in> set (take (length (contradiction_rules p)) (pr_evaluations (evaluate env p c ctx)))"
    unfolding evaluate_def registry.contradiction_first run .
  moreover have "rr_outcome (?run r) \<noteq> Pass \<Longrightarrow> rule_id r \<in> set (flags_of (evaluate env p c ctx))"
    using r by (auto simp: evaluate_def flags_of_evaluate simp del: set_rules)
  moreover have "rr_outcome (?run r) \<noteq> Pass \<Longrightarrow> pr_outcome (evaluate env p c ctx) \<noteq> Approved"
    using r by (auto simp: evaluate_def outcome_cases(3) simp del: set_rules)
  moreover have "pr_rejected_by (evaluate env p c ctx) = Some rid \<Longrightarrow>
         \<exists>q \<in> set (policy_rules p). rule_id q = rid \<and> rule_type q \<noteq> Contradiction_check"
    by (auto simp: evaluate_def outcome_cases(2) dest!: find_Some_in)
  ultimately show ?thesis using run by simp
qed

text \<open>
  C24. The outcome is decided by the first failing reject rule. The pipeline rejects exactly when
  some enabled rule other than a contradiction rule fails under action reject, and the rule it
  names is the first of them in the stable order of priorities; it approves exactly when every
  enabled rule passes; otherwise it flags, naming every enabled rule that did not pass.
\<close>

theorem outcome_characterised:
  "(pr_outcome (evaluate env p c ctx) = Rejected_outcome \<longleftrightarrow>
      (\<exists>r \<in> set (policy_rules p). rule_enabled r \<and> rule_type r \<noteq> Contradiction_check
         \<and> rule_action r = Act_reject \<and> rr_outcome (create_rule env (rule_type r) c r ctx) = Fail))
   \<and> pr_rejected_by (evaluate env p c ctx) =
       map_option rule_id (find (\<lambda>r. rule_action r = Act_reject
           \<and> rr_outcome (create_rule env (rule_type r) c r ctx) = Fail) (standard_rules p))
   \<and> (pr_outcome (evaluate env p c ctx) = Approved \<longleftrightarrow>
        (\<forall>r \<in> set (policy_rules p). rule_enabled r \<longrightarrow> rr_outcome (create_rule env (rule_type r) c r ctx) = Pass))
   \<and> (pr_outcome (evaluate env p c ctx) = Flagged_outcome \<longrightarrow>
        set (flags_of (evaluate env p c ctx)) =
          {rule_id r | r. r \<in> set (policy_rules p) \<and> rule_enabled r
             \<and> rr_outcome (create_rule env (rule_type r) c r ctx) \<noteq> Pass})"
proof (intro conjI impI)
  let ?run = "\<lambda>r. create_rule env (rule_type r) c r ctx"
  show "pr_outcome (evaluate env p c ctx) = Rejected_outcome \<longleftrightarrow>
      (\<exists>r \<in> set (policy_rules p). rule_enabled r \<and> rule_type r \<noteq> Contradiction_check
         \<and> rule_action r = Act_reject \<and> rr_outcome (?run r) = Fail)"
    by (auto simp: evaluate_def outcome_cases(1) rejecting_def)
  show "pr_rejected_by (evaluate env p c ctx) =
       map_option rule_id (find (\<lambda>r. rule_action r = Act_reject \<and> rr_outcome (?run r) = Fail) (standard_rules p))"
    unfolding evaluate_def outcome_cases(2) rejecting_def by (simp add: conj_commute)
  show "pr_outcome (evaluate env p c ctx) = Approved \<longleftrightarrow>
        (\<forall>r \<in> set (policy_rules p). rule_enabled r \<longrightarrow> rr_outcome (?run r) = Pass)"
    by (auto simp: evaluate_def outcome_cases(3))
  assume "pr_outcome (evaluate env p c ctx) = Flagged_outcome"
  then have "\<not> (\<exists>r \<in> set (standard_rules p). rejecting ?run r)"
    using outcome_cases(1) [of ?run "cand_id c" p] by (auto simp: evaluate_def simp del: set_rules)
  then have tw: "takeWhile (\<lambda>r. \<not> rejecting ?run r) (standard_rules p) = standard_rules p"
    by (simp add: takeWhile_eq_all_conv del: set_rules)
  show "set (flags_of (evaluate env p c ctx)) =
          {rule_id r | r. r \<in> set (policy_rules p) \<and> rule_enabled r \<and> rr_outcome (?run r) \<noteq> Pass}"
    unfolding evaluate_def flags_of_evaluate tw by auto
qed

text \<open>
  Disabled rules do not matter. Removing every disabled rule from a policy changes nothing in
  the result, and the listing order of the rules matters only among equal priorities: reordering
  rules of pairwise distinct priorities leaves the whole result as it is.
\<close>

theorem only_enabled_rules_count:
  assumes "mset (filter rule_enabled (policy_rules q)) = mset (filter rule_enabled (policy_rules p))"
    and "distinct (map rule_priority (filter rule_enabled (policy_rules p)))"
  shows "evaluate env q c ctx = evaluate env p c ctx
    \<and> evaluate env (p\<lparr>policy_rules := filter rule_enabled (policy_rules p)\<rparr>) c ctx = evaluate env p c ctx"
proof -
  have key: "sort_key rule_priority (filter P (filter rule_enabled (policy_rules q)))
      = sort_key rule_priority (filter P (filter rule_enabled (policy_rules p)))" for P
  proof (rule sort_key_of_perm)
    show "mset (filter P (filter rule_enabled (policy_rules q))) = mset (filter P (filter rule_enabled (policy_rules p)))"
      using assms(1) by (metis mset_filter)
    have "set (filter rule_enabled (policy_rules q)) = set (filter rule_enabled (policy_rules p))"
      using assms(1) by (rule mset_eq_setD)
    then have "inj_on rule_priority (set (filter rule_enabled (policy_rules q)))"
      using assms(2) by (simp only: distinct_map)
    then show "inj_on rule_priority (set (filter P (filter rule_enabled (policy_rules q))))"
      by (rule inj_on_subset) auto
  qed
  have "contradiction_rules q = contradiction_rules p" "standard_rules q = standard_rules p"
    by (simp_all only: contradiction_rules_def standard_rules_def key)
  moreover have "contradiction_rules (p\<lparr>policy_rules := filter rule_enabled (policy_rules p)\<rparr>) = contradiction_rules p"
    "standard_rules (p\<lparr>policy_rules := filter rule_enabled (policy_rules p)\<rparr>) = standard_rules p"
    by (simp_all add: contradiction_rules_def standard_rules_def)
  ultimately show ?thesis by (simp only: evaluate_def evaluate_rules_def)
qed

end
