(* ===== verification/Recommended_Policy.thy ===== *)
theory Recommended_Policy
  imports Pipeline
begin

text \<open>
  The recommended policy and the completeness gate of
  \<open>packages/policy-engine/src/recommended-policy.ts\<close>. The generated policy id is the caller's.
\<close>

section \<open>The rule set\<close>

definition rec_rule ::
  "string \<Rightarrow> policy_rule_type \<Rightarrow> policy_rule_action \<Rightarrow> nat \<Rightarrow> (string \<times> jval) list \<Rightarrow> string \<Rightarrow> policy_rule" where
  "rec_rule i ty act prio params descr =
     \<lparr>rule_id = i, rule_type = ty, rule_action = act, rule_enabled = True, rule_priority = prio,
      rule_parameters = params, rule_description = Some descr\<rparr>"

definition recommended_policy_rules :: "policy_rule list" where
  "recommended_policy_rules =
     [rec_rule ''rec-secret-detection'' Secret_detection Act_reject 0 []
        ''Reject candidates containing secrets/credentials.'',
      rec_rule ''rec-content-length'' Content_length Act_reject 1 [(''min'', JNum 25)]
        ''Reject candidates below the minimum meaningful length.'',
      rec_rule ''rec-tenant-match'' Tenant_match Act_reject 2 []
        ''Reject a candidate whose tenant does not match its target.'',
      rec_rule ''rec-source-trust'' Source_trust Act_flag 3 []
        ''Flag candidates below the minimum source trust level.'',
      rec_rule ''rec-relevance-score'' Relevance_score Act_reject 4
        [(''rejectSources'', JArr [JStr ''import'', JStr ''bulk_import''])]
        ''Reject below-threshold import-source candidates at intake; flag low-relevance interactive captures for review.'',
      rec_rule ''rec-sensitivity-gate'' Sensitivity_gate Act_flag 5 []
        ''Flag candidates whose classified sensitivity warrants review.'',
      rec_rule ''rec-dedup-check'' Dedup_check Act_flag 6 []
        ''Flag likely-duplicate candidates.'',
      rec_rule ''rec-content-sanitization'' Content_sanitization Act_flag 7 []
        ''Flag content that required sanitization.'',
      rec_rule ''rec-contradiction-check'' Contradiction_check Act_flag 8 []
        ''Flag candidates that heavily overlap an existing active same-category memory (potential contradiction, v1 token-overlap heuristic).'',
      rec_rule ''rec-audience-narrowing'' Audience_narrowing Act_flag 9 []
        ''Flag candidates whose declared audience is wider than their content calls for (credentials -> owner, PII -> admins). Recommendation only.'']"

text \<open>\<open>GovernancePolicy.parse\<close> of the literal: the tenant is trimmed, a bad field throws.\<close>

definition build_recommended_policy ::
  "formats \<Rightarrow> string \<Rightarrow> iso_datetime \<Rightarrow> uuid \<Rightarrow> governance_policy option" where
  "build_recommended_policy fmt tenant now pid =
     (case non_empty_string tenant of
        None \<Rightarrow> None
      | Some t \<Rightarrow>
          if fmt_uuid fmt pid \<and> fmt_datetime fmt now then
            Some \<lparr>policy_id = pid, policy_name = ''Recommended Governance Policy'', policy_tenant = t,
                  policy_rules = recommended_policy_rules, policy_enabled = True, policy_version = 1,
                  policy_created_at = now, policy_updated_at = now\<rparr>
          else None)"

section \<open>The completeness gate\<close>

text \<open>The keys of \<open>RULE_REGISTRY\<close>.\<close>

definition registered_types :: "policy_rule_type list" where
  "registered_types =
     [Secret_detection, Content_length, Source_trust, Relevance_score, Dedup_check, Tenant_match,
      Sensitivity_gate, Content_sanitization, Contradiction_check, Audience_narrowing]"

definition find_uncovered_rule_types :: "governance_policy \<Rightarrow> policy_rule_type list" where
  "find_uncovered_rule_types p =
     (let enabled = map rule_type (filter rule_enabled (policy_rules p))
      in sort_key rule_type_name (filter (\<lambda>t. t \<notin> set enabled) registered_types))"

definition assert_policy_completeness ::
  "governance_policy \<Rightarrow> policy_rule_type list \<Rightarrow> policy_rule_type list + unit" where
  "assert_policy_completeness p waived =
     (let uncovered = filter (\<lambda>t. t \<notin> set waived) (find_uncovered_rule_types p)
      in if uncovered \<noteq> [] then Inl uncovered else Inr ())"

lemma registered_all: "t \<in> set registered_types"
  by (cases t) (simp_all add: registered_types_def)

lemma set_uncovered:
  "set (find_uncovered_rule_types p) = {t. \<forall>r \<in> set (policy_rules p). rule_enabled r \<longrightarrow> rule_type r \<noteq> t}"
  using registered_all by (auto simp: find_uncovered_rule_types_def Let_def)

lemma rec_rule_simps [simp]:
  "rule_id (rec_rule i ty act prio ps d) = i" "rule_type (rec_rule i ty act prio ps d) = ty"
  "rule_action (rec_rule i ty act prio ps d) = act" "rule_enabled (rec_rule i ty act prio ps d)"
  "rule_priority (rec_rule i ty act prio ps d) = prio" "rule_parameters (rec_rule i ty act prio ps d) = ps"
  by (simp_all add: rec_rule_def)

lemma build_recommended_rules:
  "build_recommended_policy fmt tenant now pid = Some p \<Longrightarrow> policy_rules p = recommended_policy_rules"
  by (auto simp: build_recommended_policy_def split: option.splits if_splits)

lemma rec_rejecting:
  "r \<in> set recommended_policy_rules \<Longrightarrow> rule_action r = Act_reject \<longleftrightarrow>
     rule_type r \<in> {Secret_detection, Content_length, Tenant_match, Relevance_score}"
  unfolding recommended_policy_rules_def by auto

lemma rec_enabled: "r \<in> set recommended_policy_rules \<Longrightarrow> rule_enabled r"
  unfolding recommended_policy_rules_def by auto

lemma rec_gate_types:
  "t \<in> {Secret_detection, Content_length, Tenant_match, Relevance_score} \<Longrightarrow> t \<noteq> Contradiction_check"
  by auto

lemma rec_params:
  assumes "r \<in> set recommended_policy_rules"
  shows "rule_type r = Content_length \<Longrightarrow> rule_parameters r = [(''min'', JNum 25)]"
    and "rule_type r = Relevance_score \<Longrightarrow>
      rule_parameters r = [(''rejectSources'', JArr [JStr ''import'', JStr ''bulk_import''])]"
  using assms unfolding recommended_policy_rules_def by auto

lemma rec_of_type:
  "\<exists>r \<in> set recommended_policy_rules. rule_type r = t \<and> rule_enabled r"
  by (cases t) (auto simp: recommended_policy_rules_def)

lemma scan_findings_empty: "scan_text_for_secrets env s = [] \<longleftrightarrow> env_scan_secrets env s = []"
proof -
  have "sort (xs :: string list) = [] \<longleftrightarrow> xs = []" for xs by (metis length_0_conv length_sort)
  then show ?thesis by (simp add: scan_text_for_secrets_def Let_def)
qed

lemma import_sources_known:
  "filter (\<lambda>s. parse_enum source_options source_name s \<noteq> None) [''import'', ''bulk_import''] = [''import'', ''bulk_import'']"
proof -
  have "parse_enum source_options source_name (source_name Import) \<noteq> None"
    "parse_enum source_options source_name (source_name Bulk_import) \<noteq> None"
    by (simp_all only: source_vocab.parse_name, simp_all)
  then show ?thesis by simp
qed

lemma source_name_import:
  "source_name s = ''import'' \<longleftrightarrow> s = Import" "source_name s = ''bulk_import'' \<longleftrightarrow> s = Bulk_import"
  by (cases s; simp)+

text \<open>The four reasons a candidate is rejected for.\<close>

definition reject_surface :: "env \<Rightarrow> memory_candidate \<Rightarrow> evaluation_context \<Rightarrow> bool" where
  "reject_surface env c ctx =
     (env_scan_secrets env (cand_content c) \<noteq> []
      \<or> length (cand_content c) < 25 \<or> length (cand_content c) > 50000
      \<or> (\<exists>t. ctx_tenant_id ctx = Some t \<and> cand_tenant c \<noteq> t)
      \<or> (relevance_score c < 3/10 \<and> (cand_source c = Import \<or> cand_source c = Bulk_import)))"

lemma rec_fail_secret:
  "rr_outcome (evaluate_secret_detection env c r ctx) = Fail \<longleftrightarrow> env_scan_secrets env (cand_content c) \<noteq> []"
  by (simp add: evaluate_secret_detection_def Let_def scan_findings_empty)

lemma rec_fail_length:
  assumes "rule_parameters r = [(''min'', JNum 25)]"
  shows "rr_outcome (evaluate_content_length c r ctx) = Fail \<longleftrightarrow>
    length (cand_content c) < 25 \<or> length (cand_content c) > 50000"
  using assms by (auto simp: evaluate_content_length_def Let_def number_param_def param_def)

lemma rec_fail_tenant:
  "rr_outcome (evaluate_tenant_match c r ctx) = Fail \<longleftrightarrow> (\<exists>t. ctx_tenant_id ctx = Some t \<and> cand_tenant c \<noteq> t)"
  by (auto simp: evaluate_tenant_match_def split: option.split)

lemma rec_fail_relevance:
  assumes "rule_parameters r = [(''rejectSources'', JArr [JStr ''import'', JStr ''bulk_import''])]"
  shows "rr_outcome (evaluate_relevance_score c r ctx) = Fail \<longleftrightarrow>
    relevance_score c < 3/10 \<and> (cand_source c = Import \<or> cand_source c = Bulk_import)"
proof -
  have "reject_sources r = [''import'', ''bulk_import'']"
    using assms import_sources_known by (simp add: reject_sources_def param_def)
  moreover have "number_param r ''minimumScore'' (3/10) = 3/10"
    using assms by (simp add: number_param_def param_def)
  ultimately show ?thesis
    by (auto simp: evaluate_relevance_score_def Let_def source_name_import)
qed

text \<open>
  The recommended policy leaves no rule dormant and rejects on four grounds only. Built for
  any tenant, it covers every registered rule type, so the completeness gate passes with nothing
  waived; and under it the pipeline rejects a candidate exactly when a secret pattern fires, the
  content is shorter than 25 or longer than 50000 characters, the tenant differs from the target,
  or an import-class candidate scores below 0.3. Everything else is at most a flag.
\<close>

theorem recommended_policy_complete:
  assumes "build_recommended_policy fmt tenant now pid = Some p"
  shows "find_uncovered_rule_types p = [] \<and> assert_policy_completeness p [] = Inr ()
    \<and> (pr_outcome (evaluate env p c ctx) = Rejected_outcome \<longleftrightarrow> reject_surface env c ctx)"
proof -
  have rules: "policy_rules p = recommended_policy_rules" using assms by (rule build_recommended_rules)
  have "set (find_uncovered_rule_types p) = {}"
    unfolding set_uncovered rules using rec_of_type by blast
  then have unc: "find_uncovered_rule_types p = []" by simp
  let ?fails = "\<lambda>t. \<exists>r \<in> set recommended_policy_rules. rule_type r = t \<and> rr_outcome (create_rule env t c r ctx) = Fail"
  have "pr_outcome (evaluate env p c ctx) = Rejected_outcome \<longleftrightarrow>
      (\<exists>r \<in> set recommended_policy_rules. rule_type r \<in> {Secret_detection, Content_length, Tenant_match, Relevance_score}
         \<and> rr_outcome (create_rule env (rule_type r) c r ctx) = Fail)"
    unfolding evaluate_def outcome_cases(1) set_rules rules rejecting_def
    using rec_rejecting rec_enabled rec_gate_types by blast
  also have "\<dots> \<longleftrightarrow> ?fails Secret_detection \<or> ?fails Content_length \<or> ?fails Tenant_match \<or> ?fails Relevance_score"
    by auto
  also have "\<dots> \<longleftrightarrow> reject_surface env c ctx"
  proof -
    have "?fails Secret_detection \<longleftrightarrow> env_scan_secrets env (cand_content c) \<noteq> []"
      using rec_of_type [of Secret_detection] by (auto simp: rec_fail_secret)
    moreover have "?fails Content_length \<longleftrightarrow> length (cand_content c) < 25 \<or> length (cand_content c) > 50000"
      using rec_of_type [of Content_length] rec_fail_length [OF rec_params(1)] by auto
    moreover have "?fails Tenant_match \<longleftrightarrow> (\<exists>t. ctx_tenant_id ctx = Some t \<and> cand_tenant c \<noteq> t)"
      using rec_of_type [of Tenant_match] by (auto simp: rec_fail_tenant)
    moreover have "?fails Relevance_score \<longleftrightarrow>
        relevance_score c < 3/10 \<and> (cand_source c = Import \<or> cand_source c = Bulk_import)"
      using rec_of_type [of Relevance_score] rec_fail_relevance [OF rec_params(2)] by auto
    ultimately show ?thesis unfolding reject_surface_def by blast
  qed
  finally show ?thesis using unc by (simp add: assert_policy_completeness_def Let_def)
qed

text \<open>The gate lists exactly the dormant types.\<close>

lemma assert_completeness_iff:
  "assert_policy_completeness p waived = Inr () \<longleftrightarrow>
     (\<forall>t. t \<in> set waived \<or> (\<exists>r \<in> set (policy_rules p). rule_enabled r \<and> rule_type r = t))"
  using set_uncovered [of p] by (auto simp: assert_policy_completeness_def Let_def filter_empty_conv)

section \<open>Concrete runs\<close>

lemma sample_recommended: "\<exists>p. build_recommended_policy any_format ''acme'' ''2026-01-01'' ''p1'' = Some p"
proof -
  have "non_empty_string ''acme'' = Some ''acme''" by code_simp
  then show ?thesis by (simp add: build_recommended_policy_def any_format_def)
qed

theorem recommended_policy_complete_witness:
  "\<exists>p. build_recommended_policy any_format ''acme'' ''2026-01-01'' ''p1'' = Some p
     \<and> find_uncovered_rule_types p = []
     \<and> pr_outcome (evaluate sample_env p (sample_candidate Mcp ''short'') empty_context) = Rejected_outcome"
proof -
  obtain p where p: "build_recommended_policy any_format ''acme'' ''2026-01-01'' ''p1'' = Some p"
    using sample_recommended by blast
  from recommended_policy_complete [OF p, of sample_env "sample_candidate Mcp ''short''" empty_context] p
  show ?thesis by (auto simp: reject_surface_def)
qed

definition sample_policy :: "policy_rule list \<Rightarrow> governance_policy" where
  "sample_policy rs = \<lparr>policy_id = ''p1'', policy_name = ''p'', policy_tenant = ''acme'', policy_rules = rs,
     policy_enabled = True, policy_version = 1, policy_created_at = ''t'', policy_updated_at = ''t''\<rparr>"

text \<open>A contradiction rule listed after a tenant rule that rejects.\<close>

definition mixed_rules :: "policy_rule list" where
  "mixed_rules = [sample_rule Tenant_match Act_reject, (sample_rule Contradiction_check Act_flag)\<lparr>rule_priority := 9\<rparr>]"

definition mixed_context :: evaluation_context where
  "mixed_context = rival_context\<lparr>ctx_tenant_id := Some ''other''\<rparr>"

theorem contradiction_never_masked_witness:
  "pr_outcome (evaluate sample_env (sample_policy mixed_rules) (sample_candidate Mcp ''deploy on fridays'') mixed_context)
     = Rejected_outcome
   \<and> ''contradiction_check'' \<in> set (flags_of (evaluate sample_env (sample_policy mixed_rules)
         (sample_candidate Mcp ''deploy on fridays'') mixed_context))"
proof -
  let ?r = "(sample_rule Contradiction_check Act_flag)\<lparr>rule_priority := 9\<rparr>"
  let ?c = "sample_candidate Mcp ''deploy on fridays''"
  have m: "?r \<in> set (policy_rules (sample_policy mixed_rules))" "rule_enabled ?r" "rule_type ?r = Contradiction_check"
    by (simp_all add: sample_policy_def mixed_rules_def sample_rule_def)
  have f: "rr_outcome (evaluate_contradiction_check ?c ?r mixed_context) = Flag"
    by (simp add: evaluate_contradiction_check_def mixed_context_def rival_context_def Let_def
        contradiction_suspects_def rival_overlap parse_threshold_def param_def sample_rule_def)
  have "\<exists>r \<in> set (standard_rules (sample_policy mixed_rules)). rejecting (\<lambda>r. create_rule sample_env (rule_type r) ?c r mixed_context) r"
    by (auto simp: sample_policy_def mixed_rules_def rejecting_def rec_fail_tenant mixed_context_def)
  then have "pr_outcome (evaluate sample_env (sample_policy mixed_rules) ?c mixed_context) = Rejected_outcome"
    by (simp add: evaluate_def outcome_cases(1) del: set_rules)
  with contradiction_never_masked [OF m, of ?c mixed_context sample_env] f show ?thesis
    by (simp add: sample_rule_def)
qed

theorem outcome_characterised_witness:
  "set (flags_of (evaluate sample_env (sample_policy [sample_rule Source_trust Act_flag])
      ((sample_candidate Mcp ''x'')\<lparr>cand_trust := Untrusted\<rparr>) empty_context)) = {''source_trust''}"
proof -
  let ?c = "(sample_candidate Mcp ''x'')\<lparr>cand_trust := Untrusted\<rparr>"
  have o: "rr_outcome (evaluate_source_trust ?c (sample_rule Source_trust Act_flag) empty_context) = Flag"
    by (simp add: evaluate_source_trust_def Let_def param_def)
  have "pr_outcome (evaluate sample_env (sample_policy [sample_rule Source_trust Act_flag]) ?c empty_context)
      = Flagged_outcome"
    using o by (simp add: evaluate_def evaluate_rules_eq Let_def sample_policy_def contradiction_rules_def
        standard_rules_def rejecting_def)
  with outcome_characterised [of sample_env "sample_policy [sample_rule Source_trust Act_flag]" ?c empty_context] o
  show ?thesis by (auto simp: sample_policy_def)
qed

theorem only_enabled_rules_count_witness:
  "evaluate sample_env (sample_policy (rev mixed_rules)) (sample_candidate Mcp ''x'') mixed_context
     = evaluate sample_env (sample_policy mixed_rules) (sample_candidate Mcp ''x'') mixed_context"
  by (rule only_enabled_rules_count [THEN conjunct1])
    (simp_all add: sample_policy_def mixed_rules_def sample_rule_def)

end
