(* ===== verification/Hold_Triggers.thy ===== *)
theory Hold_Triggers
  imports Recommended_Policy "HOL-Library.Sublist"
begin

text \<open>
  The pure hold decision of \<open>packages/policy-engine/src/hold/hold-triggers.ts\<close> and the
  escalation count of \<open>hold-escalation.ts\<close>.
\<close>

section \<open>The decision\<close>

datatype hold_trigger =
    Audience_narrowing_flag
  | Audience_above_clearance
  | Secret_scan_flag
  | Sensitivity_gate_flag

fun trigger_name :: "hold_trigger \<Rightarrow> string" where
  "trigger_name Audience_narrowing_flag = ''audience_narrowing_flag''"
| "trigger_name Audience_above_clearance = ''audience_above_proposer_clearance''"
| "trigger_name Secret_scan_flag = ''secret_scan_flag''"
| "trigger_name Sensitivity_gate_flag = ''sensitivity_gate_flag''"

definition hold_trigger_rule_types :: "policy_rule_type list" where
  "hold_trigger_rule_types = [Audience_narrowing, Secret_detection, Sensitivity_gate]"

fun trigger_by_rule_type :: "policy_rule_type \<Rightarrow> hold_trigger option" where
  "trigger_by_rule_type Audience_narrowing = Some Audience_narrowing_flag"
| "trigger_by_rule_type Secret_detection = Some Secret_scan_flag"
| "trigger_by_rule_type Sensitivity_gate = Some Sensitivity_gate_flag"
| "trigger_by_rule_type _ = None"

record hold_decision =
  hd_triggers :: "hold_trigger list"
  hd_declared :: string
  hd_recommended :: string
  hd_basis :: audience_basis
  hd_matched :: "string list"
  hd_rule_ids :: "string list"
  hd_other_flags :: "string list"

definition narrower :: "string \<Rightarrow> string \<Rightarrow> string" where
  "narrower a b =
     (case (audience_rank a, audience_rank b) of
        (Some ra, Some rb) \<Rightarrow> if rb \<le> ra then a else b
      | _ \<Rightarrow> ''owner'')"

definition is_audience_above_proposer_clearance :: "memory_candidate \<Rightarrow> bool" where
  "is_audience_above_proposer_clearance c =
     (case proposed_by_role (cand_metadata c) of
        None \<Rightarrow> False
      | Some role \<Rightarrow>
          if reader_role_clearance role = None then True
          else \<not> is_audience_visible_to_role (audience (cand_metadata c))
                    (Some (if role = ''admin'' then ''owner'' else role)))"

text \<open>The evaluations of a covered rule type that did not pass.\<close>

definition covered_evaluation :: "rule_result \<Rightarrow> bool" where
  "covered_evaluation e = (trigger_by_rule_type (rr_rule_type e) \<noteq> None \<and> rr_outcome e \<noteq> Pass)"

definition evaluate_hold_triggers ::
  "env \<Rightarrow> memory_candidate \<Rightarrow> pipeline_result \<Rightarrow> governance_policy option \<Rightarrow> hold_decision option" where
  "evaluate_hold_triggers env c res policy =
     (if pr_outcome res = Rejected_outcome then None
      else
        let covered = filter covered_evaluation (pr_evaluations res);
            rule_ids = map rr_rule_id covered;
            fired = map (\<lambda>e. the (trigger_by_rule_type (rr_rule_type e))) covered
                    @ (if is_audience_above_proposer_clearance c then [Audience_above_clearance] else [])
        in if fired = [] then None
           else
             let declared = resolve_audience (audience (cand_metadata c));
                 rule = Option.bind policy
                   (\<lambda>p. find (\<lambda>r. rule_enabled r \<and> rule_type r = Audience_narrowing) (policy_rules p));
                 rec_aud = recommend_audience env (cand_content c) (Some declared)
                   (Option.bind rule (\<lambda>r. param r ''credentialsAudience''))
                   (Option.bind rule (\<lambda>r. param r ''piiAudience''))
             in Some \<lparr>hd_triggers = sort_key trigger_name (remdups fired), hd_declared = declared,
                      hd_recommended = narrower declared (ar_recommended rec_aud),
                      hd_basis = ar_basis rec_aud, hd_matched = ar_matched rec_aud,
                      hd_rule_ids = rule_ids,
                      hd_other_flags = filter (\<lambda>i. i \<notin> set rule_ids) (flags_of res)\<rparr>)"

definition unresolved_flags_after_release :: "pipeline_result \<Rightarrow> string list" where
  "unresolved_flags_after_release res =
     (let covered = map rr_rule_id
            (filter (\<lambda>e. rr_rule_type e \<in> set hold_trigger_rule_types \<and> rr_outcome e \<noteq> Pass) (pr_evaluations res))
      in filter (\<lambda>i. i \<notin> set covered) (flags_of res))"

section \<open>The escalation count\<close>

record hold_escalation_report =
  he_total :: nat
  he_rejected :: nat
  he_held :: nat
  he_flagged_other :: nat
  he_approved :: nat
  he_rate :: rat
  he_by_trigger :: "hold_trigger \<Rightarrow> nat"
  he_held_ids :: "uuid list"

definition measurement_context :: "memory_candidate \<Rightarrow> evaluation_context" where
  "measurement_context c = empty_context\<lparr>ctx_existing_hashes := Some [], ctx_tenant_id := Some (cand_tenant c)\<rparr>"

definition count_one ::
  "env \<Rightarrow> governance_policy \<Rightarrow> hold_escalation_report \<Rightarrow> memory_candidate \<Rightarrow> hold_escalation_report" where
  "count_one env p rep c =
     (let res = evaluate env p c (measurement_context c)
      in if pr_outcome res = Rejected_outcome then rep\<lparr>he_rejected := he_rejected rep + 1\<rparr>
         else case evaluate_hold_triggers env c res (Some p) of
                Some d \<Rightarrow> rep\<lparr>he_held := he_held rep + 1, he_held_ids := he_held_ids rep @ [cand_id c],
                            he_by_trigger := fold (\<lambda>t f. f(t := f t + 1)) (hd_triggers d) (he_by_trigger rep)\<rparr>
              | None \<Rightarrow> if pr_outcome res = Flagged_outcome
                        then rep\<lparr>he_flagged_other := he_flagged_other rep + 1\<rparr>
                        else rep\<lparr>he_approved := he_approved rep + 1\<rparr>)"

definition measure_hold_escalation ::
  "env \<Rightarrow> memory_candidate list \<Rightarrow> governance_policy \<Rightarrow> hold_escalation_report" where
  "measure_hold_escalation env cs p =
     (let rep = foldl (count_one env p)
            \<lparr>he_total = length cs, he_rejected = 0, he_held = 0, he_flagged_other = 0, he_approved = 0,
             he_rate = 0, he_by_trigger = (\<lambda>_. 0), he_held_ids = []\<rparr> cs
      in rep\<lparr>he_rate := (if he_total rep = 0 then 0 else of_nat (he_held rep) / of_nat (he_total rep))\<rparr>)"

section \<open>What a hold promises\<close>

lemma trigger_types: "trigger_by_rule_type t \<noteq> None \<longleftrightarrow> t \<in> set hold_trigger_rule_types"
  by (cases t) (simp_all add: hold_trigger_rule_types_def)

lemma narrower_rank:
  "audience_rank (narrower a b) \<noteq> None"
  "audience_rank a = Some i \<Longrightarrow> \<exists>k. audience_rank (narrower a b) = Some k \<and> i \<le> k"
  "audience_rank b = Some j \<Longrightarrow> \<exists>k. audience_rank (narrower a b) = Some k \<and> j \<le> k"
proof -
  have "audience_rank s = Some n \<Longrightarrow> n \<le> 2" for s n using audience_rank_dom [of s n] by auto
  then show "audience_rank (narrower a b) \<noteq> None"
    "audience_rank a = Some i \<Longrightarrow> \<exists>k. audience_rank (narrower a b) = Some k \<and> i \<le> k"
    "audience_rank b = Some j \<Longrightarrow> \<exists>k. audience_rank (narrower a b) = Some k \<and> j \<le> k"
    by (auto simp: narrower_def split: option.splits)
qed

lemma narrower_readers:
  "is_audience_visible_to_role (Some (narrower a b)) role \<Longrightarrow> audience_rank a \<noteq> None \<Longrightarrow>
    is_audience_visible_to_role (Some a) role"
  using narrower_rank(2) [of a _ b] by (cases role) (auto simp: visible_iff resolve_audience_def)

lemma visible_resolved:
  "is_audience_visible_to_role (Some (resolve_audience a)) role = is_audience_visible_to_role a role"
proof -
  have "resolve_audience (Some (resolve_audience a)) = resolve_audience a"
    by (cases a) (simp_all add: resolve_audience_def)
  then show ?thesis by (simp only: is_audience_visible_to_role_def)
qed

lemma hold_none_iff:
  "evaluate_hold_triggers env c res policy = None \<longleftrightarrow>
     pr_outcome res = Rejected_outcome
     \<or> (\<not> (\<exists>e \<in> set (pr_evaluations res). covered_evaluation e) \<and> \<not> is_audience_above_proposer_clearance c)"
  by (auto simp: evaluate_hold_triggers_def Let_def filter_empty_conv)

lemma hold_fields:
  assumes "evaluate_hold_triggers env c res policy = Some d"
  shows "hd_declared d = resolve_audience (audience (cand_metadata c))"
    and "\<exists>r. hd_recommended d = narrower (hd_declared d) r \<and> audience_rank r \<noteq> None"
    and "set (hd_rule_ids d) = rr_rule_id ` {e \<in> set (pr_evaluations res). covered_evaluation e}"
    and "hd_other_flags d = filter (\<lambda>i. i \<notin> set (hd_rule_ids d)) (flags_of res)"
    and "distinct (hd_triggers d) \<and> sorted (map trigger_name (hd_triggers d)) \<and> hd_triggers d \<noteq> []"
proof -
  let ?fired = "map (\<lambda>e. the (trigger_by_rule_type (rr_rule_type e))) (filter covered_evaluation (pr_evaluations res))
        @ (if is_audience_above_proposer_clearance c then [Audience_above_clearance] else [])"
  have f: "?fired \<noteq> []" using assms by (auto simp: evaluate_hold_triggers_def Let_def split: if_splits)
  have trig: "hd_triggers d = sort_key trigger_name (remdups ?fired)"
    using assms by (auto simp: evaluate_hold_triggers_def Let_def split: if_splits)
  have "set (hd_triggers d) = set ?fired" unfolding trig by simp
  then have "hd_triggers d \<noteq> []" using f by (metis set_empty)
  then show "distinct (hd_triggers d) \<and> sorted (map trigger_name (hd_triggers d)) \<and> hd_triggers d \<noteq> []"
    by (simp add: trig)
  show "hd_declared d = resolve_audience (audience (cand_metadata c))"
    "set (hd_rule_ids d) = rr_rule_id ` {e \<in> set (pr_evaluations res). covered_evaluation e}"
    "hd_other_flags d = filter (\<lambda>i. i \<notin> set (hd_rule_ids d)) (flags_of res)"
    "\<exists>r. hd_recommended d = narrower (hd_declared d) r \<and> audience_rank r \<noteq> None"
    using assms recommended_known by (auto simp: evaluate_hold_triggers_def Let_def split: if_splits)
qed

text \<open>
  A hold never softens a reject and never widens an audience. A rejected candidate is never
  held; otherwise it is held exactly when a covered rule (audience, secret or sensitivity) did not
  pass or its proposer is provably not cleared for the audience it declares; the recommended
  audience is always a known tier whose readers could all read the declared one, and an unknown
  declared tier is answered with the narrowest.
\<close>

theorem hold_never_softens_or_widens:
  "(pr_outcome res = Rejected_outcome \<longrightarrow> evaluate_hold_triggers env c res policy = None)
   \<and> (pr_outcome res \<noteq> Rejected_outcome \<longrightarrow>
        (evaluate_hold_triggers env c res policy \<noteq> None \<longleftrightarrow>
          (\<exists>e \<in> set (pr_evaluations res). rr_rule_type e \<in> set hold_trigger_rule_types \<and> rr_outcome e \<noteq> Pass)
          \<or> is_audience_above_proposer_clearance c))
   \<and> (\<forall>d. evaluate_hold_triggers env c res policy = Some d \<longrightarrow>
        audience_rank (hd_recommended d) \<noteq> None
        \<and> (audience_rank (hd_declared d) \<noteq> None \<longrightarrow>
             (\<forall>role. is_audience_visible_to_role (Some (hd_recommended d)) role \<longrightarrow>
                     is_audience_visible_to_role (audience (cand_metadata c)) role))
        \<and> (audience_rank (hd_declared d) = None \<longrightarrow> hd_recommended d = ''owner''))"
proof (intro conjI allI impI)
  show "pr_outcome res = Rejected_outcome \<Longrightarrow> evaluate_hold_triggers env c res policy = None"
    by (simp add: hold_none_iff)
  show "pr_outcome res \<noteq> Rejected_outcome \<Longrightarrow> (evaluate_hold_triggers env c res policy \<noteq> None) =
      ((\<exists>e \<in> set (pr_evaluations res). rr_rule_type e \<in> set hold_trigger_rule_types \<and> rr_outcome e \<noteq> Pass)
       \<or> is_audience_above_proposer_clearance c)"
    unfolding hold_none_iff covered_evaluation_def trigger_types by blast
  fix d assume d: "evaluate_hold_triggers env c res policy = Some d"
  obtain r where r: "hd_recommended d = narrower (hd_declared d) r"
    using hold_fields(2) [OF d] by blast
  show "audience_rank (hd_recommended d) \<noteq> None" unfolding r by (rule narrower_rank(1))
  show "hd_recommended d = ''owner''" if "audience_rank (hd_declared d) = None"
    using that by (simp add: r narrower_def)
  fix role assume known: "audience_rank (hd_declared d) \<noteq> None"
    and vis: "is_audience_visible_to_role (Some (hd_recommended d)) role"
  have "is_audience_visible_to_role (Some (hd_declared d)) role"
    using narrower_readers [OF vis [unfolded r] known] .
  then show "is_audience_visible_to_role (audience (cand_metadata c)) role"
    unfolding hold_fields(1) [OF d] by (simp add: visible_resolved)
qed

text \<open>
  A release resolves only what a hold covers. When the rules of a policy have distinct ids, a
  flag left after a release is exactly the flag of a rule outside the three covered types, in the
  order of the flags: a contradiction, sanitization, dedup, trust or relevance flag is never
  released, and a covered flag is never left.
\<close>

lemma enabled_flags:
  assumes "distinct (map rule_id (policy_rules p))"
  shows "i \<in> set (unresolved_flags_after_release (evaluate env p c ctx)) \<longleftrightarrow>
    (\<exists>r \<in> set (policy_rules p). rule_id r = i \<and> i \<in> set (flags_of (evaluate env p c ctx))
       \<and> rule_type r \<notin> set hold_trigger_rule_types)"
proof -
  let ?run = "\<lambda>r. create_rule env (rule_type r) c r ctx"
  let ?res = "evaluate env p c ctx"
  let ?tw = "takeWhile (\<lambda>r. \<not> rejecting ?run r) (standard_rules p)"
  have uniq: "r = r'" if "r \<in> set (policy_rules p)" "r' \<in> set (policy_rules p)" "rule_id r = rule_id r'" for r r'
    using distinct_map_eqD [OF assms] that by blast
  have flag: "\<exists>r \<in> set (policy_rules p). rule_id r = i \<and> ?run r \<in> set (pr_evaluations ?res) \<and> rr_outcome (?run r) \<noteq> Pass"
    if "i \<in> set (flags_of ?res)" for i
  proof -
    from that obtain r where r: "r \<in> set (contradiction_rules p @ ?tw)" "rule_id r = i" "rr_outcome (?run r) \<noteq> Pass"
      unfolding evaluate_def flags_of_evaluate by auto
    have "?run r \<in> set (map ?run (contradiction_rules p @ ?tw))" using r(1) unfolding set_map by (rule imageI)
    moreover have "set (map ?run (contradiction_rules p @ ?tw)) \<subseteq> set (pr_evaluations ?res)"
      by (auto simp: evaluate_def evaluate_rules_eq Let_def dest: set_takeWhileD split: option.split simp del: set_rules)
    moreover have "r \<in> set (policy_rules p)" using r(1) by (auto dest: set_takeWhileD)
    ultimately show ?thesis using r by blast
  qed
  have ev: "\<exists>r \<in> set (policy_rules p). rr_rule_id e = rule_id r \<and> rr_rule_type e = rule_type r"
    if "e \<in> set (pr_evaluations ?res)" for e
    using registry.evaluated_rules that unfolding evaluate_def by blast
  show ?thesis
  proof
    assume i: "i \<in> set (unresolved_flags_after_release ?res)"
    then have fl: "i \<in> set (flags_of ?res)" by (simp add: unresolved_flags_after_release_def Let_def)
    obtain r where r: "r \<in> set (policy_rules p)" "rule_id r = i" "?run r \<in> set (pr_evaluations ?res)"
        "rr_outcome (?run r) \<noteq> Pass" using flag [OF fl] by blast
    have left: "\<And>e. e \<in> set (pr_evaluations ?res) \<Longrightarrow> rr_rule_type e \<in> set hold_trigger_rule_types \<Longrightarrow>
        rr_outcome e \<noteq> Pass \<Longrightarrow> i \<noteq> rr_rule_id e"
      using i by (auto simp: unresolved_flags_after_release_def Let_def)
    have "rule_type r \<notin> set hold_trigger_rule_types"
      using left [OF r(3) _ r(4)] r(2) create_rule_names [of env "rule_type r" c r ctx] by metis
    with r(1,2) fl show "\<exists>r \<in> set (policy_rules p). rule_id r = i \<and> i \<in> set (flags_of ?res)
       \<and> rule_type r \<notin> set hold_trigger_rule_types" by blast
  next
    assume "\<exists>r \<in> set (policy_rules p). rule_id r = i \<and> i \<in> set (flags_of ?res)
       \<and> rule_type r \<notin> set hold_trigger_rule_types"
    then obtain r where r: "r \<in> set (policy_rules p)" "rule_id r = i" "i \<in> set (flags_of ?res)"
      "rule_type r \<notin> set hold_trigger_rule_types" by blast
    have "i \<noteq> rr_rule_id e" if "e \<in> set (pr_evaluations ?res)" "rr_rule_type e \<in> set hold_trigger_rule_types" for e
      using ev [OF that(1)] uniq [OF r(1)] r(2,4) that(2) by metis
    then show "i \<in> set (unresolved_flags_after_release ?res)"
      using r(3) by (auto simp: unresolved_flags_after_release_def Let_def)
  qed
qed

theorem release_resolves_covered_flags:
  assumes "distinct (map rule_id (policy_rules p))"
  shows "set (unresolved_flags_after_release (evaluate env p c ctx)) =
    {rule_id r | r. r \<in> set (policy_rules p) \<and> rule_id r \<in> set (flags_of (evaluate env p c ctx))
       \<and> rule_type r \<notin> {Audience_narrowing, Secret_detection, Sensitivity_gate}}"
  using enabled_flags [OF assms] by (auto simp: hold_trigger_rule_types_def)

text \<open>
  The escalation counts add up. Every candidate of a fixture is counted once, as rejected,
  held, flagged for another reason or approved; the held ids are as many as the held count and
  come from the fixture in order; and the rate is between 0 and 1.
\<close>

lemma count_one_total:
  "he_rejected (count_one env p rep c) + he_held (count_one env p rep c)
     + he_flagged_other (count_one env p rep c) + he_approved (count_one env p rep c)
   = he_rejected rep + he_held rep + he_flagged_other rep + he_approved rep + 1
   \<and> he_total (count_one env p rep c) = he_total rep
   \<and> (he_held_ids (count_one env p rep c) = he_held_ids rep \<and> he_held (count_one env p rep c) = he_held rep
      \<or> he_held_ids (count_one env p rep c) = he_held_ids rep @ [cand_id c]
        \<and> he_held (count_one env p rep c) = he_held rep + 1)"
  by (simp add: count_one_def Let_def split: option.split)

lemma count_loop:
  "he_rejected (foldl (count_one env p) rep cs) + he_held (foldl (count_one env p) rep cs)
     + he_flagged_other (foldl (count_one env p) rep cs) + he_approved (foldl (count_one env p) rep cs)
   = he_rejected rep + he_held rep + he_flagged_other rep + he_approved rep + length cs
   \<and> he_total (foldl (count_one env p) rep cs) = he_total rep
   \<and> (\<exists>ids. he_held_ids (foldl (count_one env p) rep cs) = he_held_ids rep @ ids
        \<and> he_held (foldl (count_one env p) rep cs) = he_held rep + length ids
        \<and> subseq ids (map cand_id cs))"
proof (induction cs arbitrary: rep)
  case (Cons c cs)
  from Cons.IH [of "count_one env p rep c"] count_one_total [of env p rep c]
  show ?case by (auto intro: list_emb_Cons)
qed simp

theorem escalation_counts_add_up:
  "he_rejected (measure_hold_escalation env cs p) + he_held (measure_hold_escalation env cs p)
     + he_flagged_other (measure_hold_escalation env cs p) + he_approved (measure_hold_escalation env cs p)
   = length cs
   \<and> he_held (measure_hold_escalation env cs p) = length (he_held_ids (measure_hold_escalation env cs p))
   \<and> subseq (he_held_ids (measure_hold_escalation env cs p)) (map cand_id cs)
   \<and> 0 \<le> he_rate (measure_hold_escalation env cs p) \<and> he_rate (measure_hold_escalation env cs p) \<le> 1"
proof -
  let ?rep0 = "\<lparr>he_total = length cs, he_rejected = 0, he_held = 0, he_flagged_other = 0, he_approved = 0,
             he_rate = 0, he_by_trigger = (\<lambda>_. 0), he_held_ids = []\<rparr> :: hold_escalation_report"
  note l = count_loop [of env p ?rep0 cs]
  from l have "he_held (foldl (count_one env p) ?rep0 cs) \<le> length cs" by auto
  with l show ?thesis by (auto simp: measure_hold_escalation_def Let_def divide_le_eq_1)
qed

section \<open>The properties at concrete inputs\<close>

definition sample_flagged :: pipeline_result where
  "sample_flagged = \<lparr>pr_candidate_id = ''c1'', pr_outcome = Flagged_outcome,
     pr_evaluations = [result_of (sample_rule Sensitivity_gate Act_flag) Flag Sanitization_clean None],
     pr_rejected_by = None, pr_flagged_by = Some [''sensitivity_gate'']\<rparr>"

theorem hold_never_softens_or_widens_witness:
  "evaluate_hold_triggers sample_env (sample_candidate Mcp ''x'') sample_flagged None \<noteq> None
   \<and> evaluate_hold_triggers sample_env (sample_candidate Mcp ''x'')
       (sample_flagged\<lparr>pr_outcome := Rejected_outcome\<rparr>) None = None"
  using hold_never_softens_or_widens [of sample_flagged sample_env "sample_candidate Mcp ''x''" None]
    hold_never_softens_or_widens [of "sample_flagged\<lparr>pr_outcome := Rejected_outcome\<rparr>" sample_env
      "sample_candidate Mcp ''x''" None]
  by (simp add: sample_flagged_def result_of_def hold_trigger_rule_types_def sample_rule_def)

theorem release_resolves_covered_flags_witness:
  "set (unresolved_flags_after_release (evaluate sample_env (sample_policy [sample_rule Source_trust Act_flag])
      ((sample_candidate Mcp ''x'')\<lparr>cand_trust := Untrusted\<rparr>) empty_context)) = {''source_trust''}"
proof -
  let ?c = "(sample_candidate Mcp ''x'')\<lparr>cand_trust := Untrusted\<rparr>"
  have o: "rr_outcome (evaluate_source_trust ?c (sample_rule Source_trust Act_flag) empty_context) = Flag"
    by (simp add: evaluate_source_trust_def Let_def param_def)
  have "flags_of (evaluate sample_env (sample_policy [sample_rule Source_trust Act_flag]) ?c empty_context)
      = [''source_trust'']"
    using o by (simp add: evaluate_def evaluate_rules_eq Let_def sample_policy_def contradiction_rules_def
        standard_rules_def rejecting_def flags_of_def)
  with release_resolves_covered_flags [of "sample_policy [sample_rule Source_trust Act_flag]" sample_env ?c empty_context]
  show ?thesis by (auto simp: sample_policy_def sample_rule_def)
qed

end
