(* ===== verification/Uuid.thy ===== *)
theory Uuid
  imports Json "HOL-Library.Word"
begin

text \<open>
  The content-derived identities of \<open>packages/common/src/uuid-v5.ts\<close>. Bytes are \<open>8 word\<close>.
  SHA-1 (\<open>node:crypto\<close>) is the parameter \<open>sha1\<close>; that a digest has twenty bytes is the
  only thing assumed of it. A name is the UTF-8 encoding of a Latin-1 text.
\<close>

unbundle bit_operations_syntax

section \<open>Bytes\<close>

type_synonym byte = "8 word"

definition utf8_char :: "char \<Rightarrow> byte list" where
  "utf8_char c =
     (let n = of_char c :: nat
      in if n < 128 then [of_nat n] else [0xC0 OR of_nat (n div 64), 0x80 OR of_nat (n mod 64)])"

definition utf8 :: "string \<Rightarrow> byte list" where
  "utf8 s = concat (map utf8_char s)"

text \<open>\<open>Buffer.from(hex, 'hex')\<close>: pairs of digits up to the first that is none.\<close>

fun buffer_from_hex :: "string \<Rightarrow> byte list" where
  "buffer_from_hex (a # b # r) =
     (case (hex_value a, hex_value b) of
        (Some x, Some y) \<Rightarrow> of_nat (16 * x + y) # buffer_from_hex r
      | _ \<Rightarrow> [])"
| "buffer_from_hex _ = []"

definition byte_hex :: "byte \<Rightarrow> string" where
  "byte_hex b = [hex_digit (unat b div 16), hex_digit (unat b mod 16)]"

definition buffer_to_hex :: "byte list \<Rightarrow> string" where
  "buffer_to_hex bs = concat (map byte_hex bs)"

section \<open>The identities\<close>

definition uuid_string_to_bytes :: "string \<Rightarrow> byte list option" where
  "uuid_string_to_bytes u =
     (let hex = filter (\<lambda>c. c \<noteq> CHR ''-'') u
      in if length hex \<noteq> 32 then None else Some (buffer_from_hex hex))"

text \<open>\<open>s.slice(i, j)\<close> for \<open>i \<le> j\<close>, and \<open>parts.join(sep)\<close>.\<close>

definition js_slice :: "nat \<Rightarrow> nat \<Rightarrow> string \<Rightarrow> string" where
  "js_slice i j s = drop i (take j s)"

fun js_join :: "string \<Rightarrow> string list \<Rightarrow> string" where
  "js_join sep [] = []"
| "js_join sep [x] = x"
| "js_join sep (x # y # ys) = x @ sep @ js_join sep (y # ys)"

definition uuid_bytes_to_string :: "byte list \<Rightarrow> string" where
  "uuid_bytes_to_string bs =
     (let hex = buffer_to_hex bs
      in js_join ''-'' [js_slice 0 8 hex, js_slice 8 12 hex, js_slice 12 16 hex,
           js_slice 16 20 hex, js_slice 20 32 hex])"

text \<open>The first sixteen bytes of a digest with the version and variant bits patched.\<close>

definition stamp_v5 :: "byte list \<Rightarrow> byte list" where
  "stamp_v5 hash =
     (let bytes = take 16 hash;
          bytes = bytes[6 := (bytes ! 6 AND 0x0F) OR 0x50]
      in bytes[8 := (bytes ! 8 AND 0x3F) OR 0x80])"

definition uuid_v5 :: "(byte list \<Rightarrow> byte list) \<Rightarrow> string \<Rightarrow> string \<Rightarrow> string option" where
  "uuid_v5 sha1 ns name =
     map_option (\<lambda>nsb. uuid_bytes_to_string (stamp_v5 (sha1 (nsb @ utf8 name)))) (uuid_string_to_bytes ns)"

definition spool_uuid_namespace :: string where
  "spool_uuid_namespace = js_join ''-'' [''6c6f6e67-7368-6f72'', ''6500-69636f73706c'']"

definition name_field_separator :: string where
  "name_field_separator = [CHR 0x00]"

text \<open>\<open>uuidV5(SPOOL_UUID_NAMESPACE, fields.join(NUL))\<close>; the namespace always parses.\<close>

definition spool_uuid :: "(byte list \<Rightarrow> byte list) \<Rightarrow> string list \<Rightarrow> string" where
  "spool_uuid sha1 fields =
     (case uuid_v5 sha1 spool_uuid_namespace (js_join name_field_separator fields) of
        None \<Rightarrow> [] | Some u \<Rightarrow> u)"

definition derive_candidate_id :: "(byte list \<Rightarrow> byte list) \<Rightarrow> string \<Rightarrow> string \<Rightarrow> string \<Rightarrow> string" where
  "derive_candidate_id sha1 workspace rel_path body_sha = spool_uuid sha1 [workspace, rel_path, body_sha]"

definition derive_memory_id :: "(byte list \<Rightarrow> byte list) \<Rightarrow> string \<Rightarrow> string \<Rightarrow> string" where
  "derive_memory_id sha1 candidate content_hash = spool_uuid sha1 [''memory'', candidate, content_hash]"

definition derive_audit_event_id ::
  "(byte list \<Rightarrow> byte list) \<Rightarrow> string \<Rightarrow> string \<Rightarrow> string \<Rightarrow> string" where
  "derive_audit_event_id sha1 memory act disc = spool_uuid sha1 [''audit'', memory, act, disc]"

definition derive_policy_evaluation_id ::
  "(byte list \<Rightarrow> byte list) \<Rightarrow> string \<Rightarrow> string \<Rightarrow> string \<Rightarrow> string" where
  "derive_policy_evaluation_id sha1 memory rule disc = spool_uuid sha1 [''policy'', memory, rule, disc]"

definition derive_link_id ::
  "(byte list \<Rightarrow> byte list) \<Rightarrow> string \<Rightarrow> string \<Rightarrow> string \<Rightarrow> string" where
  "derive_link_id sha1 source target ty = spool_uuid sha1 [''link'', source, target, ty]"

section \<open>Shape\<close>

text \<open>The canonical form of a version 5 UUID: dashes, the version digit, the variant digit.\<close>

definition lower_hex_char :: "char \<Rightarrow> bool" where
  "lower_hex_char c = (c \<in> set ''0123456789abcdef'')"

definition uuid5_shape :: "string \<Rightarrow> bool" where
  "uuid5_shape u =
     (length u = 36 \<and> u ! 14 = CHR ''5'' \<and> u ! 19 \<in> set ''89ab''
      \<and> (\<forall>i < 36. if i \<in> {8, 13, 18, 23} then u ! i = CHR ''-'' else lower_hex_char (u ! i)))"

lemma hex_digit_lower:
  assumes "n < 16"
  shows "lower_hex_char (hex_digit n)"
proof -
  have "list_all (\<lambda>n. lower_hex_char (hex_digit n)) [0..<16]" by code_simp
  with assms show ?thesis by (simp add: list_all_iff)
qed

lemma hex_digit_inj: "m < 16 \<Longrightarrow> n < 16 \<Longrightarrow> hex_digit m = hex_digit n \<longleftrightarrow> m = n"
  by (auto simp: hex_digit_def char_of_eq_iff take_bit_nat_def split: if_splits)

lemma length_byte_hex [simp]: "length (byte_hex b) = 2"
  by (simp add: byte_hex_def)

lemma length_buffer_to_hex [simp]: "length (buffer_to_hex bs) = 2 * length bs"
  by (induction bs) (simp_all add: buffer_to_hex_def)

lemma byte_div_16: "unat (b :: byte) div 16 < 16"
proof -
  have "unat b < 2 ^ LENGTH(8)" by (rule unsigned_less)
  then show ?thesis by simp
qed

lemma byte_hex_inj: "byte_hex b = byte_hex b' \<longleftrightarrow> b = b'"
proof
  assume "byte_hex b = byte_hex b'"
  then have "unat b div 16 = unat b' div 16" "unat b mod 16 = unat b' mod 16"
    by (simp_all add: byte_hex_def hex_digit_inj byte_div_16)
  then have "unat b = unat b'" by (metis div_mult_mod_eq)
  then show "b = b'" by (rule unsigned_word_eqI)
qed simp

lemma buffer_to_hex_inj: "buffer_to_hex bs = buffer_to_hex bs' \<longleftrightarrow> bs = bs'"
proof (induction bs arbitrary: bs')
  case Nil
  show ?case by (cases bs') (simp_all add: buffer_to_hex_def byte_hex_def)
next
  case (Cons b bs)
  show ?case
  proof (cases bs')
    case (Cons b' cs)
    then show ?thesis using Cons.IH [of cs] byte_hex_inj [of b b']
      by (auto simp: buffer_to_hex_def append_eq_append_conv)
  qed (simp add: buffer_to_hex_def byte_hex_def)
qed

lemma version_byte: "unat ((x AND 0x0F) OR 0x50 :: byte) div 16 = 5"
proof -
  have "drop_bit 4 ((x AND 0x0F) OR 0x50 :: byte) = 5" by (simp add: drop_bit_or drop_bit_and)
  then have "drop_bit 4 (unat ((x AND 0x0F) OR 0x50 :: byte)) = 5" by (simp flip: unat_drop_bit_eq)
  then show ?thesis by (simp add: drop_bit_eq_div)
qed

lemma variant_byte: "unat ((x AND 0x3F) OR 0x80 :: byte) div 16 \<in> {8, 9, 10, 11}"
proof -
  let ?y = "drop_bit 4 x AND 3 :: byte"
  have "?y = take_bit 2 (drop_bit 4 x)" by (simp only: take_bit_eq_mask) (simp add: mask_eq_exp_minus_1)
  then have "unat ?y = take_bit 2 (unat (drop_bit 4 x))" by (simp only: unsigned_take_bit_eq)
  then have "unat ?y < 4" by (simp add: take_bit_eq_mod)
  then have "unat ?y \<in> {0, 1, 2, 3}" by auto
  then have "of_nat (unat ?y) \<in> (of_nat ` {0, 1, 2, 3} :: byte set)" by (rule imageI)
  then have "?y \<in> {0, 1, 2, 3}" by simp
  moreover have "drop_bit 4 ((x AND 0x3F) OR 0x80 :: byte) = ?y OR 8" by (simp add: drop_bit_or drop_bit_and)
  ultimately have "drop_bit 4 ((x AND 0x3F) OR 0x80 :: byte) \<in> {8, 9, 10, 11}" by auto
  then have "unat (drop_bit 4 ((x AND 0x3F) OR 0x80 :: byte)) \<in> {8, 9, 10, 11}" by auto
  then have "drop_bit 4 (unat ((x AND 0x3F) OR 0x80 :: byte)) \<in> {8, 9, 10, 11}" by (simp only: unat_drop_bit_eq)
  then show ?thesis by (simp add: drop_bit_eq_div)
qed

lemma hex_length_16:
  assumes "length bs = 16"
  obtains b0 b1 b2 b3 b4 b5 b6 b7 b8 b9 b10 b11 b12 b13 b14 b15
  where "bs = [b0, b1, b2, b3, b4, b5, b6, b7, b8, b9, b10, b11, b12, b13, b14, b15]"
  using assms by (auto simp: numeral_eq_Suc length_Suc_conv)

lemma uuid_string_16:
  "uuid_bytes_to_string [b0, b1, b2, b3, b4, b5, b6, b7, b8, b9, b10, b11, b12, b13, b14, b15] =
     byte_hex b0 @ byte_hex b1 @ byte_hex b2 @ byte_hex b3 @ ''-'' @ byte_hex b4 @ byte_hex b5 @ ''-''
     @ byte_hex b6 @ byte_hex b7 @ ''-'' @ byte_hex b8 @ byte_hex b9 @ ''-''
     @ byte_hex b10 @ byte_hex b11 @ byte_hex b12 @ byte_hex b13 @ byte_hex b14 @ byte_hex b15"
  by (simp add: uuid_bytes_to_string_def buffer_to_hex_def js_slice_def byte_hex_def)

lemma uuid_bytes_inj:
  assumes "length bs = 16" "length cs = 16"
  shows "uuid_bytes_to_string bs = uuid_bytes_to_string cs \<longleftrightarrow> bs = cs"
proof -
  from assms(1) obtain b0 b1 b2 b3 b4 b5 b6 b7 b8 b9 b10 b11 b12 b13 b14 b15
    where b: "bs = [b0, b1, b2, b3, b4, b5, b6, b7, b8, b9, b10, b11, b12, b13, b14, b15]"
    by (rule hex_length_16)
  from assms(2) obtain c0 c1 c2 c3 c4 c5 c6 c7 c8 c9 c10 c11 c12 c13 c14 c15
    where c: "cs = [c0, c1, c2, c3, c4, c5, c6, c7, c8, c9, c10, c11, c12, c13, c14, c15]"
    by (rule hex_length_16)
  show ?thesis unfolding b c uuid_string_16 by (simp add: append_eq_append_conv byte_hex_inj)
qed

lemma byte_hex_lower: "list_all lower_hex_char (byte_hex b)"
  by (simp add: byte_hex_def hex_digit_lower byte_div_16)

lemma stamped_hex:
  assumes "length bs = 16"
  shows "uuid5_shape (uuid_bytes_to_string (bs[6 := (x AND 0x0F) OR 0x50, 8 := (y AND 0x3F) OR 0x80]))"
proof -
  from assms obtain b0 b1 b2 b3 b4 b5 b6 b7 b8 b9 b10 b11 b12 b13 b14 b15
    where b: "bs = [b0, b1, b2, b3, b4, b5, b6, b7, b8, b9, b10, b11, b12, b13, b14, b15]"
    by (rule hex_length_16)
  define v w where "v = ((x AND 0x0F) OR 0x50 :: byte)" and "w = ((y AND 0x3F) OR 0x80 :: byte)"
  have digits: "hex_digit 5 = CHR ''5''" "\<And>n. n \<in> {8, 9, 10, 11} \<Longrightarrow> hex_digit n \<in> set ''89ab''"
    by code_simp (elim insertE; simp; code_simp)
  obtain v1 v2 where v: "byte_hex v = [v1, v2]" "v1 = CHR ''5''" "lower_hex_char v2"
    using version_byte [of x] byte_hex_lower [of v] by (simp add: v_def byte_hex_def digits)
  obtain w1 w2 where w: "byte_hex w = [w1, w2]" "w1 \<in> set ''89ab''" "lower_hex_char w2"
    using digits(2) [OF variant_byte [of y]] byte_hex_lower [of w] by (simp add: w_def byte_hex_def)
  have low: "\<exists>h l. byte_hex c = [h, l] \<and> lower_hex_char h \<and> lower_hex_char l" for c
    using byte_hex_lower [of c] by (simp add: byte_hex_def)
  have five: "lower_hex_char CHR ''5''" "\<And>c. c \<in> set ''89ab'' \<Longrightarrow> lower_hex_char c"
    by (auto simp: lower_hex_char_def)
  have "uuid_bytes_to_string (bs[6 := v, 8 := w]) =
     byte_hex b0 @ byte_hex b1 @ byte_hex b2 @ byte_hex b3 @ ''-'' @ byte_hex b4 @ byte_hex b5 @ ''-''
     @ byte_hex v @ byte_hex b7 @ ''-'' @ byte_hex w @ byte_hex b9 @ ''-''
     @ byte_hex b10 @ byte_hex b11 @ byte_hex b12 @ byte_hex b13 @ byte_hex b14 @ byte_hex b15"
    by (simp add: b uuid_string_16)
  then show ?thesis unfolding v_def [symmetric] w_def [symmetric]
    using low [of b0] low [of b1] low [of b2] low [of b3] low [of b4] low [of b5] low [of b7]
      low [of b9] low [of b10] low [of b11] low [of b12] low [of b13] low [of b14] low [of b15]
    using v w five
    by (elim exE conjE) (simp add: uuid5_shape_def All_less_Suc numeral_eq_Suc)
qed

lemma uuid5_of_digest:
  assumes "length d = 20"
  shows "uuid5_shape (uuid_bytes_to_string (stamp_v5 d))"
proof -
  have "length (take 16 d) = 16" using assms by simp
  then show ?thesis unfolding stamp_v5_def Let_def by (rule stamped_hex)
qed

section \<open>What an identity determines\<close>

lemma spool_namespace_bytes:
  "\<exists>b. uuid_string_to_bytes spool_uuid_namespace = Some b"
proof -
  have "uuid_string_to_bytes spool_uuid_namespace \<noteq> None" by code_simp
  then show ?thesis by auto
qed

text \<open>The bytes that are hashed for a list of fields, and two field lists whose ids clash.\<close>

definition name_bytes :: "string list \<Rightarrow> byte list" where
  "name_bytes fields =
     (case uuid_string_to_bytes spool_uuid_namespace of None \<Rightarrow> [] | Some b \<Rightarrow> b)
     @ utf8 (js_join name_field_separator fields)"

definition uuid_clash :: "(byte list \<Rightarrow> byte list) \<Rightarrow> string list \<Rightarrow> string list \<Rightarrow> bool" where
  "uuid_clash sha1 xs ys =
     (name_bytes xs \<noteq> name_bytes ys \<and> stamp_v5 (sha1 (name_bytes xs)) = stamp_v5 (sha1 (name_bytes ys)))"

lemma spool_uuid_bytes: "spool_uuid sha1 fields = uuid_bytes_to_string (stamp_v5 (sha1 (name_bytes fields)))"
  using spool_namespace_bytes by (auto simp: spool_uuid_def uuid_v5_def name_bytes_def)

lemma ascii_byte: "n < 128 \<Longrightarrow> unat (of_nat n :: byte) = n"
  by (simp add: unat_of_nat)

lemma low_six_bits: "m < 64 \<Longrightarrow> ((0x80 :: byte) OR of_nat m) AND 0x3F = of_nat m"
proof -
  assume m: "m < 64"
  have "((0x80 :: byte) OR of_nat m) AND 0x3F = of_nat m AND 0x3F" by (simp add: bit.conj_disj_distrib2)
  also have "\<dots> = take_bit 6 (of_nat m)" by (simp only: take_bit_eq_mask) (simp add: mask_eq_exp_minus_1)
  also have "\<dots> = of_nat (take_bit 6 m)" by (rule take_bit_of_nat)
  finally show ?thesis using m by (simp add: take_bit_nat_eq_self)
qed

lemma lead_quotient: "k < 256 \<Longrightarrow> \<not> k < 128 \<Longrightarrow> k div 64 = (if k < 192 then 2 else 3)" for k :: nat
  by (auto intro: div_nat_eqI)

lemma lead_byte:
  assumes "k < 256" "\<not> k < 128"
  shows "(0xC0 OR of_nat (k div 64) :: byte) = (if k < 192 then 0xC2 else 0xC3)"
  unfolding lead_quotient [OF assms] by simp

lemma utf8_char_cases:
  obtains (one) "(of_char c :: nat) < 128" "utf8_char c = [of_nat (of_char c)]"
  | (two) "\<not> (of_char c :: nat) < 128"
      "utf8_char c = [if (of_char c :: nat) < 192 then 0xC2 else 0xC3, 0x80 OR of_nat (of_char c mod 64)]"
  using lead_byte [of "of_char c"] by (cases "(of_char c :: nat) < 128") (simp_all add: utf8_char_def Let_def)

lemma two_byte_char:
  fixes n :: nat
  assumes "n < 256" "\<not> n < 128"
  shows "n = (if n < 192 then 128 else 192) + n mod 64"
  using mult_div_mod_eq [of 64 n] unfolding lead_quotient [OF assms] by (simp split: if_splits)

lemma ascii_not_lead:
  assumes "n < 128"
  shows "(of_nat n :: byte) \<noteq> (if b then 0xC2 else 0xC3)"
proof
  assume "(of_nat n :: byte) = (if b then 0xC2 else 0xC3)"
  then have "unat (of_nat n :: byte) = (if b then 194 else 195)" by simp
  then show False unfolding ascii_byte [OF assms] using assms by (simp split: if_splits)
qed

lemma two_byte_inj:
  fixes n m :: nat
  assumes "n < 256" "\<not> n < 128" "m < 256" "\<not> m < 128"
    and hi: "(if n < 192 then 0xC2 else 0xC3 :: byte) = (if m < 192 then 0xC2 else 0xC3)"
    and lo: "(0x80 OR of_nat (n mod 64) :: byte) = 0x80 OR of_nat (m mod 64)"
  shows "n = m"
proof -
  have same: "(n < 192) = (m < 192)" using hi by (cases "n < 192"; cases "m < 192") simp_all
  have less: "n mod 64 < 64" "m mod 64 < 64" by simp_all
  have "(of_nat (n mod 64) :: byte) = of_nat (m mod 64)"
    using arg_cong [OF lo, of "\<lambda>w. w AND 0x3F"] unfolding low_six_bits [OF less(1)] low_six_bits [OF less(2)] .
  then have "unat (of_nat (n mod 64) :: byte) = unat (of_nat (m mod 64) :: byte)" by (rule arg_cong)
  moreover have "n mod 64 < 128" "m mod 64 < 128" using less by linarith+
  ultimately have "n mod 64 = m mod 64" by (simp only: ascii_byte)
  then show ?thesis using two_byte_char [OF assms(1,2)] two_byte_char [OF assms(3,4)] same by simp
qed

lemma utf8_char_prefix:
  assumes eq: "utf8_char c @ r = utf8_char d @ r'"
  shows "c = d \<and> r = r'"
proof -
  let ?n = "of_char c :: nat" and ?m = "of_char d :: nat"
  have lt: "?n < 256" "?m < 256" by simp_all
  have "?n = ?m \<and> r = r'"
  proof (cases c rule: utf8_char_cases)
    case one
    note n = this
    show ?thesis
    proof (cases d rule: utf8_char_cases)
      case one
      then have "(of_nat ?n :: byte) = of_nat ?m" "r = r'" using eq by (simp_all only: n append.simps list.inject)
      from arg_cong [OF this(1), of unat] this(2) show ?thesis
        unfolding ascii_byte [OF n(1)] ascii_byte [OF one(1)] by (rule conjI)
    next
      case two
      then have "(of_nat ?n :: byte) = (if ?m < 192 then 0xC2 else 0xC3)"
        using eq by (simp only: n append.simps list.inject)
      with ascii_not_lead [OF n(1), of "?m < 192"] show ?thesis by (rule notE)
    qed
  next
    case two
    note n = this
    show ?thesis
    proof (cases d rule: utf8_char_cases)
      case one
      then have "(of_nat ?m :: byte) = (if ?n < 192 then 0xC2 else 0xC3)"
        using eq by (simp only: n append.simps list.inject)
      with ascii_not_lead [OF one(1), of "?n < 192"] show ?thesis by (rule notE)
    next
      case two
      then have "(if ?n < 192 then 0xC2 else 0xC3 :: byte) = (if ?m < 192 then 0xC2 else 0xC3)"
        "(0x80 OR of_nat (?n mod 64) :: byte) = 0x80 OR of_nat (?m mod 64)" "r = r'"
        using eq by (simp_all only: n append.simps list.inject)
      then show ?thesis by (intro conjI two_byte_inj [OF lt(1) n(1) lt(2) two(1)])
    qed
  qed
  then show ?thesis by (simp only: of_char_eq_iff)
qed

lemma utf8_char_nonempty: "utf8_char c \<noteq> []"
  by (simp add: utf8_char_def Let_def)

lemma utf8_inj: "utf8 s = utf8 t \<longleftrightarrow> s = t"
proof (induction s arbitrary: t)
  case Nil
  show ?case by (cases t) (simp_all add: utf8_def utf8_char_nonempty)
next
  case (Cons c s)
  show ?case
  proof (cases t)
    case (Cons d u)
    then show ?thesis using Cons.IH [of u] utf8_char_prefix [of c "utf8 s" d "utf8 u"]
      by (auto simp: utf8_def)
  qed (simp add: utf8_def utf8_char_nonempty)
qed

text \<open>Fields without the separator are recovered from the joined name.\<close>

lemma join_head:
  assumes "z \<notin> set x" "z \<notin> set y" "x @ rx = y @ ry"
    and "rx = [] \<or> hd rx = z" "ry = [] \<or> hd ry = z"
  shows "x = y \<and> rx = ry"
  using assms
proof (induction x arbitrary: y)
  case Nil
  then show ?case by (cases y) auto
next
  case (Cons a x)
  then show ?case by (cases y) auto
qed

lemma js_join_Cons: "js_join sep (x # ys) = x @ (if ys = [] then [] else sep @ js_join sep ys)"
  by (cases ys) simp_all

lemma js_join_inj:
  "length xs = length ys \<Longrightarrow> \<forall>x \<in> set xs \<union> set ys. z \<notin> set x \<Longrightarrow> js_join [z] xs = js_join [z] ys \<Longrightarrow> xs = ys"
proof (induction xs arbitrary: ys)
  case (Cons x xs)
  then obtain y ys' where ys: "ys = y # ys'" by (cases ys) auto
  with Cons.prems(1) have nil: "xs = [] \<longleftrightarrow> ys' = []" by auto
  have "x = y \<and> (if xs = [] then [] else [z] @ js_join [z] xs) = (if ys' = [] then [] else [z] @ js_join [z] ys')"
    using Cons.prems(2,3) unfolding ys js_join_Cons by (intro join_head [of z]) auto
  with Cons.prems Cons.IH [of ys'] nil show ?case by (auto simp: ys split: if_splits)
qed simp

lemma js_join_first:
  assumes "z \<notin> set x" "z \<notin> set y" "js_join [z] (x # xs) = js_join [z] (y # ys)"
  shows "x = y"
  using assms unfolding js_join_Cons by (intro join_head [THEN conjunct1, of z x y]) (auto split: if_splits)

lemma spool_uuid_eqD:
  assumes "spool_uuid sha1 xs = spool_uuid sha1 ys" "\<And>x. length (sha1 x) = 20"
  shows "js_join name_field_separator xs = js_join name_field_separator ys \<or> uuid_clash sha1 xs ys"
proof -
  have len: "length (stamp_v5 (sha1 x)) = 16" for x using assms(2) by (simp add: stamp_v5_def Let_def)
  have "stamp_v5 (sha1 (name_bytes xs)) = stamp_v5 (sha1 (name_bytes ys))"
    using assms(1) by (simp add: spool_uuid_bytes uuid_bytes_inj len)
  then show ?thesis by (auto simp: uuid_clash_def name_bytes_def utf8_inj)
qed

definition nul_free :: "string \<Rightarrow> bool" where
  "nul_free s = (CHR 0x00 \<notin> set s)"

lemma spool_uuid_fields:
  assumes "\<And>x. length (sha1 x) = 20" "spool_uuid sha1 xs = spool_uuid sha1 ys" "length xs = length ys"
    "list_all nul_free (xs @ ys)"
  shows "xs = ys \<or> uuid_clash sha1 xs ys"
  using spool_uuid_eqD [OF assms(2,1)] js_join_inj [OF assms(3), of "CHR 0x00"] assms(4)
  by (auto simp: name_field_separator_def nul_free_def list_all_iff)

lemma spool_uuid_tags:
  assumes "\<And>x. length (sha1 x) = 20" "nul_free t" "nul_free u" "t \<noteq> u"
  shows "spool_uuid sha1 (t # xs) \<noteq> spool_uuid sha1 (u # ys) \<or> uuid_clash sha1 (t # xs) (u # ys)"
  using spool_uuid_eqD [of sha1 "t # xs" "u # ys", OF _ assms(1)] js_join_first [of "CHR 0x00" t u xs ys] assms(2-4)
  by (auto simp: name_field_separator_def nul_free_def)

lemma tags_nul_free: "nul_free ''memory''" "nul_free ''audit''" "nul_free ''policy''" "nul_free ''link''"
  by (simp_all add: nul_free_def)

text \<open>
  Derived ids are version 5 UUIDs and name what they were derived from. For any hash with
  twenty-byte digests, every derived id has the canonical form with the version digit 5 and the
  variant digit 8, 9, a or b. Over fields free of the separator, equal memory ids come from equal
  candidates and content hashes, and equal audit event ids from equal memories, actions and
  discriminators; and a memory id is never an audit event id, a policy evaluation id or a link id:
  in each case, unless the two names in question are different and have one stamped digest.
\<close>

theorem derived_ids_are_distinct_uuids:
  assumes "\<And>x. length (sha1 x) = 20" "list_all nul_free [c, h, c', h', m, a, d, m', a', d']"
  shows "uuid5_shape (derive_memory_id sha1 c h) \<and> uuid5_shape (derive_audit_event_id sha1 m a d)
   \<and> uuid5_shape (derive_candidate_id sha1 w p b)
   \<and> (derive_memory_id sha1 c h = derive_memory_id sha1 c' h' \<longrightarrow>
        c = c' \<and> h = h' \<or> uuid_clash sha1 [''memory'', c, h] [''memory'', c', h'])
   \<and> (derive_audit_event_id sha1 m a d = derive_audit_event_id sha1 m' a' d' \<longrightarrow>
        m = m' \<and> a = a' \<and> d = d' \<or> uuid_clash sha1 [''audit'', m, a, d] [''audit'', m', a', d'])
   \<and> (derive_memory_id sha1 c h \<noteq> derive_audit_event_id sha1 m a d
        \<or> uuid_clash sha1 [''memory'', c, h] [''audit'', m, a, d])
   \<and> (derive_memory_id sha1 c h \<noteq> derive_policy_evaluation_id sha1 m a d
        \<or> uuid_clash sha1 [''memory'', c, h] [''policy'', m, a, d])
   \<and> (derive_memory_id sha1 c h \<noteq> derive_link_id sha1 m a d
        \<or> uuid_clash sha1 [''memory'', c, h] [''link'', m, a, d])"
proof (intro conjI impI)
  have shape: "uuid5_shape (spool_uuid sha1 xs)" for xs
    by (simp add: spool_uuid_bytes uuid5_of_digest assms(1))
  show "uuid5_shape (derive_memory_id sha1 c h)" "uuid5_shape (derive_audit_event_id sha1 m a d)"
    "uuid5_shape (derive_candidate_id sha1 w p b)"
    unfolding derive_memory_id_def derive_audit_event_id_def derive_candidate_id_def by (rule shape)+
  note fields = spool_uuid_fields [OF assms(1)]
  show "c = c' \<and> h = h' \<or> uuid_clash sha1 [''memory'', c, h] [''memory'', c', h']"
    if "derive_memory_id sha1 c h = derive_memory_id sha1 c' h'"
    using fields [OF that [unfolded derive_memory_id_def]] assms(2) tags_nul_free by auto
  show "m = m' \<and> a = a' \<and> d = d' \<or> uuid_clash sha1 [''audit'', m, a, d] [''audit'', m', a', d']"
    if "derive_audit_event_id sha1 m a d = derive_audit_event_id sha1 m' a' d'"
    using fields [OF that [unfolded derive_audit_event_id_def]] assms(2) tags_nul_free by auto
  note tags = spool_uuid_tags [OF assms(1)]
  show "derive_memory_id sha1 c h \<noteq> derive_audit_event_id sha1 m a d
        \<or> uuid_clash sha1 [''memory'', c, h] [''audit'', m, a, d]"
    "derive_memory_id sha1 c h \<noteq> derive_policy_evaluation_id sha1 m a d
        \<or> uuid_clash sha1 [''memory'', c, h] [''policy'', m, a, d]"
    "derive_memory_id sha1 c h \<noteq> derive_link_id sha1 m a d
        \<or> uuid_clash sha1 [''memory'', c, h] [''link'', m, a, d]"
    unfolding derive_memory_id_def derive_audit_event_id_def derive_policy_evaluation_id_def
      derive_link_id_def by (intro tags tags_nul_free; simp)+
qed

text \<open>A digest of twenty bytes, for the concrete instance.\<close>

theorem derived_ids_are_distinct_uuids_witness:
  "uuid5_shape (derive_memory_id (\<lambda>_. replicate 20 7) ''c1'' ''h1'')"
  using derived_ids_are_distinct_uuids [of "\<lambda>_. replicate 20 7" "''c1''" "''h1''" "''c1''" "''h1''"
      "''m1''" "''promoted''" "[]" "''m1''" "''promoted''" "[]"] by (simp add: nul_free_def)

end
