(* ===== verification/Record_Codec.thy ===== *)
theory Record_Codec
  imports Audit_Repo
begin

text \<open>
  How the store writes records into columns and reads them back: the JSON columns of
  \<open>repositories/memory-repository.ts\<close> and \<open>repositories/candidate-repository.ts\<close>, the
  schema parses of \<open>packages/schema\<close> as total functions, and the round trip of each. A zod
  parse trims the strings it declares as trimmed and otherwise checks; a record is well formed
  when its parse gives it back.
\<close>

section \<open>JSON records\<close>

text \<open>\<open>JSON.stringify\<close> drops the members whose value is \<open>undefined\<close>.\<close>

fun defined_members :: "(string \<times> jval option) list \<Rightarrow> (string \<times> jval) list" where
  "defined_members [] = []"
| "defined_members ((k, None) # kvs) = defined_members kvs"
| "defined_members ((k, Some v) # kvs) = (k, v) # defined_members kvs"

definition json_record :: "(string \<times> jval option) list \<Rightarrow> jval" where
  "json_record kvs = JObj (defined_members kvs)"

lemma set_defined_members: "(k, v) \<in> set (defined_members kvs) \<longleftrightarrow> (k, Some v) \<in> set kvs"
  by (induction kvs rule: defined_members.induct) auto

lemma defined_keys: "k \<notin> set (map fst kvs) \<Longrightarrow> k \<notin> set (map fst (defined_members kvs))"
  by (induction kvs rule: defined_members.induct) auto

lemma distinct_defined_members: "distinct (map fst kvs) \<Longrightarrow> distinct (map fst (defined_members kvs))"
  by (induction kvs rule: defined_members.induct) (simp_all add: defined_keys del: set_map)

lemma map_of_defined_members:
  "distinct (map fst kvs) \<Longrightarrow>
    map_of (defined_members kvs) k = (case map_of kvs k of None \<Rightarrow> None | Some v \<Rightarrow> v)"
proof (induction kvs rule: defined_members.induct)
  case (2 k' kvs)
  then have "map_of kvs k' = None" by (simp add: map_of_eq_None_iff)
  with 2 show ?case by auto
qed auto

lemma jget_json_record [simp]:
  "distinct (map fst kvs) \<Longrightarrow> jget (json_record kvs) k = (case map_of kvs k of None \<Rightarrow> None | Some v \<Rightarrow> v)"
  by (simp add: json_record_def map_of_defined_members)

lemma json_record_plain:
  assumes "distinct (map fst kvs)" "list_all (\<lambda>kv. pred_option json_plain (snd kv)) kvs"
  shows "json_plain (json_record kvs)"
proof -
  have "json_plain v" if "(k, v) \<in> set (defined_members kvs)" for k v
    using that assms(2) by (fastforce simp: set_defined_members list_all_iff)
  then show ?thesis using assms(1) by (auto simp: json_record_def distinct_defined_members)
qed

lemma plain_members [simp]:
  "pred_option json_plain (map_option f v)" if "\<And>x. json_plain (f x)"
  using that by (cases v) simp_all

section \<open>Readers of JSON values\<close>

fun read_string :: "jval \<Rightarrow> string option" where
  "read_string (JStr s) = Some s"
| "read_string _ = None"

fun read_bool :: "jval \<Rightarrow> bool option" where
  "read_bool (JBool b) = Some b"
| "read_bool _ = None"

fun read_members :: "(jval \<Rightarrow> 'a option) \<Rightarrow> jval list \<Rightarrow> 'a list option" where
  "read_members p [] = Some []"
| "read_members p (v # vs) =
     Option.bind (p v) (\<lambda>x. Option.bind (read_members p vs) (\<lambda>xs. Some (x # xs)))"

fun read_array :: "(jval \<Rightarrow> 'a option) \<Rightarrow> jval \<Rightarrow> 'a list option" where
  "read_array p (JArr vs) = read_members p vs"
| "read_array _ _ = None"

definition read_vocab :: "'a list \<Rightarrow> ('a \<Rightarrow> string) \<Rightarrow> jval \<Rightarrow> 'a option" where
  "read_vocab options name v = Option.bind (read_string v) (parse_enum options name)"

definition is_object :: "jval \<Rightarrow> bool" where
  "is_object v = (case v of JObj _ \<Rightarrow> True | _ \<Rightarrow> False)"

text \<open>A required member, an optional one, and one with a default.\<close>

definition member_of :: "(jval \<Rightarrow> 'a option) \<Rightarrow> jval \<Rightarrow> string \<Rightarrow> 'a option" where
  "member_of p o' k = Option.bind (jget o' k) p"

definition optional_member :: "(jval \<Rightarrow> 'a option) \<Rightarrow> jval \<Rightarrow> string \<Rightarrow> 'a option option" where
  "optional_member p o' k = (case jget o' k of None \<Rightarrow> Some None | Some v \<Rightarrow> map_option Some (p v))"

definition default_member :: "(jval \<Rightarrow> 'a option) \<Rightarrow> 'a \<Rightarrow> jval \<Rightarrow> string \<Rightarrow> 'a option" where
  "default_member p d o' k = (case jget o' k of None \<Rightarrow> Some d | Some v \<Rightarrow> p v)"

lemma read_members_map [simp]: "(\<And>x. x \<in> set xs \<Longrightarrow> p (f x) = Some x) \<Longrightarrow> read_members p (map f xs) = Some xs"
  by (induction xs) auto

lemma is_object_record [simp]: "is_object (json_record kvs)"
  by (simp add: is_object_def json_record_def)

lemma optional_member_map:
  "jget o' k = map_option f v \<Longrightarrow> (\<And>x. v = Some x \<Longrightarrow> p (f x) = Some x) \<Longrightarrow> optional_member p o' k = Some v"
  by (cases v) (simp_all add: optional_member_def)

section \<open>Content metadata\<close>

definition metadata_json :: "content_metadata \<Rightarrow> jval" where
  "metadata_json m = json_record
     [(''filePaths'', Some (JArr (map JStr (file_paths m)))),
      (''language'', map_option JStr (language m)),
      (''projectContext'', map_option JStr (project_context m)),
      (''sessionId'', map_option JStr (session_id m)),
      (''repoUrl'', map_option JStr (repo_url m)),
      (''branch'', map_option JStr (branch m)),
      (''confidence'', map_option (\<lambda>c. JStr (confidence_name c)) (md_confidence m)),
      (''sensitivity'', map_option (\<lambda>s. JStr (sensitivity_name s)) (md_sensitivity m)),
      (''tags'', Some (JArr (map JStr (tags m)))),
      (''subjects'', map_option (\<lambda>ss. JArr (map JStr ss)) (subjects m)),
      (''proposedByRole'', map_option JStr (proposed_by_role m)),
      (''audience'', map_option JStr (audience m))]"

text \<open>The checks of \<open>ContentMetadata\<close> beyond the types.\<close>

definition metadata_check :: "content_metadata \<Rightarrow> bool" where
  "metadata_check m =
     (list_all tag_shape (tags m)
      \<and> (case subjects m of None \<Rightarrow> True | Some ss \<Rightarrow> list_all subject_shape ss \<and> length ss \<le> 8)
      \<and> (case proposed_by_role m of None \<Rightarrow> True | Some r \<Rightarrow> r \<in> set [''admin'', ''member''])
      \<and> (case audience m of None \<Rightarrow> True | Some a \<Rightarrow> parse_enum audience_options audience_name a \<noteq> None))"

definition read_metadata :: "jval \<Rightarrow> content_metadata option" where
  "read_metadata v =
     (if \<not> is_object v then None
      else
        Option.bind (default_member (read_array read_string) [] v ''filePaths'') (\<lambda>fp.
        Option.bind (optional_member read_string v ''language'') (\<lambda>la.
        Option.bind (optional_member read_string v ''projectContext'') (\<lambda>pc.
        Option.bind (optional_member read_string v ''sessionId'') (\<lambda>si.
        Option.bind (optional_member read_string v ''repoUrl'') (\<lambda>ru.
        Option.bind (optional_member read_string v ''branch'') (\<lambda>br.
        Option.bind (optional_member (read_vocab confidence_options confidence_name) v ''confidence'') (\<lambda>co.
        Option.bind (optional_member (read_vocab sensitivity_options sensitivity_name) v ''sensitivity'') (\<lambda>se.
        Option.bind (default_member (read_array read_string) [] v ''tags'') (\<lambda>tg.
        Option.bind (optional_member (read_array read_string) v ''subjects'') (\<lambda>sb.
        Option.bind (optional_member read_string v ''proposedByRole'') (\<lambda>pr.
        Option.bind (optional_member read_string v ''audience'') (\<lambda>au.
          let m = \<lparr>file_paths = fp, language = la, project_context = pc, session_id = si, repo_url = ru,
                   branch = br, md_confidence = co, md_sensitivity = se, tags = tg, subjects = sb,
                   proposed_by_role = pr, audience = au\<rparr>
          in if metadata_check m then Some m else None)))))))))))))"

lemma metadata_plain [simp]: "json_plain (metadata_json m)"
  unfolding metadata_json_def by (rule json_record_plain) simp_all

lemma read_metadata_written: "read_metadata (metadata_json m) = (if metadata_check m then Some m else None)"
proof -
  let ?v = "metadata_json m"
  have strings: "read_array read_string (JArr (map JStr ss)) = Some ss" for ss by simp
  have "default_member (read_array read_string) [] ?v ''filePaths'' = Some (file_paths m)"
    "default_member (read_array read_string) [] ?v ''tags'' = Some (tags m)"
    by (simp_all add: default_member_def metadata_json_def)
  moreover have "optional_member read_string ?v ''language'' = Some (language m)"
    "optional_member read_string ?v ''projectContext'' = Some (project_context m)"
    "optional_member read_string ?v ''sessionId'' = Some (session_id m)"
    "optional_member read_string ?v ''repoUrl'' = Some (repo_url m)"
    "optional_member read_string ?v ''branch'' = Some (branch m)"
    "optional_member read_string ?v ''proposedByRole'' = Some (proposed_by_role m)"
    "optional_member read_string ?v ''audience'' = Some (audience m)"
    by (rule optional_member_map [of _ _ JStr]; simp add: metadata_json_def)+
  moreover have "optional_member (read_array read_string) ?v ''subjects'' = Some (subjects m)"
    by (rule optional_member_map [of _ _ "\<lambda>ss. JArr (map JStr ss)"]; simp add: metadata_json_def)
  moreover have "optional_member (read_vocab confidence_options confidence_name) ?v ''confidence'' = Some (md_confidence m)"
    by (rule optional_member_map [of _ _ "\<lambda>c. JStr (confidence_name c)"])
      (simp_all add: metadata_json_def read_vocab_def confidence_vocab.parse_name)
  moreover have "optional_member (read_vocab sensitivity_options sensitivity_name) ?v ''sensitivity'' = Some (md_sensitivity m)"
    by (rule optional_member_map [of _ _ "\<lambda>c. JStr (sensitivity_name c)"])
      (simp_all add: metadata_json_def read_vocab_def sensitivity_vocab.parse_name)
  moreover have "is_object ?v" by (simp add: metadata_json_def)
  ultimately show ?thesis by (cases m) (simp add: read_metadata_def Let_def)
qed

lemma read_metadata_json: "metadata_check m \<Longrightarrow> read_metadata (metadata_json m) = Some m"
  by (simp add: read_metadata_written)

section \<open>Schema parses\<close>

text \<open>\<open>Author\<close>: both strings trimmed and not empty.\<close>

definition schema_author :: "author \<Rightarrow> author option" where
  "schema_author a =
     Option.bind (non_empty_string (author_id a)) (\<lambda>i.
       case author_name a of
         None \<Rightarrow> Some (a\<lparr>author_id := i\<rparr>)
       | Some n \<Rightarrow> map_option (\<lambda>n'. a\<lparr>author_id := i, author_name := Some n'\<rparr>) (non_empty_string n))"

definition schema_evaluation :: "formats \<Rightarrow> policy_evaluation \<Rightarrow> policy_evaluation option" where
  "schema_evaluation fmt e =
     (if fmt_uuid fmt (pe_policy_id e) \<and> fmt_datetime fmt (pe_evaluated_at e)
      then map_option (\<lambda>r. e\<lparr>pe_rule_id := r\<rparr>) (non_empty_string (pe_rule_id e)) else None)"

text \<open>\<open>SupersessionLink\<close>.\<close>

definition schema_supersession :: "formats \<Rightarrow> supersession_link \<Rightarrow> supersession_link option" where
  "schema_supersession fmt l =
     (if fmt_uuid fmt (superseded_by l) \<and> fmt_datetime fmt (linked_at l)
      then map_option (\<lambda>r. l\<lparr>link_reason := r\<rparr>) (non_empty_string (link_reason l)) else None)"

fun schema_list :: "('a \<Rightarrow> 'a option) \<Rightarrow> 'a list \<Rightarrow> 'a list option" where
  "schema_list p [] = Some []"
| "schema_list p (x # xs) = Option.bind (p x) (\<lambda>y. Option.bind (schema_list p xs) (\<lambda>ys. Some (y # ys)))"

definition schema_optional :: "('a \<Rightarrow> 'a option) \<Rightarrow> 'a option \<Rightarrow> 'a option option" where
  "schema_optional p v = (case v of None \<Rightarrow> Some None | Some x \<Rightarrow> map_option Some (p x))"

text \<open>\<open>CuratedMemory.parse\<close>.\<close>

definition schema_memory :: "formats \<Rightarrow> curated_memory \<Rightarrow> curated_memory option" where
  "schema_memory fmt m =
     Option.bind (non_empty_string (mem_content m)) (\<lambda>content.
     Option.bind (non_empty_string (mem_title m)) (\<lambda>title.
     Option.bind (schema_author (mem_author m)) (\<lambda>author.
     Option.bind (non_empty_string (mem_tenant m)) (\<lambda>tenant.
     Option.bind (schema_list (schema_evaluation fmt) (mem_evaluations m)) (\<lambda>evals.
     Option.bind (schema_optional (schema_supersession fmt) (mem_supersession m)) (\<lambda>sup.
     Option.bind (schema_author (promoted_by m)) (\<lambda>by'.
       if fmt_uuid fmt (mem_id m) \<and> fmt_uuid fmt (mem_candidate_id m) \<and> sha256_shape (mem_content_hash m)
          \<and> metadata_check (mem_metadata m) \<and> fmt_datetime fmt (promoted_at m)
          \<and> fmt_datetime fmt (updated_at m) \<and> 0 < mem_version m \<and> memory_refinement m
       then Some (m\<lparr>mem_content := content, mem_title := title, mem_author := author,
                    mem_tenant := tenant, mem_evaluations := evals, mem_supersession := sup,
                    promoted_by := by'\<rparr>)
       else None)))))))"

text \<open>\<open>MemoryCandidate.parse\<close>.\<close>

definition schema_candidate :: "formats \<Rightarrow> memory_candidate \<Rightarrow> memory_candidate option" where
  "schema_candidate fmt c =
     Option.bind (non_empty_string (cand_content c)) (\<lambda>content.
     Option.bind (non_empty_string (cand_title c)) (\<lambda>title.
     Option.bind (schema_author (cand_author c)) (\<lambda>author.
     Option.bind (non_empty_string (cand_tenant c)) (\<lambda>tenant.
       if fmt_uuid fmt (cand_id c) \<and> metadata_check (cand_metadata c) \<and> fmt_datetime fmt (captured_at c)
          \<and> (case cand_origin c of None \<Rightarrow> True | Some og \<Rightarrow> origin_shape og \<and> fmt_datetime fmt (minted_at og))
          \<and> candidate_refinement c
       then Some (c\<lparr>cand_content := content, cand_title := title, cand_author := author,
                    cand_tenant := tenant\<rparr>)
       else None))))"

text \<open>\<open>AuditEvent.parse\<close>.\<close>

definition schema_event :: "formats \<Rightarrow> audit_event \<Rightarrow> audit_event option" where
  "schema_event fmt e =
     Option.bind (non_empty_string (ev_tenant_id e)) (\<lambda>tenant.
     Option.bind (schema_author (ev_actor e)) (\<lambda>actor.
     Option.bind (schema_optional non_empty_string (ev_reason e)) (\<lambda>reason.
       if fmt_uuid fmt (ev_id e) \<and> fmt_uuid fmt (ev_memory_id e) \<and> fmt_datetime fmt (ev_timestamp e)
       then Some (e\<lparr>ev_tenant_id := tenant, ev_actor := actor, ev_reason := reason\<rparr>)
       else None)))"

lemma js_trim_idem [simp]: "js_trim (js_trim s) = js_trim s"
proof -
  have fix1: "dropWhile p (rev (dropWhile p (rev (dropWhile p xs)))) = rev (dropWhile p (rev (dropWhile p xs)))"
    for p and xs :: string
  proof (cases "dropWhile p xs")
    case (Cons y ys)
    then have y: "\<not> p y" using hd_dropWhile [of p xs] by simp
    have "rev (dropWhile p (rev (y # ys))) = y # rev (dropWhile p (rev ys))"
      using y by (cases "\<forall>z \<in> set ys. p z") (auto simp: dropWhile_append dropWhile_append3)
    then show ?thesis using y by (simp add: Cons)
  next
    case Nil
    show ?thesis unfolding Nil by simp
  qed
  show ?thesis unfolding js_trim_def fix1 by (simp only: rev_rev_ident dropWhile_idem)
qed

lemma non_empty_idem: "non_empty_string s = Some t \<Longrightarrow> non_empty_string t = Some t"
  by (auto simp: non_empty_string_def Let_def split: if_splits)

lemma schema_supersession_idem: "schema_supersession fmt l = Some l' \<Longrightarrow> schema_supersession fmt l' = Some l'"
  by (auto simp: schema_supersession_def split: if_splits dest: non_empty_idem)

lemma schema_supersession_fields:
  "schema_supersession fmt l = Some l' \<Longrightarrow> superseded_by l' = superseded_by l \<and> linked_at l' = linked_at l
     \<and> fmt_datetime fmt (linked_at l)"
  by (auto simp: schema_supersession_def split: if_splits)

end
