(* ===== verification/Store_Rows.thy ===== *)
theory Store_Rows
  imports Record_Codec
begin

text \<open>
  The rows of \<open>curated_memories\<close> and \<open>candidates\<close>: the columns an insert or update binds, and
  \<open>rowToMemory\<close> and \<open>rowToCandidate\<close> with their error branches. A well-formed record read
  back from the row it was written to is the record itself.
\<close>

section \<open>Structured columns\<close>

fun outcome_name :: "rule_outcome \<Rightarrow> string" where
  "outcome_name Pass = ''pass''"
| "outcome_name Fail = ''fail''"
| "outcome_name Flag = ''flag''"

definition outcome_options :: "rule_outcome list" where
  "outcome_options = [Pass, Fail, Flag]"

interpretation outcome_vocab: closed_vocabulary outcome_options outcome_name
  by (unfold_locales, case_tac e) (simp_all add: outcome_options_def)

definition evaluation_json :: "policy_evaluation \<Rightarrow> jval" where
  "evaluation_json e = json_record
     [(''policyId'', Some (JStr (pe_policy_id e))), (''ruleId'', Some (JStr (pe_rule_id e))),
      (''result'', Some (JStr (outcome_name (pe_result e)))), (''reason'', map_option JStr (pe_reason e)),
      (''evaluatedAt'', Some (JStr (pe_evaluated_at e)))]"

definition read_evaluation :: "jval \<Rightarrow> policy_evaluation option" where
  "read_evaluation v =
     Option.bind (member_of read_string v ''policyId'') (\<lambda>p.
     Option.bind (member_of read_string v ''ruleId'') (\<lambda>r.
     Option.bind (member_of (read_vocab outcome_options outcome_name) v ''result'') (\<lambda>o'.
     Option.bind (optional_member read_string v ''reason'') (\<lambda>re.
     Option.bind (member_of read_string v ''evaluatedAt'') (\<lambda>at'.
       Some \<lparr>pe_policy_id = p, pe_rule_id = r, pe_result = o', pe_reason = re, pe_evaluated_at = at'\<rparr>)))))"

definition supersession_json :: "supersession_link \<Rightarrow> jval" where
  "supersession_json l = json_record
     [(''supersededBy'', Some (JStr (superseded_by l))), (''reason'', Some (JStr (link_reason l))),
      (''linkedAt'', Some (JStr (linked_at l)))]"

definition read_supersession :: "jval \<Rightarrow> supersession_link option" where
  "read_supersession v =
     Option.bind (member_of read_string v ''supersededBy'') (\<lambda>b.
     Option.bind (member_of read_string v ''reason'') (\<lambda>r.
     Option.bind (member_of read_string v ''linkedAt'') (\<lambda>t.
       Some \<lparr>superseded_by = b, link_reason = r, linked_at = t\<rparr>)))"

definition flags_json :: "pre_policy_flags \<Rightarrow> jval" where
  "flags_json f = json_record
     [(''potentialSecret'', Some (JBool (potential_secret f))), (''lowConfidence'', Some (JBool (low_confidence f))),
      (''duplicateSuspect'', Some (JBool (duplicate_suspect f)))]"

definition read_flags :: "jval \<Rightarrow> pre_policy_flags option" where
  "read_flags v =
     (if \<not> is_object v then None
      else
        Option.bind (default_member read_bool False v ''potentialSecret'') (\<lambda>p.
        Option.bind (default_member read_bool False v ''lowConfidence'') (\<lambda>l.
        Option.bind (default_member read_bool False v ''duplicateSuspect'') (\<lambda>d.
          Some \<lparr>potential_secret = p, low_confidence = l, duplicate_suspect = d\<rparr>))))"

definition origin_json :: "candidate_origin \<Rightarrow> jval" where
  "origin_json og = json_record
     [(''tokenHmac'', Some (JStr (token_hmac og))), (''channel'', Some (JStr (channel og))),
      (''mintedAt'', Some (JStr (minted_at og)))]"

definition read_origin :: "jval \<Rightarrow> candidate_origin option" where
  "read_origin v =
     Option.bind (member_of read_string v ''tokenHmac'') (\<lambda>t.
     Option.bind (member_of read_string v ''channel'') (\<lambda>c.
     Option.bind (member_of read_string v ''mintedAt'') (\<lambda>m.
       Some \<lparr>token_hmac = t, channel = c, minted_at = m\<rparr>)))"

lemma structured_plain [simp]:
  "json_plain (evaluation_json e)" "json_plain (supersession_json l)" "json_plain (flags_json f)"
  "json_plain (origin_json og)"
  unfolding evaluation_json_def supersession_json_def flags_json_def origin_json_def
  by (rule json_record_plain; simp)+

lemma read_evaluation_json [simp]: "read_evaluation (evaluation_json e) = Some e"
proof -
  have "optional_member read_string (evaluation_json e) ''reason'' = Some (pe_reason e)"
    by (rule optional_member_map [of _ _ JStr]) (simp_all add: evaluation_json_def)
  then show ?thesis
    by (cases e) (simp add: read_evaluation_def member_of_def read_vocab_def outcome_vocab.parse_name,
        simp add: evaluation_json_def outcome_vocab.parse_name)
qed

lemma read_structured_json [simp]:
  "read_supersession (supersession_json l) = Some l"
  "read_flags (flags_json f) = Some f"
  "read_origin (origin_json og) = Some og"
  by (cases l, simp add: read_supersession_def supersession_json_def member_of_def)
    (cases f, simp add: read_flags_def flags_json_def default_member_def,
     cases og, simp add: read_origin_def origin_json_def member_of_def)

section \<open>Rows of \<open>curated_memories\<close>\<close>

record memory_row =
  mr_id :: string
  mr_candidate_id :: string
  mr_source :: string
  mr_content :: string
  mr_title :: string
  mr_category :: string
  mr_trust_level :: string
  mr_sensitivity :: string
  mr_author_json :: string
  mr_tenant_id :: string
  mr_metadata_json :: string
  mr_lifecycle :: string
  mr_content_hash :: string
  mr_policy_evaluations_json :: string
  mr_supersession_json :: "string option"
  mr_promoted_at :: string
  mr_promoted_by_json :: string
  mr_updated_at :: string
  mr_version :: int

definition memory_to_row :: "curated_memory \<Rightarrow> memory_row" where
  "memory_to_row m =
     \<lparr>mr_id = mem_id m, mr_candidate_id = mem_candidate_id m, mr_source = source_name (mem_source m),
      mr_content = mem_content m, mr_title = mem_title m, mr_category = category_name (mem_category m),
      mr_trust_level = trust_name (mem_trust m), mr_sensitivity = sensitivity_name (mem_sensitivity m),
      mr_author_json = json_stringify (author_json (mem_author m)), mr_tenant_id = mem_tenant m,
      mr_metadata_json = json_stringify (metadata_json (mem_metadata m)),
      mr_lifecycle = lifecycle_name (mem_lifecycle m), mr_content_hash = mem_content_hash m,
      mr_policy_evaluations_json = json_stringify (JArr (map evaluation_json (mem_evaluations m))),
      mr_supersession_json = map_option (\<lambda>l. json_stringify (supersession_json l)) (mem_supersession m),
      mr_promoted_at = promoted_at m, mr_promoted_by_json = json_stringify (author_json (promoted_by m)),
      mr_updated_at = updated_at m, mr_version = int (mem_version m)\<rparr>"

datatype row_fault =
    Column_not_json string string
  | Row_not_domain string

definition json_column :: "string \<Rightarrow> string \<Rightarrow> string \<Rightarrow> (jval \<Rightarrow> row_fault + 'a) \<Rightarrow> row_fault + 'a" where
  "json_column i col t f = (case json_parse t of None \<Rightarrow> Inl (Column_not_json i col) | Some v \<Rightarrow> f v)"

definition domain_memory ::
  "formats \<Rightarrow> memory_row \<Rightarrow> jval \<Rightarrow> jval \<Rightarrow> jval \<Rightarrow> jval option \<Rightarrow> jval \<Rightarrow> curated_memory option" where
  "domain_memory fmt r au md ev su pb =
     Option.bind (parse_enum source_options source_name (mr_source r)) (\<lambda>source.
     Option.bind (parse_enum category_options category_name (mr_category r)) (\<lambda>category.
     Option.bind (parse_enum trust_options trust_name (mr_trust_level r)) (\<lambda>trust.
     Option.bind (parse_enum sensitivity_options sensitivity_name (mr_sensitivity r)) (\<lambda>sens.
     Option.bind (parse_enum lifecycle_options lifecycle_name (mr_lifecycle r)) (\<lambda>life.
     Option.bind (parse_author au) (\<lambda>author.
     Option.bind (read_metadata md) (\<lambda>meta.
     Option.bind (read_array read_evaluation ev) (\<lambda>evals.
     Option.bind (case su of None \<Rightarrow> Some None | Some v \<Rightarrow> map_option Some (read_supersession v)) (\<lambda>sup.
     Option.bind (parse_author pb) (\<lambda>by'.
       if mr_version r < 1 then None
       else schema_memory fmt
         \<lparr>mem_id = mr_id r, mem_candidate_id = mr_candidate_id r, mem_source = source,
          mem_content = mr_content r, mem_title = mr_title r, mem_category = category,
          mem_trust = trust, mem_sensitivity = sens, mem_author = author, mem_tenant = mr_tenant_id r,
          mem_metadata = meta, mem_lifecycle = life, mem_content_hash = mr_content_hash r,
          mem_evaluations = evals, mem_supersession = sup, promoted_at = mr_promoted_at r,
          promoted_by = by', updated_at = mr_updated_at r, mem_version = nat (mr_version r)\<rparr>))))))))))"

definition row_to_memory :: "formats \<Rightarrow> memory_row \<Rightarrow> row_fault + curated_memory" where
  "row_to_memory fmt r =
     json_column (mr_id r) ''author_json'' (mr_author_json r) (\<lambda>au.
     json_column (mr_id r) ''metadata_json'' (mr_metadata_json r) (\<lambda>md.
     json_column (mr_id r) ''policy_evaluations_json'' (mr_policy_evaluations_json r) (\<lambda>ev.
       let rest = (\<lambda>su. json_column (mr_id r) ''promoted_by_json'' (mr_promoted_by_json r) (\<lambda>pb.
             case domain_memory fmt r au md ev su pb of
               None \<Rightarrow> Inl (Row_not_domain (mr_id r)) | Some m \<Rightarrow> Inr m))
       in (case mr_supersession_json r of
             None \<Rightarrow> rest None
           | Some t \<Rightarrow> json_column (mr_id r) ''supersession_json'' t (\<lambda>su. rest (Some su))))))"

text \<open>A record its own schema gives back unchanged.\<close>

definition memory_wf :: "formats \<Rightarrow> curated_memory \<Rightarrow> bool" where
  "memory_wf fmt m = (schema_memory fmt m = Some m)"

lemma schema_memory_parts:
  assumes "schema_memory fmt m = Some m'"
  shows "metadata_check (mem_metadata m)" "schema_author (mem_author m) = Some (mem_author m')"
    "schema_author (promoted_by m) = Some (promoted_by m')" "0 < mem_version m" "mem_metadata m' = mem_metadata m"
    "mem_id m' = mem_id m" "mem_lifecycle m' = mem_lifecycle m" "mem_version m' = mem_version m"
    "memory_refinement m"
  using assms by (auto simp: schema_memory_def split: Option.bind_splits if_splits)

lemma read_author_json:
  assumes "schema_author a = Some a"
  shows "parse_author (author_json a) = Some a"
proof (rule parse_author_json)
  show "non_empty_string (author_id a) = Some (author_id a)"
    "\<And>n. author_name a = Some n \<Longrightarrow> non_empty_string n = Some n"
    using assms by (cases a; auto simp: schema_author_def split: option.splits Option.bind_splits)+
qed

lemma memory_eta:
  assumes "mem_supersession m = sl"
  shows "\<lparr>mem_id = mem_id m, mem_candidate_id = mem_candidate_id m, mem_source = mem_source m,
     mem_content = mem_content m, mem_title = mem_title m, mem_category = mem_category m,
     mem_trust = mem_trust m, mem_sensitivity = mem_sensitivity m, mem_author = mem_author m,
     mem_tenant = mem_tenant m, mem_metadata = mem_metadata m, mem_lifecycle = mem_lifecycle m,
     mem_content_hash = mem_content_hash m, mem_evaluations = mem_evaluations m, mem_supersession = sl,
     promoted_at = promoted_at m, promoted_by = promoted_by m, updated_at = updated_at m,
     mem_version = mem_version m\<rparr> = m"
  using assms by (cases m) simp

lemma memory_row_cells:
  "mr_id (memory_to_row m) = mem_id m" "mr_tenant_id (memory_to_row m) = mem_tenant m"
  "mr_author_json (memory_to_row m) = json_stringify (author_json (mem_author m))"
  "mr_metadata_json (memory_to_row m) = json_stringify (metadata_json (mem_metadata m))"
  "mr_policy_evaluations_json (memory_to_row m) = json_stringify (JArr (map evaluation_json (mem_evaluations m)))"
  "mr_supersession_json (memory_to_row m) = map_option (\<lambda>l. json_stringify (supersession_json l)) (mem_supersession m)"
  "mr_promoted_by_json (memory_to_row m) = json_stringify (author_json (promoted_by m))"
  "mr_lifecycle (memory_to_row m) = lifecycle_name (mem_lifecycle m)"
  "mr_content_hash (memory_to_row m) = mem_content_hash m"
  "mr_candidate_id (memory_to_row m) = mem_candidate_id m"
  "mr_category (memory_to_row m) = category_name (mem_category m)"
  "mr_updated_at (memory_to_row m) = updated_at m"
  by (simp_all add: memory_to_row_def)

lemma row_round_trip:
  assumes "memory_wf fmt m"
  shows "row_to_memory fmt (memory_to_row m) = Inr m"
proof -
  note parts = schema_memory_parts [OF assms [unfolded memory_wf_def]]
  have columns: "json_parse (json_stringify (author_json a)) = Some (author_json a)"
    "json_parse (json_stringify (metadata_json (mem_metadata m))) = Some (metadata_json (mem_metadata m))"
    "json_parse (json_stringify (JArr (map evaluation_json (mem_evaluations m))))
       = Some (JArr (map evaluation_json (mem_evaluations m)))"
    "json_parse (json_stringify (supersession_json l)) = Some (supersession_json l)" for a l
    by (rule json_parse_stringify; simp)+
  have "domain_memory fmt (memory_to_row m) (author_json (mem_author m)) (metadata_json (mem_metadata m))
      (JArr (map evaluation_json (mem_evaluations m))) (map_option supersession_json (mem_supersession m))
      (author_json (promoted_by m)) = Some m"
    using assms parts(4)
    by (cases "mem_supersession m")
      (simp_all add: memory_eta domain_memory_def memory_to_row_def source_vocab.parse_name category_vocab.parse_name
        trust_vocab.parse_name sensitivity_vocab.parse_name lifecycle_vocab.parse_name
        read_author_json [OF parts(2)] read_author_json [OF parts(3)] read_metadata_json [OF parts(1)] memory_wf_def)
  then show ?thesis
    by (cases "mem_supersession m")
      (simp_all add: row_to_memory_def json_column_def columns Let_def memory_row_cells del: json_stringify.simps)
qed

section \<open>Rows of \<open>candidates\<close>\<close>

record candidate_row =
  kr_id :: string
  kr_status :: string
  kr_source :: string
  kr_content :: string
  kr_title :: string
  kr_category :: string
  kr_trust_level :: string
  kr_author_json :: string
  kr_tenant_id :: string
  kr_metadata_json :: string
  kr_flags_json :: string
  kr_content_hash :: string
  kr_captured_at :: string
  kr_import_batch_id :: "string option"
  kr_origin_json :: "string option"

definition candidate_to_row :: "memory_candidate \<Rightarrow> string \<Rightarrow> string option \<Rightarrow> candidate_row" where
  "candidate_to_row c hash batch =
     \<lparr>kr_id = cand_id c, kr_status = status_name (cand_status c), kr_source = source_name (cand_source c),
      kr_content = cand_content c, kr_title = cand_title c, kr_category = category_name (cand_category c),
      kr_trust_level = trust_name (cand_trust c), kr_author_json = json_stringify (author_json (cand_author c)),
      kr_tenant_id = cand_tenant c, kr_metadata_json = json_stringify (metadata_json (cand_metadata c)),
      kr_flags_json = json_stringify (flags_json (cand_flags c)), kr_content_hash = hash,
      kr_captured_at = captured_at c, kr_import_batch_id = batch,
      kr_origin_json = map_option (\<lambda>og. json_stringify (origin_json og)) (cand_origin c)\<rparr>"

definition domain_candidate ::
  "formats \<Rightarrow> candidate_row \<Rightarrow> jval \<Rightarrow> jval \<Rightarrow> jval \<Rightarrow> jval option \<Rightarrow> memory_candidate option" where
  "domain_candidate fmt r au md fl og =
     Option.bind (parse_enum status_options status_name (kr_status r)) (\<lambda>status.
     Option.bind (parse_enum source_options source_name (kr_source r)) (\<lambda>source.
     Option.bind (parse_enum category_options category_name (kr_category r)) (\<lambda>category.
     Option.bind (parse_enum trust_options trust_name (kr_trust_level r)) (\<lambda>trust.
     Option.bind (parse_author au) (\<lambda>author.
     Option.bind (read_metadata md) (\<lambda>meta.
     Option.bind (read_flags fl) (\<lambda>flags.
     Option.bind (case og of None \<Rightarrow> Some None | Some v \<Rightarrow> map_option Some (read_origin v)) (\<lambda>origin.
       schema_candidate fmt
         \<lparr>cand_id = kr_id r, cand_status = status, cand_source = source, cand_content = kr_content r,
          cand_title = kr_title r, cand_category = category, cand_trust = trust, cand_author = author,
          cand_tenant = kr_tenant_id r, cand_metadata = meta, cand_flags = flags,
          captured_at = kr_captured_at r, cand_origin = origin\<rparr>))))))))"

definition row_to_candidate :: "formats \<Rightarrow> candidate_row \<Rightarrow> row_fault + memory_candidate" where
  "row_to_candidate fmt r =
     json_column (kr_id r) ''author_json'' (kr_author_json r) (\<lambda>au.
     json_column (kr_id r) ''metadata_json'' (kr_metadata_json r) (\<lambda>md.
     json_column (kr_id r) ''pre_policy_flags_json'' (kr_flags_json r) (\<lambda>fl.
       let rest = (\<lambda>og. case domain_candidate fmt r au md fl og of
             None \<Rightarrow> Inl (Row_not_domain (kr_id r)) | Some c \<Rightarrow> Inr c)
       in (case kr_origin_json r of
             None \<Rightarrow> rest None
           | Some t \<Rightarrow> json_column (kr_id r) ''origin_json'' t (\<lambda>og. rest (Some og))))))"

definition candidate_wf :: "formats \<Rightarrow> memory_candidate \<Rightarrow> bool" where
  "candidate_wf fmt c = (schema_candidate fmt c = Some c)"

lemma schema_candidate_parts:
  assumes "schema_candidate fmt c = Some c'"
  shows "metadata_check (cand_metadata c)" "schema_author (cand_author c) = Some (cand_author c')"
    "candidate_refinement c"
  using assms by (auto simp: schema_candidate_def split: Option.bind_splits if_splits)

lemma candidate_eta:
  assumes "cand_origin c = og"
  shows "\<lparr>cand_id = cand_id c, cand_status = cand_status c, cand_source = cand_source c,
     cand_content = cand_content c, cand_title = cand_title c, cand_category = cand_category c,
     cand_trust = cand_trust c, cand_author = cand_author c, cand_tenant = cand_tenant c,
     cand_metadata = cand_metadata c, cand_flags = cand_flags c, captured_at = captured_at c,
     cand_origin = og\<rparr> = c"
  using assms by (cases c) simp

lemma candidate_row_cells:
  "kr_id (candidate_to_row c h b) = cand_id c" "kr_tenant_id (candidate_to_row c h b) = cand_tenant c"
  "kr_author_json (candidate_to_row c h b) = json_stringify (author_json (cand_author c))"
  "kr_metadata_json (candidate_to_row c h b) = json_stringify (metadata_json (cand_metadata c))"
  "kr_flags_json (candidate_to_row c h b) = json_stringify (flags_json (cand_flags c))"
  "kr_origin_json (candidate_to_row c h b) = map_option (\<lambda>og. json_stringify (origin_json og)) (cand_origin c)"
  "kr_status (candidate_to_row c h b) = status_name (cand_status c)"
  "kr_content_hash (candidate_to_row c h b) = h"
  by (simp_all add: candidate_to_row_def)

lemma candidate_round_trip:
  assumes "candidate_wf fmt c"
  shows "row_to_candidate fmt (candidate_to_row c h b) = Inr c"
proof -
  note parts = schema_candidate_parts [OF assms [unfolded candidate_wf_def]]
  have columns: "json_parse (json_stringify (author_json a)) = Some (author_json a)"
    "json_parse (json_stringify (metadata_json md)) = Some (metadata_json md)"
    "json_parse (json_stringify (flags_json fl)) = Some (flags_json fl)"
    "json_parse (json_stringify (origin_json og)) = Some (origin_json og)" for a md fl og
    by (rule json_parse_stringify; simp)+
  have "domain_candidate fmt (candidate_to_row c h b) (author_json (cand_author c)) (metadata_json (cand_metadata c))
      (flags_json (cand_flags c)) (map_option origin_json (cand_origin c)) = Some c"
    using assms
    by (cases "cand_origin c")
      (simp_all add: candidate_eta domain_candidate_def candidate_to_row_def source_vocab.parse_name
        category_vocab.parse_name trust_vocab.parse_name status_vocab.parse_name
        read_author_json [OF parts(2)] read_metadata_json [OF parts(1)] candidate_wf_def)
  then show ?thesis
    by (cases "cand_origin c")
      (simp_all add: row_to_candidate_def json_column_def columns Let_def candidate_row_cells del: json_stringify.simps)
qed

text \<open>
  C38. Rows read back. A memory that its schema accepts unchanged is read back, field by field,
  from the row an insert or update writes for it, and so is a candidate; a row whose author column
  is no JSON text is refused with that column named, whatever the other columns hold.
\<close>

theorem rows_read_back:
  "(memory_wf fmt m \<longrightarrow> row_to_memory fmt (memory_to_row m) = Inr m)
   \<and> (candidate_wf fmt c \<longrightarrow> row_to_candidate fmt (candidate_to_row c h b) = Inr c)
   \<and> (json_parse t = None \<longrightarrow>
        row_to_memory fmt (r\<lparr>mr_author_json := t\<rparr>) = Inl (Column_not_json (mr_id r) ''author_json''))"
  using row_round_trip candidate_round_trip by (auto simp: row_to_memory_def json_column_def)

section \<open>A stored memory and a stored candidate\<close>

definition plain_metadata :: content_metadata where
  "plain_metadata = \<lparr>file_paths = [''src/a.ts''], language = None, project_context = None, session_id = None,
     repo_url = None, branch = None, md_confidence = Some Conf_high, md_sensitivity = None, tags = [''tests''],
     subjects = None, proposed_by_role = Some ''member'', audience = Some ''tenant''\<rparr>"

definition plain_author :: author where
  "plain_author = \<lparr>author_kind = Human, author_id = ''alice'', author_name = None\<rparr>"

definition plain_candidate :: "uuid \<Rightarrow> string \<Rightarrow> memory_candidate" where
  "plain_candidate i text = \<lparr>cand_id = i, cand_status = Inbox, cand_source = Manual, cand_content = text,
     cand_title = ''A title'', cand_category = Decision, cand_trust = Trust_high, cand_author = plain_author,
     cand_tenant = ''team'', cand_metadata = plain_metadata,
     cand_flags = \<lparr>potential_secret = False, low_confidence = False, duplicate_suspect = False\<rparr>,
     captured_at = ''2026-01-01'', cand_origin = None\<rparr>"

definition plain_memory :: "uuid \<Rightarrow> string \<Rightarrow> curated_memory" where
  "plain_memory i text = \<lparr>mem_id = i, mem_candidate_id = ''c1'', mem_source = Manual, mem_content = text,
     mem_title = ''A title'', mem_category = Decision, mem_trust = Trust_high, mem_sensitivity = Internal,
     mem_author = plain_author, mem_tenant = ''team'', mem_metadata = plain_metadata, mem_lifecycle = Active,
     mem_content_hash = replicate 64 CHR ''a'', mem_evaluations = [], mem_supersession = None,
     promoted_at = ''2026-01-01'', promoted_by = plain_author, updated_at = ''2026-01-01'', mem_version = 1\<rparr>"

lemma plain_author_schema: "schema_author plain_author = Some plain_author"
  by (simp add: schema_author_def plain_author_def non_empty_string_def js_trim_def js_space_def Let_def)

lemma plain_metadata_check: "metadata_check plain_metadata"
  by (simp add: metadata_check_def plain_metadata_def audience_options_def parse_enum_def tag_shape_def
      tag_char_def is_lower_def is_digit_def)

lemma plain_memory_wf: "non_empty_string text = Some text \<Longrightarrow> memory_wf any_format (plain_memory i text)"
  by (simp add: memory_wf_def schema_memory_def plain_memory_def plain_author_schema plain_metadata_check any_format_def
      schema_optional_def sha256_shape_def is_lower_hex_def is_digit_def memory_refinement_def list_all_iff)
    (simp add: non_empty_string_def js_trim_def js_space_def Let_def)

lemma plain_candidate_wf: "non_empty_string text = Some text \<Longrightarrow> candidate_wf any_format (plain_candidate i text)"
  by (simp add: candidate_wf_def schema_candidate_def plain_candidate_def plain_author_schema plain_metadata_check
      any_format_def candidate_refinement_def)
    (simp add: non_empty_string_def js_trim_def js_space_def Let_def)

lemma plain_text [simp]: "non_empty_string ''a text'' = Some ''a text''" "non_empty_string ''b text'' = Some ''b text''"
  by (simp_all add: non_empty_string_def js_trim_def js_space_def Let_def)

theorem rows_read_back_witness:
  "row_to_memory any_format (memory_to_row (plain_memory ''m1'' ''a text'')) = Inr (plain_memory ''m1'' ''a text'')
   \<and> row_to_candidate any_format (candidate_to_row (plain_candidate ''c1'' ''a text'') ''h'' None)
       = Inr (plain_candidate ''c1'' ''a text'')
   \<and> row_to_memory any_format (memory_to_row (plain_memory ''m1'' ''a text'')\<lparr>mr_author_json := ''{''\<rparr>)
       = Inl (Column_not_json ''m1'' ''author_json'')"
proof -
  have bad: "json_parse ''{'' = None" by code_simp
  have "mr_id (memory_to_row (plain_memory ''m1'' ''a text'')) = ''m1''"
    by (simp add: memory_row_cells plain_memory_def)
  then show ?thesis
    using rows_read_back [of any_format "plain_memory ''m1'' ''a text''" "plain_candidate ''c1'' ''a text''" "''h''"
        None "''{''" "memory_to_row (plain_memory ''m1'' ''a text'')"] bad plain_memory_wf plain_candidate_wf
    by simp
qed

end
