(* ===== verification/Store_Interface.thy ===== *)
theory Store_Interface
  imports Store_Rows
begin

text \<open>
  What the repositories of \<open>packages/store\<close> share: the exceptions an operation may throw, the
  closed-vocabulary guard of \<open>enum-membership.ts\<close>, the disclosure gate of
  \<open>packages/common/src/disclosure-filter.ts\<close> around its scanner, and the interface of a
  table keyed by id.
\<close>

section \<open>What an operation may throw\<close>

datatype bad_supersession =
    Invalid_metadata
  | Retire_needs_replacement
  | Replacement_is_source
  | Replacement_not_active

datatype fault =
    Row_unreadable row_fault
  | Audit_row_unreadable row_error
  | Audit_refused store_error
  | Key_taken string
  | Off_vocabulary string
  | Disclosure_rejected string
  | Redacted_reingest
  | Illegal_transition lifecycle_state lifecycle_state
  | Bad_supersession bad_supersession
  | Schema_refused string
  | Floor_unreadable
  | Floor_mismatched
  | Floor_changed
  | Floor_not_retained
  | Not_persisted string
  | Bad_date
  | Link_taken
  | Link_dangling string
  | Error_thrown string

section \<open>The closed-vocabulary guard\<close>

text \<open>
  \<open>runEnumChecks\<close>: the field, its vocabulary and the value to check. \<open>scan\<close> is
  \<open>scanForDisclosure\<close>, from a text to the category of the violation.
\<close>

fun run_enum_checks ::
  "(string \<Rightarrow> string option) \<Rightarrow> (string \<times> (string \<Rightarrow> bool) \<times> string option) list \<Rightarrow> fault + unit" where
  "run_enum_checks scan [] = Inr ()"
| "run_enum_checks scan ((field, valid, value) # checks) =
     (case value of
        None \<Rightarrow> run_enum_checks scan checks
      | Some v \<Rightarrow>
          if valid v then run_enum_checks scan checks
          else (case scan v of
                  Some category \<Rightarrow> Inl (Disclosure_rejected category)
                | None \<Rightarrow> Inl (Off_vocabulary field)))"

definition in_vocab :: "'a list \<Rightarrow> ('a \<Rightarrow> string) \<Rightarrow> string \<Rightarrow> bool" where
  "in_vocab options name s = (parse_enum options name s \<noteq> None)"

definition assert_memory_enum_membership :: "(string \<Rightarrow> string option) \<Rightarrow> curated_memory \<Rightarrow> fault + unit" where
  "assert_memory_enum_membership scan m = run_enum_checks scan
     [(''source'', in_vocab source_options source_name, Some (source_name (mem_source m))),
      (''category'', in_vocab category_options category_name, Some (category_name (mem_category m))),
      (''trustLevel'', in_vocab trust_options trust_name, Some (trust_name (mem_trust m))),
      (''sensitivity'', in_vocab sensitivity_options sensitivity_name, Some (sensitivity_name (mem_sensitivity m))),
      (''lifecycle'', in_vocab lifecycle_options lifecycle_name, Some (lifecycle_name (mem_lifecycle m))),
      (''author.type'', in_vocab author_type_options author_type_name, Some (author_type_name (author_kind (mem_author m)))),
      (''metadata.audience'', in_vocab audience_options audience_name, audience (mem_metadata m))]"

definition assert_enum_membership :: "(string \<Rightarrow> string option) \<Rightarrow> memory_candidate \<Rightarrow> fault + unit" where
  "assert_enum_membership scan c = run_enum_checks scan
     [(''status'', in_vocab status_options status_name, Some (status_name (cand_status c))),
      (''source'', in_vocab source_options source_name, Some (source_name (cand_source c))),
      (''category'', in_vocab category_options category_name, Some (category_name (cand_category c))),
      (''trustLevel'', in_vocab trust_options trust_name, Some (trust_name (cand_trust c))),
      (''author.type'', in_vocab author_type_options author_type_name, Some (author_type_name (author_kind (cand_author c)))),
      (''metadata.confidence'', in_vocab confidence_options confidence_name, map_option confidence_name (md_confidence (cand_metadata c))),
      (''metadata.sensitivity'', in_vocab sensitivity_options sensitivity_name, map_option sensitivity_name (md_sensitivity (cand_metadata c))),
      (''metadata.audience'', in_vocab audience_options audience_name, audience (cand_metadata c))]"

section \<open>The disclosure gate\<close>

text \<open>
  \<open>collectFreeTextFields\<close>: every string of the value in the order of the walk, except below
  the keys that name a closed vocabulary, down to the depth limit.
\<close>

definition enum_constrained_fields :: "string list" where
  "enum_constrained_fields =
     [''status'', ''source'', ''category'', ''trustLevel'', ''confidence'', ''sensitivity'', ''type'']"

fun walk_free_text :: "nat \<Rightarrow> jval \<Rightarrow> string list" where
  "walk_free_text depth (JStr s) = (if 16 < depth then [] else [s])"
| "walk_free_text depth (JArr vs) =
     (if 16 < depth then [] else concat (map (walk_free_text (depth + 1)) vs))"
| "walk_free_text depth (JObj kvs) =
     (if 16 < depth then []
      else concat (map (\<lambda>(k, v). if k \<in> set enum_constrained_fields then []
                                 else walk_free_text (depth + 1) v) kvs))"
| "walk_free_text depth _ = []"

definition collect_free_text_fields :: "jval \<Rightarrow> string list" where
  "collect_free_text_fields v = walk_free_text 0 v"

fun scan_disclosure_fields :: "(string \<Rightarrow> string option) \<Rightarrow> string list \<Rightarrow> string option" where
  "scan_disclosure_fields scan [] = None"
| "scan_disclosure_fields scan (s # ss) =
     (case scan s of Some category \<Rightarrow> Some category | None \<Rightarrow> scan_disclosure_fields scan ss)"

text \<open>A candidate as the object the walk reads; an absent property is no property.\<close>

definition candidate_json :: "memory_candidate \<Rightarrow> jval" where
  "candidate_json c =
     JObj ([(''id'', JStr (cand_id c)), (''status'', JStr (status_name (cand_status c))),
            (''source'', JStr (source_name (cand_source c))), (''content'', JStr (cand_content c)),
            (''title'', JStr (cand_title c)), (''category'', JStr (category_name (cand_category c))),
            (''trustLevel'', JStr (trust_name (cand_trust c))), (''author'', author_json (cand_author c)),
            (''tenantId'', JStr (cand_tenant c)), (''metadata'', metadata_json (cand_metadata c)),
            (''prePolicyFlags'', flags_json (cand_flags c)), (''capturedAt'', JStr (captured_at c))]
       @ (case cand_origin c of None \<Rightarrow> [] | Some og \<Rightarrow> [(''origin'', origin_json og)]))"

definition assert_disclosure_clean :: "(string \<Rightarrow> string option) \<Rightarrow> memory_candidate \<Rightarrow> fault + unit" where
  "assert_disclosure_clean scan c =
     (case scan_disclosure_fields scan (collect_free_text_fields (candidate_json c)) of
        Some category \<Rightarrow> Inl (Disclosure_rejected category) | None \<Rightarrow> Inr ())"

lemma scan_fields_None: "scan_disclosure_fields scan ss = None \<longleftrightarrow> (\<forall>s \<in> set ss. scan s = None)"
  by (induction ss) (auto split: option.split)

text \<open>The strings the walk reaches in a candidate, field by field.\<close>

definition opt_text :: "string option \<Rightarrow> string list" where
  "opt_text s = (case s of None \<Rightarrow> [] | Some t \<Rightarrow> [t])"

definition candidate_texts :: "memory_candidate \<Rightarrow> string list" where
  "candidate_texts c =
     (let m = cand_metadata c
      in [cand_id c, cand_content c, cand_title c, author_id (cand_author c)] @ opt_text (author_name (cand_author c))
         @ [cand_tenant c] @ file_paths m @ opt_text (language m) @ opt_text (project_context m)
         @ opt_text (session_id m) @ opt_text (repo_url m) @ opt_text (branch m) @ tags m
         @ (case subjects m of None \<Rightarrow> [] | Some ss \<Rightarrow> ss) @ opt_text (proposed_by_role m) @ opt_text (audience m)
         @ [captured_at c]
         @ (case cand_origin c of None \<Rightarrow> [] | Some og \<Rightarrow> [token_hmac og, channel og, minted_at og]))"

lemma walk_record:
  "walk_free_text d (json_record kvs) =
     (if 16 < d then []
      else concat (map (\<lambda>(k, v). if k \<in> set enum_constrained_fields then []
                                else (case v of None \<Rightarrow> [] | Some x \<Rightarrow> walk_free_text (d + 1) x)) kvs))"
proof -
  have "concat (map (\<lambda>(k, v). if k \<in> set enum_constrained_fields then [] else walk_free_text (d + 1) v) (defined_members kvs))
      = concat (map (\<lambda>(k, v). if k \<in> set enum_constrained_fields then []
                                else (case v of None \<Rightarrow> [] | Some x \<Rightarrow> walk_free_text (d + 1) x)) kvs)"
    by (induction kvs rule: defined_members.induct) auto
  then show ?thesis by (simp add: json_record_def)
qed

lemma walk_texts [simp]:
  "d < 16 \<Longrightarrow> (case s of None \<Rightarrow> [] | Some x \<Rightarrow> (walk_free_text d \<circ> JStr) x) = opt_text s"
  "d < 16 \<Longrightarrow> walk_free_text d (JArr (map JStr ss)) = ss"
  "d < 16 \<Longrightarrow> (case so of None \<Rightarrow> [] | Some x \<Rightarrow> (walk_free_text d \<circ> (\<lambda>ss. JArr (map JStr ss))) x)
     = (case so of None \<Rightarrow> [] | Some ss \<Rightarrow> ss)"
proof -
  show arr: "d < 16 \<Longrightarrow> walk_free_text d (JArr (map JStr ss)) = ss" for ss
    by (induction ss) simp_all
  show "d < 16 \<Longrightarrow> (case s of None \<Rightarrow> [] | Some x \<Rightarrow> (walk_free_text d \<circ> JStr) x) = opt_text s"
    by (cases s) (simp_all add: opt_text_def)
  show "d < 16 \<Longrightarrow> (case so of None \<Rightarrow> [] | Some x \<Rightarrow> (walk_free_text d \<circ> (\<lambda>ss. JArr (map JStr ss))) x)
     = (case so of None \<Rightarrow> [] | Some ss \<Rightarrow> ss)"
    using arr by (cases so) auto
qed

lemma walk_author: "walk_free_text (Suc 0) (author_json a) = author_id a # opt_text (author_name a)"
  by (simp add: author_json_def enum_constrained_fields_def opt_text_def split: option.split)

lemma walk_metadata:
  "walk_free_text (Suc 0) (metadata_json m) =
     file_paths m @ opt_text (language m) @ opt_text (project_context m) @ opt_text (session_id m)
     @ opt_text (repo_url m) @ opt_text (branch m) @ tags m
     @ (case subjects m of None \<Rightarrow> [] | Some ss \<Rightarrow> ss) @ opt_text (proposed_by_role m) @ opt_text (audience m)"
  unfolding metadata_json_def walk_record
  by (simp add: enum_constrained_fields_def del: walk_free_text.simps)

lemma walk_flags: "walk_free_text (Suc 0) (flags_json f) = []"
  unfolding flags_json_def walk_record by (simp add: enum_constrained_fields_def)

lemma walk_origin: "walk_free_text (Suc 0) (origin_json og) = [token_hmac og, channel og, minted_at og]"
  unfolding origin_json_def walk_record by (simp add: enum_constrained_fields_def)

lemma collect_candidate: "collect_free_text_fields (candidate_json c) = candidate_texts c"
  by (simp add: collect_free_text_fields_def candidate_json_def candidate_texts_def enum_constrained_fields_def
      walk_author walk_metadata walk_flags Let_def)
    (cases "cand_origin c"; simp add: walk_origin)

lemma disclosure_clean_iff:
  "assert_disclosure_clean scan c = Inr () \<longleftrightarrow> (\<forall>s \<in> set (candidate_texts c). scan s = None)"
  using scan_fields_None [of scan "candidate_texts c"]
  by (auto simp: assert_disclosure_clean_def collect_candidate split: option.split)

section \<open>A table keyed by id\<close>

lemma find_unique_key: "distinct (map key xs) \<Longrightarrow> x \<in> set xs \<Longrightarrow> find (\<lambda>y. key y = key x) xs = Some x"
  by (induction xs) (auto simp: image_iff)

text \<open>
  The part of a repository its clients rely on: \<open>look\<close> reads by id, \<open>ins\<close> adds a
  well-formed value under its own id, both seen through the map \<open>abs\<close> of a well-formed table.
\<close>

locale keyed_store =
  fixes ok :: "'t \<Rightarrow> bool"
    and abs :: "'t \<Rightarrow> string \<Rightarrow> 'v option"
    and look :: "string \<Rightarrow> 't \<Rightarrow> fault + 'v option"
    and ins :: "'v \<Rightarrow> 't \<Rightarrow> fault + 't"
    and key :: "'v \<Rightarrow> string"
    and wf :: "'v \<Rightarrow> bool"
  assumes look_abs: "ok t \<Longrightarrow> look i t = Inr (abs t i)"
    and ins_fresh: "ok t \<Longrightarrow> wf v \<Longrightarrow> abs t (key v) = None \<Longrightarrow>
      \<exists>t'. ins v t = Inr t' \<and> ok t' \<and> abs t' = (abs t)(key v \<mapsto> v)"
    and ins_taken: "ok t \<Longrightarrow> wf v \<Longrightarrow> abs t (key v) \<noteq> None \<Longrightarrow> ins v t = Inl (Key_taken (key v))"
begin

lemma ins_Inr:
  assumes "ok t" "wf v" "ins v t = Inr t'"
  shows "abs t (key v) = None \<and> ok t' \<and> abs t' = (abs t)(key v \<mapsto> v)"
  using ins_fresh [OF assms(1,2)] ins_taken [OF assms(1,2)] assms(3) by (cases "abs t (key v)") auto

lemma look_after_ins: "ok t \<Longrightarrow> wf v \<Longrightarrow> ins v t = Inr t' \<Longrightarrow> look (key v) t' = Inr (Some v)"
  using ins_Inr look_abs by (metis fun_upd_same)

lemma look_unchanged: "ok t \<Longrightarrow> wf v \<Longrightarrow> ins v t = Inr t' \<Longrightarrow> i \<noteq> key v \<Longrightarrow> look i t' = look i t"
  using ins_Inr look_abs by (metis fun_upd_other)

lemma ins_twice: "ok t \<Longrightarrow> wf v \<Longrightarrow> ins v t = Inr t' \<Longrightarrow> ins v t' = Inl (Key_taken (key v))"
  using ins_Inr ins_taken by (metis fun_upd_same option.distinct(1))

end

end
