(* ===== verification/Memory_Store.thy ===== *)
theory Memory_Store
  imports Store_Interface Lifecycle
begin

text \<open>
  The repository of governed memories, \<open>packages/store/src/repositories/memory-repository.ts\<close>,
  read and written through the rows of \<open>Store_Rows\<close>. The table \<open>curated_memories\<close> is
  the list of its rows in row order. Its abstract view is the map from ids to memories; the
  lemmas show that every operation implements its effect on the map and keeps the table well
  formed, and that supersession links never form a cycle.
\<close>

section \<open>Operations\<close>

type_synonym memory_table = "memory_row list"

definition read_memory :: "formats \<Rightarrow> memory_row \<Rightarrow> fault + curated_memory" where
  "read_memory fmt r = (case row_to_memory fmt r of Inl e \<Rightarrow> Inl (Row_unreadable e) | Inr m \<Rightarrow> Inr m)"

definition memory_insert :: "(string \<Rightarrow> string option) \<Rightarrow> curated_memory \<Rightarrow> memory_table \<Rightarrow> fault + memory_table" where
  "memory_insert scan m t =
     and_then (assert_memory_enum_membership scan m) (\<lambda>_.
       if mem_id m \<in> set (map mr_id t) then Inl (Key_taken (mem_id m))
       else Inr (t @ [memory_to_row m]))"

definition find_memory :: "formats \<Rightarrow> string \<Rightarrow> memory_table \<Rightarrow> fault + curated_memory option" where
  "find_memory fmt i t =
     (case find (\<lambda>r. mr_id r = i) t of
        None \<Rightarrow> Inr None | Some r \<Rightarrow> and_then (read_memory fmt r) (\<lambda>m. Inr (Some m)))"

definition exists_for_candidate :: "string \<Rightarrow> tenant_id \<Rightarrow> memory_table \<Rightarrow> bool" where
  "exists_for_candidate c tn t = list_ex (\<lambda>r. mr_candidate_id r = c \<and> mr_tenant_id r = tn) t"

text \<open>\<open>UPDATE ... WHERE id = @id\<close>.\<close>

definition set_rows :: "string \<Rightarrow> (memory_row \<Rightarrow> memory_row) \<Rightarrow> memory_table \<Rightarrow> memory_table" where
  "set_rows i f t = map (\<lambda>r. if mr_id r = i then f r else r) t"

definition update_lifecycle ::
  "string \<Rightarrow> lifecycle_state \<Rightarrow> iso_datetime \<Rightarrow> memory_table \<Rightarrow> fault + bool \<times> memory_table" where
  "update_lifecycle i l now t =
     (case find (\<lambda>r. mr_id r = i) t of
        None \<Rightarrow> Inr (False, t)
      | Some r \<Rightarrow>
          (case parse_enum lifecycle_options lifecycle_name (mr_lifecycle r) of
             None \<Rightarrow> Inl (Row_unreadable (Row_not_domain i))
           | Some current \<Rightarrow>
               if current \<noteq> l \<and> \<not> is_transition_allowed current l then Inl (Illegal_transition current l)
               else if current \<noteq> l \<and> l = Superseded then Inl (Bad_supersession Retire_needs_replacement)
               else Inr (True, set_rows i (\<lambda>r. r\<lparr>mr_lifecycle := lifecycle_name l, mr_updated_at := now\<rparr>) t)))"

definition supersede ::
  "formats \<Rightarrow> string \<Rightarrow> string \<Rightarrow> string \<Rightarrow> iso_datetime \<Rightarrow> memory_table \<Rightarrow> fault + bool \<times> memory_table" where
  "supersede fmt i by' reason now t =
     (case schema_supersession fmt \<lparr>superseded_by = by', link_reason = reason, linked_at = now\<rparr> of
        None \<Rightarrow> Inl (Bad_supersession Invalid_metadata)
      | Some link \<Rightarrow>
          and_then (find_memory fmt i t) (\<lambda>found.
            case found of
              None \<Rightarrow> Inr (False, t)
            | Some m \<Rightarrow>
                if \<not> is_transition_allowed (mem_lifecycle m) Superseded
                then Inl (Illegal_transition (mem_lifecycle m) Superseded)
                else if js_lower i = js_lower by' then Inl (Bad_supersession Replacement_is_source)
                else and_then (find_memory fmt by' t) (\<lambda>repl.
                  case repl of
                    None \<Rightarrow> Inl (Bad_supersession Replacement_not_active)
                  | Some r \<Rightarrow>
                      if mem_tenant r \<noteq> mem_tenant m \<or> mem_lifecycle r \<noteq> Active
                      then Inl (Bad_supersession Replacement_not_active)
                      else Inr (True, set_rows i (\<lambda>row. row\<lparr>mr_lifecycle := lifecycle_name Superseded,
                             mr_supersession_json := Some (json_stringify (supersession_json link)),
                             mr_updated_at := now\<rparr>) t))))"

definition memory_update ::
  "(string \<Rightarrow> string option) \<Rightarrow> curated_memory \<Rightarrow> memory_table \<Rightarrow> fault + bool \<times> memory_table" where
  "memory_update scan m t =
     and_then (assert_memory_enum_membership scan m) (\<lambda>_.
       Inr (mem_id m \<in> set (map mr_id t), set_rows (mem_id m) (\<lambda>_. memory_to_row m) t))"

section \<open>Reads\<close>

definition memories_where :: "formats \<Rightarrow> (memory_row \<Rightarrow> bool) \<Rightarrow> memory_table \<Rightarrow> fault + curated_memory list" where
  "memories_where fmt P t = map_result (read_memory fmt) (filter P t)"

definition first_memory_where :: "formats \<Rightarrow> (memory_row \<Rightarrow> bool) \<Rightarrow> memory_table \<Rightarrow> fault + curated_memory option" where
  "first_memory_where fmt P t =
     (case find P t of None \<Rightarrow> Inr None | Some r \<Rightarrow> and_then (read_memory fmt r) (\<lambda>m. Inr (Some m)))"

definition find_memories_by_tenant :: "formats \<Rightarrow> tenant_id \<Rightarrow> memory_table \<Rightarrow> fault + curated_memory list" where
  "find_memories_by_tenant fmt tn = memories_where fmt (\<lambda>r. mr_tenant_id r = tn)"

definition find_by_content_hash :: "formats \<Rightarrow> string \<Rightarrow> memory_table \<Rightarrow> fault + curated_memory option" where
  "find_by_content_hash fmt h = first_memory_where fmt (\<lambda>r. mr_content_hash r = h)"

definition find_by_content_hash_and_tenant ::
  "formats \<Rightarrow> string \<Rightarrow> tenant_id \<Rightarrow> memory_table \<Rightarrow> fault + curated_memory option" where
  "find_by_content_hash_and_tenant fmt h tn =
     first_memory_where fmt (\<lambda>r. mr_content_hash r = h \<and> mr_tenant_id r = tn)"

definition find_by_lifecycle :: "formats \<Rightarrow> lifecycle_state \<Rightarrow> memory_table \<Rightarrow> fault + curated_memory list" where
  "find_by_lifecycle fmt l = memories_where fmt (\<lambda>r. mr_lifecycle r = lifecycle_name l)"

definition find_by_tenant_and_lifecycle ::
  "formats \<Rightarrow> tenant_id \<Rightarrow> lifecycle_state \<Rightarrow> memory_table \<Rightarrow> fault + curated_memory list" where
  "find_by_tenant_and_lifecycle fmt tn l =
     memories_where fmt (\<lambda>r. mr_tenant_id r = tn \<and> mr_lifecycle r = lifecycle_name l)"

definition find_by_tenant_and_lifecycle_and_category ::
  "formats \<Rightarrow> tenant_id \<Rightarrow> lifecycle_state \<Rightarrow> memory_category \<Rightarrow> memory_table \<Rightarrow> fault + curated_memory list" where
  "find_by_tenant_and_lifecycle_and_category fmt tn l c =
     memories_where fmt (\<lambda>r. mr_tenant_id r = tn \<and> mr_lifecycle r = lifecycle_name l \<and> mr_category r = category_name c)"

definition find_stale :: "formats \<Rightarrow> iso_datetime \<Rightarrow> memory_table \<Rightarrow> fault + curated_memory list" where
  "find_stale fmt older_than =
     memories_where fmt (\<lambda>r. mr_lifecycle r = ''active'' \<and> mr_updated_at r < older_than)"

text \<open>\<open>deserializeRowsResilient\<close>: the readable memories and the failures, each in row order.\<close>

fun deserialize_rows_resilient ::
  "formats \<Rightarrow> memory_row list \<Rightarrow> curated_memory list \<times> (string \<times> row_fault) list" where
  "deserialize_rows_resilient fmt [] = ([], [])"
| "deserialize_rows_resilient fmt (r # rs) =
     (let (ms, fs) = deserialize_rows_resilient fmt rs
      in case row_to_memory fmt r of Inr m \<Rightarrow> (m # ms, fs) | Inl e \<Rightarrow> (ms, (mr_id r, e) # fs))"

definition find_by_lifecycle_resilient ::
  "formats \<Rightarrow> lifecycle_state \<Rightarrow> memory_table \<Rightarrow> curated_memory list \<times> (string \<times> row_fault) list" where
  "find_by_lifecycle_resilient fmt l t =
     deserialize_rows_resilient fmt (filter (\<lambda>r. mr_lifecycle r = lifecycle_name l) t)"

definition find_by_tenant_resilient ::
  "formats \<Rightarrow> tenant_id \<Rightarrow> memory_table \<Rightarrow> curated_memory list \<times> (string \<times> row_fault) list" where
  "find_by_tenant_resilient fmt tn t = deserialize_rows_resilient fmt (filter (\<lambda>r. mr_tenant_id r = tn) t)"

definition get_content_hashes_by_tenant :: "tenant_id \<Rightarrow> memory_table \<Rightarrow> string list" where
  "get_content_hashes_by_tenant tn t = map mr_content_hash (filter (\<lambda>r. mr_tenant_id r = tn) t)"

definition get_all_content_hashes :: "memory_table \<Rightarrow> string list" where
  "get_all_content_hashes t = map mr_content_hash t"

text \<open>\<open>SELECT k, COUNT(*) ... GROUP BY k\<close>.\<close>

definition count_by :: "(memory_row \<Rightarrow> string) \<Rightarrow> memory_table \<Rightarrow> (string \<times> nat) list" where
  "count_by k t = map (\<lambda>v. (v, length (filter (\<lambda>r. k r = v) t))) (sort (remdups (map k t)))"

definition count_by_lifecycle :: "memory_table \<Rightarrow> (string \<times> nat) list" where
  "count_by_lifecycle t = count_by mr_lifecycle t"

definition count_by_category :: "memory_table \<Rightarrow> (string \<times> nat) list" where
  "count_by_category t = count_by mr_category t"

definition count_by_tenant :: "memory_table \<Rightarrow> (string \<times> nat) list" where
  "count_by_tenant t = count_by mr_tenant_id t"

section \<open>The table as a map\<close>

text \<open>The table that holds the memories \<open>ms\<close>, and the map it implements.\<close>

definition rows_hold :: "formats \<Rightarrow> curated_memory list \<Rightarrow> memory_table \<Rightarrow> bool" where
  "rows_hold fmt ms t =
     (t = map memory_to_row ms \<and> distinct (map mem_id ms) \<and> (\<forall>m \<in> set ms. memory_wf fmt m))"

definition table_ok :: "formats \<Rightarrow> memory_table \<Rightarrow> bool" where
  "table_ok fmt t = (\<exists>ms. rows_hold fmt ms t)"

definition contents :: "formats \<Rightarrow> memory_table \<Rightarrow> curated_memory list" where
  "contents fmt t = fst (deserialize_rows_resilient fmt t)"

type_synonym memory_map = "string \<Rightarrow> curated_memory option"

definition view :: "formats \<Rightarrow> memory_table \<Rightarrow> memory_map" where
  "view fmt t i = find (\<lambda>m. mem_id m = i) (contents fmt t)"

lemma contents_stored: "rows_hold fmt ms t \<Longrightarrow> contents fmt t = ms"
proof -
  have "(\<forall>m \<in> set ms. memory_wf fmt m) \<Longrightarrow> deserialize_rows_resilient fmt (map memory_to_row ms) = (ms, [])" for ms
    by (induction ms) (simp_all add: row_round_trip)
  then show "rows_hold fmt ms t \<Longrightarrow> contents fmt t = ms" by (simp add: rows_hold_def contents_def)
qed

lemma table_ok_stored: "table_ok fmt t \<Longrightarrow> rows_hold fmt (contents fmt t) t"
  by (auto simp: table_ok_def contents_stored)

lemma find_rows: "find (\<lambda>r. mr_id r = i) (map memory_to_row ms) = map_option memory_to_row (find (\<lambda>m. mem_id m = i) ms)"
  by (induction ms) (simp_all add: memory_row_cells)

lemma read_stored: "memory_wf fmt m \<Longrightarrow> read_memory fmt (memory_to_row m) = Inr m"
  by (simp add: read_memory_def row_round_trip)

lemma view_in: "rows_hold fmt ms t \<Longrightarrow> view fmt t i = Some m \<Longrightarrow> m \<in> set ms \<and> mem_id m = i \<and> memory_wf fmt m"
  by (auto simp: view_def contents_stored rows_hold_def dest: find_Some_in)

lemma view_stored: "rows_hold fmt ms t \<Longrightarrow> view fmt t i = find (\<lambda>m. mem_id m = i) ms"
  by (simp add: view_def contents_stored)

lemma find_memory_stored:
  assumes "rows_hold fmt ms t"
  shows "find_memory fmt i t = Inr (view fmt t i)"
proof -
  have "find (\<lambda>r. mr_id r = i) t = map_option memory_to_row (view fmt t i)"
    unfolding view_stored [OF assms] using assms by (simp add: rows_hold_def find_rows)
  then show ?thesis using view_in [OF assms, of i]
    by (cases "view fmt t i") (simp_all add: find_memory_def read_stored)
qed

lemma find_memory_ok: "table_ok fmt t \<Longrightarrow> find_memory fmt i t = Inr (view fmt t i)"
  by (auto simp: table_ok_def find_memory_stored)

lemma view_None: "rows_hold fmt ms t \<Longrightarrow> view fmt t i = None \<longleftrightarrow> i \<notin> set (map mr_id t)"
  by (auto simp: view_def contents_stored rows_hold_def find_None_iff memory_row_cells)

lemma find_map_update:
  assumes "mem_id m' = i"
  shows "find (\<lambda>m. mem_id m = j) (map (\<lambda>m. if mem_id m = i then m' else m) ms)
    = (if j = i \<and> i \<in> set (map mem_id ms) then Some m' else find (\<lambda>m. mem_id m = j) ms)"
  using assms by (induction ms) auto

text \<open>Rewriting the row of one id: the map is updated at that id and nowhere else.\<close>

lemma set_rows_stored:
  assumes ms: "rows_hold fmt ms t" and m: "view fmt t i = Some m"
    and row: "f (memory_to_row m) = memory_to_row m'" and wf: "memory_wf fmt m'" "mem_id m' = i"
  shows "table_ok fmt (set_rows i f t) \<and> view fmt (set_rows i f t) = (view fmt t)(i \<mapsto> m')"
proof -
  let ?ms = "map (\<lambda>x. if mem_id x = i then m' else x) ms"
  have one: "x = m" if "x \<in> set ms" "mem_id x = i" for x
    using that view_in [OF ms m] ms distinct_map_eqD unfolding rows_hold_def by metis
  have rows: "set_rows i f t = map memory_to_row ?ms"
    using ms row one by (auto simp: rows_hold_def set_rows_def memory_row_cells)
  have "map mem_id ?ms = map mem_id ms" using wf(2) by (auto simp: map_eq_conv)
  then have ids: "distinct (map mem_id ?ms)" using ms by (simp only: rows_hold_def)
  have "\<forall>x \<in> set ?ms. memory_wf fmt x" using ms wf(1) by (auto simp: rows_hold_def)
  with rows ids have st: "rows_hold fmt ?ms (set_rows i f t)" unfolding rows_hold_def by blast
  have "i \<in> set (map mem_id ms)" using view_in [OF ms m] by auto
  then have "view fmt (set_rows i f t) = (view fmt t)(i \<mapsto> m')"
    by (intro ext) (simp add: view_def contents_stored [OF st] contents_stored [OF ms] find_map_update [OF wf(2)])
  with st show ?thesis by (auto simp: table_ok_def)
qed

lemma membership_ok:
  assumes "memory_wf fmt m"
  shows "assert_memory_enum_membership scan m = Inr ()"
proof -
  have "audience (mem_metadata m) = Some a \<Longrightarrow> parse_enum audience_options audience_name a \<noteq> None" for a
    using schema_memory_parts(1) [OF assms [unfolded memory_wf_def]] by (auto simp: metadata_check_def)
  then show ?thesis
    by (auto simp: assert_memory_enum_membership_def in_vocab_def source_vocab.parse_name category_vocab.parse_name
        trust_vocab.parse_name sensitivity_vocab.parse_name lifecycle_vocab.parse_name author_type_vocab.parse_name
        split: option.split)
qed

lemma insert_stored:
  assumes "table_ok fmt t" "memory_wf fmt m"
  shows "memory_insert scan m t = (if view fmt t (mem_id m) = None then Inr (t @ [memory_to_row m]) else Inl (Key_taken (mem_id m)))"
    and "view fmt t (mem_id m) = None \<Longrightarrow> table_ok fmt (t @ [memory_to_row m])
      \<and> view fmt (t @ [memory_to_row m]) = (view fmt t)(mem_id m \<mapsto> m)"
proof -
  obtain ms where ms: "rows_hold fmt ms t" using assms(1) by (auto simp: table_ok_def)
  show "memory_insert scan m t = (if view fmt t (mem_id m) = None then Inr (t @ [memory_to_row m]) else Inl (Key_taken (mem_id m)))"
    using view_None [OF ms] by (simp add: memory_insert_def membership_ok [OF assms(2)])
  assume none: "view fmt t (mem_id m) = None"
  then have new: "mem_id m \<notin> set (map mem_id ms)"
    by (auto simp: view_def contents_stored [OF ms] find_None_iff)
  then have st: "rows_hold fmt (ms @ [m]) (t @ [memory_to_row m])" using ms assms(2) by (auto simp: rows_hold_def)
  have "find (\<lambda>x. mem_id x = j) (ms @ [m]) = (if j = mem_id m then Some m else find (\<lambda>x. mem_id x = j) ms)" for j
    using new by (induction ms) auto
  then show "table_ok fmt (t @ [memory_to_row m]) \<and> view fmt (t @ [memory_to_row m]) = (view fmt t)(mem_id m \<mapsto> m)"
    using st by (auto simp: table_ok_def view_def contents_stored [OF st] contents_stored [OF ms])
qed

section \<open>Refinement of the map operations\<close>

text \<open>What each operation promises on the map of memories.\<close>

definition spec_insert :: "curated_memory \<Rightarrow> memory_map \<Rightarrow> fault + memory_map" where
  "spec_insert m v = (if v (mem_id m) = None then Inr (v(mem_id m \<mapsto> m)) else Inl (Key_taken (mem_id m)))"

definition spec_lifecycle ::
  "string \<Rightarrow> lifecycle_state \<Rightarrow> iso_datetime \<Rightarrow> memory_map \<Rightarrow> fault + bool \<times> memory_map" where
  "spec_lifecycle i l now v =
     (case v i of
        None \<Rightarrow> Inr (False, v)
      | Some m \<Rightarrow>
          if mem_lifecycle m \<noteq> l \<and> \<not> is_transition_allowed (mem_lifecycle m) l
          then Inl (Illegal_transition (mem_lifecycle m) l)
          else if mem_lifecycle m \<noteq> l \<and> l = Superseded then Inl (Bad_supersession Retire_needs_replacement)
          else Inr (True, v(i \<mapsto> m\<lparr>mem_lifecycle := l, updated_at := now\<rparr>)))"

definition spec_supersede ::
  "supersession_link \<Rightarrow> string \<Rightarrow> memory_map \<Rightarrow> fault + bool \<times> memory_map" where
  "spec_supersede link i v =
     (case v i of
        None \<Rightarrow> Inr (False, v)
      | Some m \<Rightarrow>
          if mem_lifecycle m \<noteq> Active then Inl (Illegal_transition (mem_lifecycle m) Superseded)
          else if js_lower i = js_lower (superseded_by link) then Inl (Bad_supersession Replacement_is_source)
          else (case v (superseded_by link) of
                  None \<Rightarrow> Inl (Bad_supersession Replacement_not_active)
                | Some r \<Rightarrow>
                    if mem_tenant r \<noteq> mem_tenant m \<or> mem_lifecycle r \<noteq> Active
                    then Inl (Bad_supersession Replacement_not_active)
                    else Inr (True, v(i \<mapsto> m\<lparr>mem_lifecycle := Superseded, mem_supersession := Some link,
                           updated_at := linked_at link\<rparr>))))"

lemma wf_lifecycle:
  assumes "memory_wf fmt m" "fmt_datetime fmt now" "l = Superseded \<Longrightarrow> mem_supersession m \<noteq> None"
  shows "memory_wf fmt (m\<lparr>mem_lifecycle := l, updated_at := now\<rparr>)"
  using assms by (cases m) (auto simp: memory_wf_def schema_memory_def memory_refinement_def
      split: Option.bind_splits if_splits)

lemma wf_superseded:
  assumes "memory_wf fmt m" "schema_supersession fmt link' = Some link"
  shows "memory_wf fmt (m\<lparr>mem_lifecycle := Superseded, mem_supersession := Some link, updated_at := linked_at link\<rparr>)"
  using assms(1) schema_supersession_idem [OF assms(2)] schema_supersession_fields [OF assms(2)]
  by (cases m) (auto simp: memory_wf_def schema_memory_def memory_refinement_def schema_optional_def
      split: Option.bind_splits if_splits option.splits)

lemma wf_refinement: "memory_wf fmt m \<Longrightarrow> mem_lifecycle m = Superseded \<Longrightarrow> mem_supersession m \<noteq> None"
  using schema_memory_parts(9) by (auto simp: memory_wf_def memory_refinement_def)

lemma view_wf: "table_ok fmt t \<Longrightarrow> view fmt t i = Some m \<Longrightarrow> memory_wf fmt m \<and> mem_id m = i"
  using view_in by (auto simp: table_ok_def)

lemma find_row_view:
  assumes "table_ok fmt t"
  shows "find (\<lambda>r. mr_id r = i) t = map_option memory_to_row (view fmt t i)"
proof -
  obtain ms where ms: "rows_hold fmt ms t" using assms by (auto simp: table_ok_def)
  show ?thesis unfolding view_stored [OF ms] using ms by (simp add: rows_hold_def find_rows)
qed

lemma set_rows_view:
  "table_ok fmt t \<Longrightarrow> view fmt t i = Some m \<Longrightarrow> f (memory_to_row m) = memory_to_row m' \<Longrightarrow>
    memory_wf fmt m' \<Longrightarrow> mem_id m' = i \<Longrightarrow>
    table_ok fmt (set_rows i f t) \<and> view fmt (set_rows i f t) = (view fmt t)(i \<mapsto> m')"
  using set_rows_stored by (auto simp: table_ok_def)

lemma update_lifecycle_refines:
  assumes ok: "table_ok fmt t" and now: "fmt_datetime fmt now"
  shows "map_sum id (map_prod id (view fmt)) (update_lifecycle i l now t) = spec_lifecycle i l now (view fmt t)"
    and "update_lifecycle i l now t = Inr (b, t') \<Longrightarrow> table_ok fmt t'"
proof -
  let ?f = "\<lambda>r. r\<lparr>mr_lifecycle := lifecycle_name l, mr_updated_at := now\<rparr>"
  have upd: "table_ok fmt (set_rows i ?f t)
      \<and> view fmt (set_rows i ?f t) = (view fmt t)(i \<mapsto> m\<lparr>mem_lifecycle := l, updated_at := now\<rparr>)"
    if "view fmt t i = Some m" "mem_lifecycle m = l \<or> l \<noteq> Superseded" for m
  proof (rule set_rows_view [OF ok that(1)])
    have "memory_wf fmt m" "mem_id m = i" using view_wf [OF ok that(1)] by auto
    moreover have "l = Superseded \<Longrightarrow> mem_supersession m \<noteq> None"
      using wf_refinement [OF \<open>memory_wf fmt m\<close>] that(2) by auto
    ultimately show "memory_wf fmt (m\<lparr>mem_lifecycle := l, updated_at := now\<rparr>)"
      "mem_id (m\<lparr>mem_lifecycle := l, updated_at := now\<rparr>) = i"
      using wf_lifecycle [OF _ now] by auto
  qed (simp add: memory_to_row_def)
  show "map_sum id (map_prod id (view fmt)) (update_lifecycle i l now t) = spec_lifecycle i l now (view fmt t)"
    "update_lifecycle i l now t = Inr (b, t') \<Longrightarrow> table_ok fmt t'"
    using upd ok by (auto simp: update_lifecycle_def spec_lifecycle_def find_row_view memory_row_cells
        lifecycle_vocab.parse_name comp_def split: option.splits if_splits)
qed

lemma supersede_refines:
  assumes ok: "table_ok fmt t"
    and link: "schema_supersession fmt \<lparr>superseded_by = by', link_reason = reason, linked_at = now\<rparr> = Some link"
  shows "map_sum id (map_prod id (view fmt)) (supersede fmt i by' reason now t) = spec_supersede link i (view fmt t)"
    and "supersede fmt i by' reason now t = Inr (b, t') \<Longrightarrow> table_ok fmt t'"
proof -
  have fields: "superseded_by link = by'" "linked_at link = now" using schema_supersession_fields [OF link] by auto
  let ?f = "\<lambda>row. row\<lparr>mr_lifecycle := lifecycle_name Superseded,
    mr_supersession_json := Some (json_stringify (supersession_json link)), mr_updated_at := now\<rparr>"
  have upd: "table_ok fmt (set_rows i ?f t) \<and> view fmt (set_rows i ?f t)
      = (view fmt t)(i \<mapsto> m\<lparr>mem_lifecycle := Superseded, mem_supersession := Some link, updated_at := now\<rparr>)"
    if "view fmt t i = Some m" for m
  proof (rule set_rows_view [OF ok that])
    have "memory_wf fmt m" "mem_id m = i" using view_wf [OF ok that] by auto
    then show "memory_wf fmt (m\<lparr>mem_lifecycle := Superseded, mem_supersession := Some link, updated_at := now\<rparr>)"
      "mem_id (m\<lparr>mem_lifecycle := Superseded, mem_supersession := Some link, updated_at := now\<rparr>) = i"
      using wf_superseded [OF _ link] fields by auto
  qed (simp add: memory_to_row_def)
  show "map_sum id (map_prod id (view fmt)) (supersede fmt i by' reason now t) = spec_supersede link i (view fmt t)"
    "supersede fmt i by' reason now t = Inr (b, t') \<Longrightarrow> table_ok fmt t'"
    using upd ok by (auto simp: supersede_def spec_supersede_def link fields find_memory_ok [OF ok]
        split: option.split if_splits option.splits)
qed

section \<open>Reachable tables\<close>

text \<open>
  The writes of the repository as a step relation: an insert of a well-formed memory without a
  link (what a promotion writes), a lifecycle update and a supersession.
\<close>

inductive memory_step :: "formats \<Rightarrow> memory_table \<Rightarrow> memory_table \<Rightarrow> bool" for fmt where
  step_insert: "memory_wf fmt m \<Longrightarrow> mem_supersession m = None \<Longrightarrow>
    memory_insert scan m t = Inr t' \<Longrightarrow> memory_step fmt t t'"
| step_lifecycle: "fmt_datetime fmt now \<Longrightarrow>
    update_lifecycle i l now t = Inr (b, t') \<Longrightarrow> memory_step fmt t t'"
| step_supersede: "supersede fmt i by' reason now t = Inr (b, t') \<Longrightarrow> memory_step fmt t t'"

inductive memory_reachable :: "formats \<Rightarrow> memory_table \<Rightarrow> bool" for fmt where
  reach_empty: "memory_reachable fmt []"
| reach_step: "memory_reachable fmt t \<Longrightarrow> memory_step fmt t t' \<Longrightarrow> memory_reachable fmt t'"

text \<open>The supersession links of a map, from the retired memory to its replacement.\<close>

definition links :: "memory_map \<Rightarrow> (string \<times> string) set" where
  "links v = {(i, j). \<exists>m link. v i = Some m \<and> mem_supersession m = Some link \<and> superseded_by link = j}"

definition links_ok :: "memory_map \<Rightarrow> bool" where
  "links_ok v \<longleftrightarrow> acyclic (links v)
     \<and> (\<forall>i m. v i = Some m \<longrightarrow> mem_supersession m \<noteq> None \<longrightarrow> mem_lifecycle m \<in> {Superseded, Archived})
     \<and> (\<forall>i j. (i, j) \<in> links v \<longrightarrow> v j \<noteq> None)"

lemma links_same:
  assumes "map_option mem_supersession (w i) = map_option mem_supersession (v i)" "\<And>j. j \<noteq> i \<Longrightarrow> w j = v j"
  shows "links w = links v"
proof -
  have "map_option mem_supersession (w k) = map_option mem_supersession (v k)" for k
    using assms by (cases "k = i") simp_all
  then have "(\<exists>m. w k = Some m \<and> mem_supersession m = s) \<longleftrightarrow> (\<exists>m. v k = Some m \<and> mem_supersession m = s)" for k s
    by (metis map_option_eq_Some)
  then have "(\<exists>m link. w k = Some m \<and> mem_supersession m = Some link \<and> superseded_by link = j)
      \<longleftrightarrow> (\<exists>m link. v k = Some m \<and> mem_supersession m = Some link \<and> superseded_by link = j)" for k j
    by blast
  then show ?thesis unfolding links_def by simp
qed

lemma links_ok_insert:
  assumes "links_ok v" "v i = None" "mem_supersession m = None"
  shows "links_ok (v(i \<mapsto> m))"
proof -
  have "links (v(i \<mapsto> m)) = links v" using assms(2,3) by (auto simp: links_def split: if_splits)
  then show ?thesis using assms by (auto simp: links_ok_def)
qed

lemma links_ok_lifecycle:
  assumes ok: "links_ok v" and spec: "spec_lifecycle i l now v = Inr (b, w)"
  shows "links_ok w"
proof (cases "v i")
  case None
  then show ?thesis using ok spec by (simp add: spec_lifecycle_def)
next
  case (Some m)
  then have w: "w = v(i \<mapsto> m\<lparr>mem_lifecycle := l, updated_at := now\<rparr>)"
    and l: "mem_lifecycle m = l \<or> is_transition_allowed (mem_lifecycle m) l"
    using spec by (auto simp: spec_lifecycle_def split: if_splits)
  have "links w = links v" by (rule links_same [of _ i]) (simp_all add: w Some)
  moreover have "mem_supersession m \<noteq> None \<Longrightarrow> mem_lifecycle m \<in> {Superseded, Archived}"
    using ok Some by (simp add: links_ok_def)
  then have "mem_supersession m \<noteq> None \<Longrightarrow> l \<in> {Superseded, Archived}"
    using l by (cases "mem_lifecycle m") auto
  ultimately show ?thesis using ok Some unfolding links_ok_def w by auto
qed

lemma links_ok_supersede:
  assumes ok: "links_ok v" and spec: "spec_supersede link i v = Inr (b, w)"
  shows "links_ok w"
proof (cases "v i")
  case None
  then show ?thesis using ok spec by (simp add: spec_supersede_def)
next
  case (Some m)
  let ?j = "superseded_by link"
  obtain r where m: "mem_lifecycle m = Active" and ij: "i \<noteq> ?j"
    and r: "v ?j = Some r" "mem_lifecycle r = Active"
    and w: "w = v(i \<mapsto> m\<lparr>mem_lifecycle := Superseded, mem_supersession := Some link, updated_at := linked_at link\<rparr>)"
    using spec Some by (auto simp: spec_supersede_def split: if_splits option.splits)
  have no_link: "mem_supersession x = None" if "v k = Some x" "mem_lifecycle x = Active" for k x
    using ok that unfolding links_ok_def by fastforce
  have new: "links w = insert (i, ?j) (links v)"
    using no_link [OF Some m] Some by (auto simp: links_def w split: if_splits)
  have sink: "(?j, k) \<notin> links v" for k using no_link [OF r] r by (auto simp: links_def)
  then have "(?j, i) \<notin> (links v)\<^sup>*" using ij by (metis converse_rtranclE)
  then have "acyclic (links w)" using ok unfolding new links_ok_def by (simp add: acyclic_insert)
  then show ?thesis using ok r unfolding links_ok_def new by (auto simp: w)
qed

lemma memory_step_links:
  assumes step: "memory_step fmt t t'" and ok: "table_ok fmt t" "links_ok (view fmt t)"
  shows "table_ok fmt t' \<and> links_ok (view fmt t')"
  using step
proof cases
  case (step_insert m scan)
  then show ?thesis using insert_stored(1) [OF ok(1) step_insert(1), of scan]
      insert_stored(2) [OF ok(1) step_insert(1)] links_ok_insert [OF ok(2)]
    by (auto split: if_splits)
next
  case (step_lifecycle now i l b)
  then show ?thesis using update_lifecycle_refines [OF ok(1) step_lifecycle(1), of i l] links_ok_lifecycle [OF ok(2), of i l now b]
    by auto
next
  case (step_supersede i by' reason now b)
  then obtain link where link: "schema_supersession fmt \<lparr>superseded_by = by', link_reason = reason, linked_at = now\<rparr> = Some link"
    by (auto simp: supersede_def split: option.splits)
  then show ?thesis using supersede_refines [OF ok(1) link, of i] links_ok_supersede [OF ok(2), of link i b] step_supersede
    by auto
qed

lemma memory_reachable_ok: "memory_reachable fmt t \<Longrightarrow> table_ok fmt t \<and> links_ok (view fmt t)"
proof (induction rule: memory_reachable.induct)
  case reach_empty
  have "rows_hold fmt [] []" by (simp add: rows_hold_def)
  then show ?case by (auto simp: table_ok_def links_ok_def links_def acyclic_def view_stored)
qed (use memory_step_links in blast)

lemma links_finite: "table_ok fmt t \<Longrightarrow> finite (links (view fmt t))"
proof -
  assume "table_ok fmt t"
  then obtain ms where ms: "rows_hold fmt ms t" by (auto simp: table_ok_def)
  have "links (view fmt t) \<subseteq> (\<lambda>m. (mem_id m, superseded_by (the (mem_supersession m)))) ` set ms"
    using view_in [OF ms] by (force simp: links_def)
  then show ?thesis by (rule finite_subset) simp
qed

section \<open>The repository as a keyed store\<close>

interpretation memories: keyed_store "table_ok fmt" "view fmt" "find_memory fmt" "memory_insert scan" mem_id "memory_wf fmt"
  for fmt scan
proof
  fix t v
  assume "table_ok fmt t" "memory_wf fmt v"
  note ins = insert_stored [OF this]
  show "\<exists>t'. memory_insert scan v t = Inr t' \<and> table_ok fmt t' \<and> view fmt t' = (view fmt t)(mem_id v \<mapsto> v)"
    if "view fmt t (mem_id v) = None"
    using ins that by auto
  show "memory_insert scan v t = Inl (Key_taken (mem_id v))" if "view fmt t (mem_id v) \<noteq> None"
    using ins(1) that by simp
qed (rule find_memory_ok)

text \<open>
  C25. The memory table implements a map from ids to memories. On a table whose rows are the rows of
  well-formed memories with distinct ids, a lookup returns what the map holds; an insert adds the
  memory or reports the taken id; a lifecycle update is refused exactly when the transition is not
  in the graph, or when it would retire a memory without naming its replacement, and otherwise
  changes that one memory; a supersession is refused exactly when the memory is not active, names
  itself, or names a replacement that is not an active memory of the same tenant. Every refusal
  leaves the map as it was, since it returns no table.
\<close>

theorem memory_store_refines_map:
  assumes "table_ok fmt t" "memory_wf fmt m" "fmt_datetime fmt now"
    "schema_supersession fmt \<lparr>superseded_by = by', link_reason = reason, linked_at = now\<rparr> = Some link"
  shows "find_memory fmt i t = Inr (view fmt t i)
    \<and> map_sum id (view fmt) (memory_insert scan m t) = spec_insert m (view fmt t)
    \<and> map_sum id (map_prod id (view fmt)) (update_lifecycle i l now t) = spec_lifecycle i l now (view fmt t)
    \<and> map_sum id (map_prod id (view fmt)) (supersede fmt i by' reason now t) = spec_supersede link i (view fmt t)"
  using find_memory_ok [OF assms(1)] insert_stored [OF assms(1,2)] update_lifecycle_refines [OF assms(1,3)]
    supersede_refines [OF assms(1,4)]
  by (auto simp: spec_insert_def)


definition plain_table :: memory_table where
  "plain_table = [memory_to_row (plain_memory ''m1'' ''a text''), memory_to_row (plain_memory ''m2'' ''b text'')]"

lemma plain_table_ok: "table_ok any_format plain_table"
proof -
  have "rows_hold any_format [plain_memory ''m1'' ''a text'', plain_memory ''m2'' ''b text''] plain_table"
    using plain_memory_wf [of "''a text''" "''m1''"] plain_memory_wf [of "''b text''" "''m2''"]
    by (simp add: rows_hold_def plain_table_def) (simp add: plain_memory_def)
  then show ?thesis by (auto simp: table_ok_def)
qed

theorem memory_store_refines_map_witness:
  "find_memory any_format ''m1'' plain_table = Inr (view any_format plain_table ''m1'')
   \<and> map_sum id (map_prod id (view any_format)) (supersede any_format ''m1'' ''m2'' ''why'' ''now'' plain_table)
     = spec_supersede \<lparr>superseded_by = ''m2'', link_reason = ''why'', linked_at = ''now''\<rparr> ''m1'' (view any_format plain_table)"
proof -
  have "schema_supersession any_format \<lparr>superseded_by = ''m2'', link_reason = ''why'', linked_at = ''now''\<rparr>
      = Some \<lparr>superseded_by = ''m2'', link_reason = ''why'', linked_at = ''now''\<rparr>"
    by (simp add: schema_supersession_def any_format_def non_empty_string_def js_trim_def js_space_def Let_def)
  then show ?thesis
    using memory_store_refines_map [OF plain_table_ok plain_memory_wf [of "''a text''"], of "''now''" "''m2''" "''why''"
        _ "''m1''"]
    by (simp add: any_format_def)
qed


end
