(* ===== verification/Memory_Search.thy ===== *)
theory Memory_Search
  imports Memory_Store
begin

text \<open>
  The text search of the memory repository (\<open>searchByText\<close>, \<open>searchByFts5\<close>,
  \<open>searchByLike\<close> of \<open>memory-repository.ts\<close>). SQLite's \<open>LIKE\<close> is a matcher over the
  pattern with its escape character; the FTS5 index is a parameter, the matching rows in rank order.
\<close>

section \<open>LIKE\<close>

text \<open>\<open>LIKE\<close> folds the ASCII letters only.\<close>

definition ascii_lower :: "char \<Rightarrow> char" where
  "ascii_lower c = (let n = of_char c :: nat in if 65 \<le> n \<and> n \<le> 90 then char_of (n + 32) else c)"

definition like_special :: "char \<Rightarrow> bool" where
  "like_special c = (c = CHR ''%'' \<or> c = CHR ''_'' \<or> c = CHR 0x5C)"

text \<open>\<open>query.replace(/[%_\\]/g, '\\$&')\<close>.\<close>

definition escape_like :: "string \<Rightarrow> string" where
  "escape_like q = concat (map (\<lambda>c. if like_special c then [CHR 0x5C, c] else [c]) q)"

text \<open>\<open>s LIKE p ESCAPE '\\'\<close>; a pattern that ends in a lone escape matches nothing.\<close>

function like_match :: "string \<Rightarrow> string \<Rightarrow> bool" where
  "like_match [] s = (s = [])"
| "like_match (c # p) s =
     (if c = CHR 0x5C then
        (case p of [] \<Rightarrow> False
         | e # p' \<Rightarrow> (case s of [] \<Rightarrow> False | d # t \<Rightarrow> ascii_lower d = ascii_lower e \<and> like_match p' t))
      else if c = CHR ''%'' then
        like_match p s \<or> (case s of [] \<Rightarrow> False | d # t \<Rightarrow> like_match (c # p) t)
      else (case s of [] \<Rightarrow> False
            | d # t \<Rightarrow> (c = CHR ''_'' \<or> ascii_lower d = ascii_lower c) \<and> like_match p t))"
  by pat_completeness auto
termination
  by (relation "measure (\<lambda>(p, s). length p + length s)") auto

declare like_match.simps(2) [simp del]

section \<open>The searches\<close>

definition optional_filters :: "tenant_id option \<Rightarrow> string list option \<Rightarrow> memory_row \<Rightarrow> bool" where
  "optional_filters tn cats r =
     ((case tn of None \<Rightarrow> True | Some t \<Rightarrow> mr_tenant_id r = t)
      \<and> (case cats of None \<Rightarrow> True | Some cs \<Rightarrow> cs = [] \<or> mr_category r \<in> set cs))"

definition search_by_like ::
  "formats \<Rightarrow> string \<Rightarrow> tenant_id option \<Rightarrow> string list option \<Rightarrow> memory_table \<Rightarrow> fault + curated_memory list" where
  "search_by_like fmt query tn cats t =
     (let pattern = ''%'' @ escape_like query @ ''%''
      in map_result (read_memory fmt)
           (take 100 (filter (\<lambda>r. mr_lifecycle r = ''active'' \<and> (like_match pattern (mr_title r) \<or> like_match pattern (mr_content r))
              \<and> optional_filters tn cats r) t)))"

definition fts_query :: "string \<Rightarrow> string" where
  "fts_query q = js_trim (filter (\<lambda>c. c \<notin> set [CHR ''*'', CHR 0x22, CHR ''^'', CHR ''('', CHR '')'', CHR ''{'', CHR ''}'', CHR '':'']) q)"

definition search_by_fts ::
  "formats \<Rightarrow> (memory_table \<Rightarrow> string \<Rightarrow> memory_row list) \<Rightarrow> string \<Rightarrow> tenant_id option \<Rightarrow> string list option \<Rightarrow>
    memory_table \<Rightarrow> fault + curated_memory list" where
  "search_by_fts fmt full query tn cats t =
     (let q = fts_query query
      in if q = [] then Inr []
         else map_result (read_memory fmt)
           (take 100 (filter (\<lambda>r. mr_lifecycle r = ''active'' \<and> optional_filters tn cats r) (full t q))))"

definition search_by_text ::
  "formats \<Rightarrow> (memory_table \<Rightarrow> string \<Rightarrow> memory_row list) option \<Rightarrow> string \<Rightarrow> tenant_id option \<Rightarrow> string list option \<Rightarrow>
    memory_table \<Rightarrow> fault + curated_memory list" where
  "search_by_text fmt full query tn cats t =
     (case full of
        Some f \<Rightarrow> search_by_fts fmt f query tn cats t
      | None \<Rightarrow> search_by_like fmt query tn cats t)"

section \<open>LIKE with an escaped query is substring search\<close>

lemma like_literal: "\<not> like_special c \<Longrightarrow> like_match (c # p) (d # t) \<longleftrightarrow> ascii_lower d = ascii_lower c \<and> like_match p t"
  by (subst like_match.simps) (simp add: like_special_def)

lemma like_escaped: "like_match (CHR 0x5C # c # p) (d # t) \<longleftrightarrow> ascii_lower d = ascii_lower c \<and> like_match p t"
  by (subst like_match.simps) simp

lemma like_no_input: "like_match (CHR 0x5C # p) [] = False" "\<not> like_special c \<Longrightarrow> like_match (c # p) [] = False"
  by (simp_all add: like_match.simps(2) [of _ _ "[]"] like_special_def split: list.split)

lemma like_percent_Cons: "like_match (CHR ''%'' # p) (d # t) \<longleftrightarrow> like_match p (d # t) \<or> like_match (CHR ''%'' # p) t"
  using like_match.simps(2) [of "CHR ''%''" p "d # t"] by simp

lemma like_percent: "like_match (CHR ''%'' # p) s \<longleftrightarrow> (\<exists>u v. s = u @ v \<and> like_match p v)"
proof (induction s)
  case Nil
  then show ?case using like_match.simps(2) [of "CHR ''%''" p "[]"] by simp
next
  case (Cons d t)
  have "(\<exists>u v. d # t = u @ v \<and> like_match p v) \<longleftrightarrow> like_match p (d # t) \<or> (\<exists>u v. t = u @ v \<and> like_match p v)"
    by (auto simp: Cons_eq_append_conv)
  then show ?case unfolding like_percent_Cons Cons.IH by simp
qed

lemma like_prefix:
  "like_match (escape_like q @ p) s \<longleftrightarrow>
     (\<exists>u v. s = u @ v \<and> map ascii_lower u = map ascii_lower q \<and> like_match p v)"
proof (induction q arbitrary: s)
  case (Cons c q)
  note IH = Cons.IH
  have step: "like_match (escape_like (c # q) @ p) s \<longleftrightarrow>
      (case s of [] \<Rightarrow> False | d # t \<Rightarrow> ascii_lower d = ascii_lower c \<and> like_match (escape_like q @ p) t)"
    by (cases s; cases "like_special c") (simp_all add: escape_like_def like_literal like_escaped like_no_input)
  show ?case
  proof (cases s)
    case (Cons d t)
    have "(ascii_lower d = ascii_lower c \<and> (\<exists>u v. t = u @ v \<and> map ascii_lower u = map ascii_lower q \<and> like_match p v))
        \<longleftrightarrow> (\<exists>u v. d # t = u @ v \<and> map ascii_lower u = map ascii_lower (c # q) \<and> like_match p v)" (is "?L \<longleftrightarrow> ?R")
    proof
      assume "ascii_lower d = ascii_lower c \<and> (\<exists>u v. t = u @ v \<and> map ascii_lower u = map ascii_lower q \<and> like_match p v)"
      then obtain u v where "ascii_lower d = ascii_lower c" "t = u @ v" "map ascii_lower u = map ascii_lower q" "like_match p v"
        by blast
      then show "\<exists>u v. d # t = u @ v \<and> map ascii_lower u = map ascii_lower (c # q) \<and> like_match p v"
        by (intro exI [of _ "d # u"] exI [of _ v]) simp
    next
      assume "\<exists>u v. d # t = u @ v \<and> map ascii_lower u = map ascii_lower (c # q) \<and> like_match p v"
      then obtain u v where "d # t = u @ v" "map ascii_lower u = map ascii_lower (c # q)" "like_match p v" by blast
      then show "ascii_lower d = ascii_lower c \<and> (\<exists>u v. t = u @ v \<and> map ascii_lower u = map ascii_lower q \<and> like_match p v)"
        by (cases u) auto
    qed
    then show ?thesis using step [unfolded Cons list.case IH] by (simp only: Cons)
  next
    case Nil
    then show ?thesis using step by simp
  qed
qed (simp add: escape_like_def)

lemma like_contains:
  "like_match (''%'' @ escape_like q @ ''%'') s \<longleftrightarrow>
     (\<exists>u m v. s = u @ m @ v \<and> map ascii_lower m = map ascii_lower q)"
proof -
  have "like_match ''%'' v" for v unfolding like_percent by (metis append_Nil2 like_match.simps(1))
  then show ?thesis by (auto simp: like_percent like_prefix)
qed

text \<open>
  The fallback search finds exactly the texts that contain the query. Without a full-text index,
  and on a table of readable rows, \<open>searchByText\<close> returns, in row order and up to a hundred, the
  active memories of the asked tenant and categories whose title or content contains the query as a
  substring, letter case of ASCII aside; a percent sign, an underscore or a backslash in the query
  stands for itself and never acts as a wildcard.
\<close>

definition contains_text :: "string \<Rightarrow> string \<Rightarrow> bool" where
  "contains_text q s \<longleftrightarrow> (\<exists>u m v. s = u @ m @ v \<and> map ascii_lower m = map ascii_lower q)"

theorem like_search_is_substring_search:
  assumes "rows_hold fmt ms t"
  shows "search_by_text fmt None query tn cats t
    = Inr (take 100 (filter (\<lambda>m. mem_lifecycle m = Active \<and> (contains_text query (mem_title m) \<or> contains_text query (mem_content m))
        \<and> (\<forall>tenant. tn = Some tenant \<longrightarrow> mem_tenant m = tenant)
        \<and> (\<forall>cs. cats = Some cs \<longrightarrow> cs \<noteq> [] \<longrightarrow> category_name (mem_category m) \<in> set cs)) ms))"
proof -
  let ?P = "\<lambda>r. mr_lifecycle r = ''active'' \<and> (like_match (''%'' @ escape_like query @ ''%'') (mr_title r)
      \<or> like_match (''%'' @ escape_like query @ ''%'') (mr_content r)) \<and> optional_filters tn cats r"
  let ?Q = "\<lambda>m. mem_lifecycle m = Active \<and> (contains_text query (mem_title m) \<or> contains_text query (mem_content m))
        \<and> (\<forall>tenant. tn = Some tenant \<longrightarrow> mem_tenant m = tenant)
        \<and> (\<forall>cs. cats = Some cs \<longrightarrow> cs \<noteq> [] \<longrightarrow> category_name (mem_category m) \<in> set cs)"
  have active: "lifecycle_name l = ''active'' \<longleftrightarrow> l = Active" for l by (cases l) simp_all
  have like: "like_match (''%'' @ escape_like query @ ''%'') x = contains_text query x" for x
    by (simp only: like_contains contains_text_def)
  have "?P (memory_to_row m) = ?Q m" for m
    unfolding like
    by (auto simp: memory_to_row_def optional_filters_def active split: option.splits)
  then have "filter ?P t = map memory_to_row (filter ?Q ms)"
    using assms by (simp add: rows_hold_def filter_map comp_def)
  moreover have "map_result (read_memory fmt) (map memory_to_row ns) = Inr ns" if "set ns \<subseteq> set ms" for ns
    using that assms by (induction ns) (auto simp: rows_hold_def read_stored)
  ultimately show ?thesis
    by (simp add: search_by_text_def search_by_like_def Let_def take_map set_take_subset [THEN subset_trans])
qed

theorem like_search_is_substring_search_witness:
  "search_by_text any_format None ''%'' (Some ''team'') None plain_table = Inr []"
proof -
  have rows: "rows_hold any_format [plain_memory ''m1'' ''a text'', plain_memory ''m2'' ''b text''] plain_table"
    using plain_memory_wf [of "''a text''" "''m1''"] plain_memory_wf [of "''b text''" "''m2''"]
    by (simp add: rows_hold_def plain_table_def) (simp add: plain_memory_def)
  have none: "\<not> contains_text ''%'' s" if "CHR ''%'' \<notin> set s" for s
  proof
    assume "contains_text ''%'' s"
    then obtain u m v where m: "s = u @ m @ v" "map ascii_lower m = map ascii_lower ''%''"
      unfolding contains_text_def by blast
    from m(2) obtain c where c: "m = [c]" "ascii_lower c = ascii_lower CHR ''%''" by (auto simp: map_eq_Cons_conv)
    have "c = CHR ''%''"
    proof (cases "65 \<le> (of_char c :: nat) \<and> (of_char c :: nat) \<le> 90")
      case True
      then have "char_of (of_char c + 32 :: nat) = CHR ''%''" using c(2) by (simp add: ascii_lower_def Let_def)
      from arg_cong [where f = "of_char :: char \<Rightarrow> nat", OF this]
      have "(of_char c + 32 :: nat) mod 256 = 37" by simp
      with True show ?thesis by simp
    next
      case False
      with c(2) show ?thesis by (auto simp: ascii_lower_def Let_def)
    qed
    with m c that show False by simp
  qed
  then have "\<not> contains_text ''%'' (mem_title (plain_memory i x)) \<and> \<not> contains_text ''%'' (mem_content (plain_memory i x))"
    if "CHR ''%'' \<notin> set x" for i x using that by (simp add: plain_memory_def)
  then show ?thesis
    using like_search_is_substring_search [OF rows, of "''%''" "Some ''team''" None] by simp
qed

end
