(* ===== verification/Candidate_Store.thy ===== *)
theory Candidate_Store
  imports Store_Interface
begin

text \<open>
  The repository of proposals, \<open>packages/store/src/repositories/candidate-repository.ts\<close>. Its
  insert is the one write every proposal crosses: the disclosure gate, the closed vocabularies and
  the refusal of text a redaction removed. The table \<open>candidates\<close> is the list of its rows;
  \<open>H\<close> is \<open>computeContentHash\<close> and \<open>scan\<close> is \<open>scanForDisclosure\<close>.
\<close>

section \<open>Operations\<close>

type_synonym candidate_table = "candidate_row list"

definition is_redacted_content :: "(string \<Rightarrow> string) \<Rightarrow> audit_table \<Rightarrow> string \<Rightarrow> tenant_id \<Rightarrow> bool" where
  "is_redacted_content H audits text tn =
     list_ex (\<lambda>r. ar_action r = ''redacted'' \<and> ar_tenant_id r = tn \<and> old_hash_is (H text) r) audits"

definition candidate_insert ::
  "(string \<Rightarrow> string option) \<Rightarrow> (string \<Rightarrow> string) \<Rightarrow> audit_table \<Rightarrow> string \<Rightarrow> string option \<Rightarrow>
    memory_candidate \<Rightarrow> candidate_table \<Rightarrow> fault + candidate_table" where
  "candidate_insert scan H audits hash batch c t =
     and_then (assert_disclosure_clean scan c) (\<lambda>_.
     and_then (assert_enum_membership scan c) (\<lambda>_.
       if is_redacted_content H audits (cand_content c) (cand_tenant c) then Inl Redacted_reingest
       else if cand_id c \<in> set (map kr_id t) then Inl (Key_taken (cand_id c))
       else Inr (t @ [candidate_to_row c hash batch])))"

definition read_candidate :: "formats \<Rightarrow> candidate_row \<Rightarrow> fault + memory_candidate" where
  "read_candidate fmt r = (case row_to_candidate fmt r of Inl e \<Rightarrow> Inl (Row_unreadable e) | Inr c \<Rightarrow> Inr c)"

definition first_candidate_where ::
  "formats \<Rightarrow> (candidate_row \<Rightarrow> bool) \<Rightarrow> candidate_table \<Rightarrow> fault + memory_candidate option" where
  "first_candidate_where fmt P t =
     (case find P t of None \<Rightarrow> Inr None | Some r \<Rightarrow> and_then (read_candidate fmt r) (\<lambda>c. Inr (Some c)))"

definition find_candidate :: "formats \<Rightarrow> string \<Rightarrow> candidate_table \<Rightarrow> fault + memory_candidate option" where
  "find_candidate fmt i = first_candidate_where fmt (\<lambda>r. kr_id r = i)"

definition find_candidate_by_hash :: "formats \<Rightarrow> string \<Rightarrow> candidate_table \<Rightarrow> fault + memory_candidate option" where
  "find_candidate_by_hash fmt h = first_candidate_where fmt (\<lambda>r. kr_content_hash r = h)"

definition find_candidate_by_hash_and_tenant ::
  "formats \<Rightarrow> string \<Rightarrow> tenant_id \<Rightarrow> candidate_table \<Rightarrow> fault + memory_candidate option" where
  "find_candidate_by_hash_and_tenant fmt h tn =
     first_candidate_where fmt (\<lambda>r. kr_content_hash r = h \<and> kr_tenant_id r = tn)"

definition find_candidates_by_tenant :: "formats \<Rightarrow> tenant_id \<Rightarrow> candidate_table \<Rightarrow> fault + memory_candidate list" where
  "find_candidates_by_tenant fmt tn t = map_result (read_candidate fmt) (filter (\<lambda>r. kr_tenant_id r = tn) t)"

text \<open>\<open>rowToCandidateSafe\<close>: a row that does not parse is reported and dropped.\<close>

definition row_to_candidate_safe :: "formats \<Rightarrow> candidate_row \<Rightarrow> memory_candidate option" where
  "row_to_candidate_safe fmt r = (case row_to_candidate fmt r of Inl _ \<Rightarrow> None | Inr c \<Rightarrow> Some c)"

definition find_by_status :: "formats \<Rightarrow> candidate_status \<Rightarrow> tenant_id \<Rightarrow> candidate_table \<Rightarrow> memory_candidate list" where
  "find_by_status fmt s tn t =
     List.map_filter (row_to_candidate_safe fmt)
       (filter (\<lambda>r. kr_status r = status_name s \<and> kr_tenant_id r = tn) t)"

text \<open>The \<open>UPDATE\<close> statements: the number of rows changed and the table.\<close>

definition own_row :: "string \<Rightarrow> tenant_id \<Rightarrow> candidate_row \<Rightarrow> bool" where
  "own_row i tn r = (kr_id r = i \<and> kr_tenant_id r = tn)"

definition update_status ::
  "string \<Rightarrow> candidate_status \<Rightarrow> tenant_id \<Rightarrow> candidate_table \<Rightarrow> nat \<times> candidate_table" where
  "update_status i s tn t =
     (length (filter (own_row i tn) t),
      map (\<lambda>r. if own_row i tn r then r\<lparr>kr_status := status_name s\<rparr> else r) t)"

definition find_ids_by_content_hash_and_tenant :: "string \<Rightarrow> tenant_id \<Rightarrow> candidate_table \<Rightarrow> string list" where
  "find_ids_by_content_hash_and_tenant h tn t =
     map kr_id (filter (\<lambda>r. kr_content_hash r = h \<and> kr_tenant_id r = tn) t)"

definition read_stored_text :: "string \<Rightarrow> tenant_id \<Rightarrow> candidate_table \<Rightarrow> (string \<times> string) option" where
  "read_stored_text i tn t = map_option (\<lambda>r. (kr_content r, kr_title r)) (find (own_row i tn) t)"

definition update_content ::
  "(string \<Rightarrow> string option) \<Rightarrow> (string \<Rightarrow> string) \<Rightarrow> string \<Rightarrow> tenant_id \<Rightarrow> string \<Rightarrow> string \<Rightarrow>
    candidate_table \<Rightarrow> fault + string option \<times> candidate_table" where
  "update_content scan H i tn text title t =
     (case scan_disclosure_fields scan [text, title] of
        Some category \<Rightarrow> Inl (Disclosure_rejected category)
      | None \<Rightarrow>
          Inr (if list_ex (own_row i tn) t then Some (H text) else None,
               map (\<lambda>r. if own_row i tn r
                         then r\<lparr>kr_content := text, kr_title := title, kr_content_hash := H text\<rparr> else r) t))"

definition delete_by_batch :: "string \<Rightarrow> candidate_table \<Rightarrow> nat \<times> candidate_table" where
  "delete_by_batch b t =
     (length (filter (\<lambda>r. kr_import_batch_id r = Some b) t), filter (\<lambda>r. kr_import_batch_id r \<noteq> Some b) t)"

definition count_candidates_by_tenant :: "candidate_table \<Rightarrow> (string \<times> nat) list" where
  "count_candidates_by_tenant t =
     map (\<lambda>v. (v, length (filter (\<lambda>r. kr_tenant_id r = v) t))) (sort (remdups (map kr_tenant_id t)))"

section \<open>The table as a map\<close>

definition candidates_ok :: "formats \<Rightarrow> candidate_table \<Rightarrow> bool" where
  "candidates_ok fmt t \<longleftrightarrow>
     distinct (map kr_id t) \<and> (\<forall>r \<in> set t. \<exists>c h b. candidate_wf fmt c \<and> r = candidate_to_row c h b)"

definition candidate_view :: "formats \<Rightarrow> candidate_table \<Rightarrow> string \<Rightarrow> memory_candidate option" where
  "candidate_view fmt t i = Option.bind (find (\<lambda>r. kr_id r = i) t) (row_to_candidate_safe fmt)"

lemma find_id_Some: "find (\<lambda>r. kr_id r = i) t = Some r \<Longrightarrow> r \<in> set t \<and> kr_id r = i"
  by (auto dest: find_Some_in)

lemma find_candidate_ok:
  assumes "candidates_ok fmt t"
  shows "find_candidate fmt i t = Inr (candidate_view fmt t i)"
proof (cases "find (\<lambda>r. kr_id r = i) t")
  case (Some r)
  then obtain c h b where "candidate_wf fmt c" "r = candidate_to_row c h b"
    using assms find_id_Some [OF Some] unfolding candidates_ok_def by blast
  then show ?thesis using Some
    by (simp add: find_candidate_def first_candidate_where_def candidate_view_def read_candidate_def
        row_to_candidate_safe_def candidate_round_trip)
qed (simp add: find_candidate_def first_candidate_where_def candidate_view_def)

lemma view_taken:
  assumes "candidates_ok fmt t"
  shows "candidate_view fmt t i = None \<longleftrightarrow> i \<notin> set (map kr_id t)"
proof (cases "find (\<lambda>r. kr_id r = i) t")
  case None
  then have "candidate_view fmt t i = None" by (simp add: candidate_view_def)
  then show ?thesis using None by (auto simp: find_None_iff)
next
  case (Some r)
  then have r: "r \<in> set t" "kr_id r = i" using find_id_Some by auto
  then obtain c h b where c: "candidate_wf fmt c" and row: "r = candidate_to_row c h b"
    using assms unfolding candidates_ok_def by blast
  have "row_to_candidate_safe fmt r = Some c"
    unfolding row row_to_candidate_safe_def by (simp add: candidate_round_trip [OF c])
  then show ?thesis using Some r by (auto simp: candidate_view_def)
qed

lemma view_candidate:
  assumes "candidates_ok fmt t" "r \<in> set t" "r = candidate_to_row c h b" "candidate_wf fmt c"
  shows "candidate_view fmt t (cand_id c) = Some c"
proof -
  have "kr_id r = cand_id c" using assms(3) by (simp add: candidate_row_cells)
  then have "find (\<lambda>x. kr_id x = cand_id c) t = Some r"
    using find_unique_key [of kr_id t r] assms(1,2) by (simp add: candidates_ok_def)
  then show ?thesis by (simp add: candidate_view_def row_to_candidate_safe_def assms(3) candidate_round_trip [OF assms(4)])
qed

lemma view_candidate_obtain:
  assumes "candidates_ok fmt t" "candidate_view fmt t i = Some c"
  obtains h b where "candidate_to_row c h b \<in> set t" "candidate_wf fmt c" "cand_id c = i"
proof -
  obtain r where r: "find (\<lambda>r. kr_id r = i) t = Some r" "row_to_candidate_safe fmt r = Some c"
    using assms(2) by (auto simp: candidate_view_def split: Option.bind_splits)
  then have "r \<in> set t" "kr_id r = i" using find_id_Some by auto
  moreover obtain c' h b where "candidate_wf fmt c'" "r = candidate_to_row c' h b"
    using assms(1) calculation unfolding candidates_ok_def by blast
  ultimately show thesis using that r(2)
    by (auto simp: row_to_candidate_safe_def candidate_round_trip candidate_row_cells)
qed

lemma vocab_ok: "metadata_check (cand_metadata c) \<Longrightarrow> assert_enum_membership scan c = Inr ()"
  by (auto simp: assert_enum_membership_def in_vocab_def source_vocab.parse_name category_vocab.parse_name
      trust_vocab.parse_name sensitivity_vocab.parse_name status_vocab.parse_name author_type_vocab.parse_name
      confidence_vocab.parse_name metadata_check_def split: option.split)

lemma insert_eq:
  assumes "candidate_wf fmt c"
  shows "candidate_insert scan H audits hash batch c t =
    and_then (assert_disclosure_clean scan c) (\<lambda>_.
      if is_redacted_content H audits (cand_content c) (cand_tenant c) then Inl Redacted_reingest
      else if cand_id c \<in> set (map kr_id t) then Inl (Key_taken (cand_id c))
      else Inr (t @ [candidate_to_row c hash batch]))"
  using schema_candidate_parts(1) [OF assms [unfolded candidate_wf_def]]
  by (simp add: candidate_insert_def vocab_ok)

lemma candidates_ok_snoc:
  assumes ok: "candidates_ok fmt t" and wf: "candidate_wf fmt c" and new: "cand_id c \<notin> set (map kr_id t)"
  shows "candidates_ok fmt (t @ [candidate_to_row c h b])"
    and "candidate_view fmt (t @ [candidate_to_row c h b]) = (candidate_view fmt t)(cand_id c \<mapsto> c)"
proof -
  have find_app: "find P (xs @ ys) = (case find P xs of None \<Rightarrow> find P ys | Some x \<Rightarrow> Some x)"
    for P :: "candidate_row \<Rightarrow> bool" and xs ys by (induction xs) auto
  show "candidates_ok fmt (t @ [candidate_to_row c h b])"
    using ok wf new by (auto simp: candidates_ok_def candidate_row_cells)
  have "candidate_view fmt (t @ [candidate_to_row c h b]) i = ((candidate_view fmt t)(cand_id c \<mapsto> c)) i" for i
  proof (cases "find (\<lambda>r. kr_id r = i) t")
    case None
    then show ?thesis
      by (simp add: candidate_view_def find_app candidate_row_cells row_to_candidate_safe_def candidate_round_trip [OF wf])
  next
    case (Some r)
    then have "i \<noteq> cand_id c" using find_id_Some [OF Some] new by force
    then show ?thesis using Some by (simp add: candidate_view_def find_app)
  qed
  then show "candidate_view fmt (t @ [candidate_to_row c h b]) = (candidate_view fmt t)(cand_id c \<mapsto> c)" by blast
qed

interpretation candidates: keyed_store "candidates_ok fmt" "candidate_view fmt" "find_candidate fmt"
    "candidate_insert scan H audits hash batch" cand_id
    "\<lambda>c. candidate_wf fmt c \<and> assert_disclosure_clean scan c = Inr ()
       \<and> \<not> is_redacted_content H audits (cand_content c) (cand_tenant c)"
  for fmt scan H audits hash batch
proof
  fix t c
  assume ok: "candidates_ok fmt t"
    and c: "candidate_wf fmt c \<and> assert_disclosure_clean scan c = Inr ()
       \<and> \<not> is_redacted_content H audits (cand_content c) (cand_tenant c)"
  then have ins: "candidate_insert scan H audits hash batch c t =
      (if cand_id c \<in> set (map kr_id t) then Inl (Key_taken (cand_id c)) else Inr (t @ [candidate_to_row c hash batch]))"
    by (simp add: insert_eq [OF conjunct1 [OF c]])
  show "\<exists>t'. candidate_insert scan H audits hash batch c t = Inr t' \<and> candidates_ok fmt t'
      \<and> candidate_view fmt t' = (candidate_view fmt t)(cand_id c \<mapsto> c)"
    if "candidate_view fmt t (cand_id c) = None"
    using candidates_ok_snoc [OF ok] c that ins unfolding view_taken [OF ok] by simp
  show "candidate_insert scan H audits hash batch c t = Inl (Key_taken (cand_id c))"
    if "candidate_view fmt t (cand_id c) \<noteq> None"
    using that ins view_taken [OF ok] by auto
qed (rule find_candidate_ok)

section \<open>Status updates\<close>

lemma wf_tenant: "candidate_wf fmt c \<Longrightarrow> non_empty_string (cand_tenant c) = Some (cand_tenant c)"
  by (auto simp: candidate_wf_def schema_candidate_def split: Option.bind_splits if_splits
      dest!: arg_cong [where f = cand_tenant])

lemma wf_status: "candidate_wf fmt c \<Longrightarrow> candidate_wf fmt (c\<lparr>cand_status := s\<rparr>)"
  by (cases c) (auto simp: candidate_wf_def schema_candidate_def candidate_refinement_def
      split: Option.bind_splits if_splits)

lemma row_status: "(candidate_to_row c h b)\<lparr>kr_status := status_name s\<rparr> = candidate_to_row (c\<lparr>cand_status := s\<rparr>) h b"
  by (simp add: candidate_to_row_def)

lemma find_map_own:
  "(\<And>r. kr_id (f r) = kr_id r) \<Longrightarrow> find (\<lambda>r. kr_id r = i) (map f t) = map_option f (find (\<lambda>r. kr_id r = i) t)"
  by (induction t) auto

lemma update_status_ok:
  assumes ok: "candidates_ok fmt t"
  shows "candidates_ok fmt (snd (update_status i s tn t))"
    and "candidate_view fmt (snd (update_status i s tn t)) j =
      (case candidate_view fmt t j of
         None \<Rightarrow> None
       | Some c \<Rightarrow> Some (if j = i \<and> cand_tenant c = tn then c\<lparr>cand_status := s\<rparr> else c))"
proof -
  let ?f = "\<lambda>r. if own_row i tn r then r\<lparr>kr_status := status_name s\<rparr> else r"
  have ids: "map kr_id (map ?f t) = map kr_id t" by auto
  have "\<exists>c h b. candidate_wf fmt c \<and> ?f r = candidate_to_row c h b" if row: "r \<in> set t" for r
  proof -
    obtain c h b where c: "candidate_wf fmt c" "r = candidate_to_row c h b"
      using ok row unfolding candidates_ok_def by blast
    show ?thesis
    proof (cases "own_row i tn r")
      case True
      then have "?f r = candidate_to_row (c\<lparr>cand_status := s\<rparr>) h b" by (simp add: c(2) row_status)
      then show ?thesis using wf_status [OF c(1)] by blast
    qed (use c in auto)
  qed
  then have "\<forall>r \<in> set (map ?f t). \<exists>c h b. candidate_wf fmt c \<and> r = candidate_to_row c h b" by force
  moreover have "distinct (map kr_id (map ?f t))" unfolding ids using ok by (simp add: candidates_ok_def)
  ultimately show "candidates_ok fmt (snd (update_status i s tn t))"
    unfolding candidates_ok_def update_status_def snd_conv by blast
  show "candidate_view fmt (snd (update_status i s tn t)) j =
      (case candidate_view fmt t j of
         None \<Rightarrow> None
       | Some c \<Rightarrow> Some (if j = i \<and> cand_tenant c = tn then c\<lparr>cand_status := s\<rparr> else c))"
  proof (cases "find (\<lambda>r. kr_id r = j) t")
    case None
    then show ?thesis by (simp add: candidate_view_def update_status_def find_map_own)
  next
    case (Some r)
    then have r: "r \<in> set t" "kr_id r = j" using find_id_Some by auto
    then obtain c h b where c: "candidate_wf fmt c" and row: "r = candidate_to_row c h b"
      using ok unfolding candidates_ok_def by blast
    have "own_row i tn r \<longleftrightarrow> j = i \<and> cand_tenant c = tn"
      using r by (auto simp: own_row_def row candidate_row_cells)
    then have "row_to_candidate_safe fmt (?f r) = Some (if j = i \<and> cand_tenant c = tn then c\<lparr>cand_status := s\<rparr> else c)"
      by (simp add: row_to_candidate_safe_def row row_status candidate_round_trip c wf_status)
    moreover have "row_to_candidate_safe fmt r = Some c"
      by (simp add: row_to_candidate_safe_def row candidate_round_trip c)
    ultimately show ?thesis using Some
      by (simp add: candidate_view_def update_status_def find_map_own)
  qed
qed

section \<open>The gate of the insert\<close>

lemma unreadable_rows_are_skipped:
  "row_to_candidate fmt r = Inl e \<Longrightarrow> find_by_status fmt s tn (xs @ r # ys) = find_by_status fmt s tn (xs @ ys)"
  by (simp add: find_by_status_def row_to_candidate_safe_def map_filter_def)

text \<open>
  C32. Nothing enters the store around the disclosure gate. A well-formed proposal is stored exactly
  when every free-text string it carries (the id, content, title, author, tenant, each path, tag and
  subject, every other metadata text, the timestamp and the origin) scans clean, its content is not
  text a redaction removed from the tenant, and its id is new; a stored proposal reads back as it
  was sent, and every other one is left as it was.
\<close>

theorem insert_gate_is_complete:
  assumes "candidates_ok fmt t" "candidate_wf fmt c"
  shows "((\<exists>t'. candidate_insert scan H audits hash batch c t = Inr t') \<longleftrightarrow>
       (\<forall>s \<in> set (candidate_texts c). scan s = None)
       \<and> \<not> is_redacted_content H audits (cand_content c) (cand_tenant c)
       \<and> candidate_view fmt t (cand_id c) = None)
    \<and> (\<forall>t' i. candidate_insert scan H audits hash batch c t = Inr t' \<longrightarrow>
         find_candidate fmt i t' = (if i = cand_id c then Inr (Some c) else find_candidate fmt i t))"
proof -
  have gate: "candidate_insert scan H audits hash batch c t = Inr t' \<longleftrightarrow>
      assert_disclosure_clean scan c = Inr () \<and> \<not> is_redacted_content H audits (cand_content c) (cand_tenant c)
      \<and> candidate_view fmt t (cand_id c) = None \<and> t' = t @ [candidate_to_row c hash batch]" for t'
    unfolding view_taken [OF assms(1)] by (auto simp: insert_eq [OF assms(2)] and_then_Inr)
  then show ?thesis
    using candidates.look_after_ins [OF assms(1), of c scan H audits hash batch]
      candidates.look_unchanged [OF assms(1), of c scan H audits hash batch] assms(2)
    by (simp add: disclosure_clean_iff)
qed

theorem insert_gate_is_complete_witness:
  "find_candidate any_format ''c1'' [candidate_to_row (plain_candidate ''c1'' ''a text'') ''h'' None]
     = Inr (Some (plain_candidate ''c1'' ''a text''))"
proof -
  have empty: "candidates_ok any_format []" by (simp add: candidates_ok_def)
  have wf: "candidate_wf any_format (plain_candidate ''c1'' ''a text'')" by (simp add: plain_candidate_wf)
  have "candidate_insert (\<lambda>_. None) (\<lambda>_. ''h'') [] ''h'' None (plain_candidate ''c1'' ''a text'') []
      = Inr [candidate_to_row (plain_candidate ''c1'' ''a text'') ''h'' None]"
    using disclosure_clean_iff [of "\<lambda>_. None" "plain_candidate ''c1'' ''a text''"]
    by (simp add: insert_eq [OF wf] is_redacted_content_def)
  then show ?thesis
    using insert_gate_is_complete [OF empty wf, of "\<lambda>_. None" "\<lambda>_. ''h''" "[]" "''h''" None]
    by (simp add: plain_candidate_def)
qed

end
