(* ===== verification/Memory_Links.thy ===== *)
theory Memory_Links
  imports Memory_Store Audience
begin

text \<open>
  The link table of \<open>packages/store/src/repositories/memory-links-repository.ts\<close>: its rows, the
  constraints of the table, the finders, the neighbours and the recursive traversal, each with and
  without a read scope. A traversal is shown to report every reachable memory once, at the length
  of a shortest path, and a scoped one to pass through readable memories only.
\<close>

section \<open>Rows and writes\<close>

record memory_link =
  ml_id :: string
  ml_source_memory :: string
  ml_target_memory :: string
  ml_type :: link_type
  ml_weight :: rat
  ml_created_by :: string
  ml_source :: link_source
  ml_import_batch :: "string option"
  ml_created_at :: iso_datetime

text \<open>
  \<open>insert\<close> with the constraints of the table: the primary key, the unique triple and the two
  references to \<open>curated_memories\<close>.
\<close>

definition link_insert :: "memory_table \<Rightarrow> memory_link \<Rightarrow> memory_link list \<Rightarrow> fault + memory_link list" where
  "link_insert t l ls =
     (if ml_id l \<in> set (map ml_id ls) then Inl (Key_taken (ml_id l))
      else if list_ex (\<lambda>k. ml_source_memory k = ml_source_memory l \<and> ml_target_memory k = ml_target_memory l
                        \<and> ml_type k = ml_type l) ls then Inl Link_taken
      else if ml_source_memory l \<notin> set (map mr_id t) then Inl (Link_dangling (ml_source_memory l))
      else if ml_target_memory l \<notin> set (map mr_id t) then Inl (Link_dangling (ml_target_memory l))
      else Inr (ls @ [l]))"

definition find_link :: "string \<Rightarrow> memory_link list \<Rightarrow> memory_link option" where
  "find_link i ls = find (\<lambda>l. ml_id l = i) ls"

definition links_where :: "(memory_link \<Rightarrow> bool) \<Rightarrow> memory_link list \<Rightarrow> memory_link list" where
  "links_where P ls = sort_key ml_created_at (filter P ls)"

definition find_links_by_source :: "string \<Rightarrow> memory_link list \<Rightarrow> memory_link list" where
  "find_links_by_source m = links_where (\<lambda>l. ml_source_memory l = m)"

definition find_links_by_target :: "string \<Rightarrow> memory_link list \<Rightarrow> memory_link list" where
  "find_links_by_target m = links_where (\<lambda>l. ml_target_memory l = m)"

definition find_links_by_type :: "link_type \<Rightarrow> memory_link list \<Rightarrow> memory_link list" where
  "find_links_by_type ty = links_where (\<lambda>l. ml_type l = ty)"

definition find_links_by_batch :: "string \<Rightarrow> memory_link list \<Rightarrow> memory_link list" where
  "find_links_by_batch b = links_where (\<lambda>l. ml_import_batch l = Some b)"

definition delete_link :: "string \<Rightarrow> memory_link list \<Rightarrow> bool \<times> memory_link list" where
  "delete_link i ls = (i \<in> set (map ml_id ls), filter (\<lambda>l. ml_id l \<noteq> i) ls)"

definition delete_links_by_batch :: "string \<Rightarrow> memory_link list \<Rightarrow> nat \<times> memory_link list" where
  "delete_links_by_batch b ls =
     (length (filter (\<lambda>l. ml_import_batch l = Some b) ls), filter (\<lambda>l. ml_import_batch l \<noteq> Some b) ls)"

section \<open>The read scope\<close>

record graph_scope =
  gs_tenant :: "tenant_id option"
  gs_allowed :: "tenant_id list option"
  gs_role :: string

text \<open>
  The \<open>EXISTS\<close> of \<open>READABLE_ENDPOINTS_SQL\<close> for one endpoint. A metadata cell that is not JSON makes
  the query fail in SQLite; here it reads as not readable. The audiences of \<open>scopeParameters\<close> are
  the ranked names the role may see.
\<close>

definition visible_cell :: "string \<Rightarrow> string \<Rightarrow> bool" where
  "visible_cell role cell =
     (case json_parse cell of
        None \<Rightarrow> False
      | Some v \<Rightarrow>
          (case jget v ''audience'' of
             None \<Rightarrow> is_audience_visible_to_role None (Some role)
           | Some JNull \<Rightarrow> is_audience_visible_to_role None (Some role)
           | Some (JStr a) \<Rightarrow>
               a \<in> set (filter (\<lambda>x. is_audience_visible_to_role (Some x) (Some role)) [''tenant'', ''admins'', ''owner''])
           | Some _ \<Rightarrow> False))"

definition readable_row :: "graph_scope \<Rightarrow> memory_row \<Rightarrow> bool" where
  "readable_row sc r =
     ((case gs_tenant sc of None \<Rightarrow> True | Some tn \<Rightarrow> mr_tenant_id r = tn)
      \<and> (case gs_allowed sc of None \<Rightarrow> True | Some tns \<Rightarrow> mr_tenant_id r \<in> set tns)
      \<and> visible_cell (gs_role sc) (mr_metadata_json r))"

definition readable_memory :: "graph_scope \<Rightarrow> memory_table \<Rightarrow> string \<Rightarrow> bool" where
  "readable_memory sc t i = list_ex (\<lambda>r. mr_id r = i \<and> readable_row sc r) t"

definition scoped_links :: "memory_table \<Rightarrow> graph_scope option \<Rightarrow> memory_link list \<Rightarrow> memory_link list" where
  "scoped_links t scope ls =
     (case scope of
        None \<Rightarrow> ls
      | Some sc \<Rightarrow> filter (\<lambda>l. readable_memory sc t (ml_source_memory l) \<and> readable_memory sc t (ml_target_memory l)) ls)"

section \<open>Neighbours and traversal\<close>

datatype direction = Outgoing | Incoming

record neighbor =
  nb_memory :: string
  nb_type :: link_type
  nb_weight :: rat
  nb_direction :: direction

definition neighbors :: "memory_table \<Rightarrow> string \<Rightarrow> graph_scope option \<Rightarrow> memory_link list \<Rightarrow> neighbor list" where
  "neighbors t m scope ls =
     (let es = scoped_links t scope ls
      in sort_key (\<lambda>n. - nb_weight n)
           (map (\<lambda>l. \<lparr>nb_memory = ml_target_memory l, nb_type = ml_type l, nb_weight = ml_weight l, nb_direction = Outgoing\<rparr>)
              (filter (\<lambda>l. ml_source_memory l = m) es)
            @ map (\<lambda>l. \<lparr>nb_memory = ml_source_memory l, nb_type = ml_type l, nb_weight = ml_weight l, nb_direction = Incoming\<rparr>)
              (filter (\<lambda>l. ml_target_memory l = m) es)))"

record graph_node =
  gn_memory :: string
  gn_depth :: nat
  gn_type :: link_type
  gn_weight :: rat

text \<open>The rows of one level of the recursive query: the edges out of \<open>m\<close>.\<close>

definition level_rows :: "memory_link list \<Rightarrow> nat \<Rightarrow> string \<Rightarrow> graph_node list" where
  "level_rows es d m =
     map (\<lambda>l. \<lparr>gn_memory = ml_target_memory l, gn_depth = d, gn_type = ml_type l, gn_weight = ml_weight l\<rparr>)
       (filter (\<lambda>l. ml_source_memory l = m) es)"

text \<open>
  \<open>WITH RECURSIVE graph\<close>: the rows of a level, then what they reach, for \<open>rounds\<close> more levels. The
  query keeps every path, so a row repeats when several paths lead to it.
\<close>

fun graph_rows :: "memory_link list \<Rightarrow> nat \<Rightarrow> graph_node list \<Rightarrow> graph_node list" where
  "graph_rows es 0 rows = rows"
| "graph_rows es (Suc rounds) rows =
     rows @ graph_rows es rounds (concat (map (\<lambda>g. level_rows es (Suc (gn_depth g)) (gn_memory g)) rows))"

definition by_rank :: "graph_node list \<Rightarrow> graph_node list" where
  "by_rank gs = sort_key gn_depth (sort_key (\<lambda>g. - gn_weight g) gs)"

text \<open>\<open>ranked_paths\<close> and the final \<open>ORDER BY\<close>; the first row of each memory, by depth and weight.\<close>

definition traverse :: "memory_table \<Rightarrow> string \<Rightarrow> nat \<Rightarrow> graph_scope option \<Rightarrow> memory_link list \<Rightarrow> graph_node list" where
  "traverse t start max_depth scope ls =
     (let es = scoped_links t scope ls;
          rows = filter (\<lambda>g. gn_memory g \<noteq> start) (graph_rows es (max_depth - 1) (level_rows es 1 start))
      in by_rank (map (\<lambda>m. hd (by_rank (filter (\<lambda>g. gn_memory g = m) rows))) (sort (remdups (map gn_memory rows)))))"

section \<open>What a traversal reports\<close>

definition edges :: "memory_link list \<Rightarrow> (string \<times> string) set" where
  "edges es = {(ml_source_memory l, ml_target_memory l) | l. l \<in> set es}"

lemma level_rows_iff:
  "(\<exists>g \<in> set (level_rows es d m). gn_memory g = x) \<longleftrightarrow> (m, x) \<in> edges es"
  by (auto simp: level_rows_def edges_def)

lemma level_rows_depth: "g \<in> set (level_rows es d m) \<Longrightarrow> gn_depth g = d"
  by (auto simp: level_rows_def)

text \<open>The invariant of the recursion: the rows of depth \<open>d\<close> are the ends of the walks of length \<open>d\<close>.\<close>

definition walk_level :: "memory_link list \<Rightarrow> string \<Rightarrow> nat \<Rightarrow> graph_node list \<Rightarrow> bool" where
  "walk_level es start d rows \<longleftrightarrow> (\<forall>g \<in> set rows. gn_depth g = d)
     \<and> (\<forall>x. (\<exists>g \<in> set rows. gn_memory g = x) \<longleftrightarrow> (start, x) \<in> edges es ^^ d)"

lemma walk_level_next:
  assumes "walk_level es start d rows"
  shows "walk_level es start (Suc d) (concat (map (\<lambda>g. level_rows es (Suc (gn_depth g)) (gn_memory g)) rows))"
proof -
  have "(\<exists>g \<in> set (concat (map (\<lambda>g. level_rows es (Suc (gn_depth g)) (gn_memory g)) rows)). gn_memory g = x)
      \<longleftrightarrow> (\<exists>g \<in> set rows. (gn_memory g, x) \<in> edges es)" for x
    using level_rows_iff [of es] by (fastforce simp: set_concat)
  also have "\<dots> x \<longleftrightarrow> (\<exists>y. (start, y) \<in> edges es ^^ d \<and> (y, x) \<in> edges es)" for x
    using assms unfolding walk_level_def by metis
  also have "\<dots> x \<longleftrightarrow> (start, x) \<in> edges es ^^ Suc d" for x by (auto simp: relcomp_unfold)
  finally show ?thesis using assms by (auto simp: walk_level_def dest: level_rows_depth)
qed

lemma graph_rows_walks:
  "walk_level es start d rows \<Longrightarrow>
     (\<exists>g \<in> set (graph_rows es n rows). gn_memory g = x \<and> gn_depth g = k)
       \<longleftrightarrow> d \<le> k \<and> k \<le> d + n \<and> (start, x) \<in> edges es ^^ k"
proof (induction n arbitrary: d rows)
  case 0
  then show ?case by (auto simp: walk_level_def)
next
  case (Suc n)
  have here: "(\<exists>g \<in> set rows. gn_memory g = x \<and> gn_depth g = k) \<longleftrightarrow> k = d \<and> (start, x) \<in> edges es ^^ d"
    using Suc.prems by (auto simp: walk_level_def)
  have "(\<exists>g \<in> set (graph_rows es (Suc n) rows). gn_memory g = x \<and> gn_depth g = k)
      \<longleftrightarrow> k = d \<and> (start, x) \<in> edges es ^^ d \<or> Suc d \<le> k \<and> k \<le> Suc d + n \<and> (start, x) \<in> edges es ^^ k"
    using here Suc.IH [OF walk_level_next [OF Suc.prems]] by (simp add: bex_Un)
  then show ?case by (cases "k = d") auto
qed

lemma first_level: "walk_level es start 1 (level_rows es 1 start)"
  using level_rows_iff [of es 1 start] by (auto simp: walk_level_def dest: level_rows_depth)

lemma set_by_rank [simp]: "set (by_rank gs) = set gs"
  by (simp add: by_rank_def)

lemma hd_by_rank:
  assumes "g \<in> set gs"
  shows "hd (by_rank gs) \<in> set gs \<and> gn_depth (hd (by_rank gs)) \<le> gn_depth g"
proof -
  have ne: "by_rank gs \<noteq> []" using assms by (metis empty_iff list.set(1) set_by_rank)
  have "sorted (map gn_depth (by_rank gs))" by (simp add: by_rank_def)
  then have "gn_depth (hd (by_rank gs)) \<le> gn_depth g"
    using assms ne by (cases "by_rank gs") (auto simp flip: set_by_rank [of gs])
  then show ?thesis using ne by (metis hd_in_set set_by_rank)
qed

lemma nodes_of_traverse:
  fixes ls t scope
  defines "es \<equiv> scoped_links t scope ls"
  shows "distinct (map gn_memory (traverse t start n scope ls))"
    and "sorted (map gn_depth (traverse t start n scope ls))"
    and "x \<in> gn_memory ` set (traverse t start n scope ls) \<longleftrightarrow>
      x \<noteq> start \<and> (\<exists>k. 1 \<le> k \<and> k \<le> max 1 n \<and> (start, x) \<in> edges es ^^ k)"
    and "g \<in> set (traverse t start n scope ls) \<Longrightarrow>
      gn_depth g = (LEAST k. 1 \<le> k \<and> (start, gn_memory g) \<in> edges es ^^ k)"
proof -
  define rows where "rows = filter (\<lambda>g. gn_memory g \<noteq> start) (graph_rows es (n - 1) (level_rows es 1 start))"
  define best where "best m = hd (by_rank (filter (\<lambda>g. gn_memory g = m) rows))" for m
  let ?ms = "sort (remdups (map gn_memory rows))"
  have tr: "traverse t start n scope ls = by_rank (map best ?ms)"
    unfolding traverse_def Let_def es_def [symmetric] rows_def [symmetric] best_def ..
  have best: "best m \<in> set rows" "gn_memory (best m) = m" "h \<in> set rows \<Longrightarrow> gn_memory h = m \<Longrightarrow> gn_depth (best m) \<le> gn_depth h"
    if "m \<in> gn_memory ` set rows" for m h
    using that hd_by_rank [of _ "filter (\<lambda>g. gn_memory g = m) rows"] unfolding best_def by fastforce+
  have same: "map gn_memory (map best ?ms) = ?ms"
    unfolding map_map by (rule map_idI) (use best(2) in auto)
  have walks: "(\<exists>g \<in> set rows. gn_memory g = x \<and> gn_depth g = k) \<longleftrightarrow>
      x \<noteq> start \<and> 1 \<le> k \<and> k \<le> max 1 n \<and> (start, x) \<in> edges es ^^ k" for x k
  proof -
    have "1 + (n - 1) = max 1 n" by simp
    then show ?thesis using graph_rows_walks [OF first_level [of es start], where n = "n - 1" and x = x and k = k] by (auto simp: rows_def)
  qed
  have "mset (map gn_memory (by_rank (map best ?ms))) = mset (map gn_memory (map best ?ms))"
    by (simp add: by_rank_def multiset.map_comp)
  then show "distinct (map gn_memory (traverse t start n scope ls))"
    unfolding tr same by (metis distinct_remdups distinct_sort mset_eq_imp_distinct_iff)
  show "sorted (map gn_depth (traverse t start n scope ls))" by (simp add: tr by_rank_def)
  have "gn_memory ` set (traverse t start n scope ls) = set (map gn_memory (map best ?ms))" by (simp add: tr image_image)
  also have "\<dots> = gn_memory ` set rows" unfolding same by simp
  finally have members: "gn_memory ` set (traverse t start n scope ls) = gn_memory ` set rows" .
  show "x \<in> gn_memory ` set (traverse t start n scope ls) \<longleftrightarrow>
      x \<noteq> start \<and> (\<exists>k. 1 \<le> k \<and> k \<le> max 1 n \<and> (start, x) \<in> edges es ^^ k)"
  proof -
    have "x \<in> gn_memory ` set rows \<longleftrightarrow> (\<exists>k. \<exists>g \<in> set rows. gn_memory g = x \<and> gn_depth g = k)"
      unfolding image_iff by (auto simp: eq_commute)
    also have "\<dots> \<longleftrightarrow> x \<noteq> start \<and> (\<exists>k. 1 \<le> k \<and> k \<le> max 1 n \<and> (start, x) \<in> edges es ^^ k)"
      by (simp only: walks ex_simps)
    finally show ?thesis unfolding members .
  qed
  show "gn_depth g = (LEAST k. 1 \<le> k \<and> (start, gn_memory g) \<in> edges es ^^ k)"
    if mem: "g \<in> set (traverse t start n scope ls)"
  proof -
    obtain m where m: "m \<in> gn_memory ` set rows" "g = best m" using mem by (auto simp: tr)
    have gm: "gn_memory g = m" unfolding m(2) by (rule best(2) [OF m(1)])
    have "\<exists>h \<in> set rows. gn_memory h = m \<and> gn_depth h = gn_depth g" using best(1) [OF m(1)] m(2) gm by blast
    then have d: "m \<noteq> start" "1 \<le> gn_depth g" "gn_depth g \<le> max 1 n" "(start, m) \<in> edges es ^^ gn_depth g"
      unfolding walks by blast+
    show ?thesis unfolding gm
    proof (rule Least_equality [symmetric])
      fix k assume k: "1 \<le> k \<and> (start, m) \<in> edges es ^^ k"
      show "gn_depth g \<le> k"
      proof (cases "k \<le> max 1 n")
        case True
        then obtain h where "h \<in> set rows" "gn_memory h = m" "gn_depth h = k" using walks [of m k] k d(1) by blast
        then show ?thesis using best(3) [OF m(1)] m(2) by blast
      qed (use d(3) in simp)
    qed (use d in simp)
  qed
qed

text \<open>
  C36. A traversal terminates on any graph, cycles included, and reports each reachable memory once.
  Up to the depth bound (at least one level is always read) the result lists exactly the memories
  other than the start that a walk of links reaches, without repetition and in order of depth, and
  the depth of each is the length of a shortest walk to it.
\<close>

theorem traversal_reports_shortest_paths:
  "distinct (map gn_memory (traverse t start n scope ls))
   \<and> sorted (map gn_depth (traverse t start n scope ls))
   \<and> gn_memory ` set (traverse t start n scope ls)
       = {x. x \<noteq> start \<and> (\<exists>k. 1 \<le> k \<and> k \<le> max 1 n \<and> (start, x) \<in> edges (scoped_links t scope ls) ^^ k)}
   \<and> {g \<in> set (traverse t start n scope ls).
        gn_depth g \<noteq> (LEAST k. 1 \<le> k \<and> (start, gn_memory g) \<in> edges (scoped_links t scope ls) ^^ k)} = {}"
  using nodes_of_traverse [where t = t and start = start and n = n and scope = scope and ls = ls] by blast

text \<open>
  C35. A scoped traversal never crosses what its reader may not see. Every memory it reports is
  readable in the scope, and is reached from the start by links whose two ends are readable at every
  step, so neither a hidden memory nor a memory behind one is reported. A reader without a known
  role sees nothing.
\<close>

theorem scoped_traversal_stays_readable:
  assumes "g \<in> set (traverse t start n (Some sc) ls)"
  shows "readable_memory sc t (gn_memory g) \<and> readable_memory sc t start
    \<and> (start, gn_memory g) \<in> {(a, b) \<in> edges ls. readable_memory sc t a \<and> readable_memory sc t b}\<^sup>+
    \<and> reader_role_clearance (gs_role sc) \<noteq> None"
proof -
  let ?R = "{(a, b) \<in> edges ls. readable_memory sc t a \<and> readable_memory sc t b}"
  have R: "edges (scoped_links t (Some sc) ls) = ?R" by (auto simp: edges_def scoped_links_def)
  have "gn_memory g \<in> gn_memory ` set (traverse t start n (Some sc) ls)" using assms by blast
  then obtain k where "1 \<le> k" "(start, gn_memory g) \<in> ?R ^^ k" unfolding nodes_of_traverse(3) R by blast
  then have walk: "(start, gn_memory g) \<in> ?R\<^sup>+" by (meson trancl_power zero_less_one order.strict_trans2)
  then have ends: "readable_memory sc t start" "readable_memory sc t (gn_memory g)"
    by (auto dest: tranclD tranclD2)
  have "reader_role_clearance (gs_role sc) \<noteq> None"
  proof
    assume "reader_role_clearance (gs_role sc) = None"
    then have "\<not> is_audience_visible_to_role a (Some (gs_role sc))" for a by (simp add: is_audience_visible_to_role_def)
    then have "\<not> visible_cell (gs_role sc) cell" for cell
      unfolding visible_cell_def by (simp split: option.split jval.split)
    then show False using ends(1) by (simp add: readable_memory_def list_ex_iff readable_row_def)
  qed
  then show ?thesis using walk ends by blast
qed

theorem scoped_traversal_stays_readable_witness:
  "readable_memory \<lparr>gs_tenant = Some ''team'', gs_allowed = None, gs_role = ''member''\<rparr> plain_table ''m2''"
proof -
  let ?sc = "\<lparr>gs_tenant = Some ''team'', gs_allowed = None, gs_role = ''member''\<rparr>"
  let ?l = "\<lparr>ml_id = ''l'', ml_source_memory = ''m1'', ml_target_memory = ''m2'', ml_type = Relates_to,
      ml_weight = 1, ml_created_by = ''curator'', ml_source = Link_curator, ml_import_batch = None, ml_created_at = ''now''\<rparr>"
  have cell: "visible_cell ''member'' (json_stringify (metadata_json plain_metadata))" by code_simp
  then have readable: "readable_memory ?sc plain_table i" if "i \<in> {''m1'', ''m2''}" for i
    using that by (auto simp: readable_memory_def readable_row_def plain_table_def memory_to_row_def plain_memory_def)
  then have "traverse plain_table ''m1'' 2 (Some ?sc) [?l]
      = [\<lparr>gn_memory = ''m2'', gn_depth = 1, gn_type = Relates_to, gn_weight = 1\<rparr>]"
    by (simp add: traverse_def scoped_links_def level_rows_def by_rank_def numeral_2_eq_2)
  then have "\<lparr>gn_memory = ''m2'', gn_depth = 1, gn_type = Relates_to, gn_weight = 1\<rparr>
      \<in> set (traverse plain_table ''m1'' 2 (Some ?sc) [?l])" by simp
  from scoped_traversal_stays_readable [OF this] show ?thesis by simp
qed

end
