(* ===== verification/Import_Exclusion.thy ===== *)
theory Import_Exclusion
  imports Prelude
begin

text \<open>
  The import exclusion rules of \<open>curator/src/import-exclusion/brainignore.ts\<close>: the glob patterns
  and their compilation, the choice of the last matching pattern, and the content heuristics. A
  compiled \<open>RegExp\<close> is the list of the glob's tokens with its anchoring, matched without regard to
  letter case; entropy is the exact real number where the source sums doubles.
\<close>

section \<open>Patterns\<close>

datatype glob_token = Lit char | Any_run | Segment_run | Segment_char

datatype pattern_source = Default_pattern | Override_pattern

record brainignore_pattern =
  bp_pattern :: string
  bp_negated :: bool
  bp_source :: pattern_source
  bp_tokens :: "glob_token list"
  bp_anchored :: bool
  bp_basename_only :: bool

text \<open>The translation loop of \<open>compilePattern\<close>: two stars take a slash after them along.\<close>

fun glob_tokens :: "string \<Rightarrow> glob_token list" where
  "glob_tokens [] = []"
| "glob_tokens [c] = [if c = CHR ''*'' then Segment_run else if c = CHR ''?'' then Segment_char else Lit c]"
| "glob_tokens [c, d] =
     (if c = CHR ''*'' \<and> d = CHR ''*'' then [Any_run]
      else (if c = CHR ''*'' then Segment_run else if c = CHR ''?'' then Segment_char else Lit c) # glob_tokens [d])"
| "glob_tokens (c # d # e # s) =
     (if c = CHR ''*'' \<and> d = CHR ''*'' then Any_run # (if e = CHR ''/'' then glob_tokens s else glob_tokens (e # s))
      else (if c = CHR ''*'' then Segment_run else if c = CHR ''?'' then Segment_char else Lit c)
           # glob_tokens (d # e # s))"

fun starts_with :: "string \<Rightarrow> string \<Rightarrow> bool" where
  "starts_with [] s = True"
| "starts_with (c # p) [] = False"
| "starts_with (c # p) (d # s) = (c = d \<and> starts_with p s)"

definition compile_pattern :: "string \<Rightarrow> pattern_source \<Rightarrow> brainignore_pattern option" where
  "compile_pattern raw source =
     (let p = js_trim raw; negated = starts_with ''!'' p;
          q = (if negated then js_trim (tl p) else p);
          anchored = starts_with ''/'' q; body = (if anchored then tl q else q)
      in if p = [] \<or> starts_with ''#'' p \<or> q = [] then None
         else Some \<lparr>bp_pattern = js_trim (if negated then tl p else p), bp_negated = negated,
                    bp_source = source, bp_tokens = glob_tokens body, bp_anchored = anchored,
                    bp_basename_only = (CHR ''/'' \<notin> set body)\<rparr>)"

text \<open>\<open>split\<close> at one character; never empty.\<close>

fun split_at :: "char \<Rightarrow> string \<Rightarrow> string list" where
  "split_at c [] = [[]]"
| "split_at c (d # s) =
     (if d = c then [] # split_at c s
      else (case split_at c s of [] \<Rightarrow> [[d]] | w # ws \<Rightarrow> (d # w) # ws))"

definition newline :: char where "newline = CHR 0x0A"

definition parse_brainignore :: "string \<Rightarrow> pattern_source \<Rightarrow> brainignore_pattern list" where
  "parse_brainignore text source = List.map_filter (\<lambda>l. compile_pattern l source) (split_at newline text)"

definition default_brainignore_patterns :: "string list" where
  "default_brainignore_patterns =
     [''**/node_modules/**'', ''**/site-packages/**'', ''**/bower_components/**'', ''**/vendor/**'',
      ''**/.venv/**'', ''**/venv/**'', ''**/__pycache__/**'', ''**/.git/**'', ''**/.next/**'',
      ''**/coverage/**'', ''**/dist/**'', ''**/build/**'',
      ''*.min.js'', ''*.min.css'', ''*.map'', ''*.bundle.js'', ''*.chunk.js'',
      ''package-lock.json'', ''npm-shrinkwrap.json'', ''pnpm-lock.yaml'', ''yarn.lock'', ''Cargo.lock'',
      ''poetry.lock'', ''uv.lock'', ''Pipfile.lock'', ''Gemfile.lock'', ''composer.lock'', ''go.sum'', ''flake.lock'',
      ''CODE_OF_CONDUCT*'', ''SECURITY.md'', ''SUPPORT.md'', ''PULL_REQUEST_TEMPLATE*'', ''**/ISSUE_TEMPLATE/**'',
      ''LICENSE*'', ''LICENCE*'', ''NOTICE*'', ''PATENTS*'']"

definition default_brainignore_ruleset :: "brainignore_pattern list" where
  "default_brainignore_ruleset =
     List.map_filter (\<lambda>p. compile_pattern p Default_pattern) default_brainignore_patterns"

text \<open>\<open>loadBrainignoreRuleset\<close>: the text of the override file, when it can be read, after the defaults.\<close>

definition load_brainignore_ruleset :: "string option \<Rightarrow> brainignore_pattern list" where
  "load_brainignore_ruleset override =
     default_brainignore_ruleset
     @ (case override of None \<Rightarrow> [] | Some text \<Rightarrow> parse_brainignore text Override_pattern)"

section \<open>Matching\<close>

definition same_letter :: "char \<Rightarrow> char \<Rightarrow> bool" where
  "same_letter c d = (js_lower_char c = js_lower_char d)"

text \<open>What a dot of a regular expression matches.\<close>

definition dot_char :: "char \<Rightarrow> bool" where
  "dot_char c = (c \<noteq> CHR 0x0A \<and> c \<noteq> CHR 0x0D)"

function (sequential) glob_match :: "glob_token list \<Rightarrow> string \<Rightarrow> bool" where
  "glob_match [] s = (s = [])"
| "glob_match (Lit c # ts) s = (case s of [] \<Rightarrow> False | d # s' \<Rightarrow> same_letter c d \<and> glob_match ts s')"
| "glob_match (Segment_char # ts) s = (case s of [] \<Rightarrow> False | d # s' \<Rightarrow> d \<noteq> CHR ''/'' \<and> glob_match ts s')"
| "glob_match (Segment_run # ts) s =
     (glob_match ts s \<or> (case s of [] \<Rightarrow> False | d # s' \<Rightarrow> d \<noteq> CHR ''/'' \<and> glob_match (Segment_run # ts) s'))"
| "glob_match (Any_run # ts) s =
     (glob_match ts s \<or> (case s of [] \<Rightarrow> False | d # s' \<Rightarrow> dot_char d \<and> glob_match (Any_run # ts) s'))"
  by pat_completeness auto
termination by (relation "measure (\<lambda>(ts, s). length ts + length s)") auto

text \<open>The optional \<open>(?:.*/)?\<close> in front of a path pattern that is not anchored.\<close>

definition after_some_dir :: "(string \<Rightarrow> bool) \<Rightarrow> string \<Rightarrow> bool" where
  "after_some_dir P s =
     (P s \<or> list_ex (\<lambda>i. s ! i = CHR ''/'' \<and> list_all dot_char (take i s) \<and> P (drop (Suc i) s)) [0..<length s])"

definition pattern_test :: "brainignore_pattern \<Rightarrow> string \<Rightarrow> bool" where
  "pattern_test p s =
     (if bp_basename_only p \<or> bp_anchored p then glob_match (bp_tokens p) s
      else after_some_dir (glob_match (bp_tokens p)) s)"

fun strip_dot_slash :: "string \<Rightarrow> string" where
  "strip_dot_slash (a # b # s) =
     (if a = CHR ''.'' \<and> b = CHR ''/'' then strip_dot_slash s else a # b # s)"
| "strip_dot_slash s = s"

definition normalize_path :: "string \<Rightarrow> string" where
  "normalize_path p =
     dropWhile (\<lambda>c. c = CHR ''/'')
       (strip_dot_slash (map (\<lambda>c. if c = CHR 0x5C then CHR ''/'' else c) p))"

fun decide_path :: "string \<Rightarrow> string \<Rightarrow> brainignore_pattern option \<Rightarrow> brainignore_pattern list \<Rightarrow> brainignore_pattern option" where
  "decide_path basename normalized decision [] = decision"
| "decide_path basename normalized decision (p # ps) =
     decide_path basename normalized
       (if pattern_test p (if bp_basename_only p then basename else normalized) then Some p else decision) ps"

definition match_path :: "string \<Rightarrow> brainignore_pattern list \<Rightarrow> brainignore_pattern option" where
  "match_path path ruleset =
     (let normalized = normalize_path path; basename = last (split_at CHR ''/'' normalized)
      in case decide_path basename normalized None ruleset of
           None \<Rightarrow> None
         | Some p \<Rightarrow> if bp_negated p then None else Some p)"

section \<open>Content heuristics\<close>

definition minified_line_length :: nat where "minified_line_length = 1000"
definition minified_whitespace_ratio :: rat where "minified_whitespace_ratio = 1/10"
definition entropy_min_length :: nat where "entropy_min_length = 1024"
definition entropy_threshold :: real where "entropy_threshold = 5.2"
definition license_scan_window :: nat where "license_scan_window = 600"

definition license_markers :: "string list" where
  "license_markers =
     [''apache license'', ''mit license'', ''gnu general public license'', ''gnu lesser general public license'',
      ''mozilla public license'', ''permission is hereby granted, free of charge'',
      ''redistribution and use in source and binary forms'']"

definition untitled_titles :: "string list" where
  "untitled_titles = [''untitled'', ''untitled document'', ''no title'']"

fun js_includes :: "string \<Rightarrow> string \<Rightarrow> bool" where
  "js_includes p [] = (p = [])"
| "js_includes p (c # s) = (starts_with p (c # s) \<or> js_includes p s)"

text \<open>The probabilities of the characters that occur, each once.\<close>

definition char_shares :: "string \<Rightarrow> real list" where
  "char_shares s = map (\<lambda>c. real (count_list s c) / real (length s)) (remdups s)"

definition shannon_entropy :: "string \<Rightarrow> real" where
  "shannon_entropy s = (\<Sum>p \<leftarrow> char_shares s. - (p * log 2 p))"

datatype brainignore_match =
    Path_excluded string brainignore_pattern
  | Untitled_title string
  | License_boilerplate string
  | Minified_content nat rat
  | Generated_content real nat

fun match_code :: "brainignore_match \<Rightarrow> string" where
  "match_code (Path_excluded _ _) = ''brainignore_path''"
| "match_code (Untitled_title _) = ''brainignore_untitled_title''"
| "match_code (License_boilerplate _) = ''brainignore_license_boilerplate''"
| "match_code (Minified_content _ _) = ''brainignore_minified_content''"
| "match_code (Generated_content _ _) = ''brainignore_generated_content''"

definition whitespace_ratio :: "string \<Rightarrow> rat" where
  "whitespace_ratio l = of_nat (length (filter js_space l)) / of_nat (length l)"

definition minified_line :: "string \<Rightarrow> bool" where
  "minified_line l = (minified_line_length < length l \<and> whitespace_ratio l < minified_whitespace_ratio)"

definition analyze_content :: "string \<Rightarrow> string \<Rightarrow> brainignore_match option" where
  "analyze_content content title =
     (if js_lower (js_trim title) \<in> set untitled_titles then Some (Untitled_title (js_trim title))
      else
        (case find (\<lambda>m. js_includes m (js_lower (take license_scan_window content))) license_markers of
           Some m \<Rightarrow> Some (License_boilerplate m)
         | None \<Rightarrow>
             (case find minified_line (split_at newline content) of
                Some l \<Rightarrow> Some (Minified_content (length l) (whitespace_ratio l))
              | None \<Rightarrow>
                  if entropy_min_length \<le> length content \<and> entropy_threshold < shannon_entropy content
                  then Some (Generated_content (shannon_entropy content) (length content))
                  else None)))"

fun evaluate_brainignore :: "string list \<Rightarrow> string \<Rightarrow> string \<Rightarrow> brainignore_pattern list \<Rightarrow> brainignore_match option" where
  "evaluate_brainignore [] content title ruleset = analyze_content content title"
| "evaluate_brainignore (path # paths) content title ruleset =
     (case match_path path ruleset of
        Some p \<Rightarrow> Some (Path_excluded path p)
      | None \<Rightarrow> evaluate_brainignore paths content title ruleset)"

section \<open>The deciding pattern\<close>

definition pattern_applies :: "string \<Rightarrow> brainignore_pattern \<Rightarrow> bool" where
  "pattern_applies path p =
     pattern_test p (if bp_basename_only p then last (split_at CHR ''/'' (normalize_path path)) else normalize_path path)"

lemma decide_path_find:
  "decide_path (last (split_at CHR ''/'' (normalize_path path))) (normalize_path path) dec ps
    = (case find (pattern_applies path) (rev ps) of None \<Rightarrow> dec | Some p \<Rightarrow> Some p)"
proof (induction ps arbitrary: dec)
  case (Cons p ps)
  have "find P (xs @ [x]) = (case find P xs of None \<Rightarrow> if P x then Some x else None | Some y \<Rightarrow> Some y)" for P xs and x :: brainignore_pattern
    by (induction xs) auto
  then show ?case by (simp add: Cons.IH pattern_applies_def split: option.split)
qed simp

lemma match_path_find:
  "match_path path ruleset = (case find (pattern_applies path) (rev ruleset) of
     None \<Rightarrow> None | Some p \<Rightarrow> if bp_negated p then None else Some p)"
  by (simp add: match_path_def decide_path_find Let_def split: option.split)

lemma find_rev_Some:
  "find P (rev xs) = Some x \<longleftrightarrow> (\<exists>before after. xs = before @ x # after \<and> P x \<and> (\<forall>y \<in> set after. \<not> P y))"
proof (induction xs rule: rev_induct)
  case (snoc y xs)
  show ?case
  proof (cases "P y")
    case True
    have "(\<exists>before after. xs @ [y] = before @ x # after \<and> P x \<and> (\<forall>y \<in> set after. \<not> P y)) \<longleftrightarrow> y = x"
    proof
      assume "\<exists>before after. xs @ [y] = before @ x # after \<and> P x \<and> (\<forall>y \<in> set after. \<not> P y)"
      then obtain before after where "xs @ [y] = before @ x # after" "\<forall>y \<in> set after. \<not> P y" by blast
      then show "y = x" using True by (cases after rule: rev_cases) auto
    next
      assume "y = x"
      then show "\<exists>before after. xs @ [y] = before @ x # after \<and> P x \<and> (\<forall>y \<in> set after. \<not> P y)"
        using True by (intro exI [of _ xs] exI [of _ "[]"]) simp
    qed
    then show ?thesis using True by auto
  next
    case False
    have "(\<exists>before after. xs @ [y] = before @ x # after \<and> P x \<and> (\<forall>y \<in> set after. \<not> P y))
        \<longleftrightarrow> (\<exists>before after. xs = before @ x # after \<and> P x \<and> (\<forall>y \<in> set after. \<not> P y))" (is "?L \<longleftrightarrow> ?R")
    proof
      assume ?L
      then obtain before after where a: "xs @ [y] = before @ x # after" "P x" "\<forall>y \<in> set after. \<not> P y" by blast
      then show ?R using False by (cases after rule: rev_cases) auto
    next
      assume ?R
      then obtain before after where "xs = before @ x # after" "P x" "\<forall>y \<in> set after. \<not> P y" by blast
      then show ?L using False by (intro exI [of _ before] exI [of _ "after @ [y]"]) simp
    qed
    then show ?thesis using False snoc.IH by simp
  qed
qed simp

text \<open>
  The last matching pattern decides. A path is excluded by a pattern exactly when that pattern
  applies to the path, is not negated, and no pattern after it applies. So a matching \<open>!\<close> line of the
  override file, which comes after the defaults, re-admits what a default excludes.
\<close>

theorem last_matching_pattern_decides:
  "match_path path ruleset = Some p \<longleftrightarrow>
     (\<exists>before after. ruleset = before @ p # after \<and> pattern_applies path p \<and> \<not> bp_negated p
        \<and> (\<forall>q \<in> set after. \<not> pattern_applies path q))"
proof -
  have "match_path path ruleset = Some p \<longleftrightarrow> find (pattern_applies path) (rev ruleset) = Some p \<and> \<not> bp_negated p"
    by (auto simp: match_path_find split: option.splits)
  then show ?thesis unfolding find_rev_Some by blast
qed

theorem last_matching_pattern_decides_witness:
  "\<exists>p. match_path ''a/yarn.lock'' (parse_brainignore ''!*.lock'' Override_pattern @ parse_brainignore ''yarn.lock'' Override_pattern) = Some p"
proof -
  have "\<exists>n p. parse_brainignore ''!*.lock'' Override_pattern = [n] \<and> parse_brainignore ''yarn.lock'' Override_pattern = [p]
      \<and> pattern_applies ''a/yarn.lock'' p \<and> \<not> bp_negated p"
    by (intro exI [of _ "the (compile_pattern ''!*.lock'' Override_pattern)"]
        exI [of _ "the (compile_pattern ''yarn.lock'' Override_pattern)"]) code_simp
  then obtain n p where np: "parse_brainignore ''!*.lock'' Override_pattern = [n]" "parse_brainignore ''yarn.lock'' Override_pattern = [p]"
      "pattern_applies ''a/yarn.lock'' p" "\<not> bp_negated p" by blast
  have "\<exists>before after. [n, p] = before @ p # after \<and> pattern_applies ''a/yarn.lock'' p \<and> \<not> bp_negated p
        \<and> (\<forall>q \<in> set after. \<not> pattern_applies ''a/yarn.lock'' q)"
    using np by (intro exI [of _ "[n]"] exI [of _ "[]"]) simp
  then have "match_path ''a/yarn.lock'' [n, p] = Some p" by (simp only: last_matching_pattern_decides)
  then show ?thesis using np by auto
qed

section \<open>Directory patterns\<close>

lemma ex_append_Cons:
  "(\<exists>u v. d # s = u @ v \<and> Q u v) \<longleftrightarrow> Q [] (d # s) \<or> (\<exists>u v. s = u @ v \<and> Q (d # u) v)"
proof
  assume "\<exists>u v. d # s = u @ v \<and> Q u v"
  then obtain u v where "d # s = u @ v" "Q u v" by blast
  then show "Q [] (d # s) \<or> (\<exists>u v. s = u @ v \<and> Q (d # u) v)" by (cases u) auto
next
  assume "Q [] (d # s) \<or> (\<exists>u v. s = u @ v \<and> Q (d # u) v)"
  then show "\<exists>u v. d # s = u @ v \<and> Q u v" by (metis append_Cons append_Nil)
qed

lemma glob_lits:
  "glob_match (map Lit w @ ts) s \<longleftrightarrow> (\<exists>m v. s = m @ v \<and> map js_lower_char m = map js_lower_char w \<and> glob_match ts v)"
proof (induction w arbitrary: s)
  case (Cons c w)
  show ?case
  proof (cases s)
    case (Cons d s')
    have "(\<exists>m v. d # s' = m @ v \<and> map js_lower_char m = map js_lower_char (c # w) \<and> glob_match ts v)
        \<longleftrightarrow> (\<exists>m v. s' = m @ v \<and> map js_lower_char (d # m) = map js_lower_char (c # w) \<and> glob_match ts v)"
      by (subst ex_append_Cons) simp
    also have "\<dots> \<longleftrightarrow> js_lower_char c = js_lower_char d \<and> glob_match (map Lit w @ ts) s'"
      unfolding Cons.IH by (cases "js_lower_char c = js_lower_char d") auto
    finally show ?thesis by (simp add: Cons same_letter_def)
  qed simp
qed simp

lemma glob_any_run:
  "glob_match (Any_run # ts) s \<longleftrightarrow> (\<exists>u v. s = u @ v \<and> list_all dot_char u \<and> glob_match ts v)"
  by (induction s) (auto simp: ex_append_Cons)

lemma glob_tokens_step:
  "c \<notin> {CHR ''*'', CHR ''?''} \<Longrightarrow> glob_tokens (c # s) = Lit c # glob_tokens s"
  by (cases s rule: remdups_adj.cases) auto

lemma glob_tokens_plain:
  "set w \<inter> {CHR ''*'', CHR ''?''} = {} \<Longrightarrow> glob_tokens (w @ s) = map Lit w @ glob_tokens s"
  by (induction w) (auto simp: glob_tokens_step)

lemma after_some_dir_iff:
  "after_some_dir P s \<longleftrightarrow> P s \<or> (\<exists>u v. s = u @ CHR ''/'' # v \<and> list_all dot_char u \<and> P v)"
proof -
  have "(\<exists>i < length s. s ! i = CHR ''/'' \<and> list_all dot_char (take i s) \<and> P (drop (Suc i) s))
      \<longleftrightarrow> (\<exists>u v. s = u @ CHR ''/'' # v \<and> list_all dot_char u \<and> P v)" (is "?L \<longleftrightarrow> ?R")
  proof
    assume ?L
    then obtain i where "i < length s" "s ! i = CHR ''/''" "list_all dot_char (take i s)" "P (drop (Suc i) s)" by blast
    then show ?R using id_take_nth_drop [of i s] by (intro exI [of _ "take i s"] exI [of _ "drop (Suc i) s"]) auto
  next
    assume ?R
    then obtain u v where "s = u @ CHR ''/'' # v" "list_all dot_char u" "P v" by blast
    then show ?L by (intro exI [of _ "length u"]) simp
  qed
  then show ?thesis by (auto simp: after_some_dir_def list_ex_iff)
qed

lemma js_trim_id:
  assumes "s \<noteq> []" "\<not> js_space (hd s)" "\<not> js_space (last s)"
  shows "js_trim s = s"
proof -
  have "dropWhile js_space s = s" using assms by (cases s) auto
  moreover have "dropWhile js_space (rev s) = rev s" using assms by (cases s rule: rev_cases) auto
  ultimately show ?thesis by (simp add: js_trim_def)
qed

text \<open>
  What a directory pattern matches. The pattern \<open>**/NAME/**\<close>, the form of every default that
  names a directory, excludes exactly the paths, without a line break, that contain \<open>NAME/\<close> as a
  substring, letter case aside. So it excludes a directory of that name at any depth and at the
  root, and also every directory whose name only ends with it.
\<close>

theorem directory_pattern_matches_name_endings:
  assumes "set dir \<inter> {CHR ''*'', CHR ''?''} = {}"
  shows "\<exists>p. compile_pattern (''**/'' @ dir @ ''/**'') source = Some p \<and> \<not> bp_negated p \<and> \<not> bp_basename_only p
    \<and> (\<forall>s. pattern_test p s \<longleftrightarrow>
        (\<exists>u m v. s = u @ m @ v \<and> map js_lower_char m = map js_lower_char (dir @ ''/'')
           \<and> list_all dot_char u \<and> list_all dot_char v))"
proof -
  let ?raw = "''**/'' @ dir @ ''/**''"
  let ?ts = "Any_run # map Lit (dir @ ''/'') @ [Any_run]"
  have trim: "js_trim ?raw = ?raw" by (rule js_trim_id) (simp_all add: js_space_def)
  have "glob_tokens ((dir @ ''/'') @ ''**'') = map Lit (dir @ ''/'') @ glob_tokens ''**''"
    using assms by (intro glob_tokens_plain) auto
  then have "glob_tokens (dir @ ''/**'') = map Lit (dir @ ''/'') @ [Any_run]" by simp
  then have tokens: "glob_tokens ?raw = ?ts" by simp
  have tail: "glob_match [Any_run] v \<longleftrightarrow> list_all dot_char v" for v unfolding glob_any_run by simp
  have one: "glob_match ?ts s \<longleftrightarrow> (\<exists>u m v. s = u @ m @ v \<and> map js_lower_char m = map js_lower_char (dir @ ''/'')
           \<and> list_all dot_char u \<and> list_all dot_char v)" (is "_ \<longleftrightarrow> ?R s") for s
    unfolding glob_any_run [of "map Lit (dir @ ''/'') @ [Any_run]"] glob_lits tail by blast
  have deeper: "?R s" if "s = a @ CHR ''/'' # b" "list_all dot_char a" "?R b" for s a b
  proof -
    obtain u m v where "b = u @ m @ v" "map js_lower_char m = map js_lower_char (dir @ ''/'')"
        "list_all dot_char u" "list_all dot_char v" using \<open>?R b\<close> by blast
    then have "s = (a @ CHR ''/'' # u) @ m @ v" "list_all dot_char (a @ CHR ''/'' # u)"
      using that(1,2) by (simp_all add: dot_char_def)
    then show ?thesis
      using \<open>map js_lower_char m = map js_lower_char (dir @ ''/'')\<close> \<open>list_all dot_char v\<close> by blast
  qed
  have "after_some_dir (glob_match ?ts) s \<longleftrightarrow> ?R s" for s
    unfolding after_some_dir_iff one using deeper by blast
  then show ?thesis
    using tokens trim
    by (intro exI [of _ "\<lparr>bp_pattern = ?raw, bp_negated = False, bp_source = source, bp_tokens = ?ts,
        bp_anchored = False, bp_basename_only = False\<rparr>"])
      (simp add: compile_pattern_def pattern_test_def Let_def)
qed

text \<open>The witness shows the surprise: the default for \<open>build\<close> refuses a note under \<open>rebuild\<close>.\<close>

theorem directory_pattern_matches_name_endings_witness:
  "\<exists>p. compile_pattern ''**/build/**'' Default_pattern = Some p \<and> pattern_test p ''docs/rebuild/plan.md''"
proof -
  have plain: "set ''build'' \<inter> {CHR ''*'', CHR ''?''} = {}" by simp
  obtain p where p: "compile_pattern (''**/'' @ ''build'' @ ''/**'') Default_pattern = Some p"
    "\<And>s. pattern_test p s \<longleftrightarrow> (\<exists>u m v. s = u @ m @ v \<and> map js_lower_char m = map js_lower_char (''build'' @ ''/'')
        \<and> list_all dot_char u \<and> list_all dot_char v)"
    using directory_pattern_matches_name_endings [OF plain, of Default_pattern] by blast
  have "pattern_test p ''docs/rebuild/plan.md''"
    unfolding p(2) by (intro exI [of _ "''docs/re''"] exI [of _ "''build/''"] exI [of _ "''plan.md''"]) (simp add: dot_char_def)
  then show ?thesis using p(1) by auto
qed

text \<open>A pattern with a leading slash and no other one is a basename pattern: the anchor is lost.\<close>

lemma anchored_file_matches_anywhere:
  "map_option (\<lambda>p. pattern_applies ''docs/guide/README.md'' p) (compile_pattern ''/README.md'' Override_pattern) = Some True"
  by code_simp

section \<open>The entropy bound\<close>

text \<open>
  The inequality of Gibbs against the uniform distribution: the entropy of a text is at most the
  binary logarithm of the number of its distinct characters.
\<close>

lemma entropy_term:
  fixes p n :: real
  assumes "0 < p" "0 < n"
  shows "- (p * log 2 p) \<le> p * log 2 n + (1 / n - p) / ln 2"
proof -
  have "ln (1 / (p * n)) \<le> 1 / (p * n) - 1" by (rule ln_le_minus_one) (use assms in simp)
  then have "p * ln (1 / (p * n)) \<le> 1 / n - p" using assms by (simp add: field_simps)
  moreover have e: "ln (1 / (p * n)) = - ln p - ln n" using assms by (simp add: ln_div ln_mult)
  have "p * ln (1 / (p * n)) = - (p * ln p) - p * ln n" unfolding e by (simp add: algebra_simps)
  ultimately have "- (p * ln p) \<le> p * ln n + (1 / n - p)" by (simp add: algebra_simps)
  then have "- (p * ln p) / ln 2 \<le> (p * ln n + (1 / n - p)) / ln 2" by (intro divide_right_mono) simp_all
  then show ?thesis by (simp add: log_def add_divide_distrib)
qed

lemma sum_over_chars: "(\<Sum>c \<leftarrow> remdups s. f c) = (\<Sum>c \<in> set s. f c :: real)"
  by (simp add: sum_list_distinct_conv_sum_set)

lemma entropy_bound:
  assumes "s \<noteq> []"
  shows "shannon_entropy s \<le> log 2 (card (set s))"
proof -
  let ?n = "real (card (set s))" and ?p = "\<lambda>c. real (count_list s c) / real (length s)"
  have n: "0 < ?n" using assms by (simp add: card_gt_0_iff)
  have pos: "0 < ?p c" if "c \<in> set s" for c
  proof -
    have "count_list s c \<noteq> 0" using that by (simp add: count_list_0_iff)
    then show ?thesis using assms by simp
  qed
  have "(\<Sum>c \<in> set s. count_list s c) = length s" by (rule sum_count_set) simp_all
  then have "(\<Sum>c \<in> set s. real (count_list s c)) = real (length s)" by (metis of_nat_sum)
  then have total: "(\<Sum>c \<in> set s. ?p c) = 1" using assms by (simp flip: sum_divide_distrib)
  have "shannon_entropy s = (\<Sum>c \<in> set s. - (?p c * log 2 (?p c)))"
    by (simp add: shannon_entropy_def char_shares_def comp_def sum_over_chars)
  also have "\<dots> \<le> (\<Sum>c \<in> set s. ?p c * log 2 ?n + (1 / ?n - ?p c) / ln 2)"
    by (intro sum_mono entropy_term n pos)
  also have "\<dots> = (\<Sum>c \<in> set s. ?p c * log 2 ?n) + (\<Sum>c \<in> set s. 1 / ?n - ?p c) / ln 2"
    by (simp only: sum.distrib sum_divide_distrib)
  also have "\<dots> = (\<Sum>c \<in> set s. ?p c) * log 2 ?n + (?n * (1 / ?n) - (\<Sum>c \<in> set s. ?p c)) / ln 2"
    by (simp only: sum_distrib_right [symmetric] sum_subtractf sum_constant)
  also have "\<dots> = log 2 ?n" unfolding total using assms by simp
  finally show ?thesis .
qed

text \<open>
  Text over a small alphabet is never read as generated. A text with at most 36 distinct
  characters, a hex dump or a list of lowercase words, has an entropy of at most 5.2 bits, so the
  entropy heuristic never refuses it, however long it is.
\<close>

theorem few_symbols_never_read_as_generated:
  assumes "card (set content) \<le> 36"
  shows "shannon_entropy content \<le> entropy_threshold \<and> analyze_content content title \<noteq> Some (Generated_content h n)"
proof -
  have "shannon_entropy content \<le> entropy_threshold"
  proof (cases "content = []")
    case False
    have "5 * log 2 (36 :: real) = log 2 (36 ^ 5)" by (subst log_nat_power) simp_all
    also have "\<dots> \<le> log 2 (2 ^ 26)" by (subst log_le_cancel_iff) simp_all
    also have "\<dots> = 26" by (subst log_nat_power) simp_all
    finally have "log 2 (36 :: real) \<le> 5.2" by simp
    moreover have "log 2 (card (set content)) \<le> log 2 36"
      using assms False by (subst log_le_cancel_iff) (simp_all add: card_gt_0_iff)
    ultimately show ?thesis using entropy_bound [OF False] by (simp add: entropy_threshold_def)
  qed (simp add: shannon_entropy_def char_shares_def entropy_threshold_def)
  then show ?thesis by (simp add: analyze_content_def split: option.split)
qed

theorem few_symbols_never_read_as_generated_witness:
  "shannon_entropy (concat (replicate 200 ''deadbeef'')) \<le> entropy_threshold"
proof -
  have "set (concat (replicate 200 ''deadbeef'')) = set ''deadbeef''" by simp
  moreover have "card (set ''deadbeef'') \<le> length ''deadbeef''" by (rule card_length)
  ultimately have "card (set (concat (replicate 200 ''deadbeef''))) \<le> 36" by simp
  from few_symbols_never_read_as_generated [OF this, of "[]"] show ?thesis by simp
qed

end
