(* ===== verification/Governance_Db.thy ===== *)
theory Governance_Db
  imports Candidate_Store Memory_Links Memory_Search Import_Exclusion Uuid Policy_Rules
begin

text \<open>
  The state the governance operations share, one SQLite database: the tables of candidates,
  memories, audit events, memory links and policies. A write is a function of the state; a
  transaction that throws returns the exception and no state, so nothing of it remains. What the
  operations take from the platform and from modules modelled as parameters is the record
  \<open>world\<close>: the zod string formats, the disclosure scanner, the digests and the \<open>Date\<close> functions.
\<close>

section \<open>State and world\<close>

record store_state =
  st_candidates :: candidate_table
  st_memories :: memory_table
  st_audits :: audit_table
  st_links :: "memory_link list"
  st_policies :: "governance_policy list"

text \<open>
  \<open>w_env\<close> holds the hex digest SHA-256 and the two content scanners, \<open>w_hmac\<close> is the hex
  HMAC-SHA256 under a key, \<open>w_sha1\<close> the digest of bytes, \<open>w_date_parse\<close> is \<open>Date.parse\<close>
  (\<open>None\<close> is \<open>NaN\<close>) and \<open>w_to_iso\<close> is \<open>new Date(ms).toISOString()\<close> (\<open>None\<close> is the
  \<open>RangeError\<close>). \<open>w_reason_text\<close> prints why a rule or a structural gate decided as it did, and \<open>w_full_text\<close> is the FTS5 index
  when the database has one: the rows that match, in rank order.
\<close>

datatype gate_reason =
    By_rule rule_reason
  | Origin_unverifiable
  | Origin_invalid
  | Import_excluded brainignore_match

record world =
  w_formats :: formats
  w_scan :: "string \<Rightarrow> string option"
  w_env :: env
  w_hmac :: "string \<Rightarrow> string \<Rightarrow> string"
  w_sha1 :: "byte list \<Rightarrow> byte list"
  w_date_parse :: "string \<Rightarrow> rat option"
  w_to_iso :: "rat \<Rightarrow> string option"
  w_reason_text :: "gate_reason \<Rightarrow> string"
  w_full_text :: "(memory_table \<Rightarrow> string \<Rightarrow> memory_row list) option"

text \<open>\<open>computeContentHash\<close>, the digest the chain is hashed with too.\<close>

abbreviation w_sha256 :: "world \<Rightarrow> string \<Rightarrow> string" where
  "w_sha256 w \<equiv> env_hash (w_env w)"

definition audit_id :: "world \<Rightarrow> string \<Rightarrow> audit_action \<Rightarrow> string \<Rightarrow> string" where
  "audit_id w m a disc = derive_audit_event_id (w_sha1 w) m (action_name a) disc"

section \<open>Receipts\<close>

definition lift_audit :: "row_error + 'a \<Rightarrow> fault + 'a" where
  "lift_audit r = (case r of Inl e \<Rightarrow> Inl (Audit_row_unreadable e) | Inr x \<Rightarrow> Inr x)"

text \<open>\<open>AuditEvent.parse(...)\<close> and \<open>auditRepo.insert\<close>.\<close>

definition parse_event :: "world \<Rightarrow> audit_event \<Rightarrow> fault + audit_event" where
  "parse_event w e =
     (case schema_event (w_formats w) e of None \<Rightarrow> Inl (Schema_refused ''AuditEvent'') | Some x \<Rightarrow> Inr x)"

definition insert_event :: "world \<Rightarrow> audit_event \<Rightarrow> store_state \<Rightarrow> fault + store_state" where
  "insert_event w e s =
     (case audit_insert (w_sha256 w) e (st_audits s) of
        Inl x \<Rightarrow> Inl (Audit_refused x) | Inr rows \<Rightarrow> Inr (s\<lparr>st_audits := rows\<rparr>))"

definition write_event :: "world \<Rightarrow> audit_event \<Rightarrow> store_state \<Rightarrow> fault + store_state" where
  "write_event w e s = and_then (parse_event w e) (\<lambda>x. insert_event w x s)"

definition memory_events :: "world \<Rightarrow> string \<Rightarrow> tenant_id \<Rightarrow> store_state \<Rightarrow> fault + audit_event list" where
  "memory_events w m tn s = lift_audit (find_by_memory_and_tenant (w_formats w) m tn (st_audits s))"

definition action_events :: "world \<Rightarrow> tenant_id \<Rightarrow> audit_action \<Rightarrow> store_state \<Rightarrow> fault + audit_event list" where
  "action_events w tn a s = lift_audit (find_by_tenant_and_action (w_formats w) tn (action_name a) (st_audits s))"

definition detail :: "audit_event \<Rightarrow> string \<Rightarrow> jval option" where
  "detail e k = jget (JObj (ev_details e)) k"

lemma lift_audit_Inr [simp]: "lift_audit r = Inr x \<longleftrightarrow> r = Inr x"
  by (auto simp: lift_audit_def split: sum.split)

section \<open>The history of an audit table\<close>

text \<open>
  A row that holds an event: it reads back, and its columns are the event's fields. The history of
  a table is the list of its events in row order.
\<close>

definition audit_row_ok :: "formats \<Rightarrow> audit_row \<Rightarrow> bool" where
  "audit_row_ok fmt r =
     (case row_to_event fmt r of
        Inl _ \<Rightarrow> False
      | Inr e \<Rightarrow> ar_id r = ev_id e \<and> ar_memory_id r = ev_memory_id e \<and> ar_tenant_id r = ev_tenant_id e
          \<and> ar_action r = action_name (ev_action e) \<and> ar_timestamp r = ev_timestamp e)"

definition audits_ok :: "formats \<Rightarrow> audit_table \<Rightarrow> bool" where
  "audits_ok fmt rows \<longleftrightarrow> audit_table_ok rows \<and> (\<forall>r \<in> set rows. audit_row_ok fmt r)"

definition event_of :: "formats \<Rightarrow> audit_row \<Rightarrow> audit_event" where
  "event_of fmt r = (case row_to_event fmt r of Inr e \<Rightarrow> e
     | Inl _ \<Rightarrow> \<lparr>ev_id = [], ev_action = A_deleted, ev_memory_id = [], ev_tenant_id = [],
         ev_actor = \<lparr>author_kind = System, author_id = [], author_name = None\<rparr>, ev_reason = None,
         ev_details = [], ev_timestamp = []\<rparr>)"

definition history :: "formats \<Rightarrow> audit_table \<Rightarrow> audit_event list" where
  "history fmt rows = map (event_of fmt) rows"

lemma row_ok_fields:
  assumes "audit_row_ok fmt r"
  shows "row_to_event fmt r = Inr (event_of fmt r)" "ar_id r = ev_id (event_of fmt r)"
    "ar_memory_id r = ev_memory_id (event_of fmt r)" "ar_tenant_id r = ev_tenant_id (event_of fmt r)"
    "ar_action r = action_name (ev_action (event_of fmt r))" "ar_timestamp r = ev_timestamp (event_of fmt r)"
  using assms by (auto simp: audit_row_ok_def event_of_def split: sum.splits)

lemma insort_map: "insort_key f (g x) (map g xs) = map g (insort_key (\<lambda>y. f (g y)) x xs)"
  by (induction xs) simp_all

lemma sort_map: "sort_key f (map g xs) = map g (sort_key (\<lambda>y. f (g y)) xs)"
  by (induction xs) (simp_all add: insort_map)

lemma insort_cong_on: "(\<And>y. y \<in> set (x # xs) \<Longrightarrow> f y = g y) \<Longrightarrow> insort_key f x xs = insort_key g x xs"
  by (induction xs) auto

lemma sort_key_cong_on: "(\<And>x. x \<in> set xs \<Longrightarrow> f x = g x) \<Longrightarrow> sort_key f xs = sort_key g xs"
  by (induction xs) (auto intro!: insort_cong_on)

lemma read_history:
  assumes ok: "\<forall>r \<in> set rows. audit_row_ok fmt r" and P: "\<And>r. audit_row_ok fmt r \<Longrightarrow> P r \<longleftrightarrow> Q (event_of fmt r)"
  shows "rows_to_events fmt (by_timestamp (filter P rows)) = Inr (sort_key ev_timestamp (filter Q (history fmt rows)))"
proof -
  have filt: "filter Q (history fmt rows) = map (event_of fmt) (filter P rows)"
    using ok P by (simp add: history_def filter_map comp_def cong: filter_cong)
  have "sort_key ev_timestamp (filter Q (history fmt rows)) = map (event_of fmt) (by_timestamp (filter P rows))"
    unfolding filt sort_map
    using ok by (auto intro!: arg_cong [of _ _ "map (event_of fmt)"] sort_key_cong_on simp flip: row_ok_fields(6))
  moreover have "rows_to_events fmt (by_timestamp (filter P rows)) = Inr (map (event_of fmt) (by_timestamp (filter P rows)))"
    unfolding rows_to_events_def using ok by (intro map_result_all) (simp add: row_ok_fields)
  ultimately show ?thesis by simp
qed

lemma memory_events_ok:
  "audits_ok (w_formats w) (st_audits s) \<Longrightarrow> memory_events w m tn s
    = Inr (sort_key ev_timestamp (filter (\<lambda>e. ev_memory_id e = m \<and> ev_tenant_id e = tn)
        (history (w_formats w) (st_audits s))))"
  unfolding memory_events_def find_by_memory_and_tenant_def lift_audit_Inr
  by (rule read_history) (auto simp: audits_ok_def row_ok_fields)

lemma action_events_ok:
  "audits_ok (w_formats w) (st_audits s) \<Longrightarrow> action_events w tn a s
    = Inr (sort_key ev_timestamp (filter (\<lambda>e. ev_tenant_id e = tn \<and> ev_action e = a)
        (history (w_formats w) (st_audits s))))"
  unfolding action_events_def find_by_tenant_and_action_def lift_audit_Inr
  by (rule read_history) (auto simp: audits_ok_def row_ok_fields action_vocab.name_inj)

text \<open>A written receipt: the event as the schema parsed it, last in the history.\<close>

lemma schema_event_storable:
  "schema_event fmt e = Some x \<Longrightarrow> json_distinct (JObj (ev_details e)) \<Longrightarrow> event_storable fmt x"
  by (auto simp: schema_event_def event_storable_def event_wf_def schema_author_def schema_optional_def
      split: Option.bind_splits if_splits option.splits dest: non_empty_idem simp del: json_distinct.simps)

lemma schema_event_fields:
  "schema_event fmt e = Some x \<Longrightarrow>
     ev_id x = ev_id e \<and> ev_action x = ev_action e \<and> ev_memory_id x = ev_memory_id e
     \<and> non_empty_string (ev_tenant_id e) = Some (ev_tenant_id x) \<and> ev_details x = ev_details e \<and> ev_timestamp x = ev_timestamp e"
  by (auto simp: schema_event_def split: Option.bind_splits if_splits)

lemma write_event_Inr:
  assumes "write_event w e s = Inr s'"
  obtains x where "schema_event (w_formats w) e = Some x" "ev_id e \<notin> set (map ar_id (st_audits s))"
    "s' = s\<lparr>st_audits := st_audits s @ [audit_append_row (w_sha256 w) x (st_audits s)]\<rparr>"
proof (cases "schema_event (w_formats w) e")
  case None
  with assms show thesis by (simp add: write_event_def parse_event_def)
next
  case (Some x)
  then have "insert_event w x s = Inr s'" using assms by (simp add: write_event_def parse_event_def)
  then have "ev_id x \<notin> set (map ar_id (st_audits s))
      \<and> s' = s\<lparr>st_audits := st_audits s @ [audit_append_row (w_sha256 w) x (st_audits s)]\<rparr>"
    by (simp add: insert_event_def audit_insert_def split: if_splits)
  with that Some schema_event_fields [OF Some] show thesis by auto
qed

lemma written_history:
  assumes ok: "audits_ok fmt rows" and x: "event_storable fmt x" "ev_id x \<notin> set (map ar_id rows)"
  shows "audits_ok fmt (rows @ [audit_append_row H x rows])"
    and "history fmt (rows @ [audit_append_row H x rows]) = history fmt rows @ [as_read x]"
proof -
  have row: "row_to_event fmt (audit_append_row H x rows) = Inr (as_read x)" by (rule row_to_event_stored [OF x(1)])
  have "audit_table_ok (rows @ [audit_append_row H x rows])"
    using audit_insert_ok [of rows H x "rows @ [audit_append_row H x rows]"] ok x(2)
    by (simp add: audits_ok_def audit_insert_def)
  then show "audits_ok fmt (rows @ [audit_append_row H x rows])"
    using ok by (auto simp: audits_ok_def audit_row_ok_def row)
  show "history fmt (rows @ [audit_append_row H x rows]) = history fmt rows @ [as_read x]"
    by (simp add: history_def event_of_def row)
qed

text \<open>The receipt the store reads back after writing \<open>e\<close>.\<close>

definition receipt_of :: "world \<Rightarrow> audit_event \<Rightarrow> audit_event \<Rightarrow> bool" where
  "receipt_of w e x \<longleftrightarrow> (\<exists>y. schema_event (w_formats w) e = Some y \<and> x = as_read y)"

lemma receipt_fields:
  "receipt_of w e x \<Longrightarrow>
     ev_id x = ev_id e \<and> ev_action x = ev_action e \<and> ev_memory_id x = ev_memory_id e
     \<and> non_empty_string (ev_tenant_id e) = Some (ev_tenant_id x) \<and> ev_timestamp x = ev_timestamp e
     \<and> ev_details x = map (\<lambda>kv. (fst kv, json_round (snd kv))) (ev_details e)"
  by (auto simp: receipt_of_def as_read_def dest: schema_event_fields)

lemma write_event_history:
  assumes ok: "audits_ok (w_formats w) (st_audits s)" and wr: "write_event w e s = Inr s'"
    and keys: "json_distinct (JObj (ev_details e))"
  shows "\<exists>x. receipt_of w e x \<and> audits_ok (w_formats w) (st_audits s')
    \<and> history (w_formats w) (st_audits s') = history (w_formats w) (st_audits s) @ [x]
    \<and> st_candidates s' = st_candidates s \<and> st_memories s' = st_memories s \<and> st_links s' = st_links s
    \<and> st_policies s' = st_policies s"
proof -
  obtain x where x: "schema_event (w_formats w) e = Some x" "ev_id e \<notin> set (map ar_id (st_audits s))"
    "s' = s\<lparr>st_audits := st_audits s @ [audit_append_row (w_sha256 w) x (st_audits s)]\<rparr>"
    using write_event_Inr [OF wr] by blast
  have st: "event_storable (w_formats w) x" by (rule schema_event_storable [OF x(1) keys])
  have id: "ev_id x \<notin> set (map ar_id (st_audits s))" using x(2) schema_event_fields [OF x(1)] by simp
  show ?thesis
    using written_history [OF ok st id] x(1) by (auto simp: x(3) receipt_of_def)
qed

end
