(* ===== verification/Holds.thy ===== *)
theory Holds
  imports Governance_Db Hold_Triggers
begin

text \<open>
  The bounded human-escalation hold of \<open>apps/curator/src/hold/hold.ts\<close>: a candidate is on hold
  when its status is \<open>quarantined\<close> and the chain carries a \<open>held\<close> receipt for it with no
  \<open>hold_resolved\<close> receipt. The theory models the reads, the placement with its cap, the
  recommendations and the expiry. The numbers of \<open>HoldLimits\<close> are rationals, so \<open>NaN\<close> and
  the infinities do not occur; \<open>parse_number\<close> is \<open>Number(text)\<close> with \<open>None\<close> for them.
\<close>

section \<open>Limits\<close>

definition default_hold_ttl_days :: rat where
  "default_hold_ttl_days = 14"

definition default_max_active_holds :: rat where
  "default_max_active_holds = 100"

definition max_recommendations_per_hold :: nat where
  "max_recommendations_per_hold = 10"

definition ms_per_day :: rat where
  "ms_per_day = 86400000"

record hold_limits =
  lim_ttl_days :: "rat option"
  lim_max_active :: "rat option"

definition js_is_integer :: "rat \<Rightarrow> bool" where
  "js_is_integer x = (of_int \<lfloor>x\<rfloor> = x)"

definition resolve_ttl_days :: "hold_limits option \<Rightarrow> rat" where
  "resolve_ttl_days limits =
     (case Option.bind limits lim_ttl_days of
        None \<Rightarrow> default_hold_ttl_days
      | Some ttl \<Rightarrow> if 0 < ttl then ttl else default_hold_ttl_days)"

definition resolve_max_active_holds :: "hold_limits option \<Rightarrow> rat" where
  "resolve_max_active_holds limits =
     (case Option.bind limits lim_max_active of
        None \<Rightarrow> default_max_active_holds
      | Some m \<Rightarrow> if js_is_integer m \<and> 0 \<le> m then m else default_max_active_holds)"

definition hold_limits_from_env :: "(string \<Rightarrow> rat option) \<Rightarrow> (string \<rightharpoonup> string) \<Rightarrow> hold_limits" where
  "hold_limits_from_env parse_number env =
     (let read = (\<lambda>k. case env k of
            None \<Rightarrow> None
          | Some t \<Rightarrow> if js_trim t = [] then None else parse_number (js_trim t));
          ttl = read ''TEAMKB_HOLD_TTL_DAYS'';
          cap = read ''TEAMKB_HOLD_MAX_ACTIVE''
      in \<lparr>lim_ttl_days = (case ttl of None \<Rightarrow> None | Some x \<Rightarrow> if 0 < x then Some x else None),
          lim_max_active = (case cap of None \<Rightarrow> None
             | Some x \<Rightarrow> if js_is_integer x \<and> 0 \<le> x then Some x else None)\<rparr>)"

section \<open>Reading a hold\<close>

definition as_string :: "jval option \<Rightarrow> string \<Rightarrow> string" where
  "as_string v fallback = (case v of Some (JStr s) \<Rightarrow> s | _ \<Rightarrow> fallback)"

definition as_string_array :: "jval option \<Rightarrow> string list" where
  "as_string_array v = (case v of Some (JArr vs) \<Rightarrow> jstrings vs | _ \<Rightarrow> [])"

definition has_elapsed :: "world \<Rightarrow> string \<Rightarrow> iso_datetime \<Rightarrow> bool" where
  "has_elapsed w expires_at now =
     (case (w_date_parse w expires_at, w_date_parse w now) of
        (Some e, Some n) \<Rightarrow> e \<le> n | _ \<Rightarrow> True)"

datatype verdict = Verdict_release | Verdict_reject

record hold_recommendation =
  hr_event_id :: string
  hr_actor :: author
  hr_verdict :: verdict
  hr_audience :: "string option"
  hr_reasoning :: string
  hr_when :: iso_datetime

record active_hold =
  ah_candidate :: string
  ah_tenant :: tenant_id
  ah_title :: string
  ah_category :: memory_category
  ah_author_id :: string
  ah_role :: "string option"
  ah_declared :: string
  ah_recommended :: string
  ah_triggers :: "string list"
  ah_matched :: "string list"
  ah_event_id :: string
  ah_held_at :: iso_datetime
  ah_expires_at :: string
  ah_expired :: bool
  ah_recommendations :: "hold_recommendation list"

definition to_recommendation :: "audit_event \<Rightarrow> hold_recommendation" where
  "to_recommendation e =
     \<lparr>hr_event_id = ev_id e, hr_actor = ev_actor e,
      hr_verdict = (if detail e ''verdict'' = Some (JStr ''release'') then Verdict_release else Verdict_reject),
      hr_audience = (case detail e ''audience'' of Some (JStr a) \<Rightarrow> Some a | _ \<Rightarrow> None),
      hr_reasoning = (case ev_reason e of None \<Rightarrow> [] | Some r \<Rightarrow> r), hr_when = ev_timestamp e\<rparr>"

definition to_active_hold ::
  "world \<Rightarrow> memory_candidate \<Rightarrow> audit_event \<Rightarrow> audit_event list \<Rightarrow> iso_datetime \<Rightarrow> active_hold" where
  "to_active_hold w c held recs now =
     (let expires_at = as_string (detail held ''expiresAt'') [];
          declared = resolve_audience (audience (cand_metadata c))
      in \<lparr>ah_candidate = cand_id c, ah_tenant = cand_tenant c, ah_title = cand_title c,
          ah_category = cand_category c, ah_author_id = author_id (cand_author c),
          ah_role = proposed_by_role (cand_metadata c), ah_declared = declared,
          ah_recommended = as_string (detail held ''recommendedAudience'') declared,
          ah_triggers = as_string_array (detail held ''triggers''),
          ah_matched = as_string_array (detail held ''matchedPatterns''), ah_event_id = ev_id held,
          ah_held_at = ev_timestamp held, ah_expires_at = expires_at,
          ah_expired = has_elapsed w expires_at now, ah_recommendations = map to_recommendation recs\<rparr>)"

text \<open>\<open>findCandidateSafe\<close>: a row that does not parse reads as absent.\<close>

definition find_candidate_safe :: "world \<Rightarrow> string \<Rightarrow> store_state \<Rightarrow> memory_candidate option" where
  "find_candidate_safe w i s =
     (case find_candidate (w_formats w) i (st_candidates s) of Inl _ \<Rightarrow> None | Inr c \<Rightarrow> c)"

definition held_candidate :: "world \<Rightarrow> string \<Rightarrow> tenant_id \<Rightarrow> store_state \<Rightarrow> memory_candidate option" where
  "held_candidate w i tn s =
     (case find_candidate_safe w i s of
        None \<Rightarrow> None
      | Some c \<Rightarrow> if cand_tenant c \<noteq> tn \<or> cand_status c \<noteq> Quarantined then None else Some c)"

definition find_active_hold ::
  "world \<Rightarrow> string \<Rightarrow> tenant_id \<Rightarrow> iso_datetime \<Rightarrow> store_state \<Rightarrow> fault + active_hold option" where
  "find_active_hold w i tn now s =
     (case held_candidate w i tn s of
        None \<Rightarrow> Inr None
      | Some c \<Rightarrow>
          and_then (memory_events w i tn s) (\<lambda>events.
            case find (\<lambda>e. ev_action e = A_held) events of
              None \<Rightarrow> Inr None
            | Some held \<Rightarrow>
                if list_ex (\<lambda>e. ev_action e = A_hold_resolved) events then Inr None
                else Inr (Some (to_active_hold w c held
                       (filter (\<lambda>e. ev_action e = A_hold_recommended) events) now))))"

definition list_active_holds ::
  "world \<Rightarrow> tenant_id \<Rightarrow> iso_datetime \<Rightarrow> store_state \<Rightarrow> fault + active_hold list" where
  "list_active_holds w tn now s =
     and_then (action_events w tn A_hold_resolved s) (\<lambda>resolved.
     and_then (action_events w tn A_hold_recommended s) (\<lambda>recs.
     and_then (action_events w tn A_held s) (\<lambda>helds.
       Inr (sort_key ah_expires_at (sort_key ah_candidate
         (List.map_filter (\<lambda>held.
            if ev_memory_id held \<in> set (map ev_memory_id resolved) then None
            else (case held_candidate w (ev_memory_id held) tn s of
                    None \<Rightarrow> None
                  | Some c \<Rightarrow> Some (to_active_hold w c held
                      (filter (\<lambda>e. ev_memory_id e = ev_memory_id held) recs) now))) helds))))))"

section \<open>Placing a hold\<close>

datatype not_holdable_reason =
    No_stored_row
  | Already_status candidate_status
  | Earlier_hold_resolved

datatype place_result =
    Held active_hold
  | Already_held active_hold
  | Would_hold string
  | Cap_reached nat rat
  | Not_holdable not_holdable_reason

definition hold_gate_actor :: author where
  "hold_gate_actor = \<lparr>author_kind = System, author_id = ''hold-gate'', author_name = None\<rparr>"

definition hold_expiry_actor :: author where
  "hold_expiry_actor = \<lparr>author_kind = System, author_id = ''hold-expiry'', author_name = None\<rparr>"

fun basis_name :: "audience_basis \<Rightarrow> string" where
  "basis_name Basis_credentials = ''credentials''"
| "basis_name Basis_pii = ''pii''"
| "basis_name Basis_none = ''none''"

definition strings_json :: "string list \<Rightarrow> jval" where
  "strings_json ss = JArr (map JStr ss)"

definition held_event ::
  "world \<Rightarrow> memory_candidate \<Rightarrow> hold_decision \<Rightarrow> rat \<Rightarrow> string \<Rightarrow> author option \<Rightarrow> iso_datetime \<Rightarrow> audit_event" where
  "held_event w c d ttl expires_at triggered_by now =
     \<lparr>ev_id = audit_id w (cand_id c) A_held [], ev_action = A_held, ev_memory_id = cand_id c,
      ev_tenant_id = cand_tenant c, ev_actor = hold_gate_actor,
      ev_reason = Some (''Held for human review: '' @ js_join '', '' (map trigger_name (hd_triggers d))),
      ev_details =
        [(''candidateId'', JStr (cand_id c)), (''triggers'', strings_json (map trigger_name (hd_triggers d))),
         (''declaredAudience'', JStr (hd_declared d)), (''recommendedAudience'', JStr (hd_recommended d)),
         (''basis'', JStr (basis_name (hd_basis d))), (''matchedPatterns'', strings_json (hd_matched d)),
         (''triggerRuleIds'', strings_json (hd_rule_ids d)), (''otherFlags'', strings_json (hd_other_flags d)),
         (''ttlDays'', JNum ttl), (''expiresAt'', JStr expires_at)]
        @ (case triggered_by of None \<Rightarrow> [] | Some a \<Rightarrow> [(''triggeredBy'', author_json a)]),
      ev_timestamp = now\<rparr>"

definition set_status :: "string \<Rightarrow> candidate_status \<Rightarrow> tenant_id \<Rightarrow> store_state \<Rightarrow> store_state" where
  "set_status i st tn s = s\<lparr>st_candidates := snd (update_status i st tn (st_candidates s))\<rparr>"

text \<open>The attempt inside the transaction of \<open>placeHold\<close>.\<close>

definition place_attempt ::
  "world \<Rightarrow> memory_candidate \<Rightarrow> hold_decision \<Rightarrow> rat \<Rightarrow> rat \<Rightarrow> string \<Rightarrow> bool \<Rightarrow> author option \<Rightarrow> iso_datetime \<Rightarrow>
    store_state \<Rightarrow> fault + place_result \<times> store_state" where
  "place_attempt w c d ttl cap expires_at dry triggered_by now s =
     and_then (find_active_hold w (cand_id c) (cand_tenant c) now s) (\<lambda>existing.
       case existing of
         Some h \<Rightarrow> Inr (Already_held h, s)
       | None \<Rightarrow>
           (case find_candidate_safe w (cand_id c) s of
              None \<Rightarrow> Inr (Not_holdable No_stored_row, s)
            | Some stored \<Rightarrow>
                if cand_tenant stored \<noteq> cand_tenant c then Inr (Not_holdable No_stored_row, s)
                else if cand_status stored \<noteq> Inbox \<and> cand_status stored \<noteq> Quarantined
                then Inr (Not_holdable (Already_status (cand_status stored)), s)
                else and_then (memory_events w (cand_id c) (cand_tenant c) s) (\<lambda>events.
                  if list_ex (\<lambda>e. ev_action e = A_held) events then Inr (Not_holdable Earlier_hold_resolved, s)
                  else and_then (list_active_holds w (cand_tenant c) now s) (\<lambda>holds.
                    if cap \<le> of_nat (length holds) then Inr (Cap_reached (length holds) cap, s)
                    else if dry then Inr (Would_hold expires_at, s)
                    else and_then (parse_event w (held_event w c d ttl expires_at triggered_by now)) (\<lambda>held.
                      and_then (insert_event w held (set_status (cand_id c) Quarantined (cand_tenant c) s)) (\<lambda>s'.
                        Inr (Held (to_active_hold w stored held [] now), s')))))))"

definition place_hold ::
  "world \<Rightarrow> memory_candidate \<Rightarrow> hold_decision \<Rightarrow> hold_limits option \<Rightarrow> bool \<Rightarrow> author option \<Rightarrow> iso_datetime \<Rightarrow>
    store_state \<Rightarrow> fault + place_result \<times> store_state" where
  "place_hold w c d limits dry triggered_by now s =
     (let ttl = resolve_ttl_days limits
      in case Option.bind (w_date_parse w now) (\<lambda>ms. w_to_iso w (ms + ttl * ms_per_day)) of
           None \<Rightarrow> Inl Bad_date
         | Some expires_at \<Rightarrow>
             place_attempt w c d ttl (resolve_max_active_holds limits) expires_at dry triggered_by now s)"

section \<open>Recommendations\<close>

datatype recommend_refusal =
    R_not_on_hold
  | R_hold_expired
  | R_missing_reasoning
  | R_missing_actor
  | R_unknown_verdict
  | R_unknown_audience
  | R_recommendation_cap

record recommend_input =
  ri_candidate :: string
  ri_tenant :: tenant_id
  ri_actor :: author
  ri_verdict :: string
  ri_audience :: "string option"
  ri_reasoning :: string

datatype recommend_result =
    Recommended string bool
  | Recommend_refused recommend_refusal

definition parse_verdict :: "string \<Rightarrow> verdict option" where
  "parse_verdict v =
     (if v = ''release'' then Some Verdict_release else if v = ''reject'' then Some Verdict_reject else None)"

definition recommended_event ::
  "recommend_input \<Rightarrow> string \<Rightarrow> string \<Rightarrow> iso_datetime \<Rightarrow> audit_event" where
  "recommended_event inp hold_event_id fresh_id now =
     \<lparr>ev_id = fresh_id, ev_action = A_hold_recommended, ev_memory_id = ri_candidate inp,
      ev_tenant_id = ri_tenant inp, ev_actor = ri_actor inp, ev_reason = Some (ri_reasoning inp),
      ev_details =
        [(''candidateId'', JStr (ri_candidate inp)), (''holdEventId'', JStr hold_event_id),
         (''verdict'', JStr (ri_verdict inp))]
        @ (case ri_audience inp of None \<Rightarrow> [] | Some a \<Rightarrow> [(''audience'', JStr a)]),
      ev_timestamp = now\<rparr>"

text \<open>\<open>recommendOnHold\<close>; \<open>fresh_id\<close> is \<open>randomUUID()\<close>.\<close>

definition recommend_on_hold ::
  "world \<Rightarrow> recommend_input \<Rightarrow> string \<Rightarrow> iso_datetime \<Rightarrow> store_state \<Rightarrow> fault + recommend_result \<times> store_state" where
  "recommend_on_hold w inp fresh_id now s =
     (if js_trim (ri_reasoning inp) = [] then Inr (Recommend_refused R_missing_reasoning, s)
      else if js_trim (author_id (ri_actor inp)) = [] then Inr (Recommend_refused R_missing_actor, s)
      else
        (case parse_verdict (ri_verdict inp) of
           None \<Rightarrow> Inr (Recommend_refused R_unknown_verdict, s)
         | Some v \<Rightarrow>
             if (case ri_audience inp of None \<Rightarrow> False | Some a \<Rightarrow> audience_rank a = None)
             then Inr (Recommend_refused R_unknown_audience, s)
             else and_then (find_active_hold w (ri_candidate inp) (ri_tenant inp) now s) (\<lambda>found.
               case found of
                 None \<Rightarrow> Inr (Recommend_refused R_not_on_hold, s)
               | Some h \<Rightarrow>
                   if ah_expired h then Inr (Recommend_refused R_hold_expired, s)
                   else (case find (\<lambda>r. author_id (hr_actor r) = author_id (ri_actor inp) \<and> hr_verdict r = v
                                     \<and> hr_audience r = ri_audience inp) (ah_recommendations h) of
                           Some same \<Rightarrow> Inr (Recommended (hr_event_id same) True, s)
                         | None \<Rightarrow>
                             if max_recommendations_per_hold \<le> length (ah_recommendations h)
                             then Inr (Recommend_refused R_recommendation_cap, s)
                             else and_then (write_event w (recommended_event inp (ah_event_id h) fresh_id now) s) (\<lambda>s'.
                               Inr (Recommended fresh_id False, s'))))))"

section \<open>Resolution and expiry\<close>

datatype hold_resolution = Released | Rejected_by_human | Expired

fun resolution_name :: "hold_resolution \<Rightarrow> string" where
  "resolution_name Released = ''released''"
| "resolution_name Rejected_by_human = ''rejected''"
| "resolution_name Expired = ''expired''"

text \<open>
  An object literal with a spread: a member of \<open>details\<close> overwrites the member of the same name
  in place, and the others follow.
\<close>

definition spread :: "(string \<times> jval) list \<Rightarrow> (string \<times> jval) list \<Rightarrow> (string \<times> jval) list" where
  "spread base over =
     map (\<lambda>(k, v). (k, case map_of over k of None \<Rightarrow> v | Some v' \<Rightarrow> v')) base
     @ filter (\<lambda>(k, v). k \<notin> set (map fst base)) over"

definition resolved_event ::
  "world \<Rightarrow> active_hold \<Rightarrow> hold_resolution \<Rightarrow> author \<Rightarrow> string \<Rightarrow> (string \<times> jval) list \<Rightarrow> iso_datetime \<Rightarrow> audit_event" where
  "resolved_event w h res actor reason details now =
     \<lparr>ev_id = audit_id w (ah_candidate h) A_hold_resolved [], ev_action = A_hold_resolved,
      ev_memory_id = ah_candidate h, ev_tenant_id = ah_tenant h, ev_actor = actor, ev_reason = Some reason,
      ev_details = spread
        [(''candidateId'', JStr (ah_candidate h)), (''holdEventId'', JStr (ah_event_id h)),
         (''resolution'', JStr (resolution_name res)), (''declaredAudience'', JStr (ah_declared h)),
         (''recommendedAudience'', JStr (ah_recommended h))] details,
      ev_timestamp = now\<rparr>"

definition write_hold_resolved ::
  "world \<Rightarrow> active_hold \<Rightarrow> hold_resolution \<Rightarrow> author \<Rightarrow> string \<Rightarrow> (string \<times> jval) list \<Rightarrow> iso_datetime \<Rightarrow>
    store_state \<Rightarrow> fault + string \<times> store_state" where
  "write_hold_resolved w h res actor reason details now s =
     and_then (write_event w (resolved_event w h res actor reason details now) s) (\<lambda>s'.
       Inr (audit_id w (ah_candidate h) A_hold_resolved [], s'))"

definition expiry_reason :: "active_hold \<Rightarrow> string" where
  "expiry_reason h = ''Hold expired unresolved at '' @ ah_expires_at h @ '': not promoted''"

definition expire_hold :: "world \<Rightarrow> active_hold \<Rightarrow> iso_datetime \<Rightarrow> store_state \<Rightarrow> fault + string \<times> store_state" where
  "expire_hold w h now s =
     write_hold_resolved w h Expired hold_expiry_actor (expiry_reason h)
       [(''expiresAt'', JStr (ah_expires_at h))] now
       (set_status (ah_candidate h) Rejected (ah_tenant h) s)"

record expired_hold =
  eh_candidate :: string
  eh_expires_at :: string
  eh_event_id :: "string option"

text \<open>Each hold closes in a transaction of its own: a throw keeps what was closed before it.\<close>

fun close_holds ::
  "world \<Rightarrow> iso_datetime \<Rightarrow> bool \<Rightarrow> active_hold list \<Rightarrow> store_state \<Rightarrow> (fault + expired_hold list) \<times> store_state" where
  "close_holds w now dry [] s = (Inr [], s)"
| "close_holds w now dry (h # hs) s =
     (case (if dry then Inr (None, s) else map_sum id (map_prod Some id) (expire_hold w h now s)) of
        Inl x \<Rightarrow> (Inl x, s)
      | Inr (receipt, s1) \<Rightarrow>
          (case close_holds w now dry hs s1 of
             (Inl x, s2) \<Rightarrow> (Inl x, s2)
           | (Inr es, s2) \<Rightarrow>
               (Inr (\<lparr>eh_candidate = ah_candidate h, eh_expires_at = ah_expires_at h, eh_event_id = receipt\<rparr> # es), s2)))"

definition expire_holds ::
  "world \<Rightarrow> tenant_id \<Rightarrow> iso_datetime \<Rightarrow> bool \<Rightarrow> store_state \<Rightarrow> (fault + expired_hold list) \<times> store_state" where
  "expire_holds w tn now dry s =
     (case list_active_holds w tn now s of
        Inl x \<Rightarrow> (Inl x, s)
      | Inr holds \<Rightarrow> close_holds w now dry (filter ah_expired holds) s)"

end
