(* ===== verification/Hold_Laws.thy ===== *)
theory Hold_Laws
  imports Holds
begin

text \<open>
  What the holds of \<open>Holds\<close> guarantee on a well-formed database: the open holds as a function of
  the receipts and the candidates, the bound on their number, and the effect of an expiry run.
\<close>

section \<open>Well-formed databases\<close>

definition state_ok :: "world \<Rightarrow> store_state \<Rightarrow> bool" where
  "state_ok w s \<longleftrightarrow> candidates_ok (w_formats w) (st_candidates s) \<and> table_ok (w_formats w) (st_memories s)
     \<and> audits_ok (w_formats w) (st_audits s)"

abbreviation events_of :: "world \<Rightarrow> store_state \<Rightarrow> audit_event list" where
  "events_of w s \<equiv> history (w_formats w) (st_audits s)"

abbreviation cand :: "world \<Rightarrow> store_state \<Rightarrow> string \<Rightarrow> memory_candidate option" where
  "cand w s \<equiv> candidate_view (w_formats w) (st_candidates s)"

lemma state_ok_parts:
  assumes "state_ok w s"
  shows "candidates_ok (w_formats w) (st_candidates s)" "table_ok (w_formats w) (st_memories s)"
    "audits_ok (w_formats w) (st_audits s)"
  using assms by (simp_all add: state_ok_def)

lemma find_candidate_safe_ok: "state_ok w s \<Longrightarrow> find_candidate_safe w i s = cand w s i"
  by (simp add: find_candidate_safe_def find_candidate_ok state_ok_parts)

lemma cand_wf: "state_ok w s \<Longrightarrow> cand w s i = Some c \<Longrightarrow> candidate_wf (w_formats w) c \<and> cand_id c = i"
  using view_candidate_obtain [OF state_ok_parts(1)] by blast

lemma held_candidate_iff:
  "state_ok w s \<Longrightarrow> held_candidate w i tn s = Some c \<longleftrightarrow>
     cand w s i = Some c \<and> cand_tenant c = tn \<and> cand_status c = Quarantined"
  by (auto simp: held_candidate_def find_candidate_safe_ok split: option.split)

lemma held_candidate_id: "state_ok w s \<Longrightarrow> held_candidate w i tn s = Some c \<Longrightarrow> cand_id c = i \<and> cand_tenant c = tn"
  using cand_wf by (auto simp: held_candidate_iff)

section \<open>Writing a status and a receipt\<close>

lemma set_status_parts [simp]:
  "st_memories (set_status i st tn s) = st_memories s" "st_audits (set_status i st tn s) = st_audits s"
  "st_links (set_status i st tn s) = st_links s" "st_policies (set_status i st tn s) = st_policies s"
  by (simp_all add: set_status_def)

lemma set_status_ok: "state_ok w s \<Longrightarrow> state_ok w (set_status i st tn s)"
  using update_status_ok(1) [OF state_ok_parts(1)] by (auto simp: state_ok_def set_status_def)

lemma set_status_view:
  "state_ok w s \<Longrightarrow> cand w (set_status i st tn s) j =
     map_option (\<lambda>c. if j = i \<and> cand_tenant c = tn then c\<lparr>cand_status := st\<rparr> else c) (cand w s j)"
  using update_status_ok(2) [OF state_ok_parts(1)] by (auto simp: set_status_def split: option.split)

lemma held_after_other:
  "state_ok w s \<Longrightarrow> j \<noteq> i \<Longrightarrow> held_candidate w j tn' (set_status i st tn s) = held_candidate w j tn' s"
  by (simp add: held_candidate_def find_candidate_safe_ok set_status_ok set_status_view option.map_ident)

lemma write_event_ok:
  assumes ok: "state_ok w s" and wr: "write_event w e s = Inr s'" and keys: "json_distinct (JObj (ev_details e))"
  shows "\<exists>x. receipt_of w e x \<and> state_ok w s' \<and> events_of w s' = events_of w s @ [x]
    \<and> st_candidates s' = st_candidates s \<and> st_memories s' = st_memories s \<and> st_links s' = st_links s
    \<and> st_policies s' = st_policies s"
  using write_event_history [OF state_ok_parts(3) [OF ok] wr keys] ok
  by (metis state_ok_def)

lemma held_same_candidates: "st_candidates s' = st_candidates s \<Longrightarrow> held_candidate w i tn s' = held_candidate w i tn s"
  by (simp add: held_candidate_def find_candidate_safe_def)

section \<open>The open holds as a function of the history\<close>

definition tenant_action :: "tenant_id \<Rightarrow> audit_action \<Rightarrow> audit_event list \<Rightarrow> audit_event list" where
  "tenant_action tn a es = filter (\<lambda>e. ev_tenant_id e = tn \<and> ev_action e = a) es"

definition hold_row ::
  "world \<Rightarrow> tenant_id \<Rightarrow> iso_datetime \<Rightarrow> store_state \<Rightarrow> audit_event list \<Rightarrow> audit_event \<Rightarrow> active_hold option" where
  "hold_row w tn now s es held =
     (if ev_memory_id held \<in> ev_memory_id ` set (tenant_action tn A_hold_resolved es) then None
      else map_option (\<lambda>c. to_active_hold w c held
             (filter (\<lambda>e. ev_memory_id e = ev_memory_id held)
                (sort_key ev_timestamp (tenant_action tn A_hold_recommended es))) now)
             (held_candidate w (ev_memory_id held) tn s))"

definition open_holds :: "world \<Rightarrow> tenant_id \<Rightarrow> iso_datetime \<Rightarrow> store_state \<Rightarrow> active_hold list" where
  "open_holds w tn now s =
     sort_key ah_expires_at (sort_key ah_candidate
       (List.map_filter (hold_row w tn now s (events_of w s))
          (sort_key ev_timestamp (tenant_action tn A_held (events_of w s)))))"

lemma list_active_holds_ok: "state_ok w s \<Longrightarrow> list_active_holds w tn now s = Inr (open_holds w tn now s)"
proof -
  assume ok: "state_ok w s"
  have row: "(if ev_memory_id held \<in> set (map ev_memory_id (sort_key ev_timestamp (tenant_action tn A_hold_resolved (events_of w s)))) then None
      else case held_candidate w (ev_memory_id held) tn s of None \<Rightarrow> None
        | Some c \<Rightarrow> Some (to_active_hold w c held (filter (\<lambda>e. ev_memory_id e = ev_memory_id held)
            (sort_key ev_timestamp (tenant_action tn A_hold_recommended (events_of w s)))) now))
      = hold_row w tn now s (events_of w s) held" for held
    by (simp add: hold_row_def map_option_case)
  show ?thesis
    unfolding list_active_holds_def action_events_ok [OF state_ok_parts(3) [OF ok]] and_then_simps
      tenant_action_def [symmetric] row open_holds_def ..
qed

lemma hold_row_candidate:
  "state_ok w s \<Longrightarrow> hold_row w tn now s es held = Some h \<Longrightarrow> ah_candidate h = ev_memory_id held \<and> ah_tenant h = tn"
  using held_candidate_id by (fastforce simp: hold_row_def to_active_hold_def Let_def split: if_splits)

lemma open_holds_members:
  "h \<in> set (open_holds w tn now s) \<longleftrightarrow>
     (\<exists>e \<in> set (events_of w s). ev_tenant_id e = tn \<and> ev_action e = A_held \<and> hold_row w tn now s (events_of w s) e = Some h)"
  by (auto simp: open_holds_def map_filter_def tenant_action_def) force

section \<open>How many holds are open\<close>

definition still_open :: "world \<Rightarrow> tenant_id \<Rightarrow> store_state \<Rightarrow> audit_event list \<Rightarrow> audit_event \<Rightarrow> bool" where
  "still_open w tn s es e \<longleftrightarrow> ev_memory_id e \<notin> ev_memory_id ` set (tenant_action tn A_hold_resolved es)
     \<and> held_candidate w (ev_memory_id e) tn s \<noteq> None"

definition open_count :: "world \<Rightarrow> tenant_id \<Rightarrow> store_state \<Rightarrow> nat" where
  "open_count w tn s = length (filter (still_open w tn s (events_of w s)) (tenant_action tn A_held (events_of w s)))"

lemma length_map_filter: "length (List.map_filter f xs) = length (filter (\<lambda>x. f x \<noteq> None) xs)"
  by (simp add: map_filter_def)

lemma length_open_holds: "length (open_holds w tn now s) = open_count w tn s"
proof -
  have "(\<lambda>e. hold_row w tn now s (events_of w s) e \<noteq> None) = still_open w tn s (events_of w s)"
    by (auto simp: hold_row_def still_open_def)
  then have "length (open_holds w tn now s)
      = length (filter (still_open w tn s (events_of w s)) (sort_key ev_timestamp (tenant_action tn A_held (events_of w s))))"
    by (simp add: open_holds_def length_map_filter)
  also have "\<dots> = open_count w tn s" by (simp add: open_count_def sort_key_filter)
  finally show ?thesis .
qed

text \<open>A step that only closes holds: no new \<open>held\<close> receipt, no candidate newly quarantined.\<close>

lemma length_filter_le: "(\<And>x. x \<in> set xs \<Longrightarrow> P x \<Longrightarrow> Q x) \<Longrightarrow> length (filter P xs) \<le> length (filter Q xs)"
  by (induction xs) auto

lemma open_count_closing:
  assumes "events_of w s' = events_of w s @ [x]" "ev_action x \<noteq> A_held"
    and "\<And>i. held_candidate w i tn s' \<noteq> None \<Longrightarrow> held_candidate w i tn s \<noteq> None"
  shows "open_count w tn s' \<le> open_count w tn s"
proof -
  have "tenant_action tn A_held (events_of w s') = tenant_action tn A_held (events_of w s)"
    using assms(1,2) by (simp add: tenant_action_def)
  moreover have "still_open w tn s (events_of w s) e" if "still_open w tn s' (events_of w s') e" for e
    using that assms by (auto simp: still_open_def tenant_action_def)
  ultimately show ?thesis unfolding open_count_def by (auto intro: length_filter_le)
qed

lemma open_count_opening:
  assumes hist: "events_of w s' = events_of w s @ [x]" and x: "ev_action x = A_held" "ev_tenant_id x = tn"
    and none: "\<And>e. e \<in> set (events_of w s) \<Longrightarrow> ev_memory_id e = ev_memory_id x \<Longrightarrow> ev_tenant_id e = tn \<Longrightarrow> ev_action e \<noteq> A_held"
    and held: "\<And>i. i \<noteq> ev_memory_id x \<Longrightarrow> held_candidate w i tn s' = held_candidate w i tn s"
  shows "open_count w tn s' \<le> Suc (open_count w tn s)"
proof -
  have res: "tenant_action tn A_hold_resolved (events_of w s') = tenant_action tn A_hold_resolved (events_of w s)"
    using hist x by (simp add: tenant_action_def)
  have new: "tenant_action tn A_held (events_of w s') = tenant_action tn A_held (events_of w s) @ [x]"
    using hist x by (simp add: tenant_action_def)
  have "still_open w tn s (events_of w s) e"
    if "e \<in> set (tenant_action tn A_held (events_of w s))" "still_open w tn s' (events_of w s') e" for e
  proof -
    have "ev_memory_id e \<noteq> ev_memory_id x" using that(1) none by (auto simp: tenant_action_def)
    then show ?thesis using that(2) held by (simp add: still_open_def res)
  qed
  then have "length (filter (still_open w tn s' (events_of w s')) (tenant_action tn A_held (events_of w s)))
      \<le> open_count w tn s"
    unfolding open_count_def by (rule length_filter_le)
  then show ?thesis unfolding open_count_def new by simp
qed

section \<open>Placing a hold\<close>

lemma held_event_fields [simp]:
  "ev_action (held_event w c d ttl ex tb now) = A_held" "ev_memory_id (held_event w c d ttl ex tb now) = cand_id c"
  "ev_tenant_id (held_event w c d ttl ex tb now) = cand_tenant c"
  "ev_id (held_event w c d ttl ex tb now) = audit_id w (cand_id c) A_held []"
  by (simp_all add: held_event_def)

lemma strings_json_distinct [simp]: "json_distinct (strings_json ss)"
  by (auto simp: strings_json_def)

lemma author_json_distinct [simp]: "json_distinct (author_json a)"
  by (rule plain_distinct) simp

lemma held_event_keys: "json_distinct (JObj (ev_details (held_event w c d ttl ex tb now)))"
  by (cases tb) (simp_all add: held_event_def)

lemma place_attempt_Held:
  assumes "place_attempt w c d ttl cap ex dry tb now s = Inr (Held h, s')"
  obtains stored x holds events where "\<not> dry" "find_candidate_safe w (cand_id c) s = Some stored"
    "cand_tenant stored = cand_tenant c" "cand_status stored \<in> {Inbox, Quarantined}"
    "memory_events w (cand_id c) (cand_tenant c) s = Inr events" "\<forall>e \<in> set events. ev_action e \<noteq> A_held"
    "list_active_holds w (cand_tenant c) now s = Inr holds" "of_nat (length holds) < cap"
    "parse_event w (held_event w c d ttl ex tb now) = Inr x" "h = to_active_hold w stored x [] now"
    "write_event w (held_event w c d ttl ex tb now) (set_status (cand_id c) Quarantined (cand_tenant c) s) = Inr s'"
  using assms
  by (auto simp: place_attempt_def and_then_Inr write_event_def list_ex_iff split: option.splits if_splits)

lemma place_attempt_other:
  "place_attempt w c d ttl cap ex dry tb now s = Inr (res, s') \<Longrightarrow> (\<And>h. res \<noteq> Held h) \<Longrightarrow> s' = s"
  by (auto simp: place_attempt_def and_then_Inr split: option.splits if_splits)

text \<open>The effect of a placement: nothing, or one receipt and one status, below the cap.\<close>

lemma placed_effect:
  assumes ok: "state_ok w s" and placed: "place_hold w c d limits dry tb now s = Inr (Held h, s')"
  obtains stored x where "cand w s (cand_id c) = Some stored" "cand_tenant stored = cand_tenant c"
    "cand_status stored \<in> {Inbox, Quarantined}"
    "ev_action x = A_held" "ev_memory_id x = cand_id c" "ev_tenant_id x = cand_tenant c"
    "\<And>e. e \<in> set (events_of w s) \<Longrightarrow> ev_memory_id e = cand_id c \<Longrightarrow> ev_tenant_id e = cand_tenant c \<Longrightarrow> ev_action e \<noteq> A_held"
    "of_nat (open_count w (cand_tenant c) s) < resolve_max_active_holds limits"
    "state_ok w s'" "events_of w s' = events_of w s @ [x]" "st_memories s' = st_memories s"
    "st_candidates s' = st_candidates (set_status (cand_id c) Quarantined (cand_tenant c) s)"
    "st_links s' = st_links s" "st_policies s' = st_policies s" "\<not> dry"
proof -
  obtain ex where "place_attempt w c d (resolve_ttl_days limits) (resolve_max_active_holds limits) ex dry tb now s
      = Inr (Held h, s')"
    using placed by (auto simp: place_hold_def Let_def split: option.splits)
  then obtain stored x holds events where
    dry: "\<not> dry" and stored: "find_candidate_safe w (cand_id c) s = Some stored" "cand_tenant stored = cand_tenant c"
      "cand_status stored \<in> {Inbox, Quarantined}"
    and events: "memory_events w (cand_id c) (cand_tenant c) s = Inr events" "\<forall>e \<in> set events. ev_action e \<noteq> A_held"
    and holds: "list_active_holds w (cand_tenant c) now s = Inr holds" "of_nat (length holds) < resolve_max_active_holds limits"
    and x: "parse_event w (held_event w c d (resolve_ttl_days limits) ex tb now) = Inr x"
    and h: "h = to_active_hold w stored x [] now"
    and wr: "write_event w (held_event w c d (resolve_ttl_days limits) ex tb now)
        (set_status (cand_id c) Quarantined (cand_tenant c) s) = Inr s'"
    by (rule place_attempt_Held)
  obtain x' where x': "receipt_of w (held_event w c d (resolve_ttl_days limits) ex tb now) x'"
    and s': "state_ok w s'" "events_of w s' = events_of w s @ [x']"
      "st_candidates s' = st_candidates (set_status (cand_id c) Quarantined (cand_tenant c) s)"
      "st_memories s' = st_memories s" "st_links s' = st_links s" "st_policies s' = st_policies s"
    using write_event_ok [OF set_status_ok [OF ok] wr held_event_keys] unfolding set_status_parts by blast
  have view: "cand w s (cand_id c) = Some stored" using stored(1) find_candidate_safe_ok [OF ok] by simp
  then have "non_empty_string (cand_tenant c) = Some (cand_tenant c)"
    using cand_wf [OF ok view] stored(2) wf_tenant [of "w_formats w" stored] by simp
  then have fields: "ev_action x' = A_held" "ev_memory_id x' = cand_id c" "ev_tenant_id x' = cand_tenant c"
    using receipt_fields [OF x'] by auto
  have none: "ev_action e \<noteq> A_held"
    if "e \<in> set (events_of w s)" "ev_memory_id e = cand_id c" "ev_tenant_id e = cand_tenant c" for e
    using events that memory_events_ok [OF state_ok_parts(3) [OF ok], of "cand_id c" "cand_tenant c"] by auto
  have "length holds = open_count w (cand_tenant c) s"
    using holds(1) list_active_holds_ok [OF ok, of "cand_tenant c" now] length_open_holds [of w "cand_tenant c" now s] by simp
  then show thesis
    using that [OF view stored(2,3) fields none _ s'(1,2,4,3,5,6) dry] holds(2) by metis
qed

lemma not_held_unchanged:
  "place_hold w c d limits dry tb now s = Inr (res, s') \<Longrightarrow> (\<And>h. res \<noteq> Held h) \<Longrightarrow> s' = s"
  by (auto simp: place_hold_def Let_def split: option.splits dest: place_attempt_other)

end
