(* ===== verification/Hold_Expiry.thy ===== *)
theory Hold_Expiry
  imports Hold_Laws
begin

text \<open>
  The expiry run of \<open>hold.ts\<close> (\<open>expireHolds\<close>): what closing one hold does to the list of open
  holds, and that a run closes every hold whose bound has elapsed, each exactly once, and promotes
  nothing.
\<close>

section \<open>Receipts with derived ids\<close>

text \<open>
  The \<open>held\<close> and \<open>hold_resolved\<close> receipts carry the id derived from their candidate, and no other
  receipt, nor the receipt of another stored candidate, has the id of a candidate's
  \<open>hold_resolved\<close> receipt: what the digest is relied on for.
\<close>

definition derived_receipts :: "world \<Rightarrow> store_state \<Rightarrow> bool" where
  "derived_receipts w s \<longleftrightarrow>
     (\<forall>e \<in> set (events_of w s). ev_action e = A_held \<longrightarrow> ev_id e = audit_id w (ev_memory_id e) A_held [])
     \<and> (\<forall>i c. cand w s i = Some c \<longrightarrow>
          fmt_uuid (w_formats w) (audit_id w i A_hold_resolved [])
          \<and> (\<forall>e \<in> set (events_of w s). ev_id e = audit_id w i A_hold_resolved [] \<longrightarrow>
               ev_action e = A_hold_resolved \<and> ev_memory_id e = i \<and> ev_tenant_id e = cand_tenant c)
          \<and> (\<forall>j. cand w s j \<noteq> None \<longrightarrow> audit_id w j A_hold_resolved [] = audit_id w i A_hold_resolved [] \<longrightarrow> j = i))"

lemma distinct_of_map_filter:
  "distinct (map g xs) \<Longrightarrow> (\<And>x y. x \<in> set xs \<Longrightarrow> f x = Some y \<Longrightarrow> k y = g x) \<Longrightarrow>
    distinct (map k (List.map_filter f xs)) \<and> set (map k (List.map_filter f xs)) \<subseteq> set (map g xs)"
proof (induction xs)
  case (Cons x xs)
  then have IH: "distinct (map k (List.map_filter f xs)) \<and> set (map k (List.map_filter f xs)) \<subseteq> set (map g xs)" by simp
  show ?case
  proof (cases "f x")
    case (Some y)
    then have "k y = g x" using Cons.prems(2) by simp
    then show ?thesis using IH Cons.prems(1) Some by (auto simp: map_filter_simps)
  qed (use IH in \<open>auto simp: map_filter_simps\<close>)
qed (simp add: map_filter_simps)

lemma distinct_sort_map: "distinct (map k (sort_key f xs)) = distinct (map k xs)"
proof -
  have "mset (map k (sort_key f xs)) = mset (map k xs)" by simp
  then show ?thesis by (metis mset_eq_imp_distinct_iff)
qed

lemma history_ids: "audits_ok fmt rows \<Longrightarrow> map ev_id (history fmt rows) = map ar_id rows"
  by (auto simp: history_def audits_ok_def row_ok_fields)

lemma open_holds_distinct:
  assumes ok: "state_ok w s" and der: "derived_receipts w s"
  shows "distinct (map ah_candidate (open_holds w tn now s))"
proof -
  let ?es = "tenant_action tn A_held (events_of w s)"
  have "distinct (map ev_id (events_of w s))"
    using state_ok_parts(3) [OF ok] by (simp add: history_ids audits_ok_def audit_table_ok_def)
  then have "distinct (map ev_id ?es)" by (simp add: tenant_action_def List.distinct_map_filter)
  moreover have "map ev_id ?es = map (\<lambda>i. audit_id w i A_held []) (map ev_memory_id ?es)"
    using der by (auto simp: derived_receipts_def tenant_action_def)
  ultimately have "distinct (map ev_memory_id ?es)" by (metis distinct_map)
  then have "distinct (map ev_memory_id (sort_key ev_timestamp ?es))" by (simp only: distinct_sort_map)
  then have "distinct (map ah_candidate (List.map_filter (hold_row w tn now s (events_of w s)) (sort_key ev_timestamp ?es)))"
    by (rule distinct_of_map_filter [THEN conjunct1]) (use hold_row_candidate [OF ok] in auto)
  then show ?thesis by (simp only: open_holds_def distinct_sort_map)
qed

section \<open>Closing one hold\<close>

lemma map_filter_drop:
  assumes "\<And>x. x \<in> set xs \<Longrightarrow> f' x = (if g x = i then None else f x)" "\<And>x y. x \<in> set xs \<Longrightarrow> f x = Some y \<Longrightarrow> k y = g x"
  shows "List.map_filter f' xs = filter (\<lambda>y. k y \<noteq> i) (List.map_filter f xs)"
  using assms
proof (induction xs)
  case (Cons x xs)
  then have IH: "List.map_filter f' xs = filter (\<lambda>y. k y \<noteq> i) (List.map_filter f xs)" by simp
  have x: "f' x = (if g x = i then None else f x)" using Cons.prems(1) by simp
  show ?case
  proof (cases "f x")
    case (Some y)
    then have "k y = g x" using Cons.prems(2) by simp
    then show ?thesis using IH x Some by (simp add: map_filter_simps)
  qed (simp add: IH x map_filter_simps)
qed (simp add: map_filter_simps)

lemma open_holds_after_closing:
  assumes ok: "state_ok w s" and ok': "state_ok w s'" and hist: "events_of w s' = events_of w s @ [x]"
    and x: "ev_action x = A_hold_resolved" "ev_memory_id x = i" "ev_tenant_id x = tn"
    and held: "\<And>j. j \<noteq> i \<Longrightarrow> held_candidate w j tn s' = held_candidate w j tn s"
  shows "open_holds w tn now s' = filter (\<lambda>h. ah_candidate h \<noteq> i) (open_holds w tn now s)"
proof -
  have acts: "tenant_action tn A_held (events_of w s') = tenant_action tn A_held (events_of w s)"
    "tenant_action tn A_hold_recommended (events_of w s') = tenant_action tn A_hold_recommended (events_of w s)"
    "ev_memory_id ` set (tenant_action tn A_hold_resolved (events_of w s'))
       = insert i (ev_memory_id ` set (tenant_action tn A_hold_resolved (events_of w s)))"
    using hist x by (auto simp: tenant_action_def)
  have row: "hold_row w tn now s' (events_of w s') e
      = (if ev_memory_id e = i then None else hold_row w tn now s (events_of w s) e)" for e
    using held by (simp add: hold_row_def acts)
  have "List.map_filter (hold_row w tn now s' (events_of w s')) xs
      = filter (\<lambda>h. ah_candidate h \<noteq> i) (List.map_filter (hold_row w tn now s (events_of w s)) xs)" for xs
    by (rule map_filter_drop [where g = ev_memory_id]) (use row hold_row_candidate [OF ok] in auto)
  then show ?thesis by (simp add: open_holds_def acts(1) sort_key_filter)
qed

lemma trim_keeps_first: "\<not> js_space c \<Longrightarrow> js_trim (c # cs) \<noteq> []"
proof -
  assume c: "\<not> js_space c"
  have "dropWhile js_space (rev cs @ [c]) \<noteq> []" using c by (auto simp: dropWhile_eq_Nil_conv)
  then show ?thesis using c by (simp add: js_trim_def)
qed

lemma resolved_event_fields [simp]:
  "ev_action (resolved_event w h res a r d now) = A_hold_resolved" "ev_memory_id (resolved_event w h res a r d now) = ah_candidate h"
  "ev_tenant_id (resolved_event w h res a r d now) = ah_tenant h"
  "ev_id (resolved_event w h res a r d now) = audit_id w (ah_candidate h) A_hold_resolved []"
  "ev_timestamp (resolved_event w h res a r d now) = now" "ev_actor (resolved_event w h res a r d now) = a"
  "ev_reason (resolved_event w h res a r d now) = Some r"
  by (simp_all add: resolved_event_def)

lemma expiry_event_parses:
  assumes "fmt_uuid fmt (audit_id w (ah_candidate h) A_hold_resolved [])" "fmt_uuid fmt (ah_candidate h)"
    "fmt_datetime fmt now" "non_empty_string (ah_tenant h) = Some (ah_tenant h)"
  shows "\<exists>x. schema_event fmt (resolved_event w h Expired hold_expiry_actor
      (expiry_reason h) d now) = Some x"
proof -
  have "\<exists>t. expiry_reason h = CHR ''H'' # t" by (simp add: expiry_reason_def)
  moreover have "\<not> js_space CHR ''H''" by (simp add: js_space_def)
  ultimately have "non_empty_string (expiry_reason h) \<noteq> None"
    using trim_keeps_first by (auto simp: non_empty_string_def Let_def)
  moreover have "schema_author hold_expiry_actor = Some hold_expiry_actor"
    by (simp add: schema_author_def hold_expiry_actor_def non_empty_string_def js_trim_def js_space_def Let_def)
  ultimately show ?thesis using assms by (auto simp: schema_event_def schema_optional_def)
qed

lemma expiry_details_keys:
  "json_distinct (JObj (ev_details (resolved_event w h res a r [(''expiresAt'', JStr t)] now)))"
  by (simp add: resolved_event_def spread_def)

text \<open>Closing an open hold succeeds and takes exactly its candidate off the list.\<close>

lemma expire_hold_closes:
  assumes ok: "state_ok w s" and der: "derived_receipts w s" and now: "fmt_datetime (w_formats w) now"
    and h: "h \<in> set (open_holds w tn t0 s)"
  shows "\<exists>s'. expire_hold w h now s = Inr (audit_id w (ah_candidate h) A_hold_resolved [], s')
    \<and> state_ok w s' \<and> derived_receipts w s' \<and> st_memories s' = st_memories s
    \<and> st_candidates s' = st_candidates (set_status (ah_candidate h) Rejected tn s)
    \<and> (\<forall>t. open_holds w tn t s' = filter (\<lambda>g. ah_candidate g \<noteq> ah_candidate h) (open_holds w tn t s))"
proof -
  let ?i = "ah_candidate h"
  let ?s1 = "set_status ?i Rejected tn s"
  let ?e = "resolved_event w h Expired hold_expiry_actor
      (expiry_reason h) [(''expiresAt'', JStr (ah_expires_at h))] now"
  obtain e where e: "e \<in> set (events_of w s)" "ev_tenant_id e = tn" "ev_action e = A_held"
      "hold_row w tn t0 s (events_of w s) e = Some h"
    using h unfolding open_holds_members by blast
  have i: "?i = ev_memory_id e" and tn: "ah_tenant h = tn" using hold_row_candidate [OF ok e(4)] by auto
  obtain c where c: "held_candidate w ?i tn s = Some c"
    using e(4) i by (auto simp: hold_row_def split: if_splits)
  then have view: "cand w s ?i = Some c" "cand_tenant c = tn" by (auto simp: held_candidate_iff [OF ok])
  then have wf: "candidate_wf (w_formats w) c" "cand_id c = ?i" using cand_wf [OF ok] by auto
  have "fmt_uuid (w_formats w) ?i" using wf by (auto simp: candidate_wf_def schema_candidate_def split: Option.bind_splits if_splits)
  moreover have "non_empty_string tn = Some tn" using wf_tenant [OF wf(1)] view(2) by simp
  moreover have "fmt_uuid (w_formats w) (audit_id w ?i A_hold_resolved [])"
    using der view(1) by (simp add: derived_receipts_def)
  ultimately obtain y where y: "schema_event (w_formats w) ?e = Some y"
    using expiry_event_parses [where h = h and fmt = "w_formats w" and w = w and now = now] now tn by auto
  have y_id: "ev_id y = audit_id w ?i A_hold_resolved []" using schema_event_fields [OF y] by simp
  have unresolved: "ev_memory_id g \<noteq> ?i" if "g \<in> set (events_of w s)" "ev_tenant_id g = tn" "ev_action g = A_hold_resolved" for g
  proof -
    have "?i \<notin> ev_memory_id ` set (tenant_action tn A_hold_resolved (events_of w s))"
      using e(4) unfolding i by (simp add: hold_row_def split: if_splits)
    moreover have "g \<in> set (tenant_action tn A_hold_resolved (events_of w s))"
      using that by (simp add: tenant_action_def)
    ultimately show ?thesis by (metis imageI)
  qed
  have fresh: "ev_id y \<notin> set (map ar_id (st_audits s))"
  proof
    assume "ev_id y \<in> set (map ar_id (st_audits s))"
    then obtain g where "g \<in> set (events_of w s)" "ev_id g = audit_id w ?i A_hold_resolved []"
      unfolding history_ids [OF state_ok_parts(3) [OF ok], symmetric] y_id by auto
    then show False using der view unresolved unfolding derived_receipts_def by blast
  qed
  obtain s' where wr: "write_event w ?e ?s1 = Inr s'"
    using y fresh by (auto simp: write_event_def parse_event_def insert_event_def audit_insert_def)
  then obtain x where x': "receipt_of w ?e x" "state_ok w s'" "events_of w s' = events_of w s @ [x]"
      "st_candidates s' = st_candidates ?s1" "st_memories s' = st_memories s"
    using write_event_ok [OF set_status_ok [OF ok] wr expiry_details_keys] unfolding set_status_parts by blast
  note hist = x'(3)
  have xf: "ev_action x = A_hold_resolved" "ev_memory_id x = ?i" "ev_tenant_id x = tn"
      "ev_id x = audit_id w ?i A_hold_resolved []"
    using receipt_fields [OF x'(1)] tn \<open>non_empty_string tn = Some tn\<close> by auto
  have cands: "cand w s' j = map_option (\<lambda>c. if j = ?i \<and> cand_tenant c = tn then c\<lparr>cand_status := Rejected\<rparr> else c) (cand w s j)" for j
    using set_status_view [OF ok] unfolding x'(4) .
  have der': "derived_receipts w s'"
    unfolding derived_receipts_def hist
  proof (intro conjI ballI allI impI, goal_cases)
    case (1 g)
    then show ?case using der xf(1) by (auto simp: derived_receipts_def)
  next
    case (2 j c')
    then show ?case using der by (auto simp: derived_receipts_def cands)
  next
    case (3 j c' g)
    then obtain c0 where "cand w s j = Some c0" "cand_tenant c' = cand_tenant c0" by (auto simp: cands split: if_splits)
    then show ?case using 3 der xf view unfolding derived_receipts_def by (metis Un_iff empty_iff insert_iff list.set set_append option.distinct(1) option.sel)
  next
    case (4 j c' g)
    then obtain c0 where "cand w s j = Some c0" "cand_tenant c' = cand_tenant c0" by (auto simp: cands split: if_splits)
    then show ?case using 4 der xf view unfolding derived_receipts_def by (metis Un_iff empty_iff insert_iff list.set set_append option.distinct(1) option.sel)
  next
    case (5 j c' g)
    then obtain c0 where "cand w s j = Some c0" "cand_tenant c' = cand_tenant c0" by (auto simp: cands split: if_splits)
    then show ?case using 5 der xf view unfolding derived_receipts_def by (metis Un_iff empty_iff insert_iff list.set set_append option.distinct(1) option.sel)
  next
    case (6 j c' k)
    then show ?case using der by (auto simp: derived_receipts_def cands)
  qed
  have "open_holds w tn t s' = filter (\<lambda>g. ah_candidate g \<noteq> ?i) (open_holds w tn t s)" for t
    by (rule open_holds_after_closing [OF ok x'(2) hist xf(1-3)])
      (use held_same_candidates [OF x'(4)] held_after_other [OF ok] in auto)
  then show ?thesis
    using wr x' der' tn by (simp add: expire_hold_def write_hold_resolved_def)
qed

section \<open>The run\<close>

lemma close_all:
  assumes "state_ok w s" "derived_receipts w s" "fmt_datetime (w_formats w) now"
    and "set hs \<subseteq> set (open_holds w tn t0 s)" "distinct (map ah_candidate hs)"
  shows "\<exists>es s'. close_holds w now False hs s = (Inr es, s') \<and> state_ok w s' \<and> derived_receipts w s'
    \<and> map eh_candidate es = map ah_candidate hs \<and> st_memories s' = st_memories s
    \<and> (\<forall>i. cand w s' i = map_option (\<lambda>c. if i \<in> ah_candidate ` set hs \<and> cand_tenant c = tn
          then c\<lparr>cand_status := Rejected\<rparr> else c) (cand w s i))
    \<and> (\<forall>t. open_holds w tn t s' = filter (\<lambda>g. ah_candidate g \<notin> ah_candidate ` set hs) (open_holds w tn t s))"
  using assms
proof (induction hs arbitrary: s)
  case Nil
  then show ?case by (auto simp: option.map_ident)
next
  case (Cons h hs)
  from Cons.prems(4) have h: "h \<in> set (open_holds w tn t0 s)" by simp
  obtain s1 where s1: "expire_hold w h now s = Inr (audit_id w (ah_candidate h) A_hold_resolved [], s1)"
      "state_ok w s1" "derived_receipts w s1" "st_memories s1 = st_memories s"
      "st_candidates s1 = st_candidates (set_status (ah_candidate h) Rejected tn s)"
    and open1: "\<And>t. open_holds w tn t s1 = filter (\<lambda>g. ah_candidate g \<noteq> ah_candidate h) (open_holds w tn t s)"
    using expire_hold_closes [OF Cons.prems(1-3) h] by blast
  have "set hs \<subseteq> set (open_holds w tn t0 s1)" using Cons.prems(4,5) by (auto simp: open1 image_iff)
  from Cons.IH [OF s1(2,3) Cons.prems(3) this] Cons.prems(5) obtain es s' where
    rest: "close_holds w now False hs s1 = (Inr es, s')" "state_ok w s'" "derived_receipts w s'"
      "map eh_candidate es = map ah_candidate hs" "st_memories s' = st_memories s1"
    and cand': "\<And>i. cand w s' i = map_option (\<lambda>c. if i \<in> ah_candidate ` set hs \<and> cand_tenant c = tn
          then c\<lparr>cand_status := Rejected\<rparr> else c) (cand w s1 i)"
    and open': "\<And>t. open_holds w tn t s' = filter (\<lambda>g. ah_candidate g \<notin> ah_candidate ` set hs) (open_holds w tn t s1)"
    by auto
  have "cand w s1 i = map_option (\<lambda>c. if i = ah_candidate h \<and> cand_tenant c = tn then c\<lparr>cand_status := Rejected\<rparr> else c) (cand w s i)" for i
    using set_status_view [OF Cons.prems(1)] unfolding s1(5) .
  then have cands: "cand w s' i = map_option (\<lambda>c. if i \<in> ah_candidate ` set (h # hs) \<and> cand_tenant c = tn
        then c\<lparr>cand_status := Rejected\<rparr> else c) (cand w s i)" for i
    unfolding cand' by (cases "cand w s i") auto
  have opens: "open_holds w tn t s' = filter (\<lambda>g. ah_candidate g \<notin> ah_candidate ` set (h # hs)) (open_holds w tn t s)" for t
    unfolding open' open1 by (auto intro: filter_cong)
  show ?case
    using rest s1(1,4) cands opens by (intro exI [of _ "_ # es"] exI [of _ s']) (simp, force)
qed


section \<open>A database with one elapsed hold\<close>

definition plain_world :: world where
  "plain_world = \<lparr>w_formats = any_format, w_scan = (\<lambda>_. None), 
     w_env = \<lparr>env_hash = (\<lambda>t. t), env_scan_secrets = (\<lambda>_. []), env_scan_pii = (\<lambda>_. [])\<rparr>,
     w_hmac = (\<lambda>_ t. t), w_sha1 = (\<lambda>bs. replicate 20 (of_nat (length bs))), w_date_parse = (\<lambda>_. Some 0), w_to_iso = (\<lambda>_. Some ''later''),
     w_reason_text = (\<lambda>_. ''reason''), w_full_text = None\<rparr>"

definition plain_held :: audit_event where
  "plain_held = \<lparr>ev_id = audit_id plain_world ''c1'' A_held [], ev_action = A_held, ev_memory_id = ''c1'',
     ev_tenant_id = ''team'', ev_actor = plain_author, ev_reason = None, ev_details = [(''expiresAt'', JStr ''then'')],
     ev_timestamp = ''t0''\<rparr>"

definition held_state :: store_state where
  "held_state = \<lparr>st_candidates = [candidate_to_row ((plain_candidate ''c1'' ''a text'')\<lparr>cand_status := Quarantined\<rparr>) ''h'' None],
     st_memories = [], st_audits = [audit_append_row (\<lambda>t. t) plain_held []], st_links = [], st_policies = []\<rparr>"

lemma plain_world_simps [simp]:
  "w_formats plain_world = any_format" "w_sha256 plain_world = (\<lambda>t. t)" "w_date_parse plain_world = (\<lambda>_. Some 0)"
  "w_scan plain_world = (\<lambda>_. None)" "w_to_iso plain_world = (\<lambda>_. Some ''later'')"
  by (simp_all add: plain_world_def)

lemma stamp_first: "length h = 20 \<Longrightarrow> stamp_v5 h ! 0 = h ! 0"
  by (simp add: stamp_v5_def Let_def)

lemma plain_ids_differ: "audit_id plain_world ''c1'' A_held [] \<noteq> audit_id plain_world ''c1'' A_hold_resolved []"
proof
  let ?sha = "\<lambda>bs :: byte list. replicate 20 (of_nat (length bs) :: byte)"
  let ?x = "[''audit'', ''c1'', ''held'', []]" and ?y = "[''audit'', ''c1'', ''hold_resolved'', []]"
  assume "audit_id plain_world ''c1'' A_held [] = audit_id plain_world ''c1'' A_hold_resolved []"
  then have "spool_uuid ?sha ?x = spool_uuid ?sha ?y"
    by (simp add: audit_id_def plain_world_def derive_audit_event_id_def)
  from spool_uuid_eqD [OF this] have "uuid_clash ?sha ?x ?y" by (simp add: name_field_separator_def)
  then have "stamp_v5 (?sha (name_bytes ?x)) ! 0 = stamp_v5 (?sha (name_bytes ?y)) ! 0" by (simp only: uuid_clash_def)
  then have "(of_nat (length (name_bytes ?x)) :: byte) = of_nat (length (name_bytes ?y))"
    by (simp add: stamp_first del: of_nat_add)
  then show False by (simp add: name_bytes_def name_field_separator_def utf8_def utf8_char_def)
qed

lemma plain_held_storable: "event_storable any_format plain_held \<and> as_read plain_held = plain_held"
  by (rule wf_storable) (simp add: event_wf_def plain_held_def any_format_def plain_author_def non_empty_string_def js_trim_def js_space_def Let_def)

lemma empty_audits_ok: "audits_ok fmt []"
  by (simp add: audits_ok_def)

lemma empty_table_ok: "table_ok fmt []"
  unfolding table_ok_def by (intro exI [of _ "[]"]) (simp add: rows_hold_def)

lemma any_format_simps [simp]: "fmt_uuid any_format s" "fmt_datetime any_format s"
  by (simp_all add: any_format_def)

lemma held_state_history: "history any_format (st_audits held_state) = [plain_held]"
  using written_history(2) [OF empty_audits_ok plain_held_storable [THEN conjunct1]] by (simp add: held_state_def history_def plain_held_storable)

lemma held_candidate_wf: "candidate_wf any_format ((plain_candidate ''c1'' ''a text'')\<lparr>cand_status := Quarantined\<rparr>)"
  by (rule wf_status) (simp add: plain_candidate_wf)

lemma held_state_ok: "state_ok plain_world held_state"
proof -
  have "candidates_ok any_format (st_candidates held_state)"
    using held_candidate_wf by (auto simp: candidates_ok_def held_state_def)
  moreover have "audits_ok any_format (st_audits held_state)"
    using written_history(1) [OF empty_audits_ok plain_held_storable [THEN conjunct1]] by (simp add: held_state_def)
  ultimately show ?thesis by (simp add: state_ok_def empty_table_ok held_state_def)
qed

lemma held_state_view:
  "candidate_view any_format (st_candidates held_state) i =
     (if i = ''c1'' then Some ((plain_candidate ''c1'' ''a text'')\<lparr>cand_status := Quarantined\<rparr>) else None)"
proof -
  have "kr_id (candidate_to_row ((plain_candidate ''c1'' ''a text'')\<lparr>cand_status := Quarantined\<rparr>) ''h'' None) = ''c1''"
    by (simp add: candidate_to_row_def plain_candidate_def)
  then show ?thesis
    by (auto simp: candidate_view_def held_state_def row_to_candidate_safe_def candidate_round_trip [OF held_candidate_wf])
qed

lemma held_state_derived: "derived_receipts plain_world held_state"
  using plain_ids_differ
  by (auto simp: derived_receipts_def held_state_history held_state_view plain_held_def split: if_splits)

lemma held_state_open: "map ah_candidate (filter ah_expired (open_holds plain_world ''team'' ''t1'' held_state)) = [''c1'']"
proof -
  have "held_candidate plain_world ''c1'' ''team'' held_state = Some ((plain_candidate ''c1'' ''a text'')\<lparr>cand_status := Quarantined\<rparr>)"
    by (simp add: held_candidate_iff [OF held_state_ok] held_state_view) (simp add: plain_candidate_def)
  then show ?thesis
    by (simp add: open_holds_def held_state_history tenant_action_def plain_held_def map_filter_simps hold_row_def)
      (simp add: to_active_hold_def Let_def has_elapsed_def plain_candidate_def)
qed


end
