(* ===== verification/Governance_Steps.thy ===== *)
theory Governance_Steps
  imports Hold_Laws Audit_Verify
begin

text \<open>
  The writes a governance operation is made of, as a step relation on the database: the placement
  of a hold, any other receipt, a candidate's status, a change of the candidate table that puts
  nothing on hold, a change of the memory table and a change of the link table. Each operation of the curator is a sequence of these steps; the invariants are
  proved once, for the steps.
\<close>

section \<open>The steps\<close>

text \<open>
  A candidate table that keeps every id and puts nothing on hold: a quarantined candidate was
  quarantined before, or is new.
\<close>

definition no_new_holds :: "world \<Rightarrow> store_state \<Rightarrow> candidate_table \<Rightarrow> bool" where
  "no_new_holds w s t \<longleftrightarrow>
     (\<forall>i. cand w s i \<noteq> None \<longrightarrow> candidate_view (w_formats w) t i \<noteq> None)
     \<and> (\<forall>i c. candidate_view (w_formats w) t i = Some c \<longrightarrow> cand_status c = Quarantined \<longrightarrow>
        cand w s i = None \<or> (\<exists>c0. cand w s i = Some c0 \<and> cand_status c0 = Quarantined \<and> cand_tenant c0 = cand_tenant c))"

inductive gov_step :: "world \<Rightarrow> hold_limits option \<Rightarrow> store_state \<Rightarrow> store_state \<Rightarrow> bool" for w limits where
  gs_place: "place_hold w c d limits dry tb now s = Inr (res, s') \<Longrightarrow> gov_step w limits s s'"
| gs_receipt: "write_event w e s = Inr s' \<Longrightarrow> ev_action e \<noteq> A_held \<Longrightarrow> json_distinct (JObj (ev_details e)) \<Longrightarrow>
    gov_step w limits s s'"
| gs_status: "st \<noteq> Quarantined \<Longrightarrow> gov_step w limits s (set_status i st tn s)"
| gs_memories: "table_ok (w_formats w) t \<Longrightarrow> gov_step w limits s (s\<lparr>st_memories := t\<rparr>)"
| gs_candidates: "candidates_ok (w_formats w) t \<Longrightarrow> no_new_holds w s t \<Longrightarrow> gov_step w limits s (s\<lparr>st_candidates := t\<rparr>)"
| gs_links: "gov_step w limits s (s\<lparr>st_links := ls\<rparr>)"

inductive gov_steps :: "world \<Rightarrow> hold_limits option \<Rightarrow> store_state \<Rightarrow> store_state \<Rightarrow> bool" for w limits where
  gs_refl: "gov_steps w limits s s"
| gs_trans: "gov_steps w limits s s1 \<Longrightarrow> gov_step w limits s1 s2 \<Longrightarrow> gov_steps w limits s s2"

lemma gs_one: "gov_step w limits s s' \<Longrightarrow> gov_steps w limits s s'"
  by (rule gs_trans [OF gs_refl])

lemma gs_append: "gov_steps w limits s1 s2 \<Longrightarrow> gov_steps w limits s s1 \<Longrightarrow> gov_steps w limits s s2"
  by (induction rule: gov_steps.induct) (auto intro: gs_trans)

section \<open>A clean chain stays clean\<close>

lemma intact_hashed: "intact H rows \<Longrightarrow> r \<in> set rows \<Longrightarrow> ar_entry_hash r \<noteq> None"
  by (induction rows rule: rev_induct) (auto simp: intact_snoc links_clean_def entry_matches_def)

lemma strictly_clean_append:
  assumes clean: "strictly_clean H t" and ok: "audit_table_ok t" and new: "ev_id e \<notin> set (map ar_id t)"
  shows "strictly_clean H (t @ [audit_append_row H e t])"
proof -
  have t': "audit_table_ok (t @ [audit_append_row H e t])"
    using audit_insert_ok [OF ok, of H e "t @ [audit_append_row H e t]"] new by (simp add: audit_insert_def)
  have intact: "intact H t" using clean by (simp add: strictly_clean_intact find_all_ok [OF ok])
  then have "no_orphan_links t" using intact_hashed unfolding no_orphan_links_def by blast
  then have "links_clean H t (audit_append_row H e t)" by (rule append_links_clean [OF ok])
  then show ?thesis
    using intact matches_chained [OF append_entry_matches, of H e t]
    by (simp add: strictly_clean_intact find_all_ok [OF t'] intact_snoc)
qed

section \<open>The invariants\<close>

text \<open>
  Well-formed tables, a clean chain, a candidate for every hold, and no more open holds than the cap
  in any tenant.
\<close>

definition held_known :: "world \<Rightarrow> store_state \<Rightarrow> bool" where
  "held_known w s \<longleftrightarrow> (\<forall>e \<in> set (events_of w s). ev_action e = A_held \<longrightarrow> cand w s (ev_memory_id e) \<noteq> None)"

definition gov_inv :: "world \<Rightarrow> hold_limits option \<Rightarrow> store_state \<Rightarrow> bool" where
  "gov_inv w limits s \<longleftrightarrow> state_ok w s \<and> strictly_clean (w_sha256 w) (st_audits s) \<and> held_known w s
     \<and> (\<forall>tn. of_nat (open_count w tn s) \<le> resolve_max_active_holds limits)"

text \<open>What every step keeps of the history: events are only added, at the end.\<close>

definition extends_history :: "world \<Rightarrow> store_state \<Rightarrow> store_state \<Rightarrow> bool" where
  "extends_history w s s' \<longleftrightarrow> (\<exists>new. st_audits s' = st_audits s @ new)"

lemma open_count_same:
  assumes "events_of w s' = events_of w s"
    "\<And>e. e \<in> set (events_of w s) \<Longrightarrow> ev_action e = A_held \<Longrightarrow> held_candidate w (ev_memory_id e) tn s' \<noteq> None \<Longrightarrow>
       held_candidate w (ev_memory_id e) tn s \<noteq> None"
  shows "open_count w tn s' \<le> open_count w tn s"
  unfolding open_count_def assms(1) using assms(2)
  by (intro length_filter_le) (auto simp: still_open_def tenant_action_def)

lemma held_after_status:
  assumes "state_ok w s" "st \<noteq> Quarantined" "held_candidate w i tn' (set_status j st tn s) \<noteq> None"
  shows "held_candidate w i tn' s \<noteq> None"
proof -
  obtain c where "held_candidate w i tn' (set_status j st tn s) = Some c" using assms(3) by auto
  then have "cand w (set_status j st tn s) i = Some c" "cand_tenant c = tn'" "cand_status c = Quarantined"
    by (auto simp: held_candidate_iff [OF set_status_ok [OF assms(1)]])
  then obtain c0 where "cand w s i = Some c0" "cand_tenant c0 = tn'" "cand_status c0 = Quarantined"
    using assms(2) by (auto simp: set_status_view [OF assms(1)] split: if_splits)
  then show ?thesis by (simp add: held_candidate_def find_candidate_safe_ok [OF assms(1)])
qed

lemma held_after_candidates:
  assumes ok: "state_ok w s" and t: "candidates_ok (w_formats w) t" "no_new_holds w s t" and known: "cand w s i \<noteq> None"
    and held: "held_candidate w i tn (s\<lparr>st_candidates := t\<rparr>) \<noteq> None"
  shows "held_candidate w i tn s \<noteq> None"
proof -
  have ok': "state_ok w (s\<lparr>st_candidates := t\<rparr>)" using ok t(1) by (simp add: state_ok_def)
  obtain c where "held_candidate w i tn (s\<lparr>st_candidates := t\<rparr>) = Some c" using held by auto
  then have c: "candidate_view (w_formats w) t i = Some c" "cand_tenant c = tn" "cand_status c = Quarantined"
    by (auto simp: held_candidate_iff [OF ok'])
  moreover from t(2) have "cand w s i = None \<or> (\<exists>c0. cand w s i = Some c0 \<and> cand_status c0 = Quarantined \<and> cand_tenant c0 = cand_tenant c)"
    using c(1,3) by (simp add: no_new_holds_def)
  ultimately obtain c0 where "cand w s i = Some c0" "cand_status c0 = Quarantined" "cand_tenant c0 = tn"
    using known by auto
  then show ?thesis by (simp add: held_candidate_def find_candidate_safe_ok [OF ok])
qed

lemma step_state_ok:
  assumes "gov_step w limits s s'" "state_ok w s"
  shows "state_ok w s'"
  using assms(1)
proof cases
  case (gs_place c d dry tb now res)
  show ?thesis
  proof (cases "\<exists>h. res = Held h")
    case True
    with gs_place obtain h where "place_hold w c d limits dry tb now s = Inr (Held h, s')" by auto
    then show ?thesis by (rule placed_effect [OF assms(2)])
  next
    case False
    then have "s' = s" using not_held_unchanged [OF gs_place] by blast
    then show ?thesis using assms(2) by simp
  qed
next
  case (gs_receipt e)
  then show ?thesis using write_event_ok [OF assms(2) gs_receipt(1,3)] by blast
next
  case (gs_status st i tn)
  then show ?thesis using set_status_ok [OF assms(2)] by simp
qed (use assms(2) in \<open>auto simp: state_ok_def\<close>)

lemma below_max:
  assumes "of_nat n < resolve_max_active_holds limits"
  shows "of_nat (Suc n) \<le> resolve_max_active_holds limits"
proof -
  have "\<exists>z. resolve_max_active_holds limits = of_int z"
    by (auto simp: resolve_max_active_holds_def default_max_active_holds_def js_is_integer_def
        intro!: exI [of _ "100 :: int"] split: option.split)
  then obtain z where z: "resolve_max_active_holds limits = of_int z" by blast
  then have "int n < z" using assms by (metis of_int_less_iff of_int_of_nat_eq)
  then have "int (Suc n) \<le> z" by simp
  then show ?thesis unfolding z by (metis of_int_le_iff of_int_of_nat_eq)
qed

lemma step_open_count:
  assumes step: "gov_step w limits s s'" and ok: "state_ok w s" and known: "held_known w s"
  shows "open_count w tn s' \<le> open_count w tn s
    \<or> of_nat (open_count w tn s') \<le> resolve_max_active_holds limits"
  using step
proof cases
  case (gs_place c d dry tb now res)
  show ?thesis
  proof (cases "\<exists>h. res = Held h")
    case True
    then obtain h where placed: "place_hold w c d limits dry tb now s = Inr (Held h, s')" using gs_place by auto
    obtain stored x where eff: "cand w s (cand_id c) = Some stored" "cand_tenant stored = cand_tenant c"
        "ev_action x = A_held" "ev_memory_id x = cand_id c" "ev_tenant_id x = cand_tenant c"
        "\<And>e. e \<in> set (events_of w s) \<Longrightarrow> ev_memory_id e = cand_id c \<Longrightarrow> ev_tenant_id e = cand_tenant c \<Longrightarrow> ev_action e \<noteq> A_held"
        "of_nat (open_count w (cand_tenant c) s) < resolve_max_active_holds limits"
        "events_of w s' = events_of w s @ [x]"
        "st_candidates s' = st_candidates (set_status (cand_id c) Quarantined (cand_tenant c) s)"
      by (rule placed_effect [OF ok placed]) blast
    have held: "held_candidate w i tn' s' = held_candidate w i tn' s" if "i \<noteq> cand_id c" for i tn'
      using held_same_candidates [OF eff(9)] held_after_other [OF ok that] by simp
    show ?thesis
    proof (cases "tn = cand_tenant c")
      case True
      have "open_count w tn s' \<le> Suc (open_count w tn s)"
        by (rule open_count_opening [OF eff(8,3)]) (use eff(4,5,6) held True in auto)
      then have "of_nat (open_count w tn s') \<le> (of_nat (Suc (open_count w tn s)) :: rat)" by (simp only: of_nat_le_iff)
      also have "\<dots> \<le> resolve_max_active_holds limits" using below_max eff(7) True by simp
      finally show ?thesis by blast
    next
      case False
      have t: "tenant_action tn a (events_of w s') = tenant_action tn a (events_of w s)" for a
        using False eff(5,8) by (simp add: tenant_action_def)
      have "held_candidate w (cand_id c) tn s' = None"
        using False eff(1,2) held_same_candidates [OF eff(9), of w "cand_id c" tn]
        by (simp add: held_candidate_def find_candidate_safe_ok set_status_ok ok set_status_view)
      then have "held_candidate w i tn s' \<noteq> None \<Longrightarrow> held_candidate w i tn s \<noteq> None" for i
        using held [of i tn] by (cases "i = cand_id c") auto
      then have "open_count w tn s' \<le> open_count w tn s"
        unfolding open_count_def t by (intro length_filter_le) (auto simp: still_open_def t)
      then show ?thesis by blast
    qed
  next
    case False
    then have "s' = s" using not_held_unchanged [OF gs_place] by blast
    then show ?thesis by simp
  qed
next
  case (gs_receipt e)
  then obtain x where x: "receipt_of w e x" "events_of w s' = events_of w s @ [x]"
      "st_candidates s' = st_candidates s"
    using write_event_ok [OF ok gs_receipt(1,3)] by blast
  have "open_count w tn s' \<le> open_count w tn s"
    by (rule open_count_closing [OF x(2)])
      (use x receipt_fields [OF x(1)] gs_receipt(2) held_same_candidates [OF x(3)] in auto)
  then show ?thesis by blast
next
  case (gs_status st i tn0)
  then have "open_count w tn s' \<le> open_count w tn s"
    using held_after_status [OF ok gs_status(2)] by (intro open_count_same) auto
  then show ?thesis by blast
next
  case (gs_memories t)
  then have "open_count w tn s' \<le> open_count w tn s"
    by (intro open_count_same) (auto simp: held_candidate_def find_candidate_safe_def)
  then show ?thesis by blast
next
  case (gs_candidates t)
  then have "open_count w tn s' \<le> open_count w tn s"
    using held_after_candidates [OF ok gs_candidates(2,3)] known unfolding held_known_def
    by (intro open_count_same) auto
  then show ?thesis by blast
next
  case (gs_links ls)
  then have "open_count w tn s' \<le> open_count w tn s"
    by (intro open_count_same) (auto simp: held_candidate_def find_candidate_safe_def)
  then show ?thesis by blast
qed

lemma known_after_status: "state_ok w s \<Longrightarrow> cand w (set_status i st tn s) j = None \<longleftrightarrow> cand w s j = None"
  by (simp add: set_status_view)

lemma step_known:
  assumes step: "gov_step w limits s s'" and ok: "state_ok w s" and known: "held_known w s"
  shows "held_known w s'"
  using step
proof cases
  case (gs_place c d dry tb now res)
  show ?thesis
  proof (cases "\<exists>h. res = Held h")
    case True
    then obtain h where placed: "place_hold w c d limits dry tb now s = Inr (Held h, s')" using gs_place by auto
    obtain stored x where eff: "cand w s (cand_id c) = Some stored" "ev_memory_id x = cand_id c"
        "events_of w s' = events_of w s @ [x]"
        "st_candidates s' = st_candidates (set_status (cand_id c) Quarantined (cand_tenant c) s)"
      by (rule placed_effect [OF ok placed]) blast
    have "cand w s' j = None \<longleftrightarrow> cand w s j = None" for j
      using known_after_status [OF ok] unfolding eff(4) .
    then show ?thesis using known eff(1-3) by (auto simp: held_known_def)
  next
    case False
    then have "s' = s" using not_held_unchanged [OF gs_place] by blast
    then show ?thesis using known by simp
  qed
next
  case (gs_receipt e)
  then obtain x where x: "receipt_of w e x" "events_of w s' = events_of w s @ [x]" "st_candidates s' = st_candidates s"
    using write_event_ok [OF ok gs_receipt(1,3)] by blast
  then show ?thesis using known receipt_fields [OF x(1)] gs_receipt(2) by (auto simp: held_known_def)
next
  case (gs_status st i tn0)
  then show ?thesis using known by (simp add: held_known_def known_after_status [OF ok])
next
  case (gs_candidates t)
  then have "\<And>i. cand w s i \<noteq> None \<Longrightarrow> candidate_view (w_formats w) t i \<noteq> None" by (auto simp: no_new_holds_def)
  then show ?thesis using known gs_candidates(1) by (auto simp: held_known_def)
qed (use known in \<open>simp_all add: held_known_def\<close>)

lemma step_clean:
  assumes step: "gov_step w limits s s'" and ok: "state_ok w s" and clean: "strictly_clean (w_sha256 w) (st_audits s)"
  shows "strictly_clean (w_sha256 w) (st_audits s') \<and> extends_history w s s'"
proof -
  have written: "strictly_clean (w_sha256 w) (st_audits s2) \<and> extends_history w s s2"
    if wr: "write_event w e s1 = Inr s2" and au: "st_audits s1 = st_audits s" for e s1 s2
  proof -
    obtain x where x: "schema_event (w_formats w) e = Some x" "ev_id e \<notin> set (map ar_id (st_audits s1))"
        "s2 = s1\<lparr>st_audits := st_audits s1 @ [audit_append_row (w_sha256 w) x (st_audits s1)]\<rparr>"
      by (rule write_event_Inr [OF wr])
    have "ev_id x \<notin> set (map ar_id (st_audits s))" using x(2) schema_event_fields [OF x(1)] au by simp
    then show ?thesis
      using strictly_clean_append [OF clean] state_ok_parts(3) [OF ok] au
      by (simp add: x(3) audits_ok_def extends_history_def)
  qed
  have same: "extends_history w s s" by (simp add: extends_history_def)
  show ?thesis
    using step
  proof cases
    case (gs_place c d dry tb now res)
    show ?thesis
    proof (cases "\<exists>h. res = Held h")
      case True
      then obtain h ex where "place_attempt w c d (resolve_ttl_days limits) (resolve_max_active_holds limits) ex dry tb now s
          = Inr (Held h, s')"
        using gs_place by (auto simp: place_hold_def Let_def split: option.splits)
      then show ?thesis by (rule place_attempt_Held) (erule written, simp)
    next
      case False
      then have "s' = s" using not_held_unchanged [OF gs_place] by blast
      then show ?thesis using clean same by simp
    qed
  next
    case (gs_receipt e)
    then show ?thesis using written [OF gs_receipt(1)] by simp
  qed (use clean same in \<open>auto simp: extends_history_def\<close>)
qed

lemma step_inv:
  assumes "gov_step w limits s s'" "gov_inv w limits s"
  shows "gov_inv w limits s'"
proof -
  have ok: "state_ok w s" and clean: "strictly_clean (w_sha256 w) (st_audits s)"
    and known: "held_known w s" and cap: "of_nat (open_count w tn s) \<le> resolve_max_active_holds limits" for tn
    using assms(2) by (auto simp: gov_inv_def)
  have "of_nat (open_count w tn s') \<le> resolve_max_active_holds limits" for tn
  proof -
    consider "open_count w tn s' \<le> open_count w tn s" | "of_nat (open_count w tn s') \<le> resolve_max_active_holds limits"
      using step_open_count [OF assms(1) ok known] by blast
    then show ?thesis
    proof cases
      case 1
      then have "of_nat (open_count w tn s') \<le> (of_nat (open_count w tn s) :: rat)" by (simp only: of_nat_le_iff)
      then show ?thesis using cap order_trans by blast
    qed
  qed
  then show ?thesis
    using step_state_ok [OF assms(1) ok] step_clean [OF assms(1) ok clean] step_known [OF assms(1) ok known]
    by (simp add: gov_inv_def)
qed

lemma steps_inv:
  "gov_steps w limits s s' \<Longrightarrow> gov_inv w limits s \<Longrightarrow>
    gov_inv w limits s' \<and> extends_history w s s'"
proof (induction rule: gov_steps.induct)
  case (gs_refl s)
  then show ?case by (simp add: extends_history_def)
next
  case (gs_trans s s1 s2)
  then have i1: "gov_inv w limits s1" and e1: "extends_history w s s1" by auto
  have "extends_history w s1 s2" using step_clean [OF gs_trans.hyps(2)] i1 by (auto simp: gov_inv_def)
  then have "extends_history w s s2" using e1 by (auto simp: extends_history_def)
  then show ?case using step_inv [OF gs_trans.hyps(2) i1] gs_trans.prems by blast
qed

end
