(* ===== verification/Intake_Gates.thy ===== *)
theory Intake_Gates
  imports Governance_Steps
begin

text \<open>
  The gates every govern path runs around the policy pipeline: the origin attestation
  (\<open>packages/common/src/origin-token.ts\<close>, \<open>curator/src/origin/origin-gate.ts\<close>), the import
  exclusion gate, the review of proposals from the Registrar's own tool, the duplicate check, the
  durable sensitivity floor of a candidate (\<open>recovery/sensitivity-constraint.ts\<close>) and the receipted
  rejection (\<open>rejection/rejector.ts\<close>, \<open>rejection/reviewed-rejection.ts\<close>).
\<close>

section \<open>Verdicts\<close>

text \<open>
  \<open>PipelineResult\<close> as the callers see it: a rule type is a string here, because the structural gates
  use names that are no policy rule.
\<close>

record gate_evaluation =
  ge_rule_id :: string
  ge_rule_type :: string
  ge_outcome :: rule_outcome
  ge_reason :: gate_reason
  ge_score :: "rat option"

record gate_verdict =
  gv_candidate :: uuid
  gv_outcome :: pipeline_outcome
  gv_evaluations :: "gate_evaluation list"
  gv_rejected_by :: "string option"
  gv_flagged_by :: "string list option"

definition gate_evaluation_of :: "rule_result \<Rightarrow> gate_evaluation" where
  "gate_evaluation_of r =
     \<lparr>ge_rule_id = rr_rule_id r, ge_rule_type = rule_type_name (rr_rule_type r), ge_outcome = rr_outcome r,
      ge_reason = By_rule (rr_reason r), ge_score = rr_score r\<rparr>"

definition gate_verdict_of :: "pipeline_result \<Rightarrow> gate_verdict" where
  "gate_verdict_of p =
     \<lparr>gv_candidate = pr_candidate_id p, gv_outcome = pr_outcome p,
      gv_evaluations = map gate_evaluation_of (pr_evaluations p),
      gv_rejected_by = pr_rejected_by p, gv_flagged_by = pr_flagged_by p\<rparr>"

fun pipeline_outcome_name :: "pipeline_outcome \<Rightarrow> string" where
  "pipeline_outcome_name Approved = ''approved''"
| "pipeline_outcome_name Rejected_outcome = ''rejected''"
| "pipeline_outcome_name Flagged_outcome = ''flagged''"

text \<open>The rejection a structural gate builds: one failed evaluation under the gate's own code.\<close>

definition structural_rejection :: "memory_candidate \<Rightarrow> string \<Rightarrow> string \<Rightarrow> gate_reason \<Rightarrow> gate_verdict" where
  "structural_rejection c code ty reason =
     \<lparr>gv_candidate = cand_id c, gv_outcome = Rejected_outcome,
      gv_evaluations = [\<lparr>ge_rule_id = code, ge_rule_type = ty, ge_outcome = Fail, ge_reason = reason, ge_score = None\<rparr>],
      gv_rejected_by = Some code, gv_flagged_by = None\<rparr>"

section \<open>The origin gate\<close>

definition origin_token_payload :: "memory_candidate \<Rightarrow> string" where
  "origin_token_payload c = js_join name_field_separator [cand_id c, cand_tenant c, captured_at c]"

definition mint_origin_token :: "world \<Rightarrow> string \<Rightarrow> memory_candidate \<Rightarrow> string" where
  "mint_origin_token w secret c = w_hmac w secret (origin_token_payload c)"

definition verify_origin_token :: "world \<Rightarrow> string \<Rightarrow> memory_candidate \<Rightarrow> string \<Rightarrow> bool" where
  "verify_origin_token w secret c token =
     (if \<not> sha256_shape token then False
      else let expected = buffer_from_hex (mint_origin_token w secret c); presented = buffer_from_hex token
           in if length expected \<noteq> length presented then False else expected = presented)"

definition hash_origin_token :: "world \<Rightarrow> string \<Rightarrow> string" where
  "hash_origin_token w token = w_sha256 w token"

definition origin_token_hash_surface_len :: nat where
  "origin_token_hash_surface_len = 16"

definition unattested_channel :: string where
  "unattested_channel = ''unattested''"

datatype origin_verdict = Unattested | Attested | Origin_rejected gate_verdict

definition check_origin_attestation :: "world \<Rightarrow> memory_candidate \<Rightarrow> string option \<Rightarrow> origin_verdict" where
  "check_origin_attestation w c secret =
     (case cand_origin c of
        None \<Rightarrow> Unattested
      | Some og \<Rightarrow>
          (case secret of
             None \<Rightarrow> Origin_rejected (structural_rejection c ''origin_token_unverifiable'' ''origin_attestation'' Origin_unverifiable)
           | Some key \<Rightarrow>
               if key = [] then Origin_rejected (structural_rejection c ''origin_token_unverifiable'' ''origin_attestation'' Origin_unverifiable)
               else if verify_origin_token w key c (token_hmac og) then Attested
               else Origin_rejected (structural_rejection c ''origin_token_invalid'' ''origin_attestation'' Origin_invalid)))"

section \<open>Import exclusion, review and duplicates\<close>

datatype import_verdict = Not_applicable | Import_clear | Import_rejected gate_verdict

definition check_import_exclusion :: "memory_candidate \<Rightarrow> brainignore_pattern list option \<Rightarrow> import_verdict" where
  "check_import_exclusion c ruleset =
     (if cand_source c \<notin> {Import, Bulk_import} then Not_applicable
      else
        (case evaluate_brainignore (file_paths (cand_metadata c)) (cand_content c) (cand_title c)
                (case ruleset of None \<Rightarrow> default_brainignore_ruleset | Some rs \<Rightarrow> rs) of
           None \<Rightarrow> Import_clear
         | Some m \<Rightarrow> Import_rejected (structural_rejection c (match_code m) ''import_exclusion'' (Import_excluded m))))"

definition requires_registrar_mcp_review :: "memory_candidate \<Rightarrow> bool" where
  "requires_registrar_mcp_review c =
     (cand_source c = Mcp \<and> author_kind (cand_author c) = Ai \<and> author_id (cand_author c) = ''mcp-server'')"

text \<open>\<open>checkDuplicate\<close>: the id of the memory with the same content hash, in one tenant or in all.\<close>

definition check_duplicate :: "world \<Rightarrow> memory_candidate \<Rightarrow> tenant_id option \<Rightarrow> memory_table \<Rightarrow> fault + uuid option" where
  "check_duplicate w c tenant t =
     (let h = compute_content_hash (w_env w) (cand_content c)
      in and_then (case tenant of
                     Some tn \<Rightarrow> find_by_content_hash_and_tenant (w_formats w) h tn t
                   | None \<Rightarrow> find_by_content_hash (w_formats w) h t)
           (\<lambda>found. Inr (map_option mem_id found)))"

section \<open>The sensitivity floor\<close>

definition floor_kind :: string where
  "floor_kind = ''recovery-sensitivity-floor-v1''"

text \<open>One governed receipt of the kind: the floor it states, or why it cannot be trusted.\<close>

definition floor_of :: "world \<Rightarrow> memory_candidate \<Rightarrow> audit_event \<Rightarrow> fault + sensitivity" where
  "floor_of w c e =
     (case (detail e ''minimumSensitivity'', detail e ''runId'', detail e ''candidateSnapshotDigest'', detail e ''manifestDigest'') of
        (Some (JStr level), Some (JStr run), Some (JStr snap), Some (JStr mdig)) \<Rightarrow>
          (case parse_enum sensitivity_options sensitivity_name level of
             None \<Rightarrow> Inl Floor_unreadable
           | Some f \<Rightarrow>
               if \<not> fmt_uuid (w_formats w) run \<or> \<not> sha256_shape snap \<or> \<not> sha256_shape mdig then Inl Floor_unreadable
               else if detail e ''contentHash'' \<noteq> Some (JStr (compute_content_hash (w_env w) (cand_content c)))
                     \<or> detail e ''candidateId'' \<noteq> Some (JStr (cand_id c))
                     \<or> author_kind (ev_actor e) \<noteq> Human
                     \<or> (detail e ''resolverRole'' \<noteq> Some (JStr ''admin'') \<and> detail e ''resolverRole'' \<noteq> Some (JStr ''owner''))
               then Inl Floor_mismatched
               else Inr f)
      | _ \<Rightarrow> Inl Floor_unreadable)"

fun fold_floor :: "world \<Rightarrow> memory_candidate \<Rightarrow> sensitivity option \<Rightarrow> audit_event list \<Rightarrow> fault + sensitivity option" where
  "fold_floor w c minimum [] = Inr minimum"
| "fold_floor w c minimum (e # es) =
     (if ev_action e \<noteq> A_governed \<or> detail e ''kind'' \<noteq> Some (JStr floor_kind) then fold_floor w c minimum es
      else and_then (floor_of w c e) (\<lambda>f.
        fold_floor w c (Some (case minimum of None \<Rightarrow> f | Some m \<Rightarrow> effective_sensitivity m (Some f))) es))"

definition resolve_minimum_sensitivity :: "world \<Rightarrow> memory_candidate \<Rightarrow> store_state \<Rightarrow> fault + sensitivity option" where
  "resolve_minimum_sensitivity w c s =
     and_then (memory_events w (cand_id c) (cand_tenant c) s) (fold_floor w c None)"

record floor_context =
  fc_run_id :: string
  fc_manifest_digest :: string
  fc_snapshot_digest :: string
  fc_actor :: author
  fc_role :: string
  fc_reason :: string

definition floor_event :: "world \<Rightarrow> memory_candidate \<Rightarrow> sensitivity \<Rightarrow> floor_context \<Rightarrow> iso_datetime \<Rightarrow> audit_event" where
  "floor_event w c minimum x now =
     \<lparr>ev_id = audit_id w (cand_id c) A_governed (floor_kind @ '':'' @ fc_run_id x), ev_action = A_governed,
      ev_memory_id = cand_id c, ev_tenant_id = cand_tenant c, ev_actor = fc_actor x, ev_reason = Some (fc_reason x),
      ev_details =
        [(''kind'', JStr floor_kind), (''candidateId'', JStr (cand_id c)),
         (''contentHash'', JStr (compute_content_hash (w_env w) (cand_content c))),
         (''minimumSensitivity'', JStr (sensitivity_name minimum)), (''runId'', JStr (fc_run_id x)),
         (''manifestDigest'', JStr (fc_manifest_digest x)),
         (''candidateSnapshotDigest'', JStr (fc_snapshot_digest x)), (''resolverRole'', JStr (fc_role x))],
      ev_timestamp = now\<rparr>"

definition record_minimum_sensitivity ::
  "world \<Rightarrow> memory_candidate \<Rightarrow> sensitivity \<Rightarrow> floor_context \<Rightarrow> iso_datetime \<Rightarrow> store_state \<Rightarrow> fault + store_state" where
  "record_minimum_sensitivity w c minimum x now s =
     and_then (resolve_minimum_sensitivity w c s) (\<lambda>previous.
       if (case previous of None \<Rightarrow> False | Some p \<Rightarrow> effective_sensitivity p (Some minimum) = p) then Inr s
       else and_then (parse_event w (floor_event w c minimum x now)) (\<lambda>e.
         and_then (insert_event w e s) (\<lambda>s'.
         and_then (memory_events w (cand_id c) (cand_tenant c) s') (\<lambda>events.
           if find (\<lambda>i. ev_id i = ev_id e) events = Some e then Inr s' else Inl Floor_not_retained))))"

section \<open>Rejections\<close>

definition curator_actor :: author where
  "curator_actor = \<lparr>author_kind = System, author_id = ''curator'', author_name = None\<rparr>"

definition gate_evaluation_json :: "world \<Rightarrow> gate_evaluation \<Rightarrow> jval" where
  "gate_evaluation_json w e =
     JObj ([(''ruleId'', JStr (ge_rule_id e)), (''ruleType'', JStr (ge_rule_type e)),
            (''outcome'', JStr (outcome_name (ge_outcome e))), (''reason'', JStr (w_reason_text w (ge_reason e)))]
       @ (case ge_score e of None \<Rightarrow> [] | Some x \<Rightarrow> [(''score'', JNum x)]))"

definition reject_text :: "gate_verdict \<Rightarrow> string" where
  "reject_text v =
     (case gv_rejected_by v of
        Some r \<Rightarrow> ''Rejected by rule: '' @ r
      | None \<Rightarrow> ''Flagged by rules: '' @ (case gv_flagged_by v of None \<Rightarrow> ''unknown'' | Some fs \<Rightarrow> js_join '', '' fs))"

definition reject_event :: "world \<Rightarrow> memory_candidate \<Rightarrow> gate_verdict \<Rightarrow> string \<Rightarrow> iso_datetime \<Rightarrow> audit_event" where
  "reject_event w c v fresh now =
     \<lparr>ev_id = fresh, ev_action = A_deleted, ev_memory_id = cand_id c, ev_tenant_id = cand_tenant c,
      ev_actor = curator_actor, ev_reason = Some (reject_text v),
      ev_details =
        [(''candidateId'', JStr (cand_id c)), (''outcome'', JStr (pipeline_outcome_name (gv_outcome v))),
         (''evaluations'', JArr (map (gate_evaluation_json w) (gv_evaluations v)))],
      ev_timestamp = now\<rparr>"

definition reject ::
  "world \<Rightarrow> memory_candidate \<Rightarrow> gate_verdict \<Rightarrow> bool \<Rightarrow> string \<Rightarrow> iso_datetime \<Rightarrow> store_state \<Rightarrow> fault + string \<times> store_state" where
  "reject w c v dry fresh now s =
     (if dry then Inr (reject_text v, s)
      else and_then (write_event w (reject_event w c v fresh now) s) (\<lambda>s'. Inr (reject_text v, s')))"

text \<open>\<open>rejectReviewedCandidate\<close>: a person retires one pending candidate.\<close>

datatype review_refusal =
    V_missing_reason
  | V_missing_actor
  | V_not_human
  | V_forbidden_role
  | V_not_found
  | V_on_hold
  | V_not_pending
  | V_audience_above_standing

record review_input =
  vi_candidate :: string
  vi_tenant :: tenant_id
  vi_actor :: author
  vi_role :: string
  vi_reason :: string

datatype review_result = Review_rejected string | Review_refused review_refusal

definition review_event :: "review_input \<Rightarrow> string \<Rightarrow> iso_datetime \<Rightarrow> audit_event" where
  "review_event inp fresh now =
     \<lparr>ev_id = fresh, ev_action = A_deleted, ev_memory_id = vi_candidate inp, ev_tenant_id = vi_tenant inp,
      ev_actor = vi_actor inp, ev_reason = Some (vi_reason inp),
      ev_details = [(''candidateId'', JStr (vi_candidate inp)), (''disposition'', JStr ''rejected''),
         (''resolverRole'', JStr (vi_role inp))],
      ev_timestamp = now\<rparr>"

definition review_transaction ::
  "world \<Rightarrow> review_input \<Rightarrow> string \<Rightarrow> iso_datetime \<Rightarrow> store_state \<Rightarrow> fault + review_result \<times> store_state" where
  "review_transaction w inp fresh now s =
     and_then (find_candidate (w_formats w) (vi_candidate inp) (st_candidates s)) (\<lambda>found.
       case found of
         None \<Rightarrow> Inr (Review_refused V_not_found, s)
       | Some c \<Rightarrow>
           if cand_tenant c \<noteq> vi_tenant inp then Inr (Review_refused V_not_found, s)
           else if \<not> is_audience_visible_to_role (audience (cand_metadata c)) (Some (vi_role inp))
           then Inr (Review_refused V_audience_above_standing, s)
           else and_then (find_active_hold w (vi_candidate inp) (vi_tenant inp) now s) (\<lambda>hold.
             if hold \<noteq> None then Inr (Review_refused V_on_hold, s)
             else if cand_status c \<noteq> Inbox then Inr (Review_refused V_not_pending, s)
             else if exists_for_candidate (vi_candidate inp) (vi_tenant inp) (st_memories s)
             then Inr (Review_refused V_not_pending, s)
             else and_then (parse_event w (review_event inp fresh now)) (\<lambda>receipt.
               if fst (update_status (vi_candidate inp) Rejected (vi_tenant inp) (st_candidates s)) \<noteq> 1
               then Inl (Not_persisted ''status'')
               else and_then (insert_event w receipt (set_status (vi_candidate inp) Rejected (vi_tenant inp) s)) (\<lambda>s'.
                 and_then (memory_events w (vi_candidate inp) (vi_tenant inp) s') (\<lambda>persisted.
                   if fresh \<in> set (map ev_id persisted) then Inr (Review_rejected fresh, s')
                   else Inl (Not_persisted ''receipt''))))))"

definition reject_reviewed_candidate ::
  "world \<Rightarrow> review_input \<Rightarrow> string \<Rightarrow> iso_datetime \<Rightarrow> store_state \<Rightarrow> fault + review_result \<times> store_state" where
  "reject_reviewed_candidate w inp fresh now s =
     (if js_trim (vi_reason inp) = [] then Inr (Review_refused V_missing_reason, s)
      else if author_kind (vi_actor inp) \<noteq> Human then Inr (Review_refused V_not_human, s)
      else if js_trim (author_id (vi_actor inp)) = [] then Inr (Review_refused V_missing_actor, s)
      else if vi_role inp \<noteq> ''owner'' \<and> vi_role inp \<noteq> ''admin'' then Inr (Review_refused V_forbidden_role, s)
      else review_transaction w inp fresh now s)"

section \<open>The gates as steps\<close>

lemma write_event_same:
  "write_event w e s = Inr s' \<Longrightarrow> st_candidates s' = st_candidates s \<and> st_memories s' = st_memories s
     \<and> st_links s' = st_links s \<and> st_policies s' = st_policies s"
  by (erule write_event_Inr) simp

lemma insert_parsed: "parse_event w e = Inr x \<Longrightarrow> insert_event w x s = Inr s' \<Longrightarrow> write_event w e s = Inr s'"
  by (simp add: write_event_def)

lemma gate_evaluation_json_distinct [simp]: "json_distinct (gate_evaluation_json w e)"
  by (cases "ge_score e") (simp_all add: gate_evaluation_json_def)

lemma reject_event_receipt:
  "ev_action (reject_event w c v fresh now) \<noteq> A_held"
  "json_distinct (JObj (ev_details (reject_event w c v fresh now)))"
  by (auto simp: reject_event_def)

lemma reject_steps:
  assumes "reject w c v dry fresh now s = Inr (r, s')"
  shows "gov_steps w limits s s' \<and> st_memories s' = st_memories s \<and> st_candidates s' = st_candidates s
    \<and> st_links s' = st_links s \<and> st_policies s' = st_policies s"
proof (cases dry)
  case True
  then show ?thesis using assms by (simp add: reject_def gs_refl)
next
  case False
  then have wr: "write_event w (reject_event w c v fresh now) s = Inr s'"
    using assms by (auto simp: reject_def and_then_Inr)
  then have "gov_step w limits s s'" by (rule gs_receipt) (rule reject_event_receipt)+
  then show ?thesis using write_event_same [OF wr] by (simp add: gs_one)
qed

lemma record_floor_steps:
  assumes "record_minimum_sensitivity w c minimum x now s = Inr s'"
  shows "gov_steps w limits s s'"
proof (cases "s' = s")
  case True
  then show ?thesis by (simp add: gs_refl)
next
  case False
  then have wr: "write_event w (floor_event w c minimum x now) s = Inr s'"
    using assms by (auto simp: record_minimum_sensitivity_def and_then_Inr write_event_def split: if_splits)
  then have "gov_step w limits s s'" by (rule gs_receipt) (simp_all add: floor_event_def)
  then show ?thesis by (rule gs_one)
qed

lemma review_steps:
  assumes "reject_reviewed_candidate w inp fresh now s = Inr (r, s')"
  shows "gov_steps w limits s s' \<and> st_memories s' = st_memories s"
proof (cases "s' = s")
  case True
  then show ?thesis by (simp add: gs_refl)
next
  case False
  then have wr: "write_event w (review_event inp fresh now) (set_status (vi_candidate inp) Rejected (vi_tenant inp) s) = Inr s'"
    using assms by (auto simp: reject_reviewed_candidate_def review_transaction_def and_then_Inr write_event_def
        split: if_splits option.splits)
  have one: "gov_step w limits s (set_status (vi_candidate inp) Rejected (vi_tenant inp) s)" by (rule gs_status) simp
  have "gov_step w limits (set_status (vi_candidate inp) Rejected (vi_tenant inp) s) s'"
    by (rule gs_receipt [OF wr]) (simp_all add: review_event_def)
  then show ?thesis using gs_trans [OF gs_one [OF one]] write_event_same [OF wr] by auto
qed

end
