(* ===== verification/Wikilinks.thy ===== *)
theory Wikilinks
  imports Prelude
begin

text \<open>
  The wiki links of \<open>curator/src/import/wikilink-parser.ts\<close>. A regular expression with the \<open>g\<close> flag
  is a matcher, from a start position to the end of the match there, and \<open>exec\<close> in a loop is a
  \<open>partial_function\<close>: a matcher that could match the empty string would make the loop run forever,
  so that it returns is a theorem, not part of the definition.
\<close>

section \<open>Matching in a loop\<close>

type_synonym matcher = "string \<Rightarrow> nat \<Rightarrow> nat option"

definition exec_from :: "matcher \<Rightarrow> string \<Rightarrow> nat \<Rightarrow> (nat \<times> nat) option" where
  "exec_from m s last_index =
     (case find (\<lambda>i. m s i \<noteq> None) [last_index..<length s] of None \<Rightarrow> None | Some i \<Rightarrow> Some (i, the (m s i)))"

partial_function (option) exec_loop :: "matcher \<Rightarrow> string \<Rightarrow> nat \<Rightarrow> (nat \<times> nat) list option" where
  "exec_loop m s last_index =
     (case exec_from m s last_index of
        None \<Rightarrow> Some []
      | Some (i, e) \<Rightarrow> Option.bind (exec_loop m s e) (\<lambda>rest. Some ((i, e) # rest)))"

section \<open>The three expressions\<close>

definition line_end_char :: "char \<Rightarrow> bool" where
  "line_end_char c = (c = CHR 0x0A \<or> c = CHR 0x0D)"

definition at_line_start :: "string \<Rightarrow> nat \<Rightarrow> bool" where
  "at_line_start s i = (i = 0 \<or> line_end_char (s ! (i - 1)))"

definition at_line_end :: "string \<Rightarrow> nat \<Rightarrow> bool" where
  "at_line_end s i = (length s \<le> i \<or> line_end_char (s ! i))"

definition run_length :: "(char \<Rightarrow> bool) \<Rightarrow> string \<Rightarrow> nat \<Rightarrow> nat" where
  "run_length p s i = length (takeWhile p (drop i s))"

text \<open>\<open>^\1\s*$\<close> at \<open>j\<close> for a fence of \<open>k\<close> characters \<open>c\<close>: the white space is taken as far as a line can end.\<close>

definition closing_fence :: "char \<Rightarrow> nat \<Rightarrow> string \<Rightarrow> nat \<Rightarrow> nat option" where
  "closing_fence c k s j =
     (if at_line_start s j \<and> take k (drop j s) = replicate k c
      then find (at_line_end s) (rev [j + k..<Suc (j + k + run_length js_space s (j + k))])
      else None)"

definition fence_end :: "char \<Rightarrow> nat \<Rightarrow> string \<Rightarrow> nat \<Rightarrow> nat option" where
  "fence_end c k s body =
     (case find (\<lambda>j. closing_fence c k s j \<noteq> None) [body..<length s] of
        None \<Rightarrow> None | Some j \<Rightarrow> closing_fence c k s j)"

text \<open>
  \<open>/^(`{3,}|~{3,})[^\n]*\n[\s\S]*?^\1\s*$/gm\<close>: the fence is tried at its full length first, then
  shorter, down to three characters.
\<close>

definition fenced_block :: matcher where
  "fenced_block s i =
     (let c = s ! i; n = run_length (\<lambda>d. d = c) s i;
          nl = i + run_length (\<lambda>d. d \<noteq> CHR 0x0A) s i
      in if i < length s \<and> at_line_start s i \<and> (c = CHR 0x60 \<or> c = CHR 0x7E) \<and> nl < length s
         then (case find (\<lambda>k. fence_end c k s (Suc nl) \<noteq> None) (rev [3..<Suc n]) of
                 None \<Rightarrow> None | Some k \<Rightarrow> fence_end c k s (Suc nl))
         else None)"

text \<open>\<open>/`[^`\n]+`/g\<close>.\<close>

definition inline_code :: matcher where
  "inline_code s i =
     (let n = run_length (\<lambda>d. d \<noteq> CHR 0x60 \<and> d \<noteq> CHR 0x0A) s (Suc i); e = Suc i + n
      in if i < length s \<and> s ! i = CHR 0x60 \<and> 0 < n \<and> e < length s \<and> s ! e = CHR 0x60 then Some (Suc e) else None)"

definition slug_char :: "char \<Rightarrow> bool" where
  "slug_char c = (c \<noteq> CHR ''['' \<and> c \<noteq> CHR '']'' \<and> c \<noteq> CHR ''|'')"

definition label_char :: "char \<Rightarrow> bool" where
  "label_char c = (c \<noteq> CHR ''['' \<and> c \<noteq> CHR '']'')"

text \<open>
  \<open>WIKILINK_RE\<close> at \<open>i\<close>: the two groups and the end. The classes of the groups exclude what must
  follow them, so neither laziness nor backtracking has a choice.
\<close>

definition wiki_groups :: "string \<Rightarrow> nat \<Rightarrow> (string \<times> string option \<times> nat) option" where
  "wiki_groups s i =
     (let n = run_length slug_char s (i + 2); slug = take n (drop (i + 2) s); p = i + 2 + n;
          piped = (p < length s \<and> s ! p = CHR ''|'');
          l = (if piped then run_length label_char s (Suc p) else 0);
          label = (if piped then Some (take l (drop (Suc p) s)) else None);
          q = (if piped then Suc p + l else p)
      in if take 2 (drop i s) = ''[['' \<and> 0 < n \<and> take 2 (drop q s) = '']]'' then Some (slug, label, q + 2) else None)"

definition wiki_link_at :: matcher where
  "wiki_link_at s i = map_option (\<lambda>(slug, label, e). e) (wiki_groups s i)"

section \<open>Extraction\<close>

type_synonym code_range = "nat \<times> nat"

definition is_inside_code_range :: "nat \<Rightarrow> nat \<Rightarrow> code_range list \<Rightarrow> bool" where
  "is_inside_code_range a b ranges = list_ex (\<lambda>(x, y). x \<le> a \<and> b \<le> y) ranges"

text \<open>The inline spans are checked against the ranges found so far, inline ones included.\<close>

fun add_inline :: "code_range list \<Rightarrow> code_range list \<Rightarrow> code_range list" where
  "add_inline ranges [] = ranges"
| "add_inline ranges ((a, b) # rest) =
     add_inline (if is_inside_code_range a b ranges then ranges else ranges @ [(a, b)]) rest"

definition find_code_ranges :: "string \<Rightarrow> code_range list option" where
  "find_code_ranges content =
     Option.bind (exec_loop fenced_block content 0) (\<lambda>fenced.
     Option.bind (exec_loop inline_code content 0) (\<lambda>spans.
       Some (add_inline fenced spans)))"

record wiki_link =
  wl_raw :: string
  wl_slug :: string
  wl_display :: "string option"
  wl_start :: nat
  wl_end :: nat

definition link_of :: "string \<Rightarrow> nat \<times> nat \<Rightarrow> wiki_link" where
  "link_of content = (\<lambda>(i, e).
     case wiki_groups content i of
       None \<Rightarrow> \<lparr>wl_raw = [], wl_slug = [], wl_display = None, wl_start = i, wl_end = e\<rparr>
     | Some (slug, label, _) \<Rightarrow>
         \<lparr>wl_raw = take (e - i) (drop i content), wl_slug = js_trim slug,
          wl_display = map_option js_trim label, wl_start = i, wl_end = e\<rparr>)"

definition extract_wiki_links :: "string \<Rightarrow> wiki_link list option" where
  "extract_wiki_links content =
     Option.bind (find_code_ranges content) (\<lambda>ranges.
     Option.bind (exec_loop wiki_link_at content 0) (\<lambda>matches.
       Some (map (link_of content) (filter (\<lambda>(i, e). \<not> is_inside_code_range i e ranges) matches))))"

section \<open>Resolution\<close>

record resolved_link =
  rl_slug :: string
  rl_memory :: "string option"

definition link_replacement :: "string \<Rightarrow> string \<Rightarrow> string" where
  "link_replacement label i = ''['' @ label @ '']('' @ ''/api/memories/'' @ i @ '')''"

text \<open>The loop over the links in reverse; \<open>resolve\<close> is the cached resolver, from a slug to id and title.\<close>

definition replace_link :: "(string \<Rightarrow> (string \<times> string) option) \<Rightarrow> wiki_link \<Rightarrow> string \<Rightarrow> string" where
  "replace_link resolve l result =
     (case resolve (wl_slug l) of
        None \<Rightarrow> result
      | Some (i, title) \<Rightarrow>
          take (wl_start l) result
          @ link_replacement (case wl_display l of None \<Rightarrow> title | Some d \<Rightarrow> d) i @ drop (wl_end l) result)"

definition resolve_wiki_links ::
  "string \<Rightarrow> (string \<Rightarrow> (string \<times> string) option) \<Rightarrow> (string \<times> resolved_link list) option" where
  "resolve_wiki_links content resolve =
     Option.bind (extract_wiki_links content) (\<lambda>ls.
       Some (foldr (replace_link resolve) ls content,
             map (\<lambda>g. \<lparr>rl_slug = g, rl_memory = map_option fst (resolve g)\<rparr>) (js_set (map wl_slug ls))))"

section \<open>The loops return\<close>

definition advances :: "matcher \<Rightarrow> bool" where
  "advances m \<longleftrightarrow> (\<forall>s i e. m s i = Some e \<longrightarrow> i < e \<and> e \<le> length s)"

text \<open>The matches a loop returns: in order, apart, and each a match of the expression.\<close>

fun apart_from :: "nat \<Rightarrow> (nat \<times> nat) list \<Rightarrow> bool" where
  "apart_from p [] = True"
| "apart_from p ((i, e) # ms) = (p \<le> i \<and> i < e \<and> apart_from e ms)"

lemma exec_from_Some:
  "exec_from m s p = Some (i, e) \<Longrightarrow> p \<le> i \<and> i < length s \<and> m s i = Some e"
  by (auto simp: exec_from_def find_Some_iff split: option.splits) 

lemma exec_loop_returns:
  assumes "advances m"
  shows "\<exists>ms. exec_loop m s p = Some ms \<and> apart_from p ms \<and> (\<forall>(i, e) \<in> set ms. m s i = Some e \<and> e \<le> length s)"
proof (induction "length s - p" arbitrary: p rule: less_induct)
  case less
  show ?case
  proof (cases "exec_from m s p")
    case None
    then show ?thesis by (subst exec_loop.simps) simp
  next
    case (Some ie)
    then obtain i e where ie: "exec_from m s p = Some (i, e)" by (cases ie) auto
    then have at: "p \<le> i" "i < length s" "m s i = Some e" using exec_from_Some by blast+
    then have e: "i < e" "e \<le> length s" using assms by (auto simp: advances_def)
    then have "length s - e < length s - p" using at by simp
    from less [OF this] obtain ms where ms: "exec_loop m s e = Some ms" "apart_from e ms"
        "\<forall>(i, e) \<in> set ms. m s i = Some e \<and> e \<le> length s" by blast
    then have "exec_loop m s p = Some ((i, e) # ms)" using ie by (subst exec_loop.simps) simp
    then show ?thesis using ms at e by (intro exI [of _ "(i, e) # ms"]) auto
  qed
qed

lemma run_length_le: "run_length p s i \<le> length s - i"
  unfolding run_length_def by (metis length_drop length_takeWhile_le)

lemma closing_fence_bounds: "closing_fence c k s j = Some e \<Longrightarrow> 0 < k \<Longrightarrow> j + k \<le> e \<and> e \<le> length s"
proof -
  assume a: "closing_fence c k s j = Some e" and k: "0 < k"
  then have "take k (drop j s) = replicate k c"
    and e: "e \<in> set (rev [j + k..<Suc (j + k + run_length js_space s (j + k))])"
    by (auto simp: closing_fence_def split: if_splits dest: find_Some_in simp del: upt_Suc set_upt)
  then have "length (take k (drop j s)) = k" by simp
  then have "j + k \<le> length s" using k by simp
  then show ?thesis using e run_length_le [of js_space s "j + k"] by auto
qed

lemma fence_end_bounds: "fence_end c k s p = Some e \<Longrightarrow> 0 < k \<Longrightarrow> p + k \<le> e \<and> e \<le> length s"
  using closing_fence_bounds by (fastforce simp: fence_end_def split: option.splits dest: find_Some_in)

lemma fenced_advances: "advances fenced_block"
  unfolding advances_def
proof (intro allI impI)
  fix s i e assume "fenced_block s i = Some e"
  then obtain k where "fence_end (s ! i) k s (Suc (i + run_length (\<lambda>d. d \<noteq> CHR 0x0A) s i)) = Some e" "0 < k"
    by (auto simp: fenced_block_def Let_def split: if_splits option.splits dest: find_Some_in)
  from fence_end_bounds [OF this] show "i < e \<and> e \<le> length s" by linarith
qed

lemma inline_advances: "advances inline_code"
  by (auto simp: advances_def inline_code_def Let_def split: if_splits)

lemma wiki_groups_advance:
  assumes "wiki_groups s i = Some (slug, label, e)"
  shows "i + 4 < e \<and> e \<le> length s \<and> take 2 (drop (e - 2) s) = '']]'' \<and> take 2 (drop i s) = ''[[''
    \<and> slug \<noteq> [] \<and> list_all slug_char slug"
proof -
  let ?n = "run_length slug_char s (i + 2)"
  obtain q where q: "e = q + 2" "i + 2 < q" "take 2 (drop q s) = '']]''" "take 2 (drop i s) = ''[[''"
      "slug = take ?n (drop (i + 2) s)" "0 < ?n"
    using assms by (auto simp: wiki_groups_def Let_def split: if_splits)
  have "length (take 2 (drop q s)) = 2" using q(3) by simp
  then have "q + 2 \<le> length s" by simp
  moreover have "slug = takeWhile slug_char (drop (i + 2) s)"
    unfolding q(5) run_length_def by (metis takeWhile_eq_take)
  moreover from this have "length slug = ?n" by (simp add: run_length_def)
  ultimately show ?thesis using q by (auto simp: list_all_iff dest: set_takeWhileD)
qed

lemma wiki_advances: "advances wiki_link_at"
  using wiki_groups_advance by (fastforce simp: advances_def wiki_link_at_def)

lemma apart_filter: "apart_from p ms \<Longrightarrow> apart_from p (filter P ms)"
proof -
  have mono: "apart_from q ms \<Longrightarrow> p \<le> q \<Longrightarrow> apart_from p ms" for p q ms
    by (cases ms) auto
  show "apart_from p ms \<Longrightarrow> apart_from p (filter P ms)"
    by (induction p ms rule: apart_from.induct) (auto intro: mono)
qed

lemma apart_bounds: "apart_from p ms \<Longrightarrow> (i, e) \<in> set ms \<Longrightarrow> p \<le> i \<and> i < e"
  by (induction p ms rule: apart_from.induct) auto

text \<open>
  C34. Link extraction terminates. The three expressions match no empty string, so every \<open>exec\<close> loop
  comes to an end and \<open>extractWikiLinks\<close> returns on every text. The links it returns are in order and
  do not overlap; each is the text between its two positions, from the opening to the closing double
  bracket, has a slug of its own without brackets or bar, and lies outside every code range.
\<close>

theorem wiki_link_extraction_returns:
  "\<exists>ls ranges. extract_wiki_links content = Some ls \<and> find_code_ranges content = Some ranges
    \<and> apart_from 0 (map (\<lambda>l. (wl_start l, wl_end l)) ls)
    \<and> list_all (\<lambda>l. wl_end l \<le> length content \<and> wl_raw l = take (wl_end l - wl_start l) (drop (wl_start l) content)
        \<and> take 2 (wl_raw l) = ''[['' \<and> drop (length (wl_raw l) - 2) (wl_raw l) = '']]''
        \<and> list_all slug_char (wl_slug l) \<and> \<not> is_inside_code_range (wl_start l) (wl_end l) ranges) ls"
proof -
  obtain fenced where f: "exec_loop fenced_block content 0 = Some fenced" using exec_loop_returns [OF fenced_advances] by blast
  obtain spans where i: "exec_loop inline_code content 0 = Some spans" using exec_loop_returns [OF inline_advances] by blast
  obtain ms where ms: "exec_loop wiki_link_at content 0 = Some ms" "apart_from 0 ms"
      "\<forall>(i, e) \<in> set ms. wiki_link_at content i = Some e \<and> e \<le> length content"
    using exec_loop_returns [OF wiki_advances] by blast
  let ?ranges = "add_inline fenced spans"
  let ?kept = "filter (\<lambda>(i, e). \<not> is_inside_code_range i e ?ranges) ms"
  have ranges: "find_code_ranges content = Some ?ranges" by (simp add: find_code_ranges_def f i)
  have ends: "wl_start (link_of content (i, e)) = i \<and> wl_end (link_of content (i, e)) = e" for i e
    by (simp add: link_of_def split: option.split prod.split)
  then have same: "map (\<lambda>l. (wl_start l, wl_end l)) (map (link_of content) xs) = xs" for xs
    by (induction xs) auto
  have one: "wl_raw (link_of content (i, e)) = take (e - i) (drop i content)
      \<and> take 2 (wl_raw (link_of content (i, e))) = ''[[''
      \<and> drop (length (wl_raw (link_of content (i, e))) - 2) (wl_raw (link_of content (i, e))) = '']]''
      \<and> list_all slug_char (wl_slug (link_of content (i, e)))" if "(i, e) \<in> set ms" for i e
  proof -
    have "wiki_link_at content i = Some e" using that ms(3) by blast
    then obtain slug label where g: "wiki_groups content i = Some (slug, label, e)"
      by (auto simp: wiki_link_at_def)
    note w = wiki_groups_advance [OF g]
    have raw: "wl_raw (link_of content (i, e)) = take (e - i) (drop i content)" by (simp add: link_of_def g)
    have two: "i + 2 \<le> e - 2" using w by linarith
    have len: "length (take (e - i) (drop i content)) = e - i" using w by (auto simp: min_def)
    have "drop (length (take (e - i) (drop i content)) - 2) (take (e - i) (drop i content)) = take 2 (drop (e - 2) content)"
      unfolding len using two by (simp add: drop_take)
    moreover have "take 2 (take (e - i) (drop i content)) = take 2 (drop i content)" using two by simp
    moreover have "list_all slug_char (js_trim slug)"
      using w by (auto simp: js_trim_def list_all_iff dest!: set_dropWhileD)
    ultimately show ?thesis using w unfolding raw by (simp add: link_of_def g)
  qed
  have "extract_wiki_links content = Some (map (link_of content) ?kept)"
    by (simp add: extract_wiki_links_def ranges ms(1))
  moreover have "apart_from 0 (map (\<lambda>l. (wl_start l, wl_end l)) (map (link_of content) ?kept))"
    unfolding same by (rule apart_filter [OF ms(2)])
  moreover have "list_all (\<lambda>l. wl_end l \<le> length content \<and> wl_raw l = take (wl_end l - wl_start l) (drop (wl_start l) content)
        \<and> take 2 (wl_raw l) = ''[['' \<and> drop (length (wl_raw l) - 2) (wl_raw l) = '']]''
        \<and> list_all slug_char (wl_slug l) \<and> \<not> is_inside_code_range (wl_start l) (wl_end l) ?ranges) (map (link_of content) ?kept)"
    using one ms(3) ends by (fastforce simp: list_all_iff)
  ultimately show ?thesis using ranges by blast
qed

end
