(* ===== verification/Promoter.thy ===== *)
theory Promoter
  imports Intake_Gates Wikilinks Supersession
begin

text \<open>
  The promotion of a candidate, \<open>curator/src/promotion/promoter.ts\<close>: the curated memory it builds,
  the transaction that retires the superseded memories, inserts the new one with its links and
  writes the receipts, and what the transaction guarantees.
\<close>

section \<open>Input\<close>

record promotion_input =
  pi_candidate :: memory_candidate
  pi_content_hash :: string
  pi_minimum :: "sensitivity option"
  pi_verdict :: gate_verdict
  pi_supersession :: "supersession_match option"
  pi_supersessions :: "supersession_match list"
  pi_promoted_by :: "author option"
  pi_reason :: "string option"
  pi_resolved_flags :: "string list option"

record eval_record =
  er_name :: string
  er_passed :: bool
  er_score :: rat
  er_threshold :: rat
  er_details :: "(string \<times> jval) list"

definition resolved_flags :: "promotion_input \<Rightarrow> string list" where
  "resolved_flags inp = (case pi_resolved_flags inp of None \<Rightarrow> [] | Some fs \<Rightarrow> fs)"

text \<open>\<open>verdict.charAt(0).toUpperCase() + verdict.slice(1)\<close>; the verdict starts with an ASCII letter.\<close>

definition capitalised :: "string \<Rightarrow> string" where
  "capitalised s =
     (case s of
        [] \<Rightarrow> []
      | c # r \<Rightarrow> (let n = of_char c :: nat in if 97 \<le> n \<and> n \<le> 122 then char_of (n - 32) else c) # r)"

definition promotion_receipt_reason :: "promotion_input \<Rightarrow> string" where
  "promotion_receipt_reason inp =
     (let fs = resolved_flags inp;
          verdict = (if fs \<noteq> [] then ''flags resolved by a human releasing a hold: '' @ js_join '', '' fs
                                     @ ''; every other governance rule passed''
                     else ''passed all governance rules'')
      in case pi_reason inp of
           Some r \<Rightarrow> if js_trim r \<noteq> [] then r @ '' ('' @ verdict @ '')'' else capitalised verdict
         | None \<Rightarrow> capitalised verdict)"

text \<open>\<open>x.toFixed(2)\<close> on a number that is not negative, a half rounded up.\<close>

definition to_fixed2 :: "rat \<Rightarrow> string" where
  "to_fixed2 x =
     (let n = nat \<lfloor>100 * x + 1/2\<rfloor>
      in decimal (n div 100) @ ''.'' @ [char_of (48 + (n div 10) mod 10), char_of (48 + n mod 10)])"

text \<open>The de-duplication of the single and the plural supersession input: the first of each id stays.\<close>

fun first_of_each_id :: "supersession_match list \<Rightarrow> supersession_match list \<Rightarrow> supersession_match list" where
  "first_of_each_id acc [] = acc"
| "first_of_each_id acc (m # ms) =
     first_of_each_id (if list_ex (\<lambda>x. sx_id x = sx_id m) acc then acc else acc @ [m]) ms"

definition promoted_supersessions :: "promotion_input \<Rightarrow> supersession_match list" where
  "promoted_supersessions inp =
     first_of_each_id [] ((case pi_supersession inp of None \<Rightarrow> [] | Some m \<Rightarrow> [m]) @ pi_supersessions inp)"

section \<open>The memory\<close>

definition promoted_id :: "world \<Rightarrow> promotion_input \<Rightarrow> uuid" where
  "promoted_id w inp = derive_memory_id (w_sha1 w) (cand_id (pi_candidate inp)) (pi_content_hash inp)"

definition promoter_of :: "promotion_input \<Rightarrow> author" where
  "promoter_of inp = (case pi_promoted_by inp of None \<Rightarrow> curator_actor | Some a \<Rightarrow> a)"

definition promoted_evaluations :: "world \<Rightarrow> promotion_input \<Rightarrow> iso_datetime \<Rightarrow> policy_evaluation list" where
  "promoted_evaluations w inp now =
     map (\<lambda>(i, e). \<lparr>pe_policy_id = derive_policy_evaluation_id (w_sha1 w) (promoted_id w inp) (ge_rule_id e) (decimal i),
                    pe_rule_id = ge_rule_id e, pe_result = ge_outcome e,
                    pe_reason = Some (w_reason_text w (ge_reason e)), pe_evaluated_at = now\<rparr>)
       (zip [0..<length (gv_evaluations (pi_verdict inp))] (gv_evaluations (pi_verdict inp)))"

definition promoted_sensitivity :: "world \<Rightarrow> promotion_input \<Rightarrow> sensitivity" where
  "promoted_sensitivity w inp =
     effective_sensitivity (cc_level (classify_content (w_env w) (cand_content (pi_candidate inp)))) (pi_minimum inp)"

definition promoted_memory :: "world \<Rightarrow> promotion_input \<Rightarrow> iso_datetime \<Rightarrow> curated_memory" where
  "promoted_memory w inp now =
     (let c = pi_candidate inp
      in \<lparr>mem_id = promoted_id w inp, mem_candidate_id = cand_id c, mem_source = cand_source c,
          mem_content = cand_content c, mem_title = cand_title c, mem_category = cand_category c,
          mem_trust = cand_trust c, mem_sensitivity = promoted_sensitivity w inp, mem_author = cand_author c,
          mem_tenant = cand_tenant c, mem_metadata = cand_metadata c, mem_lifecycle = Active,
          mem_content_hash = pi_content_hash inp, mem_evaluations = promoted_evaluations w inp now,
          mem_supersession = None, promoted_at = now, promoted_by = promoter_of inp, updated_at = now,
          mem_version = 1\<rparr>)"

section \<open>The writes of the transaction\<close>

definition retirement_reason :: "supersession_match \<Rightarrow> string" where
  "retirement_reason m =
     (case sx_basis m of
        By_subject \<Rightarrow> ''Subject match: '' @ (case sx_subject m of None \<Rightarrow> ''unknown'' | Some g \<Rightarrow> g)
      | By_title \<Rightarrow> ''Title similarity: '' @ to_fixed2 (sx_similarity m))"

definition superseded_event :: "world \<Rightarrow> promotion_input \<Rightarrow> supersession_match \<Rightarrow> iso_datetime \<Rightarrow> audit_event" where
  "superseded_event w inp m now =
     \<lparr>ev_id = audit_id w (sx_id m) A_superseded (promoted_id w inp), ev_action = A_superseded,
      ev_memory_id = sx_id m, ev_tenant_id = cand_tenant (pi_candidate inp), ev_actor = curator_actor,
      ev_reason = Some (''Superseded by '' @ promoted_id w inp),
      ev_details =
        [(''newMemoryId'', JStr (promoted_id w inp)), (''similarity'', JNum (sx_similarity m))]
        @ (if sx_basis m = By_subject
           then [(''basis'', JStr ''subject''),
                 (''subject'', JStr (case sx_subject m of None \<Rightarrow> ''unknown'' | Some g \<Rightarrow> g))]
           else []),
      ev_timestamp = now\<rparr>"

definition retired_memory :: "world \<Rightarrow> promotion_input \<Rightarrow> supersession_match \<Rightarrow> iso_datetime \<Rightarrow> curated_memory \<Rightarrow> curated_memory" where
  "retired_memory w inp m now old =
     old\<lparr>mem_lifecycle := Superseded,
         mem_supersession := Some \<lparr>superseded_by = promoted_id w inp, link_reason = retirement_reason m, linked_at = now\<rparr>,
         updated_at := now\<rparr>"

definition parse_memory :: "world \<Rightarrow> curated_memory \<Rightarrow> fault + curated_memory" where
  "parse_memory w m =
     (case schema_memory (w_formats w) m of None \<Rightarrow> Inl (Schema_refused ''CuratedMemory'') | Some x \<Rightarrow> Inr x)"

text \<open>The first loop over the supersessions: retire the memory, if it is there, and write the receipt.\<close>

fun retire_all ::
  "world \<Rightarrow> promotion_input \<Rightarrow> iso_datetime \<Rightarrow> supersession_match list \<Rightarrow> store_state \<Rightarrow> fault + store_state" where
  "retire_all w inp now [] s = Inr s"
| "retire_all w inp now (m # ms) s =
     and_then (find_memory (w_formats w) (sx_id m) (st_memories s)) (\<lambda>old.
     and_then (case old of
                 None \<Rightarrow> Inr s
               | Some o' \<Rightarrow>
                   and_then (parse_memory w (retired_memory w inp m now o')) (\<lambda>r.
                   and_then (memory_update (w_scan w) r (st_memories s)) (\<lambda>(_, t).
                     Inr (s\<lparr>st_memories := t\<rparr>)))) (\<lambda>s1.
     and_then (write_event w (superseded_event w inp m now) s1) (\<lambda>s2.
       retire_all w inp now ms s2)))"

definition edge :: "world \<Rightarrow> promotion_input \<Rightarrow> string \<Rightarrow> link_type \<Rightarrow> rat \<Rightarrow> iso_datetime \<Rightarrow> memory_link" where
  "edge w inp target ty weight now =
     \<lparr>ml_id = derive_link_id (w_sha1 w) (promoted_id w inp) target (link_type_name ty),
      ml_source_memory = promoted_id w inp, ml_target_memory = target, ml_type = ty, ml_weight = weight,
      ml_created_by = ''curator'', ml_source = Link_curator, ml_import_batch = None, ml_created_at = now\<rparr>"

fun link_superseded ::
  "world \<Rightarrow> promotion_input \<Rightarrow> iso_datetime \<Rightarrow> supersession_match list \<Rightarrow> store_state \<Rightarrow> fault + store_state" where
  "link_superseded w inp now [] s = Inr s"
| "link_superseded w inp now (m # ms) s =
     and_then (link_insert (st_memories s) (edge w inp (sx_id m) Supersedes (sx_similarity m) now) (st_links s)) (\<lambda>ls.
       link_superseded w inp now ms (s\<lparr>st_links := ls\<rparr>))"

text \<open>
  The loop over the wiki links of the content. The search names no tenant. A refused insertion is
  caught and skipped.
\<close>

fun link_mentions :: "world \<Rightarrow> promotion_input \<Rightarrow> iso_datetime \<Rightarrow> wiki_link list \<Rightarrow> store_state \<Rightarrow> fault + store_state" where
  "link_mentions w inp now [] s = Inr s"
| "link_mentions w inp now (l # ls) s =
     and_then (search_by_text (w_formats w) (w_full_text w) (wl_slug l) None None (st_memories s)) (\<lambda>targets.
       case find (\<lambda>m. js_lower (mem_title m) = js_lower (wl_slug l) \<and> mem_id m \<noteq> promoted_id w inp) targets of
         None \<Rightarrow> link_mentions w inp now ls s
       | Some m \<Rightarrow>
           (case link_insert (st_memories s) (edge w inp (mem_id m) Relates_to 1 now) (st_links s) of
              Inl _ \<Rightarrow> link_mentions w inp now ls s
            | Inr es \<Rightarrow> link_mentions w inp now ls (s\<lparr>st_links := es\<rparr>)))"

definition sensitivity_constraint_json :: "sensitivity \<Rightarrow> sensitivity \<Rightarrow> sensitivity \<Rightarrow> jval" where
  "sensitivity_constraint_json classified minimum effective =
     JObj [(''classified'', JStr (sensitivity_name classified)), (''minimum'', JStr (sensitivity_name minimum)),
           (''effective'', JStr (sensitivity_name effective))]"

definition promoted_event :: "world \<Rightarrow> promotion_input \<Rightarrow> iso_datetime \<Rightarrow> audit_event" where
  "promoted_event w inp now =
     (let c = pi_candidate inp
      in \<lparr>ev_id = audit_id w (promoted_id w inp) A_promoted [], ev_action = A_promoted,
          ev_memory_id = promoted_id w inp, ev_tenant_id = cand_tenant c, ev_actor = promoter_of inp,
          ev_reason = Some (promotion_receipt_reason inp),
          ev_details =
            [(''candidateId'', JStr (cand_id c))]
            @ (case pi_minimum inp of
                 None \<Rightarrow> []
               | Some mn \<Rightarrow> [(''sensitivityConstraint'',
                   sensitivity_constraint_json (cc_level (classify_content (w_env w) (cand_content c))) mn
                     (promoted_sensitivity w inp))])
            @ (if resolved_flags inp \<noteq> [] then [(''humanResolvedFlags'', strings_json (resolved_flags inp))] else [])
            @ [(''originChannel'', JStr (case cand_origin c of None \<Rightarrow> unattested_channel | Some og \<Rightarrow> channel og))]
            @ (case cand_origin c of
                 None \<Rightarrow> []
               | Some og \<Rightarrow> [(''originTokenHash'',
                   JStr (take origin_token_hash_surface_len (hash_origin_token w (token_hmac og))))]),
          ev_timestamp = now\<rparr>)"

definition eval_event :: "world \<Rightarrow> promotion_input \<Rightarrow> iso_datetime \<Rightarrow> eval_record \<Rightarrow> audit_event" where
  "eval_event w inp now v =
     \<lparr>ev_id = audit_id w (promoted_id w inp) A_eval_result (er_name v), ev_action = A_eval_result,
      ev_memory_id = promoted_id w inp, ev_tenant_id = cand_tenant (pi_candidate inp), ev_actor = curator_actor,
      ev_reason = Some (''eval '' @ er_name v @ '': '' @ (if er_passed v then ''pass'' else ''fail'')),
      ev_details = spread
        [(''evaluator'', JStr (er_name v)), (''passed'', JBool (er_passed v)), (''score'', JNum (er_score v)),
         (''threshold'', JNum (er_threshold v))] (er_details v),
      ev_timestamp = now\<rparr>"

text \<open>The best-effort loop: what was written before a throw stays.\<close>

fun emit_evals :: "world \<Rightarrow> promotion_input \<Rightarrow> iso_datetime \<Rightarrow> eval_record list \<Rightarrow> store_state \<Rightarrow> store_state" where
  "emit_evals w inp now [] s = s"
| "emit_evals w inp now (v # vs) s =
     (case write_event w (eval_event w inp now v) s of Inl _ \<Rightarrow> s | Inr s' \<Rightarrow> emit_evals w inp now vs s')"

text \<open>The last check of a promotion under a floor: the row and the receipt carry the constraint.\<close>

definition floor_retained :: "world \<Rightarrow> promotion_input \<Rightarrow> curated_memory \<Rightarrow> sensitivity \<Rightarrow> store_state \<Rightarrow> fault + unit" where
  "floor_retained w inp m mn s =
     and_then (find_memory (w_formats w) (mem_id m) (st_memories s)) (\<lambda>stored.
     and_then (memory_events w (mem_id m) (mem_tenant m) s) (\<lambda>events.
     and_then (resolve_minimum_sensitivity w (pi_candidate inp) s) (\<lambda>current.
       if current = Some mn \<and> map_option mem_sensitivity stored = Some (promoted_sensitivity w inp)
          \<and> Option.bind (find (\<lambda>e. ev_id e = audit_id w (mem_id m) A_promoted []) events)
              (\<lambda>r. detail r ''sensitivityConstraint'')
            = Some (sensitivity_constraint_json
                (cc_level (classify_content (w_env w) (cand_content (pi_candidate inp)))) mn (promoted_sensitivity w inp))
       then Inr () else Inl Floor_not_retained)))"

section \<open>The promotion\<close>

type_synonym eval_callback = "curated_memory \<Rightarrow> gate_verdict \<Rightarrow> eval_record list option"

definition promotion_transaction ::
  "world \<Rightarrow> promotion_input \<Rightarrow> curated_memory \<Rightarrow> bool \<Rightarrow> eval_callback option \<Rightarrow> iso_datetime \<Rightarrow> store_state \<Rightarrow> fault + store_state" where
  "promotion_transaction w inp m with_links eval now s =
     and_then (resolve_minimum_sensitivity w (pi_candidate inp) s) (\<lambda>current.
       if current \<noteq> pi_minimum inp then Inl Floor_changed
       else and_then (retire_all w inp now (promoted_supersessions inp) s) (\<lambda>s1.
         and_then (memory_insert (w_scan w) m (st_memories s1)) (\<lambda>t.
         let s2 = s1\<lparr>st_memories := t\<rparr>
         in and_then (if with_links then link_superseded w inp now (promoted_supersessions inp) s2 else Inr s2) (\<lambda>s3.
         and_then (if with_links
                   then link_mentions w inp now
                          (case extract_wiki_links (cand_content (pi_candidate inp)) of None \<Rightarrow> [] | Some ls \<Rightarrow> ls) s3
                   else Inr s3) (\<lambda>s4.
         and_then (write_event w (promoted_event w inp now) s4) (\<lambda>s5.
         let s6 = (case eval of
                     None \<Rightarrow> s5
                   | Some f \<Rightarrow> (case f m (pi_verdict inp) of None \<Rightarrow> s5 | Some vs \<Rightarrow> emit_evals w inp now vs s5))
         in and_then (case pi_minimum inp of None \<Rightarrow> Inr () | Some mn \<Rightarrow> floor_retained w inp m mn s6) (\<lambda>_.
              Inr s6)))))))"

definition promote ::
  "world \<Rightarrow> promotion_input \<Rightarrow> bool \<Rightarrow> bool \<Rightarrow> eval_callback option \<Rightarrow> iso_datetime \<Rightarrow> store_state \<Rightarrow>
    fault + curated_memory \<times> store_state" where
  "promote w inp dry with_links eval now s =
     and_then (resolve_minimum_sensitivity w (pi_candidate inp) s) (\<lambda>current.
       if current \<noteq> pi_minimum inp then Inl Floor_changed
       else and_then (parse_memory w (promoted_memory w inp now)) (\<lambda>m.
         if dry then Inr (m, s)
         else and_then (promotion_transaction w inp m with_links eval now s) (\<lambda>s'. Inr (m, s'))))"

end
