(* ===== verification/Promoter_Laws.thy ===== *)
theory Promoter_Laws
  imports Promoter Hold_Expiry
begin

text \<open>
  What a promotion guarantees: parsing is idempotent, so a built memory is well formed; each part of
  the transaction as an effect on the memory map, the history and the links; and the whole as a
  sequence of governance steps.
\<close>

section \<open>Parsing twice\<close>

lemma schema_author_idem: "schema_author a = Some b \<Longrightarrow> schema_author b = Some b"
proof -
  assume "schema_author a = Some b"
  then obtain i n where "non_empty_string (author_id a) = Some i" "b = a\<lparr>author_id := i, author_name := n\<rparr>"
      "n = None \<or> (\<exists>x y. non_empty_string x = Some y \<and> n = Some y)"
    by (cases a) (auto simp: schema_author_def split: Option.bind_splits option.splits)
  then show ?thesis using non_empty_idem by (auto simp: schema_author_def)
qed

lemma schema_list_idem:
  assumes "\<And>x y. p x = Some y \<Longrightarrow> p y = Some y"
  shows "schema_list p xs = Some ys \<Longrightarrow> schema_list p ys = Some ys"
proof (induction xs arbitrary: ys)
  case (Cons x xs)
  then obtain y zs where "p x = Some y" "schema_list p xs = Some zs" "ys = y # zs"
    by (auto split: Option.bind_splits)
  then show ?case using Cons.IH assms by simp
qed simp

lemma schema_evaluation_idem: "schema_evaluation fmt e = Some f \<Longrightarrow> schema_evaluation fmt f = Some f"
  by (auto simp: schema_evaluation_def split: if_splits dest: non_empty_idem)

lemma schema_optional_idem:
  "(\<And>x y. p x = Some y \<Longrightarrow> p y = Some y) \<Longrightarrow> schema_optional p v = Some v' \<Longrightarrow> schema_optional p v' = Some v'"
  by (auto simp: schema_optional_def split: option.splits)

lemma schema_memory_wf:
  assumes "schema_memory fmt m = Some m'"
  shows "memory_wf fmt m'"
proof -
  obtain content title author tenant evals sup prom where
    p: "non_empty_string (mem_content m) = Some content" "non_empty_string (mem_title m) = Some title"
      "schema_author (mem_author m) = Some author" "non_empty_string (mem_tenant m) = Some tenant"
      "schema_list (schema_evaluation fmt) (mem_evaluations m) = Some evals"
      "schema_optional (schema_supersession fmt) (mem_supersession m) = Some sup"
      "schema_author (promoted_by m) = Some prom"
    and c: "fmt_uuid fmt (mem_id m)" "fmt_uuid fmt (mem_candidate_id m)" "sha256_shape (mem_content_hash m)"
      "metadata_check (mem_metadata m)" "fmt_datetime fmt (promoted_at m)" "fmt_datetime fmt (updated_at m)"
      "0 < mem_version m" "memory_refinement m"
    and m': "m' = m\<lparr>mem_content := content, mem_title := title, mem_author := author,
                    mem_tenant := tenant, mem_evaluations := evals, mem_supersession := sup, promoted_by := prom\<rparr>"
    using assms by (auto simp: schema_memory_def split: Option.bind_splits if_splits)
  have "memory_refinement m'"
    using c(8) p(6) by (auto simp: memory_refinement_def m' schema_optional_def split: option.splits)
  then show ?thesis
    using c schema_author_idem [OF p(3)] schema_author_idem [OF p(7)]
      schema_list_idem [OF schema_evaluation_idem p(5)] schema_optional_idem [OF schema_supersession_idem p(6)]
      non_empty_idem [OF p(1)] non_empty_idem [OF p(2)] non_empty_idem [OF p(4)]
    by (simp add: memory_wf_def schema_memory_def m')
qed

lemma schema_candidate_wf:
  assumes "schema_candidate fmt c = Some c'"
  shows "candidate_wf fmt c'"
proof -
  obtain content title author tenant where
    p: "non_empty_string (cand_content c) = Some content" "non_empty_string (cand_title c) = Some title"
      "schema_author (cand_author c) = Some author" "non_empty_string (cand_tenant c) = Some tenant"
    and c: "fmt_uuid fmt (cand_id c)" "metadata_check (cand_metadata c)" "fmt_datetime fmt (captured_at c)"
      "case cand_origin c of None \<Rightarrow> True | Some og \<Rightarrow> origin_shape og \<and> fmt_datetime fmt (minted_at og)" "candidate_refinement c"
    and c': "c' = c\<lparr>cand_content := content, cand_title := title, cand_author := author, cand_tenant := tenant\<rparr>"
    using assms by (auto simp: schema_candidate_def split: Option.bind_splits if_splits)
  have "author_kind author = author_kind (cand_author c)" using p(3) by (auto simp: schema_author_def split: Option.bind_splits option.splits)
  then have "candidate_refinement c'" using c(5) by (simp add: candidate_refinement_def c')
  then show ?thesis
    using c schema_author_idem [OF p(3)] non_empty_idem [OF p(1)] non_empty_idem [OF p(2)] non_empty_idem [OF p(4)]
    by (simp add: candidate_wf_def schema_candidate_def c')
qed

lemma schema_event_idem: "schema_event fmt e = Some f \<Longrightarrow> schema_event fmt f = Some f"
  using schema_author_idem schema_optional_idem [OF non_empty_idem] non_empty_idem
  by (auto simp: schema_event_def split: Option.bind_splits if_splits)



section \<open>Retiring the superseded memories\<close>

abbreviation mem_view :: "world \<Rightarrow> store_state \<Rightarrow> memory_map" where
  "mem_view w s \<equiv> view (w_formats w) (st_memories s)"

lemma parse_memory_wf: "parse_memory w m = Inr r \<Longrightarrow> memory_wf (w_formats w) r \<and> mem_id r = mem_id m
    \<and> mem_lifecycle r = mem_lifecycle m"
  using schema_memory_wf schema_memory_parts(6,7) by (auto simp: parse_memory_def split: option.splits)

lemma update_stored:
  assumes "table_ok fmt t" "view fmt t (mem_id r) = Some old" "memory_wf fmt r" "memory_update scan r t = Inr (b, t')"
  shows "table_ok fmt t' \<and> view fmt t' = (view fmt t)(mem_id r \<mapsto> r)"
proof -
  have t': "t' = set_rows (mem_id r) (\<lambda>_. memory_to_row r) t"
    using assms(3,4) by (simp add: memory_update_def membership_ok)
  show ?thesis unfolding t' using assms by (intro set_rows_view) simp_all
qed

lemma superseded_event_receipt:
  "ev_action (superseded_event w inp m now) \<noteq> A_held"
  "json_distinct (JObj (ev_details (superseded_event w inp m now)))"
  by (auto simp: superseded_event_def)

text \<open>Everything but the memories, the links and the receipts is as before.\<close>

definition same_inbox :: "store_state \<Rightarrow> store_state \<Rightarrow> bool" where
  "same_inbox s s' \<longleftrightarrow> st_candidates s' = st_candidates s \<and> st_policies s' = st_policies s"

lemma same_inbox_trans: "same_inbox s s1 \<Longrightarrow> same_inbox s1 s2 \<Longrightarrow> same_inbox s s2"
  by (simp add: same_inbox_def)

lemma state_ok_memories: "state_ok w s \<Longrightarrow> table_ok (w_formats w) t \<Longrightarrow> state_ok w (s\<lparr>st_memories := t\<rparr>)"
  by (simp add: state_ok_def)

lemma state_ok_links [simp]: "state_ok w (s\<lparr>st_links := ls\<rparr>) = state_ok w s"
  by (simp add: state_ok_def)

definition retired_to ::
  "world \<Rightarrow> promotion_input \<Rightarrow> supersession_match \<Rightarrow> iso_datetime \<Rightarrow> curated_memory option \<Rightarrow> curated_memory option \<Rightarrow> bool" where
  "retired_to w inp m now before after \<longleftrightarrow>
     (case before of
        None \<Rightarrow> after = None
      | Some old \<Rightarrow> after \<noteq> None \<and> schema_memory (w_formats w) (retired_memory w inp m now old) = after)"

lemma retire_first:
  assumes ok: "state_ok w s"
    and found: "find_memory (w_formats w) (sx_id m) (st_memories s) = Inr old"
    and upd: "(case old of None \<Rightarrow> Inr s
        | Some o' \<Rightarrow> and_then (parse_memory w (retired_memory w inp m now o')) (\<lambda>r.
            and_then (memory_update (w_scan w) r (st_memories s)) (\<lambda>(_, t). Inr (s\<lparr>st_memories := t\<rparr>)))) = Inr s1"
  shows "gov_steps w limits s s1 \<and> state_ok w s1 \<and> same_inbox s s1 \<and> st_links s1 = st_links s
    \<and> st_audits s1 = st_audits s \<and> (\<forall>i. i \<noteq> sx_id m \<longrightarrow> mem_view w s1 i = mem_view w s i)
    \<and> retired_to w inp m now (mem_view w s (sx_id m)) (mem_view w s1 (sx_id m))"
proof -
  have tab: "table_ok (w_formats w) (st_memories s)" by (rule state_ok_parts [OF ok])
  have old: "old = mem_view w s (sx_id m)" using found find_memory_ok [OF tab] by simp
  show ?thesis
  proof (cases old)
    case None
    then show ?thesis using upd ok old by (simp add: gs_refl same_inbox_def retired_to_def)
  next
    case (Some o')
    obtain r b t where r: "parse_memory w (retired_memory w inp m now o') = Inr r"
      and t: "memory_update (w_scan w) r (st_memories s) = Inr (b, t)" and s1: "s1 = s\<lparr>st_memories := t\<rparr>"
      using upd Some by (auto simp: and_then_Inr)
    have "mem_view w s (sx_id m) = Some o'" using Some old by simp
    from view_wf [OF tab this] have "mem_id o' = sx_id m" by blast
    then have id: "mem_id r = sx_id m" and wf: "memory_wf (w_formats w) r"
      using parse_memory_wf [OF r] by (simp_all add: retired_memory_def)
    have t': "table_ok (w_formats w) t" "view (w_formats w) t = (mem_view w s)(sx_id m \<mapsto> r)"
      using update_stored [OF tab _ wf t] Some old id by auto
    have "gov_step w limits s s1" unfolding s1 by (rule gs_memories [OF t'(1)])
    moreover have "schema_memory (w_formats w) (retired_memory w inp m now o') = Some r"
      using r by (simp add: parse_memory_def split: option.splits)
    ultimately show ?thesis
      using Some old t' ok state_ok_memories by (simp add: s1 gs_one same_inbox_def retired_to_def)
  qed
qed

lemma retire_all_effect:
  "state_ok w s \<Longrightarrow> distinct (map sx_id ms) \<Longrightarrow> retire_all w inp now ms s = Inr s' \<Longrightarrow>
     gov_steps w limits s s' \<and> state_ok w s' \<and> same_inbox s s' \<and> st_links s' = st_links s
     \<and> (\<exists>rs. events_of w s' = events_of w s @ rs \<and> list_all2 (\<lambda>m x. receipt_of w (superseded_event w inp m now) x) ms rs)
     \<and> (\<forall>i. i \<notin> sx_id ` set ms \<longrightarrow> mem_view w s' i = mem_view w s i)
     \<and> (\<forall>m \<in> set ms. retired_to w inp m now (mem_view w s (sx_id m)) (mem_view w s' (sx_id m)))"
proof (induction ms arbitrary: s)
  case Nil
  then show ?case by (simp add: gs_refl same_inbox_def)
next
  case (Cons m ms)
  obtain old s1 s2 where found: "find_memory (w_formats w) (sx_id m) (st_memories s) = Inr old"
    and upd: "(case old of None \<Rightarrow> Inr s
        | Some o' \<Rightarrow> and_then (parse_memory w (retired_memory w inp m now o')) (\<lambda>r.
            and_then (memory_update (w_scan w) r (st_memories s)) (\<lambda>(_, t). Inr (s\<lparr>st_memories := t\<rparr>)))) = Inr s1"
    and wr: "write_event w (superseded_event w inp m now) s1 = Inr s2" and rest: "retire_all w inp now ms s2 = Inr s'"
    using Cons.prems(3) by (auto simp: and_then_Inr)
  note one = retire_first [OF Cons.prems(1) found upd]
  obtain x where x: "receipt_of w (superseded_event w inp m now) x" "state_ok w s2" "events_of w s2 = events_of w s1 @ [x]"
      "st_candidates s2 = st_candidates s1" "st_memories s2 = st_memories s1" "st_links s2 = st_links s1"
      "st_policies s2 = st_policies s1"
    using write_event_ok [OF _ wr superseded_event_receipt(2)] one by blast
  have step: "gov_step w limits s1 s2" by (rule gs_receipt [OF wr superseded_event_receipt])
  have two: "gov_steps w limits s2 s'" "state_ok w s'" "same_inbox s2 s'" "st_links s' = st_links s2"
      "\<exists>rs. events_of w s' = events_of w s2 @ rs \<and> list_all2 (\<lambda>m x. receipt_of w (superseded_event w inp m now) x) ms rs"
      "\<And>i. i \<notin> sx_id ` set ms \<Longrightarrow> mem_view w s' i = mem_view w s2 i"
      "\<And>k. k \<in> set ms \<Longrightarrow> retired_to w inp k now (mem_view w s2 (sx_id k)) (mem_view w s' (sx_id k))"
    using Cons.IH [OF x(2) _ rest] Cons.prems(2) by auto
  have "gov_steps w limits s s'" by (rule gs_append [OF two(1) gs_trans [OF conjunct1 [OF one] step]])
  moreover have "same_inbox s s'" using one two(3) x(4,7) by (simp add: same_inbox_def)
  moreover obtain rs where "events_of w s' = events_of w s @ x # rs"
      "list_all2 (\<lambda>m x. receipt_of w (superseded_event w inp m now) x) (m # ms) (x # rs)"
    using two(5) x(1,3) one by auto
  moreover have "retired_to w inp k now (mem_view w s (sx_id k)) (mem_view w s' (sx_id k))" if "k \<in> set (m # ms)" for k
  proof (cases "k \<in> set ms")
    case True
    then have "sx_id k \<in> sx_id ` set ms" by (rule imageI)
    then have "sx_id k \<noteq> sx_id m" using Cons.prems(2) by auto
    then show ?thesis using two(7) [OF True] one x(5) by simp
  next
    case False
    then have "k = m" using that by simp
    moreover have "sx_id m \<notin> sx_id ` set ms" using Cons.prems(2) by simp
    ultimately show ?thesis using two(6) [of "sx_id m"] one x(5) by simp
  qed
  moreover have "mem_view w s' i = mem_view w s i" if "i \<notin> sx_id ` set (m # ms)" for i
    using that two(6) [of i] one x(5) by simp
  ultimately show ?case using two(2,4) x(6) one by metis
qed

section \<open>Links\<close>

lemma link_superseded_effect:
  "link_superseded w inp now ms s = Inr s' \<Longrightarrow> gov_steps w limits s s' \<and> (\<exists>ls. s' = s\<lparr>st_links := ls\<rparr>)"
proof (induction ms arbitrary: s)
  case Nil
  then show ?case by (auto simp: gs_refl intro: exI [of _ "st_links s"])
next
  case (Cons m ms)
  then obtain ls where "link_superseded w inp now ms (s\<lparr>st_links := ls\<rparr>) = Inr s'" by (auto simp: and_then_Inr)
  from Cons.IH [OF this] show ?case using gs_append [OF _ gs_one [OF gs_links]] by fastforce
qed

lemma link_mentions_effect:
  "link_mentions w inp now wls s = Inr s' \<Longrightarrow> gov_steps w limits s s' \<and> (\<exists>ls. s' = s\<lparr>st_links := ls\<rparr>)"
proof (induction wls arbitrary: s)
  case Nil
  then show ?case by (auto simp: gs_refl intro: exI [of _ "st_links s"])
next
  case (Cons l wls)
  from Cons.prems have "\<exists>targets :: curated_memory list. (case find (\<lambda>m. js_lower (mem_title m) = js_lower (wl_slug l) \<and> mem_id m \<noteq> promoted_id w inp) targets of
         None \<Rightarrow> link_mentions w inp now wls s
       | Some m \<Rightarrow>
           (case link_insert (st_memories s) (edge w inp (mem_id m) Relates_to 1 now) (st_links s) of
              Inl _ \<Rightarrow> link_mentions w inp now wls s
            | Inr es \<Rightarrow> link_mentions w inp now wls (s\<lparr>st_links := es\<rparr>))) = Inr s'"
    unfolding link_mentions.simps and_then_Inr by (elim exE conjE) (rule exI)
  then obtain targets :: "curated_memory list" where run: "(case find (\<lambda>m. js_lower (mem_title m) = js_lower (wl_slug l) \<and> mem_id m \<noteq> promoted_id w inp) targets of
         None \<Rightarrow> link_mentions w inp now wls s
       | Some m \<Rightarrow>
           (case link_insert (st_memories s) (edge w inp (mem_id m) Relates_to 1 now) (st_links s) of
              Inl _ \<Rightarrow> link_mentions w inp now wls s
            | Inr es \<Rightarrow> link_mentions w inp now wls (s\<lparr>st_links := es\<rparr>))) = Inr s'" by (rule exE)
  have "link_mentions w inp now wls s = Inr s' \<or> (\<exists>ls. link_mentions w inp now wls (s\<lparr>st_links := ls\<rparr>) = Inr s')"
  proof (cases "find (\<lambda>m. js_lower (mem_title m) = js_lower (wl_slug l) \<and> mem_id m \<noteq> promoted_id w inp) targets")
    case (Some m)
    then show ?thesis
      using run by (cases "link_insert (st_memories s) (edge w inp (mem_id m) Relates_to 1 now) (st_links s)") auto
  qed (use run in simp)
  then consider "link_mentions w inp now wls s = Inr s'"
    | ls where "link_mentions w inp now wls (s\<lparr>st_links := ls\<rparr>) = Inr s'" by blast
  then show ?case
  proof cases
    case 2
    from Cons.IH [OF this] show ?thesis using gs_append [OF _ gs_one [OF gs_links]] by fastforce
  qed (rule Cons.IH)
qed

section \<open>The receipts\<close>

lemma promoted_event_receipt:
  "ev_action (promoted_event w inp now) \<noteq> A_held"
  "json_distinct (JObj (ev_details (promoted_event w inp now)))"
  by (auto simp: promoted_event_def Let_def sensitivity_constraint_json_def split: option.splits)

definition plain_objects :: "eval_callback option \<Rightarrow> bool" where
  "plain_objects eval \<longleftrightarrow>
     (\<forall>f m v vs. eval = Some f \<longrightarrow> f m v = Some vs \<longrightarrow> (\<forall>r \<in> set vs. json_distinct (JObj (er_details r))))"

lemma no_evals [simp]: "plain_objects None"
  by (simp add: plain_objects_def)

lemma spread_distinct:
  assumes base: "distinct (map fst base)" "\<forall>kv \<in> set base. json_distinct (snd kv)" and over: "json_distinct (JObj over)"
  shows "json_distinct (JObj (spread base over))"
proof -
  let ?base = "map (\<lambda>(k, v). (k, case map_of over k of None \<Rightarrow> v | Some v' \<Rightarrow> v')) base"
  let ?over = "filter (\<lambda>(k, v). k \<notin> set (map fst base)) over"
  have fst_base: "map fst ?base = map fst base" by (induction base) auto
  have "distinct (map fst ?over)" using over by (simp add: List.distinct_map_filter)
  moreover have "set (map fst ?base) \<inter> set (map fst ?over) = {}" unfolding fst_base by force
  ultimately have keys: "distinct (map fst (spread base over))"
    unfolding spread_def map_append distinct_append fst_base using base(1) by blast
  have "json_distinct (snd kv)" if "kv \<in> set (spread base over)" for kv
  proof -
    consider k v where "(k, v) \<in> set base" "kv = (k, case map_of over k of None \<Rightarrow> v | Some v' \<Rightarrow> v')" | "kv \<in> set over"
      using \<open>kv \<in> set (spread base over)\<close> by (auto simp: spread_def)
    then show ?thesis
    proof cases
      case 1
      then show ?thesis using base(2) over by (cases "map_of over k") (auto dest: map_of_SomeD)
    qed (use over in simp)
  qed
  with keys show ?thesis by simp
qed

lemma eval_event_receipt:
  "ev_action (eval_event w inp now v) \<noteq> A_held"
  "json_distinct (JObj (er_details v)) \<Longrightarrow> json_distinct (JObj (ev_details (eval_event w inp now v)))"
proof -
  show "ev_action (eval_event w inp now v) \<noteq> A_held" by (simp add: eval_event_def)
  assume d: "json_distinct (JObj (er_details v))"
  show "json_distinct (JObj (ev_details (eval_event w inp now v)))"
    unfolding eval_event_def audit_event.select_convs by (rule spread_distinct [OF _ _ d]) simp_all
qed

lemma emit_evals_effect:
  "state_ok w s \<Longrightarrow> \<forall>v \<in> set vs. json_distinct (JObj (er_details v)) \<Longrightarrow>
     gov_steps w limits s (emit_evals w inp now vs s) \<and> state_ok w (emit_evals w inp now vs s)
     \<and> same_inbox s (emit_evals w inp now vs s)
     \<and> st_memories (emit_evals w inp now vs s) = st_memories s \<and> st_links (emit_evals w inp now vs s) = st_links s
     \<and> (\<exists>rs. events_of w (emit_evals w inp now vs s) = events_of w s @ rs \<and> (\<forall>r \<in> set rs. ev_action r = A_eval_result))"
proof (induction vs arbitrary: s)
  case Nil
  then show ?case by (simp add: gs_refl same_inbox_def)
next
  case (Cons v vs)
  show ?case
  proof (cases "write_event w (eval_event w inp now v) s")
    case (Inl e)
    then show ?thesis using Cons.prems(1) by (simp add: gs_refl same_inbox_def)
  next
    case (Inr s1)
    have keys: "json_distinct (JObj (ev_details (eval_event w inp now v)))"
      using Cons.prems(2) by (intro eval_event_receipt) simp
    obtain x where x: "receipt_of w (eval_event w inp now v) x" "state_ok w s1" "events_of w s1 = events_of w s @ [x]"
        "st_candidates s1 = st_candidates s" "st_memories s1 = st_memories s" "st_links s1 = st_links s"
        "st_policies s1 = st_policies s"
      using write_event_ok [OF Cons.prems(1) Inr keys] by blast
    have "gov_step w limits s s1" by (rule gs_receipt [OF Inr eval_event_receipt(1) keys])
    moreover have "ev_action x = A_eval_result" using receipt_fields [OF x(1)] by (simp add: eval_event_def)
    ultimately show ?thesis
      using Cons.IH [OF x(2)] Cons.prems(2) x gs_append [OF _ gs_one] by (fastforce simp: Inr same_inbox_def)
  qed
qed

section \<open>The transaction\<close>

lemma first_of_each_distinct: "distinct (map sx_id acc) \<Longrightarrow> distinct (map sx_id (first_of_each_id acc ms))"
proof (induction acc ms rule: first_of_each_id.induct)
  case (2 acc m ms)
  have "distinct (map sx_id (if list_ex (\<lambda>x. sx_id x = sx_id m) acc then acc else acc @ [m]))"
    using 2(2) by (simp add: list_ex_iff image_iff) metis
  from 2(1) [OF this] show ?case by simp
qed simp

lemma promoted_supersessions_distinct: "distinct (map sx_id (promoted_supersessions inp))"
  unfolding promoted_supersessions_def by (rule first_of_each_distinct) simp

lemma transaction_effect:
  assumes ok: "state_ok w s" and m: "memory_wf (w_formats w) m" "mem_id m = promoted_id w inp" and ev: "plain_objects eval"
    and run: "promotion_transaction w inp m with_links eval now s = Inr s'"
  shows "gov_steps w limits s s' \<and> state_ok w s' \<and> same_inbox s s'
    \<and> mem_view w s (mem_id m) = None \<and> mem_view w s' (mem_id m) = Some m
    \<and> (\<forall>i. i \<noteq> mem_id m \<longrightarrow> i \<notin> sx_id ` set (promoted_supersessions inp) \<longrightarrow> mem_view w s' i = mem_view w s i)
    \<and> (\<forall>k \<in> set (promoted_supersessions inp). retired_to w inp k now (mem_view w s (sx_id k)) (mem_view w s' (sx_id k)) \<or> sx_id k = mem_id m)
    \<and> (\<exists>rs x es. events_of w s' = events_of w s @ rs @ x # es
        \<and> list_all2 (\<lambda>k y. receipt_of w (superseded_event w inp k now) y) (promoted_supersessions inp) rs
        \<and> receipt_of w (promoted_event w inp now) x \<and> (\<forall>e \<in> set es. ev_action e = A_eval_result))
    \<and> (\<not> with_links \<longrightarrow> st_links s' = st_links s)
    \<and> resolve_minimum_sensitivity w (pi_candidate inp) s = Inr (pi_minimum inp)"
proof -
  let ?ms = "promoted_supersessions inp"
  define s6 where "s6 s5 = (case eval of None \<Rightarrow> s5
      | Some f \<Rightarrow> (case f m (pi_verdict inp) of None \<Rightarrow> s5 | Some vs \<Rightarrow> emit_evals w inp now vs s5))" for s5
  obtain s1 t s3 s4 s5 where
    floor: "resolve_minimum_sensitivity w (pi_candidate inp) s = Inr (pi_minimum inp)"
    and r: "retire_all w inp now ?ms s = Inr s1" and t: "memory_insert (w_scan w) m (st_memories s1) = Inr t"
    and l1: "(if with_links then link_superseded w inp now ?ms (s1\<lparr>st_memories := t\<rparr>) else Inr (s1\<lparr>st_memories := t\<rparr>)) = Inr s3"
    and l2: "(if with_links then link_mentions w inp now
        (case extract_wiki_links (cand_content (pi_candidate inp)) of None \<Rightarrow> [] | Some ls \<Rightarrow> ls) s3 else Inr s3) = Inr s4"
    and wr: "write_event w (promoted_event w inp now) s4 = Inr s5" and s': "s' = s6 s5"
    using run unfolding promotion_transaction_def Let_def and_then_Inr s6_def
    by (auto simp: and_then_Inr split: if_split_asm)
  note ret = retire_all_effect [OF ok promoted_supersessions_distinct r, of limits]
  have ok1: "state_ok w s1" using ret by blast
  have tab1: "table_ok (w_formats w) (st_memories s1)" by (rule state_ok_parts [OF ok1])
  have new: "mem_view w s1 (mem_id m) = None" and t': "t = st_memories s1 @ [memory_to_row m]"
    using t insert_stored(1) [OF tab1 m(1), of "w_scan w"] by (simp_all split: if_splits)
  have ins: "table_ok (w_formats w) t" "view (w_formats w) t = (mem_view w s1)(mem_id m \<mapsto> m)"
    using insert_stored(2) [OF tab1 m(1) new] by (simp_all add: t')
  have g2: "gov_step w limits s1 (s1\<lparr>st_memories := t\<rparr>)" by (rule gs_memories [OF ins(1)])
  have l3: "gov_steps w limits (s1\<lparr>st_memories := t\<rparr>) s3 \<and> (\<exists>ls. s3 = s1\<lparr>st_memories := t, st_links := ls\<rparr>)
      \<and> (\<not> with_links \<longrightarrow> st_links s3 = st_links s1)"
  proof (cases with_links)
    case True
    then show ?thesis using l1 link_superseded_effect [of w inp now ?ms "s1\<lparr>st_memories := t\<rparr>" s3 limits] by auto
  next
    case False
    then show ?thesis using l1 by (auto simp: gs_refl intro: exI [of _ "st_links s1"])
  qed
  have l4: "gov_steps w limits s3 s4 \<and> (\<exists>ls. s4 = s3\<lparr>st_links := ls\<rparr>) \<and> (\<not> with_links \<longrightarrow> st_links s4 = st_links s3)"
  proof (cases with_links)
    case True
    then show ?thesis using l2 link_mentions_effect by auto
  next
    case False
    then show ?thesis using l2 by (auto simp: gs_refl intro: exI [of _ "st_links s3"])
  qed
  obtain la ls where "s3 = s1\<lparr>st_memories := t, st_links := la\<rparr>" "s4 = s3\<lparr>st_links := ls\<rparr>" using l3 l4 by blast
  then have s4: "s4 = s1\<lparr>st_memories := t, st_links := ls\<rparr>" by simp
  have ok4: "state_ok w s4" using state_ok_memories [OF ok1 ins(1)] by (simp add: s4)
  obtain x where x: "receipt_of w (promoted_event w inp now) x" "state_ok w s5" "events_of w s5 = events_of w s4 @ [x]"
      "st_candidates s5 = st_candidates s4" "st_memories s5 = st_memories s4" "st_links s5 = st_links s4"
      "st_policies s5 = st_policies s4"
    using write_event_ok [OF ok4 wr promoted_event_receipt(2)] by blast
  have g5: "gov_step w limits s4 s5" by (rule gs_receipt [OF wr promoted_event_receipt])
  have e6: "gov_steps w limits s5 s' \<and> state_ok w s' \<and> same_inbox s5 s' \<and> st_memories s' = st_memories s5 \<and> st_links s' = st_links s5
     \<and> (\<exists>es. events_of w s' = events_of w s5 @ es \<and> (\<forall>r \<in> set es. ev_action r = A_eval_result))"
  proof (cases "s' = s5")
    case True
    then show ?thesis using x(2) by (simp add: gs_refl same_inbox_def)
  next
    case False
    then obtain f vs where "eval = Some f" "f m (pi_verdict inp) = Some vs" "s' = emit_evals w inp now vs s5"
      unfolding s' s6_def by (auto split: option.splits)
    then show ?thesis using emit_evals_effect [OF x(2)] ev by (fastforce simp: plain_objects_def)
  qed
  have steps: "gov_steps w limits s s'"
    using gs_append [OF conjunct1 [OF e6] gs_trans [OF gs_append [OF conjunct1 [OF l4]
        gs_append [OF conjunct1 [OF l3] gs_trans [OF conjunct1 [OF ret] g2]]] g5]] .
  have view': "mem_view w s' = (mem_view w s1)(mem_id m \<mapsto> m)" using e6 x(5) ins(2) by (simp add: s4)
  have before: "mem_view w s (mem_id m) = None"
  proof (cases "mem_id m \<in> sx_id ` set ?ms")
    case True
    then show ?thesis using ret new by (fastforce simp: retired_to_def split: option.splits)
  next
    case False
    then show ?thesis using ret new by metis
  qed
  obtain rs es where "events_of w s1 = events_of w s @ rs"
      "list_all2 (\<lambda>k y. receipt_of w (superseded_event w inp k now) y) ?ms rs"
      "events_of w s' = events_of w s5 @ es" "\<forall>r \<in> set es. ev_action r = A_eval_result"
    using ret e6 by blast
  then have hist: "\<exists>rs x es. events_of w s' = events_of w s @ rs @ x # es
        \<and> list_all2 (\<lambda>k y. receipt_of w (superseded_event w inp k now) y) ?ms rs
        \<and> receipt_of w (promoted_event w inp now) x \<and> (\<forall>e \<in> set es. ev_action e = A_eval_result)"
    using x(1,3) by (intro exI [of _ rs] exI [of _ x] exI [of _ es]) (simp add: s4)
  have inbox: "same_inbox s s'" using ret e6 x(4,7) by (simp add: same_inbox_def s4)
  have links: "\<not> with_links \<longrightarrow> st_links s' = st_links s" using ret l3 l4 e6 x(6) by simp
  have retired: "retired_to w inp k now (mem_view w s (sx_id k)) (mem_view w s' (sx_id k)) \<or> sx_id k = mem_id m"
    if "k \<in> set ?ms" for k
    using ret that unfolding view' by auto
  have rest: "mem_view w s' i = mem_view w s i" if "i \<noteq> mem_id m" "i \<notin> sx_id ` set ?ms" for i
    using ret that unfolding view' by simp
  show ?thesis using steps e6 inbox before view' rest retired hist links floor by simp
qed

section \<open>Promotion\<close>

lemma promote_Inr:
  assumes "promote w inp dry with_links eval now s = Inr (m, s')"
  shows "parse_memory w (promoted_memory w inp now) = Inr m"
    "resolve_minimum_sensitivity w (pi_candidate inp) s = Inr (pi_minimum inp)"
    "dry \<Longrightarrow> s' = s" "\<not> dry \<Longrightarrow> promotion_transaction w inp m with_links eval now s = Inr s'"
  using assms by (auto simp: promote_def and_then_Inr split: if_splits)

lemma promoted_fields:
  assumes "parse_memory w (promoted_memory w inp now) = Inr m"
  shows "memory_wf (w_formats w) m" "mem_id m = promoted_id w inp" "mem_lifecycle m = Active"
    "mem_sensitivity m = promoted_sensitivity w inp" "mem_candidate_id m = cand_id (pi_candidate inp)"
    "mem_metadata m = cand_metadata (pi_candidate inp)" "mem_content_hash m = pi_content_hash inp"
    "mem_supersession m = None" "non_empty_string (cand_tenant (pi_candidate inp)) = Some (mem_tenant m)"
    "non_empty_string (cand_content (pi_candidate inp)) = Some (mem_content m)"
proof -
  have p: "schema_memory (w_formats w) (promoted_memory w inp now) = Some m"
    using assms by (simp add: parse_memory_def split: option.splits)
  show "memory_wf (w_formats w) m" by (rule schema_memory_wf [OF p])
  show "mem_id m = promoted_id w inp" "mem_lifecycle m = Active"
    "mem_sensitivity m = promoted_sensitivity w inp" "mem_candidate_id m = cand_id (pi_candidate inp)"
    "mem_metadata m = cand_metadata (pi_candidate inp)" "mem_content_hash m = pi_content_hash inp"
    "mem_supersession m = None" "non_empty_string (cand_tenant (pi_candidate inp)) = Some (mem_tenant m)"
    "non_empty_string (cand_content (pi_candidate inp)) = Some (mem_content m)"
    using p by (auto simp: schema_memory_def promoted_memory_def Let_def schema_optional_def
        split: Option.bind_splits if_splits)
qed

lemma promote_steps:
  assumes "state_ok w s" "plain_objects eval" "promote w inp dry with_links eval now s = Inr (m, s')"
  shows "gov_steps w limits s s' \<and> same_inbox s s'"
proof (cases dry)
  case True
  then show ?thesis using promote_Inr(3) [OF assms(3)] by (simp add: gs_refl same_inbox_def)
next
  case False
  note p = promoted_fields [OF promote_Inr(1) [OF assms(3)]]
  show ?thesis using transaction_effect [OF assms(1) p(1,2) assms(2) promote_Inr(4) [OF assms(3) False]] by blast
qed

lemma retired_fields:
  assumes "retired_to w inp k now (Some old) after"
  shows "\<exists>r link. after = Some r \<and> mem_lifecycle r = Superseded \<and> mem_supersession r = Some link
    \<and> superseded_by link = promoted_id w inp"
proof -
  obtain r where r: "schema_memory (w_formats w) (retired_memory w inp k now old) = Some r" "after = Some r"
    using assms by (auto simp: retired_to_def)
  then have "mem_lifecycle r = Superseded" using schema_memory_parts(7) [OF r(1)] by (simp add: retired_memory_def)
  moreover have "\<exists>link. mem_supersession r = Some link \<and> superseded_by link = promoted_id w inp"
    using r(1) by (cases "non_empty_string (retirement_reason k)")
      (auto simp: schema_memory_def retired_memory_def schema_optional_def schema_supersession_def
        split: Option.bind_splits if_splits)
  ultimately show ?thesis using r(2) by blast
qed

text \<open>
  C3. A promotion is complete and receipted, or it did not happen. When \<open>promote\<close> returns on a well-formed
  database, the new memory is stored under the id derived from the candidate and its content hash,
  which was free before, as active and at least as sensitive as the classifier and the floor demand;
  every superseded memory that existed is retired with a link to it; no other memory and no
  candidate changed; and the log grew by exactly one \<open>superseded\<close> receipt per retired match, in
  order, the \<open>promoted\<close> receipt, and evaluation receipts after it. A throw leaves no state at all.
\<close>

theorem promotion_is_complete_and_receipted:
  assumes "state_ok w s" "plain_objects eval" "promote w inp False with_links eval now s = Inr (m, s')"
  shows "mem_id m = promoted_id w inp \<and> mem_view w s (mem_id m) = None \<and> mem_view w s' (mem_id m) = Some m
    \<and> mem_lifecycle m = Active
    \<and> effective_sensitivity (cc_level (classify_content (w_env w) (cand_content (pi_candidate inp)))) (pi_minimum inp)
        = mem_sensitivity m
    \<and> (\<forall>k \<in> set (promoted_supersessions inp). mem_view w s (sx_id k) = None \<or>
         (\<exists>r link. mem_view w s' (sx_id k) = Some r \<and> mem_lifecycle r = Superseded
            \<and> mem_supersession r = Some link \<and> superseded_by link = mem_id m))
    \<and> (\<forall>i. i \<noteq> mem_id m \<longrightarrow> i \<notin> sx_id ` set (promoted_supersessions inp) \<longrightarrow> mem_view w s' i = mem_view w s i)
    \<and> st_candidates s' = st_candidates s \<and> state_ok w s'
    \<and> (\<exists>rs x es. events_of w s' = events_of w s @ rs @ x # es
        \<and> map ev_memory_id rs = map sx_id (promoted_supersessions inp) \<and> (\<forall>r \<in> set rs. ev_action r = A_superseded)
        \<and> ev_action x = A_promoted \<and> ev_memory_id x = mem_id m \<and> ev_tenant_id x = mem_tenant m
        \<and> (\<forall>e \<in> set es. ev_action e = A_eval_result))"
proof -
  note p = promoted_fields [OF promote_Inr(1) [OF assms(3)]]
  note t = transaction_effect [OF assms(1) p(1,2) assms(2) promote_Inr(4) [OF assms(3)], of None]
  have t': "mem_view w s (mem_id m) = None" "mem_view w s' (mem_id m) = Some m"
      "\<And>k. k \<in> set (promoted_supersessions inp) \<Longrightarrow>
        retired_to w inp k now (mem_view w s (sx_id k)) (mem_view w s' (sx_id k)) \<or> sx_id k = mem_id m"
    using t by auto
  have retired: "mem_view w s (sx_id k) = None \<or> (\<exists>r link. mem_view w s' (sx_id k) = Some r \<and> mem_lifecycle r = Superseded
      \<and> mem_supersession r = Some link \<and> superseded_by link = mem_id m)" if "k \<in> set (promoted_supersessions inp)" for k
    using t'(3) [OF that] t'(1) retired_fields [of w inp k now _ "mem_view w s' (sx_id k)"] p(2)
    by (cases "mem_view w s (sx_id k)") auto
  obtain rs x es where h: "events_of w s' = events_of w s @ rs @ x # es"
      "list_all2 (\<lambda>k y. receipt_of w (superseded_event w inp k now) y) (promoted_supersessions inp) rs"
      "receipt_of w (promoted_event w inp now) x" "\<forall>e \<in> set es. ev_action e = A_eval_result"
    using t by auto
  have ids: "map ev_memory_id rs = map sx_id (promoted_supersessions inp) \<and> (\<forall>r \<in> set rs. ev_action r = A_superseded)"
    using h(2) by (induction rule: list_all2_induct) (auto simp: superseded_event_def dest: receipt_fields)
  have "ev_action x = A_promoted \<and> ev_memory_id x = mem_id m \<and> ev_tenant_id x = mem_tenant m"
    using receipt_fields [OF h(3)] p(2,9) by (simp add: promoted_event_def Let_def)
  with h ids have hist: "\<exists>rs x es. events_of w s' = events_of w s @ rs @ x # es
        \<and> map ev_memory_id rs = map sx_id (promoted_supersessions inp) \<and> (\<forall>r \<in> set rs. ev_action r = A_superseded)
        \<and> ev_action x = A_promoted \<and> ev_memory_id x = mem_id m \<and> ev_tenant_id x = mem_tenant m
        \<and> (\<forall>e \<in> set es. ev_action e = A_eval_result)" by blast
  show ?thesis using t t'(1,2) p(2,3,4) retired hist by (simp add: same_inbox_def promoted_sensitivity_def)
qed

definition empty_state :: store_state where
  "empty_state = \<lparr>st_candidates = [], st_memories = [], st_audits = [], st_links = [], st_policies = []\<rparr>"

text \<open>A text that is its own hash in \<open>plain_world\<close>.\<close>

definition plain_text :: string where
  "plain_text = replicate 64 CHR ''a''"

lemma plain_text_ok: "non_empty_string plain_text = Some plain_text" "sha256_shape plain_text"
  "non_empty_string ''A title'' = Some ''A title''" "non_empty_string ''team'' = Some ''team''"
  by code_simp+

definition plain_input :: promotion_input where
  "plain_input = \<lparr>pi_candidate = plain_candidate ''c1'' plain_text, pi_content_hash = plain_text,
     pi_minimum = None,
     pi_verdict = \<lparr>gv_candidate = ''c1'', gv_outcome = Approved, gv_evaluations = [], gv_rejected_by = None, gv_flagged_by = None\<rparr>,
     pi_supersession = None, pi_supersessions = [], pi_promoted_by = None, pi_reason = None, pi_resolved_flags = None\<rparr>"

lemma empty_state_ok: "state_ok w empty_state"
  by (simp add: state_ok_def empty_state_def empty_table_ok empty_audits_ok candidates_ok_def)

lemma plain_input_simps [simp]:
  "pi_candidate plain_input = plain_candidate ''c1'' plain_text" "pi_content_hash plain_input = plain_text"
  "pi_minimum plain_input = None" "gv_evaluations (pi_verdict plain_input) = []" "pi_promoted_by plain_input = None"
  "resolved_flags plain_input = []" "promoted_supersessions plain_input = []"
  by (simp_all add: plain_input_def resolved_flags_def promoted_supersessions_def)

lemma plain_receipt_reason [simp]: "promotion_receipt_reason plain_input = ''Passed all governance rules''"
  by code_simp

lemma plain_promotion: "\<exists>m s'. promote plain_world plain_input False False None ''t1'' empty_state = Inr (m, s')"
proof -
  have floor: "resolve_minimum_sensitivity plain_world (plain_candidate ''c1'' plain_text) empty_state = Inr None"
    using memory_events_ok [of plain_world empty_state] empty_audits_ok
    by (simp add: resolve_minimum_sensitivity_def empty_state_def history_def)
  have "schema_author curator_actor = Some curator_actor"
    by (simp add: schema_author_def curator_actor_def non_empty_string_def js_trim_def js_space_def Let_def)
  then have "\<exists>m. parse_memory plain_world (promoted_memory plain_world plain_input ''t1'') = Inr m"
    using plain_author_schema plain_metadata_check plain_text_ok
    by (simp add: parse_memory_def schema_memory_def promoted_memory_def plain_candidate_def
        promoted_evaluations_def promoter_of_def memory_refinement_def schema_optional_def Let_def)
  then obtain m where m: "parse_memory plain_world (promoted_memory plain_world plain_input ''t1'') = Inr m" by blast
  have ins: "memory_insert (w_scan plain_world) m [] = Inr [memory_to_row m]"
    using promoted_fields(1) [OF m] by (simp add: memory_insert_def membership_ok)
  have "\<exists>x. schema_event any_format (promoted_event plain_world plain_input ''t1'') = Some x"
    using \<open>schema_author curator_actor = Some curator_actor\<close>
    by (simp add: schema_event_def promoted_event_def plain_candidate_def promoter_of_def schema_optional_def
        non_empty_string_def js_trim_def js_space_def Let_def)
  then have wr: "\<exists>s'. write_event plain_world (promoted_event plain_world plain_input ''t1'') (empty_state\<lparr>st_memories := [memory_to_row m]\<rparr>) = Inr s'"
    by (auto simp: write_event_def parse_event_def insert_event_def audit_insert_def empty_state_def)
  then show ?thesis
    using floor m ins
    by (auto simp: promote_def promotion_transaction_def empty_state_def and_then_Inr)
qed

theorem promotion_is_complete_and_receipted_witness:
  "\<exists>m s'. promote plain_world plain_input False False None ''t1'' empty_state = Inr (m, s')
     \<and> mem_view plain_world s' (promoted_id plain_world plain_input) = Some m \<and> state_ok plain_world s'"
proof -
  obtain m s' where run: "promote plain_world plain_input False False None ''t1'' empty_state = Inr (m, s')"
    using plain_promotion by blast
  show ?thesis
    using promotion_is_complete_and_receipted [OF empty_state_ok no_evals run] run by metis
qed

end
