(* ===== verification/Curator.thy ===== *)
theory Curator
  imports Promoter_Laws Hold_Triggers
begin

text \<open>
  The curator of \<open>curator/src/curator.ts\<close>: one candidate through every gate in the order of
  \<open>processSingle\<close>, the hold, the rejection or the promotion it ends in, and a batch of candidates.
  The fields the instance mutates are a record of their own, the clock and the random identifiers
  of a call are the record \<open>tick\<close>.
\<close>

section \<open>Configuration and results\<close>

record hold_release =
  hl_promoted_by :: author
  hl_reason :: string

record curator_config =
  cf_tenant :: tenant_id
  cf_dry_run :: bool
  cf_threshold :: "rat option"
  cf_report_only :: bool
  cf_max_per_promotion :: "nat option"
  cf_max_per_run :: "nat option"
  cf_suppress_rejections :: bool
  cf_origin_secret :: "string option"
  cf_exclusions :: "brainignore_pattern list option"
  cf_hold_limits :: "hold_limits option"
  cf_with_links :: bool

text \<open>\<open>holdCapReached\<close>, \<open>subjectSupersessionsApplied\<close>, \<open>warnedDormantPolicies\<close> and the warnings given.\<close>

record curator_state =
  cu_cap :: "(nat \<times> rat) option"
  cu_applied :: nat
  cu_warned :: "uuid list"
  cu_warnings :: "policy_rule_type list list"

record tick =
  tk_fresh :: uuid
  tk_wall :: iso_datetime
  tk_injected :: "iso_datetime option"

datatype curation_outcome = C_promoted | C_rejected | C_flagged | C_duplicate | C_held

datatype supersession_report =
    Report_only "supersession_match list"
  | Blocked_by_cap nat nat
  | Blocked_by_budget nat nat

datatype hold_report_status = HS_held | HS_already_held | HS_would_hold | HS_cap_reached | HS_not_holdable

record hold_report =
  hp_status :: hold_report_status
  hp_triggers :: "hold_trigger list"
  hp_recommended :: string
  hp_expires_at :: "string option"

text \<open>What the reason text of a result says.\<close>

datatype curation_reason =
    Duplicate_of uuid
  | Redacted_by string
  | Intra_batch_duplicate
  | Turned_away string
  | Review_required
  | Hold_queue_full "hold_trigger list" nat rat
  | Hold_impossible "hold_trigger list" not_holdable_reason
  | Held_until string "hold_trigger list"
  | Promoted_over "uuid list"
  | Promoted_though_blocked supersession_report
  | Promoted_plainly

record curation_result =
  cr_candidate :: uuid
  cr_outcome :: curation_outcome
  cr_memory :: "uuid option"
  cr_superseded :: "uuid list"
  cr_report :: "supersession_report option"
  cr_verdict :: "gate_verdict option"
  cr_hold :: "hold_report option"
  cr_reason :: curation_reason

definition plain_result :: "memory_candidate \<Rightarrow> curation_outcome \<Rightarrow> gate_verdict option \<Rightarrow> curation_reason \<Rightarrow> curation_result" where
  "plain_result c out v why =
     \<lparr>cr_candidate = cand_id c, cr_outcome = out, cr_memory = None, cr_superseded = [], cr_report = None,
      cr_verdict = v, cr_hold = None, cr_reason = why\<rparr>"

definition default_max_supersedes_per_run :: nat where
  "default_max_supersedes_per_run = 200"

section \<open>Policy\<close>

definition policy_of :: "curator_config \<Rightarrow> store_state \<Rightarrow> governance_policy option" where
  "policy_of cf s = find policy_enabled (filter (\<lambda>p. policy_tenant p = cf_tenant cf) (st_policies s))"

definition warn_dormant :: "governance_policy \<Rightarrow> curator_state \<Rightarrow> curator_state" where
  "warn_dormant p cu =
     (let dormant = find_uncovered_rule_types p
      in if dormant \<noteq> [] \<and> policy_id p \<notin> set (cu_warned cu)
         then cu\<lparr>cu_warned := cu_warned cu @ [policy_id p], cu_warnings := cu_warnings cu @ [dormant]\<rparr>
         else cu)"

text \<open>
  The evaluation context. The lookup of active memories runs, and may throw, exactly when an enabled
  contradiction rule asks for the category of the candidate; those rules run before any other.
\<close>

definition active_lookup :: "world \<Rightarrow> curator_config \<Rightarrow> memory_candidate \<Rightarrow> governance_policy \<Rightarrow> store_state \<Rightarrow> fault + active_memory list" where
  "active_lookup w cf c p s =
     (if contradiction_rules p = [] then Inr []
      else and_then (find_by_tenant_and_lifecycle_and_category (w_formats w) (cf_tenant cf) Active (cand_category c) (st_memories s))
             (\<lambda>ms. Inr (map (\<lambda>m. \<lparr>am_id = mem_id m, am_content = mem_content m\<rparr>) ms)))"

definition evaluate_policy ::
  "world \<Rightarrow> curator_config \<Rightarrow> memory_candidate \<Rightarrow> governance_policy \<Rightarrow> string list option \<Rightarrow> sensitivity option \<Rightarrow> store_state \<Rightarrow>
    fault + pipeline_result" where
  "evaluate_policy w cf c p hashes minimum s =
     and_then (active_lookup w cf c p s) (\<lambda>actives.
       Inr (evaluate (w_env w) p c
         \<lparr>ctx_minimum_sensitivity = minimum,
          ctx_existing_hashes = Some (case hashes of
             Some hs \<Rightarrow> hs | None \<Rightarrow> get_content_hashes_by_tenant (cf_tenant cf) (st_memories s)),
          ctx_tenant_id = Some (cf_tenant cf), ctx_active_memories = Some (\<lambda>_. actives)\<rparr>))"

definition no_policy_result :: "memory_candidate \<Rightarrow> pipeline_result" where
  "no_policy_result c =
     \<lparr>pr_candidate_id = cand_id c, pr_outcome = Approved, pr_evaluations = [], pr_rejected_by = None, pr_flagged_by = None\<rparr>"

section \<open>Holding\<close>

type_synonym curation = "fault + curation_result \<times> curator_state \<times> store_state"

definition hold_now :: "tick \<Rightarrow> iso_datetime" where
  "hold_now tk = (case tk_injected tk of None \<Rightarrow> tk_wall tk | Some n \<Rightarrow> n)"

definition hold_outcome ::
  "world \<Rightarrow> memory_candidate \<Rightarrow> hold_decision \<Rightarrow> pipeline_result \<Rightarrow> bool \<Rightarrow> tick \<Rightarrow> place_result \<Rightarrow> curator_state \<Rightarrow> store_state \<Rightarrow> curation" where
  "hold_outcome w c d res suppress tk placed cu s =
     (let report = (\<lambda>st ex. \<lparr>hp_status = st, hp_triggers = hd_triggers d, hp_recommended = hd_recommended d, hp_expires_at = ex\<rparr>);
          v = gate_verdict_of res;
          held = (\<lambda>st ex. Inr ((plain_result c C_held (Some v) (Held_until ex (hd_triggers d)))\<lparr>cr_hold := Some (report st (Some ex))\<rparr>, cu, s));
          flagged = (\<lambda>st why cu'.
            and_then (if pr_outcome res = Flagged_outcome then reject w c v suppress (tk_fresh tk) (tk_wall tk) s else Inr ([], s))
              (\<lambda>(_, s'). Inr ((plain_result c C_flagged (Some v) why)\<lparr>cr_hold := Some (report st None)\<rparr>, cu', s')))
      in case placed of
           Held h \<Rightarrow> held HS_held (ah_expires_at h)
         | Already_held h \<Rightarrow> held HS_already_held (ah_expires_at h)
         | Would_hold ex \<Rightarrow> held HS_would_hold ex
         | Cap_reached n mx \<Rightarrow> flagged HS_cap_reached (Hold_queue_full (hd_triggers d) n mx) (cu\<lparr>cu_cap := Some (n, mx)\<rparr>)
         | Not_holdable r \<Rightarrow> flagged HS_not_holdable (Hold_impossible (hd_triggers d) r) cu)"

definition hold_one ::
  "world \<Rightarrow> curator_config \<Rightarrow> memory_candidate \<Rightarrow> hold_decision \<Rightarrow> pipeline_result \<Rightarrow> bool \<Rightarrow> tick \<Rightarrow> curator_state \<Rightarrow> store_state \<Rightarrow> curation" where
  "hold_one w cf c d res suppress tk cu s =
     (case cu_cap cu of
        Some (n, mx) \<Rightarrow> hold_outcome w c d res suppress tk (Cap_reached n mx) cu s
      | None \<Rightarrow>
          and_then (place_hold w c d (cf_hold_limits cf) (cf_dry_run cf) None (hold_now tk) s) (\<lambda>(placed, s').
            hold_outcome w c d res suppress tk placed cu s'))"

section \<open>Promoting\<close>

definition by_subject_count :: "supersession_match list \<Rightarrow> nat" where
  "by_subject_count ms = length (filter (\<lambda>m. sx_basis m = By_subject) ms)"

text \<open>The supersessions that are applied, and the report when a guard or the mode withholds them.\<close>

definition withheld :: "curator_config \<Rightarrow> curator_state \<Rightarrow> supersession_plan \<Rightarrow> supersession_match list \<times> supersession_report option" where
  "withheld cf cu plan =
     (let ms = sp_matches plan; n = by_subject_count ms;
          budget = (case cf_max_per_run cf of None \<Rightarrow> default_max_supersedes_per_run | Some b \<Rightarrow> b)
      in case sp_blocked plan of
           Some b \<Rightarrow> ([], Some (Blocked_by_cap (bl_cap b) (bl_would_supersede b)))
         | None \<Rightarrow>
             if cf_report_only cf then ([], if ms \<noteq> [] then Some (Report_only ms) else None)
             else if 0 < n \<and> budget < cu_applied cu + n then ([], Some (Blocked_by_budget budget n))
             else (ms, None))"

text \<open>What is handed to \<open>promote\<close>, and the result a promotion is reported as.\<close>

definition promotion_of ::
  "memory_candidate \<Rightarrow> string \<Rightarrow> pipeline_result \<Rightarrow> hold_release option \<Rightarrow> string list option \<Rightarrow> sensitivity option \<Rightarrow>
    supersession_match list \<Rightarrow> promotion_input" where
  "promotion_of c h res rel released minimum chosen =
     \<lparr>pi_candidate = c, pi_content_hash = h, pi_minimum = minimum, pi_verdict = gate_verdict_of res,
      pi_supersession = None, pi_supersessions = chosen, pi_promoted_by = map_option hl_promoted_by rel,
      pi_reason = map_option hl_reason rel, pi_resolved_flags = released\<rparr>"

definition promoted_reason :: "supersession_match list \<Rightarrow> supersession_report option \<Rightarrow> curation_reason" where
  "promoted_reason chosen report =
     (if chosen \<noteq> [] then Promoted_over (map sx_id chosen)
      else (case report of
              Some (Blocked_by_cap a b) \<Rightarrow> Promoted_though_blocked (Blocked_by_cap a b)
            | Some (Blocked_by_budget a b) \<Rightarrow> Promoted_though_blocked (Blocked_by_budget a b)
            | _ \<Rightarrow> Promoted_plainly))"

definition promoted_result ::
  "memory_candidate \<Rightarrow> pipeline_result \<Rightarrow> supersession_match list \<Rightarrow> supersession_report option \<Rightarrow> curated_memory \<Rightarrow> curation_result" where
  "promoted_result c res chosen report m =
     \<lparr>cr_candidate = cand_id c, cr_outcome = C_promoted, cr_memory = Some (mem_id m),
      cr_superseded = map sx_id chosen, cr_report = report, cr_verdict = Some (gate_verdict_of res), cr_hold = None,
      cr_reason = promoted_reason chosen report\<rparr>"

definition promote_planned ::
  "world \<Rightarrow> curator_config \<Rightarrow> memory_candidate \<Rightarrow> string \<Rightarrow> pipeline_result \<Rightarrow> hold_release option \<Rightarrow> string list option \<Rightarrow>
    sensitivity option \<Rightarrow> tick \<Rightarrow> curator_state \<Rightarrow> supersession_match list \<times> supersession_report option \<Rightarrow> store_state \<Rightarrow> curation" where
  "promote_planned w cf c h res rel released minimum tk cu plan s =
     (let chosen = fst plan
      in and_then (promote w (promotion_of c h res rel released minimum chosen) (cf_dry_run cf) (cf_with_links cf) None (tk_wall tk) s)
           (\<lambda>(m, s').
             Inr (promoted_result c res chosen (snd plan) m,
                  if cf_dry_run cf then cu else cu\<lparr>cu_applied := cu_applied cu + by_subject_count chosen\<rparr>, s')))"

definition promote_one ::
  "world \<Rightarrow> curator_config \<Rightarrow> memory_candidate \<Rightarrow> string \<Rightarrow> pipeline_result \<Rightarrow> hold_release option \<Rightarrow> string list option \<Rightarrow>
    sensitivity option \<Rightarrow> tick \<Rightarrow> curator_state \<Rightarrow> store_state \<Rightarrow> curation" where
  "promote_one w cf c h res rel released minimum tk cu s =
     and_then (find_by_tenant_and_lifecycle (w_formats w) (cand_tenant c) Active (st_memories s)) (\<lambda>actives.
       promote_planned w cf c h res rel released minimum tk cu
         (withheld cf cu (plan_supersession c (\<lambda>_ _. actives) (cf_threshold cf) (cf_max_per_promotion cf))) s)"

section \<open>One candidate\<close>

definition turn_away ::
  "world \<Rightarrow> memory_candidate \<Rightarrow> curation_outcome \<Rightarrow> gate_verdict \<Rightarrow> bool \<Rightarrow> tick \<Rightarrow> curator_state \<Rightarrow> store_state \<Rightarrow> curation" where
  "turn_away w c out v suppress tk cu s =
     and_then (reject w c v suppress (tk_fresh tk) (tk_wall tk) s) (\<lambda>(why, s').
       Inr (plain_result c out (Some v) (Turned_away why), cu, s'))"

definition review_verdict :: "memory_candidate \<Rightarrow> gate_verdict" where
  "review_verdict c =
     \<lparr>gv_candidate = cand_id c, gv_outcome = Flagged_outcome, gv_evaluations = [], gv_rejected_by = None,
      gv_flagged_by = Some [''registrar_mcp_review_required'']\<rparr>"

text \<open>The flags a release resolves: all of them, when the hold covered every one.\<close>

definition released_flags :: "hold_release option \<Rightarrow> pipeline_result \<Rightarrow> string list option" where
  "released_flags rel res =
     (if rel \<noteq> None \<and> unresolved_flags_after_release res = [] then Some (flags_of res) else None)"

text \<open>The end of \<open>processSingle\<close>, from the result of the policy pipeline on.\<close>

definition decide ::
  "world \<Rightarrow> curator_config \<Rightarrow> memory_candidate \<Rightarrow> string \<Rightarrow> hold_release option \<Rightarrow> sensitivity option \<Rightarrow> bool \<Rightarrow> governance_policy option \<Rightarrow>
    pipeline_result \<Rightarrow> tick \<Rightarrow> curator_state \<Rightarrow> store_state \<Rightarrow> curation" where
  "decide w cf c h rel minimum suppress policy res tk cu s =
     (if pr_outcome res = Rejected_outcome then turn_away w c C_rejected (gate_verdict_of res) suppress tk cu s
      else
        (case (if rel = None then evaluate_hold_triggers (w_env w) c res policy else None) of
           Some d \<Rightarrow> hold_one w cf c d res suppress tk cu s
         | None \<Rightarrow>
             if pr_outcome res = Flagged_outcome \<and> released_flags rel res = None
             then turn_away w c C_flagged (gate_verdict_of res) suppress tk cu s
             else promote_one w cf c h res rel (released_flags rel res) minimum tk cu s))"

text \<open>The structural gates, in order, and the policy.\<close>

definition gate_and_decide ::
  "world \<Rightarrow> curator_config \<Rightarrow> memory_candidate \<Rightarrow> string \<Rightarrow> string list option \<Rightarrow> hold_release option \<Rightarrow> sensitivity option \<Rightarrow> tick \<Rightarrow>
    curator_state \<Rightarrow> store_state \<Rightarrow> curation" where
  "gate_and_decide w cf c h hashes rel minimum tk cu s =
     (let suppress = (cf_dry_run cf \<or> cf_suppress_rejections cf \<or> rel \<noteq> None)
      in case check_origin_attestation w c (cf_origin_secret cf) of
           Origin_rejected v \<Rightarrow> turn_away w c C_rejected v suppress tk cu s
         | _ \<Rightarrow>
             (case check_import_exclusion c (cf_exclusions cf) of
                Import_rejected v \<Rightarrow> turn_away w c C_rejected v suppress tk cu s
              | _ \<Rightarrow>
                  if requires_registrar_mcp_review c
                     \<and> (case rel of None \<Rightarrow> True | Some r \<Rightarrow> author_kind (hl_promoted_by r) \<noteq> Human)
                  then Inr (plain_result c C_flagged (Some (review_verdict c)) Review_required, cu, s)
                  else
                    (case policy_of cf s of
                       None \<Rightarrow> decide w cf c h rel minimum suppress None (no_policy_result c) tk cu s
                     | Some p \<Rightarrow>
                         and_then (evaluate_policy w cf c p hashes minimum s) (\<lambda>res.
                           decide w cf c h rel minimum suppress (Some p) res tk (warn_dormant p cu) s))))"

definition process_single ::
  "world \<Rightarrow> curator_config \<Rightarrow> memory_candidate \<Rightarrow> string list option \<Rightarrow> hold_release option \<Rightarrow> tick \<Rightarrow> curator_state \<Rightarrow> store_state \<Rightarrow> curation" where
  "process_single w cf c hashes rel tk cu s =
     and_then (resolve_minimum_sensitivity w c s) (\<lambda>minimum.
       let h = compute_content_hash (w_env w) (cand_content c)
       in and_then (check_duplicate w c (Some (cf_tenant cf)) (st_memories s)) (\<lambda>dup.
            case dup of
              Some i \<Rightarrow> Inr (plain_result c C_duplicate None (Duplicate_of i), cu, s)
            | None \<Rightarrow>
                (case find_redaction_by_old_content_hash h (cf_tenant cf) (st_audits s) of
                   Some r \<Rightarrow> Inr (plain_result c C_duplicate None (Redacted_by (rr_event_id r)), cu, s)
                 | None \<Rightarrow>
                     if (case hashes of None \<Rightarrow> False | Some hs \<Rightarrow> h \<in> set hs)
                     then Inr (plain_result c C_duplicate None Intra_batch_duplicate, cu, s)
                     else gate_and_decide w cf c h hashes rel minimum tk cu s)))"

section \<open>A batch\<close>

record batch_result =
  br_processed :: nat
  br_promoted :: nat
  br_rejected :: nat
  br_flagged :: nat
  br_duplicates :: nat
  br_held :: nat
  br_cap_blocked :: nat
  br_results :: "curation_result list"

definition cap_blocked :: "curation_result \<Rightarrow> bool" where
  "cap_blocked r = (cr_outcome r = C_flagged \<and> map_option hp_status (cr_hold r) = Some HS_cap_reached)"

definition tally :: "nat \<Rightarrow> curation_result list \<Rightarrow> batch_result" where
  "tally n rs =
     (let count = (\<lambda>out. length (filter (\<lambda>r. cr_outcome r = out) rs))
      in \<lparr>br_processed = n, br_promoted = count C_promoted, br_rejected = count C_rejected, br_flagged = count C_flagged,
          br_duplicates = count C_duplicate, br_held = count C_held,
          br_cap_blocked = length (filter cap_blocked rs), br_results = rs\<rparr>)"

text \<open>
  The loop of \<open>processBatch\<close>. A throw ends it; what earlier candidates committed stays. The fields of
  the instance after a throw are those before the candidate that threw.
\<close>

fun batch_loop ::
  "world \<Rightarrow> curator_config \<Rightarrow> string list \<Rightarrow> (memory_candidate \<times> tick) list \<Rightarrow> curator_state \<Rightarrow> store_state \<Rightarrow>
    (fault + curation_result list) \<times> curator_state \<times> store_state" where
  "batch_loop w cf hashes [] cu s = (Inr [], cu, s)"
| "batch_loop w cf hashes ((c, tk) # rest) cu s =
     (case process_single w cf c (Some hashes) None tk cu s of
        Inl e \<Rightarrow> (Inl e, cu, s)
      | Inr (r, cu1, s1) \<Rightarrow>
          (let hashes1 = (if cr_outcome r = C_promoted then hashes @ [compute_content_hash (w_env w) (cand_content c)] else hashes)
           in case batch_loop w cf hashes1 rest cu1 s1 of
                (Inl e, cu2, s2) \<Rightarrow> (Inl e, cu2, s2)
              | (Inr rs, cu2, s2) \<Rightarrow> (Inr (r # rs), cu2, s2)))"

definition process_batch ::
  "world \<Rightarrow> curator_config \<Rightarrow> (memory_candidate \<times> tick) list \<Rightarrow> curator_state \<Rightarrow> store_state \<Rightarrow>
    (fault + batch_result) \<times> curator_state \<times> store_state" where
  "process_batch w cf batch cu s =
     (case batch_loop w cf (get_content_hashes_by_tenant (cf_tenant cf) (st_memories s)) batch cu s of
        (Inl e, cu', s') \<Rightarrow> (Inl e, cu', s')
      | (Inr rs, cu', s') \<Rightarrow> (Inr (tally (length batch) rs), cu', s'))"

end
