(* ===== verification/Curator_Laws.thy ===== *)
theory Curator_Laws
  imports Curator
begin

text \<open>
  What the curator guarantees: every way a candidate can leave \<open>processSingle\<close> is a sequence of
  governance steps that changes no more than its outcome says; a promotion has passed every gate; a
  batch keeps the invariants, promotes no text twice and stays within the budget of retirements.
\<close>

section \<open>What one candidate may change\<close>

definition run_budget :: "curator_config \<Rightarrow> nat" where
  "run_budget cf = (case cf_max_per_run cf of None \<Rightarrow> default_max_supersedes_per_run | Some b \<Rightarrow> b)"

definition settles ::
  "world \<Rightarrow> curator_config \<Rightarrow> memory_candidate \<Rightarrow> curator_state \<Rightarrow> store_state \<Rightarrow> curation_result \<Rightarrow> curator_state \<Rightarrow> store_state \<Rightarrow> bool" where
  "settles w cf c cu s r cu' s' \<longleftrightarrow>
     cr_candidate r = cand_id c \<and> gov_steps w (cf_hold_limits cf) s s' \<and> st_policies s' = st_policies s
     \<and> (cf_dry_run cf \<longrightarrow> s' = s) \<and> (cr_outcome r = C_duplicate \<longrightarrow> s' = s)
     \<and> (cr_outcome r \<noteq> C_promoted \<longrightarrow> st_memories s' = st_memories s \<and> st_links s' = st_links s)
     \<and> (cr_outcome r \<noteq> C_held \<longrightarrow> st_candidates s' = st_candidates s)
     \<and> (cu_applied cu \<le> run_budget cf \<longrightarrow> cu_applied cu' \<le> run_budget cf)"

lemma plain_result_simps [simp]:
  "cr_candidate (plain_result c out v why) = cand_id c" "cr_outcome (plain_result c out v why) = out"
  by (simp_all add: plain_result_def)

lemma settles_plain [simp]:
  "out \<noteq> C_promoted \<Longrightarrow> settles w cf c cu s (plain_result c out v why) cu s"
  by (simp add: settles_def gs_refl)

lemma reject_dry: "reject w c v True fresh now s = Inr (x, s') \<Longrightarrow> s' = s"
  by (simp add: reject_def)

lemma turn_away_settles:
  assumes "turn_away w c out v suppress tk cu s = Inr (r, cu', s')" "cf_dry_run cf \<longrightarrow> suppress"
    "out \<notin> {C_promoted, C_duplicate}"
  shows "settles w cf c cu s r cu' s' \<and> cr_outcome r = out \<and> cu' = cu"
proof -
  obtain why where rej: "reject w c v suppress (tk_fresh tk) (tk_wall tk) s = Inr (why, s')"
    and r: "r = plain_result c out (Some v) (Turned_away why)" "cu' = cu"
    using assms(1) by (auto simp: turn_away_def and_then_Inr)
  have "cf_dry_run cf \<longrightarrow> s' = s" using rej assms(2) by (auto dest: reject_dry)
  then show ?thesis using reject_steps [OF rej] assms(3) r by (simp add: settles_def)
qed

section \<open>Holding\<close>

lemma hold_outcome_settles:
  assumes run: "hold_outcome w c d res suppress tk placed cu s1 = Inr (r, cu', s')"
    and steps: "gov_steps w (cf_hold_limits cf) s s1"
    and same: "st_policies s1 = st_policies s" "st_memories s1 = st_memories s" "st_links s1 = st_links s"
    and unheld: "(\<And>h. placed \<noteq> Held h) \<Longrightarrow> s1 = s"
    and dry: "cf_dry_run cf \<longrightarrow> s1 = s \<and> suppress"
  shows "settles w cf c cu s r cu' s' \<and> cr_outcome r \<in> {C_held, C_flagged}"
proof -
  have flagged: ?thesis
    if st: "placed = Cap_reached n mx \<or> placed = Not_holdable x"
      and rr: "cr_candidate r = cand_id c" "cr_outcome r = C_flagged" "cu_applied cu' = cu_applied cu"
      and rej: "(if pr_outcome res = Flagged_outcome then reject w c (gate_verdict_of res) suppress (tk_fresh tk) (tk_wall tk) s1
         else Inr ([], s1)) = Inr (y, s')" for n mx x y
  proof -
    have s1: "s1 = s" using st unheld by auto
    show ?thesis
    proof (cases "pr_outcome res = Flagged_outcome")
      case True
      then have rej': "reject w c (gate_verdict_of res) suppress (tk_fresh tk) (tk_wall tk) s = Inr (y, s')"
        using rej s1 by simp
      have "cf_dry_run cf \<longrightarrow> s' = s" using rej' dry by (auto dest: reject_dry)
      then show ?thesis using reject_steps [OF rej'] rr by (simp add: settles_def)
    next
      case False
      then show ?thesis using rej rr s1 by (simp add: settles_def gs_refl)
    qed
  qed
  show ?thesis
  proof (cases placed)
    case (Cap_reached n mx)
    then obtain y where "cr_candidate r = cand_id c" "cr_outcome r = C_flagged" "cu_applied cu' = cu_applied cu"
        "(if pr_outcome res = Flagged_outcome then reject w c (gate_verdict_of res) suppress (tk_fresh tk) (tk_wall tk) s1
         else Inr ([], s1)) = Inr (y, s')"
      using run by (auto simp: hold_outcome_def Let_def and_then_Inr)
    then show ?thesis by (rule flagged [OF disjI1 [OF Cap_reached]])
  next
    case (Not_holdable x)
    then obtain y where "cr_candidate r = cand_id c" "cr_outcome r = C_flagged" "cu_applied cu' = cu_applied cu"
        "(if pr_outcome res = Flagged_outcome then reject w c (gate_verdict_of res) suppress (tk_fresh tk) (tk_wall tk) s1
         else Inr ([], s1)) = Inr (y, s')"
      using run by (auto simp: hold_outcome_def Let_def and_then_Inr)
    then show ?thesis by (rule flagged [OF disjI2 [OF Not_holdable]])
  qed (use run steps same dry in \<open>auto simp: hold_outcome_def Let_def settles_def\<close>)
qed

lemma place_hold_parts:
  assumes "state_ok w s" "place_hold w c d limits dry tb now s = Inr (res, s')"
  shows "st_policies s' = st_policies s \<and> st_memories s' = st_memories s \<and> st_links s' = st_links s
    \<and> (dry \<longrightarrow> s' = s)"
proof (cases "\<exists>h. res = Held h")
  case True
  then obtain h where placed: "place_hold w c d limits dry tb now s = Inr (Held h, s')" using assms(2) by auto
  show ?thesis by (rule placed_effect [OF assms(1) placed]) simp
next
  case False
  then have "s' = s" using not_held_unchanged [OF assms(2)] by blast
  then show ?thesis by simp
qed

lemma hold_one_settles:
  assumes ok: "state_ok w s" and run: "hold_one w cf c d res suppress tk cu s = Inr (r, cu', s')"
    and dry: "cf_dry_run cf \<longrightarrow> suppress"
  shows "settles w cf c cu s r cu' s' \<and> cr_outcome r \<in> {C_held, C_flagged}"
proof (cases "cu_cap cu")
  case (Some k)
  obtain n mx where k: "k = (n, mx)" by (cases k)
  show ?thesis
    by (rule hold_outcome_settles [where placed = "Cap_reached n mx" and ?s1.0 = s])
      (use run Some k dry in \<open>simp_all add: hold_one_def gs_refl\<close>)
next
  case None
  obtain placed s1 where p: "place_hold w c d (cf_hold_limits cf) (cf_dry_run cf) None (hold_now tk) s = Inr (placed, s1)"
    and h: "hold_outcome w c d res suppress tk placed cu s1 = Inr (r, cu', s')"
    using run None by (auto simp: hold_one_def and_then_Inr)
  show ?thesis
    by (rule hold_outcome_settles [OF h gs_one [OF gs_place [OF p]]])
      (use place_hold_parts [OF ok p] not_held_unchanged [OF p] dry in auto)
qed

section \<open>Promoting\<close>

lemma promotion_of_simps [simp]:
  "pi_candidate (promotion_of c h res rel released minimum chosen) = c"
  "pi_content_hash (promotion_of c h res rel released minimum chosen) = h"
  "pi_minimum (promotion_of c h res rel released minimum chosen) = minimum"
  by (simp_all add: promotion_of_def)

lemma promoted_result_simps [simp]:
  "cr_candidate (promoted_result c res chosen report m) = cand_id c"
  "cr_outcome (promoted_result c res chosen report m) = C_promoted"
  "cr_memory (promoted_result c res chosen report m) = Some (mem_id m)"
  "cr_superseded (promoted_result c res chosen report m) = map sx_id chosen"
  by (simp_all add: promoted_result_def)

lemma promote_one_parts:
  assumes run: "promote_one w cf c h res rel released minimum tk cu s = Inr (r, cu', s')"
  obtains actives :: "curated_memory list" and chosen report m where
    "withheld cf cu (plan_supersession c (\<lambda>_ _. actives) (cf_threshold cf) (cf_max_per_promotion cf)) = (chosen, report)"
    "promote w (promotion_of c h res rel released minimum chosen) (cf_dry_run cf) (cf_with_links cf) None (tk_wall tk) s = Inr (m, s')"
    "r = promoted_result c res chosen report m"
    "cu' = (if cf_dry_run cf then cu else cu\<lparr>cu_applied := cu_applied cu + by_subject_count chosen\<rparr>)"
proof -
  obtain actives :: "curated_memory list" where
    planned: "promote_planned w cf c h res rel released minimum tk cu
        (withheld cf cu (plan_supersession c (\<lambda>_ _. actives) (cf_threshold cf) (cf_max_per_promotion cf))) s = Inr (r, cu', s')"
    using run unfolding promote_one_def and_then_Inr by (elim exE conjE)
  obtain chosen report where
    plan: "withheld cf cu (plan_supersession c (\<lambda>_ _. actives) (cf_threshold cf) (cf_max_per_promotion cf)) = (chosen, report)"
    by (cases "withheld cf cu (plan_supersession c (\<lambda>_ _. actives) (cf_threshold cf) (cf_max_per_promotion cf))")
  show thesis
    using planned that [OF plan] unfolding plan by (auto simp: promote_planned_def Let_def and_then_Inr)
qed

lemma promote_one_settles:
  assumes ok: "state_ok w s" and run: "promote_one w cf c h res rel flags minimum tk cu s = Inr (r, cu', s')"
  shows "settles w cf c cu s r cu' s' \<and> cr_outcome r = C_promoted"
proof -
  obtain actives :: "curated_memory list" and chosen report m where
    plan: "withheld cf cu (plan_supersession c (\<lambda>_ _. actives) (cf_threshold cf) (cf_max_per_promotion cf)) = (chosen, report)"
    and prom: "promote w (promotion_of c h res rel flags minimum chosen) (cf_dry_run cf) (cf_with_links cf) None (tk_wall tk) s = Inr (m, s')"
    and r: "r = promoted_result c res chosen report m"
    and cu': "cu' = (if cf_dry_run cf then cu else cu\<lparr>cu_applied := cu_applied cu + by_subject_count chosen\<rparr>)"
    by (rule promote_one_parts [OF run])
  have "by_subject_count chosen = 0 \<or> cu_applied cu + by_subject_count chosen \<le> run_budget cf"
    using plan by (auto simp: withheld_def Let_def run_budget_def by_subject_count_def split: option.splits if_splits)
  then have "cu_applied cu \<le> run_budget cf \<longrightarrow> cu_applied cu' \<le> run_budget cf" by (auto simp: cu')
  then show ?thesis
    using promote_steps [OF ok no_evals prom] promote_Inr(3) [OF prom] r
    by (simp add: settles_def same_inbox_def)
qed

section \<open>The end of the gate\<close>

lemma decide_settles:
  assumes ok: "state_ok w s" and dry: "cf_dry_run cf \<longrightarrow> suppress"
    and run: "decide w cf c h rel minimum suppress policy res tk cu s = Inr (r, cu', s')"
  shows "settles w cf c cu s r cu' s' \<and> cr_outcome r \<noteq> C_duplicate"
proof (cases "pr_outcome res = Rejected_outcome")
  case True
  then have "turn_away w c C_rejected (gate_verdict_of res) suppress tk cu s = Inr (r, cu', s')"
    using run by (simp add: decide_def)
  from turn_away_settles [OF this dry] show ?thesis by auto
next
  case False
  show ?thesis
  proof (cases "if rel = None then evaluate_hold_triggers (w_env w) c res policy else None")
    case None
    show ?thesis
    proof (cases "pr_outcome res = Flagged_outcome \<and> released_flags rel res = None")
      case True
      then have "turn_away w c C_flagged (gate_verdict_of res) suppress tk cu s = Inr (r, cu', s')"
        using run None False by (simp add: decide_def)
      from turn_away_settles [OF this dry] show ?thesis by auto
    next
      case flags: False
      then have "promote_one w cf c h res rel (released_flags rel res) minimum tk cu s = Inr (r, cu', s')"
        using run None False unfolding decide_def by (simp only: if_False option.case)
      from promote_one_settles [OF ok this] show ?thesis by simp
    qed
  next
    case (Some d)
    then have "hold_one w cf c d res suppress tk cu s = Inr (r, cu', s')" using run False by (simp add: decide_def)
    from hold_one_settles [OF ok this dry] show ?thesis by auto
  qed
qed

lemma warn_dormant_applied [simp]: "cu_applied (warn_dormant p cu) = cu_applied cu"
  by (simp add: warn_dormant_def Let_def)

lemma settles_warned: "settles w cf c (warn_dormant p cu) s r cu' s' \<Longrightarrow> settles w cf c cu s r cu' s'"
  by (simp add: settles_def)

text \<open>The three gates before the policy, as one condition.\<close>

definition gates_open :: "world \<Rightarrow> curator_config \<Rightarrow> memory_candidate \<Rightarrow> hold_release option \<Rightarrow> bool" where
  "gates_open w cf c rel \<longleftrightarrow>
     (cand_origin c = None
      \<or> (\<exists>og key. cand_origin c = Some og \<and> cf_origin_secret cf = Some key \<and> key \<noteq> [] \<and> verify_origin_token w key c (token_hmac og)))
     \<and> (cand_source c \<in> {Import, Bulk_import} \<longrightarrow>
          evaluate_brainignore (file_paths (cand_metadata c)) (cand_content c) (cand_title c)
            (case cf_exclusions cf of None \<Rightarrow> default_brainignore_ruleset | Some rs \<Rightarrow> rs) = None)
     \<and> (requires_registrar_mcp_review c \<longrightarrow> (\<exists>r. rel = Some r \<and> author_kind (hl_promoted_by r) = Human))"

lemma origin_open:
  "(\<nexists>v. check_origin_attestation w c key = Origin_rejected v) \<longleftrightarrow>
     cand_origin c = None \<or> (\<exists>og k. cand_origin c = Some og \<and> key = Some k \<and> k \<noteq> [] \<and> verify_origin_token w k c (token_hmac og))"
  by (auto simp: check_origin_attestation_def split: option.splits)

lemma import_open:
  "(\<nexists>v. check_import_exclusion c rs = Import_rejected v) \<longleftrightarrow>
     (cand_source c \<in> {Import, Bulk_import} \<longrightarrow>
        evaluate_brainignore (file_paths (cand_metadata c)) (cand_content c) (cand_title c)
          (case rs of None \<Rightarrow> default_brainignore_ruleset | Some x \<Rightarrow> x) = None)"
  by (auto simp: check_import_exclusion_def split: option.splits)

text \<open>What the policy says of a candidate: nothing when no policy is enabled.\<close>

definition policy_result ::
  "world \<Rightarrow> curator_config \<Rightarrow> memory_candidate \<Rightarrow> string list option \<Rightarrow> sensitivity option \<Rightarrow> store_state \<Rightarrow> fault + pipeline_result" where
  "policy_result w cf c hashes minimum s =
     (case policy_of cf s of
        None \<Rightarrow> Inr (no_policy_result c)
      | Some p \<Rightarrow> evaluate_policy w cf c p hashes minimum s)"

lemma gate_cases:
  assumes run: "gate_and_decide w cf c h hashes rel minimum tk cu s = Inr (r, cu', s')"
  obtains (Refused) v suppress where "turn_away w c C_rejected v suppress tk cu s = Inr (r, cu', s')" "cf_dry_run cf \<longrightarrow> suppress"
      "rel \<noteq> None \<longrightarrow> suppress"
  | (Review) "r = plain_result c C_flagged (Some (review_verdict c)) Review_required" "cu' = cu" "s' = s"
  | (Decided) res suppress cu1 where "gates_open w cf c rel" "policy_result w cf c hashes minimum s = Inr res"
      "decide w cf c h rel minimum suppress (policy_of cf s) res tk cu1 s = Inr (r, cu', s')"
      "cf_dry_run cf \<longrightarrow> suppress" "cu1 = cu \<or> (\<exists>p. policy_of cf s = Some p \<and> cu1 = warn_dormant p cu)"
      "rel \<noteq> None \<longrightarrow> suppress"
proof -
  define suppress where "suppress = (cf_dry_run cf \<or> cf_suppress_rejections cf \<or> rel \<noteq> None)"
  have dry: "cf_dry_run cf \<longrightarrow> suppress" and quiet: "rel \<noteq> None \<longrightarrow> suppress" by (simp_all add: suppress_def)
  consider v where "check_origin_attestation w c (cf_origin_secret cf) = Origin_rejected v"
    | v where "\<nexists>v. check_origin_attestation w c (cf_origin_secret cf) = Origin_rejected v"
        "check_import_exclusion c (cf_exclusions cf) = Import_rejected v"
    | "\<nexists>v. check_origin_attestation w c (cf_origin_secret cf) = Origin_rejected v"
      "\<nexists>v. check_import_exclusion c (cf_exclusions cf) = Import_rejected v" by blast
  then show thesis
  proof cases
    case 1
    then have "turn_away w c C_rejected v suppress tk cu s = Inr (r, cu', s')"
      using run unfolding gate_and_decide_def suppress_def [symmetric] by (simp add: Let_def)
    then show thesis by (rule Refused [OF _ dry quiet])
  next
    case 2
    then have "turn_away w c C_rejected v suppress tk cu s = Inr (r, cu', s')"
      using run unfolding gate_and_decide_def suppress_def [symmetric] by (auto simp: Let_def split: origin_verdict.splits)
    then show thesis by (rule Refused [OF _ dry quiet])
  next
    case 3
    let ?review = "requires_registrar_mcp_review c \<and> (case rel of None \<Rightarrow> True | Some r \<Rightarrow> author_kind (hl_promoted_by r) \<noteq> Human)"
    have rest: "(if ?review then Inr (plain_result c C_flagged (Some (review_verdict c)) Review_required, cu, s)
        else case policy_of cf s of
               None \<Rightarrow> decide w cf c h rel minimum suppress None (no_policy_result c) tk cu s
             | Some p \<Rightarrow> and_then (evaluate_policy w cf c p hashes minimum s) (\<lambda>res.
                 decide w cf c h rel minimum suppress (Some p) res tk (warn_dormant p cu) s)) = Inr (r, cu', s')"
      using run 3 unfolding gate_and_decide_def suppress_def [symmetric]
      by (auto simp: Let_def split: origin_verdict.splits import_verdict.splits)
    show thesis
    proof (cases ?review)
      case True
      then show thesis using rest Review by simp
    next
      case False
      have open': "gates_open w cf c rel"
        using 3 False unfolding gates_open_def origin_open import_open by (auto split: option.splits)
      show thesis
      proof (cases "policy_of cf s")
        case None
        then show thesis
          using rest False by (intro Decided [OF open' _ _ dry _ quiet]) (auto simp: policy_result_def)
      next
        case (Some p)
        then obtain res where "evaluate_policy w cf c p hashes minimum s = Inr res"
            "decide w cf c h rel minimum suppress (Some p) res tk (warn_dormant p cu) s = Inr (r, cu', s')"
          using rest False by (auto simp: and_then_Inr)
        then show thesis
          using Some by (intro Decided [OF open' _ _ dry _ quiet]) (auto simp: policy_result_def)
      qed
    qed
  qed
qed

section \<open>One candidate\<close>

text \<open>The ways a candidate leaves \<open>processSingle\<close>: as a duplicate, or through the gates.\<close>

lemma single_cases:
  assumes run: "process_single w cf c hashes rel tk cu s = Inr (r, cu', s')"
  obtains (Duplicate) why where "r = plain_result c C_duplicate None why" "cu' = cu" "s' = s"
  | (Fresh) minimum where "resolve_minimum_sensitivity w c s = Inr minimum"
      "compute_content_hash (w_env w) (cand_content c) \<notin> set (get_content_hashes_by_tenant (cf_tenant cf) (st_memories s))"
      "find_redaction_by_old_content_hash (compute_content_hash (w_env w) (cand_content c)) (cf_tenant cf) (st_audits s) = None"
      "\<And>hs. hashes = Some hs \<Longrightarrow> compute_content_hash (w_env w) (cand_content c) \<notin> set hs"
      "gate_and_decide w cf c (compute_content_hash (w_env w) (cand_content c)) hashes rel minimum tk cu s = Inr (r, cu', s')"
proof -
  let ?h = "compute_content_hash (w_env w) (cand_content c)"
  obtain minimum dup where m: "resolve_minimum_sensitivity w c s = Inr minimum"
    and d: "check_duplicate w c (Some (cf_tenant cf)) (st_memories s) = Inr dup"
    and rest: "(case dup of
              Some i \<Rightarrow> Inr (plain_result c C_duplicate None (Duplicate_of i), cu, s)
            | None \<Rightarrow>
                (case find_redaction_by_old_content_hash ?h (cf_tenant cf) (st_audits s) of
                   Some r \<Rightarrow> Inr (plain_result c C_duplicate None (Redacted_by (rr_event_id r)), cu, s)
                 | None \<Rightarrow>
                     if (case hashes of None \<Rightarrow> False | Some hs \<Rightarrow> ?h \<in> set hs)
                     then Inr (plain_result c C_duplicate None Intra_batch_duplicate, cu, s)
                     else gate_and_decide w cf c ?h hashes rel minimum tk cu s)) = Inr (r, cu', s')"
    using run by (auto simp: process_single_def Let_def and_then_Inr)
  show thesis
  proof (cases dup)
    case (Some i)
    then show thesis using rest Duplicate by auto
  next
    case None
    have new: "?h \<notin> set (get_content_hashes_by_tenant (cf_tenant cf) (st_memories s))"
      using d None by (auto simp: check_duplicate_def Let_def and_then_Inr find_by_content_hash_and_tenant_def
          first_memory_where_def get_content_hashes_by_tenant_def find_None_iff split: option.splits)
    show thesis
      using rest None Duplicate Fresh [OF m new] by (auto split: option.splits if_splits)
  qed
qed

lemma process_single_settles:
  assumes ok: "state_ok w s" and run: "process_single w cf c hashes rel tk cu s = Inr (r, cu', s')"
  shows "settles w cf c cu s r cu' s'"
  using run
proof (cases rule: single_cases)
  case (Fresh minimum)
  from Fresh(5) show ?thesis
  proof (cases rule: gate_cases)
    case (Refused v suppress)
    then show ?thesis using turn_away_settles by blast
  next
    case (Decided res suppress cu1)
    then show ?thesis using decide_settles [OF ok Decided(4,3)] settles_warned by auto
  qed simp
qed simp

section \<open>A concrete run\<close>

definition plain_config :: curator_config where
  "plain_config = \<lparr>cf_tenant = ''team'', cf_dry_run = False, cf_threshold = None, cf_report_only = False,
     cf_max_per_promotion = None, cf_max_per_run = None, cf_suppress_rejections = False, cf_origin_secret = None,
     cf_exclusions = None, cf_hold_limits = None, cf_with_links = False\<rparr>"

definition fresh_curator :: curator_state where
  "fresh_curator = \<lparr>cu_cap = None, cu_applied = 0, cu_warned = [], cu_warnings = []\<rparr>"

definition plain_tick :: tick where
  "plain_tick = \<lparr>tk_fresh = ''r1'', tk_wall = ''t1'', tk_injected = None\<rparr>"

abbreviation plain_proposal :: memory_candidate where
  "plain_proposal \<equiv> plain_candidate ''c1'' plain_text"

lemma plain_config_simps [simp]:
  "cf_tenant plain_config = ''team''" "\<not> cf_dry_run plain_config" "cf_origin_secret plain_config = None"
  "cf_exclusions plain_config = None" "cf_hold_limits plain_config = None" "\<not> cf_with_links plain_config"
  "cf_threshold plain_config = None" "cf_max_per_promotion plain_config = None" "cf_max_per_run plain_config = None"
  "\<not> cf_report_only plain_config" "\<not> cf_suppress_rejections plain_config"
  by (simp_all add: plain_config_def)

lemma plain_candidate_simps:
  "cand_id (plain_candidate i t) = i" "cand_content (plain_candidate i t) = t" "cand_origin (plain_candidate i t) = None"
  "cand_source (plain_candidate i t) = Manual" "cand_tenant (plain_candidate i t) = ''team''"
  "cand_author (plain_candidate i t) = plain_author" "cand_metadata (plain_candidate i t) = plain_metadata"
  by (simp_all add: plain_candidate_def)

lemma plain_floor: "resolve_minimum_sensitivity plain_world plain_proposal empty_state = Inr None"
  using memory_events_ok [of plain_world empty_state] empty_audits_ok
  by (simp add: resolve_minimum_sensitivity_def empty_state_def history_def)

lemma plain_promotion_of: "promotion_of plain_proposal plain_text (no_policy_result plain_proposal) None None None [] = plain_input"
  by (simp add: promotion_of_def plain_input_def no_policy_result_def gate_verdict_of_def plain_candidate_simps)

lemma tenant_visible_to_member: "is_audience_visible_to_role (Some ''tenant'') (Some ''member'')"
  by code_simp

lemma plain_no_hold: "evaluate_hold_triggers env plain_proposal (no_policy_result plain_proposal) None = None"
  by (simp add: hold_none_iff no_policy_result_def is_audience_above_proposer_clearance_def plain_candidate_simps
      plain_metadata_def tenant_visible_to_member)

lemma plain_single:
  "\<exists>m s'. process_single plain_world plain_config plain_proposal hashes None plain_tick fresh_curator empty_state
     = Inr (promoted_result plain_proposal (no_policy_result plain_proposal) [] None m, fresh_curator, s')"
  if "hashes = None \<or> hashes = Some []"
proof -
  obtain m s' where prom: "promote plain_world plain_input False False None ''t1'' empty_state = Inr (m, s')"
    using plain_promotion by blast
  have dup: "check_duplicate plain_world plain_proposal (Some ''team'') (st_memories empty_state) = Inr None"
    by (simp add: check_duplicate_def find_by_content_hash_and_tenant_def first_memory_where_def empty_state_def Let_def)
  have red: "find_redaction_by_old_content_hash h ''team'' (st_audits empty_state) = None" for h
    by (simp add: find_redaction_by_old_content_hash_def empty_state_def)
  have pol: "policy_of plain_config empty_state = None"
    by (simp add: policy_of_def empty_state_def)
  have origin: "check_origin_attestation plain_world plain_proposal None = Unattested"
    by (simp add: check_origin_attestation_def plain_candidate_simps)
  have imp: "check_import_exclusion plain_proposal None = Not_applicable"
    by (simp add: check_import_exclusion_def plain_candidate_simps)
  have rev: "\<not> requires_registrar_mcp_review plain_proposal"
    by (simp add: requires_registrar_mcp_review_def plain_candidate_simps)
  have act: "find_by_tenant_and_lifecycle any_format ''team'' Active (st_memories empty_state) = Inr []"
    by (simp add: find_by_tenant_and_lifecycle_def memories_where_def empty_state_def)
  have plan: "withheld plain_config fresh_curator (plan_supersession plain_proposal (\<lambda>_ _. []) None None) = ([], None)"
    by (simp add: withheld_def plan_supersession_def plain_candidate_simps plain_metadata_def Let_def by_subject_count_def)
  have hash: "compute_content_hash (w_env plain_world) plain_text = plain_text"
    by (simp add: compute_content_hash_def plain_world_def)
  have "promote_one plain_world plain_config plain_proposal plain_text (no_policy_result plain_proposal) None None None plain_tick
      fresh_curator empty_state = Inr (promoted_result plain_proposal (no_policy_result plain_proposal) [] None m, fresh_curator, s')"
    using prom act plan plain_promotion_of
    by (simp add: promote_one_def promote_planned_def plain_candidate_simps plain_tick_def by_subject_count_def)
  then have "decide plain_world plain_config plain_proposal plain_text None None suppress None (no_policy_result plain_proposal)
      plain_tick fresh_curator empty_state
      = Inr (promoted_result plain_proposal (no_policy_result plain_proposal) [] None m, fresh_curator, s')" for suppress
    by (simp add: decide_def plain_no_hold released_flags_def) (simp add: no_policy_result_def)
  then show ?thesis
    using that dup red pol origin imp rev plain_floor hash
    by (auto simp: process_single_def gate_and_decide_def plain_candidate_simps Let_def)
qed

lemma empty_inv: "gov_inv w limits empty_state"
proof -
  have "state_ok w empty_state" by (rule empty_state_ok)
  moreover have "strictly_clean (w_sha256 w) (st_audits empty_state)"
    using find_all_ok [of "[]"] by (simp add: empty_state_def strictly_clean_intact audit_table_ok_def intact_def)
  moreover have "held_known w empty_state"
    by (simp add: held_known_def empty_state_def history_def)
  moreover have "open_count w tn empty_state = 0" for tn
    by (simp add: open_count_def empty_state_def history_def tenant_action_def)
  moreover have "0 \<le> resolve_max_active_holds limits"
    by (auto simp: resolve_max_active_holds_def default_max_active_holds_def split: option.split)
  ultimately show ?thesis by (simp add: gov_inv_def)
qed

section \<open>A promotion has passed every gate\<close>

lemma decide_promoted:
  assumes ok: "state_ok w s" and dry: "cf_dry_run cf \<longrightarrow> suppress"
    and run: "decide w cf c h rel minimum suppress policy res tk cu s = Inr (r, cu', s')" and out: "cr_outcome r = C_promoted"
  shows "promote_one w cf c h res rel (released_flags rel res) minimum tk cu s = Inr (r, cu', s')"
    "pr_outcome res \<noteq> Rejected_outcome"
    "rel = None \<Longrightarrow> evaluate_hold_triggers (w_env w) c res policy = None"
    "pr_outcome res = Flagged_outcome \<Longrightarrow> rel \<noteq> None \<and> unresolved_flags_after_release res = []"
proof -
  show nr: "pr_outcome res \<noteq> Rejected_outcome"
  proof
    assume "pr_outcome res = Rejected_outcome"
    then have "turn_away w c C_rejected (gate_verdict_of res) suppress tk cu s = Inr (r, cu', s')"
      using run by (simp add: decide_def)
    from turn_away_settles [OF this dry] show False using out by simp
  qed
  have nh: "(if rel = None then evaluate_hold_triggers (w_env w) c res policy else None) = None"
  proof (rule ccontr)
    assume "\<not> ?thesis"
    then obtain d where "(if rel = None then evaluate_hold_triggers (w_env w) c res policy else None) = Some d" by auto
    then have "hold_one w cf c d res suppress tk cu s = Inr (r, cu', s')" using run nr by (simp add: decide_def)
    from hold_one_settles [OF ok this dry] show False using out by simp
  qed
  then show "rel = None \<Longrightarrow> evaluate_hold_triggers (w_env w) c res policy = None" by simp
  have nf: "\<not> (pr_outcome res = Flagged_outcome \<and> released_flags rel res = None)"
  proof
    assume "pr_outcome res = Flagged_outcome \<and> released_flags rel res = None"
    then have "turn_away w c C_flagged (gate_verdict_of res) suppress tk cu s = Inr (r, cu', s')"
      using run nr nh by (simp add: decide_def)
    from turn_away_settles [OF this dry] show False using out by simp
  qed
  then show "pr_outcome res = Flagged_outcome \<Longrightarrow> rel \<noteq> None \<and> unresolved_flags_after_release res = []"
    by (auto simp: released_flags_def split: if_splits)
  show "promote_one w cf c h res rel (released_flags rel res) minimum tk cu s = Inr (r, cu', s')"
    using run nr nh nf unfolding decide_def by (simp only: if_False option.case)
qed

text \<open>What stands in the database after a promotion that was no dry run.\<close>

definition promotion_stored ::
  "world \<Rightarrow> memory_candidate \<Rightarrow> sensitivity option \<Rightarrow> curation_result \<Rightarrow> store_state \<Rightarrow> store_state \<Rightarrow> bool" where
  "promotion_stored w c minimum r s s' \<longleftrightarrow>
     (\<exists>m. cr_memory r = Some (mem_id m) \<and> mem_view w s (mem_id m) = None \<and> mem_view w s' (mem_id m) = Some m
        \<and> mem_lifecycle m = Active \<and> mem_candidate_id m = cand_id c \<and> mem_metadata m = cand_metadata c
        \<and> mem_content_hash m = compute_content_hash (w_env w) (cand_content c)
        \<and> mem_sensitivity m = effective_sensitivity (cc_level (classify_content (w_env w) (cand_content c))) minimum
        \<and> (\<forall>i. i \<noteq> mem_id m \<longrightarrow> i \<notin> set (cr_superseded r) \<longrightarrow> mem_view w s' i = mem_view w s i))"

lemma first_of_each_ids: "sx_id ` set (first_of_each_id acc ms) = sx_id ` set acc \<union> sx_id ` set ms"
proof (induction ms arbitrary: acc)
  case (Cons m ms)
  have "list_ex (\<lambda>x. sx_id x = sx_id m) acc \<longleftrightarrow> sx_id m \<in> sx_id ` set acc" 
    unfolding list_ex_iff image_iff by metis
  then show ?case using Cons.IH by (auto simp: insert_absorb)
qed simp

lemma promote_one_stored:
  assumes ok: "state_ok w s" and dry: "\<not> cf_dry_run cf"
    and run: "promote_one w cf c (compute_content_hash (w_env w) (cand_content c)) res rel released minimum tk cu s = Inr (r, cu', s')"
  shows "promotion_stored w c minimum r s s'"
proof -
  let ?h = "compute_content_hash (w_env w) (cand_content c)"
  obtain actives :: "curated_memory list" and chosen report m where
    prom: "promote w (promotion_of c ?h res rel released minimum chosen) (cf_dry_run cf) (cf_with_links cf) None (tk_wall tk) s = Inr (m, s')"
    and r: "r = promoted_result c res chosen report m"
    by (rule promote_one_parts [OF run])
  let ?inp = "promotion_of c ?h res rel released minimum chosen"
  note p = promoted_fields [OF promote_Inr(1) [OF prom]]
  note t = transaction_effect [OF ok p(1,2) no_evals promote_Inr(4) [OF prom dry], of None]
  have ids: "sx_id ` set (promoted_supersessions ?inp) = set (cr_superseded r)"
    by (simp add: promoted_supersessions_def first_of_each_ids r) (simp add: promotion_of_def)
  have v: "mem_view w s (mem_id m) = None" "mem_view w s' (mem_id m) = Some m"
    "\<And>i. i \<noteq> mem_id m \<Longrightarrow> i \<notin> set (cr_superseded r) \<Longrightarrow> mem_view w s' i = mem_view w s i"
    using t unfolding ids by auto
  show ?thesis
    unfolding promotion_stored_def
    by (rule exI [of _ m]) (use v p in \<open>simp add: r promoted_sensitivity_def\<close>)
qed

text \<open>What a run that promoted went through.\<close>

lemma single_promoted:
  assumes ok: "state_ok w s" and run: "process_single w cf c hashes rel tk cu s = Inr (r, cu', s')"
    and out: "cr_outcome r = C_promoted"
  obtains minimum res cu1 where "resolve_minimum_sensitivity w c s = Inr minimum" "gates_open w cf c rel"
    "policy_result w cf c hashes minimum s = Inr res" "pr_outcome res \<noteq> Rejected_outcome"
    "rel = None \<Longrightarrow> evaluate_hold_triggers (w_env w) c res (policy_of cf s) = None"
    "pr_outcome res = Flagged_outcome \<Longrightarrow> rel \<noteq> None \<and> unresolved_flags_after_release res = []"
    "promote_one w cf c (compute_content_hash (w_env w) (cand_content c)) res rel (released_flags rel res) minimum tk cu1 s = Inr (r, cu', s')"
  using run
proof (cases rule: single_cases)
  case Duplicate
  then show thesis using out by simp
next
  case (Fresh minimum)
  from Fresh(5) show thesis
  proof (cases rule: gate_cases)
    case (Refused v suppress)
    then show thesis using turn_away_settles [OF Refused(1,2)] out by simp
  next
    case Review
    then show thesis using out by simp
  next
    case (Decided res suppress cu1)
    note d = decide_promoted [OF ok Decided(4,3) out]
    show thesis by (rule that [OF Fresh(1) Decided(1,2) d(2) d(3) d(4) d(1)])
  qed
qed

text \<open>
  C1. Nothing is promoted around a gate. When \<open>processSingle\<close> reports \<open>promoted\<close>: no memory of the tenant
  carries the content hash, no redaction receipt of the tenant records it and the batch has not
  promoted it; a claimed origin verified under the secret of this installation; an imported file is
  not excluded; a proposal from the Registrar's own tool was released by a person; the policy in
  force evaluated the candidate and rejected nothing; without a release no hold trigger fired and
  no rule flagged; with one, every flag was one a hold covers. Unless the run is a dry run, the
  memory then stands in the database, active, under an identifier that was free, with the text's
  hash, the candidate's metadata and at least the sensitivity the classifier and the retained floor
  demand, and only memories reported as superseded changed besides.
\<close>

theorem promotion_passes_every_gate:
  assumes "state_ok w s" "process_single w cf c hashes rel tk cu s = Inr (r, cu', s')" "cr_outcome r = C_promoted"
  shows "compute_content_hash (w_env w) (cand_content c) \<notin> set (get_content_hashes_by_tenant (cf_tenant cf) (st_memories s))
    \<and> find_redaction_by_old_content_hash (compute_content_hash (w_env w) (cand_content c)) (cf_tenant cf) (st_audits s) = None
    \<and> (\<forall>hs. hashes = Some hs \<longrightarrow> compute_content_hash (w_env w) (cand_content c) \<notin> set hs)
    \<and> gates_open w cf c rel
    \<and> (\<exists>minimum res. resolve_minimum_sensitivity w c s = Inr minimum
        \<and> policy_result w cf c hashes minimum s = Inr res \<and> pr_outcome res \<noteq> Rejected_outcome
        \<and> (rel = None \<longrightarrow> evaluate_hold_triggers (w_env w) c res (policy_of cf s) = None \<and> pr_outcome res = Approved)
        \<and> (pr_outcome res = Flagged_outcome \<longrightarrow> unresolved_flags_after_release res = [])
        \<and> (\<not> cf_dry_run cf \<longrightarrow> promotion_stored w c minimum r s s'))"
  using assms(2)
proof (cases rule: single_cases)
  case Duplicate
  then show ?thesis using assms(3) by simp
next
  case (Fresh minimum)
  obtain res cu1 where p: "gates_open w cf c rel" "policy_result w cf c hashes minimum s = Inr res"
      "pr_outcome res \<noteq> Rejected_outcome" "rel = None \<Longrightarrow> evaluate_hold_triggers (w_env w) c res (policy_of cf s) = None"
      "pr_outcome res = Flagged_outcome \<Longrightarrow> rel \<noteq> None \<and> unresolved_flags_after_release res = []"
      "promote_one w cf c (compute_content_hash (w_env w) (cand_content c)) res rel (released_flags rel res) minimum tk cu1 s = Inr (r, cu', s')"
    by (rule single_promoted [OF assms]) (use Fresh(1) in simp)
  have "rel = None \<longrightarrow> pr_outcome res = Approved" using p(3,5) by (cases "pr_outcome res") auto
  moreover have "\<not> cf_dry_run cf \<longrightarrow> promotion_stored w c minimum r s s'"
    using promote_one_stored [OF assms(1) _ p(6)] by blast
  ultimately show ?thesis using Fresh p by blast
qed

theorem promotion_passes_every_gate_witness:
  "\<exists>r cu' s'. process_single plain_world plain_config plain_proposal None None plain_tick fresh_curator empty_state = Inr (r, cu', s')
     \<and> promotion_stored plain_world plain_proposal None r empty_state s'"
proof -
  obtain m s' where run: "process_single plain_world plain_config plain_proposal None None plain_tick fresh_curator empty_state
     = Inr (promoted_result plain_proposal (no_policy_result plain_proposal) [] None m, fresh_curator, s')"
    using plain_single by blast
  show ?thesis
    using promotion_passes_every_gate [OF empty_state_ok run] plain_floor run by auto
qed

text \<open>
  An outcome changes what it says and no more. A result names the candidate it is about; a duplicate
  changes nothing; only a promotion touches memories or links; only a hold touches a candidate; a
  policy is never touched; the log only grows; and a dry run changes nothing at all, whatever the
  outcome.
\<close>

theorem outcome_bounds_the_change:
  assumes "gov_inv w (cf_hold_limits cf) s" "process_single w cf c hashes rel tk cu s = Inr (r, cu', s')"
  shows "cr_candidate r = cand_id c \<and> (cr_outcome r = C_duplicate \<longrightarrow> s' = s)
    \<and> (cr_outcome r \<noteq> C_promoted \<longrightarrow> st_memories s' = st_memories s \<and> st_links s' = st_links s)
    \<and> (cr_outcome r \<noteq> C_held \<longrightarrow> st_candidates s' = st_candidates s)
    \<and> st_policies s' = st_policies s \<and> extends_history w s s' \<and> (cf_dry_run cf \<longrightarrow> s' = s)"
proof -
  have ok: "state_ok w s" using assms(1) by (simp add: gov_inv_def)
  show ?thesis
    using process_single_settles [OF ok assms(2)] steps_inv [OF _ assms(1)] by (auto simp: settles_def)
qed

theorem outcome_bounds_the_change_witness:
  "\<exists>r cu' s'. process_single plain_world plain_config plain_proposal None None plain_tick fresh_curator empty_state = Inr (r, cu', s')
     \<and> cr_candidate r = ''c1'' \<and> extends_history plain_world empty_state s'"
proof -
  obtain m s' where run: "process_single plain_world plain_config plain_proposal None None plain_tick fresh_curator empty_state
     = Inr (promoted_result plain_proposal (no_policy_result plain_proposal) [] None m, fresh_curator, s')"
    using plain_single by blast
  show ?thesis
    using outcome_bounds_the_change [OF empty_inv run] run by (auto simp: plain_candidate_simps)
qed

section \<open>A batch\<close>

lemma plain_batch:
  "\<exists>b s'. process_batch plain_world plain_config [(plain_proposal, plain_tick)] fresh_curator empty_state = (Inr b, fresh_curator, s')
     \<and> br_promoted b = 1"
proof -
  obtain m s' where run: "process_single plain_world plain_config plain_proposal (Some []) None plain_tick fresh_curator empty_state
     = Inr (promoted_result plain_proposal (no_policy_result plain_proposal) [] None m, fresh_curator, s')"
    using plain_single by blast
  have "get_content_hashes_by_tenant ''team'' (st_memories empty_state) = []"
    by (simp add: get_content_hashes_by_tenant_def empty_state_def)
  then show ?thesis using run by (simp add: process_batch_def Let_def tally_def)
qed

lemma batch_loop_steps:
  "gov_inv w (cf_hold_limits cf) s \<Longrightarrow> batch_loop w cf hashes batch cu s = (out, cu', s') \<Longrightarrow>
     gov_steps w (cf_hold_limits cf) s s' \<and> st_policies s' = st_policies s
     \<and> (cu_applied cu \<le> run_budget cf \<longrightarrow> cu_applied cu' \<le> run_budget cf)"
proof (induction batch arbitrary: hashes cu s out cu' s')
  case Nil
  then show ?case by (simp add: gs_refl)
next
  case (Cons ct batch)
  obtain c tk where ct: "ct = (c, tk)" by (cases ct)
  show ?case
  proof (cases "process_single w cf c (Some hashes) None tk cu s")
    case (Inl e)
    then show ?thesis using Cons.prems(2) by (simp add: ct gs_refl)
  next
    case (Inr res)
    obtain r cu1 s1 where r: "process_single w cf c (Some hashes) None tk cu s = Inr (r, cu1, s1)"
      using Inr by (cases res) auto
    have one: "settles w cf c cu s r cu1 s1"
      using process_single_settles [OF _ r] Cons.prems(1) by (simp add: gov_inv_def)
    then have inv: "gov_inv w (cf_hold_limits cf) s1" using steps_inv Cons.prems(1) by (auto simp: settles_def)
    obtain out2 where two: "batch_loop w cf (if cr_outcome r = C_promoted
          then hashes @ [compute_content_hash (w_env w) (cand_content c)] else hashes) batch cu1 s1 = (out2, cu', s')"
      using Cons.prems(2) by (auto simp: ct r Let_def split: prod.splits sum.splits)
    note ih = Cons.IH [OF inv two]
    have "gov_steps w (cf_hold_limits cf) s s'"
      using gs_append [OF conjunct1 [OF ih]] one by (simp add: settles_def)
    then show ?thesis using ih one by (simp add: settles_def)
  qed
qed

text \<open>
  A run keeps the invariants, whatever it meets. From a database whose tables are well formed, whose
  audit chain verifies strictly and whose open holds respect the cap of every tenant, any batch in
  any order, finished or cut short by a throw, leaves such a database; the log has only grown; and
  the retirements counted against the run stay within its budget.
\<close>

theorem a_run_keeps_the_invariants:
  assumes "gov_inv w (cf_hold_limits cf) s" "process_batch w cf batch cu s = (out, cu', s')"
  shows "gov_inv w (cf_hold_limits cf) s' \<and> extends_history w s s' \<and> st_policies s' = st_policies s
    \<and> (cu_applied cu \<le> run_budget cf \<longrightarrow> cu_applied cu' \<le> run_budget cf)"
proof -
  obtain o1 where "batch_loop w cf (get_content_hashes_by_tenant (cf_tenant cf) (st_memories s)) batch cu s = (o1, cu', s')"
    using assms(2) by (auto simp: process_batch_def split: prod.splits sum.splits)
  from batch_loop_steps [OF assms(1) this] show ?thesis using steps_inv [OF _ assms(1)] by blast
qed

theorem a_run_keeps_the_invariants_witness:
  "\<exists>b s'. process_batch plain_world plain_config [(plain_proposal, plain_tick)] fresh_curator empty_state = (Inr b, fresh_curator, s')
     \<and> gov_inv plain_world None s'"
proof -
  obtain b s' where run: "process_batch plain_world plain_config [(plain_proposal, plain_tick)] fresh_curator empty_state
      = (Inr b, fresh_curator, s')" using plain_batch by blast
  show ?thesis using a_run_keeps_the_invariants [OF empty_inv run] run by simp
qed

text \<open>The hashes of the candidates a batch promoted, in order.\<close>

definition promoted_hashes :: "world \<Rightarrow> (memory_candidate \<times> tick) list \<Rightarrow> curation_result list \<Rightarrow> string list" where
  "promoted_hashes w batch rs =
     map (\<lambda>((c, tk), r). compute_content_hash (w_env w) (cand_content c)) (filter (\<lambda>(ct, r). cr_outcome r = C_promoted) (zip batch rs))"

lemma promoted_is_new:
  "process_single w cf c hashes rel tk cu s = Inr (r, cu', s') \<Longrightarrow> cr_outcome r = C_promoted \<Longrightarrow> hashes = Some hs \<Longrightarrow>
     compute_content_hash (w_env w) (cand_content c) \<notin> set hs"
  by (erule single_cases) simp_all

lemma batch_loop_results:
  "gov_inv w (cf_hold_limits cf) s \<Longrightarrow> batch_loop w cf hashes batch cu s = (Inr rs, cu', s') \<Longrightarrow>
     map cr_candidate rs = map (cand_id \<circ> fst) batch
     \<and> distinct (promoted_hashes w batch rs) \<and> set (promoted_hashes w batch rs) \<inter> set hashes = {}"
proof (induction batch arbitrary: hashes cu s rs)
  case Nil
  then show ?case by (simp add: promoted_hashes_def)
next
  case (Cons ct batch)
  obtain c tk where ct: "ct = (c, tk)" by (cases ct)
  let ?h = "compute_content_hash (w_env w) (cand_content c)"
  obtain r cu1 s1 where r: "process_single w cf c (Some hashes) None tk cu s = Inr (r, cu1, s1)"
    using Cons.prems(2) by (auto simp: ct split: sum.splits)
  let ?hs = "if cr_outcome r = C_promoted then hashes @ [?h] else hashes"
  obtain rs' where two: "batch_loop w cf ?hs batch cu1 s1 = (Inr rs', cu', s')" and rs: "rs = r # rs'"
    using Cons.prems(2) by (auto simp: ct r Let_def split: prod.splits sum.splits)
  have ok: "state_ok w s" using Cons.prems(1) by (simp add: gov_inv_def)
  have one: "settles w cf c cu s r cu1 s1" by (rule process_single_settles [OF ok r])
  then have inv: "gov_inv w (cf_hold_limits cf) s1" using steps_inv Cons.prems(1) by (auto simp: settles_def)
  note ih = Cons.IH [OF inv two]
  have "cr_outcome r = C_promoted \<Longrightarrow> ?h \<notin> set hashes" using promoted_is_new [OF r] by blast
  then show ?case using ih one by (auto simp: ct rs promoted_hashes_def settles_def)
qed

lemma outcome_tally:
  "length rs = length (filter (\<lambda>r. cr_outcome r = C_promoted) rs) + length (filter (\<lambda>r. cr_outcome r = C_rejected) rs)
     + length (filter (\<lambda>r. cr_outcome r = C_flagged) rs) + length (filter (\<lambda>r. cr_outcome r = C_duplicate) rs)
     + length (filter (\<lambda>r. cr_outcome r = C_held) rs)"
proof (induction rs)
  case (Cons r rs)
  then show ?case by (cases "cr_outcome r") simp_all
qed simp

text \<open>
  A batch accounts for every candidate and promotes no text twice. When \<open>processBatch\<close> returns, it
  has one result per candidate, in order; promoted, rejected, flagged, duplicate and held add up to
  the number processed, and those stopped by the full queue are among the flagged; the promoted
  texts have pairwise different hashes, none of which a memory of the tenant had before.
\<close>

theorem batch_promotes_each_text_once:
  assumes "gov_inv w (cf_hold_limits cf) s" "process_batch w cf batch cu s = (Inr b, cu', s')"
  shows "map cr_candidate (br_results b) = map (cand_id \<circ> fst) batch \<and> br_processed b = length batch
    \<and> br_processed b = br_promoted b + br_rejected b + br_flagged b + br_duplicates b + br_held b
    \<and> br_cap_blocked b \<le> br_flagged b
    \<and> distinct (promoted_hashes w batch (br_results b))
    \<and> set (promoted_hashes w batch (br_results b)) \<inter> set (get_content_hashes_by_tenant (cf_tenant cf) (st_memories s)) = {}"
proof -
  obtain rs where loop: "batch_loop w cf (get_content_hashes_by_tenant (cf_tenant cf) (st_memories s)) batch cu s = (Inr rs, cu', s')"
    and b: "b = tally (length batch) rs"
    using assms(2) by (auto simp: process_batch_def split: prod.splits sum.splits)
  note l = batch_loop_results [OF assms(1) loop]
  then have "map cr_candidate rs = map (cand_id \<circ> fst) batch" by simp
  then have "length rs = length batch" by (rule map_eq_imp_length_eq)
  moreover have "length (filter cap_blocked rs) \<le> length (filter (\<lambda>r. cr_outcome r = C_flagged) rs)"
    by (rule length_filter_le) (simp add: cap_blocked_def)
  ultimately show ?thesis using l outcome_tally [of rs] by (simp add: b tally_def Let_def)
qed

theorem batch_promotes_each_text_once_witness:
  "\<exists>b s'. process_batch plain_world plain_config [(plain_proposal, plain_tick)] fresh_curator empty_state = (Inr b, fresh_curator, s')
     \<and> br_processed b = 1 \<and> br_rejected b = 0"
proof -
  obtain b s' where run: "process_batch plain_world plain_config [(plain_proposal, plain_tick)] fresh_curator empty_state
      = (Inr b, fresh_curator, s')" and one: "br_promoted b = 1" using plain_batch by blast
  show ?thesis using batch_promotes_each_text_once [OF empty_inv run] run one by simp
qed

end
