(* ===== verification/Resolve_Hold.thy ===== *)
theory Resolve_Hold
  imports Curator_Laws
begin

text \<open>
  How a person ends a hold, \<open>curator/src/hold/resolve-hold.ts\<close>: the standing of the resolver, the
  rejection, and the release, which sends the candidate with the chosen audience through the whole
  gate again.
\<close>

section \<open>Requests and answers\<close>

datatype resolve_refusal =
    X_missing_reason
  | X_missing_actor
  | X_not_human
  | X_forbidden_role
  | X_unknown_resolution
  | X_not_on_hold
  | X_audience_above_standing
  | X_hold_expired
  | X_missing_audience
  | X_unknown_audience
  | X_wider_than_recommended
  | X_gate_refused
  | X_still_flagged

record resolve_input =
  rs_candidate :: string
  rs_tenant :: tenant_id
  rs_resolution :: string
  rs_audience :: "string option"
  rs_acknowledge :: bool
  rs_actor :: author
  rs_role :: string
  rs_reason :: string
  rs_dry :: bool

record resolve_options =
  ro_secret :: "string option"
  ro_exclusions :: "brainignore_pattern list option"
  ro_with_links :: bool

text \<open>The answers: a rejection with its receipt, a release, a refusal and whether it closed the hold.\<close>

datatype resolve_result =
    Hold_rejected "string option"
  | Hold_released string "uuid option" bool "string option"
  | Resolve_refused resolve_refusal bool

definition resolver_roles :: "string list" where
  "resolver_roles = [''admin'', ''owner'']"

text \<open>\<open>rankOf\<close>: an unknown tier ranks as the narrowest, \<open>Number.MAX_SAFE_INTEGER\<close>.\<close>

definition max_safe_integer :: nat where
  "max_safe_integer = 9007199254740991"

definition rank_of :: "string \<Rightarrow> nat" where
  "rank_of a = (case audience_rank a of None \<Rightarrow> max_safe_integer | Some n \<Rightarrow> n)"

section \<open>The release\<close>

definition release_config :: "resolve_input \<Rightarrow> resolve_options \<Rightarrow> curator_config" where
  "release_config inp opts =
     \<lparr>cf_tenant = rs_tenant inp, cf_dry_run = rs_dry inp, cf_threshold = None, cf_report_only = False,
      cf_max_per_promotion = None, cf_max_per_run = None, cf_suppress_rejections = True,
      cf_origin_secret = ro_secret opts, cf_exclusions = ro_exclusions opts, cf_hold_limits = None,
      cf_with_links = ro_with_links opts\<rparr>"

definition new_curator :: curator_state where
  "new_curator = \<lparr>cu_cap = None, cu_applied = 0, cu_warned = [], cu_warnings = []\<rparr>"

definition released_candidate :: "memory_candidate \<Rightarrow> string \<Rightarrow> memory_candidate" where
  "released_candidate c aud = c\<lparr>cand_metadata := (cand_metadata c)\<lparr>audience := Some aud\<rparr>\<rparr>"

definition release_of :: "resolve_input \<Rightarrow> hold_release" where
  "release_of inp = \<lparr>hl_promoted_by = rs_actor inp, hl_reason = ''Released from hold: '' @ rs_reason inp\<rparr>"

definition release_details :: "resolve_input \<Rightarrow> string \<Rightarrow> bool \<Rightarrow> curation_result \<Rightarrow> (string \<times> jval) list" where
  "release_details inp aud wider r =
     [(''audience'', JStr aud), (''overridesRecommendation'', JBool wider), (''resolverRole'', JStr (rs_role inp))]
     @ (case cr_memory r of None \<Rightarrow> [] | Some i \<Rightarrow> [(''memoryId'', JStr i)])
     @ [(''resolvedFlags'', strings_json (case Option.bind (cr_verdict r) gv_flagged_by of None \<Rightarrow> [] | Some fs \<Rightarrow> fs))]"

text \<open>The body \<open>run\<close> of the transaction.\<close>

definition release_run ::
  "world \<Rightarrow> resolve_input \<Rightarrow> resolve_options \<Rightarrow> active_hold \<Rightarrow> string \<Rightarrow> bool \<Rightarrow> memory_candidate \<Rightarrow> tick \<Rightarrow> iso_datetime \<Rightarrow> store_state \<Rightarrow>
    fault + resolve_result \<times> store_state" where
  "release_run w inp opts h aud wider released tk now s =
     and_then (process_single w (release_config inp opts) released None (Some (release_of inp)) tk new_curator s) (\<lambda>(r, cu, s1).
       if cr_outcome r \<noteq> C_promoted
       then Inr (Resolve_refused (if cr_outcome r = C_flagged \<and> cr_verdict r \<noteq> None then X_still_flagged else X_gate_refused) False, s1)
       else if rs_dry inp then Inr (Hold_released aud (cr_memory r) wider None, s1)
       else and_then (write_hold_resolved w h Released (rs_actor inp) (rs_reason inp) (release_details inp aud wider r) now
                        (set_status (rs_candidate inp) Promoted (rs_tenant inp) s1)) (\<lambda>(receipt, s2).
         Inr (Hold_released aud (cr_memory r) wider (Some receipt), s2)))"

definition release_hold ::
  "world \<Rightarrow> resolve_input \<Rightarrow> resolve_options \<Rightarrow> active_hold \<Rightarrow> tick \<Rightarrow> iso_datetime \<Rightarrow> store_state \<Rightarrow> fault + resolve_result \<times> store_state" where
  "release_hold w inp opts h tk now s =
     (case rs_audience inp of
        None \<Rightarrow> Inr (Resolve_refused X_missing_audience False, s)
      | Some aud \<Rightarrow>
          if js_trim aud = [] then Inr (Resolve_refused X_missing_audience False, s)
          else if parse_enum audience_options audience_name aud = None then Inr (Resolve_refused X_unknown_audience False, s)
          else if rank_of aud < rank_of (ah_recommended h) \<and> \<not> rs_acknowledge inp
          then Inr (Resolve_refused X_wider_than_recommended False, s)
          else and_then (find_candidate (w_formats w) (rs_candidate inp) (st_candidates s)) (\<lambda>found.
            case found of
              None \<Rightarrow> Inr (Resolve_refused X_not_on_hold False, s)
            | Some stored \<Rightarrow>
                (case schema_candidate (w_formats w) (released_candidate stored aud) of
                   None \<Rightarrow> Inl (Schema_refused ''MemoryCandidate'')
                 | Some released \<Rightarrow>
                     (case assert_disclosure_clean (w_scan w) released of
                        Inl (Disclosure_rejected _) \<Rightarrow> Inr (Resolve_refused X_gate_refused False, s)
                      | Inl e \<Rightarrow> Inl e
                      | Inr _ \<Rightarrow> release_run w inp opts h aud (rank_of aud < rank_of (ah_recommended h)) released tk now s))))"

section \<open>The resolution\<close>

definition reject_hold ::
  "world \<Rightarrow> resolve_input \<Rightarrow> active_hold \<Rightarrow> iso_datetime \<Rightarrow> store_state \<Rightarrow> fault + resolve_result \<times> store_state" where
  "reject_hold w inp h now s =
     (if rs_dry inp then Inr (Hold_rejected None, s)
      else and_then (write_hold_resolved w h Rejected_by_human (rs_actor inp) (rs_reason inp)
                       [(''resolverRole'', JStr (rs_role inp))] now
                       (set_status (rs_candidate inp) Rejected (rs_tenant inp) s)) (\<lambda>(receipt, s').
        Inr (Hold_rejected (Some receipt), s')))"

definition resolve_hold ::
  "world \<Rightarrow> resolve_input \<Rightarrow> resolve_options \<Rightarrow> tick \<Rightarrow> iso_datetime \<Rightarrow> store_state \<Rightarrow> fault + resolve_result \<times> store_state" where
  "resolve_hold w inp opts tk now s =
     (if js_trim (rs_reason inp) = [] then Inr (Resolve_refused X_missing_reason False, s)
      else if js_trim (author_id (rs_actor inp)) = [] then Inr (Resolve_refused X_missing_actor False, s)
      else if author_kind (rs_actor inp) \<noteq> Human then Inr (Resolve_refused X_not_human False, s)
      else if rs_role inp \<notin> set resolver_roles then Inr (Resolve_refused X_forbidden_role False, s)
      else if rs_resolution inp \<noteq> ''release'' \<and> rs_resolution inp \<noteq> ''reject''
      then Inr (Resolve_refused X_unknown_resolution False, s)
      else and_then (find_active_hold w (rs_candidate inp) (rs_tenant inp) now s) (\<lambda>found.
        case found of
          None \<Rightarrow> Inr (Resolve_refused X_not_on_hold False, s)
        | Some h \<Rightarrow>
            if \<not> is_audience_visible_to_role (Some (ah_declared h)) (Some (rs_role inp))
            then Inr (Resolve_refused X_audience_above_standing False, s)
            else if ah_expired h
            then (if rs_dry inp then Inr (Resolve_refused X_hold_expired False, s)
                  else and_then (expire_hold w h now s) (\<lambda>(_, s'). Inr (Resolve_refused X_hold_expired True, s')))
            else if rs_resolution inp = ''reject'' then reject_hold w inp h now s
            else release_hold w inp opts h tk now s))"

section \<open>Runs\<close>

text \<open>With a release no hold is placed, so the limits play no part.\<close>

lemma limits_unused:
  "policy_of (cf\<lparr>cf_hold_limits := limits\<rparr>) s = policy_of cf s"
  "evaluate_policy w (cf\<lparr>cf_hold_limits := limits\<rparr>) c p hashes minimum s = evaluate_policy w cf c p hashes minimum s"
  "withheld (cf\<lparr>cf_hold_limits := limits\<rparr>) cu plan = withheld cf cu plan"
  by (simp_all add: policy_of_def evaluate_policy_def active_lookup_def withheld_def cong: option.case_cong)

lemma promote_one_limits:
  "promote_one w (cf\<lparr>cf_hold_limits := limits\<rparr>) c h res rel released minimum tk cu s =
     promote_one w cf c h res rel released minimum tk cu s"
  by (simp add: promote_one_def promote_planned_def limits_unused)

lemma decide_limits:
  "decide w (cf\<lparr>cf_hold_limits := limits\<rparr>) c h (Some rel) minimum suppress policy res tk cu s =
     decide w cf c h (Some rel) minimum suppress policy res tk cu s"
  by (simp add: decide_def promote_one_limits)

lemma gate_limits:
  "gate_and_decide w (cf\<lparr>cf_hold_limits := limits\<rparr>) c h hashes (Some rel) minimum tk cu s =
     gate_and_decide w cf c h hashes (Some rel) minimum tk cu s"
  by (simp add: gate_and_decide_def Let_def decide_limits limits_unused
      cong: option.case_cong origin_verdict.case_cong import_verdict.case_cong)

lemma release_ignores_limits:
  "process_single w (cf\<lparr>cf_hold_limits := limits\<rparr>) c hashes (Some rel) tk cu s = process_single w cf c hashes (Some rel) tk cu s"
  unfolding process_single_def gate_limits by simp

lemma release_settles:
  assumes "state_ok w s" "process_single w cf c hashes (Some rel) tk cu s = Inr (r, cu', s')"
  shows "gov_steps w limits s s'" "st_candidates s' = st_candidates s \<or> cr_outcome r = C_held"
proof -
  have "process_single w (cf\<lparr>cf_hold_limits := limits\<rparr>) c hashes (Some rel) tk cu s = Inr (r, cu', s')"
    using assms(2) release_ignores_limits by simp
  from process_single_settles [OF assms(1) this]
  show "gov_steps w limits s s'" "st_candidates s' = st_candidates s \<or> cr_outcome r = C_held" by (auto simp: settles_def)
qed

text \<open>A release that is turned away has written nothing: its rejection receipts are suppressed.\<close>

lemma turn_away_suppressed: "turn_away w c out v True tk cu s = Inr (r, cu', s') \<Longrightarrow> s' = s"
  by (auto simp: turn_away_def reject_def)

lemma release_turned_away:
  assumes "state_ok w s" "process_single w cf c hashes (Some rel) tk cu s = Inr (r, cu', s')" "cr_outcome r \<noteq> C_promoted"
  shows "s' = s"
  using assms(2)
proof (cases rule: single_cases)
  case (Fresh minimum)
  from Fresh(5) show ?thesis
  proof (cases rule: gate_cases)
    case (Refused v suppress)
    then show ?thesis using turn_away_suppressed by auto
  next
    case (Decided res suppress cu1)
    then show ?thesis
      using assms(3) unfolding decide_def
      by (auto split: if_split_asm dest: turn_away_suppressed promote_one_settles [OF assms(1)])
  qed
qed

end
