(* ===== verification/Resolve_Laws.thy ===== *)
theory Resolve_Laws
  imports Resolve_Hold
begin

text \<open>
  What the resolution of a hold guarantees: only a person with standing ends one, a release is no
  bypass of the gate, the memory carries the audience the person chose, and a refusal writes nothing.
\<close>

section \<open>The log as it is read\<close>

lemma step_events:
  assumes "gov_step w limits s s'" "state_ok w s"
  shows "\<exists>new. events_of w s' = events_of w s @ new"
  using assms(1)
proof cases
  case (gs_place c d dry tb now res)
  show ?thesis
  proof (cases "\<exists>h. res = Held h")
    case True
    then obtain h where placed: "place_hold w c d limits dry tb now s = Inr (Held h, s')" using gs_place by auto
    show ?thesis by (rule placed_effect [OF assms(2) placed]) blast
  next
    case False
    then have "s' = s" using not_held_unchanged [OF gs_place] by blast
    then show ?thesis by simp
  qed
next
  case (gs_receipt e)
  then show ?thesis using write_event_ok [OF assms(2) gs_receipt(1,3)] by blast
qed simp_all

lemma steps_ok: "gov_steps w limits s s' \<Longrightarrow> state_ok w s \<Longrightarrow> state_ok w s'"
  by (induction rule: gov_steps.induct) (auto intro: step_state_ok)

lemma steps_events: "gov_steps w limits s s' \<Longrightarrow> state_ok w s \<Longrightarrow> \<exists>new. events_of w s' = events_of w s @ new"
proof (induction rule: gov_steps.induct)
  case (gs_trans s s1 s2)
  then show ?case using step_events [OF gs_trans.hyps(2) steps_ok [OF gs_trans.hyps(1)]] by fastforce
qed simp

section \<open>Closing a hold\<close>

lemma resolved_keys:
  "json_distinct (JObj details) \<Longrightarrow> json_distinct (JObj (ev_details (resolved_event w h res actor reason details now)))"
  unfolding resolved_event_def audit_event.select_convs by (rule spread_distinct) simp_all

lemma release_details_keys: "json_distinct (JObj (release_details inp aud wider r))"
  by (auto simp: release_details_def split: option.split)

text \<open>A status that is not \<open>quarantined\<close> and the receipt: the hold is over, in two steps.\<close>

lemma closing:
  assumes ok: "state_ok w s" and keys: "json_distinct (JObj details)" and st: "st \<noteq> Quarantined"
    and wr: "write_hold_resolved w h res actor reason details now (set_status i st tn s) = Inr (receipt, s')"
  shows "gov_steps w limits s s' \<and> state_ok w s' \<and> st_memories s' = st_memories s
    \<and> (\<exists>x. events_of w s' = events_of w s @ [x] \<and> ev_action x = A_hold_resolved \<and> ev_memory_id x = ah_candidate h)
    \<and> cand w s' i = map_option (\<lambda>c. if cand_tenant c = tn then c\<lparr>cand_status := st\<rparr> else c) (cand w s i)
    \<and> find_active_hold w i tn t s' = Inr None"
proof -
  let ?e = "resolved_event w h res actor reason details now"
  have wr': "write_event w ?e (set_status i st tn s) = Inr s'"
    using wr by (auto simp: write_hold_resolved_def and_then_Inr)
  obtain x where x: "receipt_of w ?e x" "state_ok w s'" "events_of w s' = events_of w s @ [x]"
      "st_candidates s' = st_candidates (set_status i st tn s)" "st_memories s' = st_memories s"
    using write_event_ok [OF set_status_ok [OF ok] wr' resolved_keys [OF keys]] unfolding set_status_parts by blast
  have "gov_step w limits (set_status i st tn s) s'"
    by (rule gs_receipt [OF wr' _ resolved_keys [OF keys]]) simp
  then have steps: "gov_steps w limits s s'" by (rule gs_trans [OF gs_one [OF gs_status [OF st]]])
  have view: "cand w s' i = map_option (\<lambda>c. if cand_tenant c = tn then c\<lparr>cand_status := st\<rparr> else c) (cand w s i)"
    using set_status_view [OF ok, of i st tn i] unfolding x(4) by simp
  have "held_candidate w i tn s' = None"
    using st by (auto simp: held_candidate_def find_candidate_safe_ok [OF x(2)] view split: option.split)
  then show ?thesis
    using steps x view receipt_fields [OF x(1)] by (auto simp: find_active_hold_def)
qed

section \<open>The release\<close>

lemma active_hold_parts:
  assumes "state_ok w s" "find_active_hold w i tn now s = Inr (Some h)"
  shows "\<exists>c. cand w s i = Some c \<and> cand_tenant c = tn \<and> cand_status c = Quarantined \<and> ah_candidate h = i"
proof -
  obtain c where c: "held_candidate w i tn s = Some c" and h: "ah_candidate h = cand_id c"
    using assms(2) by (auto simp: find_active_hold_def to_active_hold_def Let_def and_then_Inr split: option.splits if_splits)
  have "cand w s i = Some c \<and> cand_tenant c = tn \<and> cand_status c = Quarantined"
    using c by (simp add: held_candidate_iff [OF assms(1)])
  then show ?thesis using cand_wf [OF assms(1)] h by blast
qed

lemma active_hold_tenant:
  assumes "find_active_hold w i tn now s = Inr (Some h)"
  shows "ah_tenant h = tn"
proof -
  obtain c where c: "held_candidate w i tn s = Some c" and h: "ah_tenant h = cand_tenant c"
    using assms by (auto simp: find_active_hold_def to_active_hold_def Let_def and_then_Inr split: option.splits if_splits)
  show ?thesis using c h by (simp add: held_candidate_def split: option.splits if_splits)
qed

lemma schema_candidate_kept:
  "schema_candidate fmt c = Some r \<Longrightarrow> cand_metadata r = cand_metadata c \<and> cand_id r = cand_id c"
  by (auto simp: schema_candidate_def split: Option.bind_splits if_splits)

definition released_memory :: "world \<Rightarrow> resolve_input \<Rightarrow> string \<Rightarrow> uuid option \<Rightarrow> store_state \<Rightarrow> bool" where
  "released_memory w inp aud mid s' \<longleftrightarrow>
     (\<exists>m. mid = Some (mem_id m) \<and> mem_view w s' (mem_id m) = Some m \<and> mem_lifecycle m = Active
        \<and> mem_candidate_id m = rs_candidate inp \<and> audience (mem_metadata m) = Some aud)"

lemma release_run_effect:
  assumes ok: "state_ok w s" and hold: "find_active_hold w (rs_candidate inp) (rs_tenant inp) t s = Inr (Some h)"
    and rel: "cand_id released = rs_candidate inp" "audience (cand_metadata released) = Some aud"
    and run: "release_run w inp opts h aud wider released tk now s = Inr (ans, s')"
  shows "gov_steps w limits s s'
    \<and> ((\<exists>x. ans = Resolve_refused x False) \<and> s' = s
       \<or> rs_dry inp \<and> s' = s \<and> (\<exists>mid. ans = Hold_released aud mid wider None)
       \<or> \<not> rs_dry inp \<and> (\<exists>mid receipt. ans = Hold_released aud mid wider (Some receipt) \<and> released_memory w inp aud mid s')
          \<and> (\<exists>pre x. events_of w s' = events_of w s @ pre @ [x] \<and> ev_action x = A_hold_resolved \<and> ev_memory_id x = rs_candidate inp)
          \<and> map_option cand_status (cand w s' (rs_candidate inp)) = Some Promoted
          \<and> find_active_hold w (rs_candidate inp) (rs_tenant inp) t s' = Inr None)"
proof -
  obtain r cu s1 where single: "process_single w (release_config inp opts) released None (Some (release_of inp)) tk new_curator s = Inr (r, cu, s1)"
    and rest: "(if cr_outcome r \<noteq> C_promoted
       then Inr (Resolve_refused (if cr_outcome r = C_flagged \<and> cr_verdict r \<noteq> None then X_still_flagged else X_gate_refused) False, s1)
       else if rs_dry inp then Inr (Hold_released aud (cr_memory r) wider None, s1)
       else and_then (write_hold_resolved w h Released (rs_actor inp) (rs_reason inp) (release_details inp aud wider r) now
                        (set_status (rs_candidate inp) Promoted (rs_tenant inp) s1)) (\<lambda>(receipt, s2).
         Inr (Hold_released aud (cr_memory r) wider (Some receipt), s2))) = Inr (ans, s')"
    using run by (auto simp: release_run_def and_then_Inr)
  have steps: "gov_steps w limits s s1" by (rule release_settles(1) [OF ok single])
  have settled: "settles w (release_config inp opts) released new_curator s r cu s1" by (rule process_single_settles [OF ok single])
  show ?thesis
  proof (cases "cr_outcome r = C_promoted")
    case False
    then have "s1 = s" by (rule release_turned_away [OF ok single])
    then show ?thesis using rest False gs_refl by auto
  next
    case True
    show ?thesis
    proof (cases "rs_dry inp")
      case dry: True
      then have "s1 = s" using settled by (simp add: settles_def release_config_def)
      then show ?thesis using rest True dry gs_refl by auto
    next
      case False
      then obtain receipt where
        wr: "write_hold_resolved w h Released (rs_actor inp) (rs_reason inp) (release_details inp aud wider r) now
              (set_status (rs_candidate inp) Promoted (rs_tenant inp) s1) = Inr (receipt, s')"
        and ans: "ans = Hold_released aud (cr_memory r) wider (Some receipt)"
        using rest True by (auto simp: and_then_Inr)
      have ok1: "state_ok w s1" by (rule steps_ok [OF steps ok])
      obtain c where c: "cand w s (rs_candidate inp) = Some c" "cand_tenant c = rs_tenant inp" "ah_candidate h = rs_candidate inp"
        using active_hold_parts [OF ok hold] by blast
      have same: "st_candidates s1 = st_candidates s" using settled True by (simp add: settles_def)
      note cl = closing [OF ok1 release_details_keys candidate_status.distinct(17) wr, of limits t]
      obtain pre where "events_of w s1 = events_of w s @ pre" using steps_events [OF steps ok] by blast
      then have "\<exists>pre x. events_of w s' = events_of w s @ pre @ [x] \<and> ev_action x = A_hold_resolved \<and> ev_memory_id x = rs_candidate inp"
        using cl c(3) by auto
      moreover have "released_memory w inp aud (cr_memory r) s'"
      proof -
        obtain minimum where "promotion_stored w released minimum r s s1"
          by (rule single_promoted [OF ok single True], rule that, rule promote_one_stored [OF ok])
            (use False in \<open>simp_all add: release_config_def\<close>)
        then show ?thesis using rel cl by (auto simp: promotion_stored_def released_memory_def)
      qed
      moreover have "map_option cand_status (cand w s' (rs_candidate inp)) = Some Promoted"
        using cl c same by simp
      moreover have "gov_steps w limits s s'" using gs_append [OF conjunct1 [OF cl] steps] .
      ultimately show ?thesis using cl False ans by blast
    qed
  qed
qed

text \<open>A release that got as far as the gate.\<close>

definition release_permitted :: "world \<Rightarrow> resolve_input \<Rightarrow> active_hold \<Rightarrow> string \<Rightarrow> store_state \<Rightarrow> bool" where
  "release_permitted w inp h aud s \<longleftrightarrow>
     rs_audience inp = Some aud \<and> audience_rank aud \<noteq> None
     \<and> (rank_of aud < rank_of (ah_recommended h) \<longrightarrow> rs_acknowledge inp)
     \<and> (\<exists>c released. cand w s (rs_candidate inp) = Some c
          \<and> schema_candidate (w_formats w) (released_candidate c aud) = Some released
          \<and> (\<forall>t \<in> set (candidate_texts released). w_scan w t = None))"

lemma release_hold_cases:
  assumes ok: "state_ok w s" and hold: "find_active_hold w (rs_candidate inp) (rs_tenant inp) t s = Inr (Some h)"
    and run: "release_hold w inp opts h tk now s = Inr (ans, s')"
  obtains (Refused) x where "ans = Resolve_refused x False" "s' = s"
  | (Run) aud released where "release_permitted w inp h aud s"
      "cand_id released = rs_candidate inp" "audience (cand_metadata released) = Some aud"
      "release_run w inp opts h aud (rank_of aud < rank_of (ah_recommended h)) released tk now s = Inr (ans, s')"
proof -
  obtain c where c: "cand w s (rs_candidate inp) = Some c" using active_hold_parts [OF ok hold] by blast
  have found: "find_candidate (w_formats w) (rs_candidate inp) (st_candidates s) = Inr (Some c)"
    using c find_candidate_ok [OF state_ok_parts(1) [OF ok]] by simp
  show thesis
  proof (cases "\<exists>x. ans = Resolve_refused x False \<and> s' = s")
    case True
    then show thesis using Refused by blast
  next
    case False
    then obtain aud released where aud: "rs_audience inp = Some aud" "parse_enum audience_options audience_name aud \<noteq> None"
        "rank_of aud < rank_of (ah_recommended h) \<longrightarrow> rs_acknowledge inp"
      and rel: "schema_candidate (w_formats w) (released_candidate c aud) = Some released"
        "assert_disclosure_clean (w_scan w) released = Inr ()"
      and body: "release_run w inp opts h aud (rank_of aud < rank_of (ah_recommended h)) released tk now s = Inr (ans, s')"
      using run found by (auto simp: release_hold_def split: option.splits if_splits sum.splits fault.splits)
    have permitted: "release_permitted w inp h aud s"
      using aud rel c disclosure_clean_iff audience_rank_vocabulary by (auto simp: release_permitted_def)
    have "cand_id c = rs_candidate inp" using cand_wf [OF ok c] by simp
    then have "cand_id released = rs_candidate inp" "audience (cand_metadata released) = Some aud"
      using schema_candidate_kept [OF rel(1)] by (simp_all add: released_candidate_def)
    then show thesis by (rule Run [OF permitted _ _ body])
  qed
qed

section \<open>The resolution\<close>

text \<open>The standing every resolution needs.\<close>

definition has_standing :: "world \<Rightarrow> resolve_input \<Rightarrow> iso_datetime \<Rightarrow> active_hold \<Rightarrow> store_state \<Rightarrow> bool" where
  "has_standing w inp now h s \<longleftrightarrow>
     js_trim (rs_reason inp) \<noteq> [] \<and> js_trim (author_id (rs_actor inp)) \<noteq> [] \<and> author_kind (rs_actor inp) = Human
     \<and> (rs_role inp = ''admin'' \<or> rs_role inp = ''owner'')
     \<and> find_active_hold w (rs_candidate inp) (rs_tenant inp) now s = Inr (Some h)
     \<and> is_audience_visible_to_role (Some (ah_declared h)) (Some (rs_role inp))"

lemma resolve_cases:
  assumes run: "resolve_hold w inp opts tk now s = Inr (ans, s')"
  obtains (Refused) x where "ans = Resolve_refused x False" "s' = s"
  | (Elapsed) h receipt where "has_standing w inp now h s" "ah_expired h" "\<not> rs_dry inp" "expire_hold w h now s = Inr (receipt, s')"
      "ans = Resolve_refused X_hold_expired True"
  | (Reject) h where "has_standing w inp now h s" "\<not> ah_expired h" "rs_resolution inp = ''reject''"
      "reject_hold w inp h now s = Inr (ans, s')"
  | (Release) h where "has_standing w inp now h s" "\<not> ah_expired h" "rs_resolution inp = ''release''"
      "release_hold w inp opts h tk now s = Inr (ans, s')"
proof (cases "\<exists>x. ans = Resolve_refused x False \<and> s' = s")
  case True
  then show thesis using Refused by blast
next
  case False
  then have no: "ans \<noteq> Resolve_refused x False \<or> s' \<noteq> s" for x by blast
  note go = run [unfolded resolve_hold_def]
  have g1: "js_trim (rs_reason inp) \<noteq> []" using go no by (simp split: if_split_asm) blast
  have g2: "js_trim (author_id (rs_actor inp)) \<noteq> []" using go no g1 by (simp split: if_split_asm) blast
  have g3: "author_kind (rs_actor inp) = Human" using go no g1 g2 by (simp split: if_split_asm) blast
  have g4: "rs_role inp \<in> set resolver_roles" using go no g1 g2 g3 by (simp split: if_split_asm) blast
  have kind: "rs_resolution inp = ''release'' \<or> rs_resolution inp = ''reject''"
    using go no g1 g2 g3 g4 by (simp split: if_split_asm) blast
  obtain found where found: "find_active_hold w (rs_candidate inp) (rs_tenant inp) now s = Inr found"
    and body: "(case found of
          None \<Rightarrow> Inr (Resolve_refused X_not_on_hold False, s)
        | Some h \<Rightarrow>
            if \<not> is_audience_visible_to_role (Some (ah_declared h)) (Some (rs_role inp))
            then Inr (Resolve_refused X_audience_above_standing False, s)
            else if ah_expired h
            then (if rs_dry inp then Inr (Resolve_refused X_hold_expired False, s)
                  else and_then (expire_hold w h now s) (\<lambda>(_, s'). Inr (Resolve_refused X_hold_expired True, s')))
            else if rs_resolution inp = ''reject'' then reject_hold w inp h now s
            else release_hold w inp opts h tk now s) = Inr (ans, s')"
    using go g1 g2 g3 g4 kind unfolding and_then_Inr
    by (auto simp: and_then_Inr split: if_split_asm)
  obtain h where h: "found = Some h" using body no by (cases found) auto
  have vis: "is_audience_visible_to_role (Some (ah_declared h)) (Some (rs_role inp))"
    using body no unfolding h by (simp split: if_split_asm) blast
  have stand: "has_standing w inp now h s"
    using g1 g2 g3 g4 found vis unfolding h has_standing_def resolver_roles_def by simp
  have rest: "(if ah_expired h
            then (if rs_dry inp then Inr (Resolve_refused X_hold_expired False, s)
                  else and_then (expire_hold w h now s) (\<lambda>(_, s'). Inr (Resolve_refused X_hold_expired True, s')))
            else if rs_resolution inp = ''reject'' then reject_hold w inp h now s
            else release_hold w inp opts h tk now s) = Inr (ans, s')"
    using body vis unfolding h by simp
  show thesis
  proof (cases "ah_expired h")
    case True
    then obtain receipt where "expire_hold w h now s = Inr (receipt, s')" "ans = Resolve_refused X_hold_expired True" "\<not> rs_dry inp"
      using rest False by (auto simp: and_then_Inr split: if_split_asm)
    then show thesis using Elapsed [OF stand True] by blast
  next
    case False
    then show thesis using rest kind Reject [OF stand False] Release [OF stand False] by (auto split: if_split_asm)
  qed
qed

text \<open>Whatever comes of it, a resolution is a sequence of governance steps.\<close>

lemma reject_hold_effect:
  assumes ok: "state_ok w s" and run: "reject_hold w inp h now s = Inr (ans, s')" and dry: "\<not> rs_dry inp"
  shows "gov_steps w limits s s' \<and> st_memories s' = st_memories s
    \<and> (\<exists>receipt. ans = Hold_rejected (Some receipt))
    \<and> (\<exists>x. events_of w s' = events_of w s @ [x] \<and> ev_action x = A_hold_resolved \<and> ev_memory_id x = ah_candidate h)
    \<and> cand w s' (rs_candidate inp) = map_option (\<lambda>c. if cand_tenant c = rs_tenant inp then c\<lparr>cand_status := Rejected\<rparr> else c) (cand w s (rs_candidate inp))
    \<and> find_active_hold w (rs_candidate inp) (rs_tenant inp) t s' = Inr None"
proof -
  obtain receipt where wr: "write_hold_resolved w h Rejected_by_human (rs_actor inp) (rs_reason inp)
      [(''resolverRole'', JStr (rs_role inp))] now (set_status (rs_candidate inp) Rejected (rs_tenant inp) s) = Inr (receipt, s')"
    and ans: "ans = Hold_rejected (Some receipt)"
    using run dry by (auto simp: reject_hold_def and_then_Inr)
  have "json_distinct (JObj [(''resolverRole'', JStr (rs_role inp))])" by simp
  from closing [OF ok this _ wr] show ?thesis using ans by auto
qed

lemma expire_hold_effect:
  assumes ok: "state_ok w s" and run: "expire_hold w h now s = Inr (receipt, s')"
  shows "gov_steps w limits s s' \<and> st_memories s' = st_memories s
    \<and> cand w s' (ah_candidate h) = map_option (\<lambda>c. if cand_tenant c = ah_tenant h then c\<lparr>cand_status := Rejected\<rparr> else c) (cand w s (ah_candidate h))
    \<and> find_active_hold w (ah_candidate h) (ah_tenant h) t s' = Inr None"
proof -
  have "json_distinct (JObj [(''expiresAt'', JStr (ah_expires_at h))])" by simp
  from closing [OF ok this _ run [unfolded expire_hold_def]] show ?thesis by auto
qed

lemma resolve_steps:
  assumes ok: "state_ok w s" and run: "resolve_hold w inp opts tk now s = Inr (ans, s')"
  shows "gov_steps w limits s s'"
  using run
proof (cases rule: resolve_cases)
  case Refused
  then show ?thesis by (simp add: gs_refl)
next
  case (Elapsed h receipt)
  show ?thesis using expire_hold_effect [OF ok Elapsed(4)] by blast
next
  case (Reject h)
  show ?thesis
  proof (cases "rs_dry inp")
    case True
    then show ?thesis using Reject(4) by (simp add: reject_hold_def gs_refl)
  next
    case False
    then show ?thesis using reject_hold_effect [OF ok Reject(4)] by blast
  qed
next
  case (Release h)
  then have hold: "find_active_hold w (rs_candidate inp) (rs_tenant inp) now s = Inr (Some h)" by (simp add: has_standing_def)
  show ?thesis
    using ok hold Release(4)
  proof (cases rule: release_hold_cases)
    case Refused
    then show ?thesis by (simp add: gs_refl)
  next
    case (Run aud released)
    then show ?thesis using release_run_effect [OF ok hold Run(2-4)] by blast
  qed
qed

text \<open>
  C18. A hold ends by a person with standing, and a release is no bypass. Whenever \<open>resolveHold\<close> answers
  with anything but a refusal, the resolver is a named human acting as admin or owner who gave a
  reason and is cleared for the audience the candidate declares, and the hold was open and not
  elapsed. A dry run then changed nothing. A rejection leaves every memory as it was and the
  candidate rejected. A release went out with a known audience that the person chose, no wider than
  recommended unless acknowledged, and with no text the disclosure scanner refuses; the memory it
  reports stands in the database, active, with exactly that audience, and the candidate is
  promoted. Both leave the hold closed, with its \<open>hold_resolved\<close> receipt as the last event.
\<close>

theorem resolution_needs_a_person:
  assumes "state_ok w s" "resolve_hold w inp opts tk now s = Inr (ans, s')" "\<nexists>x e. ans = Resolve_refused x e"
  shows "\<exists>h. has_standing w inp now h s \<and> \<not> ah_expired h
    \<and> (rs_dry inp \<longrightarrow> s' = s)
    \<and> (\<forall>receipt. ans = Hold_rejected receipt \<longrightarrow> st_memories s' = st_memories s
         \<and> (\<not> rs_dry inp \<longrightarrow> map_option cand_status (cand w s' (rs_candidate inp)) = Some Rejected))
    \<and> (\<forall>aud mid wider receipt. ans = Hold_released aud mid wider receipt \<longrightarrow> release_permitted w inp h aud s
         \<and> (\<not> rs_dry inp \<longrightarrow> released_memory w inp aud mid s' \<and> map_option cand_status (cand w s' (rs_candidate inp)) = Some Promoted))
    \<and> (\<not> rs_dry inp \<longrightarrow> find_active_hold w (rs_candidate inp) (rs_tenant inp) now s' = Inr None
         \<and> (\<exists>pre x. events_of w s' = events_of w s @ pre @ [x] \<and> ev_action x = A_hold_resolved \<and> ev_memory_id x = rs_candidate inp))"
  using assms(2)
proof (cases rule: resolve_cases)
  case (Reject h)
  then have hold: "find_active_hold w (rs_candidate inp) (rs_tenant inp) now s = Inr (Some h)" by (simp add: has_standing_def)
  obtain c where c: "cand w s (rs_candidate inp) = Some c" "cand_tenant c = rs_tenant inp" "ah_candidate h = rs_candidate inp"
    using active_hold_parts [OF assms(1) hold] by blast
  show ?thesis
  proof (cases "rs_dry inp")
    case True
    then have "ans = Hold_rejected None \<and> s' = s" using Reject(4) by (simp add: reject_hold_def)
    then show ?thesis using Reject(1,2) True by blast
  next
    case False
    note e = reject_hold_effect [OF assms(1) Reject(4) False, of _ now]
    have "map_option cand_status (cand w s' (rs_candidate inp)) = Some Rejected" using e c by simp
    moreover have "\<exists>pre x. events_of w s' = events_of w s @ pre @ [x] \<and> ev_action x = A_hold_resolved \<and> ev_memory_id x = rs_candidate inp"
      using e c(3) by (metis append_Nil)
    ultimately show ?thesis using e Reject(1,2) False by blast
  qed
next
  case (Release h)
  then have hold: "find_active_hold w (rs_candidate inp) (rs_tenant inp) now s = Inr (Some h)" by (simp add: has_standing_def)
  show ?thesis
    using assms(1) hold Release(4)
  proof (cases rule: release_hold_cases)
    case Refused
    then show ?thesis using assms(3) by blast
  next
    case (Run aud released)
    note e = release_run_effect [OF assms(1) hold Run(2-4)]
    show ?thesis
    proof (cases "rs_dry inp")
      case True
      then obtain mid wider where "ans = Hold_released aud mid wider None" "s' = s" using e assms(3) by blast
      then show ?thesis using Run(1) Release(1,2) True by (intro exI [of _ h]) simp
    next
      case False
      then obtain mid wider receipt where "ans = Hold_released aud mid wider (Some receipt)" "released_memory w inp aud mid s'"
        using e assms(3) by blast
      then show ?thesis using e assms(3) Run(1) Release(1,2) False by (intro exI [of _ h]) simp
    qed
  qed
qed (use assms(3) in blast)+

text \<open>
  A refusal keeps the hold. A refused resolution changes nothing, with one exception: past its bound
  the hold is closed to the safe default, which leaves every memory as it was and the candidate
  rejected and off the queue. A model, a member or an unnamed actor is always refused.
\<close>

theorem refusal_keeps_the_hold:
  assumes "state_ok w s"
  shows "(resolve_hold w inp opts tk now s = Inr (Resolve_refused x shut, s') \<longrightarrow>
      (\<not> shut \<longrightarrow> s' = s)
      \<and> (shut \<longrightarrow> x = X_hold_expired \<and> \<not> rs_dry inp \<and> st_memories s' = st_memories s
           \<and> map_option cand_status (cand w s' (rs_candidate inp)) = Some Rejected
           \<and> find_active_hold w (rs_candidate inp) (rs_tenant inp) now s' = Inr None))
    \<and> (author_kind (rs_actor inp) \<noteq> Human \<or> rs_role inp \<notin> {''admin'', ''owner''} \<or> js_trim (author_id (rs_actor inp)) = [] \<longrightarrow>
        (\<exists>y. resolve_hold w inp opts tk now s = Inr (Resolve_refused y False, s)))"
proof (intro conjI impI)
  assume run: "resolve_hold w inp opts tk now s = Inr (Resolve_refused x shut, s')"
  have "(\<not> shut \<and> s' = s) \<or> shut \<and> x = X_hold_expired \<and> \<not> rs_dry inp \<and> st_memories s' = st_memories s
      \<and> map_option cand_status (cand w s' (rs_candidate inp)) = Some Rejected
      \<and> find_active_hold w (rs_candidate inp) (rs_tenant inp) now s' = Inr None"
    using run
  proof (cases rule: resolve_cases)
    case (Elapsed h receipt)
    then have hold: "find_active_hold w (rs_candidate inp) (rs_tenant inp) now s = Inr (Some h)" by (simp add: has_standing_def)
    obtain c where c: "cand w s (rs_candidate inp) = Some c" "cand_tenant c = rs_tenant inp" "ah_candidate h = rs_candidate inp"
      using active_hold_parts [OF assms hold] by blast
    have tn: "ah_tenant h = rs_tenant inp" by (rule active_hold_tenant [OF hold])
    show ?thesis using expire_hold_effect [OF assms Elapsed(4), of _ now] c tn Elapsed(3,5) by simp
  next
    case (Reject h)
    then show ?thesis by (auto simp: reject_hold_def and_then_Inr split: if_split_asm)
  next
    case (Release h)
    then have hold: "find_active_hold w (rs_candidate inp) (rs_tenant inp) now s = Inr (Some h)" by (simp add: has_standing_def)
    show ?thesis
      using assms hold Release(4)
    proof (cases rule: release_hold_cases)
      case (Run aud released)
      then show ?thesis using release_run_effect [OF assms hold Run(2-4)] by auto
    qed auto
  qed auto
  then show "\<not> shut \<Longrightarrow> s' = s" "shut \<Longrightarrow> x = X_hold_expired" "shut \<Longrightarrow> \<not> rs_dry inp"
    "shut \<Longrightarrow> st_memories s' = st_memories s"
    "shut \<Longrightarrow> map_option cand_status (cand w s' (rs_candidate inp)) = Some Rejected"
    "shut \<Longrightarrow> find_active_hold w (rs_candidate inp) (rs_tenant inp) now s' = Inr None" by blast+
next
  assume "author_kind (rs_actor inp) \<noteq> Human \<or> rs_role inp \<notin> {''admin'', ''owner''} \<or> js_trim (author_id (rs_actor inp)) = []"
  then show "\<exists>y. resolve_hold w inp opts tk now s = Inr (Resolve_refused y False, s)"
    by (auto simp: resolve_hold_def resolver_roles_def)
qed

section \<open>Two concrete resolutions\<close>

text \<open>A world where the hold of \<open>held_state\<close> has not elapsed, and an admin who answers.\<close>

definition open_world :: world where
  "open_world = plain_world\<lparr>w_date_parse := (\<lambda>t. Some (if t = ''then'' then 1 else 0))\<rparr>"

definition admin_rejects :: resolve_input where
  "admin_rejects = \<lparr>rs_candidate = ''c1'', rs_tenant = ''team'', rs_resolution = ''reject'', rs_audience = None,
     rs_acknowledge = False, rs_actor = plain_author, rs_role = ''admin'', rs_reason = ''noise'', rs_dry = False\<rparr>"

definition plain_options :: resolve_options where
  "plain_options = \<lparr>ro_secret = None, ro_exclusions = None, ro_with_links = False\<rparr>"

lemma open_world_simps [simp]:
  "w_formats open_world = any_format" "w_sha256 open_world = (\<lambda>t. t)" "w_sha1 open_world = w_sha1 plain_world"
  "w_date_parse open_world = (\<lambda>t. Some (if t = ''then'' then 1 else 0))"
  by (simp_all add: open_world_def)

lemma open_ids: "audit_id open_world i a d = audit_id plain_world i a d"
  by (simp add: audit_id_def)

lemma open_state_ok: "state_ok open_world held_state"
  using held_state_ok by (simp add: state_ok_def)

lemma held_c1: "w_formats w = any_format \<Longrightarrow> held_candidate w ''c1'' ''team'' held_state
    = Some ((plain_candidate ''c1'' ''a text'')\<lparr>cand_status := Quarantined\<rparr>)"
  using held_state_view [of "''c1''"] held_state_ok
  by (simp add: held_candidate_def find_candidate_safe_def find_candidate_ok [OF state_ok_parts(1) [OF held_state_ok, simplified]])
    (simp add: plain_candidate_def)

lemma held_active:
  assumes "w_formats w = any_format"
  shows "find_active_hold w ''c1'' ''team'' now held_state = Inr (Some (to_active_hold w
      ((plain_candidate ''c1'' ''a text'')\<lparr>cand_status := Quarantined\<rparr>) plain_held [] now))"
proof -
  have "audits_ok (w_formats w) (st_audits held_state)" using held_state_ok assms by (simp add: state_ok_def)
  then have "memory_events w ''c1'' ''team'' held_state = Inr [plain_held]"
    by (simp add: memory_events_ok assms held_state_history) (simp add: plain_held_def)
  then show ?thesis
    by (simp add: find_active_hold_def held_c1 [OF assms]) (simp add: plain_held_def)
qed

lemma held_hold_fields:
  "ah_candidate (to_active_hold w ((plain_candidate ''c1'' ''a text'')\<lparr>cand_status := Quarantined\<rparr>) plain_held [] now) = ''c1''"
  "ah_tenant (to_active_hold w ((plain_candidate ''c1'' ''a text'')\<lparr>cand_status := Quarantined\<rparr>) plain_held [] now) = ''team''"
  "ah_declared (to_active_hold w ((plain_candidate ''c1'' ''a text'')\<lparr>cand_status := Quarantined\<rparr>) plain_held [] now) = ''tenant''"
  "ah_expired (to_active_hold w ((plain_candidate ''c1'' ''a text'')\<lparr>cand_status := Quarantined\<rparr>) plain_held [] now)
     = has_elapsed w ''then'' now"
  by (simp_all add: to_active_hold_def Let_def plain_candidate_def plain_metadata_def resolve_audience_def default_audience_def
      plain_held_def detail_def as_string_def)

lemma tenant_visible_to_admin: "is_audience_visible_to_role (Some ''tenant'') (Some ''admin'')"
  by code_simp

lemma admin_rejects_simps [simp]:
  "rs_candidate admin_rejects = ''c1''" "rs_tenant admin_rejects = ''team''" "rs_resolution admin_rejects = ''reject''"
  "rs_actor admin_rejects = plain_author" "rs_role admin_rejects = ''admin''" "rs_reason admin_rejects = ''noise''"
  "\<not> rs_dry admin_rejects"
  by (simp_all add: admin_rejects_def)

lemma words_kept: "non_empty_string ''noise'' = Some ''noise''" "js_trim ''noise'' \<noteq> []" "js_trim ''alice'' \<noteq> []"
  by code_simp+

lemma resolution_written:
  assumes "w_formats w = any_format" "w_sha1 w = w_sha1 plain_world" "ah_candidate h = ''c1''" "ah_tenant h = ''team''"
    "schema_author a = Some a" "non_empty_string r \<noteq> None"
  shows "\<exists>receipt s'. write_hold_resolved w h res a r d now (set_status ''c1'' Rejected ''team'' held_state) = Inr (receipt, s')"
proof -
  have id: "audit_id w ''c1'' A_hold_resolved [] \<noteq> audit_id plain_world ''c1'' A_held []"
    using plain_ids_differ assms(2) by (simp add: audit_id_def)
  have "\<exists>x. schema_event any_format (resolved_event w h res a r d now) = Some x"
    using assms plain_text_ok(4) by (auto simp: schema_event_def schema_optional_def)
  then obtain x where x: "schema_event any_format (resolved_event w h res a r d now) = Some x" by blast
  then have "ev_id x = audit_id w ''c1'' A_hold_resolved []" using schema_event_fields [OF x] assms(3) by simp
  moreover have "map ar_id (st_audits held_state) = [audit_id plain_world ''c1'' A_held []]"
    by (simp add: held_state_def audit_append_row_def Let_def) (simp add: plain_held_def)
  ultimately show ?thesis
    using x id assms(1) by (simp add: write_hold_resolved_def write_event_def parse_event_def insert_event_def audit_insert_def)
qed

lemma admin_rejection:
  "\<exists>receipt s'. resolve_hold open_world admin_rejects plain_options plain_tick ''t1'' held_state = Inr (Hold_rejected (Some receipt), s')"
proof -
  let ?h = "to_active_hold open_world ((plain_candidate ''c1'' ''a text'')\<lparr>cand_status := Quarantined\<rparr>) plain_held [] ''t1''"
  have "\<exists>receipt s'. write_hold_resolved open_world ?h Rejected_by_human plain_author ''noise'' [(''resolverRole'', JStr ''admin'')] ''t1''
      (set_status ''c1'' Rejected ''team'' held_state) = Inr (receipt, s')"
    by (rule resolution_written) (simp_all add: plain_author_schema words_kept held_hold_fields)
  then obtain receipt s' where "write_hold_resolved open_world ?h Rejected_by_human plain_author ''noise'' [(''resolverRole'', JStr ''admin'')] ''t1''
      (set_status ''c1'' Rejected ''team'' held_state) = Inr (receipt, s')" by blast
  moreover have "author_kind plain_author = Human" "author_id plain_author = ''alice''" by (simp_all add: plain_author_def)
  ultimately show ?thesis
    using held_active [of open_world "''t1''"] held_hold_fields(3,4) [of open_world "''t1''"] words_kept tenant_visible_to_admin
    by (simp add: resolve_hold_def reject_hold_def resolver_roles_def has_elapsed_def)
qed

theorem resolution_needs_a_person_witness:
  "\<exists>receipt s'. resolve_hold open_world admin_rejects plain_options plain_tick ''t1'' held_state = Inr (Hold_rejected (Some receipt), s')
     \<and> st_memories s' = [] \<and> find_active_hold open_world ''c1'' ''team'' ''t1'' s' = Inr None"
proof -
  obtain receipt s' where run: "resolve_hold open_world admin_rejects plain_options plain_tick ''t1'' held_state = Inr (Hold_rejected (Some receipt), s')"
    using admin_rejection by blast
  have "st_memories held_state = []" by (simp add: held_state_def)
  then show ?thesis using resolution_needs_a_person [OF open_state_ok run] run by auto
qed

lemma elapsed_refusal:
  "\<exists>s'. resolve_hold plain_world admin_rejects plain_options plain_tick ''t1'' held_state = Inr (Resolve_refused X_hold_expired True, s')"
proof -
  let ?h = "to_active_hold plain_world ((plain_candidate ''c1'' ''a text'')\<lparr>cand_status := Quarantined\<rparr>) plain_held [] ''t1''"
  have actor: "schema_author hold_expiry_actor = Some hold_expiry_actor"
    by (simp add: schema_author_def hold_expiry_actor_def non_empty_string_def js_trim_def js_space_def Let_def)
  have reason: "non_empty_string (expiry_reason ?h) \<noteq> None"
    using trim_keeps_first [of "CHR ''H''"] by (simp add: expiry_reason_def non_empty_string_def js_space_def Let_def)
  have "\<exists>receipt s'. expire_hold plain_world ?h ''t1'' held_state = Inr (receipt, s')"
    unfolding expire_hold_def held_hold_fields
    by (rule resolution_written) (simp_all add: actor reason held_hold_fields)
  then obtain receipt s' where "expire_hold plain_world ?h ''t1'' held_state = Inr (receipt, s')" by blast
  moreover have "author_kind plain_author = Human" "author_id plain_author = ''alice''" by (simp_all add: plain_author_def)
  ultimately show ?thesis
    using held_active [of plain_world "''t1''"] held_hold_fields(3,4) [of plain_world "''t1''"] words_kept tenant_visible_to_admin
    by (simp add: resolve_hold_def resolver_roles_def has_elapsed_def)
qed

theorem refusal_keeps_the_hold_witness:
  "\<exists>s'. resolve_hold plain_world admin_rejects plain_options plain_tick ''t1'' held_state = Inr (Resolve_refused X_hold_expired True, s')
     \<and> st_memories s' = [] \<and> find_active_hold plain_world ''c1'' ''team'' ''t1'' s' = Inr None"
proof -
  obtain s' where run: "resolve_hold plain_world admin_rejects plain_options plain_tick ''t1'' held_state = Inr (Resolve_refused X_hold_expired True, s')"
    using elapsed_refusal by blast
  have "st_memories held_state = []" by (simp add: held_state_def)
  then show ?thesis
    using refusal_keeps_the_hold [OF held_state_ok, of admin_rejects plain_options plain_tick "''t1''" X_hold_expired True s'] run by auto
qed

end
