(* ===== verification/Narrow_Audience.thy ===== *)
theory Narrow_Audience
  imports Promoter_Laws Audience
begin

text \<open>
  The governed narrowing of a promoted memory, \<open>curator/src/audience/narrow-audience.ts\<close>: the
  refusals, the dry run, and the one transaction that changes the tier and writes its receipt.
\<close>

section \<open>Requests and answers\<close>

datatype narrow_refusal =
    N_missing_reason
  | N_missing_actor
  | N_not_found
  | N_invalid narrowing_refusal

record narrow_input =
  ni_memory :: string
  ni_tenant :: tenant_id
  ni_to :: string
  ni_actor :: string
  ni_reason :: string
  ni_dry :: bool

text \<open>A narrowing with the tier before, the tier after and the receipt, or a refusal.\<close>

datatype narrow_result =
    Narrowed string string "uuid option"
  | Narrow_refused narrow_refusal

section \<open>The operation\<close>

definition human_actor :: "string \<Rightarrow> author" where
  "human_actor a = \<lparr>author_kind = Human, author_id = a, author_name = None\<rparr>"

definition narrowed_memory :: "curated_memory \<Rightarrow> string \<Rightarrow> iso_datetime \<Rightarrow> curated_memory" where
  "narrowed_memory m tier now = m\<lparr>mem_metadata := (mem_metadata m)\<lparr>audience := Some tier\<rparr>, updated_at := now\<rparr>"

definition narrowed_event :: "narrow_input \<Rightarrow> curated_memory \<Rightarrow> string \<Rightarrow> string \<Rightarrow> uuid \<Rightarrow> iso_datetime \<Rightarrow> audit_event" where
  "narrowed_event inp m from_tier to_tier eid now =
     \<lparr>ev_id = eid, ev_action = A_audience_narrowed, ev_memory_id = ni_memory inp, ev_tenant_id = mem_tenant m,
      ev_actor = human_actor (ni_actor inp), ev_reason = Some (ni_reason inp),
      ev_details = [(''from'', JStr from_tier), (''to'', JStr to_tier)], ev_timestamp = now\<rparr>"

text \<open>\<open>Audience.parse\<close>, both parses, then the transaction: the row and the receipt.\<close>

definition write_narrowing ::
  "world \<Rightarrow> narrow_input \<Rightarrow> curated_memory \<Rightarrow> string \<Rightarrow> string \<Rightarrow> uuid \<Rightarrow> iso_datetime \<Rightarrow> store_state \<Rightarrow> fault + store_state" where
  "write_narrowing w inp m from_tier to_tier eid now s =
     (case parse_enum audience_options audience_name to_tier of
        None \<Rightarrow> Inl (Schema_refused ''Audience'')
      | Some tier \<Rightarrow>
          and_then (parse_memory w (narrowed_memory m (audience_name tier) now)) (\<lambda>updated.
          and_then (parse_event w (narrowed_event inp m from_tier to_tier eid now)) (\<lambda>receipt.
          and_then (memory_update (w_scan w) updated (st_memories s)) (\<lambda>(_, t).
            insert_event w receipt (s\<lparr>st_memories := t\<rparr>)))))"

text \<open>\<open>eid\<close> is the fresh UUID of the receipt and \<open>now\<close> the clock.\<close>

definition narrow_audience ::
  "world \<Rightarrow> narrow_input \<Rightarrow> uuid \<Rightarrow> iso_datetime \<Rightarrow> store_state \<Rightarrow> fault + narrow_result \<times> store_state" where
  "narrow_audience w inp eid now s =
     (if js_trim (ni_reason inp) = [] then Inr (Narrow_refused N_missing_reason, s)
      else if js_trim (ni_actor inp) = [] then Inr (Narrow_refused N_missing_actor, s)
      else and_then (find_memory (w_formats w) (ni_memory inp) (st_memories s)) (\<lambda>found.
        case found of
          None \<Rightarrow> Inr (Narrow_refused N_not_found, s)
        | Some m \<Rightarrow>
            if mem_tenant m \<noteq> ni_tenant inp then Inr (Narrow_refused N_not_found, s)
            else (case validate_audience_narrowing (audience (mem_metadata m)) (Some (ni_to inp)) of
                    Inl x \<Rightarrow> Inr (Narrow_refused (N_invalid x), s)
                  | Inr (from_tier, to_tier) \<Rightarrow>
                      if ni_dry inp then Inr (Narrowed from_tier to_tier None, s)
                      else and_then (write_narrowing w inp m from_tier to_tier eid now s) (\<lambda>s'.
                        Inr (Narrowed from_tier to_tier (Some eid), s')))))"

section \<open>What a narrowing changes\<close>

text \<open>A parse followed by a storage of the parsed event is a write of the event.\<close>

lemma write_parsed: "parse_event w e = Inr x \<Longrightarrow> insert_event w x s = Inr s' \<Longrightarrow> write_event w e s = Inr s'"
  by (simp add: write_event_def)

lemma memory_update_all:
  "memory_update scan m t = Inr (b, t') \<Longrightarrow> t' = set_rows (mem_id m) (\<lambda>_. memory_to_row m) t"
  by (auto simp: memory_update_def and_then_Inr)

text \<open>An edit of a stored memory that keeps its id and parses to itself, and a receipt of it.\<close>

lemma edited_and_receipted:
  assumes ok: "state_ok w s" and m: "mem_view w s i = Some m"
    and upd: "memory_wf (w_formats w) u" "mem_id u = i" "memory_update (w_scan w) u (st_memories s) = Inr (b, t)"
    and ev: "parse_event w e = Inr x" "insert_event w x (s\<lparr>st_memories := t\<rparr>) = Inr s'"
    and e: "json_distinct (JObj (ev_details e))" "ev_action e \<noteq> A_held"
  shows "gov_steps w limits s s' \<and> state_ok w s' \<and> mem_view w s' = (mem_view w s)(i \<mapsto> u)
    \<and> (\<exists>r. receipt_of w e r \<and> events_of w s' = events_of w s @ [r])
    \<and> st_candidates s' = st_candidates s \<and> st_links s' = st_links s \<and> st_policies s' = st_policies s"
proof -
  let ?s = "s\<lparr>st_memories := t\<rparr>"
  have "view (w_formats w) (st_memories s) (mem_id u) = Some m" using m upd(2) by simp
  then have t: "table_ok (w_formats w) t \<and> view (w_formats w) t = (mem_view w s)(i \<mapsto> u)"
    using update_stored [OF state_ok_parts(2) [OF ok] _ upd(1,3)] upd(2) by blast
  then have ok1: "state_ok w ?s" using ok by (simp add: state_ok_def)
  have wr: "write_event w e ?s = Inr s'" by (rule write_parsed [OF ev])
  obtain r where r: "receipt_of w e r" "state_ok w s'" "events_of w s' = events_of w s @ [r]"
      "st_candidates s' = st_candidates s" "st_memories s' = t" "st_links s' = st_links s" "st_policies s' = st_policies s"
    using write_event_ok [OF ok1 wr e(1)] by auto
  have "gov_steps w limits s s'"
    by (rule gs_trans [OF gs_one [OF gs_memories] gs_receipt [OF wr e(2,1)]]) (use t in blast)
  then show ?thesis using r t by blast
qed

lemma narrowed_parse:
  assumes "memory_wf fmt m" "schema_memory fmt (narrowed_memory m tier now) = Some u"
  shows "u = narrowed_memory m tier now"
  using assms by (cases m) (auto simp: memory_wf_def schema_memory_def narrowed_memory_def split: Option.bind_splits if_splits)

lemma narrow_effect:
  assumes ok: "state_ok w s" and m: "mem_view w s (ni_memory inp) = Some m"
    and to': "validate_audience_narrowing (audience (mem_metadata m)) (Some (ni_to inp)) = Inr (from_tier, to_tier)"
    and run: "write_narrowing w inp m from_tier to_tier eid now s = Inr s'"
  shows "gov_steps w limits s s' \<and> state_ok w s' \<and> mem_view w s' = (mem_view w s)(ni_memory inp \<mapsto> narrowed_memory m to_tier now)
    \<and> (\<exists>r. receipt_of w (narrowed_event inp m from_tier to_tier eid now) r \<and> events_of w s' = events_of w s @ [r])
    \<and> st_candidates s' = st_candidates s \<and> st_links s' = st_links s \<and> st_policies s' = st_policies s"
proof -
  have wf: "memory_wf (w_formats w) m" "mem_id m = ni_memory inp"
    using view_wf [OF state_ok_parts(2) [OF ok] m] by auto
  obtain tier u x b t where tier: "parse_enum audience_options audience_name to_tier = Some tier"
      and u: "parse_memory w (narrowed_memory m (audience_name tier) now) = Inr u"
      and x: "parse_event w (narrowed_event inp m from_tier to_tier eid now) = Inr x"
      and t: "memory_update (w_scan w) u (st_memories s) = Inr (b, t)"
      and s': "insert_event w x (s\<lparr>st_memories := t\<rparr>) = Inr s'"
    using run by (auto simp: write_narrowing_def and_then_Inr split: option.splits)
  have name: "audience_name tier = to_tier" using tier audience_vocab.parse_Some by auto
  have u': "u = narrowed_memory m to_tier now"
    using u narrowed_parse [OF wf(1)] by (auto simp: parse_memory_def name split: option.splits)
  have "memory_wf (w_formats w) u" "mem_id u = ni_memory inp"
    using parse_memory_wf [OF u] wf(2) by (simp_all add: narrowed_memory_def)
  then show ?thesis
    using edited_and_receipted [OF ok m _ _ t x s'] unfolding u' by (simp add: narrowed_event_def)
qed

text \<open>The two ways to end: nothing is written, or the write of a valid narrowing.\<close>

lemma narrow_cases [consumes 2, case_names Refused Dry Write]:
  assumes "narrow_audience w inp eid now s = Inr (ans, s')" "state_ok w s"
  obtains x where "ans = Narrow_refused x" "s' = s"
  | m from_tier to_tier where "mem_view w s (ni_memory inp) = Some m" "mem_tenant m = ni_tenant inp" "ni_dry inp"
      "validate_audience_narrowing (audience (mem_metadata m)) (Some (ni_to inp)) = Inr (from_tier, to_tier)"
      "ans = Narrowed from_tier to_tier None" "s' = s"
  | m from_tier to_tier where "mem_view w s (ni_memory inp) = Some m" "mem_tenant m = ni_tenant inp" "\<not> ni_dry inp"
      "js_trim (ni_reason inp) \<noteq> []" "js_trim (ni_actor inp) \<noteq> []"
      "validate_audience_narrowing (audience (mem_metadata m)) (Some (ni_to inp)) = Inr (from_tier, to_tier)"
      "ans = Narrowed from_tier to_tier (Some eid)" "write_narrowing w inp m from_tier to_tier eid now s = Inr s'"
proof -
  note found = find_memory_ok [OF state_ok_parts(2) [OF assms(2)], of "ni_memory inp"]
  consider "ans = Narrow_refused N_missing_reason" "s' = s" | "ans = Narrow_refused N_missing_actor" "s' = s"
    | "js_trim (ni_reason inp) \<noteq> []" "js_trim (ni_actor inp) \<noteq> []"
    using assms(1) by (auto simp: narrow_audience_def split: if_split_asm)
  then show thesis
  proof cases
    case 3
    then have run: "(case mem_view w s (ni_memory inp) of
          None \<Rightarrow> Inr (Narrow_refused N_not_found, s)
        | Some m \<Rightarrow>
            if mem_tenant m \<noteq> ni_tenant inp then Inr (Narrow_refused N_not_found, s)
            else (case validate_audience_narrowing (audience (mem_metadata m)) (Some (ni_to inp)) of
                    Inl x \<Rightarrow> Inr (Narrow_refused (N_invalid x), s)
                  | Inr (from_tier, to_tier) \<Rightarrow>
                      if ni_dry inp then Inr (Narrowed from_tier to_tier None, s)
                      else and_then (write_narrowing w inp m from_tier to_tier eid now s) (\<lambda>s'.
                        Inr (Narrowed from_tier to_tier (Some eid), s')))) = Inr (ans, s')"
      using assms(1) found by (simp add: narrow_audience_def)
    show thesis
    proof (cases "mem_view w s (ni_memory inp)")
      case None
      then show thesis using run by (intro that(1) [of N_not_found]) simp_all
    next
      case (Some m)
      show thesis
      proof (cases "mem_tenant m = ni_tenant inp")
        case True
        show thesis
        proof (cases "validate_audience_narrowing (audience (mem_metadata m)) (Some (ni_to inp))")
          case (Inl x)
          then show thesis using run Some True by (intro that(1) [of "N_invalid x"]) simp_all
        next
          case (Inr p)
          obtain a b where p: "p = (a, b)" by (cases p)
          then show thesis
            using run Some True Inr that(2) [OF Some True _ Inr [unfolded p]] that(3) [OF Some True _ 3 Inr [unfolded p]]
            by (cases "ni_dry inp") (auto simp: and_then_Inr)
        qed
      next
        case False
        then show thesis using run Some by (intro that(1) [of N_not_found]) simp_all
      qed
    qed
  qed (use that(1) in blast)+
qed

section \<open>Only readers are removed\<close>

text \<open>
  A narrowing only removes readers, and is receipted. It changes one memory of the named tenant,
  in its declared tier and its update time alone; every role that may read it afterwards could read
  it before and some role no longer can; one receipt that names the person, the reason, the tier
  before and the tier after is the only event added. A refusal and a dry run change nothing, and a
  request for the same, a wider or an unknown tier, for a memory of another tenant, or without a
  reason or an actor is always refused.
\<close>

theorem narrowing_only_removes_readers:
  assumes "state_ok w s" "narrow_audience w inp eid now s = Inr (ans, s')"
  shows "(\<forall>x. ans = Narrow_refused x \<longrightarrow> s' = s)
    \<and> (\<forall>a b. ans = Narrowed a b None \<longrightarrow> s' = s)
    \<and> (\<forall>a b receipt. ans = Narrowed a b (Some receipt) \<longrightarrow>
        (\<exists>m. mem_view w s (ni_memory inp) = Some m \<and> mem_tenant m = ni_tenant inp
           \<and> a = resolve_audience (audience (mem_metadata m)) \<and> b = ni_to inp
           \<and> mem_view w s' = (mem_view w s)(ni_memory inp \<mapsto>
               m\<lparr>mem_metadata := (mem_metadata m)\<lparr>audience := Some (ni_to inp)\<rparr>, updated_at := now\<rparr>)
           \<and> (\<forall>r. is_audience_visible_to_role (Some (ni_to inp)) r \<longrightarrow>
                is_audience_visible_to_role (audience (mem_metadata m)) r)
           \<and> (\<exists>r. is_audience_visible_to_role (audience (mem_metadata m)) (Some r)
                \<and> \<not> is_audience_visible_to_role (Some (ni_to inp)) (Some r)))
        \<and> (\<exists>x. events_of w s' = events_of w s @ [x] \<and> ev_id x = receipt \<and> ev_action x = A_audience_narrowed
             \<and> ev_memory_id x = ni_memory inp \<and> ev_details x = [(''from'', JStr a), (''to'', JStr b)])
        \<and> state_ok w s' \<and> st_candidates s' = st_candidates s \<and> st_links s' = st_links s)"
  using assms(2,1)
proof (cases rule: narrow_cases)
  case (Write m a b)
  note e = narrow_effect [OF assms(1) Write(1,6,8)]
  have ab: "a = resolve_audience (audience (mem_metadata m))" "b = ni_to inp" using Write(6) by (auto simp: narrowing_ok_iff)
  obtain r where r: "receipt_of w (narrowed_event inp m a b eid now) r" "events_of w s' = events_of w s @ [r]" using e by blast
  have fields: "ev_id r = eid" "ev_action r = A_audience_narrowed" "ev_memory_id r = ni_memory inp"
      "ev_details r = [(''from'', JStr a), (''to'', JStr b)]"
    using receipt_fields [OF r(1)] by (simp_all add: narrowed_event_def)
  note readers = narrowing_removes_readers [OF Write(6)]
  have "\<forall>q. is_audience_visible_to_role (Some (ni_to inp)) q \<longrightarrow> is_audience_visible_to_role (audience (mem_metadata m)) q"
    "\<exists>q. is_audience_visible_to_role (audience (mem_metadata m)) (Some q) \<and> \<not> is_audience_visible_to_role (Some (ni_to inp)) (Some q)"
    using readers ab(2) by blast+
  then show ?thesis
    using Write(1,2,7) ab e r(2) fields by (simp add: narrowed_memory_def)
qed simp_all

section \<open>A concrete narrowing\<close>

definition plain_narrowing :: narrow_input where
  "plain_narrowing = \<lparr>ni_memory = ''m1'', ni_tenant = ''team'', ni_to = ''admins'', ni_actor = ''alice'',
     ni_reason = ''payroll'', ni_dry = False\<rparr>"

definition one_memory :: store_state where
  "one_memory = \<lparr>st_candidates = [], st_memories = [memory_to_row (plain_memory ''m1'' ''a text'')], st_audits = [],
     st_links = [], st_policies = []\<rparr>"

lemma one_memory_rows: "rows_hold any_format [plain_memory ''m1'' ''a text''] (st_memories one_memory)"
  using plain_memory_wf [of "''a text''" "''m1''"] by (simp add: rows_hold_def one_memory_def)

lemma one_memory_ok: "state_ok plain_world one_memory"
proof -
  have "table_ok any_format (st_memories one_memory)" unfolding table_ok_def using one_memory_rows by blast
  then show ?thesis by (simp add: state_ok_def) (simp add: one_memory_def candidates_ok_def audits_ok_def audit_table_ok_def)
qed

lemma one_memory_view: "mem_view plain_world one_memory ''m1'' = Some (plain_memory ''m1'' ''a text'')"
  using view_stored [OF one_memory_rows, of "''m1''"] by (simp add: plain_memory_def)

lemma plain_narrowing_simps [simp]:
  "ni_memory plain_narrowing = ''m1''" "ni_tenant plain_narrowing = ''team''" "ni_to plain_narrowing = ''admins''"
  "ni_actor plain_narrowing = ''alice''" "ni_reason plain_narrowing = ''payroll''" "\<not> ni_dry plain_narrowing"
  by (simp_all add: plain_narrowing_def)

lemma narrowing_texts: "js_trim ''payroll'' = ''payroll''" "js_trim ''alice'' = ''alice''" "js_trim ''team'' = ''team''"
  by code_simp+

theorem narrowing_only_removes_readers_witness:
  "\<exists>s'. narrow_audience plain_world plain_narrowing ''e1'' ''t1'' one_memory = Inr (Narrowed ''tenant'' ''admins'' (Some ''e1''), s')
     \<and> map_option (\<lambda>m. audience (mem_metadata m)) (mem_view plain_world s' ''m1'') = Some (Some ''admins'')
     \<and> (\<exists>x. events_of plain_world s' = events_of plain_world one_memory @ [x] \<and> ev_action x = A_audience_narrowed)"
proof -
  let ?m = "plain_memory ''m1'' ''a text''"
  have aud: "audience (mem_metadata ?m) = Some ''tenant''" and tn: "mem_tenant ?m = ''team''"
    by (simp_all add: plain_memory_def plain_metadata_def)
  have v: "validate_audience_narrowing (Some ''tenant'') (Some ''admins'') = Inr (''tenant'', ''admins'')"
    by (simp add: validate_audience_narrowing_def resolve_audience_def default_audience_def)
  have tier: "parse_enum audience_options audience_name ''admins'' = Some Aud_admins"
    using audience_vocab.parse_name [of Aud_admins] by simp
  have mem: "\<exists>u. parse_memory plain_world (narrowed_memory ?m ''admins'' ''t1'') = Inr u \<and> mem_id u = ''m1''"
  proof -
    have "memory_wf any_format ?m" by (rule plain_memory_wf) simp
    moreover have "metadata_check (mem_metadata (narrowed_memory ?m ''admins'' ''t1''))"
      using plain_metadata_check tier by (simp add: narrowed_memory_def plain_memory_def metadata_check_def plain_metadata_def)
    ultimately have "schema_memory any_format (narrowed_memory ?m ''admins'' ''t1'') = Some (narrowed_memory ?m ''admins'' ''t1'')"
      by (auto simp: memory_wf_def schema_memory_def narrowed_memory_def any_format_def memory_refinement_def
          split: Option.bind_splits if_splits) (auto simp: plain_memory_def)
    then show ?thesis by (simp add: parse_memory_def) (simp add: narrowed_memory_def plain_memory_def)
  qed
  then obtain u where u: "parse_memory plain_world (narrowed_memory ?m ''admins'' ''t1'') = Inr u" "mem_id u = ''m1''" by blast
  obtain x where x: "parse_event plain_world (narrowed_event plain_narrowing ?m ''tenant'' ''admins'' ''e1'' ''t1'') = Inr x"
    by (simp add: parse_event_def narrowed_event_def schema_event_def schema_author_def human_actor_def
        schema_optional_def non_empty_string_def narrowing_texts any_format_def plain_memory_def)
  have "memory_wf any_format u" using parse_memory_wf [OF u(1)] by simp
  then have "\<exists>b t. memory_update (w_scan plain_world) u (st_memories one_memory) = Inr (b, t)"
    by (simp add: memory_update_def membership_ok)
  then obtain s' where run: "write_narrowing plain_world plain_narrowing ?m ''tenant'' ''admins'' ''e1'' ''t1'' one_memory = Inr s'"
    using u(1) x by (auto simp: write_narrowing_def tier insert_event_def audit_insert_def one_memory_def)
  have "narrow_audience plain_world plain_narrowing ''e1'' ''t1'' one_memory = Inr (Narrowed ''tenant'' ''admins'' (Some ''e1''), s')"
    using run one_memory_view find_memory_ok [OF state_ok_parts(2) [OF one_memory_ok], of "''m1''"]
    by (simp add: narrow_audience_def narrowing_texts aud v tn)
  moreover note narrowing_only_removes_readers [OF one_memory_ok this]
  ultimately show ?thesis by (intro exI [of _ s']) auto
qed

end
