(* ===== verification/Redaction.thy ===== *)
theory Redaction
  imports Narrow_Audience "HOL-Library.AList"
begin

text \<open>
  The governed redaction of a memory, \<open>curator/src/redaction/redact-memory.ts\<close>: the three ways to
  make the replacement, the checks on it, and the one transaction that rewrites the memory and every
  candidate copy and writes a receipt for each row. \<open>redactSecrets\<close> is the argument \<open>redact\<close>.
\<close>

section \<open>Requests and answers\<close>

definition redaction_marker :: string where
  "redaction_marker = ''[REDACTED]''"

definition min_line_fragment :: nat where
  "min_line_fragment = 12"

definition min_span_fragment :: nat where
  "min_span_fragment = 4"

definition max_fragments :: nat where
  "max_fragments = 500"

text \<open>The offsets of a span are JavaScript numbers; the request may carry any.\<close>

record redaction_span =
  span_start :: rat
  span_end :: rat

datatype redaction_mode =
    Mode_replacement string
  | Mode_spans "redaction_span list"
  | Mode_scan

fun mode_kind :: "redaction_mode \<Rightarrow> string" where
  "mode_kind (Mode_replacement _) = ''replacement''"
| "mode_kind (Mode_spans _) = ''spans''"
| "mode_kind Mode_scan = ''scan''"

record redact_input =
  rd_memory :: string
  rd_tenant :: tenant_id
  rd_actor :: string
  rd_reason :: string
  rd_mode :: redaction_mode
  rd_title :: "string option"
  rd_dry :: bool

datatype span_fault =
    No_spans
  | Offsets_not_integers
  | Span_outside rat rat nat
  | Spans_overlap

datatype redact_refusal =
    D_not_found
  | D_missing_reason
  | D_missing_actor
  | D_secret_in_reason
  | D_empty_replacement
  | D_invalid_spans span_fault
  | D_nothing_to_redact
  | D_residual_secret "string list"
  | D_disclosure

datatype redact_status = Redacted_status | Would_redact | Unchanged

record redact_report =
  rp_status :: redact_status
  rp_mode :: string
  rp_old_hash :: string
  rp_new_hash :: string
  rp_pattern_names :: "string list"
  rp_pattern_lines :: "(string \<times> nat list) list"
  rp_title_changed :: bool
  rp_candidates :: "string list"
  rp_events :: "uuid list"

datatype redact_result =
    Redact_ok redact_report
  | Redact_refused redact_refusal

section \<open>Patterns\<close>

text \<open>The ids and names the scan fires on over several texts, each once and sorted.\<close>

definition scan_ids :: "env \<Rightarrow> string list \<Rightarrow> string list" where
  "scan_ids env texts = sort (remdups (concat (map (\<lambda>t. map sf_pattern_id (scan_text_for_secrets env t)) texts)))"

definition scan_names :: "env \<Rightarrow> string list \<Rightarrow> string list" where
  "scan_names env texts = sort (remdups (concat (map (\<lambda>t. map sf_pattern_name (scan_text_for_secrets env t)) texts)))"

text \<open>\<open>Object.fromEntries\<close>: a later entry of the same name takes the place of an earlier one.\<close>

definition from_entries :: "(string \<times> 'a) list \<Rightarrow> (string \<times> 'a) list" where
  "from_entries es = fold (\<lambda>(k, v). AList.update k v) es []"

definition pattern_lines :: "env \<Rightarrow> string \<Rightarrow> (string \<times> nat list) list" where
  "pattern_lines env text = from_entries (map (\<lambda>f. (sf_pattern_name f, sf_lines f)) (scan_text_for_secrets env text))"

section \<open>Spans\<close>

text \<open>The loop of \<open>validateSpans\<close>; \<open>prev\<close> is \<open>previousEnd\<close>.\<close>

fun check_spans :: "nat \<Rightarrow> rat \<Rightarrow> redaction_span list \<Rightarrow> span_fault option" where
  "check_spans len prev [] = None"
| "check_spans len prev (p # ps) =
     (if \<not> js_is_integer (span_start p) \<or> \<not> js_is_integer (span_end p) then Some Offsets_not_integers
      else if span_start p < 0 \<or> of_nat len < span_end p \<or> span_end p \<le> span_start p
      then Some (Span_outside (span_start p) (span_end p) len)
      else if span_start p < prev then Some Spans_overlap
      else check_spans len (span_end p) ps)"

definition validate_spans :: "redaction_span list \<Rightarrow> nat \<Rightarrow> span_fault option" where
  "validate_spans ps len = (if ps = [] then Some No_spans else check_spans len 0 ps)"

text \<open>The offsets of a validated span, which are whole numbers within the content.\<close>

definition offset :: "rat \<Rightarrow> nat" where
  "offset x = nat \<lfloor>x\<rfloor>"

fun apply_from :: "string \<Rightarrow> nat \<Rightarrow> redaction_span list \<Rightarrow> string" where
  "apply_from content cursor [] = drop cursor content"
| "apply_from content cursor (p # ps) =
     js_slice cursor (offset (span_start p)) content @ redaction_marker @ apply_from content (offset (span_end p)) ps"

definition apply_spans :: "string \<Rightarrow> redaction_span list \<Rightarrow> string" where
  "apply_spans content ps = apply_from content 0 ps"

section \<open>The removed text\<close>

text \<open>
  A match of the marker pattern at the head of a text, as what follows it: \<open>[REDACTED\<close>, then
  optionally a colon and characters other than a closing bracket and a newline, then the bracket.
\<close>

definition marker_rest :: "string \<Rightarrow> string option" where
  "marker_rest s =
     (if take 9 s \<noteq> ''[REDACTED'' then None
      else let r = drop 9 s;
               body = (case r of [] \<Rightarrow> [] | c # cs \<Rightarrow>
                 if c = CHR '':'' then dropWhile (\<lambda>d. d \<noteq> CHR '']'' \<and> d \<noteq> CHR 0x0A) cs else r)
           in case body of [] \<Rightarrow> None | c # cs \<Rightarrow> if c = CHR '']'' then Some cs else None)"

lemma marker_rest_shorter: "marker_rest s = Some r \<Longrightarrow> length r < length s"
proof -
  assume m: "marker_rest s = Some r"
  define t where "t = drop 9 s"
  let ?body = "case t of [] \<Rightarrow> [] | c # cs \<Rightarrow>
    if c = CHR '':'' then dropWhile (\<lambda>d. d \<noteq> CHR '']'' \<and> d \<noteq> CHR 0x0A) cs else t"
  have "length ?body \<le> length t"
    by (auto split: list.split intro: le_SucI length_dropWhile_le)
  moreover obtain c where "?body = c # r"
    using m by (auto simp: marker_rest_def Let_def t_def split: if_split_asm list.split_asm)
  ultimately have "length (c # r) \<le> length t" by metis
  then show ?thesis by (simp add: t_def)
qed

text \<open>\<open>text.split(MARKER_PATTERN)\<close>; \<open>acc\<close> is the piece read so far, reversed.\<close>

function split_markers :: "string \<Rightarrow> string \<Rightarrow> string list" where
  "split_markers acc s =
     (case marker_rest s of
        Some r \<Rightarrow> rev acc # split_markers [] r
      | None \<Rightarrow> (case s of [] \<Rightarrow> [rev acc] | c # cs \<Rightarrow> split_markers (c # acc) cs))"
  by pat_completeness auto
termination
  by (relation "measure (\<lambda>(acc, s). length s)") (auto dest: marker_rest_shorter)

declare split_markers.simps [simp del]

definition index_of_from :: "string \<Rightarrow> nat \<Rightarrow> string \<Rightarrow> nat option" where
  "index_of_from piece i s = find (\<lambda>k. starts_with piece (drop k s)) [i..<Suc (length s)]"

text \<open>The loop of \<open>removedSegments\<close>; \<open>None\<close> is the early return of the empty list.\<close>

fun align_pieces :: "string \<Rightarrow> bool \<Rightarrow> nat \<Rightarrow> string list \<Rightarrow> string list option" where
  "align_pieces old first cursor [] = Some []"
| "align_pieces old first cursor (p # ps) =
     (let spot = (if ps = [] then (if length p \<le> length old then Some (length old - length p) else None)
                else index_of_from p cursor old)
      in case spot of
           None \<Rightarrow> None
         | Some i \<Rightarrow>
             if i < cursor \<or> \<not> starts_with p (drop i old) then None
             else map_option (\<lambda>rest. (if first then [] else [js_slice cursor i old]) @ rest)
                    (align_pieces old False (i + length p) ps))"

definition removed_segments :: "string \<Rightarrow> string \<Rightarrow> string list" where
  "removed_segments old new =
     (let pieces = split_markers [] new
      in if length pieces < 2 then [] else case align_pieces old True 0 pieces of None \<Rightarrow> [] | Some ss \<Rightarrow> ss)"

definition removed_lines :: "string \<Rightarrow> string \<Rightarrow> string list" where
  "removed_lines old new =
     filter (\<lambda>line. min_line_fragment \<le> length line \<and> \<not> js_includes line new)
       (map js_trim (split_at newline old))"

definition collect_removed_fragments :: "curated_memory \<Rightarrow> redaction_mode \<Rightarrow> string \<Rightarrow> string \<Rightarrow> string list" where
  "collect_removed_fragments m mode new_content new_title =
     (let spans = (case mode of
                     Mode_spans ps \<Rightarrow> map (\<lambda>p. js_slice (offset (span_start p)) (offset (span_end p)) (mem_content m)) ps
                   | _ \<Rightarrow> removed_segments (mem_content m) new_content);
          found = filter (\<lambda>t. min_span_fragment \<le> length t) (map js_trim spans)
            @ removed_lines (mem_content m) new_content
            @ (if new_title \<noteq> mem_title m \<and> min_line_fragment \<le> length (js_trim (mem_title m))
               then [js_trim (mem_title m)] else [])
      in take max_fragments (js_set found))"

section \<open>The replacement\<close>

definition plan_replacement :: "(string \<Rightarrow> string) \<Rightarrow> curated_memory \<Rightarrow> redact_input \<Rightarrow> redact_refusal + string \<times> string" where
  "plan_replacement redact m inp =
     (let given = (case rd_title inp of None \<Rightarrow> mem_title m | Some t \<Rightarrow> t);
          made = (case rd_mode inp of
              Mode_replacement text \<Rightarrow> if js_trim text = [] then Inl D_empty_replacement else Inr (text, given)
            | Mode_spans ps \<Rightarrow>
                (case validate_spans ps (length (mem_content m)) of
                   Some x \<Rightarrow> Inl (D_invalid_spans x)
                 | None \<Rightarrow> Inr (apply_spans (mem_content m) ps, given))
            | Mode_scan \<Rightarrow>
                Inr (redact (mem_content m), if rd_title inp = None then redact (mem_title m) else given))
      in case made of
           Inl x \<Rightarrow> Inl x
         | Inr (text, title) \<Rightarrow> if js_trim title = [] then Inl D_empty_replacement else Inr (text, title))"

definition refuse_request :: "env \<Rightarrow> redact_input \<Rightarrow> redact_refusal option" where
  "refuse_request env inp =
     (if js_trim (rd_reason inp) = [] then Some D_missing_reason
      else if js_trim (rd_actor inp) = [] then Some D_missing_actor
      else if scan_text_for_secrets env (rd_reason inp) \<noteq> [] then Some D_secret_in_reason
      else None)"

definition candidate_copies :: "curated_memory \<Rightarrow> string \<Rightarrow> candidate_table \<Rightarrow> string list" where
  "candidate_copies m old_hash t =
     js_set ((if read_stored_text (mem_candidate_id m) (mem_tenant m) t \<noteq> None then [mem_candidate_id m] else [])
             @ find_ids_by_content_hash_and_tenant old_hash (mem_tenant m) t)"

section \<open>The transaction\<close>

definition redacted_memory :: "world \<Rightarrow> curated_memory \<Rightarrow> string \<Rightarrow> string \<Rightarrow> iso_datetime \<Rightarrow> curated_memory" where
  "redacted_memory w m text title now =
     m\<lparr>mem_content := text, mem_title := title, mem_content_hash := w_sha256 w text, updated_at := now,
       mem_version := mem_version m + 1\<rparr>"

definition redacted_event ::
  "world \<Rightarrow> redact_input \<Rightarrow> curated_memory \<Rightarrow> string \<Rightarrow> string \<Rightarrow> string list \<Rightarrow> uuid \<Rightarrow> iso_datetime \<Rightarrow> audit_event" where
  "redacted_event w inp m text title copies eid now =
     \<lparr>ev_id = eid, ev_action = A_redacted, ev_memory_id = rd_memory inp, ev_tenant_id = mem_tenant m,
      ev_actor = human_actor (rd_actor inp), ev_reason = Some (rd_reason inp),
      ev_details =
        [(''target'', JStr ''memory''), (''mode'', JStr (mode_kind (rd_mode inp))),
         (''oldContentHash'', JStr (w_sha256 w (mem_content m))), (''newContentHash'', JStr (w_sha256 w text)),
         (''patternNames'', strings_json (scan_names (w_env w) [mem_content m, mem_title m])),
         (''patternIds'', strings_json (scan_ids (w_env w) [mem_content m, mem_title m])),
         (''titleChanged'', JBool (title \<noteq> mem_title m)), (''candidateIds'', strings_json copies)]
        @ (if mem_content_hash m \<noteq> w_sha256 w (mem_content m)
           then [(''storedContentHash'', JStr (mem_content_hash m))] else []),
      ev_timestamp = now\<rparr>"

definition copy_event ::
  "world \<Rightarrow> redact_input \<Rightarrow> curated_memory \<Rightarrow> string \<Rightarrow> string \<Rightarrow> string \<Rightarrow> uuid \<Rightarrow> iso_datetime \<Rightarrow> audit_event" where
  "copy_event w inp m i old_hash new_hash eid now =
     \<lparr>ev_id = eid, ev_action = A_redacted, ev_memory_id = i, ev_tenant_id = mem_tenant m,
      ev_actor = human_actor (rd_actor inp), ev_reason = Some (rd_reason inp),
      ev_details =
        [(''target'', JStr ''candidate''), (''mode'', JStr (mode_kind (rd_mode inp))),
         (''memoryId'', JStr (rd_memory inp)), (''oldContentHash'', JStr old_hash), (''newContentHash'', JStr new_hash)],
      ev_timestamp = now\<rparr>"

text \<open>
  The loop over the copies. \<open>ids\<close> is the stream of fresh UUIDs, of which \<open>n\<close> have been drawn;
  the result also lists the receipts written.
\<close>

fun redact_copies ::
  "world \<Rightarrow> redact_input \<Rightarrow> curated_memory \<Rightarrow> string \<Rightarrow> string \<Rightarrow> (nat \<Rightarrow> uuid) \<Rightarrow> iso_datetime \<Rightarrow> nat \<Rightarrow> string list \<Rightarrow>
    store_state \<Rightarrow> fault + uuid list \<times> store_state" where
  "redact_copies w inp m text title ids now n [] s = Inr ([], s)"
| "redact_copies w inp m text title ids now n (i # cs) s =
     (case read_stored_text i (mem_tenant m) (st_candidates s) of
        None \<Rightarrow> redact_copies w inp m text title ids now n cs s
      | Some (old_text, old_title) \<Rightarrow>
          and_then (update_content (w_scan w) (w_sha256 w) i (mem_tenant m) text
              (if title \<noteq> mem_title m then title else old_title) (st_candidates s)) (\<lambda>(new_hash, t).
          case new_hash of
            None \<Rightarrow> redact_copies w inp m text title ids now n cs (s\<lparr>st_candidates := t\<rparr>)
          | Some h \<Rightarrow>
              and_then (write_event w (copy_event w inp m i (w_sha256 w old_text) h (ids n) now)
                  (s\<lparr>st_candidates := t\<rparr>)) (\<lambda>s1.
              and_then (redact_copies w inp m text title ids now (Suc n) cs s1) (\<lambda>(es, s2).
                Inr (ids n # es, s2)))))"

definition redact_transaction ::
  "world \<Rightarrow> redact_input \<Rightarrow> curated_memory \<Rightarrow> curated_memory \<Rightarrow> string \<Rightarrow> string \<Rightarrow> string list \<Rightarrow> (nat \<Rightarrow> uuid) \<Rightarrow>
    iso_datetime \<Rightarrow> store_state \<Rightarrow> fault + uuid list \<times> store_state" where
  "redact_transaction w inp m updated text title copies ids now s =
     and_then (memory_update (w_scan w) updated (st_memories s)) (\<lambda>(_, t).
     and_then (write_event w (redacted_event w inp m text title copies (ids 0) now) (s\<lparr>st_memories := t\<rparr>)) (\<lambda>s1.
     and_then (redact_copies w inp m text title ids now 1 copies s1) (\<lambda>(es, s2).
       Inr (ids 0 # es, s2))))"

section \<open>The operation\<close>

definition redact_report_of ::
  "world \<Rightarrow> redact_input \<Rightarrow> curated_memory \<Rightarrow> string \<Rightarrow> string \<Rightarrow> redact_status \<Rightarrow> string list \<Rightarrow> uuid list \<Rightarrow> redact_report" where
  "redact_report_of w inp m text title st copies events =
     \<lparr>rp_status = st, rp_mode = mode_kind (rd_mode inp), rp_old_hash = w_sha256 w (mem_content m),
      rp_new_hash = w_sha256 w text, rp_pattern_names = scan_names (w_env w) [mem_content m, mem_title m],
      rp_pattern_lines = pattern_lines (w_env w) (mem_content m), rp_title_changed = (title \<noteq> mem_title m),
      rp_candidates = copies, rp_events = events\<rparr>"

text \<open>The part after the checks: the writes, and the rollback when the disclosure gate refuses a copy.\<close>

definition write_redaction ::
  "world \<Rightarrow> redact_input \<Rightarrow> curated_memory \<Rightarrow> string \<Rightarrow> string \<Rightarrow> string list \<Rightarrow> (nat \<Rightarrow> uuid) \<Rightarrow> iso_datetime \<Rightarrow>
    store_state \<Rightarrow> fault + (redact_result \<times> string list) \<times> store_state" where
  "write_redaction w inp m text title copies ids now s =
     and_then (parse_memory w (redacted_memory w m text title now)) (\<lambda>updated.
       case redact_transaction w inp m updated text title copies ids now s of
         Inl (Disclosure_rejected _) \<Rightarrow> Inr ((Redact_refused D_disclosure, []), s)
       | Inl x \<Rightarrow> Inl x
       | Inr (events, s') \<Rightarrow>
           Inr ((Redact_ok (redact_report_of w inp m text title Redacted_status copies events),
                 collect_removed_fragments m (rd_mode inp) text title), s'))"

definition redact_found ::
  "world \<Rightarrow> redact_input \<Rightarrow> curated_memory \<Rightarrow> string \<Rightarrow> string \<Rightarrow> (nat \<Rightarrow> uuid) \<Rightarrow> iso_datetime \<Rightarrow>
    store_state \<Rightarrow> fault + (redact_result \<times> string list) \<times> store_state" where
  "redact_found w inp m text title ids now s =
     (let residual = scan_names (w_env w) [text, title];
          copies = candidate_copies m (w_sha256 w (mem_content m)) (st_candidates s)
      in if residual \<noteq> [] then Inr ((Redact_refused (D_residual_secret residual), []), s)
         else if scan_disclosure_fields (w_scan w) [text, title] \<noteq> None then Inr ((Redact_refused D_disclosure, []), s)
         else if text = mem_content m \<and> title = mem_title m then
           (if rd_mode inp = Mode_scan \<and> find_redactions_for (rd_memory inp) (st_audits s) = []
            then Inr ((Redact_refused D_nothing_to_redact, []), s)
            else Inr ((Redact_ok (redact_report_of w inp m text title Unchanged [] []), []), s))
         else if rd_dry inp then Inr ((Redact_ok (redact_report_of w inp m text title Would_redact copies []), []), s)
         else write_redaction w inp m text title copies ids now s)"

definition redact_memory ::
  "world \<Rightarrow> (string \<Rightarrow> string) \<Rightarrow> redact_input \<Rightarrow> (nat \<Rightarrow> uuid) \<Rightarrow> iso_datetime \<Rightarrow> store_state \<Rightarrow>
    fault + (redact_result \<times> string list) \<times> store_state" where
  "redact_memory w redact inp ids now s =
     (case refuse_request (w_env w) inp of
        Some x \<Rightarrow> Inr ((Redact_refused x, []), s)
      | None \<Rightarrow>
          and_then (find_memory (w_formats w) (rd_memory inp) (st_memories s)) (\<lambda>found.
            case found of
              None \<Rightarrow> Inr ((Redact_refused D_not_found, []), s)
            | Some m \<Rightarrow>
                if mem_tenant m \<noteq> rd_tenant inp then Inr ((Redact_refused D_not_found, []), s)
                else (case plan_replacement redact m inp of
                        Inl x \<Rightarrow> Inr ((Redact_refused x, []), s)
                      | Inr (text, title) \<Rightarrow> redact_found w inp m text title ids now s)))"

end
