(* ===== verification/Redaction_Laws.thy ===== *)
theory Redaction_Laws
  imports Redaction
begin

text \<open>
  What a redaction guarantees: the text outside the spans is kept, the memory and every copy of its
  text are rewritten, the removed text becomes a tombstone the insert refuses, every rewritten row has
  its receipt, and a refusal writes nothing.
\<close>

section \<open>Spans\<close>

text \<open>Pieces of text with other texts between them.\<close>

fun weave :: "string list \<Rightarrow> string list \<Rightarrow> string" where
  "weave [] rs = concat rs"
| "weave (p # ps) [] = p @ concat ps"
| "weave (p # ps) (r # rs) = p @ r @ weave ps rs"

definition span_text :: "string \<Rightarrow> redaction_span \<Rightarrow> string" where
  "span_text s p = js_slice (offset (span_start p)) (offset (span_end p)) s"

fun kept_from :: "string \<Rightarrow> nat \<Rightarrow> redaction_span list \<Rightarrow> string list" where
  "kept_from s k [] = [drop k s]"
| "kept_from s k (p # ps) = js_slice k (offset (span_start p)) s # kept_from s (offset (span_end p)) ps"

definition kept_pieces :: "string \<Rightarrow> redaction_span list \<Rightarrow> string list" where
  "kept_pieces s ps = kept_from s 0 ps"

lemma kept_from_markers: "apply_from s k ps = weave (kept_from s k ps) (replicate (length ps) redaction_marker)"
  by (induction ps arbitrary: k) simp_all

lemma slice_drop: "i \<le> j \<Longrightarrow> js_slice i j s @ drop j s = drop i s"
proof -
  assume "i \<le> j"
  have "drop i s = drop i (take j s) @ drop (i - length (take j s)) (drop j s)"
    unfolding drop_append [symmetric] by simp
  also have "drop (i - length (take j s)) (drop j s) = drop j s"
    using \<open>i \<le> j\<close> by (cases "j \<le> length s") simp_all
  finally show ?thesis by (simp add: js_slice_def)
qed

lemma offset_of: "js_is_integer x \<Longrightarrow> 0 \<le> x \<Longrightarrow> x = of_nat (offset x)"
proof -
  assume x: "js_is_integer x" "0 \<le> x"
  then have "(of_nat (nat \<lfloor>x\<rfloor>) :: rat) = of_int \<lfloor>x\<rfloor>" by (simp add: of_nat_nat)
  then show ?thesis using x(1) unfolding js_is_integer_def offset_def by (rule trans [symmetric])
qed

lemma kept_from_span:
  assumes "check_spans (length s) (of_nat k) ps = None" "k \<le> length s"
  shows "weave (kept_from s k ps) (map (span_text s) ps) = drop k s \<and> length (kept_from s k ps) = Suc (length ps)"
  using assms
proof (induction ps arbitrary: k)
  case (Cons p ps)
  then have p: "js_is_integer (span_start p)" "js_is_integer (span_end p)" "of_nat k \<le> span_start p"
      "span_start p < span_end p" "span_end p \<le> of_nat (length s)"
    and rest: "check_spans (length s) (span_end p) ps = None" and nn: "0 \<le> span_start p"
    by (auto split: if_splits)
  define i j where "i = offset (span_start p)" and "j = offset (span_end p)"
  have i: "span_start p = of_nat i" and j: "span_end p = of_nat j"
    using p nn offset_of unfolding i_def j_def by (meson less_imp_le order.trans)+
  have order: "k \<le> i" "i \<le> j" "j \<le> length s" using p(3-5) unfolding i j by simp_all
  have ih: "weave (kept_from s j ps) (map (span_text s) ps) = drop j s" "length (kept_from s j ps) = Suc (length ps)"
    using Cons.IH [of j] rest order(3) unfolding j by auto
  show ?case
    using ih slice_drop [OF order(1), of s] slice_drop [OF order(2), of s] unfolding kept_from.simps list.map weave.simps span_text_def
    by (simp flip: i_def j_def)
qed simp

lemma spans_keep_text:
  assumes "validate_spans ps (length s) = None"
  shows "apply_spans s ps = weave (kept_pieces s ps) (replicate (length ps) redaction_marker)
    \<and> s = weave (kept_pieces s ps) (map (span_text s) ps)"
  using kept_from_span [of s 0 ps] assms
  by (simp add: apply_spans_def kept_pieces_def kept_from_markers validate_spans_def split: if_splits)

section \<open>Tombstones\<close>

lemma details_read:
  assumes "row_to_event fmt r = Inr e"
  shows "json_parse (ar_details_json r) = Some (JObj (ev_details e))"
  using assms by (simp add: row_to_event_def split: option.splits jval.splits if_splits) auto

lemma redacted_iff_history:
  assumes "audits_ok fmt rows"
  shows "is_redacted_content H rows text tn \<longleftrightarrow>
    (\<exists>e \<in> set (history fmt rows). ev_action e = A_redacted \<and> ev_tenant_id e = tn
       \<and> detail e ''oldContentHash'' = Some (JStr (H text)))"
proof -
  have "(ar_action r = ''redacted'' \<and> ar_tenant_id r = tn \<and> old_hash_is (H text) r) \<longleftrightarrow>
      (ev_action (event_of fmt r) = A_redacted \<and> ev_tenant_id (event_of fmt r) = tn
       \<and> detail (event_of fmt r) ''oldContentHash'' = Some (JStr (H text)))" if row: "r \<in> set rows" for r
  proof -
    have r: "audit_row_ok fmt r" using assms row by (simp add: audits_ok_def)
    have "ar_action r = ''redacted'' \<longleftrightarrow> ev_action (event_of fmt r) = A_redacted"
      using action_vocab.name_inj [of "ev_action (event_of fmt r)" A_redacted] row_ok_fields(5) [OF r] by simp
    then show ?thesis
      using row_ok_fields(4) [OF r] details_read [OF row_ok_fields(1) [OF r]]
      by (simp add: old_hash_is_def detail_def)
  qed
  then show ?thesis by (auto simp: is_redacted_content_def list_ex_iff history_def)
qed

text \<open>The insert refuses text whose digest a receipt names.\<close>

lemma tombstone_refuses:
  assumes "is_redacted_content H audits (cand_content c) (cand_tenant c)"
  shows "\<exists>x. candidate_insert scan H audits hash batch c t = Inl x"
  using assms by (cases "candidate_insert scan H audits hash batch c t") (auto simp: candidate_insert_def and_then_Inr)

section \<open>The copies\<close>

definition rewritten_row :: "(string \<Rightarrow> string) \<Rightarrow> string \<Rightarrow> string option \<Rightarrow> candidate_row \<Rightarrow> candidate_row" where
  "rewritten_row H text title r =
     r\<lparr>kr_content := text, kr_title := (case title of None \<Rightarrow> kr_title r | Some t \<Rightarrow> t), kr_content_hash := H text\<rparr>"

definition new_title :: "curated_memory \<Rightarrow> string \<Rightarrow> string option" where
  "new_title m title = (if title \<noteq> mem_title m then Some title else None)"

text \<open>Rewriting the rows of a tenant whose id is in a set.\<close>

definition rewrite_copies ::
  "(string \<Rightarrow> string) \<Rightarrow> string \<Rightarrow> string option \<Rightarrow> tenant_id \<Rightarrow> string set \<Rightarrow> candidate_table \<Rightarrow> candidate_table" where
  "rewrite_copies H text title tn is t =
     map (\<lambda>r. if kr_id r \<in> is \<and> kr_tenant_id r = tn then rewritten_row H text title r else r) t"

lemma rewritten_row_cells [simp]:
  "kr_id (rewritten_row H text title r) = kr_id r" "kr_tenant_id (rewritten_row H text title r) = kr_tenant_id r"
  "rewritten_row H text title (rewritten_row H text title r) = rewritten_row H text title r"
  by (simp_all add: rewritten_row_def split: option.split)

lemma rewrite_copies_ids [simp]: "map kr_id (rewrite_copies H text title tn is t) = map kr_id t"
  by (simp add: rewrite_copies_def map_eq_conv)

lemma rewrite_copies_twice:
  "rewrite_copies H text title tn is (rewrite_copies H text title tn js t) = rewrite_copies H text title tn (is \<union> js) t"
  by (auto simp: rewrite_copies_def)

lemma rewrite_no_copies [simp]: "rewrite_copies H text title tn {} t = t"
  by (simp add: rewrite_copies_def)

lemma rewrite_absent: "find (own_row i tn) t = None \<Longrightarrow> rewrite_copies H text title tn {i} t = t"
  by (auto simp: rewrite_copies_def find_None_iff own_row_def intro!: map_idI)

lemma update_content_rewrites:
  assumes ids: "distinct (map kr_id t)" and st: "read_stored_text i tn t = Some (old, old_title)"
    and up: "update_content scan H i tn text (case title of None \<Rightarrow> old_title | Some n \<Rightarrow> n) t = Inr (h, t')"
  shows "t' = rewrite_copies H text title tn {i} t \<and> h = Some (H text)"
proof -
  obtain r where r: "find (own_row i tn) t = Some r" "kr_title r = old_title"
    using st by (auto simp: read_stored_text_def)
  then have in_t: "r \<in> set t" "own_row i tn r" by (auto dest: find_Some_in)
  have same: "x = r" if "x \<in> set t" "own_row i tn x" for x
    using that in_t ids by (auto simp: own_row_def dest: distinct_map_eqD)
  have "t' = map (\<lambda>x. if own_row i tn x then x\<lparr>kr_content := text, kr_title := case title of None \<Rightarrow> old_title | Some n \<Rightarrow> n,
      kr_content_hash := H text\<rparr> else x) t" "h = (if list_ex (own_row i tn) t then Some (H text) else None)"
    using up by (auto simp: update_content_def split: option.splits)
  moreover have "list_ex (own_row i tn) t" using in_t by (auto simp: list_ex_iff)
  ultimately show ?thesis
    using same r(2) by (auto simp: rewrite_copies_def rewritten_row_def own_row_def split: option.split)
qed

lemma redact_copies_effect:
  assumes "redact_copies w inp m text title ids now n cs s = Inr (es, s')" "audits_ok (w_formats w) (st_audits s)"
    "distinct (map kr_id (st_candidates s))"
  shows "audits_ok (w_formats w) (st_audits s')
    \<and> st_candidates s' = rewrite_copies (w_sha256 w) text (new_title m title) (mem_tenant m) (set cs) (st_candidates s)
    \<and> st_memories s' = st_memories s \<and> st_links s' = st_links s \<and> st_policies s' = st_policies s
    \<and> (\<exists>new. events_of w s' = events_of w s @ new \<and> map ev_id new = es \<and> (\<forall>e \<in> set new. ev_action e = A_redacted))"
  using assms
proof (induction cs arbitrary: n s es)
  case (Cons i cs)
  let ?tn = "mem_tenant m"
  let ?title = "new_title m title"
  show ?case
  proof (cases "read_stored_text i ?tn (st_candidates s)")
    case None
    then have "find (own_row i ?tn) (st_candidates s) = None" by (simp add: read_stored_text_def)
    then have "st_candidates s = rewrite_copies (w_sha256 w) text ?title ?tn {i} (st_candidates s)"
      by (simp add: rewrite_absent)
    then have "rewrite_copies (w_sha256 w) text ?title ?tn (set cs) (st_candidates s)
        = rewrite_copies (w_sha256 w) text ?title ?tn (set (i # cs)) (st_candidates s)"
      by (metis Un_insert_right list.simps(15) rewrite_copies_twice sup_bot_right)
    then show ?thesis using Cons.IH [of n s es] Cons.prems None by simp
  next
    case (Some p)
    obtain old old_title where p: "p = (old, old_title)" by (cases p)
    have ti: "(if title \<noteq> mem_title m then title else old_title) = (case ?title of None \<Rightarrow> old_title | Some x \<Rightarrow> x)"
      by (simp add: new_title_def)
    let ?up = "update_content (w_scan w) (w_sha256 w) i ?tn text (if title \<noteq> mem_title m then title else old_title) (st_candidates s)"
    obtain h t where up0: "?up = Inr (h, t)"
      using Cons.prems(1) Some p by (cases ?up) auto
    note up = up0 [unfolded ti]
    have t: "t = rewrite_copies (w_sha256 w) text ?title ?tn {i} (st_candidates s)" "h = Some (w_sha256 w text)"
      using update_content_rewrites [OF Cons.prems(3) Some [unfolded p] up] by auto
    let ?e = "copy_event w inp m i (w_sha256 w old) (w_sha256 w text) (ids n) now"
    obtain s1 es1 where wr: "write_event w ?e (s\<lparr>st_candidates := t\<rparr>) = Inr s1"
        and rest: "redact_copies w inp m text title ids now (Suc n) cs s1 = Inr (es1, s')" and es: "es = ids n # es1"
      using Cons.prems(1) Some p up0 t(2) by (auto simp: and_then_Inr)
    obtain x where x: "receipt_of w ?e x" "audits_ok (w_formats w) (st_audits s1)" "events_of w s1 = events_of w s @ [x]"
        "st_candidates s1 = t" "st_memories s1 = st_memories s" "st_links s1 = st_links s" "st_policies s1 = st_policies s"
      using write_event_history [OF _ wr] Cons.prems(2) by (auto simp: copy_event_def)
    have "distinct (map kr_id (st_candidates s1))" using Cons.prems(3) unfolding x(4) t(1) rewrite_copies_ids .
    note ih = Cons.IH [OF rest x(2) this]
    obtain new where new: "events_of w s' = events_of w s1 @ new" "map ev_id new = es1" "\<forall>e \<in> set new. ev_action e = A_redacted"
      using ih by blast
    have x': "ev_id x = ids n" "ev_action x = A_redacted" using receipt_fields [OF x(1)] by (simp_all add: copy_event_def)
    have "events_of w s' = events_of w s @ (x # new)" "map ev_id (x # new) = es" "\<forall>e \<in> set (x # new). ev_action e = A_redacted"
      using new x(3) x' es by simp_all
    moreover have "st_candidates s' = rewrite_copies (w_sha256 w) text ?title ?tn (set (i # cs)) (st_candidates s)"
      using ih unfolding x(4) t(1) rewrite_copies_twice by (simp add: Un_commute)
    ultimately show ?thesis using ih x(5,6,7) by metis
  qed
qed simp

section \<open>The transaction\<close>

lemma redacted_parse:
  assumes "memory_wf fmt m" "schema_memory fmt (redacted_memory w m text title now) = Some u"
  shows "u = (redacted_memory w m text title now)\<lparr>mem_content := js_trim text, mem_title := js_trim title\<rparr>"
  using assms by (cases m) (auto simp: memory_wf_def schema_memory_def redacted_memory_def non_empty_string_def Let_def
      split: Option.bind_splits if_splits)

lemma redacted_wf:
  assumes "memory_wf fmt m" "non_empty_string body = Some body" "non_empty_string ttl = Some ttl"
    "sha256_shape (w_sha256 w body)" "fmt_datetime fmt now"
  shows "memory_wf fmt (redacted_memory w m body ttl now)"
  using assms by (cases m) (auto simp: memory_wf_def schema_memory_def redacted_memory_def memory_refinement_def
      split: Option.bind_splits if_splits)

lemma redacted_event_keys: "json_distinct (JObj (ev_details (redacted_event w inp m text title copies eid now)))"
  by (simp add: redacted_event_def)

lemma redact_transaction_effect:
  assumes tx: "redact_transaction w inp m u text title copies ids now s = Inr (es, s')"
    and m: "table_ok (w_formats w) (st_memories s)" "mem_view w s i = Some m" "memory_wf (w_formats w) u" "mem_id u = i"
    and au: "audits_ok (w_formats w) (st_audits s)" and ks: "distinct (map kr_id (st_candidates s))"
  shows "mem_view w s' = (mem_view w s)(i \<mapsto> u) \<and> audits_ok (w_formats w) (st_audits s')
    \<and> st_candidates s' = rewrite_copies (w_sha256 w) text (new_title m title) (mem_tenant m) (set copies) (st_candidates s)
    \<and> st_links s' = st_links s \<and> st_policies s' = st_policies s
    \<and> (\<exists>x new. receipt_of w (redacted_event w inp m text title copies (ids 0) now) x
         \<and> events_of w s' = events_of w s @ x # new \<and> map ev_id (x # new) = es \<and> (\<forall>e \<in> set (x # new). ev_action e = A_redacted))"
proof -
  let ?e = "redacted_event w inp m text title copies (ids 0) now"
  obtain b t s1 es1 where up: "memory_update (w_scan w) u (st_memories s) = Inr (b, t)"
      and wr: "write_event w ?e (s\<lparr>st_memories := t\<rparr>) = Inr s1"
      and cs: "redact_copies w inp m text title ids now 1 copies s1 = Inr (es1, s')" and es: "es = ids 0 # es1"
    using tx by (auto simp: redact_transaction_def and_then_Inr)
  have t: "view (w_formats w) t = (mem_view w s)(i \<mapsto> u)"
    using update_stored [OF m(1) _ m(3) up] m(2,4) by simp
  obtain x where x: "receipt_of w ?e x" "audits_ok (w_formats w) (st_audits s1)" "events_of w s1 = events_of w s @ [x]"
      "st_candidates s1 = st_candidates s" "st_memories s1 = t" "st_links s1 = st_links s" "st_policies s1 = st_policies s"
    using write_event_history [OF _ wr redacted_event_keys] au by auto
  have "distinct (map kr_id (st_candidates s1))" using ks x(4) by simp
  note e = redact_copies_effect [OF cs x(2) this]
  obtain new where new: "events_of w s' = events_of w s1 @ new" "map ev_id new = es1" "\<forall>e \<in> set new. ev_action e = A_redacted"
    using e by blast
  have "ev_id x = ids 0" "ev_action x = A_redacted" using receipt_fields [OF x(1)] by (simp_all add: redacted_event_def)
  then have "events_of w s' = events_of w s @ x # new" "map ev_id (x # new) = es" "\<forall>e \<in> set (x # new). ev_action e = A_redacted"
    using new x(3) es by simp_all
  then show ?thesis using e x t by metis
qed

section \<open>How a redaction ends\<close>

abbreviation copies_of :: "world \<Rightarrow> curated_memory \<Rightarrow> store_state \<Rightarrow> string list" where
  "copies_of w m s \<equiv> candidate_copies m (w_sha256 w (mem_content m)) (st_candidates s)"

lemma write_redaction_cases:
  assumes "write_redaction w inp m text title copies ids now s = Inr ((ans, frags), s')"
  obtains x where "ans = Redact_refused x" "frags = []" "s' = s"
  | u es where "parse_memory w (redacted_memory w m text title now) = Inr u"
      "redact_transaction w inp m u text title copies ids now s = Inr (es, s')"
      "ans = Redact_ok (redact_report_of w inp m text title Redacted_status copies es)"
proof -
  obtain u where u: "parse_memory w (redacted_memory w m text title now) = Inr u"
    using assms by (auto simp: write_redaction_def and_then_Inr)
  show thesis
  proof (cases "redact_transaction w inp m u text title copies ids now s")
    case (Inl x)
    then have "ans = Redact_refused D_disclosure" "frags = []" "s' = s"
      using assms u by (auto simp: write_redaction_def split: fault.splits)
    then show thesis by (rule that(1))
  next
    case (Inr p)
    obtain es s1 where p: "p = (es, s1)" by (cases p)
    then have "s1 = s'" "ans = Redact_ok (redact_report_of w inp m text title Redacted_status copies es)"
      using assms u Inr by (simp_all add: write_redaction_def)
    then show thesis using that(2) [OF u] Inr p by blast
  qed
qed

lemma redact_found_cases:
  assumes "redact_found w inp m text title ids now s = Inr ((ans, frags), s')"
  obtains x where "ans = Redact_refused x" "frags = []" "s' = s"
  | rp where "ans = Redact_ok rp" "rp_status rp \<noteq> Redacted_status" "frags = []" "s' = s"
  | "write_redaction w inp m text title (copies_of w m s) ids now s = Inr ((ans, frags), s')" "\<not> rd_dry inp"
      "scan_names (w_env w) [text, title] = []" "scan_disclosure_fields (w_scan w) [text, title] = None"
  using assms unfolding redact_found_def Let_def
  by (simp split: if_split_asm) (auto simp: redact_report_of_def)

lemma redact_cases [consumes 2, case_names Refused Unwritten Written]:
  assumes run: "redact_memory w redact inp ids now s = Inr ((ans, frags), s')"
    and t: "table_ok (w_formats w) (st_memories s)"
  obtains x where "ans = Redact_refused x" "frags = []" "s' = s"
  | rp where "ans = Redact_ok rp" "rp_status rp \<noteq> Redacted_status" "frags = []" "s' = s"
  | m body title u es where "mem_view w s (rd_memory inp) = Some m" "mem_tenant m = rd_tenant inp"
      "plan_replacement redact m inp = Inr (body, title)" "refuse_request (w_env w) inp = None" "\<not> rd_dry inp"
      "scan_names (w_env w) [body, title] = []" "scan_disclosure_fields (w_scan w) [body, title] = None"
      "parse_memory w (redacted_memory w m body title now) = Inr u"
      "redact_transaction w inp m u body title (copies_of w m s) ids now s = Inr (es, s')"
      "ans = Redact_ok (redact_report_of w inp m body title Redacted_status (copies_of w m s) es)"
proof (cases "refuse_request (w_env w) inp")
  case (Some x)
  then show thesis using run by (intro that(1) [of x]) (simp_all add: redact_memory_def)
next
  case None
  note req = this
  show thesis
  proof (cases "mem_view w s (rd_memory inp)")
    case None
    then show thesis using run req find_memory_ok [OF t] by (intro that(1) [of D_not_found]) (simp_all add: redact_memory_def)
  next
    case (Some m)
    note m = this
    show thesis
    proof (cases "mem_tenant m = rd_tenant inp")
      case False
      then show thesis using run req m find_memory_ok [OF t] by (intro that(1) [of D_not_found]) (simp_all add: redact_memory_def)
    next
      case True
      show thesis
      proof (cases "plan_replacement redact m inp")
        case (Inl x)
        then show thesis using run req m True find_memory_ok [OF t] by (intro that(1) [of x]) (simp_all add: redact_memory_def)
      next
        case (Inr p)
        obtain body title where p: "p = (body, title)" by (cases p)
        have "redact_found w inp m body title ids now s = Inr ((ans, frags), s')"
          using run req m True Inr p find_memory_ok [OF t] by (simp add: redact_memory_def)
        then show thesis
        proof (cases rule: redact_found_cases)
          case 3
          from 3(1) show thesis
          proof (cases rule: write_redaction_cases)
            case (1 x)
            then show thesis by (rule that(1))
          next
            case (2 u es)
            then show thesis using that(3) [OF m True Inr [unfolded p] req 3(2-4)] by blast
          qed
        qed (fact that(1,2))+
      qed
    qed
  qed
qed

section \<open>The copies that are rewritten\<close>

lemma copies_members:
  assumes "distinct (map kr_id t)" "r \<in> set t" "kr_tenant_id r = mem_tenant m"
  shows "kr_id r \<in> set (candidate_copies m h t) \<longleftrightarrow> kr_id r = mem_candidate_id m \<or> kr_content_hash r = h"
proof
  assume "kr_id r \<in> set (candidate_copies m h t)"
  then have "kr_id r = mem_candidate_id m \<or> (\<exists>q \<in> set t. kr_content_hash q = h \<and> kr_id q = kr_id r)"
    by (auto simp: candidate_copies_def find_ids_by_content_hash_and_tenant_def split: if_split_asm)
  then show "kr_id r = mem_candidate_id m \<or> kr_content_hash r = h"
    using assms(1,2) by (auto dest: distinct_map_eqD)
next
  have "read_stored_text (mem_candidate_id m) (mem_tenant m) t \<noteq> None" if "kr_id r = mem_candidate_id m"
    using that assms(2,3) by (auto simp: read_stored_text_def own_row_def find_None_iff)
  then show "kr_id r = mem_candidate_id m \<or> kr_content_hash r = h \<Longrightarrow> kr_id r \<in> set (candidate_copies m h t)"
    using assms(2,3) by (auto simp: candidate_copies_def find_ids_by_content_hash_and_tenant_def)
qed

text \<open>The candidate rows of the tenant that hold the text: its own candidate and every row of its digest.\<close>

definition holds_copy :: "world \<Rightarrow> curated_memory \<Rightarrow> candidate_row \<Rightarrow> bool" where
  "holds_copy w m r \<longleftrightarrow> kr_tenant_id r = mem_tenant m
     \<and> (kr_id r = mem_candidate_id m \<or> kr_content_hash r = w_sha256 w (mem_content m))"

lemma rewrite_found_copies:
  assumes "distinct (map kr_id t)"
  shows "rewrite_copies H text title (mem_tenant m) (set (candidate_copies m (w_sha256 w (mem_content m)) t)) t
    = map (\<lambda>r. if holds_copy w m r then rewritten_row H text title r else r) t"
  using copies_members [OF assms] by (auto simp: rewrite_copies_def holds_copy_def)

section \<open>The text is gone and stays gone\<close>

lemma scan_names_None: "scan_names env [a, b] = [] \<longleftrightarrow> scan_text_for_secrets env a = [] \<and> scan_text_for_secrets env b = []"
proof -
  have "set (scan_names env [a, b])
      = sf_pattern_name ` set (scan_text_for_secrets env a) \<union> sf_pattern_name ` set (scan_text_for_secrets env b)"
    by (simp add: scan_names_def)
  then have "set (scan_names env [a, b]) = {} \<longleftrightarrow> scan_text_for_secrets env a = [] \<and> scan_text_for_secrets env b = []"
    by simp
  then show ?thesis by simp
qed

lemma memory_tenant_text: "memory_wf fmt m \<Longrightarrow> non_empty_string (mem_tenant m) = Some (mem_tenant m)"
  by (cases m) (auto simp: memory_wf_def schema_memory_def split: Option.bind_splits if_splits)

lemma redacted_receipt_detail:
  assumes "receipt_of w (redacted_event w inp m body ttl copies eid now) x" "memory_wf fmt m"
  shows "ev_action x = A_redacted" "ev_tenant_id x = mem_tenant m"
    "detail x ''oldContentHash'' = Some (JStr (w_sha256 w (mem_content m)))"
proof -
  note f = receipt_fields [OF assms(1)]
  show "ev_action x = A_redacted" "ev_tenant_id x = mem_tenant m"
    using f memory_tenant_text [OF assms(2)] by (simp_all add: redacted_event_def)
  have "ev_details x = map (\<lambda>kv. (fst kv, json_round (snd kv))) (ev_details (redacted_event w inp m body ttl copies eid now))"
    using f by blast
  then show "detail x ''oldContentHash'' = Some (JStr (w_sha256 w (mem_content m)))"
    by (simp add: detail_def redacted_event_def)
qed

text \<open>
  C6. A redaction replaces the text everywhere and keeps it out. The memory holds the replacement (as
  its schema trims it) under the next version and no other memory changes; its own candidate and every
  candidate of the tenant with the digest of the old text hold the replacement, and no other candidate
  changes; the replacement scans clean; every event that is added is a redaction receipt the report
  names; and the old text is a tombstone: no proposal of the tenant with that text is stored again.
\<close>

theorem redaction_replaces_and_tombstones:
  assumes "table_ok (w_formats w) (st_memories s)" "audits_ok (w_formats w) (st_audits s)"
    "distinct (map kr_id (st_candidates s))"
    and run: "redact_memory w redact inp ids now s = Inr ((Redact_ok rp, frags), s')" "rp_status rp = Redacted_status"
  shows "\<exists>m body ttl. mem_view w s (rd_memory inp) = Some m \<and> mem_tenant m = rd_tenant inp
    \<and> plan_replacement redact m inp = Inr (body, ttl)
    \<and> mem_view w s' = (mem_view w s)(rd_memory inp \<mapsto> m\<lparr>mem_content := js_trim body, mem_title := js_trim ttl,
        mem_content_hash := w_sha256 w body, updated_at := now, mem_version := mem_version m + 1\<rparr>)
    \<and> st_candidates s' = map (\<lambda>r. if holds_copy w m r then rewritten_row (w_sha256 w) body (new_title m ttl) r else r)
        (st_candidates s)
    \<and> scan_text_for_secrets (w_env w) body = [] \<and> scan_text_for_secrets (w_env w) ttl = []
    \<and> w_scan w body = None \<and> w_scan w ttl = None
    \<and> (\<exists>new. events_of w s' = events_of w s @ new \<and> map ev_id new = rp_events rp \<and> (\<forall>e \<in> set new. ev_action e = A_redacted))
    \<and> is_redacted_content (w_sha256 w) (st_audits s') (mem_content m) (mem_tenant m)
    \<and> (\<forall>scan hash batch c t. cand_content c = mem_content m \<and> cand_tenant c = mem_tenant m \<longrightarrow>
        (\<exists>x. candidate_insert scan (w_sha256 w) (st_audits s') hash batch c t = Inl x))"
  using run(1) assms(1)
proof (cases rule: redact_cases)
  case (Unwritten rp')
  then show ?thesis using run(2) by simp
next
  case (Written m body ttl u es)
  have wf: "memory_wf (w_formats w) m" "mem_id m = rd_memory inp" using view_wf [OF assms(1) Written(1)] by auto
  have u: "u = (redacted_memory w m body ttl now)\<lparr>mem_content := js_trim body, mem_title := js_trim ttl\<rparr>"
    using Written(8) redacted_parse [OF wf(1)] by (auto simp: parse_memory_def split: option.splits)
  have u': "u = m\<lparr>mem_content := js_trim body, mem_title := js_trim ttl, mem_content_hash := w_sha256 w body,
      updated_at := now, mem_version := mem_version m + 1\<rparr>"
    unfolding u by (cases m) (simp add: redacted_memory_def)
  have "memory_wf (w_formats w) u" "mem_id u = rd_memory inp"
    using parse_memory_wf [OF Written(8)] wf(2) by (simp_all add: redacted_memory_def)
  note e = redact_transaction_effect [OF Written(9) assms(1) Written(1) this assms(2,3)]
  obtain x new where x: "receipt_of w (redacted_event w inp m body ttl (copies_of w m s) (ids 0) now) x"
      "events_of w s' = events_of w s @ x # new" "map ev_id (x # new) = es" "\<forall>v \<in> set (x # new). ev_action v = A_redacted"
    using e by blast
  have "x \<in> set (events_of w s')" using x(2) by simp
  then have tomb: "is_redacted_content (w_sha256 w) (st_audits s') (mem_content m) (mem_tenant m)"
    using redacted_receipt_detail [OF x(1) wf(1)] e by (auto simp: redacted_iff_history)
  have "\<exists>q. candidate_insert scan (w_sha256 w) (st_audits s') hash batch c t = Inl q"
    if "cand_content c = mem_content m \<and> cand_tenant c = mem_tenant m" for scan hash batch c t
    using tombstone_refuses [of "w_sha256 w" "st_audits s'" c] tomb that by simp
  moreover have "rp_events rp = es" using Written(10) by (simp add: redact_report_of_def)
  moreover have "scan_text_for_secrets (w_env w) body = [] \<and> scan_text_for_secrets (w_env w) ttl = []
      \<and> w_scan w body = None \<and> w_scan w ttl = None"
    using Written(6,7) unfolding scan_names_None scan_fields_None by simp
  moreover have "mem_view w s' = (mem_view w s)(rd_memory inp \<mapsto> m\<lparr>mem_content := js_trim body, mem_title := js_trim ttl,
        mem_content_hash := w_sha256 w body, updated_at := now, mem_version := mem_version m + 1\<rparr>)"
    using e unfolding u' by blast
  moreover have "st_candidates s' = map (\<lambda>r. if holds_copy w m r then rewritten_row (w_sha256 w) body (new_title m ttl) r else r)
      (st_candidates s)"
    using e unfolding rewrite_found_copies [OF assms(3)] by blast
  ultimately show ?thesis using Written(1-3) x(2-4) tomb by blast
qed simp

section \<open>A redaction as governance steps\<close>

definition with_copy :: "string \<Rightarrow> string option \<Rightarrow> memory_candidate \<Rightarrow> memory_candidate" where
  "with_copy body ttl c = c\<lparr>cand_content := body, cand_title := (case ttl of None \<Rightarrow> cand_title c | Some t \<Rightarrow> t)\<rparr>"

lemma with_copy_cells [simp]:
  "cand_id (with_copy body ttl c) = cand_id c" "cand_tenant (with_copy body ttl c) = cand_tenant c"
  "cand_status (with_copy body ttl c) = cand_status c"
  by (simp_all add: with_copy_def)

lemma wf_with_copy:
  assumes "candidate_wf fmt c" "non_empty_string body = Some body" "\<And>t. ttl = Some t \<Longrightarrow> non_empty_string t = Some t"
  shows "candidate_wf fmt (with_copy body ttl c)"
  using assms by (cases c; cases ttl) (auto simp: candidate_wf_def schema_candidate_def candidate_refinement_def with_copy_def
      split: Option.bind_splits if_splits)

lemma row_with_copy: "rewritten_row H body ttl (candidate_to_row c h b) = candidate_to_row (with_copy body ttl c) (H body) b"
  by (cases ttl) (simp_all add: rewritten_row_def candidate_to_row_def with_copy_def)

lemma rewrite_copies_ok:
  assumes ok: "candidates_ok fmt t" and body: "non_empty_string body = Some body"
    and ttl: "\<And>n. ttl = Some n \<Longrightarrow> non_empty_string n = Some n"
  shows "candidates_ok fmt (rewrite_copies H body ttl tn is t)"
    and "candidate_view fmt (rewrite_copies H body ttl tn is t) j
      = map_option (\<lambda>c. if j \<in> is \<and> cand_tenant c = tn then with_copy body ttl c else c) (candidate_view fmt t j)"
proof -
  let ?f = "\<lambda>r. if kr_id r \<in> is \<and> kr_tenant_id r = tn then rewritten_row H body ttl r else r"
  have row: "\<exists>c h b. candidate_wf fmt c \<and> r = candidate_to_row c h b
      \<and> ?f r = candidate_to_row (if cand_id c \<in> is \<and> cand_tenant c = tn then with_copy body ttl c else c)
          (if cand_id c \<in> is \<and> cand_tenant c = tn then H body else h) b" if r: "r \<in> set t" for r
  proof -
    obtain c h b where c: "candidate_wf fmt c" "r = candidate_to_row c h b"
      using ok r unfolding candidates_ok_def by blast
    then have "?f r = candidate_to_row (if cand_id c \<in> is \<and> cand_tenant c = tn then with_copy body ttl c else c)
          (if cand_id c \<in> is \<and> cand_tenant c = tn then H body else h) b"
      by (simp add: row_with_copy candidate_row_cells)
    with c show ?thesis by blast
  qed
  have wf: "candidate_wf fmt (if P then with_copy body ttl c else c)" if "candidate_wf fmt c" for P c
    using wf_with_copy [OF that body ttl] that by simp
  have "\<exists>c h b. candidate_wf fmt c \<and> q = candidate_to_row c h b" if q: "q \<in> set (rewrite_copies H body ttl tn is t)" for q
  proof -
    obtain r where "r \<in> set t" "q = ?f r" using q by (auto simp: rewrite_copies_def)
    then show ?thesis using row [of r] wf by metis
  qed
  moreover have "distinct (map kr_id (rewrite_copies H body ttl tn is t))"
    unfolding rewrite_copies_ids using ok by (simp add: candidates_ok_def)
  ultimately show "candidates_ok fmt (rewrite_copies H body ttl tn is t)" unfolding candidates_ok_def by blast
  show "candidate_view fmt (rewrite_copies H body ttl tn is t) j
      = map_option (\<lambda>c. if j \<in> is \<and> cand_tenant c = tn then with_copy body ttl c else c) (candidate_view fmt t j)"
  proof (cases "find (\<lambda>r. kr_id r = j) t")
    case None
    then show ?thesis by (simp add: candidate_view_def rewrite_copies_def find_map_own)
  next
    case (Some r)
    then have r: "r \<in> set t" "kr_id r = j" using find_id_Some by auto
    obtain c h b where c: "candidate_wf fmt c" "r = candidate_to_row c h b"
        "?f r = candidate_to_row (if cand_id c \<in> is \<and> cand_tenant c = tn then with_copy body ttl c else c)
          (if cand_id c \<in> is \<and> cand_tenant c = tn then H body else h) b"
      using row [OF r(1)] by blast
    have "cand_id c = j" using r(2) c(2) by (simp add: candidate_row_cells)
    moreover have "row_to_candidate_safe fmt r = Some c"
      by (simp add: row_to_candidate_safe_def c(2) candidate_round_trip [OF c(1)])
    moreover have "row_to_candidate_safe fmt (?f r) = Some (if cand_id c \<in> is \<and> cand_tenant c = tn then with_copy body ttl c else c)"
      unfolding row_to_candidate_safe_def c(3) candidate_round_trip [OF wf [OF c(1)]] by simp
    moreover have "find (\<lambda>r. kr_id r = j) (rewrite_copies H body ttl tn is t) = Some (?f r)"
      using Some by (simp add: rewrite_copies_def find_map_own)
    ultimately show ?thesis using Some by (simp add: candidate_view_def)
  qed
qed

lemma rewrite_step:
  assumes "state_ok w s" "non_empty_string body = Some body" "\<And>n. ttl = Some n \<Longrightarrow> non_empty_string n = Some n"
  shows "gov_step w limits s (s\<lparr>st_candidates := rewrite_copies H body ttl tn is (st_candidates s)\<rparr>)"
proof (rule gs_candidates)
  note r = rewrite_copies_ok [OF state_ok_parts(1) [OF assms(1)] assms(2,3)]
  show "candidates_ok (w_formats w) (rewrite_copies H body ttl tn is (st_candidates s))" by (rule r(1))
  have "cand w s i = None \<or> (\<exists>c0. cand w s i = Some c0 \<and> cand_status c0 = Quarantined \<and> cand_tenant c0 = cand_tenant c)"
    if c: "candidate_view (w_formats w) (rewrite_copies H body ttl tn is (st_candidates s)) i = Some c" "cand_status c = Quarantined" for i c
  proof -
    obtain c0 where "cand w s i = Some c0" "c = (if i \<in> is \<and> cand_tenant c0 = tn then with_copy body ttl c0 else c0)"
      using c(1) by (auto simp: r(2))
    then show ?thesis using c(2) by (auto split: if_splits)
  qed
  then show "no_new_holds w s (rewrite_copies H body ttl tn is (st_candidates s))"
    unfolding no_new_holds_def by (auto simp: r(2))
qed

lemma copy_event_keys: "json_distinct (JObj (ev_details (copy_event w inp m i h1 h2 eid now)))" "ev_action (copy_event w inp m i h1 h2 eid now) \<noteq> A_held"
  by (simp_all add: copy_event_def)

lemma redact_copies_steps:
  assumes "redact_copies w inp m body ttl ids now n cs s = Inr (es, s')" "state_ok w s"
    "non_empty_string body = Some body" "non_empty_string ttl = Some ttl"
  shows "gov_steps w limits s s'"
  using assms(1,2)
proof (induction cs arbitrary: n s es)
  case (Cons i cs)
  let ?tn = "mem_tenant m" and ?title = "new_title m ttl"
  have ttl: "?title = Some x \<Longrightarrow> non_empty_string x = Some x" for x using assms(4) by (auto simp: new_title_def split: if_splits)
  have ids: "distinct (map kr_id (st_candidates s))" using state_ok_parts(1) [OF Cons.prems(2)] by (simp add: candidates_ok_def)
  show ?case
  proof (cases "read_stored_text i ?tn (st_candidates s)")
    case None
    then show ?thesis using Cons by simp
  next
    case (Some p)
    obtain old old_title where p: "p = (old, old_title)" by (cases p)
    have ti: "(if ttl \<noteq> mem_title m then ttl else old_title) = (case ?title of None \<Rightarrow> old_title | Some x \<Rightarrow> x)"
      by (simp add: new_title_def)
    let ?up = "update_content (w_scan w) (w_sha256 w) i ?tn body (if ttl \<noteq> mem_title m then ttl else old_title) (st_candidates s)"
    obtain h t where up0: "?up = Inr (h, t)" using Cons.prems(1) Some p by (cases ?up) auto
    have t: "t = rewrite_copies (w_sha256 w) body ?title ?tn {i} (st_candidates s)" "h = Some (w_sha256 w body)"
      using update_content_rewrites [OF ids Some [unfolded p] up0 [unfolded ti]] by auto
    let ?s = "s\<lparr>st_candidates := t\<rparr>"
    obtain s1 es1 where wr: "write_event w (copy_event w inp m i (w_sha256 w old) (w_sha256 w body) (ids n) now) ?s = Inr s1"
        and rest: "redact_copies w inp m body ttl ids now (Suc n) cs s1 = Inr (es1, s')"
      using Cons.prems(1) Some p up0 t(2) by (auto simp: and_then_Inr)
    have one: "gov_step w limits s ?s" unfolding t(1) by (rule rewrite_step [OF Cons.prems(2) assms(3) ttl])
    have two: "gov_step w limits ?s s1" by (rule gs_receipt [OF wr]) (rule copy_event_keys)+
    have "state_ok w s1" using step_state_ok [OF two step_state_ok [OF one Cons.prems(2)]] .
    from Cons.IH [OF rest this] show ?thesis by (rule gs_append) (rule gs_trans [OF gs_one [OF one] two])
  qed
qed (simp add: gs_refl)

lemma redaction_steps:
  assumes ok: "state_ok w s" and run: "redact_memory w redact inp ids now s = Inr ((ans, frags), s')"
    and trimmed: "\<And>m body ttl. plan_replacement redact m inp = Inr (body, ttl) \<Longrightarrow> js_trim body = body \<and> js_trim ttl = ttl"
  shows "gov_steps w limits s s'"
  using run state_ok_parts(2) [OF ok]
proof (cases rule: redact_cases)
  case (Written m body ttl u es)
  have wf: "mem_id m = rd_memory inp" using view_wf [OF state_ok_parts(2) [OF ok] Written(1)] by blast
  have texts: "non_empty_string body = Some body" "non_empty_string ttl = Some ttl"
    using Written(8) trimmed [OF Written(3)]
    by (auto simp: parse_memory_def schema_memory_def redacted_memory_def non_empty_string_def Let_def
        split: option.splits Option.bind_splits if_splits)
  obtain b t s1 es1 where up: "memory_update (w_scan w) u (st_memories s) = Inr (b, t)"
      and wr: "write_event w (redacted_event w inp m body ttl (copies_of w m s) (ids 0) now) (s\<lparr>st_memories := t\<rparr>) = Inr s1"
      and cs: "redact_copies w inp m body ttl ids now 1 (copies_of w m s) s1 = Inr (es1, s')"
    using Written(9) by (auto simp: redact_transaction_def and_then_Inr)
  have u: "memory_wf (w_formats w) u" "mem_id u = rd_memory inp"
    using parse_memory_wf [OF Written(8)] wf by (simp_all add: redacted_memory_def)
  have "table_ok (w_formats w) t"
    using update_stored [OF state_ok_parts(2) [OF ok] _ u(1) up] Written(1) u(2) by simp
  then have one: "gov_step w limits s (s\<lparr>st_memories := t\<rparr>)" by (rule gs_memories)
  have two: "gov_step w limits (s\<lparr>st_memories := t\<rparr>) s1"
    by (rule gs_receipt [OF wr _ redacted_event_keys]) (simp add: redacted_event_def)
  have "state_ok w s1" by (rule step_state_ok [OF two step_state_ok [OF one ok]])
  from redact_copies_steps [OF cs this texts] show ?thesis
    by (rule gs_append) (rule gs_trans [OF gs_one [OF one] two])
qed (auto intro: gs_refl)

section \<open>A refusal writes nothing\<close>

text \<open>
  Only a redaction that goes through writes. A refusal, a dry run and a re-run that finds the text
  already in place leave the database as it was and hand out no removed text. A request without a
  reason or an actor, one whose reason itself carries a secret, one for a memory of another tenant,
  and one whose replacement still matches a secret pattern or the disclosure scanner is refused.
\<close>

theorem redaction_refusal_writes_nothing:
  assumes "table_ok (w_formats w) (st_memories s)" "redact_memory w redact inp ids now s = Inr ((ans, frags), s')"
  shows "((\<forall>rp. ans = Redact_ok rp \<longrightarrow> rp_status rp \<noteq> Redacted_status) \<longrightarrow> s' = s \<and> frags = [])
    \<and> (rd_dry inp \<longrightarrow> s' = s)
    \<and> (js_trim (rd_reason inp) = [] \<or> js_trim (rd_actor inp) = [] \<or> scan_text_for_secrets (w_env w) (rd_reason inp) \<noteq> []
        \<or> map_option mem_tenant (mem_view w s (rd_memory inp)) \<noteq> Some (rd_tenant inp) \<longrightarrow> (\<exists>x. ans = Redact_refused x))
    \<and> (\<forall>m body ttl. mem_view w s (rd_memory inp) = Some m \<and> plan_replacement redact m inp = Inr (body, ttl)
        \<and> (scan_text_for_secrets (w_env w) body \<noteq> [] \<or> scan_text_for_secrets (w_env w) ttl \<noteq> []
           \<or> w_scan w body \<noteq> None \<or> w_scan w ttl \<noteq> None) \<longrightarrow> (\<exists>x. ans = Redact_refused x))"
proof -
  have early: "\<exists>x. ans = Redact_refused x"
    if "refuse_request (w_env w) inp \<noteq> None \<or> map_option mem_tenant (mem_view w s (rd_memory inp)) \<noteq> Some (rd_tenant inp)"
    using assms(2) that find_memory_ok [OF assms(1)] unfolding redact_memory_def
    by (cases "refuse_request (w_env w) inp"; cases "mem_view w s (rd_memory inp)") auto
  have late: "\<exists>x. ans = Redact_refused x"
    if m: "mem_view w s (rd_memory inp) = Some m" and pl: "plan_replacement redact m inp = Inr (body, ttl)"
      and bad: "scan_text_for_secrets (w_env w) body \<noteq> [] \<or> scan_text_for_secrets (w_env w) ttl \<noteq> []
        \<or> w_scan w body \<noteq> None \<or> w_scan w ttl \<noteq> None" for m body ttl
  proof (cases "refuse_request (w_env w) inp = None \<and> mem_tenant m = rd_tenant inp")
    case True
    then have "redact_found w inp m body ttl ids now s = Inr ((ans, frags), s')"
      using assms(2) m pl find_memory_ok [OF assms(1)] by (simp add: redact_memory_def)
    moreover have "scan_names (w_env w) [body, ttl] \<noteq> [] \<or> scan_disclosure_fields (w_scan w) [body, ttl] \<noteq> None"
      using bad unfolding scan_names_None scan_fields_None by auto
    ultimately show ?thesis unfolding redact_found_def Let_def by (auto split: if_split_asm)
  next
    case False
    then show ?thesis using early m by auto
  qed
  have "((\<forall>rp. ans = Redact_ok rp \<longrightarrow> rp_status rp \<noteq> Redacted_status) \<longrightarrow> s' = s \<and> frags = []) \<and> (rd_dry inp \<longrightarrow> s' = s)"
    using assms(2,1) by (cases rule: redact_cases) (auto simp: redact_report_of_def)
  moreover have "refuse_request (w_env w) inp \<noteq> None"
    if "js_trim (rd_reason inp) = [] \<or> js_trim (rd_actor inp) = [] \<or> scan_text_for_secrets (w_env w) (rd_reason inp) \<noteq> []"
    using that by (auto simp: refuse_request_def)
  ultimately show ?thesis using early late by blast
qed

section \<open>A concrete redaction\<close>

text \<open>The memory of \<open>one_memory\<close> with the candidate it was promoted from.\<close>

definition copied_memory :: store_state where
  "copied_memory = one_memory\<lparr>st_candidates := [candidate_to_row (plain_candidate ''c1'' ''a text'') ''a text'' None]\<rparr>"

definition plain_redaction :: redact_input where
  "plain_redaction = \<lparr>rd_memory = ''m1'', rd_tenant = ''team'', rd_actor = ''alice'', rd_reason = ''payroll'',
     rd_mode = Mode_replacement plain_text, rd_title = None, rd_dry = False\<rparr>"

definition two_ids :: "nat \<Rightarrow> uuid" where
  "two_ids n = (if n = 0 then ''e0'' else ''e1'')"

lemma plain_redaction_simps [simp]:
  "rd_memory plain_redaction = ''m1''" "rd_tenant plain_redaction = ''team''" "rd_actor plain_redaction = ''alice''"
  "rd_reason plain_redaction = ''payroll''" "rd_mode plain_redaction = Mode_replacement plain_text"
  "rd_title plain_redaction = None" "\<not> rd_dry plain_redaction"
  by (simp_all add: plain_redaction_def)

lemma copied_memory_parts [simp]:
  "st_memories copied_memory = st_memories one_memory" "st_audits copied_memory = []"
  "st_candidates copied_memory = [candidate_to_row (plain_candidate ''c1'' ''a text'') ''a text'' None]"
  by (simp_all add: copied_memory_def one_memory_def)

lemma no_secrets_here [simp]: "scan_text_for_secrets (w_env plain_world) t = []"
  by (simp add: scan_text_for_secrets_def plain_world_def)

lemma written_fresh:
  assumes "schema_event (w_formats w) e = Some x" "ev_id e \<notin> set (map ar_id (st_audits s))"
  shows "\<exists>s'. write_event w e s = Inr s' \<and> map ar_id (st_audits s') = map ar_id (st_audits s) @ [ev_id e]
    \<and> st_candidates s' = st_candidates s"
  using assms schema_event_fields [OF assms(1)]
  by (simp add: write_event_def parse_event_def insert_event_def audit_insert_def audit_append_row_def Let_def)

lemma plain_parses:
  "ev_tenant_id e = ''team'' \<Longrightarrow> ev_actor e = human_actor ''alice'' \<Longrightarrow> ev_reason e = Some ''payroll'' \<Longrightarrow>
     \<exists>x. schema_event any_format e = Some x"
  by (simp add: schema_event_def schema_author_def human_actor_def schema_optional_def non_empty_string_def
      narrowing_texts any_format_def)

lemma plain_redaction_runs:
  "\<exists>rp frags s'. redact_memory plain_world (\<lambda>t. t) plain_redaction two_ids ''t1'' copied_memory = Inr ((Redact_ok rp, frags), s')
     \<and> rp_status rp = Redacted_status"
proof -
  let ?m = "plain_memory ''m1'' ''a text''"
  let ?s = copied_memory
  have m: "mem_tenant ?m = ''team''" "mem_title ?m = ''A title''" "mem_content ?m = ''a text''" "mem_candidate_id ?m = ''c1''"
    by (simp_all add: plain_memory_def)
  have ne: "plain_text \<noteq> ''a text''" by code_simp
  have "js_trim plain_text = plain_text" "plain_text \<noteq> []"
    using plain_text_ok(1) by (auto simp: non_empty_string_def Let_def split: if_splits)
  moreover have "js_trim ''A title'' = ''A title''" by code_simp
  ultimately have pl: "plan_replacement (\<lambda>t. t) ?m plain_redaction = Inr (plain_text, ''A title'')"
    by (simp add: plan_replacement_def m)
  have cs: "candidate_copies ?m ''a text'' (st_candidates ?s) = [''c1'']"
    by (simp add: candidate_copies_def m read_stored_text_def own_row_def candidate_row_cells find_ids_by_content_hash_and_tenant_def
        js_set_def) (simp add: plain_candidate_def)
  have wfm: "memory_wf any_format ?m" by (rule plain_memory_wf) simp
  have "non_empty_string ''A title'' = Some ''A title''" by code_simp
  then have "schema_memory any_format (redacted_memory plain_world ?m plain_text ''A title'' ''t1'')
      = Some (redacted_memory plain_world ?m plain_text ''A title'' ''t1'')"
    using redacted_wf [OF wfm plain_text_ok(1), of "''A title''" plain_world "''t1''"] plain_text_ok(2)
    by (simp add: memory_wf_def any_format_def)
  then obtain u where u: "parse_memory plain_world (redacted_memory plain_world ?m plain_text ''A title'' ''t1'') = Inr u"
    by (simp add: parse_memory_def)
  then have "memory_wf any_format u" using parse_memory_wf [OF u] by simp
  then obtain b t where up: "memory_update (w_scan plain_world) u (st_memories ?s) = Inr (b, t)"
    by (simp add: memory_update_def membership_ok)
  let ?e = "redacted_event plain_world plain_redaction ?m plain_text ''A title'' [''c1''] (two_ids 0) ''t1''"
  obtain x where x: "schema_event (w_formats plain_world) ?e = Some x"
    using plain_parses [of ?e] by (auto simp: redacted_event_def m)
  obtain s1 where s1: "write_event plain_world ?e (?s\<lparr>st_memories := t\<rparr>) = Inr s1"
      "map ar_id (st_audits s1) = [''e0'']" "st_candidates s1 = st_candidates ?s"
    using written_fresh [OF x, of "?s\<lparr>st_memories := t\<rparr>"] by (auto simp: redacted_event_def two_ids_def)
  let ?f = "copy_event plain_world plain_redaction ?m ''c1'' ''a text'' plain_text (two_ids (Suc 0)) ''t1''"
  obtain y where y: "schema_event (w_formats plain_world) ?f = Some y"
    using plain_parses [of ?f] by (auto simp: copy_event_def m)
  have st: "read_stored_text ''c1'' ''team'' (st_candidates s1) = Some (''a text'', ''A title'')"
    by (simp add: s1(3) read_stored_text_def own_row_def candidate_row_cells) (simp add: plain_candidate_def candidate_to_row_def)
  have own: "list_ex (own_row ''c1'' ''team'') (st_candidates s1)"
    by (simp add: s1(3) own_row_def candidate_row_cells) (simp add: plain_candidate_def)
  obtain t2 where t2: "update_content (\<lambda>_. None) (\<lambda>t. t) ''c1'' ''team'' plain_text ''A title'' (st_candidates s1) = Inr (Some plain_text, t2)"
    using own by (simp add: update_content_def)
  obtain s2 where s2: "write_event plain_world ?f (s1\<lparr>st_candidates := t2\<rparr>) = Inr s2"
    using written_fresh [OF y, of "s1\<lparr>st_candidates := t2\<rparr>"] s1(2) by (auto simp: copy_event_def two_ids_def)
  have "redact_copies plain_world plain_redaction ?m plain_text ''A title'' two_ids ''t1'' (Suc 0) [''c1''] s1 = Inr ([two_ids (Suc 0)], s2)"
    using st t2 s2 by (simp add: m)
  then have "redact_transaction plain_world plain_redaction ?m u plain_text ''A title'' [''c1''] two_ids ''t1'' ?s
      = Inr ([two_ids 0, two_ids (Suc 0)], s2)"
    using up s1(1) by (simp add: redact_transaction_def)
  then have "\<exists>frags. write_redaction plain_world plain_redaction ?m plain_text ''A title'' [''c1''] two_ids ''t1'' ?s
      = Inr ((Redact_ok (redact_report_of plain_world plain_redaction ?m plain_text ''A title'' Redacted_status [''c1''] [two_ids 0, two_ids (Suc 0)]),
          frags), s2)"
    using u by (simp add: write_redaction_def)
  moreover have "redact_found plain_world plain_redaction ?m plain_text ''A title'' two_ids ''t1'' ?s
      = write_redaction plain_world plain_redaction ?m plain_text ''A title'' [''c1''] two_ids ''t1'' ?s"
    using cs ne by (simp add: redact_found_def scan_names_def m)
  moreover have "rp_status (redact_report_of plain_world plain_redaction ?m plain_text ''A title'' Redacted_status [''c1'']
      [two_ids 0, two_ids (Suc 0)]) = Redacted_status"
    by (simp add: redact_report_of_def)
  ultimately have "\<exists>rp frags. redact_found plain_world plain_redaction ?m plain_text ''A title'' two_ids ''t1'' ?s = Inr ((Redact_ok rp, frags), s2)
      \<and> rp_status rp = Redacted_status"
    by metis
  then show ?thesis
    using pl one_memory_view find_memory_ok [OF state_ok_parts(2) [OF one_memory_ok], of "''m1''"] m(1)
    by (auto simp: redact_memory_def refuse_request_def narrowing_texts)
qed

lemma copied_memory_ok:
  "table_ok any_format (st_memories copied_memory)" "audits_ok any_format (st_audits copied_memory)"
  "distinct (map kr_id (st_candidates copied_memory))"
  using state_ok_parts [OF one_memory_ok] by (simp_all add: one_memory_def)

theorem redaction_replaces_and_tombstones_witness:
  "\<exists>rp frags s'. redact_memory plain_world (\<lambda>t. t) plain_redaction two_ids ''t1'' copied_memory = Inr ((Redact_ok rp, frags), s')
     \<and> map_option mem_content (mem_view plain_world s' ''m1'') = Some plain_text
     \<and> map kr_content (st_candidates s') = [plain_text]
     \<and> is_redacted_content (\<lambda>t. t) (st_audits s') ''a text'' ''team''"
proof -
  obtain rp frags s' where run: "redact_memory plain_world (\<lambda>t. t) plain_redaction two_ids ''t1'' copied_memory = Inr ((Redact_ok rp, frags), s')"
      "rp_status rp = Redacted_status"
    using plain_redaction_runs by blast
  have trim: "js_trim plain_text = plain_text" using plain_text_ok(1) by (auto simp: non_empty_string_def Let_def split: if_splits)
  have pl: "plan_replacement (\<lambda>t. t) m plain_redaction = Inr (body, ttl) \<Longrightarrow> body = plain_text \<and> js_trim body = plain_text" for m body ttl
    using trim by (auto simp: plan_replacement_def Let_def split: if_splits)
  have v: "mem_view plain_world copied_memory ''m1'' = Some (plain_memory ''m1'' ''a text'')" using one_memory_view by simp
  have copy: "holds_copy plain_world (plain_memory ''m1'' ''a text'') (candidate_to_row (plain_candidate ''c1'' ''a text'') ''a text'' None)"
    by (simp add: holds_copy_def candidate_row_cells) (simp add: plain_candidate_def plain_memory_def)
  have fields: "mem_content (plain_memory ''m1'' ''a text'') = ''a text''" "mem_tenant (plain_memory ''m1'' ''a text'') = ''team''"
    by (simp_all add: plain_memory_def)
  have "\<exists>m body ttl. mem_view plain_world copied_memory ''m1'' = Some m
      \<and> plan_replacement (\<lambda>t. t) m plain_redaction = Inr (body, ttl)
      \<and> map_option mem_content (mem_view plain_world s' ''m1'') = Some (js_trim body)
      \<and> st_candidates s' = map (\<lambda>r. if holds_copy plain_world m r then rewritten_row (w_sha256 plain_world) body (new_title m ttl) r else r)
          (st_candidates copied_memory)
      \<and> is_redacted_content (\<lambda>t. t) (st_audits s') (mem_content m) (mem_tenant m)"
    using redaction_replaces_and_tombstones [of plain_world copied_memory "\<lambda>t. t" plain_redaction two_ids "''t1''" rp frags s']
      copied_memory_ok run by fastforce
  then obtain body ttl where "plan_replacement (\<lambda>t. t) (plain_memory ''m1'' ''a text'') plain_redaction = Inr (body, ttl)"
      "map_option mem_content (mem_view plain_world s' ''m1'') = Some (js_trim body)"
      "map kr_content (st_candidates s') = [body]" "is_redacted_content (\<lambda>t. t) (st_audits s') ''a text'' ''team''"
    using v copy fields by (auto simp: rewritten_row_def)
  then show ?thesis using run(1) pl by metis
qed

theorem redaction_refusal_writes_nothing_witness:
  "\<exists>x frags s'. redact_memory plain_world (\<lambda>t. t) (plain_redaction\<lparr>rd_reason := []\<rparr>) two_ids ''t1'' copied_memory
      = Inr ((Redact_refused x, frags), s') \<and> s' = copied_memory \<and> frags = []"
proof -
  have run: "redact_memory plain_world (\<lambda>t. t) (plain_redaction\<lparr>rd_reason := []\<rparr>) two_ids ''t1'' copied_memory
      = Inr ((Redact_refused D_missing_reason, []), copied_memory)"
    by (simp add: redact_memory_def refuse_request_def js_trim_def)
  then show ?thesis
    using redaction_refusal_writes_nothing [of plain_world copied_memory "\<lambda>t. t" "plain_redaction\<lparr>rd_reason := []\<rparr>" two_ids "''t1''"
        "Redact_refused D_missing_reason" "[]" copied_memory] copied_memory_ok(1)
    by simp
qed

section \<open>Only the spans are removed\<close>

lemma check_spans_iff:
  "check_spans n prev ps = None \<longleftrightarrow>
     (\<forall>p \<in> set ps. js_is_integer (span_start p) \<and> js_is_integer (span_end p) \<and> 0 \<le> span_start p
        \<and> span_start p < span_end p \<and> span_end p \<le> of_nat n \<and> prev \<le> span_start p)
     \<and> sorted_wrt (\<lambda>p q. span_end p \<le> span_start q) ps"
proof (induction ps arbitrary: prev)
  case (Cons p ps)
  have "check_spans n prev (p # ps) = None \<longleftrightarrow>
      js_is_integer (span_start p) \<and> js_is_integer (span_end p) \<and> 0 \<le> span_start p \<and> span_start p < span_end p
      \<and> span_end p \<le> of_nat n \<and> prev \<le> span_start p \<and> check_spans n (span_end p) ps = None"
    by (simp add: not_le not_less del: js_is_integer_def) linarith
  then show ?case unfolding Cons.IH by fastforce
qed simp

text \<open>
  A redaction by spans removes the spans and nothing else. Spans are accepted exactly when there is
  one, all are whole, inside the content and not empty, and they are in order and do not overlap. Then
  the content is kept pieces with the text of the spans between them, and the replacement is the same
  pieces with a marker between them.
\<close>

theorem redaction_keeps_text_outside_spans:
  "(validate_spans ps (length s) = None \<longleftrightarrow> ps \<noteq> []
     \<and> (\<forall>p \<in> set ps. js_is_integer (span_start p) \<and> js_is_integer (span_end p) \<and> 0 \<le> span_start p
          \<and> span_start p < span_end p \<and> span_end p \<le> of_nat (length s))
     \<and> sorted_wrt (\<lambda>p q. span_end p \<le> span_start q) ps)
   \<and> (validate_spans ps (length s) = None \<longrightarrow>
        (\<exists>kept. length kept = Suc (length ps) \<and> s = weave kept (map (span_text s) ps)
           \<and> apply_spans s ps = weave kept (replicate (length ps) redaction_marker)))"
proof -
  have "validate_spans ps (length s) = None \<longrightarrow> length (kept_pieces s ps) = Suc (length ps)"
    using kept_from_span [of s 0 ps] by (simp add: validate_spans_def kept_pieces_def split: if_splits)
  moreover have "validate_spans ps (length s) = None \<longleftrightarrow> ps \<noteq> [] \<and> check_spans (length s) 0 ps = None"
    by (simp add: validate_spans_def)
  ultimately show ?thesis using spans_keep_text [of ps s] unfolding check_spans_iff by blast
qed

theorem redaction_keeps_text_outside_spans_witness:
  "apply_spans ''my key is abc ok'' [\<lparr>span_start = 10, span_end = 13\<rparr>] = ''my key is [REDACTED] ok''
   \<and> (\<exists>kept. length kept = 2 \<and> ''my key is abc ok'' = weave kept [''abc''])"
proof -
  have "validate_spans [\<lparr>span_start = 10, span_end = 13\<rparr>] (length ''my key is abc ok'') = None" by code_simp
  then obtain kept where "length kept = Suc (Suc 0)" "''my key is abc ok'' = weave kept [span_text ''my key is abc ok'' \<lparr>span_start = 10, span_end = 13\<rparr>]"
    using redaction_keeps_text_outside_spans [of "[\<lparr>span_start = 10, span_end = 13\<rparr>]" "''my key is abc ok''"] by auto
  moreover have "apply_spans ''my key is abc ok'' [\<lparr>span_start = 10, span_end = 13\<rparr>] = ''my key is [REDACTED] ok''" by code_simp
  moreover have "span_text ''my key is abc ok'' \<lparr>span_start = 10, span_end = 13\<rparr> = ''abc''" by code_simp
  ultimately show ?thesis unfolding numeral_2_eq_2 by metis
qed

end
