(* ===== verification/Candidate_Intake.thy ===== *)
theory Candidate_Intake
  imports Redaction_Laws
begin

text \<open>
  The one intake of proposals, \<open>curator/src/intake/candidate-intake.ts\<close>: the fields the server
  owns, the channel and disclosure checks, the replays, and the audited write of the candidate and its
  proposal receipt. The payload is the typed object zod receives.
\<close>

section \<open>Callers and refusals\<close>

record intake_context =
  ic_actor :: "string option"
  ic_role :: "string option"
  ic_tenants :: "string list option"

datatype intake_error =
    Intake_invalid
  | Intake_other_tenant string
  | Intake_channel string
  | Intake_disclosure
  | Intake_redacted
  | Intake_not_retained string
  | Intake_fault fault

datatype intake_result =
    Intake_created memory_candidate
  | Intake_already_exists memory_candidate

definition default_allowed_origin_channels :: "string list" where
  "default_allowed_origin_channels = [''team-mcp'', ''local-mcp'']"

definition lift_fault :: "fault + 'a \<Rightarrow> intake_error + 'a" where
  "lift_fault r = (case r of Inl e \<Rightarrow> Inl (Intake_fault e) | Inr x \<Rightarrow> Inr x)"

lemma lift_fault_simps [simp]: "lift_fault (Inl e) = Inl (Intake_fault e)" "lift_fault (Inr x) = Inr x"
  by (simp_all add: lift_fault_def)

lemma lift_fault_Inr [simp]: "lift_fault r = Inr x \<longleftrightarrow> r = Inr x"
  by (auto simp: lift_fault_def split: sum.split)

section \<open>The fields the server owns\<close>

definition named_actor :: "intake_context \<Rightarrow> string option" where
  "named_actor ctx = (case ic_actor ctx of None \<Rightarrow> None | Some a \<Rightarrow> if a = [] then None else Some a)"

definition owned_author :: "intake_context \<Rightarrow> author \<Rightarrow> author" where
  "owned_author ctx a = (case named_actor ctx of None \<Rightarrow> a | Some i \<Rightarrow> human_actor i)"

definition owned_trust :: "intake_context \<Rightarrow> trust_level \<Rightarrow> trust_level" where
  "owned_trust ctx t = (if ic_role ctx = Some ''member'' then Untrusted else t)"

definition owned_tenant :: "intake_context \<Rightarrow> tenant_id \<Rightarrow> tenant_id" where
  "owned_tenant ctx t = (case ic_tenants ctx of Some [x] \<Rightarrow> x | _ \<Rightarrow> t)"

definition owned_metadata :: "intake_context \<Rightarrow> content_metadata \<Rightarrow> content_metadata" where
  "owned_metadata ctx md = (case ic_role ctx of None \<Rightarrow> md | Some r \<Rightarrow> md\<lparr>proposed_by_role := Some r\<rparr>)"

definition clear_flags :: pre_policy_flags where
  "clear_flags = \<lparr>potential_secret = False, low_confidence = False, duplicate_suspect = False\<rparr>"

definition apply_intake_overrides :: "world \<Rightarrow> intake_context \<Rightarrow> memory_candidate \<Rightarrow> intake_error + memory_candidate" where
  "apply_intake_overrides w ctx c =
     (case schema_candidate (w_formats w)
        (c\<lparr>cand_author := owned_author ctx (cand_author c), cand_trust := owned_trust ctx (cand_trust c),
           cand_tenant := owned_tenant ctx (cand_tenant c), cand_flags := clear_flags,
           cand_metadata := owned_metadata ctx (cand_metadata c)\<rparr>) of
        None \<Rightarrow> Inl (Intake_fault (Schema_refused ''MemoryCandidate'')) | Some x \<Rightarrow> Inr x)"

text \<open>\<open>prepareIntakeCandidate\<close>: schema, channel claim, overrides, disclosure scan.\<close>

definition prepare_intake_candidate ::
  "world \<Rightarrow> memory_candidate \<Rightarrow> intake_context \<Rightarrow> string list \<Rightarrow> intake_error + memory_candidate" where
  "prepare_intake_candidate w data ctx allowed =
     (case schema_candidate (w_formats w) data of
        None \<Rightarrow> Inl Intake_invalid
      | Some c \<Rightarrow>
          and_then (case cand_origin c of
              Some og \<Rightarrow> if channel og \<notin> set allowed then Inl (Intake_channel (channel og)) else Inr ()
            | None \<Rightarrow> Inr ()) (\<lambda>_.
          and_then (apply_intake_overrides w ctx c) (\<lambda>owned.
            if assert_disclosure_clean (w_scan w) owned \<noteq> Inr () then Inl Intake_disclosure else Inr owned)))"

section \<open>The intake\<close>

definition proposed_event ::
  "world \<Rightarrow> memory_candidate \<Rightarrow> intake_context \<Rightarrow> iso_datetime \<Rightarrow> audit_event" where
  "proposed_event w c ctx now =
     \<lparr>ev_id = audit_id w (cand_id c) A_proposed [], ev_action = A_proposed, ev_memory_id = cand_id c,
      ev_tenant_id = cand_tenant c,
      ev_actor = (case named_actor ctx of
                    None \<Rightarrow> \<lparr>author_kind = System, author_id = ''intake'', author_name = None\<rparr>
                  | Some a \<Rightarrow> human_actor a),
      ev_reason = Some ''Candidate proposed to the governed inbox'',
      ev_details =
        [(''candidateId'', JStr (cand_id c)), (''contentHash'', JStr (w_sha256 w (cand_content c))),
         (''tenantId'', JStr (cand_tenant c)),
         (''proposedByRole'', JStr (case ic_role ctx of None \<Rightarrow> ''unknown'' | Some r \<Rightarrow> r)), (''at'', JStr now)],
      ev_timestamp = now\<rparr>"

text \<open>The read-back of both rows inside the transaction.\<close>

definition intake_retained ::
  "world \<Rightarrow> memory_candidate \<Rightarrow> audit_event \<Rightarrow> store_state \<Rightarrow> intake_error + unit" where
  "intake_retained w c receipt s =
     and_then (lift_fault (find_candidate (w_formats w) (cand_id c) (st_candidates s))) (\<lambda>stored.
       if stored \<noteq> Some c
          \<or> map_option kr_content_hash (find (\<lambda>r. kr_id r = cand_id c) (st_candidates s)) \<noteq> Some (w_sha256 w (cand_content c))
       then Inl (Intake_not_retained ''candidate'')
       else and_then (lift_fault (memory_events w (cand_id c) (cand_tenant c) s)) (\<lambda>events.
         if find (\<lambda>e. ev_id e = ev_id receipt) events \<noteq> Some receipt then Inl (Intake_not_retained ''receipt'')
         else Inr ()))"

definition intake_new ::
  "world \<Rightarrow> memory_candidate \<Rightarrow> intake_context \<Rightarrow> iso_datetime \<Rightarrow> store_state \<Rightarrow> intake_error + intake_result \<times> store_state" where
  "intake_new w c ctx now s =
     and_then (lift_fault (candidate_insert (w_scan w) (w_sha256 w) (st_audits s) (w_sha256 w (cand_content c)) None c
         (st_candidates s))) (\<lambda>t.
     and_then (lift_fault (parse_event w (proposed_event w c ctx now))) (\<lambda>receipt.
     and_then (lift_fault (insert_event w receipt (s\<lparr>st_candidates := t\<rparr>))) (\<lambda>s'.
     and_then (intake_retained w c receipt s') (\<lambda>_.
       Inr (Intake_created c, s')))))"

text \<open>\<open>CandidateIntake.intake\<close> with an audit sink: one transaction, so an error leaves no state.\<close>

definition intake_candidate ::
  "world \<Rightarrow> memory_candidate \<Rightarrow> intake_context \<Rightarrow> string list \<Rightarrow> iso_datetime \<Rightarrow> store_state \<Rightarrow>
    intake_error + intake_result \<times> store_state" where
  "intake_candidate w data ctx allowed now s =
     and_then (prepare_intake_candidate w data ctx allowed) (\<lambda>c.
     and_then (lift_fault (find_candidate (w_formats w) (cand_id c) (st_candidates s))) (\<lambda>by_id.
       case by_id of
         Some x \<Rightarrow> if cand_tenant x = cand_tenant c then Inr (Intake_already_exists x, s)
                   else Inl (Intake_other_tenant (cand_id c))
       | None \<Rightarrow>
           and_then (lift_fault (find_candidate_by_hash_and_tenant (w_formats w) (w_sha256 w (cand_content c)) (cand_tenant c)
               (st_candidates s))) (\<lambda>existing.
             case existing of
               Some x \<Rightarrow> Inr (Intake_already_exists x, s)
             | None \<Rightarrow>
                 if is_redacted_content (w_sha256 w) (st_audits s) (cand_content c) (cand_tenant c) then Inl Intake_redacted
                 else intake_new w c ctx now s)))"

section \<open>What was prepared\<close>

lemma schema_candidate_fields:
  "schema_candidate fmt c = Some x \<Longrightarrow> cand_id x = cand_id c \<and> cand_status x = cand_status c \<and> cand_trust x = cand_trust c
     \<and> cand_flags x = cand_flags c \<and> cand_metadata x = cand_metadata c \<and> cand_origin x = cand_origin c
     \<and> cand_content x = js_trim (cand_content c) \<and> cand_tenant x = js_trim (cand_tenant c)
     \<and> schema_author (cand_author c) = Some (cand_author x)"
  by (auto simp: schema_candidate_def non_empty_string_def Let_def split: Option.bind_splits if_splits)

lemma human_author: "schema_author (human_actor a) = Some x \<Longrightarrow> author_kind x = Human \<and> author_id x = js_trim a"
  by (auto simp: human_actor_def schema_author_def non_empty_string_def Let_def split: if_splits)

text \<open>A candidate whose server-owned fields are the server's.\<close>

definition server_owned :: "intake_context \<Rightarrow> memory_candidate \<Rightarrow> bool" where
  "server_owned ctx c \<longleftrightarrow>
     (\<forall>a. named_actor ctx = Some a \<longrightarrow> author_kind (cand_author c) = Human \<and> author_id (cand_author c) = js_trim a)
     \<and> (ic_role ctx = Some ''member'' \<longrightarrow> cand_trust c = Untrusted)
     \<and> (\<forall>x. ic_tenants ctx = Some [x] \<longrightarrow> cand_tenant c = js_trim x)
     \<and> (\<forall>r. ic_role ctx = Some r \<longrightarrow> proposed_by_role (cand_metadata c) = Some r)
     \<and> cand_flags c = clear_flags"

lemma prepared:
  assumes "prepare_intake_candidate w data ctx allowed = Inr c"
  shows "candidate_wf (w_formats w) c \<and> server_owned ctx c \<and> assert_disclosure_clean (w_scan w) c = Inr ()
    \<and> (\<forall>og. cand_origin c = Some og \<longrightarrow> channel og \<in> set allowed)
    \<and> cand_id c = cand_id data \<and> cand_status c = cand_status data \<and> cand_content c = js_trim (cand_content data)"
proof -
  obtain d where d: "schema_candidate (w_formats w) data = Some d"
      and og: "\<forall>og. cand_origin d = Some og \<longrightarrow> channel og \<in> set allowed"
      and ow: "apply_intake_overrides w ctx d = Inr c" and clean: "assert_disclosure_clean (w_scan w) c = Inr ()"
    using assms by (auto simp: prepare_intake_candidate_def and_then_Inr split: option.splits if_splits)
  have c: "schema_candidate (w_formats w)
        (d\<lparr>cand_author := owned_author ctx (cand_author d), cand_trust := owned_trust ctx (cand_trust d),
           cand_tenant := owned_tenant ctx (cand_tenant d), cand_flags := clear_flags,
           cand_metadata := owned_metadata ctx (cand_metadata d)\<rparr>) = Some c"
    using ow by (simp add: apply_intake_overrides_def split: option.splits)
  note fd = schema_candidate_fields [OF d] and fc = schema_candidate_fields [OF c]
  have "author_kind (cand_author c) = Human \<and> author_id (cand_author c) = js_trim a" if "named_actor ctx = Some a" for a
    using fc that human_author [of a "cand_author c"] by (simp add: owned_author_def)
  then have "server_owned ctx c"
    using fc by (auto simp: server_owned_def owned_trust_def owned_tenant_def owned_metadata_def)
  moreover have "cand_content c = js_trim (cand_content data)" using fd fc by simp
  ultimately show ?thesis using fd fc og clean schema_candidate_wf [OF c] by simp
qed

section \<open>What an intake writes\<close>

lemma candidate_appended:
  assumes "candidates_ok fmt t" "candidate_wf fmt c" "candidate_insert scan H audits h None c t = Inr t'"
  shows "t' = t @ [candidate_to_row c h None] \<and> candidate_view fmt t (cand_id c) = None \<and> candidates_ok fmt t'
    \<and> candidate_view fmt t' = (candidate_view fmt t)(cand_id c \<mapsto> c)"
proof -
  have t': "t' = t @ [candidate_to_row c h None]" and new: "cand_id c \<notin> set (map kr_id t)"
    using assms(3) by (auto simp: insert_eq [OF assms(2)] and_then_Inr split: if_splits)
  then show ?thesis using candidates_ok_snoc [OF assms(1,2) new] view_taken [OF assms(1), of "cand_id c"] by blast
qed

lemma proposed_keys: "json_distinct (JObj (ev_details (proposed_event w c ctx now)))"
  by (simp add: proposed_event_def)

lemma intake_new_effect:
  assumes ok: "state_ok w s" and wf: "candidate_wf (w_formats w) c" and run: "intake_new w c ctx now s = Inr (ans, s')"
  shows "ans = Intake_created c \<and> gov_steps w limits s s' \<and> state_ok w s' \<and> cand w s (cand_id c) = None
    \<and> cand w s' = (cand w s)(cand_id c \<mapsto> c)
    \<and> (\<exists>x. receipt_of w (proposed_event w c ctx now) x \<and> events_of w s' = events_of w s @ [x])
    \<and> st_memories s' = st_memories s \<and> st_links s' = st_links s \<and> st_policies s' = st_policies s"
proof -
  obtain t receipt where t: "candidate_insert (w_scan w) (w_sha256 w) (st_audits s) (w_sha256 w (cand_content c)) None c
         (st_candidates s) = Inr t"
      and r: "parse_event w (proposed_event w c ctx now) = Inr receipt" "insert_event w receipt (s\<lparr>st_candidates := t\<rparr>) = Inr s'"
      and ans: "ans = Intake_created c"
    using run by (auto simp: intake_new_def and_then_Inr)
  let ?s = "s\<lparr>st_candidates := t\<rparr>"
  note ins = candidate_appended [OF state_ok_parts(1) [OF ok] wf t]
  have "no_new_holds w s t" using ins by (auto simp: no_new_holds_def split: if_split_asm)
  then have one: "gov_step w limits s ?s" using ins by (intro gs_candidates) auto
  have ok1: "state_ok w ?s" using ok conjunct1 [OF conjunct2 [OF conjunct2 [OF ins]]] by (simp add: state_ok_def)
  have wr: "write_event w (proposed_event w c ctx now) ?s = Inr s'" by (rule write_parsed [OF r])
  have two: "gov_step w limits ?s s'" by (rule gs_receipt [OF wr _ proposed_keys]) (simp add: proposed_event_def)
  obtain x where x: "receipt_of w (proposed_event w c ctx now) x" "state_ok w s'" "events_of w s' = events_of w s @ [x]"
      "st_candidates s' = t" "st_memories s' = st_memories s" "st_links s' = st_links s" "st_policies s' = st_policies s"
    using write_event_ok [OF ok1 wr proposed_keys] by auto
  have "gov_steps w limits s s'" by (rule gs_trans [OF gs_one [OF one] two])
  moreover have "cand w s' = (cand w s)(cand_id c \<mapsto> c)" unfolding x(4) using ins by blast
  ultimately show ?thesis using ans ins x by blast
qed

lemma intake_new_rows:
  assumes "candidate_wf (w_formats w) c" "intake_new w c ctx now s = Inr (ans, s')"
  shows "st_candidates s' = st_candidates s @ [candidate_to_row c (w_sha256 w (cand_content c)) None]"
proof -
  obtain t receipt where t: "candidate_insert (w_scan w) (w_sha256 w) (st_audits s) (w_sha256 w (cand_content c)) None c
         (st_candidates s) = Inr t"
      and r: "insert_event w receipt (s\<lparr>st_candidates := t\<rparr>) = Inr s'"
    using assms(2) by (auto simp: intake_new_def and_then_Inr)
  have "t = st_candidates s @ [candidate_to_row c (w_sha256 w (cand_content c)) None]"
    using t by (auto simp: insert_eq [OF assms(1)] and_then_Inr split: if_splits)
  moreover have "st_candidates s' = t" using r by (auto simp: insert_event_def split: sum.splits)
  ultimately show ?thesis by simp
qed

lemma intake_cases [consumes 2, case_names Exists Created]:
  assumes run: "intake_candidate w data ctx allowed now s = Inr (ans, s')" and ok: "state_ok w s"
  obtains c x where "prepare_intake_candidate w data ctx allowed = Inr c" "ans = Intake_already_exists x" "s' = s"
      "cand w s (cand_id x) = Some x" "cand_tenant x = cand_tenant c"
  | c where "prepare_intake_candidate w data ctx allowed = Inr c" "cand w s (cand_id c) = None"
      "\<not> is_redacted_content (w_sha256 w) (st_audits s) (cand_content c) (cand_tenant c)"
      "intake_new w c ctx now s = Inr (ans, s')"
proof -
  obtain c where c: "prepare_intake_candidate w data ctx allowed = Inr c"
    using run by (auto simp: intake_candidate_def and_then_Inr)
  note look = find_candidate_ok [OF state_ok_parts(1) [OF ok]]
  show thesis
  proof (cases "cand w s (cand_id c)")
    case (Some x)
    then have "ans = Intake_already_exists x" "s' = s" "cand_tenant x = cand_tenant c"
      using run c look [of "cand_id c"] by (auto simp: intake_candidate_def split: if_splits)
    moreover have "cand w s (cand_id x) = Some x" using Some cand_wf [OF ok Some] by simp
    ultimately show thesis using that(1) [OF c] by blast
  next
    case None
    let ?h = "w_sha256 w (cand_content c)"
    let ?P = "\<lambda>r. kr_content_hash r = ?h \<and> kr_tenant_id r = cand_tenant c"
    show thesis
    proof (cases "find ?P (st_candidates s)")
      case (Some r)
      then have r: "r \<in> set (st_candidates s)" "kr_tenant_id r = cand_tenant c" by (auto dest: find_Some_in)
      obtain x h b where x: "candidate_wf (w_formats w) x" "r = candidate_to_row x h b"
        using state_ok_parts(1) [OF ok] r(1) unfolding candidates_ok_def by blast
      have "find_candidate_by_hash_and_tenant (w_formats w) ?h (cand_tenant c) (st_candidates s) = Inr (Some x)"
        using Some x by (simp add: find_candidate_by_hash_and_tenant_def first_candidate_where_def read_candidate_def candidate_round_trip)
      then have "ans = Intake_already_exists x" "s' = s"
        using run c look [of "cand_id c"] None by (auto simp: intake_candidate_def)
      moreover have "cand w s (cand_id x) = Some x"
        using view_candidate [OF state_ok_parts(1) [OF ok] r(1) x(2,1)] .
      ultimately show thesis using that(1) [OF c] r(2) x(2) by (simp add: candidate_row_cells)
    next
      case None': None
      then have "find_candidate_by_hash_and_tenant (w_formats w) ?h (cand_tenant c) (st_candidates s) = Inr None"
        by (simp add: find_candidate_by_hash_and_tenant_def first_candidate_where_def)
      then show thesis
        using run c look [of "cand_id c"] None that(2) [OF c None] by (auto simp: intake_candidate_def split: if_splits)
    qed
  qed
qed

section \<open>The intake is the server's\<close>

lemma proposed_receipt:
  "receipt_of w (proposed_event w c ctx now) x \<Longrightarrow> ev_action x = A_proposed \<and> ev_memory_id x = cand_id c
     \<and> detail x ''contentHash'' = Some (JStr (w_sha256 w (cand_content c)))"
  by (drule receipt_fields) (simp add: proposed_event_def detail_def)

text \<open>
  C17. The intake trusts nothing it can decide itself. A proposal that is stored carries the author,
  tenant, trust and role of the token and cleared flags, claims only an allowed channel, scans clean
  in every text, and is not text a redaction removed; it is the only candidate that changes, it has
  one \<open>proposed\<close> receipt with the digest of its content, and no memory changes. The status is the one
  the client sent. A replay, now or later, changes nothing and returns the stored candidate.
\<close>

theorem intake_is_server_owned:
  assumes "state_ok w s" "intake_candidate w data ctx allowed now s = Inr (ans, s')"
  shows "(\<forall>x. ans = Intake_already_exists x \<longrightarrow> s' = s \<and> cand w s (cand_id x) = Some x)
    \<and> (\<forall>c. ans = Intake_created c \<longrightarrow>
        cand w s (cand_id data) = None \<and> cand w s' = (cand w s)(cand_id data \<mapsto> c)
        \<and> server_owned ctx c \<and> cand_status c = cand_status data \<and> cand_content c = js_trim (cand_content data)
        \<and> (\<forall>t \<in> set (candidate_texts c). w_scan w t = None)
        \<and> (\<forall>og. cand_origin c = Some og \<longrightarrow> channel og \<in> set allowed)
        \<and> \<not> is_redacted_content (w_sha256 w) (st_audits s) (cand_content c) (cand_tenant c)
        \<and> (\<exists>x. events_of w s' = events_of w s @ [x] \<and> ev_action x = A_proposed \<and> ev_memory_id x = cand_id data
             \<and> detail x ''contentHash'' = Some (JStr (w_sha256 w (cand_content c))))
        \<and> st_memories s' = st_memories s
        \<and> (\<forall>later. intake_candidate w data ctx allowed later s' = Inr (Intake_already_exists c, s')))"
  using assms(2,1)
proof (cases rule: intake_cases)
  case (Exists c x)
  then show ?thesis by simp
next
  case (Created c)
  note p = prepared [OF Created(1)]
  have wf: "candidate_wf (w_formats w) c" using p by blast
  note e = intake_new_effect [OF assms(1) wf Created(4)]
  obtain x where x: "receipt_of w (proposed_event w c ctx now) x" "events_of w s' = events_of w s @ [x]" using e by blast
  have ok': "state_ok w s'" using e by blast
  have id: "cand_id c = cand_id data" using p by blast
  have "cand w s' (cand_id c) = Some c" using e by simp
  then have later: "intake_candidate w data ctx allowed t s' = Inr (Intake_already_exists c, s')" for t
    using find_candidate_ok [OF state_ok_parts(1) [OF ok'], of "cand_id c"] Created(1) by (simp add: intake_candidate_def)
  have texts: "\<forall>t \<in> set (candidate_texts c). w_scan w t = None" using p disclosure_clean_iff [of "w_scan w" c] by blast
  have ans: "ans = Intake_created c" using e by blast
  have views: "cand w s (cand_id data) = None" "cand w s' = (cand w s)(cand_id data \<mapsto> c)" "st_memories s' = st_memories s"
    using e unfolding id by blast+
  show ?thesis
    using ans views p texts later Created(3) x(2) proposed_receipt [OF x(1)] id by auto
qed

section \<open>The self-check never fails\<close>

lemma history_ids_distinct:
  assumes "audits_ok fmt rows"
  shows "distinct (map ev_id (history fmt rows))"
proof -
  have "map ev_id (history fmt rows) = map ar_id rows"
    using assms row_ok_fields(2) by (auto simp: history_def audits_ok_def)
  then show ?thesis using assms by (simp add: audits_ok_def audit_table_ok_def)
qed

lemma find_in_events:
  assumes "distinct (map ev_id es)" "x \<in> set es" "P x"
  shows "find (\<lambda>e. ev_id e = ev_id x) (sort_key ev_timestamp (filter P es)) = Some x"
proof (rule find_unique_key)
  have "distinct es \<and> inj_on ev_id (set es)" using assms(1) by (simp add: distinct_map)
  then have "distinct (sort_key ev_timestamp (filter P es)) \<and> inj_on ev_id (set (sort_key ev_timestamp (filter P es)))"
    by (auto intro: inj_on_subset)
  then show "distinct (map ev_id (sort_key ev_timestamp (filter P es)))" unfolding distinct_map .
  show "x \<in> set (sort_key ev_timestamp (filter P es))" using assms(2,3) by simp
qed

lemma intake_succeeds:
  assumes ok: "state_ok w s" and wf: "candidate_wf (w_formats w) c" and clean: "assert_disclosure_clean (w_scan w) c = Inr ()"
    and new: "cand w s (cand_id c) = None" and kept: "\<not> is_redacted_content (w_sha256 w) (st_audits s) (cand_content c) (cand_tenant c)"
    and ev: "schema_event (w_formats w) (proposed_event w c ctx now) = Some y" "audit_id w (cand_id c) A_proposed [] \<notin> set (map ar_id (st_audits s))"
  shows "\<exists>s'. intake_new w c ctx now s = Inr (Intake_created c, s')"
proof -
  let ?h = "w_sha256 w (cand_content c)"
  let ?t = "st_candidates s @ [candidate_to_row c ?h None]"
  have ins: "candidate_insert (w_scan w) (w_sha256 w) (st_audits s) ?h None c (st_candidates s) = Inr ?t"
    using new view_taken [OF state_ok_parts(1) [OF ok], of "cand_id c"] kept by (simp add: insert_eq [OF wf] clean)
  note app = candidate_appended [OF state_ok_parts(1) [OF ok] wf ins]
  have f: "ev_id y = audit_id w (cand_id c) A_proposed []" "ev_memory_id y = cand_id c" "ev_details y = ev_details (proposed_event w c ctx now)"
      "non_empty_string (cand_tenant c) = Some (ev_tenant_id y)"
    using schema_event_fields [OF ev(1)] by (simp_all add: proposed_event_def)
  have tn: "ev_tenant_id y = cand_tenant c" using f(4) wf_tenant [OF wf] by simp
  have par: "parse_event w (proposed_event w c ctx now) = Inr y" using ev(1) by (simp add: parse_event_def)
  let ?s = "s\<lparr>st_candidates := ?t\<rparr>"
  obtain s' where s': "insert_event w y ?s = Inr s'" using ev(2) f(1) by (simp add: insert_event_def audit_insert_def)
  have "candidates_ok (w_formats w) ?t" using app by blast
  then have ok1: "state_ok w ?s" using ok by (simp add: state_ok_def)
  obtain x where x: "receipt_of w (proposed_event w c ctx now) x" "state_ok w s'" "events_of w s' = events_of w s @ [x]" "st_candidates s' = ?t"
    using write_event_ok [OF ok1 write_parsed [OF par s'] proposed_keys] by auto
  have "as_read y = y" using f(3) by (simp add: as_read_def proposed_event_def)
  then have xy: "x = y" using x(1) ev(1) by (auto simp: receipt_of_def)
  have events: "memory_events w (cand_id c) (cand_tenant c) s'
      = Inr (sort_key ev_timestamp (filter (\<lambda>e. ev_memory_id e = cand_id c \<and> ev_tenant_id e = cand_tenant c) (events_of w s')))"
    by (rule memory_events_ok [OF state_ok_parts(3) [OF x(2)]])
  have "find (\<lambda>e. ev_id e = ev_id y) (sort_key ev_timestamp (filter (\<lambda>e. ev_memory_id e = cand_id c \<and> ev_tenant_id e = cand_tenant c) (events_of w s'))) = Some y"
    by (rule find_in_events [OF history_ids_distinct [OF state_ok_parts(3) [OF x(2)]]]) (use x(3) xy f(2) tn in auto)
  moreover have "candidate_view (w_formats w) (st_candidates s') (cand_id c) = Some c" unfolding x(4) using app by auto
  then have "find_candidate (w_formats w) (cand_id c) (st_candidates s') = Inr (Some c)"
    using find_candidate_ok [OF state_ok_parts(1) [OF x(2)]] by simp
  moreover have "find (\<lambda>r. kr_id r = cand_id c) (st_candidates s') = Some (candidate_to_row c ?h None)"
  proof -
    have row: "candidate_to_row c ?h None \<in> set (st_candidates s')" "kr_id (candidate_to_row c ?h None) = cand_id c"
      by (simp_all add: x(4) candidate_row_cells)
    have "distinct (map kr_id (st_candidates s'))" using state_ok_parts(1) [OF x(2)] by (simp add: candidates_ok_def)
    from find_unique_key [OF this row(1)] show ?thesis unfolding row(2) .
  qed
  moreover have "kr_content_hash (candidate_to_row c ?h None) = ?h" by (simp add: candidate_to_row_def)
  ultimately have "intake_retained w c y s' = Inr ()" using events by (simp add: intake_retained_def)
  then show ?thesis using ins par s' by (simp add: intake_new_def)
qed

section \<open>A concrete intake\<close>

lemma plain_intake_prepared:
  "prepare_intake_candidate plain_world (plain_candidate ''c9'' ''a text'')
      \<lparr>ic_actor = Some ''bob'', ic_role = Some ''member'', ic_tenants = Some [''team'']\<rparr> default_allowed_origin_channels
   = Inr ((plain_candidate ''c9'' ''a text'')\<lparr>cand_author := human_actor ''bob'', cand_trust := Untrusted\<rparr>)"
proof -
  let ?c = "plain_candidate ''c9'' ''a text''"
  let ?ctx = "\<lparr>ic_actor = Some ''bob'', ic_role = Some ''member'', ic_tenants = Some [''team'']\<rparr>"
  have wf: "schema_candidate any_format ?c = Some ?c" using plain_candidate_wf [of "''a text''"] by (simp add: candidate_wf_def)
  have bob: "schema_author (human_actor ''bob'') = Some (human_actor ''bob'')" by code_simp
  have md: "metadata_check plain_metadata" by (rule plain_metadata_check)
  have texts: "non_empty_string ''A title'' = Some ''A title''" "non_empty_string ''team'' = Some ''team''" by code_simp+
  have owned: "apply_intake_overrides plain_world ?ctx ?c = Inr (?c\<lparr>cand_author := human_actor ''bob'', cand_trust := Untrusted\<rparr>)"
    using bob md texts
    by (simp add: apply_intake_overrides_def owned_author_def named_actor_def owned_trust_def owned_tenant_def owned_metadata_def
        clear_flags_def schema_candidate_def candidate_refinement_def any_format_def plain_candidate_def)
      (simp add: plain_metadata_def)
  have clean: "assert_disclosure_clean (w_scan plain_world) c = Inr ()" for c
    using disclosure_clean_iff [of "w_scan plain_world" c] by simp
  have "cand_origin ?c = None" by (simp add: plain_candidate_def)
  then show ?thesis using wf owned clean by (simp add: prepare_intake_candidate_def)
qed

lemma plain_intake_runs:
  "\<exists>c s'. intake_candidate plain_world (plain_candidate ''c9'' ''a text'')
      \<lparr>ic_actor = Some ''bob'', ic_role = Some ''member'', ic_tenants = Some [''team'']\<rparr> default_allowed_origin_channels ''t1'' empty_state
      = Inr (Intake_created c, s')
    \<and> c = (plain_candidate ''c9'' ''a text'')\<lparr>cand_author := human_actor ''bob'', cand_trust := Untrusted\<rparr>
    \<and> length (st_candidates s') = 1"
proof -
  let ?ctx = "\<lparr>ic_actor = Some ''bob'', ic_role = Some ''member'', ic_tenants = Some [''team'']\<rparr>"
  let ?c = "(plain_candidate ''c9'' ''a text'')\<lparr>cand_author := human_actor ''bob'', cand_trust := Untrusted\<rparr>"
  note p = prepared [OF plain_intake_prepared]
  have wf: "candidate_wf (w_formats plain_world) ?c" and clean: "assert_disclosure_clean (w_scan plain_world) ?c = Inr ()"
    using p by blast+
  have parts: "st_candidates empty_state = []" "st_audits empty_state = []" by (simp_all add: empty_state_def)
  have view: "cand plain_world empty_state i = None" for i by (simp add: parts candidate_view_def)
  have red: "\<not> is_redacted_content H (st_audits empty_state) body tn" for H body tn by (simp add: parts is_redacted_content_def)
  have "\<exists>y. schema_event any_format (proposed_event plain_world ?c ?ctx ''t1'') = Some y"
  proof -
    have "non_empty_string ''team'' = Some ''team''" "non_empty_string ''Candidate proposed to the governed inbox'' = Some ''Candidate proposed to the governed inbox''"
      "schema_author (human_actor ''bob'') = Some (human_actor ''bob'')" by code_simp+
    then show ?thesis
      by (simp add: schema_event_def proposed_event_def named_actor_def schema_optional_def any_format_def plain_candidate_def)
  qed
  then obtain y where y: "schema_event (w_formats plain_world) (proposed_event plain_world ?c ?ctx ''t1'') = Some y" by auto
  obtain s' where s': "intake_new plain_world ?c ?ctx ''t1'' empty_state = Inr (Intake_created ?c, s')"
    using intake_succeeds [OF empty_state_ok wf clean view red y] parts by auto
  have hash: "find_candidate_by_hash_and_tenant f h tn (st_candidates empty_state) = Inr None" for f h tn
    by (simp add: parts find_candidate_by_hash_and_tenant_def first_candidate_where_def)
  have "intake_candidate plain_world (plain_candidate ''c9'' ''a text'') ?ctx default_allowed_origin_channels ''t1'' empty_state
      = Inr (Intake_created ?c, s')"
    using plain_intake_prepared s' view red hash find_candidate_ok [OF state_ok_parts(1) [OF empty_state_ok], of plain_world]
    by (simp add: intake_candidate_def)
  moreover have "length (st_candidates s') = 1" using intake_new_rows [OF wf s'] parts by simp
  ultimately show ?thesis by blast
qed

theorem intake_is_server_owned_witness:
  "\<exists>c s'. intake_candidate plain_world (plain_candidate ''c9'' ''a text'')
      \<lparr>ic_actor = Some ''bob'', ic_role = Some ''member'', ic_tenants = Some [''team'']\<rparr> default_allowed_origin_channels ''t1'' empty_state
      = Inr (Intake_created c, s')
    \<and> cand_trust c = Untrusted \<and> author_id (cand_author c) = ''bob''
    \<and> cand plain_world s' ''c9'' = Some c
    \<and> (\<exists>x. events_of plain_world s' = [x] \<and> ev_action x = A_proposed)"
proof -
  let ?ctx = "\<lparr>ic_actor = Some ''bob'', ic_role = Some ''member'', ic_tenants = Some [''team'']\<rparr>"
  let ?c = "(plain_candidate ''c9'' ''a text'')\<lparr>cand_author := human_actor ''bob'', cand_trust := Untrusted\<rparr>"
  obtain s' where run: "intake_candidate plain_world (plain_candidate ''c9'' ''a text'') ?ctx default_allowed_origin_channels ''t1'' empty_state
      = Inr (Intake_created ?c, s')"
    using plain_intake_runs by blast
  note all = intake_is_server_owned [OF empty_state_ok run]
  have "events_of plain_world empty_state = []" by (simp add: empty_state_def history_def)
  moreover have "cand_id (plain_candidate ''c9'' ''a text'') = ''c9''" by (simp add: plain_candidate_def)
  moreover have "cand_trust ?c = Untrusted" "author_id (cand_author ?c) = ''bob''" by (simp_all add: human_actor_def)
  ultimately show ?thesis using run all by auto
qed

end
