(* ===== verification/Memory_Service.thy ===== *)
theory Memory_Service
  imports Narrow_Audience
begin

text \<open>
  The lifecycle service of the API, \<open>api/src/services/memory-service.ts\<close>: a transition, a
  recategorization and a narrowing, each with its receipt in one transaction, and each refusal with
  the HTTP status it maps to.
\<close>

section \<open>Requests and errors\<close>

record recategorize_request =
  rq_category :: memory_category
  rq_reason :: string
  rq_actor :: author

datatype service_error =
    Bad_request
  | Bad_transition transition_error
  | Bad_supersession_request bad_supersession
  | Memory_not_found
  | Narrowing_refused nat narrow_refusal
  | Service_fault fault

definition lift_service :: "fault + 'a \<Rightarrow> service_error + 'a" where
  "lift_service r = (case r of Inl e \<Rightarrow> Inl (Service_fault e) | Inr x \<Rightarrow> Inr x)"

lemma lift_service_Inr [simp]: "lift_service r = Inr x \<longleftrightarrow> r = Inr x"
  by (auto simp: lift_service_def split: sum.split)

lemma lift_service_simps [simp]: "lift_service (Inl e) = Inl (Service_fault e)" "lift_service (Inr x) = Inr x"
  by (simp_all add: lift_service_def)

definition lifecycle_to_action :: "lifecycle_state \<Rightarrow> audit_action" where
  "lifecycle_to_action l =
     (case l of Archived \<Rightarrow> A_archived | Superseded \<Rightarrow> A_superseded | Deprecated \<Rightarrow> A_demoted | Active \<Rightarrow> A_promoted)"

text \<open>\<open>TransitionRequest.safeParse\<close>.\<close>

definition schema_transition :: "formats \<Rightarrow> transition_request \<Rightarrow> transition_request option" where
  "schema_transition fmt r =
     Option.bind (non_empty_string (tr_reason r)) (\<lambda>reason.
     Option.bind (schema_author (tr_actor r)) (\<lambda>actor.
       if (case tr_superseded_by r of None \<Rightarrow> True | Some i \<Rightarrow> fmt_uuid fmt i)
       then Some (r\<lparr>tr_reason := reason, tr_actor := actor\<rparr>) else None))"

definition schema_recategorize :: "recategorize_request \<Rightarrow> recategorize_request option" where
  "schema_recategorize r =
     Option.bind (non_empty_string (rq_reason r)) (\<lambda>reason.
     Option.bind (schema_author (rq_actor r)) (\<lambda>actor.
       Some (r\<lparr>rq_reason := reason, rq_actor := actor\<rparr>)))"

section \<open>Reads\<close>

definition get_by_id :: "world \<Rightarrow> string \<Rightarrow> store_state \<Rightarrow> service_error + curated_memory" where
  "get_by_id w i s =
     and_then (lift_service (find_memory (w_formats w) i (st_memories s))) (\<lambda>found.
       case found of None \<Rightarrow> Inl Memory_not_found | Some m \<Rightarrow> Inr m)"

definition list_memories :: "world \<Rightarrow> string option \<Rightarrow> store_state \<Rightarrow> service_error + curated_memory list" where
  "list_memories w tn s =
     (case tn of
        None \<Rightarrow> Inr []
      | Some t \<Rightarrow> if t = [] then Inr [] else lift_service (find_memories_by_tenant (w_formats w) t (st_memories s)))"

section \<open>Transition\<close>

definition transition_event ::
  "string \<Rightarrow> curated_memory \<Rightarrow> lifecycle_state \<Rightarrow> transition_request \<Rightarrow> uuid \<Rightarrow> iso_datetime \<Rightarrow> audit_event" where
  "transition_event i m l r eid now =
     \<lparr>ev_id = eid, ev_action = lifecycle_to_action l, ev_memory_id = i, ev_tenant_id = mem_tenant m,
      ev_actor = tr_actor r, ev_reason = Some (tr_reason r),
      ev_details =
        [(''from'', JStr (lifecycle_name (mem_lifecycle m))), (''to'', JStr (lifecycle_name l))]
        @ (if l = Superseded then (case tr_superseded_by r of None \<Rightarrow> [] | Some b \<Rightarrow> [(''supersededBy'', JStr b)]) else []),
      ev_timestamp = now\<rparr>"

text \<open>The write of the row: a supersession through the repository, any other state through \<open>updateLifecycle\<close>.\<close>

definition write_transition ::
  "world \<Rightarrow> string \<Rightarrow> lifecycle_state \<Rightarrow> transition_request \<Rightarrow> iso_datetime \<Rightarrow> store_state \<Rightarrow> service_error + memory_table" where
  "write_transition w i l r now s =
     (if l = Superseded
      then (case tr_superseded_by r of
              None \<Rightarrow> Inl Bad_request
            | Some b \<Rightarrow>
                (case supersede (w_formats w) i b (tr_reason r) now (st_memories s) of
                   Inl (Bad_supersession x) \<Rightarrow> Inl (Bad_supersession_request x)
                 | Inl x \<Rightarrow> Inl (Service_fault x)
                 | Inr (_, t) \<Rightarrow> Inr t))
      else map_sum id snd (lift_service (update_lifecycle i l now (st_memories s))))"

definition transition ::
  "world \<Rightarrow> string \<Rightarrow> lifecycle_state \<Rightarrow> transition_request \<Rightarrow> uuid \<Rightarrow> iso_datetime \<Rightarrow> store_state \<Rightarrow>
    service_error + curated_memory \<times> store_state" where
  "transition w i l body eid now s =
     (case schema_transition (w_formats w) body of
        None \<Rightarrow> Inl Bad_request
      | Some r \<Rightarrow>
          and_then (get_by_id w i s) (\<lambda>m.
          case validate_transition (mem_lifecycle m) l r of
            Inl x \<Rightarrow> Inl (Bad_transition x)
          | Inr _ \<Rightarrow>
              and_then (write_transition w i l r now s) (\<lambda>t.
              and_then (lift_service (write_event w (transition_event i m l r eid now) (s\<lparr>st_memories := t\<rparr>))) (\<lambda>s'.
              and_then (get_by_id w i s') (\<lambda>m'.
                Inr (m', s'))))))"

section \<open>Recategorization and narrowing\<close>

definition recategorized_event ::
  "string \<Rightarrow> curated_memory \<Rightarrow> recategorize_request \<Rightarrow> uuid \<Rightarrow> iso_datetime \<Rightarrow> audit_event" where
  "recategorized_event i m r eid now =
     \<lparr>ev_id = eid, ev_action = A_recategorized, ev_memory_id = i, ev_tenant_id = mem_tenant m,
      ev_actor = rq_actor r, ev_reason = Some (rq_reason r),
      ev_details = [(''fromCategory'', JStr (category_name (mem_category m))), (''toCategory'', JStr (category_name (rq_category r)))],
      ev_timestamp = now\<rparr>"

definition recategorize ::
  "world \<Rightarrow> string \<Rightarrow> recategorize_request \<Rightarrow> uuid \<Rightarrow> iso_datetime \<Rightarrow> store_state \<Rightarrow>
    service_error + curated_memory \<times> store_state" where
  "recategorize w i body eid now s =
     (case schema_recategorize body of
        None \<Rightarrow> Inl Bad_request
      | Some r \<Rightarrow>
          and_then (get_by_id w i s) (\<lambda>m.
            if mem_category m = rq_category r then Inl Bad_request
            else let updated = m\<lparr>mem_category := rq_category r, updated_at := now\<rparr>
                 in and_then (lift_service (memory_update (w_scan w) updated (st_memories s))) (\<lambda>(_, t).
                    and_then (lift_service (write_event w (recategorized_event i m r eid now) (s\<lparr>st_memories := t\<rparr>))) (\<lambda>s'.
                      Inr (updated, s')))))"

text \<open>\<open>narrowAudience\<close> of the service: the tenant is the memory's own, a refusal is a 404 or a 400.\<close>

definition service_narrow ::
  "world \<Rightarrow> string \<Rightarrow> string option \<Rightarrow> string option \<Rightarrow> string \<Rightarrow> uuid \<Rightarrow> iso_datetime \<Rightarrow> store_state \<Rightarrow>
    service_error + (string \<times> string \<times> string) \<times> store_state" where
  "service_narrow w i to_aud reason actor eid now s =
     (case (to_aud, reason) of
        (Some t, Some r) \<Rightarrow>
          and_then (get_by_id w i s) (\<lambda>m.
          and_then (lift_service (narrow_audience w \<lparr>ni_memory = i, ni_tenant = mem_tenant m, ni_to = t, ni_actor = actor,
              ni_reason = r, ni_dry = False\<rparr> eid now s)) (\<lambda>(ans, s').
            case ans of
              Narrow_refused x \<Rightarrow> Inl (Narrowing_refused (if x = N_not_found then 404 else 400) x)
            | Narrowed a b receipt \<Rightarrow> Inr ((a, b, case receipt of None \<Rightarrow> [] | Some e \<Rightarrow> e), s')))
      | _ \<Rightarrow> Inl Bad_request)"

section \<open>What a transition does\<close>

lemma get_by_id_ok: "state_ok w s \<Longrightarrow> get_by_id w i s = (case mem_view w s i of None \<Rightarrow> Inl Memory_not_found | Some m \<Rightarrow> Inr m)"
  by (simp add: get_by_id_def find_memory_ok [OF state_ok_parts(2)])

lemma event_time: "schema_event fmt e = Some x \<Longrightarrow> fmt_datetime fmt (ev_timestamp e)"
  by (auto simp: schema_event_def split: Option.bind_splits if_splits)

text \<open>The memory after a transition.\<close>

definition moved :: "curated_memory \<Rightarrow> lifecycle_state \<Rightarrow> transition_request \<Rightarrow> iso_datetime \<Rightarrow> curated_memory \<Rightarrow> bool" where
  "moved m l r now m' \<longleftrightarrow>
     (if l = Superseded
      then \<exists>link. tr_superseded_by r = Some (superseded_by link) \<and> linked_at link = now
         \<and> m' = m\<lparr>mem_lifecycle := Superseded, mem_supersession := Some link, updated_at := now\<rparr>
      else m' = m\<lparr>mem_lifecycle := l, updated_at := now\<rparr>)"

lemma superseded_view:
  assumes "spec_supersede link i v = Inr (p, v')" "v i = Some m"
  shows "v' = v(i \<mapsto> m\<lparr>mem_lifecycle := Superseded, mem_supersession := Some link, updated_at := linked_at link\<rparr>)"
proof -
  obtain r where "v (superseded_by link) = Some r"
    using assms by (cases "v (superseded_by link)") (auto simp: spec_supersede_def split: if_split_asm)
  then show ?thesis using assms by (simp add: spec_supersede_def split: if_split_asm)
qed

lemma write_transition_effect:
  assumes ok: "state_ok w s" and m: "mem_view w s i = Some m" and now: "fmt_datetime (w_formats w) now"
    and val: "validate_transition (mem_lifecycle m) l r = Inr ()" and run: "write_transition w i l r now s = Inr t"
  shows "table_ok (w_formats w) t \<and> (\<exists>m'. moved m l r now m' \<and> view (w_formats w) t = (mem_view w s)(i \<mapsto> m'))"
proof (cases "l = Superseded")
  case True
  obtain b where b: "tr_superseded_by r = Some b" using val True by (auto simp: validate_transition_def falsy_def split: if_splits)
  have "\<exists>p. supersede (w_formats w) i b (tr_reason r) now (st_memories s) = Inr (p, t)"
  proof (cases "supersede (w_formats w) i b (tr_reason r) now (st_memories s)")
    case (Inl x)
    then show ?thesis using run True b by (cases x) (simp_all add: write_transition_def)
  next
    case (Inr q)
    then show ?thesis using run True b by (cases q) (simp add: write_transition_def)
  qed
  then obtain p where sup: "supersede (w_formats w) i b (tr_reason r) now (st_memories s) = Inr (p, t)" by blast
  obtain link where link: "schema_supersession (w_formats w) \<lparr>superseded_by = b, link_reason = tr_reason r, linked_at = now\<rparr> = Some link"
    using sup by (cases "schema_supersession (w_formats w) \<lparr>superseded_by = b, link_reason = tr_reason r, linked_at = now\<rparr>")
      (simp_all add: supersede_def)
  note ref = supersede_refines [OF state_ok_parts(2) [OF ok] link, of i]
  have spec: "spec_supersede link i (mem_view w s) = Inr (p, view (w_formats w) t)" using ref(1) sup by simp
  have f: "superseded_by link = b" "linked_at link = now" using schema_supersession_fields [OF link] by auto
  have "view (w_formats w) t = (mem_view w s)(i \<mapsto> m\<lparr>mem_lifecycle := Superseded, mem_supersession := Some link, updated_at := now\<rparr>)"
    by (rule superseded_view [OF spec m, unfolded f(2)])
  then show ?thesis using ref(2) [OF sup] True b f by (auto simp: moved_def)
next
  case False
  then have upd: "map_sum id snd (lift_service (update_lifecycle i l now (st_memories s))) = Inr t"
    using run by (simp add: write_transition_def)
  then obtain p where up: "update_lifecycle i l now (st_memories s) = Inr (p, t)"
  proof (cases "update_lifecycle i l now (st_memories s)")
    case (Inr q)
    then show ?thesis using upd that by (cases q) simp
  qed simp
  note ref = update_lifecycle_refines [OF state_ok_parts(2) [OF ok] now, of i l]
  have "spec_lifecycle i l now (mem_view w s) = Inr (p, view (w_formats w) t)" using ref(1) up by simp
  then have "view (w_formats w) t = (mem_view w s)(i \<mapsto> m\<lparr>mem_lifecycle := l, updated_at := now\<rparr>)"
    using m by (auto simp: spec_lifecycle_def split: if_splits)
  then show ?thesis using ref(2) [OF up] False by (simp add: moved_def)
qed

lemma transition_details_keys: "json_distinct (JObj (ev_details (transition_event i m l r eid now)))"
  by (cases "tr_superseded_by r"; cases "l = Superseded") (simp_all add: transition_event_def)

lemma transition_not_held: "ev_action (transition_event i m l r eid now) \<noteq> A_held"
  by (cases l) (simp_all add: transition_event_def lifecycle_to_action_def)

lemma recategorized_keys:
  "json_distinct (JObj (ev_details (recategorized_event i m q eid now)))" "ev_action (recategorized_event i m q eid now) \<noteq> A_held"
  by (simp_all add: recategorized_event_def)

text \<open>A changed memory table and a receipt, in one transaction.\<close>

lemma table_and_receipt:
  assumes ok: "state_ok w s" and t: "table_ok (w_formats w) t" and wr: "write_event w e (s\<lparr>st_memories := t\<rparr>) = Inr s'"
    and e: "json_distinct (JObj (ev_details e))" "ev_action e \<noteq> A_held"
  shows "gov_steps w limits s s' \<and> state_ok w s' \<and> st_memories s' = t \<and> st_candidates s' = st_candidates s
    \<and> st_links s' = st_links s \<and> (\<exists>x. receipt_of w e x \<and> events_of w s' = events_of w s @ [x])"
proof -
  have ok1: "state_ok w (s\<lparr>st_memories := t\<rparr>)" using ok t by (simp add: state_ok_def)
  obtain x where "receipt_of w e x" "state_ok w s'" "events_of w s' = events_of w s @ [x]"
      "st_candidates s' = st_candidates s" "st_memories s' = t" "st_links s' = st_links s"
    using write_event_ok [OF ok1 wr e(1)] by auto
  moreover have "gov_steps w limits s s'"
    by (rule gs_trans [OF gs_one [OF gs_memories [OF t]] gs_receipt [OF wr e(2,1)]])
  ultimately show ?thesis by blast
qed

lemma write_time: "write_event w e s = Inr s' \<Longrightarrow> fmt_datetime (w_formats w) (ev_timestamp e)"
  using event_time by (auto elim: write_event_Inr)

lemma transition_effect:
  assumes ok: "state_ok w s" and run: "transition w i l body eid now s = Inr (m', s')"
  shows "\<exists>m r x. schema_transition (w_formats w) body = Some r \<and> mem_view w s i = Some m
    \<and> validate_transition (mem_lifecycle m) l r = Inr () \<and> moved m l r now m' \<and> mem_view w s' = (mem_view w s)(i \<mapsto> m')
    \<and> receipt_of w (transition_event i m l r eid now) x \<and> events_of w s' = events_of w s @ [x]
    \<and> gov_steps w limits s s' \<and> state_ok w s' \<and> st_candidates s' = st_candidates s \<and> st_links s' = st_links s"
proof -
  obtain r where r: "schema_transition (w_formats w) body = Some r" using run by (auto simp: transition_def split: option.splits)
  obtain m where m: "mem_view w s i = Some m"
    using run r get_by_id_ok [OF ok, of i] by (cases "mem_view w s i") (auto simp: transition_def)
  have val: "validate_transition (mem_lifecycle m) l r = Inr ()"
    using run r m get_by_id_ok [OF ok, of i] by (cases "validate_transition (mem_lifecycle m) l r") (auto simp: transition_def)
  have rest: "and_then (write_transition w i l r now s) (\<lambda>t.
              and_then (lift_service (write_event w (transition_event i m l r eid now) (s\<lparr>st_memories := t\<rparr>))) (\<lambda>s'.
              and_then (get_by_id w i s') (\<lambda>m'. Inr (m', s')))) = Inr (m', s')"
    using run r m val get_by_id_ok [OF ok, of i] by (simp add: transition_def)
  then obtain t where t: "write_transition w i l r now s = Inr t"
      and wr: "write_event w (transition_event i m l r eid now) (s\<lparr>st_memories := t\<rparr>) = Inr s'"
      and reread: "get_by_id w i s' = Inr m'"
    by (auto simp: and_then_Inr)
  have now: "fmt_datetime (w_formats w) now" using write_time [OF wr] by (simp add: transition_event_def)
  obtain n where n: "table_ok (w_formats w) t" "moved m l r now n" "view (w_formats w) t = (mem_view w s)(i \<mapsto> n)"
    using write_transition_effect [OF ok m now val t] by blast
  note e = table_and_receipt [OF ok n(1) wr transition_details_keys transition_not_held]
  have view: "mem_view w s' = (mem_view w s)(i \<mapsto> n)" using e n(3) by simp
  have "state_ok w s'" using e by blast
  then have "m' = n" using reread get_by_id_ok [of w s' i] view by simp
  then show ?thesis using r m val n(2) view e by blast
qed

lemma recategorize_effect:
  assumes ok: "state_ok w s" and run: "recategorize w i body eid now s = Inr (m', s')"
  shows "\<exists>m r x. schema_recategorize body = Some r \<and> mem_view w s i = Some m \<and> mem_category m \<noteq> rq_category r
    \<and> m' = m\<lparr>mem_category := rq_category r, updated_at := now\<rparr> \<and> mem_view w s' = (mem_view w s)(i \<mapsto> m')
    \<and> receipt_of w (recategorized_event i m r eid now) x \<and> events_of w s' = events_of w s @ [x]
    \<and> gov_steps w limits s s' \<and> state_ok w s' \<and> st_candidates s' = st_candidates s \<and> st_links s' = st_links s"
proof -
  obtain r where r: "schema_recategorize body = Some r" using run by (auto simp: recategorize_def split: option.splits)
  obtain m where m: "mem_view w s i = Some m"
    using run r get_by_id_ok [OF ok, of i] by (cases "mem_view w s i") (auto simp: recategorize_def)
  let ?u = "m\<lparr>mem_category := rq_category r, updated_at := now\<rparr>"
  have ne: "mem_category m \<noteq> rq_category r"
    using run r m get_by_id_ok [OF ok, of i] by (auto simp: recategorize_def)
  then have rest: "and_then (lift_service (memory_update (w_scan w) ?u (st_memories s))) (\<lambda>(_, t).
        and_then (lift_service (write_event w (recategorized_event i m r eid now) (s\<lparr>st_memories := t\<rparr>))) (\<lambda>s'.
          Inr (?u, s'))) = Inr (m', s')"
    using run r m get_by_id_ok [OF ok, of i] by (simp add: recategorize_def Let_def)
  then obtain b t where up: "memory_update (w_scan w) ?u (st_memories s) = Inr (b, t)"
      and wr: "write_event w (recategorized_event i m r eid now) (s\<lparr>st_memories := t\<rparr>) = Inr s'" and m': "m' = ?u"
    by (auto simp: and_then_Inr)
  have now: "fmt_datetime (w_formats w) now" using write_time [OF wr] by (simp add: recategorized_event_def)
  have wf: "memory_wf (w_formats w) m" "mem_id m = i" using view_wf [OF state_ok_parts(2) [OF ok] m] by auto
  have "memory_wf (w_formats w) ?u"
    using wf(1) now by (cases m) (auto simp: memory_wf_def schema_memory_def memory_refinement_def split: Option.bind_splits if_splits)
  then have t: "table_ok (w_formats w) t \<and> view (w_formats w) t = (mem_view w s)(i \<mapsto> ?u)"
    using update_stored [OF state_ok_parts(2) [OF ok] _ _ up] m wf(2) by simp
  note e = table_and_receipt [OF ok conjunct1 [OF t] wr recategorized_keys]
  have "mem_view w s' = (mem_view w s)(i \<mapsto> ?u)" using e t by simp
  then show ?thesis using r m ne m' e by blast
qed

section \<open>Lifecycle changes are receipted\<close>

text \<open>
  C33. The service moves a memory only along the lifecycle graph, and never silently. A transition that
  goes through follows an allowed edge and changes the state of that memory, the supersession link of a
  supersession and the update time, nothing else; a recategorization changes the category and the
  update time. Each adds exactly one receipt that carries the value before and the value after. An
  archived memory is never moved again, and nothing is superseded without naming its replacement.
\<close>

theorem lifecycle_changes_are_receipted:
  assumes "state_ok w s"
  shows "(transition w i l body eid now s = Inr (m', s') \<longrightarrow>
      (\<exists>m r. mem_view w s i = Some m \<and> is_transition_allowed (mem_lifecycle m) l
         \<and> moved m l r now m' \<and> mem_view w s' = (mem_view w s)(i \<mapsto> m')
         \<and> (\<exists>x. events_of w s' = events_of w s @ [x] \<and> ev_id x = eid \<and> ev_action x = lifecycle_to_action l \<and> ev_memory_id x = i
              \<and> detail x ''from'' = Some (JStr (lifecycle_name (mem_lifecycle m))) \<and> detail x ''to'' = Some (JStr (lifecycle_name l))))
      \<and> st_candidates s' = st_candidates s \<and> st_links s' = st_links s \<and> state_ok w s')
    \<and> (recategorize w i body2 eid now s = Inr (m2, s2) \<longrightarrow>
      (\<exists>m. mem_view w s i = Some m \<and> mem_category m \<noteq> mem_category m2
         \<and> m2 = m\<lparr>mem_category := rq_category body2, updated_at := now\<rparr> \<and> mem_view w s2 = (mem_view w s)(i \<mapsto> m2)
         \<and> (\<exists>x. events_of w s2 = events_of w s @ [x] \<and> ev_id x = eid \<and> ev_action x = A_recategorized \<and> ev_memory_id x = i
              \<and> detail x ''fromCategory'' = Some (JStr (category_name (mem_category m)))
              \<and> detail x ''toCategory'' = Some (JStr (category_name (mem_category m2)))))
      \<and> st_candidates s2 = st_candidates s \<and> st_links s2 = st_links s \<and> state_ok w s2)
    \<and> (map_option mem_lifecycle (mem_view w s i) = Some Archived \<or> (l = Superseded \<and> falsy (tr_superseded_by body)) \<longrightarrow>
      (\<exists>x. transition w i l body eid now s = Inl x))"
proof (intro conjI impI)
  assume run: "transition w i l body eid now s = Inr (m', s')"
  obtain m r x where e: "mem_view w s i = Some m" "validate_transition (mem_lifecycle m) l r = Inr ()" "moved m l r now m'"
      "mem_view w s' = (mem_view w s)(i \<mapsto> m')" "receipt_of w (transition_event i m l r eid now) x"
      "events_of w s' = events_of w s @ [x]" "state_ok w s'" "st_candidates s' = st_candidates s" "st_links s' = st_links s"
    using transition_effect [OF assms run] by blast
  have "is_transition_allowed (mem_lifecycle m) l" using e(2) by (simp add: validate_ok_iff)
  moreover have "ev_id x = eid \<and> ev_action x = lifecycle_to_action l \<and> ev_memory_id x = i
      \<and> detail x ''from'' = Some (JStr (lifecycle_name (mem_lifecycle m))) \<and> detail x ''to'' = Some (JStr (lifecycle_name l))"
    using receipt_fields [OF e(5)] by (simp add: transition_event_def detail_def)
  ultimately show "\<exists>m r. mem_view w s i = Some m \<and> is_transition_allowed (mem_lifecycle m) l
         \<and> moved m l r now m' \<and> mem_view w s' = (mem_view w s)(i \<mapsto> m')
         \<and> (\<exists>x. events_of w s' = events_of w s @ [x] \<and> ev_id x = eid \<and> ev_action x = lifecycle_to_action l \<and> ev_memory_id x = i
              \<and> detail x ''from'' = Some (JStr (lifecycle_name (mem_lifecycle m))) \<and> detail x ''to'' = Some (JStr (lifecycle_name l)))"
    using e by blast
  show "st_candidates s' = st_candidates s" "st_links s' = st_links s" "state_ok w s'" using e by blast+
next
  assume run: "recategorize w i body2 eid now s = Inr (m2, s2)"
  obtain m r x where e: "schema_recategorize body2 = Some r" "mem_view w s i = Some m" "mem_category m \<noteq> rq_category r"
      "m2 = m\<lparr>mem_category := rq_category r, updated_at := now\<rparr>"
      "mem_view w s2 = (mem_view w s)(i \<mapsto> m2)" "receipt_of w (recategorized_event i m r eid now) x"
      "events_of w s2 = events_of w s @ [x]" "state_ok w s2" "st_candidates s2 = st_candidates s" "st_links s2 = st_links s"
    using recategorize_effect [OF assms run] by blast
  have cat: "rq_category r = rq_category body2" using e(1) by (auto simp: schema_recategorize_def split: Option.bind_splits)
  have "ev_id x = eid \<and> ev_action x = A_recategorized \<and> ev_memory_id x = i
      \<and> detail x ''fromCategory'' = Some (JStr (category_name (mem_category m)))
      \<and> detail x ''toCategory'' = Some (JStr (category_name (mem_category m2)))"
    using receipt_fields [OF e(6)] e(4) by (simp add: recategorized_event_def detail_def)
  moreover have "mem_category m \<noteq> mem_category m2" "m2 = m\<lparr>mem_category := rq_category body2, updated_at := now\<rparr>"
    using e(3,4) cat by simp_all
  ultimately show "\<exists>m. mem_view w s i = Some m \<and> mem_category m \<noteq> mem_category m2
         \<and> m2 = m\<lparr>mem_category := rq_category body2, updated_at := now\<rparr> \<and> mem_view w s2 = (mem_view w s)(i \<mapsto> m2)
         \<and> (\<exists>x. events_of w s2 = events_of w s @ [x] \<and> ev_id x = eid \<and> ev_action x = A_recategorized \<and> ev_memory_id x = i
              \<and> detail x ''fromCategory'' = Some (JStr (category_name (mem_category m)))
              \<and> detail x ''toCategory'' = Some (JStr (category_name (mem_category m2))))"
    using e(2,5,7) by blast
  show "st_candidates s2 = st_candidates s" "st_links s2 = st_links s" "state_ok w s2" using e by blast+
next
  assume bad: "map_option mem_lifecycle (mem_view w s i) = Some Archived \<or> (l = Superseded \<and> falsy (tr_superseded_by body))"
  show "\<exists>x. transition w i l body eid now s = Inl x"
  proof (cases "transition w i l body eid now s")
    case (Inr p)
    then obtain n t where run: "transition w i l body eid now s = Inr (n, t)" by (cases p) auto
    obtain m r where e: "schema_transition (w_formats w) body = Some r" "mem_view w s i = Some m" "validate_transition (mem_lifecycle m) l r = Inr ()"
      using transition_effect [OF assms run] by blast
    have "tr_superseded_by r = tr_superseded_by body" using e(1) by (auto simp: schema_transition_def split: Option.bind_splits if_splits)
    then show ?thesis using bad e(2,3) by (auto simp: validate_ok_iff)
  qed blast
qed

definition plain_transition :: transition_request where
  "plain_transition = \<lparr>tr_reason = ''payroll'', tr_actor = plain_author, tr_superseded_by = None\<rparr>"

lemma plain_archival:
  "\<exists>n s1. transition plain_world ''m1'' Archived plain_transition ''e1'' ''t1'' one_memory = Inr (n, s1)"
proof -
  let ?m = "plain_memory ''m1'' ''a text''"
  let ?e = "transition_event ''m1'' ?m Archived plain_transition ''e1'' ''t1''"
  have m: "mem_lifecycle ?m = Active" "mem_tenant ?m = ''team''" by (simp_all add: plain_memory_def)
  have words: "non_empty_string ''payroll'' = Some ''payroll''" "non_empty_string ''team'' = Some ''team''" by code_simp+
  have req: "schema_transition any_format plain_transition = Some plain_transition"
    using words plain_author_schema by (simp add: schema_transition_def plain_transition_def)
  have get: "get_by_id plain_world ''m1'' one_memory = Inr ?m"
    using get_by_id_ok [OF one_memory_ok, of "''m1''"] one_memory_view by simp
  have val: "validate_transition Active Archived plain_transition = Inr ()" by (simp add: validate_transition_def)
  obtain t where t: "update_lifecycle ''m1'' Archived ''t1'' (st_memories one_memory) = Inr (True, t)"
    using find_row_view [OF state_ok_parts(2) [OF one_memory_ok], of "''m1''"] one_memory_view m(1)
      lifecycle_vocab.parse_name [of Active]
    by (simp add: update_lifecycle_def memory_row_cells)
  have wt: "write_transition plain_world ''m1'' Archived plain_transition ''t1'' one_memory = Inr t"
    using t by (simp add: write_transition_def)
  have "\<exists>x. schema_event any_format ?e = Some x"
    using words plain_author_schema by (simp add: schema_event_def transition_event_def m plain_transition_def schema_optional_def)
  then obtain s1 where s1: "write_event plain_world ?e (one_memory\<lparr>st_memories := t\<rparr>) = Inr s1"
    by (auto simp: write_event_def parse_event_def insert_event_def audit_insert_def one_memory_def)
  obtain n where "table_ok any_format t" "view any_format t = (mem_view plain_world one_memory)(''m1'' \<mapsto> n)"
    using write_transition_effect [OF one_memory_ok one_memory_view _ _ wt] val m(1) by auto
  then have "state_ok plain_world s1" "mem_view plain_world s1 ''m1'' = Some n"
    using table_and_receipt [OF one_memory_ok _ s1 transition_details_keys transition_not_held] by auto
  then have reread: "get_by_id plain_world ''m1'' s1 = Inr n" using get_by_id_ok by simp
  have "transition plain_world ''m1'' Archived plain_transition ''e1'' ''t1'' one_memory = Inr (n, s1)"
    using req get val wt s1 reread m(1) by (simp add: transition_def)
  then show ?thesis by blast
qed

theorem lifecycle_changes_are_receipted_witness:
  "\<exists>m' s'. transition plain_world ''m1'' Archived plain_transition ''e1'' ''t1'' one_memory = Inr (m', s')
     \<and> mem_lifecycle m' = Archived \<and> mem_content m' = ''a text''
     \<and> (\<exists>x. events_of plain_world s' = [x] \<and> ev_action x = A_archived)
     \<and> (\<exists>x. transition plain_world ''m1'' Active plain_transition ''e2'' ''t2'' s' = Inl x)"
proof -
  let ?m = "plain_memory ''m1'' ''a text''"
  obtain n s1 where run: "transition plain_world ''m1'' Archived plain_transition ''e1'' ''t1'' one_memory = Inr (n, s1)"
    using plain_archival by blast
  note c = lifecycle_changes_are_receipted [OF one_memory_ok, of "''m1''" Archived plain_transition "''e1''" "''t1''" n s1]
  obtain m r where mm: "mem_view plain_world one_memory ''m1'' = Some m" "moved m Archived r ''t1'' n" "state_ok plain_world s1"
      "mem_view plain_world s1 = (mem_view plain_world one_memory)(''m1'' \<mapsto> n)"
      "\<exists>x. events_of plain_world s1 = events_of plain_world one_memory @ [x] \<and> ev_action x = lifecycle_to_action Archived"
    using c run by blast
  have mn: "n = ?m\<lparr>mem_lifecycle := Archived, updated_at := ''t1''\<rparr>" using mm(1,2) one_memory_view by (simp add: moved_def)
  then have after: "mem_lifecycle n = Archived" "mem_content n = ''a text''" by (simp_all add: plain_memory_def)
  have "map_option mem_lifecycle (mem_view plain_world s1 ''m1'') = Some Archived" using mm(4) after(1) by simp
  then have "\<exists>x. transition plain_world ''m1'' Active plain_transition ''e2'' ''t2'' s1 = Inl x"
    using lifecycle_changes_are_receipted [OF mm(3)] by blast
  moreover have "events_of plain_world one_memory = []" by (simp add: one_memory_def history_def)
  ultimately show ?thesis using run after mm(5) by (auto simp: lifecycle_to_action_def)
qed

end
