(* ===== verification/Spool_Reader.thy ===== *)
theory Spool_Reader
  imports Governance_Steps
begin

text \<open>
  The reading side of the spool, \<open>packages/claude-runtime/src/spool/spool-reader.ts\<close>: a spool file is a
  JSON line for each candidate, its manifest sidecar pins the digest of the file, the identifiers of
  its candidates and, for a broad import, a receipt. A file is its path, its text and the text of its
  sidecar, each \<open>None\<close> when it cannot be read.
\<close>

section \<open>Candidates from JSON\<close>

definition empty_metadata :: content_metadata where
  "empty_metadata = \<lparr>file_paths = [], language = None, project_context = None, session_id = None,
     repo_url = None, branch = None, md_confidence = None, md_sensitivity = None, tags = [],
     subjects = None, proposed_by_role = None, audience = None\<rparr>"

text \<open>\<open>MemoryCandidate.safeParse\<close> on a parsed line, with the defaults of the schema.\<close>

definition read_candidate_json :: "formats \<Rightarrow> jval \<Rightarrow> memory_candidate option" where
  "read_candidate_json fmt v =
     (if \<not> is_object v then None
      else
        Option.bind (default_member read_string ''1'' v ''schemaVersion'') (\<lambda>version.
        Option.bind (member_of read_string v ''id'') (\<lambda>i.
        Option.bind (member_of (read_vocab status_options status_name) v ''status'') (\<lambda>status.
        Option.bind (member_of (read_vocab source_options source_name) v ''source'') (\<lambda>source.
        Option.bind (member_of read_string v ''content'') (\<lambda>content.
        Option.bind (member_of read_string v ''title'') (\<lambda>title.
        Option.bind (member_of (read_vocab category_options category_name) v ''category'') (\<lambda>category.
        Option.bind (default_member (read_vocab trust_options trust_name) Trust_medium v ''trustLevel'') (\<lambda>trust.
        Option.bind (member_of parse_author v ''author'') (\<lambda>author.
        Option.bind (member_of read_string v ''tenantId'') (\<lambda>tenant.
        Option.bind (default_member read_metadata empty_metadata v ''metadata'') (\<lambda>meta.
        Option.bind (default_member read_flags
            \<lparr>potential_secret = False, low_confidence = False, duplicate_suspect = False\<rparr> v ''prePolicyFlags'') (\<lambda>flags.
        Option.bind (member_of read_string v ''capturedAt'') (\<lambda>captured.
        Option.bind (optional_member read_origin v ''origin'') (\<lambda>origin.
          if version \<noteq> ''1'' then None
          else schema_candidate fmt
            \<lparr>cand_id = i, cand_status = status, cand_source = source, cand_content = content, cand_title = title,
             cand_category = category, cand_trust = trust, cand_author = author, cand_tenant = tenant,
             cand_metadata = meta, cand_flags = flags, captured_at = captured, cand_origin = origin\<rparr>)))))))))))))))"

section \<open>Receipts and manifests\<close>

text \<open>
  \<open>String(v)\<close> on a JSON value, as the membership tests of \<open>parseBatchReceipt\<close> apply it: an array of one
  word prints as the word, and the receipt keeps the array.
\<close>

fun js_string :: "jval \<Rightarrow> string" where
  "js_string JNull = ''null''"
| "js_string (JBool b) = (if b then ''true'' else ''false'')"
| "js_string (JNum q) = js_number q"
| "js_string (JStr s) = s"
| "js_string (JArr vs) = js_join '','' (map (\<lambda>v. case v of JNull \<Rightarrow> [] | _ \<Rightarrow> js_string v) vs)"
| "js_string (JObj kvs) = ''[object Object]''"

definition safe_integer :: "jval \<Rightarrow> int option" where
  "safe_integer v =
     (case v of JNum q \<Rightarrow> if of_int \<lfloor>q\<rfloor> = q \<and> \<bar>q\<bar> \<le> 9007199254740991 then Some \<lfloor>q\<rfloor> else None | _ \<Rightarrow> None)"

record batch_receipt =
  br_batch :: string
  br_tenant :: tenant_id
  br_scope :: jval
  br_source :: jval
  br_trust :: jval
  br_count :: int
  br_max :: int

definition one_of :: "string list \<Rightarrow> jval \<Rightarrow> jval option" where
  "one_of allowed v = (if js_string v \<in> set allowed then Some v else None)"

definition parse_batch_receipt :: "jval \<Rightarrow> batch_receipt option" where
  "parse_batch_receipt v =
     Option.bind (member_of read_string v ''batchId'') (\<lambda>b.
     Option.bind (member_of read_string v ''tenantId'') (\<lambda>tn.
     Option.bind (member_of (one_of [''wiki'', ''outputs'', ''all'']) v ''scope'') (\<lambda>sc.
     Option.bind (member_of (one_of [''import'', ''bulk_import'']) v ''source'') (\<lambda>so.
     Option.bind (member_of (one_of [''high'', ''medium'', ''low'', ''untrusted'']) v ''trustLevel'') (\<lambda>tr.
     Option.bind (member_of safe_integer v ''candidateCount'') (\<lambda>n.
     Option.bind (member_of safe_integer v ''maxCandidates'') (\<lambda>mx.
       if b = [] \<or> length b > 128 \<or> tn = [] \<or> n < 0 \<or> mx < 1 then None
       else Some \<lparr>br_batch = b, br_tenant = tn, br_scope = sc, br_source = so, br_trust = tr,
                  br_count = n, br_max = mx\<rparr>)))))))"

datatype manifest_status = Verified | No_manifest | Tampered

record spool_manifest =
  mf_status :: manifest_status
  mf_expected :: "string option"
  mf_actual :: "string option"
  mf_candidate_ids :: "string list option"
  mf_receipt :: "batch_receipt option"

datatype manifest_fault = Manifest_not_json | Manifest_no_hash | Manifest_bad_receipt | Spool_unreadable

record spool_file =
  sf_path :: string
  sf_content :: "string option"
  sf_manifest :: "string option"

text \<open>
  \<open>verifySpoolManifest\<close>. A manifest that is \<open>null\<close> fails in the property read, inside the \<open>try\<close> whose
  handler calls the manifest no JSON.
\<close>

definition verify_spool_manifest :: "(string \<Rightarrow> string) \<Rightarrow> spool_file \<Rightarrow> manifest_fault + spool_manifest" where
  "verify_spool_manifest H f =
     (case sf_manifest f of
        None \<Rightarrow> Inr \<lparr>mf_status = No_manifest, mf_expected = None, mf_actual = None, mf_candidate_ids = None, mf_receipt = None\<rparr>
      | Some raw \<Rightarrow>
          (case json_parse raw of
             None \<Rightarrow> Inl Manifest_not_json
           | Some v \<Rightarrow>
               if v = JNull then Inl Manifest_not_json
               else (case Option.bind (jget v ''spoolFileSha256'') read_string of
                  None \<Rightarrow> Inl Manifest_no_hash
                | Some expected \<Rightarrow>
                    if expected = [] then Inl Manifest_no_hash
                    else (case optional_member parse_batch_receipt v ''batchReceipt'' of
                       None \<Rightarrow> Inl Manifest_bad_receipt
                     | Some receipt \<Rightarrow>
                         (case sf_content f of
                            None \<Rightarrow> Inl Spool_unreadable
                          | Some content \<Rightarrow>
                              Inr \<lparr>mf_status = (if H content = expected then Verified else Tampered),
                                   mf_expected = Some expected, mf_actual = Some (H content),
                                   mf_candidate_ids = (case jget v ''candidateIds'' of
                                       Some (JArr ids) \<Rightarrow> Some (jstrings ids) | _ \<Rightarrow> None),
                                   mf_receipt = receipt\<rparr>)))))"

section \<open>Files\<close>

definition spool_lines :: "string \<Rightarrow> string list" where
  "spool_lines text = filter (\<lambda>l. l \<noteq> []) (split_at newline (js_trim text))"

text \<open>A line that is no JSON throws, and the whole file is unreadable; a line that is no candidate is dropped.\<close>

fun read_spool_lines :: "formats \<Rightarrow> string list \<Rightarrow> memory_candidate list option" where
  "read_spool_lines fmt [] = Some []"
| "read_spool_lines fmt (l # ls) =
     (case json_parse l of
        None \<Rightarrow> None
      | Some v \<Rightarrow>
          Option.bind (read_spool_lines fmt ls) (\<lambda>cs.
            Some (case read_candidate_json fmt v of None \<Rightarrow> cs | Some c \<Rightarrow> c # cs)))"

definition read_spool_file :: "formats \<Rightarrow> spool_file \<Rightarrow> memory_candidate list option" where
  "read_spool_file fmt f = Option.bind (sf_content f) (\<lambda>text. read_spool_lines fmt (spool_lines text))"

text \<open>\<open>listSpoolFiles\<close>: the names that look like spool files, sorted.\<close>

definition spool_name :: "string \<Rightarrow> bool" where
  "spool_name n = (take 6 n = ''spool-'' \<and> drop (length n - 6) n = ''.jsonl'')"

definition list_spool_files :: "string \<Rightarrow> string list option \<Rightarrow> string list option" where
  "list_spool_files dir names = map_option (\<lambda>ns. map (\<lambda>n. dir @ ''/'' @ n) (sort (filter spool_name ns))) names"

section \<open>The writer and the round trip\<close>

text \<open>
  \<open>claude-runtime/src/spool/spool-writer.ts\<close> appends \<open>JSON.stringify(candidate)\<close> and a line feed. The file
  name is fixed or built from an agent's name, which \<open>isPathSafe\<close> keeps inside the directory.
\<close>

definition spool_json :: "memory_candidate \<Rightarrow> jval" where
  "spool_json c = (case candidate_json c of JObj kvs \<Rightarrow> JObj ((''schemaVersion'', JStr ''1'') # kvs) | v \<Rightarrow> v)"

definition spool_line :: "memory_candidate \<Rightarrow> string" where
  "spool_line c = json_stringify (spool_json c) @ [newline]"

definition spool_text :: "memory_candidate list \<Rightarrow> string" where
  "spool_text cs = concat (map spool_line cs)"

text \<open>The JSON text of a value holds no control character, so no line feed.\<close>

lemma newline_chars [simp]:
  "newline \<noteq> CHR '',''" "newline \<noteq> CHR '':''" "newline \<noteq> CHR ''{''" "newline \<noteq> CHR ''}''" "newline \<noteq> CHR ''[''"
  "newline \<noteq> CHR '']''" "newline \<noteq> CHR 0x22" "newline \<notin> set ''null''" "newline \<notin> set ''true''" "newline \<notin> set ''false''"
  by (simp_all add: newline_def)

lemma newline_escapes:
  "newline \<noteq> CHR 0x5C" "newline \<noteq> CHR ''b''" "newline \<noteq> CHR ''f''" "newline \<noteq> CHR ''n''" "newline \<noteq> CHR ''r''"
  "newline \<noteq> CHR ''t''" "newline \<noteq> CHR ''u''" "newline \<noteq> CHR ''0''"
  by (simp_all add: newline_def)

lemma hex_digit_not_newline: "n < 16 \<Longrightarrow> newline \<noteq> hex_digit n"
proof -
  have all: "\<forall>k \<in> set [0..<16]. newline \<noteq> hex_digit k" by code_simp
  show "n < 16 \<Longrightarrow> newline \<noteq> hex_digit n" using all by simp
qed

lemma escape_no_newline: "newline \<notin> set (json_escape c)"
proof (cases "c = newline")
  case True
  then show ?thesis by (simp add: json_escape_def newline_def)
next
  case False
  show ?thesis
  proof (cases "of_char c < (32 :: nat)")
    case True
    then have high: "(of_char c :: nat) div 16 < 16" and low: "(of_char c :: nat) mod 16 < 16" by auto
    from hex_digit_not_newline [OF high] hex_digit_not_newline [OF low] False
    show ?thesis by (simp add: json_escape_def newline_escapes True)
  qed (use False in \<open>simp add: json_escape_def newline_escapes\<close>)
qed

lemma quote_no_newline [simp]: "newline \<notin> set (json_quote s)"
  using escape_no_newline by (auto simp: json_quote_def)

lemma commas_set: "set (json_commas xs) \<subseteq> insert (CHR '','') (\<Union> (set ` set xs))"
  by (induction xs rule: json_commas.induct) auto

text \<open>Values without numbers, as every record of a candidate is.\<close>

fun number_free :: "jval \<Rightarrow> bool" where
  "number_free (JNum x) = False"
| "number_free (JArr vs) = (\<forall>v \<in> set vs. number_free v)"
| "number_free (JObj kvs) = (\<forall>kv \<in> set kvs. number_free (snd kv))"
| "number_free _ = True"

lemma stringify_no_newline: "number_free v \<Longrightarrow> newline \<notin> set (json_stringify v)"
proof (induction v)
  case (JArr vs)
  have "newline \<notin> \<Union> (set ` set (map json_stringify vs))" using JArr by auto
  then show ?case using commas_set [of "map json_stringify vs"] by auto
next
  case (JObj kvs)
  have member: "newline \<notin> set (json_quote k @ '':'' @ json_stringify v)" if "(k, v) \<in> set kvs" for k v
  proof -
    have "newline \<notin> set (json_stringify v)"
      using JObj.IH [OF that, of v] JObj.prems that by (auto simp: snds.simps)
    then show ?thesis by simp
  qed
  have "newline \<notin> \<Union> (set ` set (map (\<lambda>(k, v). json_quote k @ '':'' @ json_stringify v) kvs))"
  proof
    assume "newline \<in> \<Union> (set ` set (map (\<lambda>(k, v). json_quote k @ '':'' @ json_stringify v) kvs))"
    then obtain kv where "kv \<in> set kvs" "newline \<in> set (case kv of (k, v) \<Rightarrow> json_quote k @ '':'' @ json_stringify v)" by auto
    then show False using member by (cases kv) auto
  qed
  then have "newline \<notin> set (json_commas (map (\<lambda>(k, v). json_quote k @ '':'' @ json_stringify v) kvs))"
    using commas_set [of "map (\<lambda>(k, v). json_quote k @ '':'' @ json_stringify v) kvs"] newline_chars(1) by blast
  then show ?case by simp
qed (simp_all add: newline_def quote_no_newline [unfolded newline_def])

lemma record_number_free:
  "list_all (\<lambda>kv. pred_option number_free (snd kv)) kvs \<Longrightarrow> number_free (json_record kvs)"
  by (induction kvs rule: defined_members.induct) (auto simp: json_record_def)

lemma candidate_number_free: "number_free (spool_json c)"
proof -
  have "number_free (author_json a)" for a by (cases "author_name a") (simp_all add: author_json_def)
  moreover have "number_free (metadata_json m)" for m
    unfolding metadata_json_def by (rule record_number_free) (simp add: option.pred_map o_def option.pred_True)
  moreover have "number_free (flags_json f)" "number_free (origin_json og)" for f og
    unfolding flags_json_def origin_json_def by (rule record_number_free; simp)+
  ultimately show ?thesis by (cases "cand_origin c") (simp_all add: spool_json_def candidate_json_def)
qed

lemma spool_json_plain: "json_plain (spool_json c)"
proof -
  have "json_plain (author_json a)" for a by (cases "author_name a") (simp_all add: author_json_def)
  then show ?thesis by (simp add: spool_json_def candidate_json_def split: option.split)
qed

lemma spool_members:
  "jget (spool_json c) k = map_of ((''schemaVersion'', JStr ''1'') # (case candidate_json c of JObj kvs \<Rightarrow> kvs | _ \<Rightarrow> [])) k"
  by (simp add: spool_json_def candidate_json_def)

lemma read_spool_json:
  assumes wf: "candidate_wf fmt c"
  shows "read_candidate_json fmt (spool_json c) = Some c"
proof -
  note parts = schema_candidate_parts [OF wf [unfolded candidate_wf_def]]
  have orig: "optional_member read_origin (spool_json c) ''origin'' = Some (cand_origin c)"
    by (rule optional_member_map [of _ _ origin_json]) (simp_all add: spool_members candidate_json_def split: option.split)
  have "is_object (spool_json c)" by (simp add: spool_json_def candidate_json_def is_object_def)
  then show ?thesis using wf orig
    by (simp add: read_candidate_json_def member_of_def default_member_def spool_members candidate_json_def
        read_vocab_def source_vocab.parse_name category_vocab.parse_name trust_vocab.parse_name status_vocab.parse_name
        read_author_json [OF parts(2)] read_metadata_json [OF parts(1)] candidate_wf_def candidate_eta)
qed

text \<open>Splitting the text of a file at its line feeds gives its lines.\<close>

lemma split_at_plain: "c \<notin> set l \<Longrightarrow> split_at c l = [l]"
  by (induction l) auto

lemma split_at_append: "c \<notin> set l \<Longrightarrow> split_at c (l @ c # r) = l # split_at c r"
  by (induction l) auto

lemma split_lines:
  "(\<And>l. l \<in> set ls \<Longrightarrow> c \<notin> set l) \<Longrightarrow> c \<notin> set z \<Longrightarrow> split_at c (concat (map (\<lambda>l. l @ [c]) ls) @ z) = ls @ [z]"
  by (induction ls) (simp_all add: split_at_plain split_at_append)

lemma trim_line_end:
  assumes "x \<noteq> []" "\<not> js_space (hd x)" "\<not> js_space (last x)"
  shows "js_trim (x @ [newline]) = x"
proof -
  have "js_space newline" by (simp add: js_space_def newline_def)
  moreover have "dropWhile js_space (x @ [newline]) = x @ [newline]" using assms(1,2) by (cases x) auto
  moreover have "dropWhile js_space (rev x) = rev x" using assms(1,3) by (cases "rev x") (auto simp: last_rev dest: arg_cong [where f = rev])
  ultimately show ?thesis by (simp add: js_trim_def)
qed

lemma spool_object: "\<exists>m. json_stringify (spool_json c) = CHR ''{'' # m @ [CHR ''}'']"
  by (simp add: spool_json_def candidate_json_def del: json_commas.simps)

lemma spool_lines_text: "spool_lines (spool_text cs) = map (\<lambda>c. json_stringify (spool_json c)) cs"
proof (cases cs rule: rev_cases)
  case Nil
  then show ?thesis by (simp add: spool_lines_def spool_text_def js_trim_def)
next
  case (snoc ds d)
  let ?l = "\<lambda>c. json_stringify (spool_json c)"
  let ?u = "concat (map (\<lambda>l. l @ [newline]) (map ?l ds)) @ ?l d"
  have whole: "spool_text cs = ?u @ [newline]" by (simp add: snoc spool_text_def spool_line_def [abs_def] comp_def)
  have ends: "hd (?l c) = CHR ''{''" "last (?l c) = CHR ''}''" "?l c \<noteq> []" for c
    using spool_object [of c] by auto
  have "hd ?u = CHR ''{''" using ends by (cases ds) (simp_all del: json_stringify.simps)
  moreover have "last ?u = CHR ''}''" using ends by (simp del: json_stringify.simps)
  ultimately have "js_trim (spool_text cs) = ?u" unfolding whole
    using ends(3) [of d] by (intro trim_line_end) (simp_all add: js_space_def)
  moreover have "newline \<notin> set (?l c)" for c by (rule stringify_no_newline [OF candidate_number_free])
  then have "split_at newline ?u = map ?l ds @ [?l d]" by (intro split_lines) auto
  ultimately have "spool_lines (spool_text cs) = filter (\<lambda>l. l \<noteq> []) (map ?l cs)" by (simp add: spool_lines_def snoc)
  moreover have "filter (\<lambda>l. l \<noteq> []) (map ?l cs) = map ?l cs" using ends(3) by (intro filter_True) auto
  ultimately show ?thesis by simp
qed

lemma written_candidates_read:
  "list_all (candidate_wf fmt) cs \<Longrightarrow> read_spool_lines fmt (spool_lines (spool_text cs)) = Some cs"
  unfolding spool_lines_text by (induction cs)
    (simp_all add: json_parse_stringify [OF spool_json_plain] read_spool_json del: json_stringify.simps)

text \<open>
  What the writer appends, the reader returns. A spool file that is the concatenation of the lines of
  well-formed candidates, whatever line feeds their texts hold, reads back as exactly these candidates
  in their order; a candidate appended to such a file is read after the others. And a file of which one
  line is no JSON gives no candidate at all.
\<close>

theorem spool_file_reads_back:
  "(list_all (candidate_wf fmt) cs \<longrightarrow> read_spool_lines fmt (spool_lines (spool_text cs)) = Some cs)
   \<and> (list_all (candidate_wf fmt) (cs @ [c]) \<longrightarrow>
        read_spool_lines fmt (spool_lines (spool_text cs @ spool_line c)) = Some (cs @ [c]))
   \<and> (l \<in> set ls \<and> json_parse l = None \<longrightarrow> read_spool_lines fmt ls = None)"
proof -
  have more: "spool_text cs @ spool_line c = spool_text (cs @ [c])" by (simp add: spool_text_def)
  have bad: "l \<in> set ls \<Longrightarrow> json_parse l = None \<Longrightarrow> read_spool_lines fmt ls = None"
    by (induction ls) (auto split: option.split)
  show ?thesis unfolding more using written_candidates_read bad by blast
qed

theorem spool_file_reads_back_witness:
  "read_spool_lines any_format (spool_lines (spool_text [plain_candidate ''c1'' ''one'', plain_candidate ''c2'' ''two'']))
     = Some [plain_candidate ''c1'' ''one'', plain_candidate ''c2'' ''two'']
   \<and> read_spool_lines any_format [''{}'', ''{''] = None"
proof -
  have one: "candidate_wf any_format (plain_candidate ''c1'' ''one'')" by (rule plain_candidate_wf) code_simp
  have two: "candidate_wf any_format (plain_candidate ''c2'' ''two'')" by (rule plain_candidate_wf) code_simp
  have bad: "json_parse ''{'' = None" by code_simp
  show ?thesis
    using one two bad
      spool_file_reads_back [where fmt = any_format and cs = "[plain_candidate ''c1'' ''one'', plain_candidate ''c2'' ''two'']" and ls = "[''{}'', ''{'']" and l = "''{''"]
    by simp
qed

end
