(* ===== verification/Import_Batches.thy ===== *)
theory Import_Batches
  imports Governance_Steps
begin

text \<open>
  The batch ledger of bulk imports, \<open>packages/store/src/repositories/import-batch-repository.ts\<close>: one
  row for each run of a spool file with a receipt or of a vault import. The table is the list of its
  rows; \<open>intake_db\<close> is the database of the governance operations together with it.
\<close>

section \<open>Rows and operations\<close>

datatype batch_status = Batch_active | Batch_completed | Batch_rolled_back

fun batch_status_name :: "batch_status \<Rightarrow> string" where
  "batch_status_name Batch_active = ''active''"
| "batch_status_name Batch_completed = ''completed''"
| "batch_status_name Batch_rolled_back = ''rolled_back''"

record import_batch =
  ib_id :: string
  ib_tenant :: tenant_id
  ib_source_path :: "string option"
  ib_files :: nat
  ib_created :: nat
  ib_rejected :: nat
  ib_skipped :: nat
  ib_status :: batch_status
  ib_created_at :: iso_datetime
  ib_rolled_back_at :: "iso_datetime option"

type_synonym batch_table = "import_batch list"

record intake_db =
  id_store :: store_state
  id_batches :: batch_table

text \<open>The insert leaves \<open>rolled_back_at\<close> out, so the column is \<open>NULL\<close> whatever the object holds.\<close>

definition batch_insert :: "import_batch \<Rightarrow> batch_table \<Rightarrow> fault + batch_table" where
  "batch_insert b t =
     (if ib_id b \<in> set (map ib_id t) then Inl (Key_taken (ib_id b)) else Inr (t @ [b\<lparr>ib_rolled_back_at := None\<rparr>]))"

definition find_batch :: "string \<Rightarrow> batch_table \<Rightarrow> import_batch option" where
  "find_batch i t = find (\<lambda>b. ib_id b = i) t"

text \<open>\<open>ORDER BY created_at DESC\<close>; rows of one instant keep their order.\<close>

definition newest_batches :: "batch_table \<Rightarrow> batch_table" where
  "newest_batches t = rev (sort_key ib_created_at (rev t))"

definition find_batches_by_tenant :: "tenant_id \<Rightarrow> batch_table \<Rightarrow> batch_table" where
  "find_batches_by_tenant tn t = newest_batches (filter (\<lambda>b. ib_tenant b = tn) t)"

definition find_batches_by_status :: "batch_status \<Rightarrow> batch_table \<Rightarrow> batch_table" where
  "find_batches_by_status st t = newest_batches (filter (\<lambda>b. ib_status b = st) t)"

definition update_batch :: "string \<Rightarrow> (import_batch \<Rightarrow> import_batch) \<Rightarrow> batch_table \<Rightarrow> bool \<times> batch_table" where
  "update_batch i f t = (list_ex (\<lambda>b. ib_id b = i) t, map (\<lambda>b. if ib_id b = i then f b else b) t)"

definition update_counts :: "string \<Rightarrow> nat \<Rightarrow> nat \<Rightarrow> nat \<Rightarrow> nat \<Rightarrow> batch_table \<Rightarrow> bool \<times> batch_table" where
  "update_counts i files created rejected skipped =
     update_batch i (\<lambda>b. b\<lparr>ib_files := files, ib_created := created, ib_rejected := rejected, ib_skipped := skipped\<rparr>)"

definition complete_batch :: "string \<Rightarrow> batch_table \<Rightarrow> bool \<times> batch_table" where
  "complete_batch i = update_batch i (\<lambda>b. b\<lparr>ib_status := Batch_completed, ib_rolled_back_at := None\<rparr>)"

definition rollback_batch :: "string \<Rightarrow> iso_datetime \<Rightarrow> batch_table \<Rightarrow> bool \<times> batch_table" where
  "rollback_batch i stamp = update_batch i (\<lambda>b. b\<lparr>ib_status := Batch_rolled_back, ib_rolled_back_at := Some stamp\<rparr>)"

section \<open>What the operations keep\<close>

lemma find_batch_None: "find_batch i t = None \<longleftrightarrow> i \<notin> set (map ib_id t)"
  by (auto simp: find_batch_def find_None_iff)

lemma batch_insert_fresh:
  "find_batch (ib_id b) t = None \<Longrightarrow> batch_insert b t = Inr (t @ [b\<lparr>ib_rolled_back_at := None\<rparr>])"
  unfolding find_batch_None by (simp add: batch_insert_def)

lemma find_batch_snoc: "find_batch i (t @ [b]) = (case find_batch i t of None \<Rightarrow> if ib_id b = i then Some b else None | Some x \<Rightarrow> Some x)"
  by (induction t) (auto simp: find_batch_def)

lemma update_batch_view:
  assumes "\<And>b. ib_id (f b) = ib_id b"
  shows "find_batch j (snd (update_batch i f t)) = (if j = i then map_option f (find_batch j t) else find_batch j t)"
  using assms by (induction t) (auto simp: find_batch_def update_batch_def)

lemma batch_writes [simp]:
  "find_batch j (snd (update_counts i fs cr re sk t)) =
     (if j = i then map_option (\<lambda>b. b\<lparr>ib_files := fs, ib_created := cr, ib_rejected := re, ib_skipped := sk\<rparr>) (find_batch j t)
      else find_batch j t)"
  "find_batch j (snd (complete_batch i t)) =
     (if j = i then map_option (\<lambda>b. b\<lparr>ib_status := Batch_completed, ib_rolled_back_at := None\<rparr>) (find_batch j t) else find_batch j t)"
  "find_batch j (snd (rollback_batch i stamp t)) =
     (if j = i then map_option (\<lambda>b. b\<lparr>ib_status := Batch_rolled_back, ib_rolled_back_at := Some stamp\<rparr>) (find_batch j t)
      else find_batch j t)"
  unfolding update_counts_def complete_batch_def rollback_batch_def by (subst update_batch_view; simp)+

text \<open>The listings show every row once, newest first.\<close>

lemma newest_batches_sorted: "sorted (rev (map ib_created_at (newest_batches t)))" "mset (newest_batches t) = mset t"
  by (simp_all add: newest_batches_def rev_map [symmetric])

end
