(* ===== verification/Spool_Intake.thy ===== *)
theory Spool_Intake
  imports Spool_Reader Import_Batches Promoter_Laws
begin

text \<open>
  The nightly sweep of the spool into the inbox, \<open>apps/curator/src/intake/spool-intake.ts\<close>: which files
  are admitted, the receipt a broad import needs, the candidates that are inserted, skipped or refused,
  and the batch row. A file's text is read once; a move of a file that fails changes nothing here.
\<close>

section \<open>Admission\<close>

definition default_broad_import_candidate_limit :: nat where
  "default_broad_import_candidate_limit = 100"

record ingest_options =
  io_verify :: bool
  io_quarantine :: "string \<Rightarrow> string option"
  io_batches :: bool
  io_archive :: bool

datatype receipt_fault =
    Receipt_missing
  | Receipt_unverified
  | Receipt_count int nat
  | Receipt_over_ceiling int int
  | Receipt_no_ids
  | Receipt_ids_differ
  | Receipt_tenant uuid
  | Receipt_source uuid
  | Receipt_trust uuid
  | Receipt_bulk_trust

definition requires_batch_receipt :: "memory_candidate list \<Rightarrow> nat \<Rightarrow> spool_manifest option \<Rightarrow> bool" where
  "requires_batch_receipt cs limit m \<longleftrightarrow>
     Option.bind m mf_receipt \<noteq> None \<or> list_ex (\<lambda>c. cand_source c = Bulk_import) cs \<or> limit < length cs"

text \<open>The checks of one candidate against the receipt, in the order of the loop.\<close>

definition receipt_fault_of :: "batch_receipt \<Rightarrow> memory_candidate \<Rightarrow> receipt_fault option" where
  "receipt_fault_of r c =
     (if cand_tenant c \<noteq> br_tenant r then Some (Receipt_tenant (cand_id c))
      else if JStr (source_name (cand_source c)) \<noteq> br_source r then Some (Receipt_source (cand_id c))
      else if JStr (trust_name (cand_trust c)) \<noteq> br_trust r then Some (Receipt_trust (cand_id c))
      else None)"

fun first_receipt_fault :: "batch_receipt \<Rightarrow> memory_candidate list \<Rightarrow> receipt_fault option" where
  "first_receipt_fault r [] = None"
| "first_receipt_fault r (c # cs) = (case receipt_fault_of r c of None \<Rightarrow> first_receipt_fault r cs | Some x \<Rightarrow> Some x)"

definition validate_batch_receipt :: "spool_manifest \<Rightarrow> memory_candidate list \<Rightarrow> receipt_fault option" where
  "validate_batch_receipt m cs =
     (case mf_receipt m of
        None \<Rightarrow> Some Receipt_missing
      | Some r \<Rightarrow>
          if mf_status m \<noteq> Verified then Some Receipt_unverified
          else if br_count r \<noteq> int (length cs) then Some (Receipt_count (br_count r) (length cs))
          else if br_count r > br_max r then Some (Receipt_over_ceiling (br_count r) (br_max r))
          else (case mf_candidate_ids m of
                  None \<Rightarrow> Some Receipt_no_ids
                | Some ids \<Rightarrow>
                    if length ids \<noteq> length cs then Some Receipt_no_ids
                    else if length (remdups ids) \<noteq> length cs \<or> list_ex (\<lambda>c. cand_id c \<notin> set ids) cs then Some Receipt_ids_differ
                    else (case first_receipt_fault r cs of
                            Some x \<Rightarrow> Some x
                          | None \<Rightarrow>
                              if br_source r = JStr ''bulk_import'' \<and> br_trust r \<noteq> JStr ''low'' \<and> br_trust r \<noteq> JStr ''untrusted''
                              then Some Receipt_bulk_trust else None)))"

datatype admission_reason =
    Manifest_error manifest_fault
  | Receipt_error receipt_fault
  | No_batch_repository
  | Batch_not_persisted fault

datatype admission =
    File_tampered "string option" "string option"
  | File_refused admission_reason "string option"
  | File_skipped
  | File_admitted "memory_candidate list" "batch_receipt option"

text \<open>The body of the loop over files up to the first write.\<close>

definition admit_broad :: "world \<Rightarrow> ingest_options \<Rightarrow> spool_file \<Rightarrow> spool_manifest option \<Rightarrow> memory_candidate list \<Rightarrow> admission" where
  "admit_broad w o' f m cs =
     (case (case m of Some x \<Rightarrow> Inr x | None \<Rightarrow> verify_spool_manifest (w_sha256 w) f) of
        Inl e \<Rightarrow> File_refused (Manifest_error e) None
      | Inr x \<Rightarrow>
          (case validate_batch_receipt x cs of
             Some e \<Rightarrow> File_refused (Receipt_error e) (map_option br_batch (mf_receipt x))
           | None \<Rightarrow>
               if \<not> io_batches o' then File_refused No_batch_repository (map_option br_batch (mf_receipt x))
               else File_admitted cs (mf_receipt x)))"

definition admit_file :: "world \<Rightarrow> ingest_options \<Rightarrow> spool_file \<Rightarrow> admission" where
  "admit_file w o' f =
     (case (if io_verify o' then map_sum id Some (verify_spool_manifest (w_sha256 w) f) else Inr None) of
        Inl e \<Rightarrow> File_refused (Manifest_error e) None
      | Inr m \<Rightarrow>
          if map_option mf_status m = Some Tampered
          then File_tampered (Option.bind m mf_expected) (Option.bind m mf_actual)
          else (case read_spool_file (w_formats w) f of
                  None \<Rightarrow> File_skipped
                | Some cs \<Rightarrow>
                    if requires_batch_receipt cs default_broad_import_candidate_limit m then admit_broad w o' f m cs
                    else File_admitted cs (Option.bind m mf_receipt)))"

section \<open>Candidates\<close>

text \<open>
  What the handler catches: \<open>DisclosureRejectedError\<close> and its subclass for redacted text, which names the
  category \<open>secret\<close>. Anything else leaves the loop.
\<close>

definition disclosure_category :: "fault \<Rightarrow> string option" where
  "disclosure_category e = (case e of Disclosure_rejected c \<Rightarrow> Some c | Redacted_reingest \<Rightarrow> Some ''secret'' | _ \<Rightarrow> None)"

record candidate_tally =
  ct_fault :: "fault option"
  ct_created :: "memory_candidate list"
  ct_rejected :: "(uuid \<times> string) list"
  ct_skipped :: nat

definition no_tally :: candidate_tally where
  "no_tally = \<lparr>ct_fault = None, ct_created = [], ct_rejected = [], ct_skipped = 0\<rparr>"

fun ingest_candidates ::
  "world \<Rightarrow> audit_table \<Rightarrow> string option \<Rightarrow> memory_candidate list \<Rightarrow> candidate_table \<Rightarrow> candidate_tally \<times> candidate_table" where
  "ingest_candidates w audits batch [] t = (no_tally, t)"
| "ingest_candidates w audits batch (c # cs) t =
     (case find_candidate (w_formats w) (cand_id c) t of
        Inl e \<Rightarrow> (no_tally\<lparr>ct_fault := Some e\<rparr>, t)
      | Inr (Some _) \<Rightarrow>
          (case ingest_candidates w audits batch cs t of (n, t') \<Rightarrow> (n\<lparr>ct_skipped := Suc (ct_skipped n)\<rparr>, t'))
      | Inr None \<Rightarrow>
          (case candidate_insert (w_scan w) (w_sha256 w) audits (w_sha256 w (cand_content c)) batch c t of
             Inr t1 \<Rightarrow>
               (case ingest_candidates w audits batch cs t1 of (n, t') \<Rightarrow> (n\<lparr>ct_created := c # ct_created n\<rparr>, t'))
           | Inl e \<Rightarrow>
               (case disclosure_category e of
                  Some k \<Rightarrow>
                    (case ingest_candidates w audits batch cs t of
                       (n, t') \<Rightarrow> (n\<lparr>ct_rejected := (cand_id c, k) # ct_rejected n\<rparr>, t'))
                | None \<Rightarrow> (no_tally\<lparr>ct_fault := Some e\<rparr>, t))))"

section \<open>Files\<close>

record ingest_result =
  ir_ingested :: "memory_candidate list"
  ir_tampered :: "(string \<times> string option \<times> string option \<times> string option) list"
  ir_rejected :: "(uuid \<times> string) list"
  ir_refused :: "(string \<times> admission_reason \<times> string option) list"
  ir_archived :: "string list"

definition no_result :: ingest_result where
  "no_result = \<lparr>ir_ingested = [], ir_tampered = [], ir_rejected = [], ir_refused = [], ir_archived = []\<rparr>"

definition new_batch :: "batch_receipt \<Rightarrow> string \<Rightarrow> iso_datetime \<Rightarrow> import_batch" where
  "new_batch r path now =
     \<lparr>ib_id = br_batch r, ib_tenant = br_tenant r, ib_source_path = Some path, ib_files = 1, ib_created = 0,
      ib_rejected = 0, ib_skipped = 0, ib_status = Batch_active, ib_created_at = now, ib_rolled_back_at = None\<rparr>"

text \<open>The batch row before the candidates: \<open>None\<close> when the file carries no receipt, else whether it existed.\<close>

definition open_batch ::
  "batch_receipt option \<Rightarrow> string \<Rightarrow> iso_datetime \<Rightarrow> batch_table \<Rightarrow> admission_reason + bool \<times> batch_table" where
  "open_batch receipt path now b =
     (case receipt of
        None \<Rightarrow> Inr (False, b)
      | Some r \<Rightarrow>
          if find_batch (br_batch r) b \<noteq> None then Inr (True, b)
          else (case batch_insert (new_batch r path now) b of
                  Inl e \<Rightarrow> Inl (Batch_not_persisted e) | Inr b' \<Rightarrow> Inr (False, b')))"

definition close_batch :: "batch_receipt option \<Rightarrow> bool \<Rightarrow> candidate_tally \<Rightarrow> batch_table \<Rightarrow> batch_table" where
  "close_batch receipt existed n b =
     (case receipt of
        None \<Rightarrow> b
      | Some r \<Rightarrow>
          if existed then b
          else snd (complete_batch (br_batch r)
                 (snd (update_counts (br_batch r) 1 (length (ct_created n)) (length (ct_rejected n)) (ct_skipped n) b))))"

definition ingest_admitted ::
  "world \<Rightarrow> ingest_options \<Rightarrow> string \<Rightarrow> iso_datetime \<Rightarrow> memory_candidate list \<Rightarrow> batch_receipt option \<Rightarrow> ingest_result \<Rightarrow>
    intake_db \<Rightarrow> (fault option \<times> ingest_result) \<times> intake_db" where
  "ingest_admitted w o' path now cs receipt res d =
     (case open_batch receipt path now (id_batches d) of
        Inl e \<Rightarrow> ((None, res\<lparr>ir_refused := ir_refused res @ [(path, e, map_option br_batch receipt)]\<rparr>), d)
      | Inr (existed, b) \<Rightarrow>
          (case ingest_candidates w (st_audits (id_store d)) (map_option br_batch receipt) cs (st_candidates (id_store d)) of
             (n, t) \<Rightarrow>
               let res' = res\<lparr>ir_ingested := ir_ingested res @ ct_created n, ir_rejected := ir_rejected res @ ct_rejected n\<rparr>;
                   s' = (id_store d)\<lparr>st_candidates := t\<rparr>
               in (case ct_fault n of
                     Some e \<Rightarrow> ((Some e, res'), \<lparr>id_store = s', id_batches = b\<rparr>)
                   | None \<Rightarrow>
                       ((None, if io_archive o' then res'\<lparr>ir_archived := ir_archived res' @ [path]\<rparr> else res'),
                        \<lparr>id_store = s', id_batches = close_batch receipt existed n b\<rparr>))))"

definition ingest_file ::
  "world \<Rightarrow> ingest_options \<Rightarrow> iso_datetime \<Rightarrow> spool_file \<Rightarrow> ingest_result \<Rightarrow> intake_db \<Rightarrow>
    (fault option \<times> ingest_result) \<times> intake_db" where
  "ingest_file w o' now f res d =
     (case admit_file w o' f of
        File_tampered e a \<Rightarrow>
          ((None, res\<lparr>ir_tampered := ir_tampered res @ [(sf_path f, e, a, io_quarantine o' (sf_path f))]\<rparr>), d)
      | File_refused r b \<Rightarrow> ((None, res\<lparr>ir_refused := ir_refused res @ [(sf_path f, r, b)]\<rparr>), d)
      | File_skipped \<Rightarrow> ((None, res), d)
      | File_admitted cs receipt \<Rightarrow> ingest_admitted w o' (sf_path f) now cs receipt res d)"

fun ingest_files ::
  "world \<Rightarrow> ingest_options \<Rightarrow> (string \<Rightarrow> iso_datetime) \<Rightarrow> spool_file list \<Rightarrow> ingest_result \<Rightarrow> intake_db \<Rightarrow>
    (fault option \<times> ingest_result) \<times> intake_db" where
  "ingest_files w o' clock [] res d = ((None, res), d)"
| "ingest_files w o' clock (f # fs) res d =
     (case ingest_file w o' (clock (sf_path f)) f res d of
        ((Some e, res'), d') \<Rightarrow> ((Some e, res'), d')
      | ((None, res'), d') \<Rightarrow> ingest_files w o' clock fs res' d')"

text \<open>
  \<open>ingestFromSpoolDetailed\<close> on the files of the directory, \<open>None\<close> when it cannot be listed: the rejected
  promise is \<open>Inl\<close>, and what was written before stays.
\<close>

datatype ingest_failure = Spool_not_listed | Ingest_threw fault

definition ingest_from_spool_detailed ::
  "world \<Rightarrow> ingest_options \<Rightarrow> (string \<Rightarrow> iso_datetime) \<Rightarrow> spool_file list option \<Rightarrow> intake_db \<Rightarrow>
    (ingest_failure + ingest_result) \<times> intake_db" where
  "ingest_from_spool_detailed w o' clock files d =
     (case files of
        None \<Rightarrow> (Inl Spool_not_listed, d)
      | Some fs \<Rightarrow>
          (case ingest_files w o' clock fs no_result d of
             ((Some e, _), d') \<Rightarrow> (Inl (Ingest_threw e), d')
           | ((None, res), d') \<Rightarrow> (Inr res, d')))"

definition ingest_from_spool ::
  "world \<Rightarrow> ingest_options \<Rightarrow> (string \<Rightarrow> iso_datetime) \<Rightarrow> spool_file list option \<Rightarrow> intake_db \<Rightarrow>
    (ingest_failure + memory_candidate list) \<times> intake_db" where
  "ingest_from_spool w o' clock files d =
     (case ingest_from_spool_detailed w o' clock files d of (r, d') \<Rightarrow> (map_sum id ir_ingested r, d'))"

end
