(* ===== verification/Spool_Laws.thy ===== *)
theory Spool_Laws
  imports Spool_Intake
begin

text \<open>
  What a sweep of the spool guarantees: what an admitted broad file has been checked for, that a sweep
  over well-formed tables always returns, that a second sweep changes nothing, and that the row of a
  batch accounts for every candidate of its file.
\<close>

section \<open>Candidates read from a file are well formed\<close>

lemma read_json_wf:
  assumes "read_candidate_json fmt v = Some c"
  shows "candidate_wf fmt c"
proof -
  obtain d where "schema_candidate fmt d = Some c"
    using assms by (auto simp: read_candidate_json_def split: Option.bind_splits if_splits)
  then show ?thesis by (rule schema_candidate_wf)
qed

lemma read_lines_wf: "read_spool_lines fmt ls = Some cs \<Longrightarrow> c \<in> set cs \<Longrightarrow> candidate_wf fmt c"
  by (induction ls arbitrary: cs) (auto split: option.splits Option.bind_splits dest: read_json_wf)

lemma read_file_wf: "read_spool_file fmt f = Some cs \<Longrightarrow> list_all (candidate_wf fmt) cs"
  by (auto simp: read_spool_file_def list_all_iff split: Option.bind_splits intro: read_lines_wf)

section \<open>What admission has checked\<close>

lemma first_receipt_fault_None: "first_receipt_fault r cs = None \<longleftrightarrow> (\<forall>c \<in> set cs. receipt_fault_of r c = None)"
  by (induction cs) (auto split: option.split)

lemma admit_cases [consumes 1, case_names Plain Broad]:
  assumes "admit_file w o' f = File_admitted cs receipt"
  obtains "receipt = None" "\<not> list_ex (\<lambda>c. cand_source c = Bulk_import) cs" "length cs \<le> default_broad_import_candidate_limit"
      "read_spool_file (w_formats w) f = Some cs"
  | m where "verify_spool_manifest (w_sha256 w) f = Inr m" "validate_batch_receipt m cs = None" "io_batches o'"
      "receipt = mf_receipt m" "read_spool_file (w_formats w) f = Some cs"
proof -
  obtain m where m: "(if io_verify o' then map_sum id Some (verify_spool_manifest (w_sha256 w) f) else Inr None) = Inr m"
      and cs0: "read_spool_file (w_formats w) f \<noteq> None"
      and run: "(case read_spool_file (w_formats w) f of
                  None \<Rightarrow> File_skipped
                | Some cs \<Rightarrow>
                    if requires_batch_receipt cs default_broad_import_candidate_limit m then admit_broad w o' f m cs
                    else File_admitted cs (Option.bind m mf_receipt)) = File_admitted cs receipt"
    using assms by (auto simp: admit_file_def split: sum.splits if_splits option.splits)
  obtain ds where ds: "read_spool_file (w_formats w) f = Some ds" using cs0 by auto
  show thesis
  proof (cases "requires_batch_receipt ds default_broad_import_candidate_limit m")
    case True
    then have broad: "admit_broad w o' f m ds = File_admitted cs receipt" using run ds by simp
    then obtain x where x: "(case m of Some x \<Rightarrow> Inr x | None \<Rightarrow> verify_spool_manifest (w_sha256 w) f) = Inr x"
        "validate_batch_receipt x ds = None" "io_batches o'" "cs = ds" "receipt = mf_receipt x"
      by (auto simp: admit_broad_def split: sum.splits option.splits if_splits)
    have "verify_spool_manifest (w_sha256 w) f = Inr x"
      using x(1) m by (cases "verify_spool_manifest (w_sha256 w) f") (auto split: option.splits if_splits)
    then show thesis using that(2) x ds by blast
  next
    case False
    then show thesis using that(1) run ds by (simp add: requires_batch_receipt_def)
  qed
qed

lemma verified_manifest:
  assumes "verify_spool_manifest H f = Inr m" "mf_status m = Verified"
  shows "\<exists>raw v e t. sf_manifest f = Some raw \<and> json_parse raw = Some v \<and> jget v ''spoolFileSha256'' = Some (JStr e)
    \<and> sf_content f = Some t \<and> H t = e"
proof -
  obtain raw v where raw: "sf_manifest f = Some raw" "json_parse raw = Some v"
    using assms by (auto simp: verify_spool_manifest_def split: option.splits if_splits)
  obtain e where e: "Option.bind (jget v ''spoolFileSha256'') read_string = Some e"
    using assms raw by (auto simp: verify_spool_manifest_def split: option.splits if_splits)
  then have "jget v ''spoolFileSha256'' = Some (JStr e)" by (auto split: Option.bind_splits elim: read_string.elims)
  moreover obtain t where "sf_content f = Some t" "H t = e"
    using assms raw e by (auto simp: verify_spool_manifest_def split: option.splits if_splits)
  ultimately show ?thesis using raw by blast
qed

text \<open>A receipt whose checks pass.\<close>

definition receipt_covers :: "batch_receipt \<Rightarrow> string list \<Rightarrow> memory_candidate list \<Rightarrow> bool" where
  "receipt_covers r ids cs \<longleftrightarrow>
     br_count r = int (length cs) \<and> br_count r \<le> br_max r \<and> distinct ids \<and> length ids = length cs
     \<and> (\<forall>c \<in> set cs. cand_id c \<in> set ids \<and> cand_tenant c = br_tenant r
          \<and> JStr (source_name (cand_source c)) = br_source r \<and> JStr (trust_name (cand_trust c)) = br_trust r)"

lemma validated:
  "validate_batch_receipt m cs = None \<Longrightarrow>
     \<exists>r ids. mf_receipt m = Some r \<and> mf_status m = Verified \<and> mf_candidate_ids m = Some ids \<and> receipt_covers r ids cs"
  unfolding validate_batch_receipt_def
  by (auto simp: receipt_covers_def first_receipt_fault_None receipt_fault_of_def list_ex_iff card_distinct
      distinct_card length_remdups_card_conv split: option.splits if_splits)

lemma admitted_wf:
  "admit_file w o' f = File_admitted cs receipt \<Longrightarrow> list_all (candidate_wf (w_formats w)) cs"
  by (rule read_file_wf, cases rule: admit_cases) auto

text \<open>
  C13. A broad import needs a receipt. A file whose candidates enter the inbox holds at most a hundred of
  them and none from a bulk digestion, or its manifest verifies: the digest it pins is the digest of the
  text, its receipt counts the candidates and stays under its own ceiling, its identifiers are distinct and
  include the identifier of every candidate, and every candidate has the receipt's tenant, source and
  trust. Every candidate is a parsed one, so a bulk digestion never claims more than low trust.
\<close>

theorem broad_import_needs_receipt:
  assumes "admit_file w o' f = File_admitted cs receipt"
  shows "list_all (candidate_wf (w_formats w)) cs
    \<and> (\<forall>c \<in> set cs. cand_source c = Bulk_import \<longrightarrow> cand_trust c = Trust_low \<or> cand_trust c = Untrusted)
    \<and> (receipt = None \<longrightarrow> length cs \<le> 100 \<and> (\<forall>c \<in> set cs. cand_source c \<noteq> Bulk_import))
    \<and> (\<forall>r. receipt = Some r \<longrightarrow>
        io_batches o' \<and> (\<exists>ids. receipt_covers r ids cs)
        \<and> (\<exists>raw v t. sf_manifest f = Some raw \<and> json_parse raw = Some v \<and> sf_content f = Some t
             \<and> jget v ''spoolFileSha256'' = Some (JStr (w_sha256 w t))))"
proof -
  have read: "read_spool_file (w_formats w) f = Some cs" using assms by (cases rule: admit_cases) auto
  have wf: "list_all (candidate_wf (w_formats w)) cs" by (rule read_file_wf [OF read])
  then have low: "\<forall>c \<in> set cs. cand_source c = Bulk_import \<longrightarrow> cand_trust c = Trust_low \<or> cand_trust c = Untrusted"
    using schema_candidate_parts(3) by (fastforce simp: list_all_iff candidate_wf_def candidate_refinement_def)
  from assms show ?thesis
  proof (cases rule: admit_cases)
    case Plain
    then show ?thesis using wf low by (auto simp: default_broad_import_candidate_limit_def list_ex_iff)
  next
    case (Broad m)
    obtain r ids where "mf_receipt m = Some r" "mf_status m = Verified" "receipt_covers r ids cs"
      using validated [OF Broad(2)] by blast
    then show ?thesis using wf low Broad verified_manifest [OF Broad(1)] by auto
  qed
qed

section \<open>The candidates of one file\<close>

text \<open>A candidate the insert refuses for good: its text is refused by the scan, or was redacted.\<close>

definition blocked :: "world \<Rightarrow> audit_table \<Rightarrow> memory_candidate \<Rightarrow> bool" where
  "blocked w audits c \<longleftrightarrow>
     assert_disclosure_clean (w_scan w) c \<noteq> Inr () \<or> is_redacted_content (w_sha256 w) audits (cand_content c) (cand_tenant c)"

definition row_in_batch :: "world \<Rightarrow> string option \<Rightarrow> memory_candidate \<Rightarrow> candidate_row" where
  "row_in_batch w b c = candidate_to_row c (w_sha256 w (cand_content c)) b"

lemma refused_category:
  assumes "candidate_wf (w_formats w) c" "blocked w audits c"
  shows "\<exists>e k. candidate_insert (w_scan w) (w_sha256 w) audits h b c t = Inl e \<and> disclosure_category e = Some k"
  using assms
  by (auto simp: insert_eq blocked_def assert_disclosure_clean_def disclosure_category_def split: option.splits)

lemma ingest_candidates_effect:
  assumes "candidates_ok (w_formats w) t" "list_all (candidate_wf (w_formats w)) cs"
    "ingest_candidates w audits b cs t = (n, t')"
  shows "ct_fault n = None \<and> t' = t @ map (row_in_batch w b) (ct_created n) \<and> candidates_ok (w_formats w) t'
    \<and> length cs = length (ct_created n) + length (ct_rejected n) + ct_skipped n
    \<and> (\<forall>c \<in> set (ct_created n). c \<in> set cs \<and> \<not> blocked w audits c \<and> candidate_view (w_formats w) t (cand_id c) = None)
    \<and> (\<forall>i. candidate_view (w_formats w) t i \<noteq> None \<longrightarrow> candidate_view (w_formats w) t' i = candidate_view (w_formats w) t i)
    \<and> (\<forall>c \<in> set cs. candidate_view (w_formats w) t' (cand_id c) \<noteq> None \<or> blocked w audits c)"
  using assms
proof (induction cs arbitrary: t n t')
  case Nil
  then show ?case by (auto simp: no_tally_def)
next
  case (Cons c cs)
  let ?view = "candidate_view (w_formats w)"
  have wf: "candidate_wf (w_formats w) c" and rest: "list_all (candidate_wf (w_formats w)) cs" using Cons.prems(2) by auto
  note look = find_candidate_ok [OF Cons.prems(1), of "cand_id c"]
  show ?case
  proof (cases "?view t (cand_id c)")
    case (Some x)
    obtain m where m: "ingest_candidates w audits b cs t = (m, t')" "n = m\<lparr>ct_skipped := Suc (ct_skipped m)\<rparr>"
      using Cons.prems(3) Some look by (auto split: prod.splits)
    note ih = Cons.IH [OF Cons.prems(1) rest m(1)]
    have "?view t' (cand_id c) = Some x" using ih Some by auto
    then show ?thesis unfolding m(2) using ih by auto
  next
    case None
    show ?thesis
    proof (cases "blocked w audits c")
      case True
      obtain e k where e: "candidate_insert (w_scan w) (w_sha256 w) audits (w_sha256 w (cand_content c)) b c t = Inl e"
          "disclosure_category e = Some k"
        using refused_category [OF wf True] by blast
      obtain m where m: "ingest_candidates w audits b cs t = (m, t')" "n = m\<lparr>ct_rejected := (cand_id c, k) # ct_rejected m\<rparr>"
        using Cons.prems(3) None look e by (auto split: prod.splits)
      show ?thesis unfolding m(2) using Cons.IH [OF Cons.prems(1) rest m(1)] True by auto
    next
      case False
      let ?t = "t @ [row_in_batch w b c]"
      have new: "cand_id c \<notin> set (map kr_id t)" using None view_taken [OF Cons.prems(1), of "cand_id c"] by simp
      have ins: "candidate_insert (w_scan w) (w_sha256 w) audits (w_sha256 w (cand_content c)) b c t = Inr ?t"
        using False new by (simp add: insert_eq [OF wf] blocked_def row_in_batch_def)
      have app: "candidates_ok (w_formats w) ?t" "?view ?t = (?view t)(cand_id c \<mapsto> c)"
        using candidates_ok_snoc [OF Cons.prems(1) wf new] by (simp_all add: row_in_batch_def)
      obtain m where m: "ingest_candidates w audits b cs ?t = (m, t')" "n = m\<lparr>ct_created := c # ct_created m\<rparr>"
        using Cons.prems(3) None look ins by (auto split: prod.splits)
      note ih = Cons.IH [OF app(1) rest m(1)]
      have kept: "\<forall>i. ?view ?t i \<noteq> None \<longrightarrow> ?view t' i = ?view ?t i" using ih by blast
      have "?view t' (cand_id c) \<noteq> None" using kept app(2) by simp
      moreover have "\<forall>i. ?view t i \<noteq> None \<longrightarrow> ?view t' i = ?view t i"
      proof (intro allI impI)
        fix i assume i: "?view t i \<noteq> None"
        then have "i \<noteq> cand_id c" using None by auto
        then have "?view ?t i = ?view t i" using app(2) by simp
        then show "?view t' i = ?view t i" using kept i by metis
      qed
      moreover have "?view t (cand_id x) = None" if "x \<in> set (ct_created m)" for x
        using ih that app(2) by (auto split: if_splits)
      ultimately show ?thesis using ih None False unfolding m(2) by auto
    qed
  qed
qed

lemma ingest_candidates_settled:
  assumes "candidates_ok (w_formats w) t" "list_all (candidate_wf (w_formats w)) cs"
    "\<forall>c \<in> set cs. candidate_view (w_formats w) t (cand_id c) \<noteq> None \<or> blocked w audits c"
  shows "\<exists>n. ingest_candidates w audits b cs t = (n, t) \<and> ct_created n = [] \<and> ct_fault n = None"
proof -
  obtain n t' where run: "ingest_candidates w audits b cs t = (n, t')" by (cases "ingest_candidates w audits b cs t")
  note e = ingest_candidates_effect [OF assms(1,2) run]
  have "ct_created n = []" using e assms(3) by (cases "ct_created n") auto
  then show ?thesis using e run by simp
qed

section \<open>Sweeps\<close>

text \<open>A file that a sweep of this database leaves without effect.\<close>

definition settled :: "world \<Rightarrow> ingest_options \<Rightarrow> intake_db \<Rightarrow> spool_file \<Rightarrow> bool" where
  "settled w o' d f \<longleftrightarrow>
     (\<forall>cs receipt. admit_file w o' f = File_admitted cs receipt \<longrightarrow>
        (\<forall>c \<in> set cs. candidate_view (w_formats w) (st_candidates (id_store d)) (cand_id c) \<noteq> None
            \<or> blocked w (st_audits (id_store d)) c)
        \<and> (\<forall>r. receipt = Some r \<longrightarrow> find_batch (br_batch r) (id_batches d) \<noteq> None))"

definition grows :: "world \<Rightarrow> intake_db \<Rightarrow> intake_db \<Rightarrow> bool" where
  "grows w d d' \<longleftrightarrow>
     candidates_ok (w_formats w) (st_candidates (id_store d'))
     \<and> (\<exists>t. id_store d' = (id_store d)\<lparr>st_candidates := t\<rparr>)
     \<and> (\<forall>i. candidate_view (w_formats w) (st_candidates (id_store d)) i \<noteq> None \<longrightarrow>
          candidate_view (w_formats w) (st_candidates (id_store d')) i = candidate_view (w_formats w) (st_candidates (id_store d)) i)
     \<and> (\<forall>i. find_batch i (id_batches d) \<noteq> None \<longrightarrow> find_batch i (id_batches d') \<noteq> None)"

definition newly_stored :: "world \<Rightarrow> intake_db \<Rightarrow> intake_db \<Rightarrow> memory_candidate list \<Rightarrow> bool" where
  "newly_stored w d d' new \<longleftrightarrow>
     (\<forall>c \<in> set new. cand w (id_store d) (cand_id c) = None \<and> cand w (id_store d') (cand_id c) = Some c)"

lemma newly_stored_append:
  "newly_stored w d1 d2 new \<Longrightarrow> newly_stored w d2 d3 new2 \<Longrightarrow> grows w d1 d2 \<Longrightarrow> grows w d2 d3 \<Longrightarrow>
     newly_stored w d1 d3 (new @ new2)"
  unfolding newly_stored_def grows_def by (metis Un_iff option.distinct(1) set_append)

lemma grows_refl: "candidates_ok (w_formats w) (st_candidates (id_store d)) \<Longrightarrow> grows w d d"
  by (auto simp: grows_def intro: exI [of _ "st_candidates (id_store d)"])

lemma grows_trans: "grows w d1 d2 \<Longrightarrow> grows w d2 d3 \<Longrightarrow> grows w d1 d3"
  unfolding grows_def by (elim conjE exE, intro conjI) auto

lemma settled_mono:
  assumes "settled w o' d f" "grows w d d'"
  shows "settled w o' d' f"
proof -
  have "st_audits (id_store d') = st_audits (id_store d)" using assms(2) by (auto simp: grows_def)
  then show ?thesis using assms unfolding settled_def grows_def by metis
qed

lemma open_batch_cases:
  "\<exists>existed b'. open_batch receipt path now b = Inr (existed, b')
     \<and> (\<forall>i. find_batch i b \<noteq> None \<longrightarrow> find_batch i b' \<noteq> None) \<and> (\<forall>r. receipt = Some r \<longrightarrow> find_batch (br_batch r) b' \<noteq> None)"
proof (cases receipt)
  case (Some r)
  show ?thesis
  proof (cases "find_batch (br_batch r) b")
    case None
    then have "find_batch (ib_id (new_batch r path now)) b = None" by (simp add: new_batch_def)
    from batch_insert_fresh [OF this] show ?thesis
      using Some None by (auto simp: open_batch_def find_batch_snoc new_batch_def split: option.splits)
  qed (use Some in \<open>auto simp: open_batch_def\<close>)
qed (auto simp: open_batch_def)

lemma close_batch_keeps: "find_batch i b \<noteq> None \<Longrightarrow> find_batch i (close_batch receipt existed n b) \<noteq> None"
  by (auto simp: close_batch_def split: option.split)

lemma ingest_admitted_effect:
  assumes ok: "candidates_ok (w_formats w) (st_candidates (id_store d))" and wf: "list_all (candidate_wf (w_formats w)) cs"
    and run: "ingest_admitted w o' path now cs receipt res d = ((e, res'), d')"
  shows "e = None \<and> grows w d d'
    \<and> (\<forall>c \<in> set cs. candidate_view (w_formats w) (st_candidates (id_store d')) (cand_id c) \<noteq> None \<or> blocked w (st_audits (id_store d)) c)
    \<and> (\<exists>new. ir_ingested res' = ir_ingested res @ new \<and> newly_stored w d d' new)
    \<and> (\<forall>r. receipt = Some r \<longrightarrow> find_batch (br_batch r) (id_batches d') \<noteq> None)"
proof -
  obtain existed b where b: "open_batch receipt path now (id_batches d) = Inr (existed, b)"
      "\<forall>i. find_batch i (id_batches d) \<noteq> None \<longrightarrow> find_batch i b \<noteq> None" "\<forall>r. receipt = Some r \<longrightarrow> find_batch (br_batch r) b \<noteq> None"
    using open_batch_cases [of receipt path now "id_batches d"] by (elim exE conjE)
  obtain n t where n: "ingest_candidates w (st_audits (id_store d)) (map_option br_batch receipt) cs (st_candidates (id_store d)) = (n, t)"
    by (cases "ingest_candidates w (st_audits (id_store d)) (map_option br_batch receipt) cs (st_candidates (id_store d))")
  note eff = ingest_candidates_effect [OF ok wf n]
  have fine: "ct_fault n = None" using eff by blast
  have "\<exists>z. ir_ingested z = ir_ingested res @ ct_created n \<and> ingest_admitted w o' path now cs receipt res d
      = ((None, z), \<lparr>id_store = (id_store d)\<lparr>st_candidates := t\<rparr>, id_batches = close_batch receipt existed n b\<rparr>)"
    by (simp add: ingest_admitted_def b(1) n fine Let_def)
  then have d': "e = None" "d' = \<lparr>id_store = (id_store d)\<lparr>st_candidates := t\<rparr>, id_batches = close_batch receipt existed n b\<rparr>"
      and ing: "ir_ingested res' = ir_ingested res @ ct_created n"
    using run by auto
  have "candidate_view (w_formats w) t (cand_id c) = Some c" if c: "c \<in> set (ct_created n)" for c
  proof (rule view_candidate)
    show "candidates_ok (w_formats w) t" using eff by blast
    have "t = st_candidates (id_store d) @ map (row_in_batch w (map_option br_batch receipt)) (ct_created n)" using eff by blast
    then show "row_in_batch w (map_option br_batch receipt) c \<in> set t" using c by simp
    show "candidate_wf (w_formats w) c" using eff wf c by (auto simp: list_all_iff)
  qed (simp add: row_in_batch_def)
  then have "newly_stored w d d' (ct_created n)" using eff unfolding newly_stored_def d'(2) by simp
  then have stored: "\<exists>new. ir_ingested res' = ir_ingested res @ new \<and> newly_stored w d d' new" using ing by blast
  have parts: "st_candidates (id_store d') = t" "id_batches d' = close_batch receipt existed n b" by (simp_all add: d'(2))
  have "\<exists>t. id_store d' = (id_store d)\<lparr>st_candidates := t\<rparr>" unfolding d'(2) by auto
  moreover note e = conjunct2 [OF conjunct2 [OF eff]]
  moreover have "find_batch i (close_batch receipt existed n b) \<noteq> None" if "find_batch i (id_batches d) \<noteq> None" for i
    using b(2) that close_batch_keeps by simp
  ultimately have "grows w d d'" unfolding grows_def parts by simp
  moreover have "find_batch (br_batch r) (close_batch receipt existed n b) \<noteq> None" if "receipt = Some r" for r
    using b(3) that close_batch_keeps by simp
  ultimately show ?thesis using d'(1) e stored unfolding parts by simp
qed

lemma ingest_file_effect:
  assumes ok: "candidates_ok (w_formats w) (st_candidates (id_store d))" and run: "ingest_file w o' now f res d = ((e, res'), d')"
  shows "e = None \<and> grows w d d' \<and> settled w o' d' f
    \<and> (\<exists>new. ir_ingested res' = ir_ingested res @ new \<and> newly_stored w d d' new)"
proof (cases "admit_file w o' f")
  case (File_admitted cs receipt)
  have wf: "list_all (candidate_wf (w_formats w)) cs" using admitted_wf [OF File_admitted] .
  have r: "ingest_admitted w o' (sf_path f) now cs receipt res d = ((e, res'), d')" using run File_admitted by (simp add: ingest_file_def)
  note eff = ingest_admitted_effect [OF ok wf r]
  then have "st_audits (id_store d') = st_audits (id_store d)" by (auto simp: grows_def)
  then show ?thesis using eff File_admitted by (auto simp: settled_def)
qed (use run ok in \<open>auto simp: ingest_file_def settled_def newly_stored_def intro: grows_refl\<close>)

lemma ingest_files_effect:
  assumes "candidates_ok (w_formats w) (st_candidates (id_store d))" "ingest_files w o' clock fs res d = ((e, res'), d')"
  shows "e = None \<and> grows w d d' \<and> (\<forall>f \<in> set fs. settled w o' d' f)
    \<and> (\<exists>new. ir_ingested res' = ir_ingested res @ new \<and> newly_stored w d d' new)"
  using assms
proof (induction fs arbitrary: res d)
  case (Cons f fs)
  obtain e1 res1 d1 where one: "ingest_file w o' (clock (sf_path f)) f res d = ((e1, res1), d1)"
    by (metis surj_pair)
  note eff = ingest_file_effect [OF Cons.prems(1) one]
  then have rest: "ingest_files w o' clock fs res1 d1 = ((e, res'), d')" using Cons.prems(2) one by simp
  have "candidates_ok (w_formats w) (st_candidates (id_store d1))" using eff by (simp add: grows_def)
  note ih = Cons.IH [OF this rest]
  obtain new new2 where "ir_ingested res1 = ir_ingested res @ new" "newly_stored w d d1 new"
      "ir_ingested res' = ir_ingested res1 @ new2" "newly_stored w d1 d' new2"
    using eff ih by blast
  then have "ir_ingested res' = ir_ingested res @ (new @ new2)" "newly_stored w d d' (new @ new2)"
    using newly_stored_append eff ih by auto
  moreover have "settled w o' d' x" if "x \<in> set (f # fs)" for x using that eff ih settled_mono by auto
  moreover have "grows w d d'" using eff ih grows_trans by blast
  ultimately show ?case using ih by blast
qed (auto simp: newly_stored_def intro: grows_refl)

lemma settled_file_idle:
  assumes ok: "candidates_ok (w_formats w) (st_candidates (id_store d))" and st: "settled w o' d f"
  shows "\<exists>res'. ingest_file w o' now f res d = ((None, res'), d) \<and> ir_ingested res' = ir_ingested res"
proof (cases "admit_file w o' f")
  case (File_admitted cs receipt)
  have wf: "list_all (candidate_wf (w_formats w)) cs" using admitted_wf [OF File_admitted] .
  have "\<forall>c \<in> set cs. candidate_view (w_formats w) (st_candidates (id_store d)) (cand_id c) \<noteq> None \<or> blocked w (st_audits (id_store d)) c"
    using st File_admitted by (simp add: settled_def)
  from ingest_candidates_settled [OF ok wf this, of "map_option br_batch receipt"]
  obtain n where n: "ingest_candidates w (st_audits (id_store d)) (map_option br_batch receipt) cs (st_candidates (id_store d))
      = (n, st_candidates (id_store d))" "ct_created n = []" "ct_fault n = None" by blast
  have "\<exists>ex. open_batch receipt (sf_path f) now (id_batches d) = Inr (ex, id_batches d) \<and> (receipt \<noteq> None \<longrightarrow> ex)"
    using st File_admitted by (cases receipt) (auto simp: settled_def open_batch_def)
  then obtain ex where ex: "open_batch receipt (sf_path f) now (id_batches d) = Inr (ex, id_batches d)" "receipt \<noteq> None \<longrightarrow> ex" by blast
  have "close_batch receipt ex n (id_batches d) = id_batches d" using ex(2) by (auto simp: close_batch_def split: option.split)
  then show ?thesis using n ex(1) by (simp add: ingest_file_def File_admitted ingest_admitted_def Let_def)
qed (simp_all add: ingest_file_def)

lemma settled_files_idle:
  assumes "candidates_ok (w_formats w) (st_candidates (id_store d))" "\<forall>f \<in> set fs. settled w o' d f"
  shows "\<exists>res'. ingest_files w o' clock fs res d = ((None, res'), d) \<and> ir_ingested res' = ir_ingested res"
  using assms(2)
proof (induction fs arbitrary: res)
  case (Cons f fs)
  obtain res1 where one: "ingest_file w o' (clock (sf_path f)) f res d = ((None, res1), d)" "ir_ingested res1 = ir_ingested res"
    using settled_file_idle [OF assms(1), of o' f] Cons.prems by (metis list.set_intros(1))
  then show ?case using Cons.IH [of res1] Cons.prems by simp
qed simp

lemma grows_steps: "grows w d d' \<Longrightarrow> gov_steps w limits (id_store d) (id_store d')"
proof -
  assume g: "grows w d d'"
  then obtain t where t: "id_store d' = (id_store d)\<lparr>st_candidates := t\<rparr>" by (auto simp: grows_def)
  have view: "cand w (id_store d) i \<noteq> None \<Longrightarrow> candidate_view (w_formats w) t i = cand w (id_store d) i" for i
    using g t by (simp add: grows_def)
  have "no_new_holds w (id_store d) t" unfolding no_new_holds_def
  proof (intro conjI allI impI)
    show "candidate_view (w_formats w) t i \<noteq> None" if "cand w (id_store d) i \<noteq> None" for i using view [OF that] that by simp
    show "cand w (id_store d) i = None \<or> (\<exists>c0. cand w (id_store d) i = Some c0 \<and> cand_status c0 = Quarantined \<and> cand_tenant c0 = cand_tenant c)"
      if "candidate_view (w_formats w) t i = Some c" "cand_status c = Quarantined" for i c
      using view [of i] that by (cases "cand w (id_store d) i") auto
  qed
  moreover have "candidates_ok (w_formats w) t" using g t by (simp add: grows_def)
  ultimately have "gov_step w limits (id_store d) (id_store d')" unfolding t by (intro gs_candidates)
  then show ?thesis by (rule gs_one)
qed

lemma sweep_runs:
  assumes "candidates_ok (w_formats w) (st_candidates (id_store d))"
  obtains res d' where "ingest_from_spool_detailed w o' clock (Some fs) d = (Inr res, d')" "grows w d d'"
    "\<forall>f \<in> set fs. settled w o' d' f" "newly_stored w d d' (ir_ingested res)"
proof -
  obtain e res d' where run: "ingest_files w o' clock fs no_result d = ((e, res), d')" by (metis surj_pair)
  note eff = ingest_files_effect [OF assms run]
  then have "ingest_from_spool_detailed w o' clock (Some fs) d = (Inr res, d')"
    using run by (simp add: ingest_from_spool_detailed_def)
  moreover have "newly_stored w d d' (ir_ingested res)" using eff by (auto simp: no_result_def)
  ultimately show thesis using that eff by blast
qed

text \<open>
  C14. A sweep always finishes, and a second one does nothing. Over well-formed tables no file can make
  the sweep throw, whatever its manifest and its lines hold; what it reports as ingested was not in the
  inbox and is now, as read; no row of the inbox changes. A second sweep over the same files, at any
  time, ingests nothing and leaves both tables as they are.
\<close>

theorem spool_sweep_is_idempotent:
  assumes "candidates_ok (w_formats w) (st_candidates (id_store d))"
    "ingest_from_spool_detailed w o' clock (Some fs) d = (r, d')"
  shows "\<exists>res. r = Inr res \<and> newly_stored w d d' (ir_ingested res)
    \<and> (\<forall>i. cand w (id_store d) i \<noteq> None \<longrightarrow> cand w (id_store d') i = cand w (id_store d) i)
    \<and> st_memories (id_store d') = st_memories (id_store d) \<and> st_audits (id_store d') = st_audits (id_store d)
    \<and> (\<forall>later. \<exists>again. ingest_from_spool_detailed w o' later (Some fs) d' = (Inr again, d') \<and> ir_ingested again = [])"
proof -
  obtain res d1 where run: "ingest_from_spool_detailed w o' clock (Some fs) d = (Inr res, d1)" "grows w d d1"
      "\<forall>f \<in> set fs. settled w o' d1 f" "newly_stored w d d1 (ir_ingested res)"
    by (rule sweep_runs [OF assms(1)])
  then have d': "d1 = d'" "r = Inr res" using assms(2) by auto
  have ok: "candidates_ok (w_formats w) (st_candidates (id_store d'))" using run(2) d'(1) by (simp add: grows_def)
  have "\<exists>again. ingest_from_spool_detailed w o' later (Some fs) d' = (Inr again, d') \<and> ir_ingested again = []" for later
    using settled_files_idle [OF ok, of fs o' later no_result] run(3) d'(1)
    by (auto simp: ingest_from_spool_detailed_def no_result_def)
  then show ?thesis using run(2,4) d' unfolding grows_def by (elim conjE exE) simp
qed

section \<open>The row of a batch\<close>

lemma close_batch_row:
  "find_batch (br_batch r) b = Some x \<Longrightarrow>
     find_batch (br_batch r) (close_batch (Some r) False n b) =
       Some (x\<lparr>ib_files := 1, ib_created := length (ct_created n), ib_rejected := length (ct_rejected n),
               ib_skipped := ct_skipped n, ib_status := Batch_completed, ib_rolled_back_at := None\<rparr>)"
  by (simp add: close_batch_def)

text \<open>
  The row of a batch accounts for every candidate of its file. When a file with a receipt is swept and
  its batch is new, the row is completed, names the tenant of the receipt and counts exactly the
  candidates of the file as created, rejected or skipped; the rows the file adds to the inbox are as many
  as it counts as created, and all carry the batch and its tenant. When the batch is not new, its row is
  left as it was, although the file adds rows under its name.
\<close>

theorem batch_row_accounts_for_its_file:
  assumes ok: "candidates_ok (w_formats w) (st_candidates (id_store d))"
    and adm: "admit_file w o' f = File_admitted cs (Some r)" and run: "ingest_file w o' now f res d = (x, d')"
  shows "\<exists>new. st_candidates (id_store d') = st_candidates (id_store d) @ new
    \<and> (\<forall>row \<in> set new. kr_import_batch_id row = Some (br_batch r) \<and> kr_tenant_id row = br_tenant r)
    \<and> (find_batch (br_batch r) (id_batches d) = None \<longrightarrow>
        (\<exists>b. find_batch (br_batch r) (id_batches d') = Some b \<and> ib_status b = Batch_completed \<and> ib_tenant b = br_tenant r
           \<and> ib_created b = length new \<and> ib_created b + ib_rejected b + ib_skipped b = length cs))
    \<and> (find_batch (br_batch r) (id_batches d) \<noteq> None \<longrightarrow> id_batches d' = id_batches d)"
proof -
  obtain n t where n: "ingest_candidates w (st_audits (id_store d)) (Some (br_batch r)) cs (st_candidates (id_store d)) = (n, t)"
    by (cases "ingest_candidates w (st_audits (id_store d)) (Some (br_batch r)) cs (st_candidates (id_store d))")
  note eff = ingest_candidates_effect [OF ok admitted_wf [OF adm] n]
  have fine: "ct_fault n = None" and t: "t = st_candidates (id_store d) @ map (row_in_batch w (Some (br_batch r))) (ct_created n)"
      and count: "length cs = length (ct_created n) + length (ct_rejected n) + ct_skipped n"
      and made: "\<forall>c \<in> set (ct_created n). c \<in> set cs"
    using eff by blast+
  have tenant: "cand_tenant c = br_tenant r" if "c \<in> set cs" for c
    using adm that
  proof (cases rule: admit_cases)
    case (Broad m)
    then show ?thesis using validated [OF Broad(2)] that by (auto simp: receipt_covers_def)
  qed simp
  let ?new = "map (row_in_batch w (Some (br_batch r))) (ct_created n)"
  have rows: "\<forall>row \<in> set ?new. kr_import_batch_id row = Some (br_batch r) \<and> kr_tenant_id row = br_tenant r"
    using made tenant by (auto simp: row_in_batch_def candidate_to_row_def)
  show ?thesis
  proof (cases "find_batch (br_batch r) (id_batches d)")
    case None
    let ?b = "new_batch r (sf_path f) now"
    have "find_batch (ib_id ?b) (id_batches d) = None" using None by (simp add: new_batch_def)
    from batch_insert_fresh [OF this]
    have op: "open_batch (Some r) (sf_path f) now (id_batches d) = Inr (False, id_batches d @ [?b])"
      using None by (simp add: open_batch_def new_batch_def)
    have d': "st_candidates (id_store d') = t" "id_batches d' = close_batch (Some r) False n (id_batches d @ [?b])"
      using run by (auto simp: ingest_file_def adm ingest_admitted_def op n fine Let_def)
    have "find_batch (br_batch r) (id_batches d @ [?b]) = Some ?b" using None by (simp add: find_batch_snoc new_batch_def)
    from close_batch_row [OF this, of n] show ?thesis
      using None d' t rows count by (intro exI [of _ ?new]) (simp add: new_batch_def)
  next
    case (Some b)
    have op: "open_batch (Some r) (sf_path f) now (id_batches d) = Inr (True, id_batches d)"
      using Some by (simp add: open_batch_def)
    have d': "st_candidates (id_store d') = t" "id_batches d' = id_batches d"
      using run by (auto simp: ingest_file_def adm ingest_admitted_def op n fine Let_def close_batch_def)
    then show ?thesis using Some t rows by (intro exI [of _ ?new]) simp
  qed
qed

text \<open>
  The identifiers of a manifest are not pinned one to one: two lines with one identifier pass for a
  manifest that names another one besides, and the second line is then skipped as already there.
\<close>

lemma pinned_id_may_be_missing:
  "\<exists>m cs. validate_batch_receipt m cs = None \<and> mf_candidate_ids m = Some [''a'', ''b''] \<and> ''b'' \<notin> set (map cand_id cs)"
proof -
  let ?c = "(plain_candidate ''a'' ''text'')\<lparr>cand_source := Bulk_import, cand_trust := Trust_low\<rparr>"
  let ?r = "\<lparr>br_batch = ''b1'', br_tenant = ''team'', br_scope = JStr ''all'', br_source = JStr ''bulk_import'',
       br_trust = JStr ''low'', br_count = 2, br_max = 9\<rparr>"
  let ?m = "\<lparr>mf_status = Verified, mf_expected = None, mf_actual = None, mf_candidate_ids = Some [''a'', ''b''], mf_receipt = Some ?r\<rparr>"
  have "validate_batch_receipt ?m [?c, ?c] = None"
    by (simp add: validate_batch_receipt_def receipt_fault_of_def plain_candidate_def)
  moreover have "''b'' \<notin> set (map cand_id [?c, ?c])" by (simp add: plain_candidate_def)
  ultimately show ?thesis by (intro exI [of _ ?m] exI [of _ "[?c, ?c]"]) simp
qed

section \<open>A swept file\<close>

definition bulk_candidate :: memory_candidate where
  "bulk_candidate = (plain_candidate ''c1'' ''a text'')\<lparr>cand_source := Bulk_import, cand_trust := Trust_low\<rparr>"

definition bulk_receipt :: batch_receipt where
  "bulk_receipt = \<lparr>br_batch = ''b1'', br_tenant = ''team'', br_scope = JStr ''all'', br_source = JStr ''bulk_import'',
     br_trust = JStr ''low'', br_count = 1, br_max = 10\<rparr>"

definition bulk_manifest :: jval where
  "bulk_manifest = JObj [(''spoolFileSha256'', JStr (spool_text [bulk_candidate])), (''candidateIds'', JArr [JStr ''c1'']),
     (''batchReceipt'', JObj [(''batchId'', JStr ''b1''), (''tenantId'', JStr ''team''), (''scope'', JStr ''all''),
        (''source'', JStr ''bulk_import''), (''trustLevel'', JStr ''low''), (''candidateCount'', JNum 1), (''maxCandidates'', JNum 10)])]"

definition bulk_file :: spool_file where
  "bulk_file = \<lparr>sf_path = ''spool-a.jsonl'', sf_content = Some (spool_text [bulk_candidate]),
     sf_manifest = Some (json_stringify bulk_manifest)\<rparr>"

definition plain_ingest_options :: ingest_options where
  "plain_ingest_options = \<lparr>io_verify = True, io_quarantine = (\<lambda>_. None), io_batches = True, io_archive = True\<rparr>"

lemma bulk_wf: "candidate_wf any_format bulk_candidate"
proof -
  have ne: "non_empty_string ''a text'' = Some ''a text''" by code_simp
  from plain_candidate_wf [OF ne, of "''c1''"] show ?thesis
    by (auto simp: candidate_wf_def bulk_candidate_def schema_candidate_def candidate_refinement_def plain_candidate_def
        split: Option.bind_splits if_splits)
qed

lemma bulk_admitted: "admit_file plain_world plain_ingest_options bulk_file = File_admitted [bulk_candidate] (Some bulk_receipt)"
proof -
  have parsed: "json_parse (json_stringify bulk_manifest) = Some bulk_manifest"
    by (rule json_parse_stringify) (simp add: bulk_manifest_def)
  have receipt: "optional_member parse_batch_receipt bulk_manifest ''batchReceipt'' = Some (Some bulk_receipt)"
    by (simp add: optional_member_def bulk_manifest_def parse_batch_receipt_def member_of_def one_of_def safe_integer_def bulk_receipt_def)
  have members: "jget bulk_manifest ''spoolFileSha256'' = Some (JStr (spool_text [bulk_candidate]))"
      "jget bulk_manifest ''candidateIds'' = Some (JArr [JStr ''c1''])" "bulk_manifest \<noteq> JNull"
    by (simp_all add: bulk_manifest_def)
  have filled: "spool_text [bulk_candidate] \<noteq> []" by (simp add: spool_text_def spool_line_def)
  have v: "verify_spool_manifest (\<lambda>t. t) bulk_file =
      Inr \<lparr>mf_status = Verified, mf_expected = Some (spool_text [bulk_candidate]), mf_actual = Some (spool_text [bulk_candidate]),
           mf_candidate_ids = Some [''c1''], mf_receipt = Some bulk_receipt\<rparr>"
    using filled by (simp add: verify_spool_manifest_def bulk_file_def parsed receipt members)
  have read: "read_spool_file any_format bulk_file = Some [bulk_candidate]"
    using written_candidates_read [of any_format "[bulk_candidate]"] bulk_wf by (simp add: read_spool_file_def bulk_file_def)
  show ?thesis
    by (simp add: admit_file_def plain_ingest_options_def v read requires_batch_receipt_def admit_broad_def validate_batch_receipt_def
        receipt_fault_of_def) (simp add: bulk_receipt_def bulk_candidate_def plain_candidate_def)
qed

theorem broad_import_needs_receipt_witness:
  "receipt_covers bulk_receipt [''c1''] [bulk_candidate] \<and> cand_trust bulk_candidate = Trust_low
   \<and> (\<exists>ids. receipt_covers bulk_receipt ids [bulk_candidate])"
  using broad_import_needs_receipt [OF bulk_admitted]
  by (simp add: receipt_covers_def) (simp add: bulk_receipt_def bulk_candidate_def plain_candidate_def)

theorem batch_row_accounts_for_its_file_witness:
  "\<exists>d'. ingest_file plain_world plain_ingest_options ''t1'' bulk_file no_result \<lparr>id_store = empty_state, id_batches = []\<rparr> = d'
     \<and> (\<exists>b. find_batch ''b1'' (id_batches (snd d')) = Some b \<and> ib_status b = Batch_completed
          \<and> ib_created b + ib_rejected b + ib_skipped b = 1)"
proof -
  let ?d = "\<lparr>id_store = empty_state, id_batches = []\<rparr>"
  obtain x d' where run: "ingest_file plain_world plain_ingest_options ''t1'' bulk_file no_result ?d = (x, d')" by (metis surj_pair)
  have ok: "candidates_ok (w_formats plain_world) (st_candidates (id_store ?d))" by (simp add: candidates_ok_def empty_state_def)
  have "br_batch bulk_receipt = ''b1''" by (simp add: bulk_receipt_def)
  then show ?thesis using batch_row_accounts_for_its_file [OF ok bulk_admitted run] run by (auto simp: find_batch_def)
qed

theorem spool_sweep_is_idempotent_witness:
  "\<exists>res d'. ingest_from_spool_detailed plain_world plain_ingest_options (\<lambda>_. ''t1'') (Some [bulk_file])
      \<lparr>id_store = empty_state, id_batches = []\<rparr> = (Inr res, d')
     \<and> (\<exists>again. ingest_from_spool_detailed plain_world plain_ingest_options (\<lambda>_. ''t2'') (Some [bulk_file]) d' = (Inr again, d')
          \<and> ir_ingested again = [])"
proof -
  let ?d = "\<lparr>id_store = empty_state, id_batches = []\<rparr>"
  obtain r d' where run: "ingest_from_spool_detailed plain_world plain_ingest_options (\<lambda>_. ''t1'') (Some [bulk_file]) ?d = (r, d')"
    by (metis surj_pair)
  have ok: "candidates_ok (w_formats plain_world) (st_candidates (id_store ?d))" by (simp add: candidates_ok_def empty_state_def)
  from spool_sweep_is_idempotent [OF ok run] show ?thesis using run by auto
qed

end
