(* ===== verification/Promotion_Service.thy ===== *)
theory Promotion_Service
  imports Resolve_Hold
begin

text \<open>
  The promotion service of the API, \<open>apps/api/src/services/promotion-service.ts\<close>: one candidate through
  the governance path on an administrator's word, and the rejection by a reviewer. The promotion is no
  transaction of its own: the receipt of an excluded import and a placed hold stay although the call
  throws, so a call is a pair of its answer and the state it leaves. The connection, the audit sink
  and the repositories are the one store.
\<close>

section \<open>Configuration and refusals\<close>

record promotion_options =
  po_secret :: "string option"
  po_exclusions :: "brainignore_pattern list option"
  po_hold_limits :: "hold_limits option"
  po_with_links :: bool

datatype promotion_refusal =
    P_not_found
  | P_other_tenant
  | P_disclosure
  | P_origin "string option"
  | P_import "string option"
  | P_already_promoted uuid
  | P_redacted
  | P_rejected "string option"
  | P_held string "hold_trigger list"
  | P_hold_cap nat rat "hold_trigger list"
  | P_needs_review "not_holdable_reason option" "hold_trigger list"
  | P_flagged "string list"
  | P_fault fault

text \<open>The HTTP status and the stable code of the \<open>ApiError\<close>; a fault that is no \<open>ApiError\<close> is rethrown.\<close>

fun promotion_status :: "promotion_refusal \<Rightarrow> nat option" where
  "promotion_status P_not_found = Some 404"
| "promotion_status P_other_tenant = Some 400"
| "promotion_status (P_fault e) = None"
| "promotion_status x = Some 422"

fun promotion_code :: "promotion_refusal \<Rightarrow> string option" where
  "promotion_code (P_origin c) = c"
| "promotion_code (P_import c) = c"
| "promotion_code P_redacted = Some ''redacted_content''"
| "promotion_code (P_held ex ts) = Some ''held_for_review''"
| "promotion_code (P_hold_cap n mx ts) = Some ''hold_cap_reached''"
| "promotion_code (P_needs_review r ts) = Some ''needs_human_review''"
| "promotion_code x = None"

section \<open>Promoting a candidate\<close>

definition tenant_policy :: "tenant_id \<Rightarrow> store_state \<Rightarrow> governance_policy option" where
  "tenant_policy tn s = find policy_enabled (filter (\<lambda>p. policy_tenant p = tn) (st_policies s))"

text \<open>The evaluation context is built from the memories of the tenant, loaded once.\<close>

definition promotion_context :: "tenant_id \<Rightarrow> curated_memory list \<Rightarrow> sensitivity option \<Rightarrow> evaluation_context" where
  "promotion_context tn ms minimum =
     \<lparr>ctx_minimum_sensitivity = minimum, ctx_existing_hashes = Some (map mem_content_hash ms), ctx_tenant_id = Some tn,
      ctx_active_memories = Some (\<lambda>cat.
        map (\<lambda>m. \<lparr>am_id = mem_id m, am_content = mem_content m\<rparr>)
          (filter (\<lambda>m. mem_lifecycle m = Active \<and> mem_category m = cat) ms))\<rparr>"

definition promotion_result ::
  "world \<Rightarrow> memory_candidate \<Rightarrow> tenant_id \<Rightarrow> curated_memory list \<Rightarrow> sensitivity option \<Rightarrow> store_state \<Rightarrow> pipeline_result" where
  "promotion_result w c tn ms minimum s =
     (case tenant_policy tn s of
        None \<Rightarrow> no_policy_result c
      | Some p \<Rightarrow> evaluate (w_env w) p c (promotion_context tn ms minimum))"

text \<open>The receipt of an excluded import: the shape of the curator's rejection under the reviewer's name.\<close>

definition import_refusal_event :: "world \<Rightarrow> memory_candidate \<Rightarrow> tenant_id \<Rightarrow> author option \<Rightarrow> gate_verdict \<Rightarrow> uuid \<Rightarrow> iso_datetime \<Rightarrow> audit_event" where
  "import_refusal_event w c tn who v fresh now =
     \<lparr>ev_id = fresh, ev_action = A_deleted, ev_memory_id = cand_id c, ev_tenant_id = tn,
      ev_actor = (case who of None \<Rightarrow> curator_actor | Some a \<Rightarrow> a),
      ev_reason = Some (''Rejected by rule: '' @ (case gv_rejected_by v of None \<Rightarrow> ''undefined'' | Some r \<Rightarrow> r)),
      ev_details =
        [(''candidateId'', JStr (cand_id c)), (''outcome'', JStr (pipeline_outcome_name (gv_outcome v))),
         (''evaluations'', JArr (map (gate_evaluation_json w) (gv_evaluations v)))],
      ev_timestamp = now\<rparr>"

type_synonym promotion_answer = "(promotion_refusal + curated_memory) \<times> store_state"

definition hold_refusal :: "hold_decision \<Rightarrow> place_result \<Rightarrow> promotion_refusal" where
  "hold_refusal d placed =
     (case placed of
        Held h \<Rightarrow> P_held (ah_expires_at h) (hd_triggers d)
      | Already_held h \<Rightarrow> P_held (ah_expires_at h) (hd_triggers d)
      | Cap_reached n mx \<Rightarrow> P_hold_cap n mx (hd_triggers d)
      | Not_holdable r \<Rightarrow> P_needs_review (Some r) (hd_triggers d)
      | Would_hold ex \<Rightarrow> P_needs_review None (hd_triggers d))"

definition admin_promotion ::
  "memory_candidate \<Rightarrow> string \<Rightarrow> pipeline_result \<Rightarrow> sensitivity option \<Rightarrow> supersession_match list \<Rightarrow> author option \<Rightarrow>
    string option \<Rightarrow> promotion_input" where
  "admin_promotion c h res minimum chosen who why =
     \<lparr>pi_candidate = c, pi_content_hash = h, pi_minimum = minimum, pi_verdict = gate_verdict_of res,
      pi_supersession = None, pi_supersessions = chosen, pi_promoted_by = who, pi_reason = why, pi_resolved_flags = None\<rparr>"

text \<open>The promotion itself and the retirement of the candidate, two writes one after the other.\<close>

definition admin_promote ::
  "world \<Rightarrow> promotion_options \<Rightarrow> memory_candidate \<Rightarrow> string \<Rightarrow> pipeline_result \<Rightarrow> sensitivity option \<Rightarrow> author option \<Rightarrow>
    string option \<Rightarrow> tenant_id \<Rightarrow> iso_datetime \<Rightarrow> store_state \<Rightarrow> promotion_answer" where
  "admin_promote w o' c h res minimum who why tn now s =
     (case and_then (find_by_tenant_and_lifecycle (w_formats w) (cand_tenant c) Active (st_memories s)) (\<lambda>actives.
             promote w (admin_promotion c h res minimum
                 (sp_matches (plan_supersession c (\<lambda>_ _. actives) (Some default_supersession_threshold) None)) who why)
               False (po_with_links o') None now s) of
        Inl e \<Rightarrow> (Inl (P_fault e), s)
      | Inr (m, s') \<Rightarrow> (Inr m, set_status (cand_id c) Promoted tn s'))"

text \<open>From the outcome of the policy on.\<close>

definition decide_promotion ::
  "world \<Rightarrow> promotion_options \<Rightarrow> memory_candidate \<Rightarrow> string \<Rightarrow> pipeline_result \<Rightarrow> sensitivity option \<Rightarrow> author option \<Rightarrow>
    string option \<Rightarrow> tenant_id \<Rightarrow> iso_datetime \<Rightarrow> store_state \<Rightarrow> promotion_answer" where
  "decide_promotion w o' c h res minimum who why tn now s =
     (if pr_outcome res = Rejected_outcome then (Inl (P_rejected (pr_rejected_by res)), s)
      else
        (case evaluate_hold_triggers (w_env w) c res (tenant_policy tn s) of
           Some d \<Rightarrow>
             (case place_hold w c d (po_hold_limits o') False who now s of
                Inl e \<Rightarrow> (Inl (P_fault e), s)
              | Inr (placed, s') \<Rightarrow> (Inl (hold_refusal d placed), s'))
         | None \<Rightarrow>
             if pr_outcome res = Flagged_outcome then (Inl (P_flagged (flags_of res)), s)
             else admin_promote w o' c h res minimum who why tn now s))"

text \<open>The duplicate check, the redaction check and the policy.\<close>

definition review_promotion ::
  "world \<Rightarrow> promotion_options \<Rightarrow> memory_candidate \<Rightarrow> author option \<Rightarrow> string option \<Rightarrow> tenant_id \<Rightarrow> iso_datetime \<Rightarrow> store_state \<Rightarrow>
    promotion_answer" where
  "review_promotion w o' c who why tn now s =
     (let h = compute_content_hash (w_env w) (cand_content c)
      in case find_memories_by_tenant (w_formats w) tn (st_memories s) of
           Inl e \<Rightarrow> (Inl (P_fault e), s)
         | Inr ms \<Rightarrow>
             (case find (\<lambda>m. mem_content_hash m = h) ms of
                Some m \<Rightarrow> (Inl (P_already_promoted (mem_id m)), s)
              | None \<Rightarrow>
                  if find_redaction_by_old_content_hash h tn (st_audits s) \<noteq> None then (Inl P_redacted, s)
                  else (case resolve_minimum_sensitivity w c s of
                          Inl e \<Rightarrow> (Inl (P_fault e), s)
                        | Inr minimum \<Rightarrow>
                            decide_promotion w o' c h (promotion_result w c tn ms minimum s) minimum who why tn now s)))"

definition gate_promotion ::
  "world \<Rightarrow> promotion_options \<Rightarrow> memory_candidate \<Rightarrow> author option \<Rightarrow> string option \<Rightarrow> tenant_id \<Rightarrow> uuid \<Rightarrow> iso_datetime \<Rightarrow>
    store_state \<Rightarrow> promotion_answer" where
  "gate_promotion w o' c who why tn fresh now s =
     (case assert_disclosure_clean (w_scan w) c of
        Inl (Disclosure_rejected _) \<Rightarrow> (Inl P_disclosure, s)
      | Inl e \<Rightarrow> (Inl (P_fault e), s)
      | Inr _ \<Rightarrow>
          (case check_origin_attestation w c (po_secret o') of
             Origin_rejected v \<Rightarrow> (Inl (P_origin (gv_rejected_by v)), s)
           | _ \<Rightarrow>
               (case check_import_exclusion c (po_exclusions o') of
                  Import_rejected v \<Rightarrow>
                    (case write_event w (import_refusal_event w c tn who v fresh now) s of
                       Inl e \<Rightarrow> (Inl (P_fault e), s)
                     | Inr s' \<Rightarrow> (Inl (P_import (gv_rejected_by v)), s'))
                | _ \<Rightarrow> review_promotion w o' c who why tn now s)))"

text \<open>\<open>promoteCandidate\<close>; \<open>fresh\<close> is \<open>randomUUID()\<close>, \<open>now\<close> the clock of the call.\<close>

definition promote_candidate ::
  "world \<Rightarrow> promotion_options \<Rightarrow> string \<Rightarrow> tenant_id \<Rightarrow> author option \<Rightarrow> string option \<Rightarrow> uuid \<Rightarrow> iso_datetime \<Rightarrow>
    store_state \<Rightarrow> promotion_answer" where
  "promote_candidate w o' i tn who why fresh now s =
     (case find_candidate (w_formats w) i (st_candidates s) of
        Inl e \<Rightarrow> (Inl (P_fault e), s)
      | Inr None \<Rightarrow> (Inl P_not_found, s)
      | Inr (Some c) \<Rightarrow>
          if cand_tenant c \<noteq> tn then (Inl P_other_tenant, s)
          else gate_promotion w o' c who why tn fresh now s)"

section \<open>Rejecting a candidate\<close>

datatype reject_refusal =
    J_not_found
  | J_other_tenant
  | J_on_hold
  | J_not_pending
  | J_fault fault

fun reject_status :: "reject_refusal \<Rightarrow> nat option" where
  "reject_status J_not_found = Some 404"
| "reject_status J_other_tenant = Some 400"
| "reject_status J_on_hold = Some 422"
| "reject_status J_not_pending = Some 422"
| "reject_status (J_fault e) = None"

definition reviewer_event :: "string \<Rightarrow> tenant_id \<Rightarrow> author \<Rightarrow> string \<Rightarrow> uuid \<Rightarrow> iso_datetime \<Rightarrow> audit_event" where
  "reviewer_event i tn who why fresh now =
     \<lparr>ev_id = fresh, ev_action = A_deleted, ev_memory_id = i, ev_tenant_id = tn, ev_actor = who, ev_reason = Some why,
      ev_details = [(''candidateId'', JStr i), (''disposition'', JStr ''rejected'')], ev_timestamp = now\<rparr>"

definition lift_reject :: "fault + 'a \<Rightarrow> reject_refusal + 'a" where
  "lift_reject r = (case r of Inl e \<Rightarrow> Inl (J_fault e) | Inr x \<Rightarrow> Inr x)"

text \<open>\<open>rejectCandidate\<close>, one transaction: a refusal leaves no state.\<close>

definition reject_candidate ::
  "world \<Rightarrow> string \<Rightarrow> tenant_id \<Rightarrow> author \<Rightarrow> string \<Rightarrow> uuid \<Rightarrow> iso_datetime \<Rightarrow> store_state \<Rightarrow> reject_refusal + store_state" where
  "reject_candidate w i tn who why fresh now s =
     and_then (lift_reject (find_candidate (w_formats w) i (st_candidates s))) (\<lambda>found.
       case found of
         None \<Rightarrow> Inl J_not_found
       | Some c \<Rightarrow>
           if cand_tenant c \<noteq> tn then Inl J_other_tenant
           else and_then (lift_reject (find_active_hold w i tn now s)) (\<lambda>hold.
             if hold \<noteq> None then Inl J_on_hold
             else if (cand_status c \<noteq> Inbox \<and> cand_status c \<noteq> Quarantined) \<or> exists_for_candidate i tn (st_memories s)
             then Inl J_not_pending
             else and_then (lift_reject (parse_event w (reviewer_event (cand_id c) tn who why fresh now))) (\<lambda>receipt.
               if fst (update_status i Rejected tn (st_candidates s)) \<noteq> 1 then Inl (J_fault (Not_persisted ''status''))
               else and_then (lift_reject (insert_event w receipt (set_status i Rejected tn s))) (\<lambda>s'.
                 and_then (lift_reject (memory_events w i tn s')) (\<lambda>persisted.
                   if ev_id receipt \<in> set (map ev_id persisted) then Inr s'
                   else Inl (J_fault (Not_persisted ''receipt'')))))))"

end
