(* ===== verification/Promotion_Laws.thy ===== *)
theory Promotion_Laws
  imports Promotion_Service
begin

text \<open>
  What an administrator's promotion guarantees: it goes through the gates of the batch curator and ends in
  the same promotion, and a reviewer's rejection never touches what a person holds.
\<close>

section \<open>Reading the memories of a tenant\<close>

lemma map_result_rows:
  "\<forall>m \<in> set ms. memory_wf fmt m \<Longrightarrow> \<forall>m \<in> set ms. P (memory_to_row m) \<longleftrightarrow> Q m \<Longrightarrow>
     map_result (read_memory fmt) (filter P (map memory_to_row ms)) = Inr (filter Q ms)"
  by (induction ms) (simp_all add: read_stored)

lemma memories_where_stored:
  "rows_hold fmt ms t \<Longrightarrow> \<forall>m \<in> set ms. P (memory_to_row m) \<longleftrightarrow> Q m \<Longrightarrow> memories_where fmt P t = Inr (filter Q ms)"
  unfolding rows_hold_def memories_where_def by (auto intro: map_result_rows)

text \<open>The reads of the curator and of the service, over the memories the table holds.\<close>

lemma tenant_reads:
  assumes "rows_hold fmt ms t"
  shows "find_memories_by_tenant fmt tn t = Inr (filter (\<lambda>m. mem_tenant m = tn) ms)"
    "find_by_tenant_and_lifecycle fmt tn l t = Inr (filter (\<lambda>m. mem_tenant m = tn \<and> mem_lifecycle m = l) ms)"
    "find_by_tenant_and_lifecycle_and_category fmt tn l k t
       = Inr (filter (\<lambda>m. mem_tenant m = tn \<and> mem_lifecycle m = l \<and> mem_category m = k) ms)"
    "get_content_hashes_by_tenant tn t = map mem_content_hash (filter (\<lambda>m. mem_tenant m = tn) ms)"
proof -
  show "find_memories_by_tenant fmt tn t = Inr (filter (\<lambda>m. mem_tenant m = tn) ms)"
    unfolding find_memories_by_tenant_def by (rule memories_where_stored [OF assms]) (simp add: memory_row_cells)
  show "find_by_tenant_and_lifecycle fmt tn l t = Inr (filter (\<lambda>m. mem_tenant m = tn \<and> mem_lifecycle m = l) ms)"
    unfolding find_by_tenant_and_lifecycle_def
    by (rule memories_where_stored [OF assms]) (simp add: memory_row_cells lifecycle_vocab.name_inj)
  show "find_by_tenant_and_lifecycle_and_category fmt tn l k t
       = Inr (filter (\<lambda>m. mem_tenant m = tn \<and> mem_lifecycle m = l \<and> mem_category m = k) ms)"
    unfolding find_by_tenant_and_lifecycle_and_category_def
    by (rule memories_where_stored [OF assms]) (simp add: memory_row_cells lifecycle_vocab.name_inj category_vocab.name_inj)
  show "get_content_hashes_by_tenant tn t = map mem_content_hash (filter (\<lambda>m. mem_tenant m = tn) ms)"
    using assms by (simp add: rows_hold_def get_content_hashes_by_tenant_def filter_map comp_def memory_row_cells)
qed

section \<open>The policy sees the same\<close>

text \<open>Only the contradiction rules read the active memories, and only those of the candidate's category.\<close>

lemma rules_cong: "(\<And>r. r \<in> set (contradiction_rules p @ standard_rules p) \<Longrightarrow> f r = g r) \<Longrightarrow> evaluate_rules f i p = evaluate_rules g i p"
proof -
  assume same: "\<And>r. r \<in> set (contradiction_rules p @ standard_rules p) \<Longrightarrow> f r = g r"
  have one: "run_phase1 f rs (e, fl) = run_phase1 g rs (e, fl)" if "\<And>r. r \<in> set rs \<Longrightarrow> f r = g r" for rs e fl
    using that by (induction rs arbitrary: e fl) (simp_all add: Let_def)
  have two': "run_phase2 f rs (e, fl) = run_phase2 g rs (e, fl)" if "\<And>r. r \<in> set rs \<Longrightarrow> f r = g r" for rs e fl
    using that by (induction rs arbitrary: e fl) (simp_all add: Let_def)
  have two: "run_phase2 f rs acc = run_phase2 g rs acc" if "\<And>r. r \<in> set rs \<Longrightarrow> f r = g r" for rs acc
    using two' that by (cases acc) simp
  have "run_phase1 f (contradiction_rules p) ([], []) = run_phase1 g (contradiction_rules p) ([], [])"
    by (rule one) (use same in simp)
  moreover have "run_phase2 f (standard_rules p) acc = run_phase2 g (standard_rules p) acc" for acc
    by (rule two) (use same in simp)
  ultimately show ?thesis by (simp add: evaluate_rules_def)
qed

lemma other_rules_ignore_actives:
  "ty \<noteq> Contradiction_check \<Longrightarrow> create_rule env ty c r (ctx\<lparr>ctx_active_memories := a\<rparr>) = create_rule env ty c r ctx"
  by (cases ty) (simp_all add: evaluator_defs cong: option.case_cong)

lemma evaluate_actives_cong:
  assumes "contradiction_rules p = [] \<or> f (cand_category c) = g (cand_category c)"
  shows "evaluate env p c (ctx\<lparr>ctx_active_memories := Some f\<rparr>) = evaluate env p c (ctx\<lparr>ctx_active_memories := Some g\<rparr>)"
  unfolding evaluate_def
proof (rule rules_cong)
  fix r assume r: "r \<in> set (contradiction_rules p @ standard_rules p)"
  show "create_rule env (rule_type r) c r (ctx\<lparr>ctx_active_memories := Some f\<rparr>)
      = create_rule env (rule_type r) c r (ctx\<lparr>ctx_active_memories := Some g\<rparr>)"
  proof (cases "rule_type r = Contradiction_check")
    case True
    then have "r \<in> set (contradiction_rules p)" using r by (auto simp: standard_rules_def)
    then have "contradiction_rules p \<noteq> []" by (cases "contradiction_rules p") simp_all
    then have "f (cand_category c) = g (cand_category c)" using assms by simp
    then show ?thesis by (simp add: True evaluate_contradiction_check_def)
  qed (simp add: other_rules_ignore_actives)
qed

text \<open>The settings under which the batch curator stands for the service.\<close>

definition batch_config :: "promotion_options \<Rightarrow> tenant_id \<Rightarrow> curator_config" where
  "batch_config o' tn =
     \<lparr>cf_tenant = tn, cf_dry_run = False, cf_threshold = None, cf_report_only = False, cf_max_per_promotion = None,
      cf_max_per_run = None, cf_suppress_rejections = False, cf_origin_secret = po_secret o',
      cf_exclusions = po_exclusions o', cf_hold_limits = po_hold_limits o', cf_with_links = po_with_links o'\<rparr>"

definition batch_tick :: "uuid \<Rightarrow> iso_datetime \<Rightarrow> tick" where
  "batch_tick fresh now = \<lparr>tk_fresh = fresh, tk_wall = now, tk_injected = None\<rparr>"

lemma batch_config_simps [simp]:
  "cf_tenant (batch_config o' tn) = tn" "\<not> cf_dry_run (batch_config o' tn)" "cf_threshold (batch_config o' tn) = None"
  "\<not> cf_report_only (batch_config o' tn)" "cf_max_per_promotion (batch_config o' tn) = None"
  "cf_max_per_run (batch_config o' tn) = None" "\<not> cf_suppress_rejections (batch_config o' tn)"
  "cf_origin_secret (batch_config o' tn) = po_secret o'" "cf_exclusions (batch_config o' tn) = po_exclusions o'"
  "cf_hold_limits (batch_config o' tn) = po_hold_limits o'" "cf_with_links (batch_config o' tn) = po_with_links o'"
  "tk_wall (batch_tick fresh now) = now" "tk_fresh (batch_tick fresh now) = fresh" "hold_now (batch_tick fresh now) = now"
  by (simp_all add: batch_config_def batch_tick_def hold_now_def)

lemma tenant_policy_batch: "policy_of (batch_config o' tn) s = tenant_policy tn s"
  by (simp add: policy_of_def tenant_policy_def)

lemma same_policy_result:
  assumes ok: "state_ok w s" and ms: "find_memories_by_tenant (w_formats w) tn (st_memories s) = Inr ms"
  shows "policy_result w (batch_config o' tn) c None minimum s = Inr (promotion_result w c tn ms minimum s)"
proof (cases "tenant_policy tn s")
  case None
  then show ?thesis by (simp add: policy_result_def tenant_policy_batch promotion_result_def)
next
  case (Some p)
  let ?all = "contents (w_formats w) (st_memories s)"
  have held: "rows_hold (w_formats w) ?all (st_memories s)" by (rule table_ok_stored [OF state_ok_parts(2) [OF ok]])
  have ms': "ms = filter (\<lambda>m. mem_tenant m = tn) ?all" using ms tenant_reads(1) [OF held] by simp
  define lookup where "lookup cat = map (\<lambda>m. \<lparr>am_id = mem_id m, am_content = mem_content m\<rparr>)
          (filter (\<lambda>m. mem_lifecycle m = Active \<and> mem_category m = cat) ms)" for cat
  define rest where "rest = \<lparr>ctx_minimum_sensitivity = minimum, ctx_existing_hashes = Some (map mem_content_hash ms),
      ctx_tenant_id = Some tn, ctx_active_memories = None\<rparr>"
  define actives where "actives = (if contradiction_rules p = [] then [] else lookup (cand_category c))"
  have act: "active_lookup w (batch_config o' tn) c p s = Inr actives"
    by (simp add: active_lookup_def tenant_reads(3) [OF held] lookup_def ms' actives_def conj_commute conj_left_commute)
  have same: "contradiction_rules p = [] \<or> actives = lookup (cand_category c)" by (simp add: actives_def)
  have "evaluate (w_env w) p c (rest\<lparr>ctx_active_memories := Some (\<lambda>_. actives)\<rparr>)
      = evaluate (w_env w) p c (rest\<lparr>ctx_active_memories := Some lookup\<rparr>)"
    by (rule evaluate_actives_cong) (use same in simp)
  then show ?thesis
    by (simp add: policy_result_def tenant_policy_batch Some evaluate_policy_def act tenant_reads(4) [OF held] ms'
        promotion_result_def promotion_context_def rest_def lookup_def [abs_def])
qed

section \<open>When the service promotes\<close>

text \<open>The structural checks ahead of the policy, the review of the Registrar's own tool aside.\<close>

definition structural_open :: "world \<Rightarrow> promotion_options \<Rightarrow> memory_candidate \<Rightarrow> tenant_id \<Rightarrow> store_state \<Rightarrow> bool" where
  "structural_open w o' c tn s \<longleftrightarrow>
     (\<nexists>v. check_origin_attestation w c (po_secret o') = Origin_rejected v)
     \<and> (\<nexists>v. check_import_exclusion c (po_exclusions o') = Import_rejected v)
     \<and> compute_content_hash (w_env w) (cand_content c) \<notin> set (get_content_hashes_by_tenant tn (st_memories s))
     \<and> find_redaction_by_old_content_hash (compute_content_hash (w_env w) (cand_content c)) tn (st_audits s) = None"

lemma decide_promotion_Inr:
  "decide_promotion w o' c h res minimum who why tn now s = (Inr m, s') \<longleftrightarrow>
     pr_outcome res = Approved \<and> evaluate_hold_triggers (w_env w) c res (tenant_policy tn s) = None
     \<and> admin_promote w o' c h res minimum who why tn now s = (Inr m, s')"
  by (cases "pr_outcome res") (auto simp: decide_promotion_def split: option.split sum.splits prod.splits)

lemma gate_promotion_Inr:
  assumes "assert_disclosure_clean (w_scan w) c = Inr u"
  shows "gate_promotion w o' c who why tn fresh now s = (Inr m, s') \<longleftrightarrow>
     (\<nexists>v. check_origin_attestation w c (po_secret o') = Origin_rejected v)
     \<and> (\<nexists>v. check_import_exclusion c (po_exclusions o') = Import_rejected v)
     \<and> review_promotion w o' c who why tn now s = (Inr m, s')"
  using assms by (simp add: gate_promotion_def split: origin_verdict.split import_verdict.split sum.split)

lemma review_promotion_Inr:
  assumes ok: "state_ok w s"
  shows "review_promotion w o' c who why tn now s = (Inr m, s') \<longleftrightarrow>
     compute_content_hash (w_env w) (cand_content c) \<notin> set (get_content_hashes_by_tenant tn (st_memories s))
     \<and> find_redaction_by_old_content_hash (compute_content_hash (w_env w) (cand_content c)) tn (st_audits s) = None
     \<and> (\<exists>ms minimum. find_memories_by_tenant (w_formats w) tn (st_memories s) = Inr ms
          \<and> resolve_minimum_sensitivity w c s = Inr minimum
          \<and> decide_promotion w o' c (compute_content_hash (w_env w) (cand_content c))
              (promotion_result w c tn ms minimum s) minimum who why tn now s = (Inr m, s'))"
proof -
  let ?h = "compute_content_hash (w_env w) (cand_content c)"
  have held: "rows_hold (w_formats w) (contents (w_formats w) (st_memories s)) (st_memories s)"
    by (rule table_ok_stored [OF state_ok_parts(2) [OF ok]])
  define ms where "ms = filter (\<lambda>m. mem_tenant m = tn) (contents (w_formats w) (st_memories s))"
  have read: "find_memories_by_tenant (w_formats w) tn (st_memories s) = Inr ms"
    "get_content_hashes_by_tenant tn (st_memories s) = map mem_content_hash ms"
    using tenant_reads [OF held] by (simp_all add: ms_def)
  show ?thesis
  proof (cases "find (\<lambda>m. mem_content_hash m = ?h) ms")
    case None
    then have "?h \<notin> set (map mem_content_hash ms)" by (auto simp: find_None_iff)
    then show ?thesis by (simp add: review_promotion_def Let_def read None split: sum.split)
  next
    case (Some d)
    then have "?h \<in> set (map mem_content_hash ms)" by (force dest: find_Some_in)
    then show ?thesis by (simp add: review_promotion_def Let_def read Some)
  qed
qed

lemma promote_candidate_Inr:
  assumes ok: "state_ok w s"
  shows "promote_candidate w o' i tn who why fresh now s = (Inr m, s') \<longleftrightarrow>
     (\<exists>c ms minimum u. cand w s i = Some c \<and> cand_tenant c = tn \<and> assert_disclosure_clean (w_scan w) c = Inr u
        \<and> structural_open w o' c tn s \<and> find_memories_by_tenant (w_formats w) tn (st_memories s) = Inr ms
        \<and> resolve_minimum_sensitivity w c s = Inr minimum
        \<and> decide_promotion w o' c (compute_content_hash (w_env w) (cand_content c))
            (promotion_result w c tn ms minimum s) minimum who why tn now s = (Inr m, s'))"
proof -
  have gate: "gate_promotion w o' c who why tn fresh now s = (Inr m, s') \<longleftrightarrow>
      (\<exists>u. assert_disclosure_clean (w_scan w) c = Inr u) \<and> gate_promotion w o' c who why tn fresh now s = (Inr m, s')" for c
    by (auto simp: gate_promotion_def split: sum.splits fault.splits)
  have find: "find_candidate (w_formats w) i (st_candidates s) = Inr (cand w s i)"
    by (rule find_candidate_ok [OF state_ok_parts(1) [OF ok]])
  show ?thesis
  proof (cases "cand w s i")
    case None
    then show ?thesis by (simp add: promote_candidate_def find)
  next
    case (Some c)
    have "promote_candidate w o' i tn who why fresh now s = (Inr m, s') \<longleftrightarrow>
        cand_tenant c = tn \<and> gate_promotion w o' c who why tn fresh now s = (Inr m, s')"
      by (simp add: promote_candidate_def find Some)
    also have "\<dots> \<longleftrightarrow> cand_tenant c = tn \<and> (\<exists>u. assert_disclosure_clean (w_scan w) c = Inr u
        \<and> gate_promotion w o' c who why tn fresh now s = (Inr m, s'))"
      using gate by blast
    also have "\<dots> \<longleftrightarrow> cand_tenant c = tn \<and> (\<exists>u. assert_disclosure_clean (w_scan w) c = Inr u \<and> structural_open w o' c tn s
        \<and> (\<exists>ms minimum. find_memories_by_tenant (w_formats w) tn (st_memories s) = Inr ms
            \<and> resolve_minimum_sensitivity w c s = Inr minimum
            \<and> decide_promotion w o' c (compute_content_hash (w_env w) (cand_content c))
                (promotion_result w c tn ms minimum s) minimum who why tn now s = (Inr m, s')))"
      using gate_promotion_Inr review_promotion_Inr [OF ok] by (auto simp: structural_open_def)
    finally show ?thesis using Some by auto
  qed
qed

section \<open>The promotion of an administrator\<close>

lemma admin_promote_Inr:
  "admin_promote w o' c h res minimum who why tn now s = (Inr m, s') \<longleftrightarrow>
     (\<exists>actives s1. find_by_tenant_and_lifecycle (w_formats w) (cand_tenant c) Active (st_memories s) = Inr actives
        \<and> promote w (admin_promotion c h res minimum
             (sp_matches (plan_supersession c (\<lambda>_ _. actives) (Some default_supersession_threshold) None)) who why)
             False (po_with_links o') None now s = Inr (m, s1)
        \<and> s' = set_status (cand_id c) Promoted tn s1)"
  unfolding admin_promote_def by (auto simp: and_then_def split: sum.splits prod.splits)

lemma admin_promotion_simps [simp]:
  "pi_candidate (admin_promotion c h res minimum chosen who why) = c"
  "pi_content_hash (admin_promotion c h res minimum chosen who why) = h"
  "pi_minimum (admin_promotion c h res minimum chosen who why) = minimum"
  "pi_promoted_by (admin_promotion c h res minimum chosen who why) = who"
  by (simp_all add: admin_promotion_def)

lemma receipt_actor: "receipt_of w e x \<Longrightarrow> schema_author (ev_actor e) = Some (ev_actor x)"
  by (auto simp: receipt_of_def schema_event_def as_read_def split: Option.bind_splits if_splits)

text \<open>What one promotion leaves behind, over the state it started from.\<close>

lemma admin_promote_effect:
  assumes ok: "state_ok w s" and c: "cand w s i = Some c" "cand_tenant c = tn"
    and run: "admin_promote w o' c h res minimum who why tn now s = (Inr m, s')"
  shows "mem_view w s (mem_id m) = None" "mem_view w s' (mem_id m) = Some m" "mem_lifecycle m = Active"
    "mem_candidate_id m = i" "mem_content_hash m = h"
    "cand w s' i = Some (c\<lparr>cand_status := Promoted\<rparr>)" "state_ok w s'" "gov_steps w limits s s'"
    "\<exists>x \<in> set (events_of w s'). ev_action x = A_promoted \<and> ev_memory_id x = mem_id m
       \<and> schema_author (case who of None \<Rightarrow> curator_actor | Some a \<Rightarrow> a) = Some (ev_actor x)"
    "\<exists>new. events_of w s' = events_of w s @ new \<and> (\<forall>e \<in> set new. ev_action e \<in> {A_superseded, A_promoted, A_eval_result})"
proof -
  obtain chosen s1 where prom: "promote w (admin_promotion c h res minimum chosen who why) False (po_with_links o') None now s = Inr (m, s1)"
    and s': "s' = set_status (cand_id c) Promoted tn s1"
    using run by (auto simp: admin_promote_Inr)
  let ?inp = "admin_promotion c h res minimum chosen who why"
  have id: "cand_id c = i" using cand_wf [OF ok c(1)] by simp
  note p = promoted_fields [OF promote_Inr(1) [OF prom]]
  note t = transaction_effect [OF ok p(1,2) no_evals promote_Inr(4) [OF prom], of limits]
  have ok1: "state_ok w s1" and steps: "gov_steps w limits s s1" and same: "same_inbox s s1"
    and v: "mem_view w s (mem_id m) = None" "mem_view w s1 (mem_id m) = Some m" using t by auto
  obtain rs x es where ev: "events_of w s1 = events_of w s @ rs @ x # es" "receipt_of w (promoted_event w ?inp now) x"
      "list_all2 (\<lambda>k y. receipt_of w (superseded_event w ?inp k now) y) (promoted_supersessions ?inp) rs"
      "\<forall>e \<in> set es. ev_action e = A_eval_result"
    using t by auto
  have "\<forall>r \<in> set rs. ev_action r = A_superseded"
    using ev(3) by (induction rule: list_all2_induct) (auto simp: superseded_event_def dest: receipt_fields)
  moreover have "ev_action x = A_promoted" using receipt_fields [OF ev(2)] by (simp add: promoted_event_def Let_def)
  ultimately have "\<forall>e \<in> set (rs @ x # es). ev_action e \<in> {A_superseded, A_promoted, A_eval_result}" using ev(4) by auto
  moreover have "events_of w s' = events_of w s @ (rs @ x # es)" using ev(1) by (simp add: s')
  ultimately show "\<exists>new. events_of w s' = events_of w s @ new \<and> (\<forall>e \<in> set new. ev_action e \<in> {A_superseded, A_promoted, A_eval_result})"
    by blast
  show "mem_view w s (mem_id m) = None" "mem_view w s' (mem_id m) = Some m" using v by (simp_all add: s')
  show "mem_lifecycle m = Active" "mem_candidate_id m = i" "mem_content_hash m = h" using p id by auto
  have "cand w s1 i = Some c" using same c by (simp add: same_inbox_def)
  then show "cand w s' i = Some (c\<lparr>cand_status := Promoted\<rparr>)" by (simp add: s' set_status_view [OF ok1] id c(2))
  show "state_ok w s'" using set_status_ok [OF ok1] by (simp add: s')
  have "gov_step w limits s1 s'" unfolding s' by (rule gs_status) simp
  then show "gov_steps w limits s s'" by (rule gs_trans [OF steps])
  have "ev_action x = A_promoted \<and> ev_memory_id x = mem_id m
      \<and> schema_author (case who of None \<Rightarrow> curator_actor | Some a \<Rightarrow> a) = Some (ev_actor x)"
    using receipt_fields [OF ev(2)] receipt_actor [OF ev(2)] p(2) by (simp add: promoted_event_def Let_def promoter_of_def)
  then show "\<exists>x \<in> set (events_of w s'). ev_action x = A_promoted \<and> ev_memory_id x = mem_id m
       \<and> schema_author (case who of None \<Rightarrow> curator_actor | Some a \<Rightarrow> a) = Some (ev_actor x)"
    using ev(1) by (intro bexI [of _ x]) (simp_all add: s')
qed

section \<open>A held candidate under no policy\<close>

definition waiting :: memory_candidate where
  "waiting = plain_proposal\<lparr>cand_status := Quarantined\<rparr>"

definition waiting_receipt :: audit_event where
  "waiting_receipt = plain_held\<lparr>ev_id := ''h1''\<rparr>"

definition waiting_state :: store_state where
  "waiting_state = \<lparr>st_candidates = [candidate_to_row waiting plain_text None], st_memories = [],
     st_audits = [audit_append_row (\<lambda>t. t) waiting_receipt []], st_links = [], st_policies = []\<rparr>"

definition plain_promotion_options :: promotion_options where
  "plain_promotion_options = \<lparr>po_secret = None, po_exclusions = None, po_hold_limits = None, po_with_links = False\<rparr>"

lemma waiting_fields [simp]:
  "cand_id waiting = ''c1''" "cand_content waiting = plain_text" "cand_origin waiting = None" "cand_source waiting = Manual"
  "cand_tenant waiting = ''team''" "cand_author waiting = plain_author" "cand_metadata waiting = plain_metadata"
  "cand_status waiting = Quarantined"
  by (simp_all add: waiting_def plain_candidate_simps)

lemma plain_promotion_options_simps [simp]:
  "po_secret plain_promotion_options = None" "po_exclusions plain_promotion_options = None"
  "\<not> po_with_links plain_promotion_options"
  by (simp_all add: plain_promotion_options_def)

lemma waiting_wf: "candidate_wf any_format waiting"
  unfolding waiting_def by (rule wf_status) (simp add: plain_candidate_wf plain_text_ok)

lemma waiting_receipt_storable: "event_storable any_format waiting_receipt \<and> as_read waiting_receipt = waiting_receipt"
  by (rule wf_storable) (simp add: waiting_receipt_def event_wf_def plain_held_def any_format_def plain_author_def non_empty_string_def
      js_trim_def js_space_def Let_def)

lemma waiting_history: "history any_format (st_audits waiting_state) = [waiting_receipt]"
  using written_history(2) [OF empty_audits_ok waiting_receipt_storable [THEN conjunct1]]
  by (simp add: waiting_state_def history_def waiting_receipt_storable)

lemma waiting_state_ok: "state_ok plain_world waiting_state"
proof -
  have "candidates_ok any_format (st_candidates waiting_state)"
    using waiting_wf by (auto simp: candidates_ok_def waiting_state_def)
  moreover have "audits_ok any_format (st_audits waiting_state)"
    using written_history(1) [OF empty_audits_ok waiting_receipt_storable [THEN conjunct1]] by (simp add: waiting_state_def)
  ultimately show ?thesis by (simp add: state_ok_def empty_table_ok waiting_state_def)
qed

lemma waiting_view: "candidate_view any_format (st_candidates waiting_state) ''c1'' = Some waiting"
proof -
  have "kr_id (candidate_to_row waiting plain_text None) = ''c1''" by (simp add: candidate_to_row_def)
  then show ?thesis
    by (simp add: candidate_view_def waiting_state_def row_to_candidate_safe_def candidate_round_trip [OF waiting_wf])
qed

lemma waiting_events: "memory_events plain_world ''c1'' ''team'' waiting_state = Inr [waiting_receipt]"
  using memory_events_ok [OF state_ok_parts(3) [OF waiting_state_ok]]
  by (simp add: waiting_history) (simp add: waiting_receipt_def plain_held_def)

lemma waiting_hold: "find_active_hold plain_world ''c1'' ''team'' now waiting_state = Inr (Some (to_active_hold plain_world waiting waiting_receipt [] now))"
proof -
  have "held_candidate plain_world ''c1'' ''team'' waiting_state = Some waiting"
    by (simp add: held_candidate_iff [OF waiting_state_ok] waiting_view)
  then show ?thesis by (simp add: find_active_hold_def waiting_events) (simp add: waiting_receipt_def plain_held_def)
qed

lemma waiting_floor: "resolve_minimum_sensitivity plain_world waiting waiting_state = Inr None"
  by (simp add: resolve_minimum_sensitivity_def waiting_events) (simp add: floor_of_def waiting_receipt_def plain_held_def)

lemma derived_length: "length (audit_id plain_world i a d) = 36"
proof -
  have "length (w_sha1 plain_world x) = 20" for x by (simp add: plain_world_def)
  then have "uuid5_shape (spool_uuid (w_sha1 plain_world) xs)" for xs by (simp add: spool_uuid_bytes uuid5_of_digest)
  then show ?thesis by (simp add: audit_id_def derive_audit_event_id_def uuid5_shape_def)
qed

text \<open>The approval of the nightly review agent, or of nobody named.\<close>

definition review_agent :: author where
  "review_agent = \<lparr>author_kind = Ai, author_id = ''teamkb-review-agent'', author_name = None\<rparr>"

lemma known_actors: "schema_author review_agent = Some review_agent" "schema_author curator_actor = Some curator_actor"
  by (simp_all add: schema_author_def review_agent_def curator_actor_def non_empty_string_def js_trim_def js_space_def Let_def)

abbreviation agent_approval :: "author option \<Rightarrow> promotion_input" where
  "agent_approval who \<equiv> admin_promotion waiting plain_text (no_policy_result waiting) None [] who None"

lemma agent_approval_simps [simp]:
  "gv_evaluations (pi_verdict (agent_approval who)) = []" "resolved_flags (agent_approval who) = []"
  "promoted_supersessions (agent_approval who) = []"
  "promotion_receipt_reason (agent_approval who) = ''Passed all governance rules''"
proof -
  show "gv_evaluations (pi_verdict (agent_approval who)) = []" "resolved_flags (agent_approval who) = []"
    "promoted_supersessions (agent_approval who) = []"
    by (simp_all add: admin_promotion_def no_policy_result_def gate_verdict_of_def resolved_flags_def promoted_supersessions_def)
  then show "promotion_receipt_reason (agent_approval who) = ''Passed all governance rules''"
    by (simp add: promotion_receipt_reason_def) (simp add: admin_promotion_def, code_simp)
qed

lemma waiting_promotes:
  assumes "who = None \<or> who = Some review_agent"
  shows "\<exists>m s'. promote plain_world (agent_approval who) False False None ''t1'' waiting_state = Inr (m, s')"
proof -
  have who: "schema_author (case who of None \<Rightarrow> curator_actor | Some a \<Rightarrow> a) = Some (case who of None \<Rightarrow> curator_actor | Some a \<Rightarrow> a)"
    using assms known_actors by auto
  have "\<exists>m. parse_memory plain_world (promoted_memory plain_world (agent_approval who) ''t1'') = Inr m"
    using plain_author_schema plain_metadata_check plain_text_ok who
    by (simp add: parse_memory_def schema_memory_def promoted_memory_def promoted_evaluations_def promoter_of_def
        memory_refinement_def schema_optional_def Let_def) (simp add: waiting_def plain_candidate_def plain_text_ok)
  then obtain m where m: "parse_memory plain_world (promoted_memory plain_world (agent_approval who) ''t1'') = Inr m" by blast
  have ins: "memory_insert (w_scan plain_world) m [] = Inr [memory_to_row m]"
    using promoted_fields(1) [OF m] by (simp add: memory_insert_def membership_ok)
  have "\<exists>x. schema_event any_format (promoted_event plain_world (agent_approval who) ''t1'') = Some x"
    using who plain_text_ok(4)
    by (simp add: schema_event_def promoted_event_def promoter_of_def schema_optional_def Let_def)
      (simp add: non_empty_string_def js_trim_def js_space_def Let_def)
  then obtain x where x: "schema_event any_format (promoted_event plain_world (agent_approval who) ''t1'') = Some x" by blast
  have "length (ev_id x) = 36" using schema_event_fields [OF x] derived_length by (simp add: promoted_event_def Let_def)
  then have "ev_id x \<notin> set (map ar_id (st_audits waiting_state))"
    by (auto simp: waiting_state_def audit_append_row_def Let_def waiting_receipt_def)
  then have "\<exists>s'. write_event plain_world (promoted_event plain_world (agent_approval who) ''t1'')
      (waiting_state\<lparr>st_memories := [memory_to_row m]\<rparr>) = Inr s'"
    using x by (simp add: write_event_def parse_event_def insert_event_def audit_insert_def)
  moreover have "st_memories waiting_state = []" by (simp add: waiting_state_def)
  ultimately show ?thesis
    using waiting_floor m ins by (auto simp: promote_def promotion_transaction_def and_then_Inr)
qed

lemma waiting_approved:
  assumes "who = None \<or> who = Some review_agent"
  shows "\<exists>m s'. promote_candidate plain_world plain_promotion_options ''c1'' ''team'' who None ''r1'' ''t1'' waiting_state = (Inr m, s')"
proof -
  obtain m s1 where prom: "promote plain_world (agent_approval who) False False None ''t1'' waiting_state = Inr (m, s1)"
    using waiting_promotes [OF assms] by blast
  have empty: "st_memories waiting_state = []" "st_policies waiting_state = []" by (simp_all add: waiting_state_def)
  have pol: "tenant_policy ''team'' waiting_state = None" by (simp add: tenant_policy_def empty)
  have hash: "compute_content_hash (w_env plain_world) plain_text = plain_text"
    by (simp add: compute_content_hash_def plain_world_def)
  have hold: "evaluate_hold_triggers (w_env plain_world) waiting (no_policy_result waiting) None = None"
    by (simp add: hold_none_iff no_policy_result_def is_audience_above_proposer_clearance_def plain_metadata_def tenant_visible_to_member)
  have plan: "plan_supersession waiting (\<lambda>_ _. []) (Some default_supersession_threshold) None = \<lparr>sp_matches = [], sp_blocked = None\<rparr>"
    by (simp add: plan_supersession_def plain_metadata_def Let_def)
  have adm: "admin_promote plain_world plain_promotion_options waiting plain_text (no_policy_result waiting) None who None ''team'' ''t1'' waiting_state
      = (Inr m, set_status ''c1'' Promoted ''team'' s1)"
    using prom plan by (simp add: admin_promote_def find_by_tenant_and_lifecycle_def memories_where_def empty)
  have "decide_promotion plain_world plain_promotion_options waiting plain_text (no_policy_result waiting) None who None ''team'' ''t1'' waiting_state
      = (Inr m, set_status ''c1'' Promoted ''team'' s1)"
    using adm hold pol by (simp add: decide_promotion_Inr) (simp add: no_policy_result_def)
  moreover have "structural_open plain_world plain_promotion_options waiting ''team'' waiting_state"
    by (simp add: structural_open_def check_origin_attestation_def check_import_exclusion_def get_content_hashes_by_tenant_def empty
        find_redaction_by_old_content_hash_def) (simp add: waiting_state_def audit_append_row_def Let_def waiting_receipt_def plain_held_def)
  moreover have "assert_disclosure_clean (w_scan plain_world) waiting = Inr ()" by (simp add: disclosure_clean_iff)
  moreover have "find_memories_by_tenant any_format ''team'' (st_memories waiting_state) = Inr []"
    by (simp add: find_memories_by_tenant_def memories_where_def empty)
  ultimately show ?thesis
    using waiting_view waiting_floor pol hash
    by (simp add: promote_candidate_Inr [OF waiting_state_ok] promotion_result_def)
qed

section \<open>The theorems\<close>

text \<open>
  C4. An administrator's word opens no gate. When \<open>promoteCandidate\<close> returns a memory, the candidate exists in the
  tenant that was named and its text carries nothing the disclosure scanner knows; a claimed origin verified and
  an imported file is not excluded; no memory of the tenant has its hash and no redaction of the tenant removed
  it; the policy in force approved it without a flag and no hold trigger fired. The memory stands in the
  database, active, under an identifier that was free; the candidate is retired; and the log has a
  \<open>promoted\<close> receipt under the name of the approver, or of the curator when none was named.
\<close>

theorem approval_opens_no_gate:
  assumes "state_ok w s" "promote_candidate w o' i tn who why fresh now s = (Inr m, s')"
  shows "\<exists>c ms minimum. cand w s i = Some c \<and> cand_tenant c = tn \<and> (\<forall>t \<in> set (candidate_texts c). w_scan w t = None)
    \<and> structural_open w o' c tn s
    \<and> find_memories_by_tenant (w_formats w) tn (st_memories s) = Inr ms \<and> resolve_minimum_sensitivity w c s = Inr minimum
    \<and> pr_outcome (promotion_result w c tn ms minimum s) = Approved
    \<and> evaluate_hold_triggers (w_env w) c (promotion_result w c tn ms minimum s) (tenant_policy tn s) = None
    \<and> mem_view w s (mem_id m) = None \<and> mem_view w s' (mem_id m) = Some m \<and> mem_lifecycle m = Active \<and> mem_candidate_id m = i
    \<and> mem_content_hash m = compute_content_hash (w_env w) (cand_content c)
    \<and> cand w s' i = Some (c\<lparr>cand_status := Promoted\<rparr>) \<and> state_ok w s'
    \<and> (\<exists>x \<in> set (events_of w s'). ev_action x = A_promoted \<and> ev_memory_id x = mem_id m
         \<and> schema_author (case who of None \<Rightarrow> curator_actor | Some a \<Rightarrow> a) = Some (ev_actor x))"
proof -
  obtain c ms minimum u where c: "cand w s i = Some c" "cand_tenant c = tn" and clean: "assert_disclosure_clean (w_scan w) c = Inr u"
    and rest: "structural_open w o' c tn s" "find_memories_by_tenant (w_formats w) tn (st_memories s) = Inr ms"
      "resolve_minimum_sensitivity w c s = Inr minimum"
    and d: "decide_promotion w o' c (compute_content_hash (w_env w) (cand_content c))
            (promotion_result w c tn ms minimum s) minimum who why tn now s = (Inr m, s')"
    using assms(2) unfolding promote_candidate_Inr [OF assms(1)] by blast
  have texts: "\<forall>t \<in> set (candidate_texts c). w_scan w t = None" using clean disclosure_clean_iff [of "w_scan w" c] by simp
  from d have dd: "pr_outcome (promotion_result w c tn ms minimum s) = Approved"
      "evaluate_hold_triggers (w_env w) c (promotion_result w c tn ms minimum s) (tenant_policy tn s) = None"
      "admin_promote w o' c (compute_content_hash (w_env w) (cand_content c)) (promotion_result w c tn ms minimum s) minimum who why tn now s
        = (Inr m, s')"
    by (simp_all add: decide_promotion_Inr)
  note e = admin_promote_effect [OF assms(1) c dd(3)]
  show ?thesis by (intro exI [of _ c] exI [of _ ms] exI [of _ minimum] conjI c texts rest dd(1,2) e(1-7) e(9))
qed

theorem approval_opens_no_gate_witness:
  "\<exists>m s'. promote_candidate plain_world plain_promotion_options ''c1'' ''team'' (Some review_agent) None ''r1'' ''t1'' waiting_state = (Inr m, s')
     \<and> mem_candidate_id m = ''c1'' \<and> state_ok plain_world s'"
proof -
  obtain m s' where run: "promote_candidate plain_world plain_promotion_options ''c1'' ''team'' (Some review_agent) None ''r1'' ''t1'' waiting_state
      = (Inr m, s')" using waiting_approved by blast
  show ?thesis using approval_opens_no_gate [OF waiting_state_ok run] run by blast
qed

text \<open>
  C22. An approval ends a hold without resolving it. The service looks at the triggers and never at the hold: when it
  promotes a candidate that is on hold, because the policy that held it has changed since, the hold is open
  no longer although nobody resolved it, and no \<open>hold_resolved\<close> receipt was written.
\<close>

theorem approval_ends_a_hold_unresolved:
  assumes "state_ok w s" "find_active_hold w i tn now s = Inr (Some h)"
    and "promote_candidate w o' i tn who why fresh now s = (Inr m, s')"
  shows "find_active_hold w i tn now s' = Inr None \<and> mem_candidate_id m = i \<and> mem_view w s' (mem_id m) = Some m
    \<and> (\<exists>new. events_of w s' = events_of w s @ new \<and> (\<forall>e \<in> set new. ev_action e \<noteq> A_hold_resolved))"
proof -
  obtain c ms minimum where c: "cand w s i = Some c" "cand_tenant c = tn"
    and d: "decide_promotion w o' c (compute_content_hash (w_env w) (cand_content c))
            (promotion_result w c tn ms minimum s) minimum who why tn now s = (Inr m, s')"
    using assms(3) unfolding promote_candidate_Inr [OF assms(1)] by blast
  then have run: "admin_promote w o' c (compute_content_hash (w_env w) (cand_content c)) (promotion_result w c tn ms minimum s) minimum who why tn now s
        = (Inr m, s')" by (simp add: decide_promotion_Inr)
  note e = admin_promote_effect [OF assms(1) c run]
  have "held_candidate w i tn s' = None"
    using e(6) by (cases "held_candidate w i tn s'") (auto simp: held_candidate_iff [OF e(7)])
  then have gone: "find_active_hold w i tn now s' = Inr None" by (simp add: find_active_hold_def)
  obtain new where "events_of w s' = events_of w s @ new" "\<forall>e \<in> set new. ev_action e \<in> {A_superseded, A_promoted, A_eval_result}"
    using e(10) by blast
  then have "events_of w s' = events_of w s @ new \<and> (\<forall>e \<in> set new. ev_action e \<noteq> A_hold_resolved)" by auto
  then show ?thesis using gone e(2,4) by blast
qed

theorem approval_ends_a_hold_unresolved_witness:
  "\<exists>h m s'. find_active_hold plain_world ''c1'' ''team'' ''t1'' waiting_state = Inr (Some h)
     \<and> promote_candidate plain_world plain_promotion_options ''c1'' ''team'' (Some review_agent) None ''r1'' ''t1'' waiting_state = (Inr m, s')
     \<and> find_active_hold plain_world ''c1'' ''team'' ''t1'' s' = Inr None"
proof -
  obtain m s' where run: "promote_candidate plain_world plain_promotion_options ''c1'' ''team'' (Some review_agent) None ''r1'' ''t1'' waiting_state
      = (Inr m, s')" using waiting_approved by blast
  show ?thesis using approval_ends_a_hold_unresolved [OF waiting_state_ok waiting_hold run] run waiting_hold by blast
qed

text \<open>The default caps keep a plan within the budget of a fresh run.\<close>

lemma planned_within_budget:
  "length (sp_matches (plan_supersession c source t None)) \<le> default_max_supersedes"
  by (auto simp: plan_supersession_def Let_def default_max_supersedes_def split: option.split)

lemma withheld_nothing:
  assumes "cu_applied cu = 0"
  shows "fst (withheld (batch_config o' tn) cu (plan_supersession c source None None)) = sp_matches (plan_supersession c source None None)"
proof -
  let ?plan = "plan_supersession c source None None"
  have "by_subject_count (sp_matches ?plan) \<le> length (sp_matches ?plan)" by (simp add: by_subject_count_def)
  then have "by_subject_count (sp_matches ?plan) \<le> default_max_supersedes" using planned_within_budget [of c source None] by linarith
  then have few: "by_subject_count (sp_matches ?plan) \<le> 200" by (simp add: default_max_supersedes_def)
  have "sp_blocked ?plan \<noteq> None \<Longrightarrow> sp_matches ?plan = []" unfolding plan_supersession_def Let_def by (auto split: if_split_asm)
  then show ?thesis
    using few assms by (auto simp: withheld_def Let_def default_max_supersedes_per_run_def split: option.split)
qed

lemma default_threshold: "plan_supersession c source (Some default_supersession_threshold) None = plan_supersession c source None None"
  by (simp add: plan_supersession_def)

lemma same_promotion: "promotion_of c h res None None minimum chosen = admin_promotion c h res minimum chosen None None"
  by (simp add: promotion_of_def admin_promotion_def)

text \<open>The curator's last step is the service's, without the retirement of the candidate.\<close>

lemma promote_one_Inr:
  assumes "cu_applied cu = 0" "cand_tenant c = tn"
  shows "(\<exists>cu'. promote_one w (batch_config o' tn) c h res None None minimum (batch_tick fresh now) cu s = Inr (r, cu', s1)) \<longleftrightarrow>
     (\<exists>actives m. find_by_tenant_and_lifecycle (w_formats w) tn Active (st_memories s) = Inr actives
        \<and> promote w (admin_promotion c h res minimum (sp_matches (plan_supersession c (\<lambda>_ _. actives) None None)) None None)
             False (po_with_links o') None now s = Inr (m, s1)
        \<and> r = promoted_result c res (sp_matches (plan_supersession c (\<lambda>_ _. actives) None None))
             (snd (withheld (batch_config o' tn) cu (plan_supersession c (\<lambda>_ _. actives) None None))) m)"
  using withheld_nothing [OF assms(1), of o' tn c]
  by (auto simp: promote_one_def promote_planned_def Let_def same_promotion and_then_Inr assms(2))

lemma promote_one_agrees:
  assumes ok: "state_ok w s" and c: "cand w s i = Some c" "cand_tenant c = tn" and cu: "cu_applied cu = 0"
  shows "admin_promote w o' c h res minimum None None tn now s = (Inr m, s') \<longleftrightarrow>
     (\<exists>r cu' s1. promote_one w (batch_config o' tn) c h res None None minimum (batch_tick fresh now) cu s = Inr (r, cu', s1)
        \<and> cr_memory r = Some (mem_id m) \<and> mem_view w s1 (mem_id m) = Some m \<and> s' = set_status i Promoted tn s1)"
proof -
  let ?chosen = "\<lambda>actives. sp_matches (plan_supersession c (\<lambda>_ _. actives) None None)"
  let ?prom = "\<lambda>actives. promote w (admin_promotion c h res minimum (?chosen actives) None None) False (po_with_links o') None now s"
  have id: "cand_id c = i" using cand_wf [OF ok c(1)] by simp
  have stored: "mem_view w s1 (mem_id m') = Some m'" if prom: "?prom actives = Inr (m', s1)" for actives m' s1
    using transaction_effect [OF ok promoted_fields(1,2) [OF promote_Inr(1) [OF prom]] no_evals promote_Inr(4) [OF prom]] by blast
  have "admin_promote w o' c h res minimum None None tn now s = (Inr m, s') \<longleftrightarrow>
      (\<exists>actives s1. find_by_tenant_and_lifecycle (w_formats w) tn Active (st_memories s) = Inr actives
        \<and> ?prom actives = Inr (m, s1) \<and> s' = set_status i Promoted tn s1)"
    by (simp add: admin_promote_Inr default_threshold c(2) id)
  also have "\<dots> \<longleftrightarrow> (\<exists>actives m' s1. find_by_tenant_and_lifecycle (w_formats w) tn Active (st_memories s) = Inr actives
        \<and> ?prom actives = Inr (m', s1) \<and> mem_id m' = mem_id m \<and> mem_view w s1 (mem_id m) = Some m \<and> s' = set_status i Promoted tn s1)"
    using stored by (metis option.inject)
  also have "\<dots> \<longleftrightarrow> (\<exists>r s1. (\<exists>cu'. promote_one w (batch_config o' tn) c h res None None minimum (batch_tick fresh now) cu s = Inr (r, cu', s1))
        \<and> cr_memory r = Some (mem_id m) \<and> mem_view w s1 (mem_id m) = Some m \<and> s' = set_status i Promoted tn s1)"
    unfolding promote_one_Inr [OF cu c(2)] by (safe; fastforce)
  finally show ?thesis by blast
qed

text \<open>The curator's decision, in the service's terms.\<close>

lemma same_meter:
  assumes "cu_applied cu = 0" "cu_applied cu2 = 0" "cand_tenant c = tn"
    and "promote_one w (batch_config o' tn) c h res None None minimum (batch_tick fresh now) cu s = Inr (r, cu', s1)"
  shows "\<exists>cu''. promote_one w (batch_config o' tn) c h res None None minimum (batch_tick fresh now) cu2 s = Inr (r, cu'', s1)"
proof -
  have "withheld cf cu plan = withheld cf cu2 plan" for cf plan using assms(1,2) by (simp add: withheld_def Let_def)
  then show ?thesis
    using assms(4) promote_one_Inr [OF assms(1,3), of w o' h res minimum fresh now s r s1]
      promote_one_Inr [OF assms(2,3), of w o' h res minimum fresh now s r s1] by auto
qed

lemma batch_promotes_only:
  assumes ok: "state_ok w s" and c: "cand_tenant c = tn" and free: "\<not> requires_registrar_mcp_review c"
    and run: "process_single w (batch_config o' tn) c None None (batch_tick fresh now) fresh_curator s = Inr (r, cu', s1)"
    and out: "cr_outcome r = C_promoted"
  shows "\<exists>ms minimum cu. structural_open w o' c tn s \<and> find_memories_by_tenant (w_formats w) tn (st_memories s) = Inr ms
        \<and> resolve_minimum_sensitivity w c s = Inr minimum \<and> cu_applied cu = 0
        \<and> pr_outcome (promotion_result w c tn ms minimum s) = Approved
        \<and> evaluate_hold_triggers (w_env w) c (promotion_result w c tn ms minimum s) (tenant_policy tn s) = None
        \<and> promote_one w (batch_config o' tn) c (compute_content_hash (w_env w) (cand_content c)) (promotion_result w c tn ms minimum s)
            None None minimum (batch_tick fresh now) cu s = Inr (r, cu', s1)"
  using run
proof (cases rule: single_cases)
  case (Duplicate why)
  then show ?thesis using out by simp
next
  case (Fresh minimum)
  let ?h = "compute_content_hash (w_env w) (cand_content c)"
  have held: "rows_hold (w_formats w) (contents (w_formats w) (st_memories s)) (st_memories s)"
    by (rule table_ok_stored [OF state_ok_parts(2) [OF ok]])
  obtain ms where ms: "find_memories_by_tenant (w_formats w) tn (st_memories s) = Inr ms" using tenant_reads(1) [OF held] by simp
  from Fresh(5) show ?thesis
  proof (cases rule: gate_cases)
    case (Refused v suppress)
    then show ?thesis using turn_away_settles [OF Refused(1,2)] out by simp
  next
    case Review
    then show ?thesis using out by simp
  next
    case (Decided res suppress cu1)
    note d = decide_promoted [OF ok Decided(4,3) out]
    have res: "res = promotion_result w c tn ms minimum s" using Decided(2) same_policy_result [OF ok ms] by simp
    have meter: "cu_applied cu1 = 0" using Decided(5) by (auto simp: fresh_curator_def)
    have approved: "pr_outcome res = Approved" using d(2,4) by (cases "pr_outcome res") auto
    have open': "structural_open w o' c tn s"
      using Fresh(2,3) Decided(1) unfolding structural_open_def origin_open import_open gates_open_def by simp
    have "released_flags None res = None" by (simp add: released_flags_def)
    then show ?thesis
      using open' ms Fresh(1) meter approved d(1,3) by (auto simp: res tenant_policy_batch)
  qed
qed

lemma batch_promotes_all:
  assumes ok: "state_ok w s" and c: "cand_tenant c = tn" and free: "\<not> requires_registrar_mcp_review c"
    and open': "structural_open w o' c tn s" and ms: "find_memories_by_tenant (w_formats w) tn (st_memories s) = Inr ms"
    and floor: "resolve_minimum_sensitivity w c s = Inr minimum" and meter: "cu_applied cu = 0"
    and pol: "pr_outcome (promotion_result w c tn ms minimum s) = Approved"
      "evaluate_hold_triggers (w_env w) c (promotion_result w c tn ms minimum s) (tenant_policy tn s) = None"
    and run: "promote_one w (batch_config o' tn) c (compute_content_hash (w_env w) (cand_content c)) (promotion_result w c tn ms minimum s)
            None None minimum (batch_tick fresh now) cu s = Inr (r, cu', s1)"
  shows "\<exists>cu''. process_single w (batch_config o' tn) c None None (batch_tick fresh now) fresh_curator s = Inr (r, cu'', s1)"
proof -
  let ?h = "compute_content_hash (w_env w) (cand_content c)" and ?res = "promotion_result w c tn ms minimum s"
  let ?cu = "case tenant_policy tn s of None \<Rightarrow> fresh_curator | Some p \<Rightarrow> warn_dormant p fresh_curator"
  have m0: "cu_applied ?cu = 0" by (simp add: fresh_curator_def split: option.split)
  obtain cu'' where one: "promote_one w (batch_config o' tn) c ?h ?res None None minimum (batch_tick fresh now) ?cu s = Inr (r, cu'', s1)"
    using same_meter [OF meter m0 c run] by blast
  have rel: "released_flags None res = None" for res by (simp add: released_flags_def)
  have decided: "decide w (batch_config o' tn) c ?h None minimum suppress (tenant_policy tn s) ?res (batch_tick fresh now) ?cu s = Inr (r, cu'', s1)"
    for suppress using pol one by (simp add: decide_def rel)
  have dup: "check_duplicate w c (Some tn) (st_memories s) = Inr None"
  proof -
    have "find (\<lambda>x. mr_content_hash x = ?h \<and> mr_tenant_id x = tn) (st_memories s) = None"
      using open' unfolding structural_open_def get_content_hashes_by_tenant_def find_None_iff set_map set_filter
      by (metis (mono_tags, lifting) image_eqI mem_Collect_eq)
    then show ?thesis by (simp add: check_duplicate_def find_by_content_hash_and_tenant_def first_memory_where_def Let_def)
  qed
  have same: "policy_result w (batch_config o' tn) c None minimum s = Inr ?res" by (rule same_policy_result [OF ok ms])
  have gates: "gate_and_decide w (batch_config o' tn) c ?h None None minimum (batch_tick fresh now) fresh_curator s = Inr (r, cu'', s1)"
  proof (cases "tenant_policy tn s")
    case None
    then show ?thesis
      using open' free decided same
      by (auto simp: gate_and_decide_def Let_def structural_open_def tenant_policy_batch policy_result_def
          split: origin_verdict.split import_verdict.split)
  next
    case (Some p)
    then have "evaluate_policy w (batch_config o' tn) c p None minimum s = Inr ?res"
      using same by (simp add: policy_result_def tenant_policy_batch)
    then show ?thesis
      using Some open' free decided
      by (auto simp: gate_and_decide_def Let_def structural_open_def tenant_policy_batch
          split: origin_verdict.split import_verdict.split)
  qed
  show ?thesis
    using floor dup gates open' by (simp add: process_single_def Let_def structural_open_def)
qed



section \<open>The service among the steps\<close>

lemma import_refusal_receipt:
  "ev_action (import_refusal_event w c tn who v fresh now) \<noteq> A_held"
  "json_distinct (JObj (ev_details (import_refusal_event w c tn who v fresh now)))"
  by (auto simp: import_refusal_event_def)

lemma reviewer_receipt:
  "ev_action (reviewer_event i tn who why fresh now) \<noteq> A_held" "json_distinct (JObj (ev_details (reviewer_event i tn who why fresh now)))"
  by (simp_all add: reviewer_event_def)

lemma decide_promotion_steps:
  assumes ok: "state_ok w s" and c: "cand w s i = Some c" "cand_tenant c = tn"
    and run: "decide_promotion w o' c h res minimum who why tn now s = (ans, s')"
  shows "gov_steps w (po_hold_limits o') s s'"
proof (cases ans)
  case (Inr m)
  then have "admin_promote w o' c h res minimum who why tn now s = (Inr m, s')" using run decide_promotion_Inr by blast
  then show ?thesis by (rule admin_promote_effect(8) [OF ok c])
next
  case (Inl e)
  show ?thesis
  proof (cases "s' = s")
    case False
    then obtain d placed where "place_hold w c d (po_hold_limits o') False who now s = Inr (placed, s')"
      using run Inl by (auto simp: decide_promotion_def admin_promote_def split: if_split_asm option.splits sum.splits prod.splits)
    then show ?thesis by (intro gs_one gs_place)
  qed (simp add: gs_refl)
qed

lemma review_promotion_steps:
  assumes ok: "state_ok w s" and c: "cand w s i = Some c" "cand_tenant c = tn"
    and run: "review_promotion w o' c who why tn now s = (ans, s')"
  shows "gov_steps w (po_hold_limits o') s s'"
proof (cases "s' = s")
  case False
  then obtain h res minimum where "decide_promotion w o' c h res minimum who why tn now s = (ans, s')"
    using run by (auto simp: review_promotion_def Let_def split: if_split_asm option.splits sum.splits)
  then show ?thesis by (rule decide_promotion_steps [OF ok c])
qed (simp add: gs_refl)

lemma promote_candidate_steps:
  assumes ok: "state_ok w s" and run: "promote_candidate w o' i tn who why fresh now s = (ans, s')"
  shows "gov_steps w (po_hold_limits o') s s'"
proof (cases "s' = s")
  case False
  have find: "find_candidate (w_formats w) i (st_candidates s) = Inr (cand w s i)"
    by (rule find_candidate_ok [OF state_ok_parts(1) [OF ok]])
  obtain c where c: "cand w s i = Some c" "cand_tenant c = tn" and gate: "gate_promotion w o' c who why tn fresh now s = (ans, s')"
    using run False by (auto simp: promote_candidate_def find split: option.splits if_split_asm)
  have "review_promotion w o' c who why tn now s = (ans, s')
      \<or> (\<exists>v. write_event w (import_refusal_event w c tn who v fresh now) s = Inr s')"
    using gate False by (auto simp: gate_promotion_def split: sum.splits fault.splits origin_verdict.splits import_verdict.splits)
  then show ?thesis
  proof
    assume "review_promotion w o' c who why tn now s = (ans, s')"
    then show ?thesis by (rule review_promotion_steps [OF ok c])
  next
    assume "\<exists>v. write_event w (import_refusal_event w c tn who v fresh now) s = Inr s'"
    then show ?thesis by (elim exE) (intro gs_one, erule gs_receipt, rule import_refusal_receipt, rule import_refusal_receipt)
  qed
qed (simp add: gs_refl)

section \<open>A reviewer's rejection\<close>

lemma lift_reject_Inr [simp]: "lift_reject r = Inr x \<longleftrightarrow> r = Inr x"
  by (auto simp: lift_reject_def split: sum.split)

lemma reject_candidate_Inr:
  assumes "reject_candidate w i tn who why fresh now s = Inr s'"
  obtains c where "find_candidate (w_formats w) i (st_candidates s) = Inr (Some c)" "cand_tenant c = tn"
    "find_active_hold w i tn now s = Inr None" "cand_status c = Inbox \<or> cand_status c = Quarantined"
    "\<not> exists_for_candidate i tn (st_memories s)"
    "write_event w (reviewer_event (cand_id c) tn who why fresh now) (set_status i Rejected tn s) = Inr s'"
  using assms unfolding reject_candidate_def and_then_Inr
  by (auto simp: and_then_Inr write_event_def split: option.splits if_split_asm)

text \<open>
  A reviewer settles only what is pending: the candidate is of the tenant, waits in the inbox or in quarantine
  without an open hold, and no memory came of it; its status and one receipt change, and nothing else.
\<close>

lemma reviewer_rejects_only_pending:
  assumes ok: "state_ok w s" and run: "reject_candidate w i tn who why fresh now s = Inr s'"
  shows "\<exists>c x. cand w s i = Some c \<and> cand_tenant c = tn \<and> find_active_hold w i tn now s = Inr None
    \<and> cand_status c \<in> {Inbox, Quarantined} \<and> \<not> exists_for_candidate i tn (st_memories s)
    \<and> cand w s' i = Some (c\<lparr>cand_status := Rejected\<rparr>) \<and> st_memories s' = st_memories s \<and> st_links s' = st_links s
    \<and> events_of w s' = events_of w s @ [x] \<and> receipt_of w (reviewer_event i tn who why fresh now) x
    \<and> gov_steps w limits s s' \<and> state_ok w s'"
proof -
  obtain c where c: "find_candidate (w_formats w) i (st_candidates s) = Inr (Some c)" "cand_tenant c = tn"
      "find_active_hold w i tn now s = Inr None" "cand_status c = Inbox \<or> cand_status c = Quarantined"
      "\<not> exists_for_candidate i tn (st_memories s)"
    and wr: "write_event w (reviewer_event (cand_id c) tn who why fresh now) (set_status i Rejected tn s) = Inr s'"
    by (rule reject_candidate_Inr [OF run])
  have view: "cand w s i = Some c" using c(1) find_candidate_ok [OF state_ok_parts(1) [OF ok]] by simp
  have id: "cand_id c = i" using cand_wf [OF ok view] by simp
  have ok1: "state_ok w (set_status i Rejected tn s)" by (rule set_status_ok [OF ok])
  obtain x where x: "receipt_of w (reviewer_event i tn who why fresh now) x" "state_ok w s'"
      "events_of w s' = events_of w (set_status i Rejected tn s) @ [x]" "st_candidates s' = st_candidates (set_status i Rejected tn s)"
      "st_memories s' = st_memories s" "st_links s' = st_links s"
    using write_event_ok [OF ok1 wr reviewer_receipt(2)] unfolding id set_status_parts by blast
  have one: "gov_step w limits s (set_status i Rejected tn s)" by (rule gs_status) simp
  have two: "gov_step w limits (set_status i Rejected tn s) s'" by (rule gs_receipt [OF wr reviewer_receipt])
  have "cand w s' i = Some (c\<lparr>cand_status := Rejected\<rparr>)"
    using set_status_view [OF ok, of i Rejected tn i] by (simp add: x(4) view c(2))
  then show ?thesis
    using view c x gs_trans [OF gs_one [OF one] two] by (intro exI [of _ c] exI [of _ x]) auto
qed

end
