(* ===== verification/Governance_Runs.thy ===== *)
theory Governance_Runs
  imports Resolve_Laws Candidate_Intake Memory_Service Spool_Laws Promotion_Laws
begin

text \<open>
  The whole system as a state machine: every operation that writes the database, in any order and with
  any arguments, as one step relation, and the invariant of everything it can reach.
\<close>

section \<open>The operations as steps\<close>

text \<open>
  A redaction is a step when the texts it plans have no surrounding white space: the memory row is
  trimmed by its schema, the candidate row is written as it is.
\<close>

inductive gov_op :: "world \<Rightarrow> hold_limits option \<Rightarrow> store_state \<Rightarrow> store_state \<Rightarrow> bool" for w limits where
  op_intake: "intake_candidate w data ctx allowed now s = Inr (r1, s') \<Longrightarrow> gov_op w limits s s'"
| op_sweep: "ingest_from_spool_detailed w opts clock files d = (r0, d') \<Longrightarrow> gov_op w limits (id_store d) (id_store d')"
| op_curate: "cf_hold_limits cf = limits \<Longrightarrow> process_batch w cf batch cu s = (r2, cu', s') \<Longrightarrow> gov_op w limits s s'"
| op_resolve: "resolve_hold w rs opts tk now s = Inr (r3, s') \<Longrightarrow> gov_op w limits s s'"
| op_expire: "expire_holds w tn now dry s = (r4, s') \<Longrightarrow> gov_op w limits s s'"
| op_recommend: "recommend_on_hold w ri fresh now s = Inr (r5, s') \<Longrightarrow> gov_op w limits s s'"
| op_review: "reject_reviewed_candidate w vi fresh now s = Inr (r6, s') \<Longrightarrow> gov_op w limits s s'"
| op_approve: "po_hold_limits o' = limits \<Longrightarrow> promote_candidate w o' i tn who why fresh now s = (r11, s') \<Longrightarrow> gov_op w limits s s'"
| op_turn_down: "reject_candidate w i tn who2 why2 fresh now s = Inr s' \<Longrightarrow> gov_op w limits s s'"
| op_floor: "record_minimum_sensitivity w c minimum x now s = Inr s' \<Longrightarrow> gov_op w limits s s'"
| op_narrow: "narrow_audience w ni eid now s = Inr (r7, s') \<Longrightarrow> gov_op w limits s s'"
| op_transition: "transition w i l body eid now s = Inr (r8, s') \<Longrightarrow> gov_op w limits s s'"
| op_recategorize: "recategorize w i req eid now s = Inr (r9, s') \<Longrightarrow> gov_op w limits s s'"
| op_redact: "redact_memory w redact rd ids now s = Inr (r10, s') \<Longrightarrow>
    (\<And>m body ttl. plan_replacement redact m rd = Inr (body, ttl) \<Longrightarrow> js_trim body = body \<and> js_trim ttl = ttl) \<Longrightarrow>
    gov_op w limits s s'"

inductive gov_reaches :: "world \<Rightarrow> hold_limits option \<Rightarrow> store_state \<Rightarrow> store_state \<Rightarrow> bool" for w limits where
  reach_here: "gov_reaches w limits s s"
| reach_op: "gov_reaches w limits s s1 \<Longrightarrow> gov_op w limits s1 s2 \<Longrightarrow> gov_reaches w limits s s2"

section \<open>Every operation is a sequence of steps\<close>

lemma process_batch_steps:
  assumes "gov_inv w (cf_hold_limits cf) s" "process_batch w cf batch cu s = (out, cu', s')"
  shows "gov_steps w (cf_hold_limits cf) s s'"
proof -
  obtain o1 where "batch_loop w cf (get_content_hashes_by_tenant (cf_tenant cf) (st_memories s)) batch cu s = (o1, cu', s')"
    using assms(2) by (auto simp: process_batch_def split: prod.splits sum.splits)
  from batch_loop_steps [OF assms(1) this] show ?thesis by blast
qed

lemma expire_hold_steps:
  assumes "state_ok w s" "expire_hold w h now s = Inr (receipt, s')"
  shows "gov_steps w limits s s' \<and> state_ok w s'"
  using closing [OF assms(1) _ _ assms(2) [unfolded expire_hold_def]] by simp

lemma close_holds_steps:
  "state_ok w s \<Longrightarrow> close_holds w now dry hs s = (r, s') \<Longrightarrow> gov_steps w limits s s'"
proof (induction hs arbitrary: s r)
  case (Cons h hs)
  show ?case
  proof (cases dry)
    case True
    then show ?thesis using Cons by (auto split: prod.splits sum.splits)
  next
    case False
    show ?thesis
    proof (cases "expire_hold w h now s")
      case (Inl x)
      then show ?thesis using Cons.prems(2) False by (simp add: gs_refl)
    next
      case (Inr p)
      obtain receipt s1 where p: "expire_hold w h now s = Inr (receipt, s1)" using Inr by (cases p) auto
      note one = expire_hold_steps [OF Cons.prems(1) p]
      obtain r1 where "close_holds w now dry hs s1 = (r1, s')"
        using Cons.prems(2) False p by (auto split: prod.splits sum.splits)
      from Cons.IH [OF conjunct2 [OF one] this] show ?thesis by (rule gs_append) (use one in blast)
    qed
  qed
qed (simp add: gs_refl)

lemma expire_holds_steps:
  assumes "state_ok w s" "expire_holds w tn now dry s = (r, s')"
  shows "gov_steps w limits s s'"
proof -
  have "close_holds w now dry (filter ah_expired (open_holds w tn now s)) s = (r, s')"
    using assms(2) by (simp add: expire_holds_def list_active_holds_ok [OF assms(1)])
  then show ?thesis by (rule close_holds_steps [OF assms(1)])
qed

lemma recommend_steps:
  assumes "recommend_on_hold w inp fresh now s = Inr (r, s')"
  shows "gov_steps w limits s s'"
proof (cases "s' = s")
  case False
  then obtain h where wr: "write_event w (recommended_event inp h fresh now) s = Inr s'"
    using assms unfolding recommend_on_hold_def
    by (auto simp: and_then_Inr simp del: js_trim_def split: if_split_asm option.split_asm)
  have "gov_step w limits s s'"
    by (rule gs_receipt [OF wr]) (simp_all add: recommended_event_def split: option.split)
  then show ?thesis by (rule gs_one)
qed (simp add: gs_refl)

lemma narrow_steps:
  assumes ok: "state_ok w s" and run: "narrow_audience w inp eid now s = Inr (ans, s')"
  shows "gov_steps w limits s s'"
  using run ok
proof (cases rule: narrow_cases)
  case (Write m a b)
  then show ?thesis using narrow_effect [OF ok Write(1,6,8)] by blast
qed (simp_all add: gs_refl)

lemma op_steps:
  assumes "gov_op w limits s s'" "gov_inv w limits s"
  shows "gov_steps w limits s s'"
proof -
  have ok: "state_ok w s" using assms(2) by (simp add: gov_inv_def)
  show ?thesis
    using assms(1)
  proof cases
    case (op_intake data ctx allowed now r1)
    from op_intake ok show ?thesis
    proof (cases rule: intake_cases)
      case (Created c)
      then show ?thesis using intake_new_effect [OF ok _ Created(4)] prepared [OF Created(1)] by blast
    qed (simp add: gs_refl)
  next
    case (op_sweep opts clock files d r0 d')
    show ?thesis
    proof (cases files)
      case None
      then have "d' = d" using op_sweep(3) by (simp add: ingest_from_spool_detailed_def)
      then show ?thesis using op_sweep(1,2) by (simp add: gs_refl)
    next
      case (Some fs)
      have "candidates_ok (w_formats w) (st_candidates (id_store d))" using ok op_sweep(1) by (simp add: state_ok_def)
      then obtain res d1 where "ingest_from_spool_detailed w opts clock (Some fs) d = (Inr res, d1)" "grows w d d1"
        by (rule sweep_runs)
      then have "grows w d d'" using op_sweep(3) Some by simp
      then show ?thesis using grows_steps op_sweep(1,2) by simp
    qed
  next
    case (op_curate cf batch cu r2 cu')
    then show ?thesis using process_batch_steps assms(2) by blast
  next
    case (op_resolve rs opts tk now r3)
    then show ?thesis using resolve_steps [OF ok] by blast
  next
    case (op_expire tn now dry r4)
    then show ?thesis using expire_holds_steps [OF ok] by blast
  next
    case (op_recommend ri fresh now r5)
    then show ?thesis by (rule recommend_steps)
  next
    case (op_review vi fresh now r6)
    then show ?thesis using review_steps by blast
  next
    case (op_approve o' i tn who why fresh now r11)
    then show ?thesis using promote_candidate_steps [OF ok] by blast
  next
    case (op_turn_down i tn who2 why2 fresh now)
    then show ?thesis using reviewer_rejects_only_pending [OF ok] by blast
  next
    case (op_floor c minimum x now)
    then show ?thesis by (rule record_floor_steps)
  next
    case (op_narrow ni eid now r7)
    then show ?thesis using narrow_steps [OF ok] by blast
  next
    case (op_transition i l body eid now r8)
    then show ?thesis using transition_effect [OF ok] by (cases r8) blast
  next
    case (op_recategorize i req eid now r9)
    then show ?thesis using recategorize_effect [OF ok] by (cases r9) blast
  next
    case (op_redact redact rd ids now r10)
    obtain ans frags where "redact_memory w redact rd ids now s = Inr ((ans, frags), s')"
      using op_redact(1) by (cases r10) auto
    then show ?thesis by (rule redaction_steps [OF ok _ op_redact(2)])
  qed
qed

section \<open>What can be reached\<close>

lemma op_inv: "gov_op w limits s s' \<Longrightarrow> gov_inv w limits s \<Longrightarrow> gov_inv w limits s' \<and> extends_history w s s'"
  using steps_inv op_steps by blast



end
