(* ===== verification/Vault_Files.thy ===== *)
theory Vault_Files
  imports Import_Exclusion Uuid Record_Codec Regex
begin

text \<open>
  The reading side of a vault import: the walk over a directory tree (\<open>import/vault-walker.ts\<close>) and the
  small front matter parser (\<open>import/markdown-parser.ts\<close>). A directory is the list of its entries in the
  order the platform gives them; what cannot be read is \<open>None\<close>.
\<close>

section \<open>The walk\<close>

datatype fs_entry =
    Fs_dir string "fs_entry list option"
  | Fs_file string "string option"
  | Fs_other string

record vault_file =
  vf_absolute :: string
  vf_relative :: string
  vf_content :: string

definition default_excludes :: "string list" where
  "default_excludes = [''.obsidian'', ''.trash'', ''.git'', ''node_modules'']"

definition markdown_extensions :: "string list" where
  "markdown_extensions = [''.md'', ''.markdown'', ''.mdx'']"

text \<open>The part after the last character \<open>d\<close>, if there is one, and the part before it.\<close>

definition last_split :: "char \<Rightarrow> string \<Rightarrow> (string \<times> string) option" where
  "last_split d s =
     (if d \<in> set s
      then Some (rev (tl (dropWhile (\<lambda>c. c \<noteq> d) (rev s))), rev (takeWhile (\<lambda>c. c \<noteq> d) (rev s)))
      else None)"

text \<open>\<open>path.extname\<close> of a base name: nothing before a leading dot, and nothing in \<open>..\<close>.\<close>

definition extname :: "string \<Rightarrow> string" where
  "extname name =
     (case last_split (CHR ''.'') name of
        None \<Rightarrow> []
      | Some (stem, ext) \<Rightarrow> if stem = [] \<or> name = ''..'' then [] else CHR ''.'' # ext)"

definition is_markdown :: "string \<Rightarrow> bool" where
  "is_markdown name = (js_lower (extname name) \<in> set markdown_extensions)"

definition join_path :: "string \<Rightarrow> string \<Rightarrow> string" where
  "join_path dir name = (if dir = [] then name else dir @ ''/'' @ name)"

text \<open>
  \<open>walkDir\<close>: \<open>rel\<close> is the path of the directory under the root, whose own path is normalised.
\<close>

fun walk_entry :: "string \<Rightarrow> string list \<Rightarrow> string \<Rightarrow> fs_entry \<Rightarrow> vault_file list" where
  "walk_entry vault excluded rel (Fs_dir name entries) =
     (if name \<in> set excluded then []
      else (case entries of
              None \<Rightarrow> []
            | Some es \<Rightarrow> concat (map (walk_entry vault excluded (join_path rel name)) es)))"
| "walk_entry vault excluded rel (Fs_file name content) =
     (if \<not> is_markdown name then []
      else (case content of
              None \<Rightarrow> []
            | Some t \<Rightarrow>
                if js_trim t = [] then []
                else [\<lparr>vf_absolute = join_path vault (join_path rel name), vf_relative = join_path rel name, vf_content = t\<rparr>]))"
| "walk_entry vault excluded rel (Fs_other name) = []"

definition walk_vault :: "string \<Rightarrow> string list \<Rightarrow> fs_entry list option \<Rightarrow> vault_file list" where
  "walk_vault vault exclude_dirs tree =
     (case tree of None \<Rightarrow> [] | Some es \<Rightarrow> concat (map (walk_entry vault (default_excludes @ exclude_dirs) []) es))"

fun count_entry :: "string list \<Rightarrow> fs_entry \<Rightarrow> nat" where
  "count_entry excluded (Fs_dir name entries) =
     (if name \<in> set excluded then 0
      else (case entries of None \<Rightarrow> 0 | Some es \<Rightarrow> sum_list (map (count_entry excluded) es)))"
| "count_entry excluded (Fs_file name content) = (if is_markdown name then 1 else 0)"
| "count_entry excluded (Fs_other name) = 0"

definition count_vault_files :: "string list \<Rightarrow> fs_entry list option \<Rightarrow> nat" where
  "count_vault_files exclude_dirs tree =
     (case tree of None \<Rightarrow> 0 | Some es \<Rightarrow> sum_list (map (count_entry (default_excludes @ exclude_dirs)) es))"

section \<open>Front matter\<close>

text \<open>A front matter value; a number keeps its text, for only its kind is looked at.\<close>

datatype yaml_value = Y_string string | Y_list "string list" | Y_number string | Y_bool bool

text \<open>The grammar of \<open>Number(raw)\<close> on a trimmed text, as a test: \<open>NaN\<close> or not.\<close>

definition drop_sign :: "string \<Rightarrow> string" where
  "drop_sign s = (case s of c # r \<Rightarrow> if c = CHR ''+'' \<or> c = CHR ''-'' then r else s | [] \<Rightarrow> [])"

definition all_digits :: "(char \<Rightarrow> bool) \<Rightarrow> string \<Rightarrow> bool" where
  "all_digits p s = (s \<noteq> [] \<and> list_all p s)"

definition exponent_ok :: "string \<Rightarrow> bool" where
  "exponent_ok s =
     (case s of [] \<Rightarrow> True | c # r \<Rightarrow> (c = CHR ''e'' \<or> c = CHR ''E'') \<and> all_digits is_digit (drop_sign r))"

definition decimal_ok :: "string \<Rightarrow> bool" where
  "decimal_ok s =
     (let ds = takeWhile is_digit s; r = dropWhile is_digit s
      in if take 1 r = ''.''
         then (ds \<noteq> [] \<or> takeWhile is_digit (drop 1 r) \<noteq> []) \<and> exponent_ok (dropWhile is_digit (drop 1 r))
         else ds \<noteq> [] \<and> exponent_ok r)"

definition radix_ok :: "string \<Rightarrow> bool" where
  "radix_ok s =
     (take 1 s = ''0''
      \<and> (let k = js_lower (take 1 (drop 1 s)); ds = js_lower (drop 2 s)
         in (k = ''x'' \<and> all_digits is_lower_hex ds) \<or> (k = ''o'' \<and> all_digits (\<lambda>c. CHR ''0'' \<le> c \<and> c \<le> CHR ''7'') ds)
            \<or> (k = ''b'' \<and> all_digits (\<lambda>c. c = CHR ''0'' \<or> c = CHR ''1'') ds)))"

definition is_number_text :: "string \<Rightarrow> bool" where
  "is_number_text s = (radix_ok s \<or> drop_sign s = ''Infinity'' \<or> decimal_ok (drop_sign s))"

definition quoted_by :: "char \<Rightarrow> string \<Rightarrow> bool" where
  "quoted_by q s = (s \<noteq> [] \<and> hd s = q \<and> last s = q)"

definition unquote :: "string \<Rightarrow> string" where
  "unquote s = (if quoted_by (CHR 0x22) s \<or> quoted_by (CHR 0x27) s then tl (butlast s) else s)"

definition coerce_value :: "string \<Rightarrow> yaml_value" where
  "coerce_value raw =
     (if raw = [] \<or> raw = ''~'' \<or> raw = ''null'' then Y_string []
      else if raw = ''true'' then Y_bool True
      else if raw = ''false'' then Y_bool False
      else if hd raw = CHR ''['' \<and> last raw = CHR '']'' then
        Y_list (filter (\<lambda>s. s \<noteq> []) (map (\<lambda>s. unquote (js_trim s)) (split_at (CHR '','') (tl (butlast raw)))))
      else if is_number_text raw then Y_number raw
      else Y_string (unquote raw))"

text \<open>One line: a comment, a line without a colon and an empty key give nothing. The last value of a key wins.\<close>

definition yaml_line :: "string \<Rightarrow> (string \<times> yaml_value) option" where
  "yaml_line line =
     (let t = js_trim line; key = js_trim (takeWhile (\<lambda>c. c \<noteq> CHR '':'') t)
      in if t = [] \<or> hd t = CHR ''#'' \<or> CHR '':'' \<notin> set t \<or> key = [] then None
         else Some (key, coerce_value (js_trim (drop 1 (dropWhile (\<lambda>c. c \<noteq> CHR '':'') t)))))"

definition parse_simple_yaml :: "string \<Rightarrow> (string \<times> yaml_value) list" where
  "parse_simple_yaml yaml = rev (List.map_filter yaml_line (split_at newline yaml))"

text \<open>
  \<open>FRONTMATTER_RE\<close>: after the opening fence, the shortest text before a line break and three dashes;
  what follows the closing dashes may be anything. The result is the text between and the rest.
\<close>

fun closing_dashes :: "string \<Rightarrow> (string \<times> string) option" where
  "closing_dashes [] = None"
| "closing_dashes (c # s) =
     (if take 5 (c # s) = [CHR 0x0D, newline] @ ''---'' then Some ([], drop 5 (c # s))
      else if take 4 (c # s) = newline # ''---'' then Some ([], drop 4 (c # s))
      else map_option (\<lambda>(y, r). (c # y, r)) (closing_dashes s))"

definition drop_char :: "char \<Rightarrow> string \<Rightarrow> string" where
  "drop_char d s = (case s of c # r \<Rightarrow> if c = d then r else s | [] \<Rightarrow> [])"

definition drop_line_end :: "string \<Rightarrow> string" where
  "drop_line_end s = drop_char newline (drop_char (CHR 0x0D) s)"

definition front_matter :: "string \<Rightarrow> (string \<times> string) option" where
  "front_matter text =
     (let r = drop 3 text
      in if take 3 text = ''---'' \<and> (take 1 r = [newline] \<or> take 2 r = [CHR 0x0D, newline])
         then map_option (\<lambda>(y, rest). (y, drop_line_end rest)) (closing_dashes (drop_line_end r))
         else None)"

record parsed_markdown =
  pm_front :: "(string \<times> yaml_value) list"
  pm_body :: string

definition parse_markdown :: "string \<Rightarrow> parsed_markdown" where
  "parse_markdown text =
     (case front_matter text of
        None \<Rightarrow> \<lparr>pm_front = [], pm_body = js_trim text\<rparr>
      | Some (yaml, rest) \<Rightarrow> \<lparr>pm_front = parse_simple_yaml yaml, pm_body = js_trim rest\<rparr>)"

section \<open>Titles\<close>

definition ascii_upper :: "char \<Rightarrow> char" where
  "ascii_upper c = (if is_lower c then char_of (of_char c - (32 :: nat)) else c)"

text \<open>\<open>/\\b\\w/g\<close>: a word character after none is put in upper case.\<close>

fun capitalize :: "bool \<Rightarrow> string \<Rightarrow> string" where
  "capitalize inside [] = []"
| "capitalize inside (c # s) = (if word_char c \<and> \<not> inside then ascii_upper c else c) # capitalize (word_char c) s"

text \<open>\<open>/\\.[^.]+$/\<close>: the last dot and what follows it, unless nothing does.\<close>

definition drop_extension :: "string \<Rightarrow> string" where
  "drop_extension s = (case last_split (CHR ''.'') s of Some (stem, c # ext) \<Rightarrow> stem | _ \<Rightarrow> s)"

definition title_from_path :: "string \<Rightarrow> string" where
  "title_from_path path =
     (let name = (case last_split (CHR ''/'') path of None \<Rightarrow> path | Some (_, base) \<Rightarrow> base)
      in capitalize False (map (\<lambda>c. if c = CHR ''-'' \<or> c = CHR ''_'' then CHR '' '' else c) (drop_extension name)))"

section \<open>What the reader keeps\<close>

lemma last_split_join: "last_split d s = Some (a, b) \<Longrightarrow> s = a @ d # b \<and> d \<notin> set b"
proof -
  assume "last_split d s = Some (a, b)"
  then have d: "d \<in> set s" and a: "a = rev (tl (dropWhile (\<lambda>c. c \<noteq> d) (rev s)))" and b: "b = rev (takeWhile (\<lambda>c. c \<noteq> d) (rev s))"
    by (auto simp: last_split_def split: if_splits)
  have ne: "dropWhile (\<lambda>c. c \<noteq> d) (rev s) \<noteq> []" using d by (auto simp: dropWhile_eq_Nil_conv)
  then obtain r where r: "dropWhile (\<lambda>c. c \<noteq> d) (rev s) = d # r"
    using hd_dropWhile [OF ne] by (cases "dropWhile (\<lambda>c. c \<noteq> d) (rev s)") auto
  have "rev s = takeWhile (\<lambda>c. c \<noteq> d) (rev s) @ d # r" using takeWhile_dropWhile_id [of "\<lambda>c. c \<noteq> d" "rev s"] r by simp
  then have "s = rev r @ d # rev (takeWhile (\<lambda>c. c \<noteq> d) (rev s))" by (metis append.assoc append_Cons append_Nil rev.simps(2) rev_append rev_rev_ident)
  moreover have "d \<notin> set (takeWhile (\<lambda>c. c \<noteq> d) (rev s))" by (auto dest: set_takeWhileD)
  ultimately show ?thesis using a b r by auto
qed

lemma trim_body: "js_trim (pm_body (parse_markdown t)) = pm_body (parse_markdown t)"
  by (simp add: parse_markdown_def split: option.split)

text \<open>The walk finds at most the files the preview counts, and every one of them has text.\<close>

lemma length_concat_le: "(\<And>x. x \<in> set xs \<Longrightarrow> length (f x) \<le> g x) \<Longrightarrow> length (concat (map f xs)) \<le> sum_list (map g xs)"
  by (induction xs) (auto intro: add_mono)

lemma walk_entry_count: "length (walk_entry vault ex rel e) \<le> count_entry ex e"
proof (induction e arbitrary: rel)
  case (Fs_dir name entries)
  then show ?case by (cases entries) (auto intro!: length_concat_le)
qed (auto split: option.split)

lemma walk_entry_text: "f \<in> set (walk_entry vault ex rel e) \<Longrightarrow> js_trim (vf_content f) \<noteq> []"
proof (induction e arbitrary: rel)
  case (Fs_dir name entries)
  then show ?case by (cases entries) (auto split: if_splits)
qed (auto split: option.splits if_splits)

lemma walk_vault_bounds:
  "length (walk_vault vault ex tree) \<le> count_vault_files ex tree"
  "f \<in> set (walk_vault vault ex tree) \<Longrightarrow> js_trim (vf_content f) \<noteq> []"
  by (auto simp: walk_vault_def count_vault_files_def walk_entry_count walk_entry_text split: option.splits
      intro!: length_concat_le)

end
