(* ===== verification/Vault_Import.thy ===== *)
theory Vault_Import
  imports Vault_Files Import_Batches
begin

text \<open>
  The import of a vault into the inbox, \<open>apps/curator/src/import/import-pipeline.ts\<close> and
  \<open>collision-detector.ts\<close>: the preview, the import under a batch row, and its rollback. The files are
  the result of the walk.
\<close>

section \<open>Collisions\<close>

datatype collision_target = Curated_memory | Inbox_candidate

record collision_result =
  cl_hash :: string
  cl_target :: "collision_target option"
  cl_matched_id :: "uuid option"
  cl_matched_title :: "string option"

definition has_collision :: "collision_result \<Rightarrow> bool" where
  "has_collision c \<longleftrightarrow> cl_target c \<noteq> None"

definition detect_collision :: "world \<Rightarrow> string \<Rightarrow> store_state \<Rightarrow> string list \<Rightarrow> fault + collision_result" where
  "detect_collision w body s seen =
     (let h = w_sha256 w body
      in if h \<in> set seen
         then Inr \<lparr>cl_hash = h, cl_target = Some Inbox_candidate, cl_matched_id = None,
                   cl_matched_title = Some ''(duplicate within this import batch)''\<rparr>
         else
           and_then (find_by_content_hash (w_formats w) h (st_memories s)) (\<lambda>curated.
             case curated of
               Some m \<Rightarrow> Inr \<lparr>cl_hash = h, cl_target = Some Curated_memory, cl_matched_id = Some (mem_id m),
                              cl_matched_title = Some (mem_title m)\<rparr>
             | None \<Rightarrow>
                 and_then (find_candidate_by_hash (w_formats w) h (st_candidates s)) (\<lambda>pending.
                   case pending of
                     Some c \<Rightarrow> Inr \<lparr>cl_hash = h, cl_target = Some Inbox_candidate, cl_matched_id = Some (cand_id c),
                                    cl_matched_title = Some (cand_title c)\<rparr>
                   | None \<Rightarrow> Inr \<lparr>cl_hash = h, cl_target = None, cl_matched_id = None, cl_matched_title = None\<rparr>)))"

section \<open>Results\<close>

datatype file_status = File_created | File_unchanged | File_error

datatype file_reason = Empty_body | Collides collision_result | Insert_failed fault

record import_file_result =
  fr_path :: string
  fr_status :: file_status
  fr_reason :: "file_reason option"
  fr_candidate :: "uuid option"

definition created_result :: "vault_file \<Rightarrow> uuid option \<Rightarrow> import_file_result" where
  "created_result f c = \<lparr>fr_path = vf_relative f, fr_status = File_created, fr_reason = None, fr_candidate = c\<rparr>"

definition other_result :: "vault_file \<Rightarrow> file_status \<Rightarrow> file_reason \<Rightarrow> import_file_result" where
  "other_result f st r = \<lparr>fr_path = vf_relative f, fr_status = st, fr_reason = Some r, fr_candidate = None\<rparr>"

definition count_status :: "file_status \<Rightarrow> import_file_result list \<Rightarrow> nat" where
  "count_status st rs = length (filter (\<lambda>r. fr_status r = st) rs)"

section \<open>Preview\<close>

fun preview_files :: "world \<Rightarrow> store_state \<Rightarrow> vault_file list \<Rightarrow> string list \<Rightarrow> fault + import_file_result list" where
  "preview_files w s [] seen = Inr []"
| "preview_files w s (f # fs) seen =
     (let body = pm_body (parse_markdown (vf_content f))
      in if js_trim body = [] then and_then (preview_files w s fs seen) (\<lambda>rs. Inr (other_result f File_unchanged Empty_body # rs))
         else
           and_then (detect_collision w body s seen) (\<lambda>c.
             if has_collision c
             then and_then (preview_files w s fs seen) (\<lambda>rs. Inr (other_result f File_unchanged (Collides c) # rs))
             else and_then (preview_files w s fs (cl_hash c # seen)) (\<lambda>rs. Inr (created_result f None # rs))))"

record import_preview =
  ip_files :: nat
  ip_would_create :: nat
  ip_would_skip :: nat
  ip_results :: "import_file_result list"

definition preview_import :: "world \<Rightarrow> vault_file list \<Rightarrow> store_state \<Rightarrow> fault + import_preview" where
  "preview_import w fs s =
     and_then (preview_files w s fs []) (\<lambda>rs.
       Inr \<lparr>ip_files = length fs, ip_would_create = count_status File_created rs,
            ip_would_skip = count_status File_unchanged rs, ip_results = rs\<rparr>)"

section \<open>Import\<close>

text \<open>The fields taken from the front matter.\<close>

definition front_value :: "parsed_markdown \<Rightarrow> string \<Rightarrow> yaml_value option" where
  "front_value p k = map_of (pm_front p) k"

definition front_title :: "parsed_markdown \<Rightarrow> string \<Rightarrow> string" where
  "front_title p path =
     (case front_value p ''title'' of
        Some (Y_string t) \<Rightarrow> if t = [] then title_from_path path else t
      | _ \<Rightarrow> title_from_path path)"

definition front_category :: "parsed_markdown \<Rightarrow> memory_category" where
  "front_category p =
     (case front_value p ''category'' of
        Some (Y_string t) \<Rightarrow> (case parse_enum category_options category_name t of Some c \<Rightarrow> c | None \<Rightarrow> Reference)
      | _ \<Rightarrow> Reference)"

definition front_tags :: "parsed_markdown \<Rightarrow> string list" where
  "front_tags p = (case front_value p ''tags'' of Some (Y_list ts) \<Rightarrow> ts | _ \<Rightarrow> [])"

text \<open>The candidate is built as an object; no schema parses it before the insert.\<close>

definition vault_candidate ::
  "world \<Rightarrow> string \<Rightarrow> tenant_id \<Rightarrow> iso_datetime \<Rightarrow> vault_file \<Rightarrow> parsed_markdown \<Rightarrow> memory_candidate" where
  "vault_candidate w workspace tenant now f p =
     \<lparr>cand_id = derive_candidate_id (w_sha1 w) workspace (vf_relative f) (w_sha256 w (pm_body p)), cand_status = Inbox,
      cand_source = Import, cand_content = pm_body p, cand_title = front_title p (vf_relative f),
      cand_category = front_category p, cand_trust = Trust_medium,
      cand_author = \<lparr>author_kind = System, author_id = ''vault-import'', author_name = None\<rparr>, cand_tenant = tenant,
      cand_metadata = \<lparr>file_paths = [vf_absolute f], language = None, project_context = None, session_id = None,
         repo_url = None, branch = None, md_confidence = None, md_sensitivity = None, tags = front_tags p,
         subjects = None, proposed_by_role = None, audience = None\<rparr>,
      cand_flags = \<lparr>potential_secret = False, low_confidence = False, duplicate_suspect = False\<rparr>,
      captured_at = now, cand_origin = None\<rparr>"

text \<open>
  The loop over the files: a throw of the collision check leaves it, a refused insert is the file's
  result. The state it changes is the candidate table.
\<close>

fun import_files ::
  "world \<Rightarrow> string \<Rightarrow> tenant_id \<Rightarrow> string \<Rightarrow> iso_datetime \<Rightarrow> vault_file list \<Rightarrow> string list \<Rightarrow> store_state \<Rightarrow>
    (fault + import_file_result list) \<times> candidate_table" where
  "import_files w workspace tenant batch now [] seen s = (Inr [], st_candidates s)"
| "import_files w workspace tenant batch now (f # fs) seen s =
     (let p = parse_markdown (vf_content f);
          skip = (\<lambda>r. case import_files w workspace tenant batch now fs seen s of (rs, t) \<Rightarrow> (map_sum id ((#) r) rs, t))
      in if js_trim (pm_body p) = [] then skip (other_result f File_unchanged Empty_body)
         else (case detect_collision w (pm_body p) s seen of
                 Inl e \<Rightarrow> (Inl e, st_candidates s)
               | Inr c \<Rightarrow>
                   if has_collision c then skip (other_result f File_unchanged (Collides c))
                   else (let x = vault_candidate w workspace tenant now f p
                         in case candidate_insert (w_scan w) (w_sha256 w) (st_audits s) (cl_hash c) (Some batch) x (st_candidates s) of
                              Inl e \<Rightarrow> skip (other_result f File_error (Insert_failed e))
                            | Inr t1 \<Rightarrow>
                                (case import_files w workspace tenant batch now fs (cl_hash c # seen) (s\<lparr>st_candidates := t1\<rparr>) of
                                   (rs, t) \<Rightarrow> (map_sum id ((#) (created_result f (Some (cand_id x)))) rs, t)))))"

record import_execution =
  ix_batch :: string
  ix_files :: nat
  ix_created :: nat
  ix_rejected :: nat
  ix_skipped :: nat
  ix_results :: "import_file_result list"

definition import_batch_row :: "string \<Rightarrow> tenant_id \<Rightarrow> string \<Rightarrow> iso_datetime \<Rightarrow> import_batch" where
  "import_batch_row batch tenant path now =
     \<lparr>ib_id = batch, ib_tenant = tenant, ib_source_path = Some path, ib_files = 0, ib_created = 0, ib_rejected = 0,
      ib_skipped = 0, ib_status = Batch_active, ib_created_at = now, ib_rolled_back_at = None\<rparr>"

definition execute_import ::
  "world \<Rightarrow> string \<Rightarrow> string \<Rightarrow> tenant_id \<Rightarrow> string \<Rightarrow> iso_datetime \<Rightarrow> vault_file list \<Rightarrow> intake_db \<Rightarrow>
    (fault + import_execution) \<times> intake_db" where
  "execute_import w path workspace tenant batch now fs d =
     (case batch_insert (import_batch_row batch tenant path now) (id_batches d) of
        Inl e \<Rightarrow> (Inl e, d)
      | Inr b \<Rightarrow>
          (case import_files w workspace tenant batch now fs [] (id_store d) of
             (Inl e, t) \<Rightarrow> (Inl e, \<lparr>id_store = (id_store d)\<lparr>st_candidates := t\<rparr>, id_batches = b\<rparr>)
           | (Inr rs, t) \<Rightarrow>
               let cr = count_status File_created rs; re = count_status File_error rs; sk = count_status File_unchanged rs
               in (Inr \<lparr>ix_batch = batch, ix_files = length fs, ix_created = cr, ix_rejected = re, ix_skipped = sk, ix_results = rs\<rparr>,
                   \<lparr>id_store = (id_store d)\<lparr>st_candidates := t\<rparr>,
                    id_batches = snd (complete_batch batch (snd (update_counts batch (length fs) cr re sk b)))\<rparr>)))"

section \<open>Rollback\<close>

datatype rollback_refusal = Batch_not_found string | Batch_already_rolled_back string

record rollback_result =
  rb_batch :: string
  rb_candidates :: nat
  rb_links :: nat

definition rollback_import ::
  "string \<Rightarrow> bool \<Rightarrow> iso_datetime \<Rightarrow> intake_db \<Rightarrow> rollback_refusal + rollback_result \<times> intake_db" where
  "rollback_import batch with_links now d =
     (case find_batch batch (id_batches d) of
        None \<Rightarrow> Inl (Batch_not_found batch)
      | Some b \<Rightarrow>
          if ib_status b = Batch_rolled_back then Inl (Batch_already_rolled_back batch)
          else
            let (n, t) = delete_by_batch batch (st_candidates (id_store d));
                (k, ls) = (if with_links then delete_links_by_batch batch (st_links (id_store d)) else (0, st_links (id_store d)))
            in Inr (\<lparr>rb_batch = batch, rb_candidates = n, rb_links = k\<rparr>,
                    \<lparr>id_store = (id_store d)\<lparr>st_candidates := t, st_links := ls\<rparr>,
                     id_batches = snd (rollback_batch batch now (id_batches d))\<rparr>))"

end
