(* ===== verification/Vault_Laws.thy ===== *)
theory Vault_Laws
  imports Vault_Import Promoter_Laws
begin

text \<open>
  What a vault import guarantees: the preview predicts it, the rollback undoes it, and what an object that
  no schema has parsed can do to the inbox.
\<close>

section \<open>The rows an import adds\<close>

lemma insert_appends:
  "candidate_insert scan H audits h b c t = Inr t' \<Longrightarrow> t' = t @ [candidate_to_row c h b]"
  by (auto simp: candidate_insert_def and_then_Inr split: if_splits)

lemma import_files_rows:
  assumes "import_files w workspace tenant batch now fs seen s = (rs, t)"
  shows "\<exists>new. t = st_candidates s @ new
    \<and> (\<forall>r \<in> set new. kr_import_batch_id r = Some batch \<and> kr_tenant_id r = tenant \<and> kr_status r = ''inbox'')
    \<and> (\<forall>xs. rs = Inr xs \<longrightarrow> count_status File_created xs = length new \<and> length xs = length fs)"
  using assms
proof (induction fs arbitrary: seen s rs t)
  case Nil
  then show ?case by (auto simp: count_status_def)
next
  case (Cons f fs)
  let ?p = "parse_markdown (vf_content f)"
  let ?x = "vault_candidate w workspace tenant now f ?p"
  have skip: ?case
    if run: "import_files w workspace tenant batch now fs seen s = (rs', t)" "rs = map_sum id ((#) r) rs'" "fr_status r \<noteq> File_created" for r rs'
    using Cons.IH [OF run(1)] run(2,3) by (cases rs') (auto simp: count_status_def)
  show ?case
  proof (cases "js_trim (pm_body ?p) = []")
    case True
    then show ?thesis using Cons.prems skip by (auto simp: Let_def other_result_def split: prod.splits)
  next
    case body: False
    show ?thesis
    proof (cases "detect_collision w (pm_body ?p) s seen")
      case (Inl e)
      then show ?thesis using Cons.prems body by (auto simp: Let_def)
    next
      case (Inr c)
      show ?thesis
      proof (cases "has_collision c")
        case True
        then show ?thesis using Cons.prems body Inr skip by (auto simp: Let_def other_result_def split: prod.splits)
      next
        case fresh: False
        show ?thesis
        proof (cases "candidate_insert (w_scan w) (w_sha256 w) (st_audits s) (cl_hash c) (Some batch) ?x (st_candidates s)")
          case (Inl e)
          then show ?thesis using Cons.prems body Inr fresh skip by (auto simp: Let_def other_result_def split: prod.splits)
        next
          case ins: (Inr t1)
          obtain rs' where run: "import_files w workspace tenant batch now fs (cl_hash c # seen) (s\<lparr>st_candidates := t1\<rparr>) = (rs', t)"
              "rs = map_sum id ((#) (created_result f (Some (cand_id ?x)))) rs'"
            using Cons.prems body Inr fresh ins by (auto simp: Let_def split: prod.splits)
          have t1: "t1 = st_candidates s @ [candidate_to_row ?x (cl_hash c) (Some batch)]" by (rule insert_appends [OF ins])
          obtain new where new: "t = t1 @ new"
              "\<forall>r \<in> set new. kr_import_batch_id r = Some batch \<and> kr_tenant_id r = tenant \<and> kr_status r = ''inbox''"
              "\<forall>xs. rs' = Inr xs \<longrightarrow> count_status File_created xs = length new \<and> length xs = length fs"
            using Cons.IH [OF run(1)] by auto
          show ?thesis
          proof (intro exI [of _ "candidate_to_row ?x (cl_hash c) (Some batch) # new"] conjI)
            show "t = st_candidates s @ candidate_to_row ?x (cl_hash c) (Some batch) # new" using new(1) t1 by simp
            show "\<forall>r \<in> set (candidate_to_row ?x (cl_hash c) (Some batch) # new).
                kr_import_batch_id r = Some batch \<and> kr_tenant_id r = tenant \<and> kr_status r = ''inbox''"
              using new(2) by (simp add: candidate_to_row_def vault_candidate_def)
            show "\<forall>xs. rs = Inr xs \<longrightarrow> count_status File_created xs = length (candidate_to_row ?x (cl_hash c) (Some batch) # new)
                \<and> length xs = length (f # fs)"
              using new(3) run(2) by (cases rs') (auto simp: count_status_def created_result_def)
          qed
        qed
      qed
    qed
  qed
qed

section \<open>The preview predicts the import\<close>

definition shown :: "import_file_result \<Rightarrow> import_file_result" where
  "shown r = r\<lparr>fr_candidate := None\<rparr>"

lemma shown_other: "shown (other_result f st r) = other_result f st r"
  by (simp add: shown_def other_result_def)

lemma shown_created: "shown (created_result f i) = created_result f None"
  by (simp add: shown_def created_result_def)

lemma shown_status [simp]: "fr_status (shown r) = fr_status r"
  by (simp add: shown_def)

lemma find_append_none: "\<forall>r \<in> set ext. \<not> P r \<Longrightarrow> find P (t @ ext) = find P t"
  by (induction t) (auto simp: find_None_iff)

lemma find_snoc: "find P t = None \<Longrightarrow> P r \<Longrightarrow> find P (t @ [r]) = Some r"
  by (induction t) (auto split: if_splits)

lemma detect_same:
  assumes "\<forall>r \<in> set ext. kr_content_hash r \<in> set seen"
  shows "detect_collision w body (s\<lparr>st_candidates := st_candidates s @ ext\<rparr>) seen = detect_collision w body s seen"
proof (cases "w_sha256 w body \<in> set seen")
  case False
  then have "find (\<lambda>r. kr_content_hash r = w_sha256 w body) (st_candidates s @ ext)
      = find (\<lambda>r. kr_content_hash r = w_sha256 w body) (st_candidates s)"
    using assms by (intro find_append_none) auto
  then show ?thesis using False by (simp add: detect_collision_def Let_def find_candidate_by_hash_def first_candidate_where_def)
qed (simp add: detect_collision_def Let_def)

lemma detected_hash: "detect_collision w body s seen = Inr c \<Longrightarrow> cl_hash c = w_sha256 w body"
  by (auto simp: detect_collision_def Let_def and_then_Inr split: if_splits option.splits)

lemma preview_goes_along:
  assumes "import_files w workspace tenant batch now fs seen (s\<lparr>st_candidates := st_candidates s @ ext\<rparr>) = (Inr rs, t)"
    "\<forall>r \<in> set rs. fr_status r \<noteq> File_error" "\<forall>r \<in> set ext. kr_content_hash r \<in> set seen"
  shows "\<exists>ps. preview_files w s fs seen = Inr ps \<and> map shown rs = ps"
  using assms
proof (induction fs arbitrary: seen ext rs t)
  case Nil
  then show ?case by simp
next
  case (Cons f fs)
  let ?p = "parse_markdown (vf_content f)"
  let ?x = "vault_candidate w workspace tenant now f ?p"
  let ?s = "s\<lparr>st_candidates := st_candidates s @ ext\<rparr>"
  note same = detect_same [OF Cons.prems(3)]
  have skip: "\<exists>ps. preview_files w s fs seen = Inr ps \<and> rs = r # tl rs \<and> map shown (tl rs) = ps"
    if run: "import_files w workspace tenant batch now fs seen ?s = (rs', t)" "Inr rs = map_sum id ((#) r) rs'" for r rs'
  proof -
    obtain ys where ys: "rs' = Inr ys" "rs = r # ys" using run(2) by (cases rs') auto
    then show ?thesis using Cons.IH [of seen ext ys t] run(1) Cons.prems by simp
  qed
  show ?case
  proof (cases "js_trim (pm_body ?p) = []")
    case True
    then obtain rs' where "import_files w workspace tenant batch now fs seen ?s = (rs', t)"
        "Inr rs = map_sum id ((#) (other_result f File_unchanged Empty_body)) rs'"
      using Cons.prems(1) by (auto simp: Let_def split: prod.splits)
    from skip [OF this] obtain ps where ps: "preview_files w s fs seen = Inr ps" "rs = other_result f File_unchanged Empty_body # tl rs"
        "map shown (tl rs) = ps" by blast
    then have "map shown rs = other_result f File_unchanged Empty_body # ps"
      by (metis list.simps(9) shown_other)
    then show ?thesis using ps(1) True by (simp add: Let_def)
  next
    case body: False
    obtain c where c: "detect_collision w (pm_body ?p) ?s seen = Inr c"
      using Cons.prems(1) body by (auto simp: Let_def split: sum.splits)
    show ?thesis
    proof (cases "has_collision c")
      case True
      then obtain rs' where "import_files w workspace tenant batch now fs seen ?s = (rs', t)"
          "Inr rs = map_sum id ((#) (other_result f File_unchanged (Collides c))) rs'"
        using Cons.prems(1) body c by (auto simp: Let_def split: prod.splits)
      from skip [OF this] obtain ps where ps: "preview_files w s fs seen = Inr ps" "rs = other_result f File_unchanged (Collides c) # tl rs"
          "map shown (tl rs) = ps" by blast
      then have "map shown rs = other_result f File_unchanged (Collides c) # ps"
        by (metis list.simps(9) shown_other)
      then show ?thesis using ps(1) True body c same by (simp add: Let_def)
    next
      case fresh: False
      show ?thesis
      proof (cases "candidate_insert (w_scan w) (w_sha256 w) (st_audits ?s) (cl_hash c) (Some batch) ?x (st_candidates ?s)")
        case (Inl e)
        then obtain rs' where "import_files w workspace tenant batch now fs seen ?s = (rs', t)"
            "Inr rs = map_sum id ((#) (other_result f File_error (Insert_failed e))) rs'"
          using Cons.prems(1) body c fresh by (auto simp: Let_def split: prod.splits)
        from skip [OF this] have "other_result f File_error (Insert_failed e) \<in> set rs" by (metis list.set_intros(1))
        then show ?thesis using Cons.prems(2) by (force simp: other_result_def)
      next
        case ins: (Inr t1)
        obtain rs' where run: "import_files w workspace tenant batch now fs (cl_hash c # seen) (?s\<lparr>st_candidates := t1\<rparr>) = (rs', t)"
            "Inr rs = map_sum id ((#) (created_result f (Some (cand_id ?x)))) rs'"
          using Cons.prems(1) body c fresh ins by (auto simp: Let_def split: prod.splits)
        obtain ys where ys: "rs' = Inr ys" "rs = created_result f (Some (cand_id ?x)) # ys" using run(2) by (cases rs') auto
        let ?ext = "ext @ [candidate_to_row ?x (cl_hash c) (Some batch)]"
        have "t1 = st_candidates s @ ?ext" using insert_appends [OF ins] by simp
        then have "import_files w workspace tenant batch now fs (cl_hash c # seen) (s\<lparr>st_candidates := st_candidates s @ ?ext\<rparr>) = (Inr ys, t)"
          using run(1) ys(1) by simp
        then have "\<exists>ps. preview_files w s fs (cl_hash c # seen) = Inr ps \<and> map shown ys = ps"
          using Cons.prems(2,3) ys(2) by (intro Cons.IH) (auto simp: candidate_to_row_def)
        then show ?thesis using body c fresh same ys(2) by (auto simp: Let_def shown_created)
      qed
    qed
  qed
qed

lemma import_ends:
  assumes "execute_import w path workspace tenant batch now fs d = (Inr res, d')"
  shows "find_batch batch (id_batches d) = None
    \<and> (\<exists>t. import_files w workspace tenant batch now fs [] (id_store d) = (Inr (ix_results res), t)
        \<and> id_store d' = (id_store d)\<lparr>st_candidates := t\<rparr>)
    \<and> ix_batch res = batch \<and> ix_files res = length fs
    \<and> ix_created res = count_status File_created (ix_results res)
    \<and> ix_rejected res = count_status File_error (ix_results res)
    \<and> ix_skipped res = count_status File_unchanged (ix_results res)
    \<and> find_batch batch (id_batches d') = Some ((import_batch_row batch tenant path now)\<lparr>ib_files := length fs,
         ib_created := ix_created res, ib_rejected := ix_rejected res, ib_skipped := ix_skipped res,
         ib_status := Batch_completed\<rparr>)"
proof -
  obtain b where b: "batch_insert (import_batch_row batch tenant path now) (id_batches d) = Inr b"
    using assms by (auto simp: execute_import_def split: sum.splits)
  then have new: "find_batch batch (id_batches d) = None" and
      b_eq: "b = id_batches d @ [import_batch_row batch tenant path now]"
    unfolding find_batch_None by (auto simp: batch_insert_def import_batch_row_def split: if_splits)
  obtain rs t where run: "import_files w workspace tenant batch now fs [] (id_store d) = (Inr rs, t)"
    using assms b by (auto simp: execute_import_def split: sum.splits prod.splits)
  have res: "res = \<lparr>ix_batch = batch, ix_files = length fs, ix_created = count_status File_created rs,
        ix_rejected = count_status File_error rs, ix_skipped = count_status File_unchanged rs, ix_results = rs\<rparr>"
    and d': "d' = \<lparr>id_store = (id_store d)\<lparr>st_candidates := t\<rparr>,
        id_batches = snd (complete_batch batch (snd (update_counts batch (length fs) (ix_created res) (ix_rejected res) (ix_skipped res) b)))\<rparr>"
    using assms b run by (auto simp: execute_import_def Let_def)
  have "find_batch batch b = Some (import_batch_row batch tenant path now)"
    using new b_eq by (simp add: find_batch_snoc import_batch_row_def)
  then show ?thesis using new run res d' by (simp add: import_batch_row_def)
qed

text \<open>
  C29. The preview predicts the import. When a vault import ends and no insert was refused, the preview of
  the same files over the database before it, which writes nothing, gives the same verdict for every file
  in the same order, the new identifier aside, and announces exactly the numbers of files the import
  created and skipped.
\<close>

theorem preview_predicts_import:
  assumes "execute_import w path workspace tenant batch now fs d = (Inr res, d')" "ix_rejected res = 0"
  shows "\<exists>p. preview_import w fs (id_store d) = Inr p \<and> ip_results p = map shown (ix_results res)
    \<and> ip_files p = ix_files res \<and> ip_would_create p = ix_created res \<and> ip_would_skip p = ix_skipped res"
proof -
  note e = import_ends [OF assms(1)]
  obtain t where run: "import_files w workspace tenant batch now fs [] ((id_store d)\<lparr>st_candidates := st_candidates (id_store d) @ []\<rparr>)
      = (Inr (ix_results res), t)" using e by auto
  have "\<forall>r \<in> set (ix_results res). fr_status r \<noteq> File_error"
    using e assms(2) by (auto simp: count_status_def filter_empty_conv)
  from preview_goes_along [OF run this] obtain ps
    where ps: "preview_files w (id_store d) fs [] = Inr ps" "map shown (ix_results res) = ps" by auto
  have counts: "count_status st (map shown rs) = count_status st rs" for st rs
    by (simp add: count_status_def filter_map comp_def)
  show ?thesis using ps(1) e unfolding ps(2) [symmetric] by (simp add: preview_import_def counts)
qed

section \<open>The rollback undoes the import\<close>

text \<open>
  C28. A rollback undoes the import. After an import that ends, over an inbox with no row of its batch, the
  rollback of that batch removes as many candidates as the import created and leaves the very rows the
  inbox held before; every file was created, refused or skipped; and a second rollback of the batch is
  refused as already done.
\<close>

theorem rollback_undoes_import:
  assumes run: "execute_import w path workspace tenant batch now fs d = (Inr res, d')"
    and new: "\<forall>r \<in> set (st_candidates (id_store d)). kr_import_batch_id r \<noteq> Some batch"
  shows "\<exists>rb d''. rollback_import batch deep later d' = Inr (rb, d'')
    \<and> rb_candidates rb = ix_created res \<and> st_candidates (id_store d'') = st_candidates (id_store d)
    \<and> ix_files res = ix_created res + ix_rejected res + ix_skipped res
    \<and> rollback_import batch deep2 later2 d'' = Inl (Batch_already_rolled_back batch)"
proof -
  note e = import_ends [OF run]
  obtain t where t: "import_files w workspace tenant batch now fs [] (id_store d) = (Inr (ix_results res), t)"
      "id_store d' = (id_store d)\<lparr>st_candidates := t\<rparr>" using e by blast
  obtain added where added: "t = st_candidates (id_store d) @ added" "\<forall>r \<in> set added. kr_import_batch_id r = Some batch"
      "length added = ix_created res" "length (ix_results res) = length fs"
    using import_files_rows [OF t(1)] e by auto
  have delete: "delete_by_batch batch t = (ix_created res, st_candidates (id_store d))"
    using added new by (simp add: delete_by_batch_def filter_empty_conv [THEN iffD2] filter_id_conv [THEN iffD2])
  have "length rs = count_status File_created rs + count_status File_error rs + count_status File_unchanged rs" for rs
  proof (induction rs)
    case (Cons r rs)
    then show ?case by (cases "fr_status r") (simp_all add: count_status_def)
  qed (simp add: count_status_def)
  then have total: "ix_files res = ix_created res + ix_rejected res + ix_skipped res" using e added(4) by metis
  obtain b where b: "find_batch batch (id_batches d') = Some b" "ib_status b = Batch_completed" using e by auto
  have "\<exists>rb d''. rollback_import batch deep later d' = Inr (rb, d'') \<and> rb_candidates rb = ix_created res
      \<and> st_candidates (id_store d'') = st_candidates (id_store d)
      \<and> id_batches d'' = snd (rollback_batch batch later (id_batches d'))"
    using b t(2) delete by (auto simp: rollback_import_def split: prod.splits)
  then obtain rb d'' where undone: "rollback_import batch deep later d' = Inr (rb, d'')" "rb_candidates rb = ix_created res"
      "st_candidates (id_store d'') = st_candidates (id_store d)"
      "id_batches d'' = snd (rollback_batch batch later (id_batches d'))" by blast
  have "rollback_import batch deep2 later2 d'' = Inl (Batch_already_rolled_back batch)"
    using b by (simp add: rollback_import_def undone(4))
  then show ?thesis using undone total by blast
qed

section \<open>An odd tag\<close>

lemma unreadable_candidate:
  assumes "\<not> metadata_check (cand_metadata c)" "cand_origin c = None"
  shows "row_to_candidate fmt (candidate_to_row c h b) = Inl (Row_not_domain (cand_id c))"
proof -
  have columns: "json_parse (json_stringify (author_json a)) = Some (author_json a)"
    "json_parse (json_stringify (metadata_json md)) = Some (metadata_json md)"
    "json_parse (json_stringify (flags_json fl)) = Some (flags_json fl)" for a md fl
    by (rule json_parse_stringify; simp)+
  show ?thesis
    using assms by (simp add: row_to_candidate_def json_column_def columns Let_def candidate_to_row_def domain_candidate_def
        read_metadata_written bind_eq_None_conv del: json_stringify.simps split: option.split)
qed

text \<open>
  C30. An odd tag poisons the vault. The objects of a vault import are not parsed, so a front matter tag that
  is not in kebab case is stored. The row it is stored in cannot be read back; and importing the same file
  again, instead of skipping it as a duplicate, throws out of the whole import, whatever files follow, and
  leaves the new batch active with counts of zero.
\<close>

theorem odd_tag_poisons_the_vault:
  assumes run: "execute_import w path workspace tenant batch now [f] d = (Inr res, d')" "ix_created res = 1"
    and odd: "\<not> list_all tag_shape (front_tags (parse_markdown (vf_content f)))"
    and fresh: "find_batch batch2 (id_batches d') = None"
  shows "\<exists>e d''. execute_import w path2 workspace2 tenant2 batch2 later (f # fs) d' = (Inl (Row_unreadable e), d'')
    \<and> find_batch batch2 (id_batches d'') = Some (import_batch_row batch2 tenant2 path2 later)
    \<and> id_store d'' = id_store d'"
proof -
  let ?p = "parse_markdown (vf_content f)"
  let ?x = "vault_candidate w workspace tenant now f ?p"
  let ?h = "w_sha256 w (pm_body ?p)"
  note e = import_ends [OF run(1)]
  obtain rs t where t: "import_files w workspace tenant batch now [f] [] (id_store d) = (Inr rs, t)"
      "id_store d' = (id_store d)\<lparr>st_candidates := t\<rparr>" and one: "count_status File_created rs = 1"
    using e run(2) by metis
  have body: "js_trim (pm_body ?p) \<noteq> []"
    using t(1) one by (auto simp: Let_def other_result_def count_status_def)
  then obtain c where c: "detect_collision w (pm_body ?p) (id_store d) [] = Inr c" "\<not> has_collision c"
    using t(1) one by (auto simp: Let_def other_result_def count_status_def split: sum.splits if_splits)
  have t_eq: "t = st_candidates (id_store d) @ [candidate_to_row ?x ?h (Some batch)]"
    using t(1) one body c insert_appends [of "w_scan w" "w_sha256 w" "st_audits (id_store d)" "cl_hash c" "Some batch" ?x]
    by (auto simp: Let_def other_result_def count_status_def detected_hash split: sum.splits prod.splits)
  have quiet: "find_by_content_hash (w_formats w) ?h (st_memories (id_store d)) = Inr None"
      "find (\<lambda>r. kr_content_hash r = ?h) (st_candidates (id_store d)) = None"
    using c by (auto simp: detect_collision_def Let_def and_then_Inr has_collision_def find_candidate_by_hash_def
        first_candidate_where_def split: option.splits)
  have "find (\<lambda>r. kr_content_hash r = ?h) t = Some (candidate_to_row ?x ?h (Some batch))"
    unfolding t_eq by (rule find_snoc [OF quiet(2)]) (simp add: candidate_to_row_def)
  moreover have "row_to_candidate (w_formats w) (candidate_to_row ?x ?h (Some batch)) = Inl (Row_not_domain (cand_id ?x))"
    using odd by (intro unreadable_candidate) (simp_all add: vault_candidate_def metadata_check_def)
  ultimately have "detect_collision w (pm_body ?p) (id_store d') [] = Inl (Row_unreadable (Row_not_domain (cand_id ?x)))"
    using quiet(1) by (simp add: detect_collision_def Let_def t(2) find_candidate_by_hash_def first_candidate_where_def read_candidate_def)
  then show ?thesis
    using body fresh unfolding find_batch_None
    by (auto simp: execute_import_def batch_insert_def import_batch_row_def Let_def t(2) find_batch_snoc find_batch_None [THEN iffD2])
qed

section \<open>A small vault\<close>

text \<open>A page whose only tag is written the way people write tags.\<close>

definition small_page :: vault_file where
  "small_page = \<lparr>vf_absolute = ''/v/a.md'', vf_relative = ''a.md'',
     vf_content = ''---'' @ [CHR 0x0A] @ ''tags: [To Do]'' @ [CHR 0x0A] @ ''---'' @ [CHR 0x0A] @ ''A page''\<rparr>"

definition empty_intake :: intake_db where
  "empty_intake = \<lparr>id_store = empty_state, id_batches = []\<rparr>"

lemma small_page_parts:
  "js_trim (pm_body (parse_markdown (vf_content small_page))) = ''A page''"
  "front_tags (parse_markdown (vf_content small_page)) = [''To Do'']"
  "front_category (parse_markdown (vf_content small_page)) = Reference"
  by code_simp+

lemma small_import:
  "\<exists>res d'. execute_import plain_world ''/v'' ''v'' ''team'' ''b1'' ''t1'' [small_page] empty_intake = (Inr res, d')
     \<and> ix_created res = 1 \<and> ix_rejected res = 0 \<and> map ib_id (id_batches d') = [''b1'']"
proof -
  let ?p = "parse_markdown (vf_content small_page)"
  let ?x = "vault_candidate plain_world ''v'' ''team'' ''t1'' small_page ?p"
  have clean: "assert_disclosure_clean (w_scan plain_world) ?x = Inr ()"
    using disclosure_clean_iff [of "w_scan plain_world" ?x] by (simp add: plain_world_def)
  have vocab: "assert_enum_membership (w_scan plain_world) ?x = Inr ()"
    using source_vocab.parse_name [of Import] trust_vocab.parse_name [of Trust_medium] status_vocab.parse_name [of Inbox]
      author_type_vocab.parse_name [of System]
    by (simp add: assert_enum_membership_def vault_candidate_def in_vocab_def category_vocab.parse_name)
  have none: "detect_collision plain_world (pm_body ?p) empty_state [] =
      Inr \<lparr>cl_hash = w_sha256 plain_world (pm_body ?p), cl_target = None, cl_matched_id = None, cl_matched_title = None\<rparr>"
    by (simp add: detect_collision_def Let_def empty_state_def find_by_content_hash_def first_memory_where_def
        find_candidate_by_hash_def first_candidate_where_def)
  have ins: "candidate_insert (w_scan plain_world) (w_sha256 plain_world) [] h b ?x [] = Inr [candidate_to_row ?x h b]" for h b
    unfolding candidate_insert_def clean vocab by (simp add: is_redacted_content_def)
  show ?thesis
    using small_page_parts(1) none ins
    by (simp add: execute_import_def batch_insert_def empty_intake_def import_batch_row_def has_collision_def Let_def
        empty_state_def created_result_def count_status_def update_counts_def complete_batch_def update_batch_def)
qed

theorem preview_predicts_import_witness:
  "\<exists>p. preview_import plain_world [small_page] empty_state = Inr p \<and> ip_would_create p = 1"
proof -
  obtain res d' where run: "execute_import plain_world ''/v'' ''v'' ''team'' ''b1'' ''t1'' [small_page] empty_intake = (Inr res, d')"
      "ix_created res = 1" "ix_rejected res = 0" using small_import by blast
  show ?thesis using preview_predicts_import [OF run(1,3)] run(2) by (auto simp: empty_intake_def)
qed

theorem rollback_undoes_import_witness:
  "\<exists>res d' rb d''. execute_import plain_world ''/v'' ''v'' ''team'' ''b1'' ''t1'' [small_page] empty_intake = (Inr res, d')
     \<and> rollback_import ''b1'' True ''t2'' d' = Inr (rb, d'') \<and> rb_candidates rb = 1 \<and> st_candidates (id_store d'') = []"
proof -
  obtain res d' where run: "execute_import plain_world ''/v'' ''v'' ''team'' ''b1'' ''t1'' [small_page] empty_intake = (Inr res, d')"
      "ix_created res = 1" using small_import by blast
  have none: "st_candidates (id_store empty_intake) = []" by (simp add: empty_intake_def empty_state_def)
  show ?thesis using rollback_undoes_import [OF run(1), of True "''t2''"] run none by fastforce
qed

theorem odd_tag_poisons_the_vault_witness:
  "\<exists>res d' e d''. execute_import plain_world ''/v'' ''v'' ''team'' ''b1'' ''t1'' [small_page] empty_intake = (Inr res, d')
     \<and> execute_import plain_world ''/v'' ''v'' ''team'' ''b2'' ''t2'' [small_page] d' = (Inl (Row_unreadable e), d'')"
proof -
  obtain res d' where run: "execute_import plain_world ''/v'' ''v'' ''team'' ''b1'' ''t1'' [small_page] empty_intake = (Inr res, d')"
      "ix_created res = 1" "map ib_id (id_batches d') = [''b1'']" using small_import by auto
  have odd: "\<not> list_all tag_shape (front_tags (parse_markdown (vf_content small_page)))"
    unfolding small_page_parts by code_simp
  have fresh: "find_batch ''b2'' (id_batches d') = None" unfolding find_batch_None run(3) by simp
  show ?thesis using odd_tag_poisons_the_vault [OF run(1,2) odd fresh, of "''/v''" "''v''" "''team''" "''t2''" "[]"] run(1) by blast
qed

end
