(* ===== verification/Search_Rank.thy ===== *)
theory Search_Rank
  imports Audience Regex Vault_Files
begin

text \<open>
  The ranking of search hits, \<open>packages/common/src/freshness.ts\<close> and \<open>rerank-policy.ts\<close>. Scores are exact
  rationals; the exponential decay of an age is the parameter \<open>decay\<close> (update time, now), of which only
  values from 0 to 1 are expected. The one negative look-ahead of the title pattern is written out.
\<close>

section \<open>The policy\<close>

definition lifecycle_factor :: "string option \<Rightarrow> rat" where
  "lifecycle_factor l =
     (if l = Some ''deprecated'' then 1 / 2
      else if l = Some ''archived'' \<or> l = Some ''superseded'' then 1 / 5 else 1)"

definition historical_record_factor :: rat where
  "historical_record_factor = 7 / 10"

text \<open>\<open>[\s-]+\<close>, \<open>[\s-]?\<close> and \<open>\s+\<close>; the texts are folded before the match.\<close>

definition rx_gap_char :: "char \<Rightarrow> bool" where
  "rx_gap_char c = (js_space c \<or> c = CHR ''-'')"

definition rx_gap :: rx where
  "rx_gap = RPlus (RChar rx_gap_char)"

definition rx_hyphen :: rx where
  "rx_hyphen = ROpt (RChar rx_gap_char)"

definition rx_blanks :: rx where
  "rx_blanks = RPlus (RChar js_space)"

definition historical_words :: rx where
  "historical_words = rx_alts
     [rx_lit ''aar'', rx_seqs [rx_lit ''after'', rx_gap, rx_lit ''action''], rx_seqs [rx_lit ''post'', rx_hyphen, rx_lit ''mortem''],
      rx_lit ''retrospective'', rx_seqs [rx_lit ''verification'', rx_blanks, rx_lit ''report''],
      rx_seqs [rx_lit ''status'', rx_blanks, rx_lit ''report''], rx_seqs [rx_lit ''hand'', rx_hyphen, rx_lit ''off''],
      rx_seqs [rx_lit ''session'', rx_blanks, rx_lit ''summary''], rx_lit ''changelog'',
      rx_seqs [rx_lit ''phase'', rx_blanks, RPlus (RChar rx_digit), rx_blanks, rx_lit ''report'']]"

definition audit_mechanism :: rx where
  "audit_mechanism = rx_seqs [rx_gap, rx_alts (map rx_lit [''log'', ''logs'', ''trail'', ''chain'', ''event'', ''events'', ''verify''])]"

text \<open>Where a match that starts here may end: \<open>audit\<close> counts when no mechanism follows it.\<close>

definition historical_ends :: "string \<Rightarrow> nat \<Rightarrow> nat list" where
  "historical_ends s i =
     rx_ends historical_words s i @ filter (\<lambda>j. rx_ends audit_mechanism s j = []) (rx_ends (rx_lit ''audit'') s i)"

definition is_historical_record_title :: "string option \<Rightarrow> bool" where
  "is_historical_record_title t =
     (case t of
        None \<Rightarrow> False
      | Some u \<Rightarrow>
          let s = js_lower u
          in list_ex (\<lambda>i. rx_ends RWordB s i \<noteq> [] \<and> list_ex (\<lambda>j. rx_ends RWordB s j \<noteq> []) (historical_ends s i))
               [0..<Suc (length s)])"

definition history_intent_pattern :: rx where
  "history_intent_pattern = rx_seqs [RWordB, rx_alts
     [rx_lit ''history'', rx_lit ''historical'', rx_lit ''aar'', rx_seqs [rx_lit ''post'', rx_hyphen, rx_lit ''mortem''],
      rx_seqs [rx_lit ''what'', rx_blanks, rx_lit ''happened''], rx_lit ''changelog'', rx_seqs [rx_lit ''lesson'', ROpt (rx_lit ''s'')],
      rx_lit ''retrospective'', rx_seqs [rx_lit ''why'', rx_blanks, rx_lit ''did'', rx_blanks, rx_lit ''we''], rx_lit ''timeline''], RWordB]"

definition has_history_intent :: "string option \<Rightarrow> bool" where
  "has_history_intent q = (case q of None \<Rightarrow> False | Some u \<Rightarrow> rx_test history_intent_pattern (js_lower u))"

text \<open>The product of the two factors.\<close>

definition policy_factor :: "string option \<Rightarrow> string option \<Rightarrow> string option \<Rightarrow> rat" where
  "policy_factor title lifecycle query =
     lifecycle_factor lifecycle
     * (if query \<noteq> None \<and> \<not> has_history_intent query \<and> is_historical_record_title title then historical_record_factor else 1)"

section \<open>Freshness\<close>

definition freshness_floor :: rat where
  "freshness_floor = 4 / 5"

definition freshness_factor :: "rat \<Rightarrow> rat" where
  "freshness_factor d = freshness_floor + (1 - freshness_floor) * d"

definition category_boost :: "string \<Rightarrow> rat" where
  "category_boost c =
     (case map_of [(''decision'', 6 / 5), (''architecture'', 23 / 20), (''convention'', 11 / 10), (''pattern'', 11 / 10),
        (''troubleshooting'', 1), (''onboarding'', 19 / 20), (''reference'', 9 / 10)] c of
        Some b \<Rightarrow> b | None \<Rightarrow> 1)"

record rank_input =
  ri_score :: rat
  ri_category :: string
  ri_updated_at :: iso_datetime
  ri_title :: "string option"
  ri_lifecycle :: "string option"

text \<open>\<open>Math.round(x * 1000) / 1000\<close>: halves go up.\<close>

definition round_milli :: "rat \<Rightarrow> rat" where
  "round_milli x = of_int \<lfloor>x * 1000 + 1 / 2\<rfloor> / 1000"

definition final_score :: "(iso_datetime \<Rightarrow> iso_datetime \<Rightarrow> rat) \<Rightarrow> iso_datetime \<Rightarrow> string option \<Rightarrow> rank_input \<Rightarrow> rat" where
  "final_score decay now query h =
     round_milli (ri_score h * freshness_factor (decay (ri_updated_at h) now) * category_boost (ri_category h)
       * policy_factor (ri_title h) (ri_lifecycle h) query)"

text \<open>\<open>rerankSearchHits\<close>: each hit with its score, a stable sort by falling score.\<close>

definition rerank :: "(iso_datetime \<Rightarrow> iso_datetime \<Rightarrow> rat) \<Rightarrow> iso_datetime \<Rightarrow> string option \<Rightarrow> ('h \<Rightarrow> rank_input) \<Rightarrow> 'h list \<Rightarrow> ('h \<times> rat) list" where
  "rerank decay now query inp hs =
     sort_key (\<lambda>p. - snd p) (map (\<lambda>h. (h, final_score decay now query (inp h))) hs)"

section \<open>Citations\<close>

definition citation_base :: "string \<Rightarrow> string" where
  "citation_base c = (case last_split (CHR ''/'') c of None \<Rightarrow> c | Some (_, b) \<Rightarrow> b)"

definition extract_memory_id :: "string \<Rightarrow> string option" where
  "extract_memory_id c = (let s = drop_extension (citation_base c) in if s = [] then None else Some s)"

definition is_search_visible_sensitivity :: "string \<Rightarrow> bool" where
  "is_search_visible_sensitivity s = (s \<notin> set [''confidential'', ''restricted''])"

record cited_hit =
  ch_file :: string
  ch_score :: rat
  ch_snippet :: string
  ch_collection :: string

record cited_metadata =
  cm_category :: string
  cm_updated_at :: iso_datetime
  cm_sensitivity :: string
  cm_audience :: "string option"
  cm_title :: string
  cm_lifecycle :: string

record enriched_hit =
  eh_hit :: cited_hit
  eh_memory :: "string option"
  eh_category :: string
  eh_updated_at :: iso_datetime
  eh_sensitivity :: string
  eh_audience :: string
  eh_title :: "string option"
  eh_lifecycle :: "string option"

definition enrich_hit :: "iso_datetime \<Rightarrow> cited_hit \<Rightarrow> cited_metadata option \<Rightarrow> enriched_hit" where
  "enrich_hit now h meta =
     (case meta of
        None \<Rightarrow> \<lparr>eh_hit = h, eh_memory = None, eh_category = [], eh_updated_at = now, eh_sensitivity = ''public'',
                 eh_audience = default_audience, eh_title = None, eh_lifecycle = None\<rparr>
      | Some m \<Rightarrow> \<lparr>eh_hit = h, eh_memory = extract_memory_id (ch_file h), eh_category = cm_category m,
                   eh_updated_at = cm_updated_at m, eh_sensitivity = cm_sensitivity m,
                   eh_audience = resolve_audience (cm_audience m), eh_title = Some (cm_title m), eh_lifecycle = Some (cm_lifecycle m)\<rparr>)"

definition enriched_input :: "enriched_hit \<Rightarrow> rank_input" where
  "enriched_input h = \<lparr>ri_score = ch_score (eh_hit h), ri_category = eh_category h, ri_updated_at = eh_updated_at h,
     ri_title = eh_title h, ri_lifecycle = eh_lifecycle h\<rparr>"

text \<open>\<open>rerankCitedHits\<close>; the resolution of an identifier may fail with the store's error.\<close>

fun enrich_hits :: "iso_datetime \<Rightarrow> (string \<Rightarrow> 'e + cited_metadata option) \<Rightarrow> cited_hit list \<Rightarrow> 'e + enriched_hit list" where
  "enrich_hits now resolve [] = Inr []"
| "enrich_hits now resolve (h # hs) =
     and_then (case extract_memory_id (ch_file h) of None \<Rightarrow> Inr None | Some i \<Rightarrow> resolve i) (\<lambda>meta.
     and_then (enrich_hits now resolve hs) (\<lambda>es. Inr (enrich_hit now h meta # es)))"

definition rerank_cited ::
  "(iso_datetime \<Rightarrow> iso_datetime \<Rightarrow> rat) \<Rightarrow> iso_datetime \<Rightarrow> string option \<Rightarrow> (string \<Rightarrow> 'e + cited_metadata option) \<Rightarrow>
    cited_hit list \<Rightarrow> 'e + (enriched_hit \<times> rat) list" where
  "rerank_cited decay now query resolve hs =
     and_then (enrich_hits now resolve hs) (\<lambda>es. Inr (rerank decay now query enriched_input es))"

section \<open>What the ranking does\<close>

lemma rerank_hits: "mset (map fst (rerank decay now query inp hs)) = mset hs"
  by (simp add: rerank_def multiset.map_comp comp_def)

lemma rerank_scores: "(h, f) \<in> set (rerank decay now query inp hs) \<Longrightarrow> h \<in> set hs \<and> f = final_score decay now query (inp h)"
  by (auto simp: rerank_def)

lemma rerank_sorted: "sorted (map (\<lambda>p. - snd p) (rerank decay now query inp hs))"
  by (simp add: rerank_def)

lemma length_rerank [simp]: "length (rerank decay now query inp hs) = length hs"
  by (simp add: rerank_def)

lemma factor_bounds:
  "0 \<le> d \<Longrightarrow> d \<le> 1 \<Longrightarrow> 4 / 5 \<le> freshness_factor d" "0 \<le> d \<Longrightarrow> d \<le> 1 \<Longrightarrow> freshness_factor d \<le> 1"
  "9 / 10 \<le> category_boost c" "category_boost c \<le> 6 / 5"
  "7 / 50 \<le> policy_factor t l q" "policy_factor t l q \<le> 1"
  by (simp_all add: freshness_factor_def freshness_floor_def category_boost_def policy_factor_def lifecycle_factor_def
      historical_record_factor_def field_simps)

lemma round_milli_mono: "x \<le> y \<Longrightarrow> round_milli x \<le> round_milli y"
  by (simp add: round_milli_def divide_right_mono floor_mono)

text \<open>Titles as the pattern reads them.\<close>

lemma historical_titles:
  "is_historical_record_title (Some ''2026-06 AAR: outage'')" "is_historical_record_title (Some ''Security audit'')"
  "\<not> is_historical_record_title (Some ''Audit log format'')" "\<not> is_historical_record_title (Some ''Audits'')"
  "is_historical_record_title (Some ''Phase 12 report'')" "\<not> is_historical_record_title None"
  by code_simp+

lemma history_queries:
  "has_history_intent (Some ''what  happened in May'')" "\<not> has_history_intent (Some ''deploy steps'')"
  "has_history_intent (Some ''Lessons'')"
  by code_simp+

end
