(* ===== verification/Token_Registry.thy ===== *)
theory Token_Registry
  imports Record_Codec Uuid
begin

text \<open>
  Bearer tokens and the identities they grant, \<open>apps/api/src/auth/token-registry.ts\<close>: the records of
  the token file, the registry that holds only salted hashes, revocation of one token and of all tokens of
  an actor, and the durable list of revoked actors. scrypt is the parameter \<open>kdf\<close> (secret, salt, length),
  the fresh salt of the record at a position is \<open>salts\<close>, and \<open>Date.parse\<close> is \<open>date_ms\<close>. A file is the text
  read from it, absent when the read fails.
\<close>

section \<open>Records\<close>

datatype token_role = Role_admin | Role_member

fun token_role_name :: "token_role \<Rightarrow> string" where
  "token_role_name Role_admin = ''admin''"
| "token_role_name Role_member = ''member''"

record token_identity =
  ti_actor :: string
  ti_role :: token_role
  ti_tenants :: "string list option"
  ti_owner :: bool
  ti_agent :: bool

record token_record =
  tk_token :: string
  tk_actor :: string
  tk_role :: token_role
  tk_tenants :: "string list option"
  tk_owner :: bool
  tk_agent :: bool
  tk_expires :: "string option"

type_synonym kdf = "string \<Rightarrow> byte list \<Rightarrow> nat \<Rightarrow> byte list"

section \<open>Hashes\<close>

text \<open>\<open>s.split(sep)\<close>.\<close>

fun js_split :: "char \<Rightarrow> string \<Rightarrow> string list" where
  "js_split d [] = [[]]"
| "js_split d (c # cs) =
     (if c = d then [] # js_split d cs
      else (case js_split d cs of p # ps \<Rightarrow> (c # p) # ps | [] \<Rightarrow> [[c]]))"

definition scrypt_keylen :: nat where
  "scrypt_keylen = 32"

definition hash_token :: "kdf \<Rightarrow> byte list \<Rightarrow> string \<Rightarrow> string" where
  "hash_token kdf salt plain =
     ''scrypt$'' @ buffer_to_hex salt @ ''$'' @ buffer_to_hex (kdf plain salt scrypt_keylen)"

definition parse_stored_hash :: "string \<Rightarrow> (byte list \<times> byte list) option" where
  "parse_stored_hash stored =
     (case js_split (CHR ''$'') stored of
        [scheme, s, h] \<Rightarrow>
          let salt = buffer_from_hex s; hash = buffer_from_hex h
          in if scheme \<noteq> ''scrypt'' \<or> salt = [] \<or> hash = [] then None else Some (salt, hash)
      | _ \<Rightarrow> None)"

section \<open>The registry\<close>

record hashed_record =
  hr_salt :: "byte list"
  hr_hash :: "byte list"
  hr_identity :: token_identity
  hr_expires :: "int option"
  hr_revoked :: bool

type_synonym registry = "hashed_record list"

definition record_identity :: "token_record \<Rightarrow> token_identity" where
  "record_identity r =
     \<lparr>ti_actor = tk_actor r, ti_role = tk_role r,
      ti_tenants = (case tk_tenants r of Some (t # ts) \<Rightarrow> Some (t # ts) | _ \<Rightarrow> None),
      ti_owner = (tk_owner r \<and> tk_role r = Role_admin), ti_agent = tk_agent r\<rparr>"

text \<open>A record at a position; \<open>None\<close> is the internal error of a hash that does not parse.\<close>

definition hash_record :: "kdf \<Rightarrow> (string \<Rightarrow> int option) \<Rightarrow> byte list \<Rightarrow> token_record \<Rightarrow> hashed_record option" where
  "hash_record kdf date_ms salt r =
     map_option (\<lambda>(s, h). \<lparr>hr_salt = s, hr_hash = h, hr_identity = record_identity r,
         hr_expires = Option.bind (tk_expires r) date_ms, hr_revoked = False\<rparr>)
       (case parse_stored_hash (tk_token r) of
          Some p \<Rightarrow> Some p
        | None \<Rightarrow> parse_stored_hash (hash_token kdf salt (tk_token r)))"

fun hash_records :: "kdf \<Rightarrow> (string \<Rightarrow> int option) \<Rightarrow> (nat \<Rightarrow> byte list) \<Rightarrow> nat \<Rightarrow> token_record list \<Rightarrow> registry option" where
  "hash_records kdf date_ms salts i [] = Some []"
| "hash_records kdf date_ms salts i (r # rs) =
     Option.bind (hash_record kdf date_ms (salts i) r) (\<lambda>h.
     Option.bind (hash_records kdf date_ms salts (Suc i) rs) (\<lambda>hs. Some (h # hs)))"

definition new_registry ::
  "kdf \<Rightarrow> (string \<Rightarrow> int option) \<Rightarrow> (nat \<Rightarrow> byte list) \<Rightarrow> token_record list \<Rightarrow> string list \<Rightarrow> registry option" where
  "new_registry kdf date_ms salts rs banned =
     map_option (map (\<lambda>h. if ti_actor (hr_identity h) \<in> set banned then h\<lparr>hr_revoked := True\<rparr> else h))
       (hash_records kdf date_ms salts 0 rs)"

definition registry_is_empty :: "registry \<Rightarrow> bool" where
  "registry_is_empty rg = (rg = [])"

definition token_matches :: "kdf \<Rightarrow> string \<Rightarrow> hashed_record \<Rightarrow> bool" where
  "token_matches kdf token h = (hr_hash h = kdf token (hr_salt h) (length (hr_hash h)))"

definition token_live :: "int \<Rightarrow> hashed_record \<Rightarrow> bool" where
  "token_live now h = (\<not> hr_revoked h \<and> (case hr_expires h of None \<Rightarrow> True | Some e \<Rightarrow> now < e))"

text \<open>The loop does not stop at a match, so the last live match is the answer.\<close>

definition resolve_token :: "kdf \<Rightarrow> int \<Rightarrow> string \<Rightarrow> registry \<Rightarrow> token_identity option" where
  "resolve_token kdf now token rg =
     foldl (\<lambda>found h. if token_matches kdf token h \<and> token_live now h then Some (hr_identity h) else found) None rg"

definition revoke_token :: "kdf \<Rightarrow> string \<Rightarrow> registry \<Rightarrow> bool \<times> registry" where
  "revoke_token kdf token rg =
     (list_ex (\<lambda>h. \<not> hr_revoked h \<and> token_matches kdf token h) rg,
      map (\<lambda>h. if \<not> hr_revoked h \<and> token_matches kdf token h then h\<lparr>hr_revoked := True\<rparr> else h) rg)"

definition revoke_by_actor :: "string \<Rightarrow> registry \<Rightarrow> nat \<times> registry" where
  "revoke_by_actor actor rg =
     (length (filter (\<lambda>h. \<not> hr_revoked h \<and> ti_actor (hr_identity h) = actor) rg),
      map (\<lambda>h. if \<not> hr_revoked h \<and> ti_actor (hr_identity h) = actor then h\<lparr>hr_revoked := True\<rparr> else h) rg)"

section \<open>Loading records\<close>

definition filled_string :: "jval option \<Rightarrow> string option" where
  "filled_string v = (case v of Some (JStr s) \<Rightarrow> if s = [] then None else Some s | _ \<Rightarrow> None)"

definition parse_tenants :: "jval option \<Rightarrow> string list option" where
  "parse_tenants v =
     (case v of
        Some (JArr vs) \<Rightarrow> let ts = filter (\<lambda>t. t \<noteq> []) (jstrings vs) in if ts = [] then None else Some ts
      | _ \<Rightarrow> None)"

definition parse_expiry :: "jval option \<Rightarrow> string option" where
  "parse_expiry v = filled_string v"

text \<open>
  One item of the file; \<open>None\<close> is \<open>continue\<close>. An array is an object too, and has none of the properties.
\<close>

definition parse_token_record :: "(string \<Rightarrow> int option) \<Rightarrow> int \<Rightarrow> jval \<Rightarrow> token_record option" where
  "parse_token_record date_ms now v =
     (case (filled_string (jget v ''token''), filled_string (jget v ''actor'')) of
        (Some token, Some actor) \<Rightarrow>
          let role = (if jget v ''role'' = Some (JStr ''admin'') then Role_admin else Role_member);
              expires = parse_expiry (jget v ''expiresAt'')
          in if (case expires of
                   None \<Rightarrow> False
                 | Some e \<Rightarrow> (case date_ms e of None \<Rightarrow> True | Some ms \<Rightarrow> ms \<le> now)) then None
             else Some \<lparr>tk_token = token, tk_actor = actor, tk_role = role, tk_tenants = parse_tenants (jget v ''tenants''),
                     tk_owner = (jget v ''owner'' = Some (JBool True) \<and> role = Role_admin),
                     tk_agent = (jget v ''agent'' = Some (JBool True)), tk_expires = expires\<rparr>
      | _ \<Rightarrow> None)"

definition parse_token_records :: "(string \<Rightarrow> int option) \<Rightarrow> int \<Rightarrow> string \<Rightarrow> token_record list" where
  "parse_token_records date_ms now raw =
     (case json_parse raw of Some (JArr vs) \<Rightarrow> List.map_filter (parse_token_record date_ms now) vs | _ \<Rightarrow> [])"

record token_sources =
  ts_api_key :: "string option"
  ts_records :: "token_record list"
  ts_tokens_json :: "string option"
  ts_tokens_file :: "string option"

definition shared_record :: "string \<Rightarrow> token_record" where
  "shared_record key =
     \<lparr>tk_token = key, tk_actor = ''shared'', tk_role = Role_admin, tk_tenants = None, tk_owner = False,
      tk_agent = False, tk_expires = None\<rparr>"

definition load_token_records :: "(string \<Rightarrow> int option) \<Rightarrow> int \<Rightarrow> token_sources \<Rightarrow> token_record list" where
  "load_token_records date_ms now src =
     (if ts_records src \<noteq> [] then ts_records src
      else
        let raw = (case ts_tokens_json src of Some t \<Rightarrow> Some t | None \<Rightarrow> ts_tokens_file src);
            parsed = (case raw of None \<Rightarrow> [] | Some t \<Rightarrow> parse_token_records date_ms now t)
        in if parsed \<noteq> [] then parsed
           else (case ts_api_key src of
                   Some key \<Rightarrow> if key = [] then [] else [shared_record key]
                 | None \<Rightarrow> []))"

section \<open>The durable list of revoked actors\<close>

definition load_revoked_actors :: "string option \<Rightarrow> string list" where
  "load_revoked_actors raw =
     (case Option.bind raw json_parse of
        Some (JArr vs) \<Rightarrow> js_set (List.map_filter (\<lambda>v. filled_string (jget v ''actor'')) vs)
      | _ \<Rightarrow> [])"

definition revoked_entry :: "string \<Rightarrow> string \<Rightarrow> string option \<Rightarrow> jval" where
  "revoked_entry actor stamp reason =
     JObj ([(''actor'', JStr actor), (''revokedAt'', JStr stamp)]
       @ (case reason of Some r \<Rightarrow> if r = [] then [] else [(''reason'', JStr r)] | None \<Rightarrow> []))"

definition has_actor :: "jval \<Rightarrow> bool" where
  "has_actor v = (case jget v ''actor'' of Some (JStr _) \<Rightarrow> True | _ \<Rightarrow> False)"

text \<open>The value the append writes over the file; its text is the indented rendering of that value.\<close>

definition append_revoked_actor :: "string option \<Rightarrow> string \<Rightarrow> string \<Rightarrow> string option \<Rightarrow> jval" where
  "append_revoked_actor raw actor stamp reason =
     (let existing = (case Option.bind raw json_parse of Some (JArr vs) \<Rightarrow> filter has_actor vs | _ \<Rightarrow> [])
      in JArr (existing @ [revoked_entry actor stamp reason]))"

definition build_token_registry ::
  "kdf \<Rightarrow> (string \<Rightarrow> int option) \<Rightarrow> (nat \<Rightarrow> byte list) \<Rightarrow> int \<Rightarrow> token_sources \<Rightarrow> string option \<Rightarrow> registry option" where
  "build_token_registry kdf date_ms salts now src revoked =
     new_registry kdf date_ms salts (load_token_records date_ms now src) (load_revoked_actors revoked)"

section \<open>Lookups\<close>

lemma resolve_fold:
  "foldl (\<lambda>found h. if token_matches kdf token h \<and> token_live now h then Some (hr_identity h) else found) acc rg = Some ident \<Longrightarrow>
     acc = Some ident \<or> (\<exists>h \<in> set rg. token_matches kdf token h \<and> token_live now h \<and> hr_identity h = ident)"
proof (induction rg arbitrary: acc)
  case (Cons h rg)
  show ?case
  proof (cases "token_matches kdf token h \<and> token_live now h")
    case True
    then show ?thesis using Cons.IH [of "Some (hr_identity h)"] Cons.prems by auto
  next
    case False
    then show ?thesis using Cons.IH [of acc] Cons.prems by (simp add: False split: if_splits) blast
  qed
qed simp

lemma resolve_token_Some:
  assumes "resolve_token kdf now token rg = Some ident"
  shows "\<exists>h \<in> set rg. token_matches kdf token h \<and> token_live now h \<and> hr_identity h = ident"
  using resolve_fold [OF assms [unfolded resolve_token_def]] by simp

lemma resolve_fold_None:
  "foldl (\<lambda>found h. if token_matches kdf token h \<and> token_live now h then Some (hr_identity h) else found) (Some i) rg \<noteq> None"
proof (induction rg arbitrary: i)
  case (Cons h rg)
  then show ?case by (cases "token_matches kdf token h \<and> token_live now h") auto
qed simp

lemma resolve_token_None:
  "resolve_token kdf now token rg = None \<longleftrightarrow> (\<forall>h \<in> set rg. \<not> (token_matches kdf token h \<and> token_live now h))"
proof (induction rg)
  case (Cons h rg)
  then show ?case using resolve_fold_None [of kdf token now "hr_identity h" rg] by (auto simp: resolve_token_def)
qed (simp add: resolve_token_def)

lemma hash_records_member:
  "hash_records kdf date_ms salts i rs = Some hs \<Longrightarrow> h \<in> set hs \<Longrightarrow>
     \<exists>r \<in> set rs. \<exists>salt. hash_record kdf date_ms salt r = Some h"
proof (induction rs arbitrary: i hs)
  case (Cons r rs)
  then obtain x xs where run: "hash_record kdf date_ms (salts i) r = Some x" "hash_records kdf date_ms salts (Suc i) rs = Some xs" "hs = x # xs"
    by (auto split: Option.bind_splits)
  show ?case
  proof (cases "h = x")
    case False
    then have "h \<in> set xs" using Cons.prems(2) run(3) by simp
    then show ?thesis using Cons.IH [OF run(2)] by auto
  qed (use run(1) in auto)
qed simp

lemma new_registry_member:
  assumes "new_registry kdf date_ms salts rs banned = Some rg" "h \<in> set rg"
  shows "\<exists>r \<in> set rs. \<exists>salt h0. hash_record kdf date_ms salt r = Some h0
    \<and> h = (if tk_actor r \<in> set banned then h0\<lparr>hr_revoked := True\<rparr> else h0)"
proof -
  obtain hs where hs: "hash_records kdf date_ms salts 0 rs = Some hs"
      and rg: "rg = map (\<lambda>h. if ti_actor (hr_identity h) \<in> set banned then h\<lparr>hr_revoked := True\<rparr> else h) hs"
    using assms(1) by (auto simp: new_registry_def)
  obtain h0 where h0: "h0 \<in> set hs" "h = (if ti_actor (hr_identity h0) \<in> set banned then h0\<lparr>hr_revoked := True\<rparr> else h0)"
    using assms(2) rg by auto
  obtain r salt where r: "r \<in> set rs" "hash_record kdf date_ms salt r = Some h0"
    using hash_records_member [OF hs h0(1)] by blast
  moreover have "ti_actor (hr_identity h0) = tk_actor r"
    using r(2) by (auto simp: hash_record_def record_identity_def split: option.splits)
  ultimately show ?thesis using h0(2) by metis
qed

section \<open>A hash is read back\<close>

lemma byte_hex_digits: "hex_value (hex_digit (unat b div 16)) = Some (unat b div 16)"
    "hex_value (hex_digit (unat b mod 16)) = Some (unat b mod 16)" for b :: byte
proof -
  have "unat b < 256" using unsigned_less [of b] by simp
  then show "hex_value (hex_digit (unat b div 16)) = Some (unat b div 16)"
    "hex_value (hex_digit (unat b mod 16)) = Some (unat b mod 16)" by simp_all
qed

lemma hex_round_trip: "buffer_from_hex (buffer_to_hex bs) = bs"
proof (induction bs)
  case (Cons b bs)
  have "of_nat (16 * (unat b div 16) + unat b mod 16) = b"
    unfolding mult_div_mod_eq by simp
  then show ?case using Cons by (simp add: buffer_to_hex_def byte_hex_def byte_hex_digits)
qed (simp add: buffer_to_hex_def)

lemma hex_no_dollar: "CHR ''$'' \<notin> set (buffer_to_hex bs)"
proof -
  have digit: "n < 16 \<Longrightarrow> hex_digit n \<noteq> CHR ''$''" for n
    using hex_value_digit [of n] by (auto simp: hex_value_def)
  have "unat b < 256" for b :: byte using unsigned_less [of b] by simp
  then have "unat b div 16 < 16" "unat b mod 16 < 16" for b :: byte by (auto simp: less_mult_imp_div_less)
  then have "hex_digit (unat b div 16) \<noteq> CHR ''$''" "hex_digit (unat b mod 16) \<noteq> CHR ''$''" for b :: byte
    by (simp_all add: digit)
  from this [THEN not_sym] show ?thesis by (simp add: buffer_to_hex_def byte_hex_def)
qed

lemma split_no_sep: "d \<notin> set s \<Longrightarrow> js_split d s = [s]"
  by (induction s) auto

lemma split_at_sep: "d \<notin> set s \<Longrightarrow> js_split d (s @ d # t) = s # js_split d t"
  by (induction s) auto

lemma parse_hash_token:
  assumes "salt \<noteq> []" "kdf plain salt scrypt_keylen \<noteq> []"
  shows "parse_stored_hash (hash_token kdf salt plain) = Some (salt, kdf plain salt scrypt_keylen)"
proof -
  have "js_split (CHR ''$'') (hash_token kdf salt plain)
      = [''scrypt'', buffer_to_hex salt, buffer_to_hex (kdf plain salt scrypt_keylen)]"
    using split_at_sep [of "CHR ''$''" "''scrypt''"] split_at_sep [OF hex_no_dollar [of salt]]
      split_no_sep [OF hex_no_dollar [of "kdf plain salt scrypt_keylen"]]
    by (simp add: hash_token_def)
  then show ?thesis using assms by (simp add: parse_stored_hash_def hex_round_trip)
qed

section \<open>What the registry guarantees\<close>

text \<open>Digests of the declared length, as scrypt returns them, and salts of sixteen bytes.\<close>

definition scrypt_ok :: "kdf \<Rightarrow> (nat \<Rightarrow> byte list) \<Rightarrow> bool" where
  "scrypt_ok kdf salts \<longleftrightarrow> (\<forall>p s n. length (kdf p s n) = n) \<and> (\<forall>i. length (salts i) = 16)"

lemma hash_records_total:
  "scrypt_ok kdf salts \<Longrightarrow> \<exists>hs. hash_records kdf date_ms salts i rs = Some hs"
proof (induction rs arbitrary: i)
  case (Cons r rs)
  have "salts i \<noteq> []" "kdf (tk_token r) (salts i) scrypt_keylen \<noteq> []"
    using Cons.prems unfolding scrypt_ok_def by (metis list.size(3) zero_neq_numeral scrypt_keylen_def)+
  then have "\<exists>h. hash_record kdf date_ms (salts i) r = Some h"
    by (cases "parse_stored_hash (tk_token r)") (simp_all add: hash_record_def parse_hash_token)
  moreover obtain hs where "hash_records kdf date_ms salts (Suc i) rs = Some hs" using Cons by blast
  ultimately show ?case by auto
qed simp

lemma parsed_expiry:
  assumes "parse_token_record date_ms now v = Some r" "tk_expires r = Some e"
  shows "\<exists>ms. date_ms e = Some ms"
proof -
  obtain token actor where "filled_string (jget v ''token'') = Some token" "filled_string (jget v ''actor'') = Some actor"
    using assms(1) by (auto simp: parse_token_record_def split: option.splits)
  then show ?thesis
    using assms by (cases "parse_expiry (jget v ''expiresAt'')")
      (auto simp: parse_token_record_def Let_def split: option.splits if_splits)
qed

text \<open>
  C15. An identity is earned. With digests of the declared length a registry is always built, and an
  identity a token resolves to is that of a record the sources hold: its actor is not on the durable list,
  the token hashes to that record's stored hash, owner standing comes only with the admin role, and a token
  from the file or the environment with an expiry has a date that parses and has not come.
\<close>

theorem resolved_identity_is_earned:
  assumes "scrypt_ok kdf salts"
  shows "\<exists>rg. build_token_registry kdf date_ms salts now src revoked = Some rg
    \<and> (\<forall>token later ident. resolve_token kdf later token rg = Some ident \<longrightarrow>
         ti_actor ident \<notin> set (load_revoked_actors revoked) \<and> (ti_owner ident \<longrightarrow> ti_role ident = Role_admin)
         \<and> (\<exists>r \<in> set (load_token_records date_ms now src). ident = record_identity r
              \<and> (\<exists>h. token_matches kdf token h \<and> (\<exists>salt. hash_record kdf date_ms salt r = Some h))
              \<and> (ts_records src = [] \<longrightarrow> (\<forall>e. tk_expires r = Some e \<longrightarrow> (\<exists>ms. date_ms e = Some ms \<and> later < ms)))))"
proof -
  let ?rs = "load_token_records date_ms now src" and ?banned = "load_revoked_actors revoked"
  obtain hs where "hash_records kdf date_ms salts 0 ?rs = Some hs" using hash_records_total [OF assms] by blast
  then obtain rg where rg: "new_registry kdf date_ms salts ?rs ?banned = Some rg" by (simp add: new_registry_def)
  have parsed: "\<exists>ms. date_ms e = Some ms" if "r \<in> set ?rs" "ts_records src = []" "tk_expires r = Some e" for r e
  proof -
    have "\<exists>v. parse_token_record date_ms now v = Some r"
      using that by (fastforce simp: load_token_records_def parse_token_records_def map_filter_def shared_record_def Let_def
          split: if_splits option.splits jval.splits)
    then show ?thesis using parsed_expiry that(3) by blast
  qed
  have "ti_actor ident \<notin> set ?banned \<and> (ti_owner ident \<longrightarrow> ti_role ident = Role_admin)
      \<and> (\<exists>r \<in> set ?rs. ident = record_identity r
           \<and> (\<exists>h. token_matches kdf token h \<and> (\<exists>salt. hash_record kdf date_ms salt r = Some h))
           \<and> (ts_records src = [] \<longrightarrow> (\<forall>e. tk_expires r = Some e \<longrightarrow> (\<exists>ms. date_ms e = Some ms \<and> later < ms))))"
    if found: "resolve_token kdf later token rg = Some ident" for token later ident
  proof -
    obtain h where h: "h \<in> set rg" "token_matches kdf token h" "token_live later h" "hr_identity h = ident"
      using resolve_token_Some [OF found] by blast
    obtain r salt h0 where r: "r \<in> set ?rs" "hash_record kdf date_ms salt r = Some h0"
        "h = (if tk_actor r \<in> set ?banned then h0\<lparr>hr_revoked := True\<rparr> else h0)"
      using new_registry_member [OF rg h(1)] by blast
    have free: "tk_actor r \<notin> set ?banned" "h = h0" using h(3) r(3) by (auto simp: token_live_def split: if_splits)
    have parts: "hr_identity h0 = record_identity r" "hr_expires h0 = Option.bind (tk_expires r) date_ms"
      using r(2) by (auto simp: hash_record_def)
    have "\<exists>ms. date_ms e = Some ms \<and> later < ms" if "ts_records src = []" "tk_expires r = Some e" for e
      using parsed [OF r(1) that] h(3) parts(2) free(2) that(2) by (auto simp: token_live_def)
    then show ?thesis using h(2,4) r(1,2) free parts(1)
      by (auto simp: record_identity_def)
  qed
  then show ?thesis using rg by (auto simp: build_token_registry_def)
qed

section \<open>Bans\<close>

definition live_matches :: "kdf \<Rightarrow> int \<Rightarrow> string \<Rightarrow> registry \<Rightarrow> registry" where
  "live_matches kdf now token rg = filter (\<lambda>h. token_matches kdf token h \<and> token_live now h) rg"

lemma resolve_last:
  "resolve_token kdf now token rg =
     (if live_matches kdf now token rg = [] then None else Some (hr_identity (last (live_matches kdf now token rg))))"
proof (induction rg rule: rev_induct)
  case (snoc h rg)
  then show ?case by (auto simp: resolve_token_def live_matches_def)
qed (simp add: resolve_token_def live_matches_def)

lemma revoked_matches:
  "live_matches kdf now token (snd (revoke_by_actor actor rg))
     = filter (\<lambda>h. ti_actor (hr_identity h) \<noteq> actor) (live_matches kdf now token rg)"
proof (induction rg)
  case (Cons h rg)
  then show ?case unfolding revoke_by_actor_def snd_conv live_matches_def
    by (cases "hr_revoked h"; cases "ti_actor (hr_identity h) = actor")
      (simp_all add: token_matches_def token_live_def)
qed (simp add: revoke_by_actor_def live_matches_def)

lemma last_kept: "xs \<noteq> [] \<Longrightarrow> P (last xs) \<Longrightarrow> filter P xs \<noteq> [] \<and> last (filter P xs) = last xs"
  by (induction xs rule: rev_induct) auto

lemma revoked_resolve:
  "resolve_token kdf now token (snd (revoke_by_actor actor rg)) = Some ident \<Longrightarrow> ti_actor ident \<noteq> actor"
  "resolve_token kdf now token rg = Some ident \<Longrightarrow> ti_actor ident \<noteq> actor \<Longrightarrow>
     resolve_token kdf now token (snd (revoke_by_actor actor rg)) = Some ident"
proof -
  let ?ok = "\<lambda>h. ti_actor (hr_identity h) \<noteq> actor" and ?xs = "live_matches kdf now token rg"
  assume found: "resolve_token kdf now token (snd (revoke_by_actor actor rg)) = Some ident"
  have "filter ?ok ?xs \<noteq> []" "ident = hr_identity (last (filter ?ok ?xs))"
    using found unfolding resolve_last revoked_matches by (simp_all split: if_splits)
  moreover have "last (filter ?ok ?xs) \<in> set (filter ?ok ?xs)" using calculation(1) by (rule last_in_set)
  ultimately show "ti_actor ident \<noteq> actor" by simp
next
  assume found: "resolve_token kdf now token rg = Some ident" and other: "ti_actor ident \<noteq> actor"
  have xs: "live_matches kdf now token rg \<noteq> []" "ident = hr_identity (last (live_matches kdf now token rg))"
    using found unfolding resolve_last by (simp_all split: if_splits)
  show "resolve_token kdf now token (snd (revoke_by_actor actor rg)) = Some ident"
    using last_kept [OF xs(1), of "\<lambda>h. ti_actor (hr_identity h) \<noteq> actor"] xs(2) other
    unfolding resolve_last revoked_matches by simp
qed

lemma appended_bans:
  assumes "json_parse t = Some (append_revoked_actor raw actor stamp reason)" "actor \<noteq> []"
  shows "set (load_revoked_actors (Some t)) = insert actor (set (load_revoked_actors raw))"
proof -
  have entry: "filled_string (jget (revoked_entry actor stamp reason) ''actor'') = Some actor"
    using assms(2) by (simp add: revoked_entry_def filled_string_def)
  have keep: "List.map_filter (\<lambda>v. filled_string (jget v ''actor'')) (filter has_actor vs)
      = List.map_filter (\<lambda>v. filled_string (jget v ''actor'')) vs" for vs
    by (induction vs) (auto simp: map_filter_def has_actor_def filled_string_def split: option.splits jval.splits)
  have app: "List.map_filter f (xs @ [x]) = List.map_filter f xs @ (case f x of None \<Rightarrow> [] | Some y \<Rightarrow> [y])" for f :: "jval \<Rightarrow> string option" and xs x
    by (simp add: map_filter_def split: option.split)
  show ?thesis
    using assms(1) entry keep
    by (auto simp: load_revoked_actors_def append_revoked_actor_def Let_def app split: option.splits jval.splits)
qed

text \<open>
  C16. A ban is durable. Once an actor is revoked, no token of the live registry resolves to it any more and
  every other identity resolves as before; and after the append, for any file whose text is a rendering of
  what was appended, no registry built from whatever sources ever resolves to the actor, while the file bans
  exactly the actors it banned before and this one.
\<close>

theorem ban_is_durable:
  assumes "json_parse t = Some (append_revoked_actor raw actor stamp reason)" "actor \<noteq> []"
  shows "(\<forall>now token ident. resolve_token kdf now token (snd (revoke_by_actor actor rg)) = Some ident \<longrightarrow> ti_actor ident \<noteq> actor)
    \<and> (\<forall>now token ident. resolve_token kdf now token rg = Some ident \<longrightarrow> ti_actor ident \<noteq> actor \<longrightarrow>
         resolve_token kdf now token (snd (revoke_by_actor actor rg)) = Some ident)
    \<and> set (load_revoked_actors (Some t)) = insert actor (set (load_revoked_actors raw))
    \<and> (\<forall>salts now src rg2 later token ident. build_token_registry kdf date_ms salts now src (Some t) = Some rg2 \<longrightarrow>
         resolve_token kdf later token rg2 = Some ident \<longrightarrow> ti_actor ident \<noteq> actor)"
proof -
  have "ti_actor ident \<noteq> actor"
    if rg2: "build_token_registry kdf date_ms salts now src (Some t) = Some rg2"
      and found: "resolve_token kdf later token rg2 = Some ident" for salts now src rg2 later token ident
  proof -
    obtain h where h: "h \<in> set rg2" "token_live later h" "hr_identity h = ident"
      using resolve_token_Some [OF found] by blast
    obtain r salt h0 where r: "hash_record kdf date_ms salt r = Some h0"
        "h = (if tk_actor r \<in> set (load_revoked_actors (Some t)) then h0\<lparr>hr_revoked := True\<rparr> else h0)"
      using new_registry_member [OF rg2 [unfolded build_token_registry_def] h(1)] by blast
    have "tk_actor r \<notin> set (load_revoked_actors (Some t))" "ti_actor ident = tk_actor r"
      using h r by (auto simp: token_live_def hash_record_def record_identity_def split: if_splits)
    then show ?thesis using appended_bans [OF assms] by auto
  qed
  then show ?thesis using revoked_resolve appended_bans [OF assms] by blast
qed

text \<open>
  An expiry that does not parse is refused in a token file, but in the records a caller passes it is no
  expiry at all: the token resolves at every instant.
\<close>

lemma unparsable_expiry_never_comes:
  assumes "tk_expires r = Some e" "date_ms e = None" "hash_record kdf date_ms salt r = Some h" "token_matches kdf token h"
  shows "resolve_token kdf now token [h] = Some (record_identity r)"
  using assms by (auto simp: resolve_token_def hash_record_def token_live_def)

lemma mistyped_expiry_is_none:
  "jget v ''expiresAt'' = Some (JNum x) \<Longrightarrow> parse_token_record date_ms now v = Some r \<Longrightarrow> tk_expires r = None"
  "jget v ''tenants'' = Some (JStr s) \<Longrightarrow> parse_token_record date_ms now v = Some r \<Longrightarrow> tk_tenants r = None"
  by (auto simp: parse_token_record_def parse_expiry_def filled_string_def parse_tenants_def Let_def split: option.splits jval.splits if_splits)

section \<open>A registry of one key\<close>

definition flat_kdf :: kdf where
  "flat_kdf secret salt n = replicate n (of_nat (length secret))"

definition key_source :: token_sources where
  "key_source = \<lparr>ts_api_key = Some ''key'', ts_records = [], ts_tokens_json = None, ts_tokens_file = None\<rparr>"

lemma flat_ok: "scrypt_ok flat_kdf (\<lambda>_. replicate 16 1)"
  by (simp add: scrypt_ok_def flat_kdf_def)

theorem resolved_identity_is_earned_witness:
  "\<exists>rg. build_token_registry flat_kdf (\<lambda>_. None) (\<lambda>_. replicate 16 1) 0 key_source None = Some rg
     \<and> (\<forall>ident. resolve_token flat_kdf 5 ''key'' rg = Some ident \<longrightarrow> \<not> ti_owner ident \<or> ti_role ident = Role_admin)"
  using resolved_identity_is_earned [OF flat_ok, of "\<lambda>_. None" 0 key_source None] by blast

theorem ban_is_durable_witness:
  "\<exists>t. json_parse t = Some (append_revoked_actor None ''tim'' ''now'' (Some ''left'')) \<and> set (load_revoked_actors (Some t)) = {''tim''}"
proof -
  let ?v = "append_revoked_actor None ''tim'' ''now'' (Some ''left'')"
  have v: "?v = JArr [revoked_entry ''tim'' ''now'' (Some ''left'')]" by (simp add: append_revoked_actor_def)
  have "json_parse (json_stringify ?v) = Some ?v"
    unfolding v by (rule json_parse_stringify) (simp add: revoked_entry_def)
  moreover have "set (load_revoked_actors (Some (json_stringify ?v))) = {''tim''}"
    using ban_is_durable [OF calculation] by (simp add: load_revoked_actors_def [of None] del: json_stringify.simps)
  ultimately show ?thesis by blast
qed

end
