(* ===== verification/Api_Access.thy ===== *)
theory Api_Access
  imports Token_Registry Import_Exclusion Audience
begin

text \<open>
  The hooks every API request passes, in the order \<open>buildApp\<close> (\<open>apps/api/src/app.ts\<close>) registers them: the
  rate limiter, the bearer authentication, the write gate, the raw-inbox gate, the capture quota and the
  size check at \<open>onRequest\<close>, the tenant binding at \<open>preHandler\<close>. A request that a hook refuses is a
  refusal with its HTTP status. The query string and the body reach the hooks parsed; a body that is no
  JSON object or array is not one the tenant can be written into.
\<close>

section \<open>Requests\<close>

record api_request =
  aq_method :: string
  aq_url :: string
  aq_ip :: string
  aq_authorization :: "string option"
  aq_content_length :: "string option"
  aq_query :: "(string \<times> jval) list"
  aq_body :: "jval option"

text \<open>What the authentication stamps on a request.\<close>

record stamp =
  sp_actor :: "string option"
  sp_role :: "token_role option"
  sp_owner :: bool
  sp_agent :: bool
  sp_tenants :: "string list option"

definition no_stamp :: stamp where
  "no_stamp = \<lparr>sp_actor = None, sp_role = None, sp_owner = False, sp_agent = False, sp_tenants = None\<rparr>"

definition dev_stamp :: stamp where
  "dev_stamp = \<lparr>sp_actor = Some ''dev'', sp_role = Some Role_admin, sp_owner = True, sp_agent = False, sp_tenants = None\<rparr>"

definition identity_stamp :: "token_identity \<Rightarrow> stamp" where
  "identity_stamp i =
     \<lparr>sp_actor = Some (ti_actor i), sp_role = Some (ti_role i), sp_owner = ti_owner i, sp_agent = ti_agent i,
      sp_tenants = ti_tenants i\<rparr>"

definition reader_role_of :: "stamp \<Rightarrow> string" where
  "reader_role_of st = reader_role_for (map_option token_role_name (sp_role st)) (sp_owner st)"

definition review_agent_actor :: string where
  "review_agent_actor = ''teamkb-review-agent''"

definition is_agent_request :: "stamp \<Rightarrow> bool" where
  "is_agent_request st = (sp_agent st \<or> sp_actor st = Some review_agent_actor)"

datatype refusal =
    Rate_limited
  | Missing_authorization
  | Malformed_authorization
  | Invalid_key
  | Admin_required
  | Inbox_admin_only
  | Quota_exceeded
  | Payload_too_large
  | Tenant_not_allowed
  | Tenant_required

fun refusal_status :: "refusal \<Rightarrow> nat" where
  "refusal_status Rate_limited = 429"
| "refusal_status Missing_authorization = 401"
| "refusal_status Malformed_authorization = 401"
| "refusal_status Invalid_key = 401"
| "refusal_status Admin_required = 403"
| "refusal_status Inbox_admin_only = 403"
| "refusal_status Quota_exceeded = 429"
| "refusal_status Payload_too_large = 413"
| "refusal_status Tenant_not_allowed = 403"
| "refusal_status Tenant_required = 400"

section \<open>Paths\<close>

definition url_path :: "string \<Rightarrow> string" where
  "url_path u = hd (js_split (CHR ''?'') u)"

definition under_prefix :: "string \<Rightarrow> string \<Rightarrow> bool" where
  "under_prefix prefix path = (path = prefix \<or> starts_with (prefix @ ''/'') path)"

text \<open>The authentication compares the whole URL, the tenancy guard its path.\<close>

definition auth_exempt :: "string \<Rightarrow> bool" where
  "auth_exempt u =
     (u = ''/api/health'' \<or> u = ''/api/health/'' \<or> u = ''/openapi.json'' \<or> u = ''/docs'' \<or> starts_with ''/docs/'' u)"

definition is_public_path :: "string \<Rightarrow> bool" where
  "is_public_path u = auth_exempt (url_path u)"

section \<open>Fixed windows\<close>

text \<open>The map of counters shared by the rate limiter and the capture quota; times are milliseconds.\<close>

record window_entry =
  we_count :: nat
  we_start :: int

type_synonym windows = "string \<rightharpoonup> window_entry"

definition hit_window :: "nat \<Rightarrow> int \<Rightarrow> int \<Rightarrow> string \<Rightarrow> windows \<Rightarrow> bool \<times> windows" where
  "hit_window most width now k m =
     (case m k of
        None \<Rightarrow> (True, m(k \<mapsto> \<lparr>we_count = 1, we_start = now\<rparr>))
      | Some e \<Rightarrow>
          if width < now - we_start e then (True, m(k \<mapsto> \<lparr>we_count = 1, we_start = now\<rparr>))
          else (Suc (we_count e) \<le> most, m(k \<mapsto> e\<lparr>we_count := Suc (we_count e)\<rparr>)))"

definition sweep_windows :: "int \<Rightarrow> int \<Rightarrow> windows \<Rightarrow> windows" where
  "sweep_windows width now m =
     (\<lambda>k. case m k of None \<Rightarrow> None | Some e \<Rightarrow> if width * 2 < now - we_start e then None else Some e)"

section \<open>Authentication\<close>

definition is_loopback_host :: "string \<Rightarrow> bool" where
  "is_loopback_host host =
     (let h = js_lower (js_trim host);
          octet = (\<lambda>p. p \<noteq> [] \<and> length p \<le> 3 \<and> list_all json_digit p)
      in h = ''localhost'' \<or> h = ''::1'' \<or> h = ''[::1]''
         \<or> (case js_split (CHR ''.'') h of [a, b, c, d] \<Rightarrow> a = ''127'' \<and> octet b \<and> octet c \<and> octet d | _ \<Rightarrow> False))"

datatype boot_refusal = Unauthenticated_production | Unauthenticated_off_host string

text \<open>The decision at boot: \<open>None\<close> is the open mode on the loopback, \<open>Some\<close> the registry to ask.\<close>

definition boot_auth :: "bool \<Rightarrow> string option \<Rightarrow> registry \<Rightarrow> boot_refusal + registry option" where
  "boot_auth production bind rg =
     (let host = (case bind of None \<Rightarrow> ''127.0.0.1'' | Some h \<Rightarrow> h)
      in if registry_is_empty rg then
           if production then Inl Unauthenticated_production
           else if \<not> is_loopback_host host then Inl (Unauthenticated_off_host host)
           else Inr None
         else Inr (Some rg))"

text \<open>The scheme before the first space and the token after it.\<close>

fun split_first :: "char \<Rightarrow> string \<Rightarrow> (string \<times> string) option" where
  "split_first d [] = None"
| "split_first d (c # cs) =
     (if c = d then Some ([], cs) else map_option (\<lambda>(a, b). (c # a, b)) (split_first d cs))"

definition authenticate :: "kdf \<Rightarrow> int \<Rightarrow> registry option \<Rightarrow> api_request \<Rightarrow> refusal + stamp" where
  "authenticate kdf now mode rq =
     (case mode of
        None \<Rightarrow> Inr dev_stamp
      | Some rg \<Rightarrow>
          if auth_exempt (aq_url rq) then Inr no_stamp
          else (case aq_authorization rq of
                  None \<Rightarrow> Inl Missing_authorization
                | Some hdr \<Rightarrow>
                    (case split_first (CHR '' '') hdr of
                       None \<Rightarrow> Inl Malformed_authorization
                     | Some (scheme, token) \<Rightarrow>
                         if scheme \<noteq> ''Bearer'' then Inl Invalid_key
                         else (case resolve_token kdf now token rg of
                                 None \<Rightarrow> Inl Invalid_key
                               | Some i \<Rightarrow> Inr (identity_stamp i)))))"

section \<open>The write gate\<close>

definition admin_write_prefixes :: "string list" where
  "admin_write_prefixes = [''/api/memories'', ''/api/policies'', ''/api/import'', ''/api/auth'', ''/api/holds'']"

definition mutation_methods :: "string list" where
  "mutation_methods = [''POST'', ''PUT'', ''PATCH'', ''DELETE'']"

text \<open>\<open>^/api/candidates/[^/]+/<verb>$\<close>.\<close>

definition candidate_verb_path :: "string \<Rightarrow> string \<Rightarrow> bool" where
  "candidate_verb_path verb path =
     (case js_split (CHR ''/'') path of
        [a, b, c, i, v] \<Rightarrow> a = [] \<and> b = ''api'' \<and> c = ''candidates'' \<and> i \<noteq> [] \<and> v = verb
      | _ \<Rightarrow> False)"

definition is_admin_write :: "string \<Rightarrow> string \<Rightarrow> bool" where
  "is_admin_write verb path =
     (verb \<in> set mutation_methods
      \<and> (candidate_verb_path ''promote'' path \<or> candidate_verb_path ''reject'' path
         \<or> list_ex (\<lambda>p. under_prefix p path) admin_write_prefixes))"

definition write_gate :: "stamp \<Rightarrow> api_request \<Rightarrow> refusal + unit" where
  "write_gate st rq =
     (if is_admin_write (aq_method rq) (url_path (aq_url rq)) \<and> sp_role st \<noteq> Some Role_admin
      then Inl Admin_required else Inr ())"

section \<open>The tenancy guard\<close>

definition candidates_prefix :: string where
  "candidates_prefix = ''/api/candidates''"

definition inbox_gate :: "stamp \<Rightarrow> api_request \<Rightarrow> refusal + unit" where
  "inbox_gate st rq =
     (if is_public_path (aq_url rq) \<or> aq_method rq \<noteq> ''GET'' then Inr ()
      else if under_prefix candidates_prefix (url_path (aq_url rq)) \<and> sp_role st \<noteq> Some Role_admin
      then Inl Inbox_admin_only else Inr ())"

definition query_tenant_id :: "api_request \<Rightarrow> string option" where
  "query_tenant_id rq = filled_string (map_of (aq_query rq) ''tenantId'')"

definition body_tenant_id :: "api_request \<Rightarrow> string option" where
  "body_tenant_id rq = filled_string (Option.bind (aq_body rq) (\<lambda>v. jget v ''tenantId''))"

text \<open>Assignment of a property; a property set on an array is not one of its members.\<close>

fun jset :: "string \<Rightarrow> jval \<Rightarrow> jval \<Rightarrow> jval" where
  "jset k x (JObj kvs) = JObj (json_put k x kvs)"
| "jset k x v = v"

definition inject_effective_tenant :: "string \<Rightarrow> api_request \<Rightarrow> api_request" where
  "inject_effective_tenant t rq =
     rq\<lparr>aq_body := (if body_tenant_id rq = None then map_option (jset ''tenantId'' (JStr t)) (aq_body rq) else aq_body rq),
        aq_query := (if query_tenant_id rq = None then json_put ''tenantId'' (JStr t) (aq_query rq) else aq_query rq)\<rparr>"

definition requested_tenants :: "api_request \<Rightarrow> string list" where
  "requested_tenants rq = List.map_filter id [query_tenant_id rq, body_tenant_id rq]"

definition bind_tenant :: "stamp \<Rightarrow> api_request \<Rightarrow> refusal + api_request" where
  "bind_tenant st rq =
     (if is_public_path (aq_url rq) then Inr rq
      else (case sp_tenants st of
              None \<Rightarrow> Inr rq
            | Some [] \<Rightarrow> Inr rq
            | Some (t # ts) \<Rightarrow>
                if list_ex (\<lambda>r. r \<notin> set (t # ts)) (requested_tenants rq) then Inl Tenant_not_allowed
                else if requested_tenants rq = [] then
                  (if ts = [] then Inr (inject_effective_tenant t rq) else Inl Tenant_required)
                else Inr rq))"

section \<open>The size check\<close>

text \<open>\<open>parseInt(s, 10)\<close>: leading blanks, a sign, then the digits up to the first other character.\<close>

definition js_parse_int :: "string \<Rightarrow> int option" where
  "js_parse_int s =
     (let t = dropWhile js_space s;
          (neg, u) = (case t of c # cs \<Rightarrow> if c = CHR ''-'' then (True, cs) else if c = CHR ''+'' then (False, cs) else (False, t)
                      | [] \<Rightarrow> (False, []));
          ds = takeWhile json_digit u
      in if ds = [] then None else Some (if neg then - int (digits_value ds) else int (digits_value ds)))"

definition sanitize_input :: "int \<Rightarrow> api_request \<Rightarrow> refusal + unit" where
  "sanitize_input most rq =
     (case Option.bind (aq_content_length rq) js_parse_int of
        None \<Rightarrow> Inr ()
      | Some n \<Rightarrow> if most < n then Inl Payload_too_large else Inr ())"

section \<open>A request\<close>

record api_limits =
  al_rate_max :: nat
  al_rate_window :: int
  al_quota_max :: nat
  al_quota_window :: int
  al_body_max :: int

record api_state =
  as_clients :: windows
  as_actors :: windows

definition rate_limit :: "api_limits \<Rightarrow> int \<Rightarrow> api_request \<Rightarrow> api_state \<Rightarrow> (refusal + unit) \<times> api_state" where
  "rate_limit l now rq s =
     (case hit_window (al_rate_max l) (al_rate_window l) now (aq_ip rq) (as_clients s) of
        (ok, m) \<Rightarrow> (if ok then Inr () else Inl Rate_limited, s\<lparr>as_clients := m\<rparr>))"

definition capture_quota :: "api_limits \<Rightarrow> int \<Rightarrow> stamp \<Rightarrow> api_request \<Rightarrow> api_state \<Rightarrow> (refusal + unit) \<times> api_state" where
  "capture_quota l now st rq s =
     (if aq_method rq \<noteq> ''POST'' \<or> url_path (aq_url rq) \<noteq> candidates_prefix then (Inr (), s)
      else (let k = (case sp_actor st of Some a \<Rightarrow> a | None \<Rightarrow> aq_ip rq)
            in case hit_window (al_quota_max l) (al_quota_window l) now k (as_actors s) of
                 (ok, m) \<Rightarrow> (if ok then Inr () else Inl Quota_exceeded, s\<lparr>as_actors := m\<rparr>)))"

text \<open>
  The hooks in their order. A refusal stops the chain and keeps the counters written so far; an admitted
  request comes with its stamp and the tenant the guard has written into it.
\<close>

definition admit_request ::
  "kdf \<Rightarrow> registry option \<Rightarrow> api_limits \<Rightarrow> int \<Rightarrow> api_request \<Rightarrow> api_state \<Rightarrow> (refusal + stamp \<times> api_request) \<times> api_state" where
  "admit_request kdf mode l now rq s =
     (case rate_limit l now rq s of
        (Inl e, s1) \<Rightarrow> (Inl e, s1)
      | (Inr _, s1) \<Rightarrow>
          (case and_then (authenticate kdf now mode rq) (\<lambda>st.
                and_then (write_gate st rq) (\<lambda>_. and_then (inbox_gate st rq) (\<lambda>_. Inr st))) of
             Inl e \<Rightarrow> (Inl e, s1)
           | Inr st \<Rightarrow>
               (case capture_quota l now st rq s1 of
                  (Inl e, s2) \<Rightarrow> (Inl e, s2)
                | (Inr _, s2) \<Rightarrow>
                    (and_then (sanitize_input (al_body_max l) rq) (\<lambda>_.
                       and_then (bind_tenant st rq) (\<lambda>rq'. Inr (st, rq'))), s2))))"

end
