(* ===== verification/Search_Service.thy ===== *)
theory Search_Service
  imports Search_Rank Governance_Db Api_Access
begin

text \<open>
  Search over the API: the request body (\<open>packages/schema/src/search.ts\<close>), the contradiction references
  (\<open>packages/store/src/contradiction-references.ts\<close>), the service with its two paths
  (\<open>apps/api/src/services/search-service.ts\<close>) and the route (\<open>apps/api/src/routes/search.ts\<close>). The qmd index is
  the parameter \<open>query_port\<close>: its hits for a text, a scope and a tenant, or its failure.
\<close>

section \<open>The request\<close>

datatype search_scope = Scope_curated | Scope_all | Scope_inbox | Scope_archived | Scope_bulk

fun scope_name :: "search_scope \<Rightarrow> string" where
  "scope_name Scope_curated = ''curated''"
| "scope_name Scope_all = ''all''"
| "scope_name Scope_inbox = ''inbox''"
| "scope_name Scope_archived = ''archived''"
| "scope_name Scope_bulk = ''bulk''"

definition scope_options :: "search_scope list" where
  "scope_options = [Scope_curated, Scope_all, Scope_inbox, Scope_archived, Scope_bulk]"

record search_query =
  sq_query :: string
  sq_scope :: search_scope
  sq_tenant :: "tenant_id option"
  sq_categories :: "memory_category list option"
  sq_date_from :: "iso_datetime option"
  sq_date_to :: "iso_datetime option"
  sq_page :: nat
  sq_page_size :: nat

text \<open>An integer of at least one and at most the bound.\<close>

definition read_positive :: "nat option \<Rightarrow> jval \<Rightarrow> nat option" where
  "read_positive most v =
     (case v of
        JNum x \<Rightarrow> if x = of_int \<lfloor>x\<rfloor> \<and> 1 \<le> x \<and> (case most of None \<Rightarrow> True | Some m \<Rightarrow> x \<le> of_nat m) then Some (nat \<lfloor>x\<rfloor>) else None
      | _ \<Rightarrow> None)"

definition read_pagination :: "jval \<Rightarrow> (nat \<times> nat) option" where
  "read_pagination v =
     (if \<not> is_object v then None
      else Option.bind (default_member (read_positive None) 1 v ''page'') (\<lambda>p.
           Option.bind (default_member (read_positive (Some 100)) 20 v ''pageSize'') (\<lambda>n. Some (p, n))))"

definition read_text :: "jval \<Rightarrow> string option" where
  "read_text v = Option.bind (read_string v) non_empty_string"

definition read_datetime :: "formats \<Rightarrow> jval \<Rightarrow> string option" where
  "read_datetime fmt v = Option.bind (read_string v) (\<lambda>s. if fmt_datetime fmt s then Some s else None)"

definition read_search_query :: "formats \<Rightarrow> jval \<Rightarrow> search_query option" where
  "read_search_query fmt v =
     (if \<not> is_object v then None
      else
        Option.bind (member_of read_text v ''query'') (\<lambda>q.
        Option.bind (default_member (read_vocab scope_options scope_name) Scope_curated v ''scope'') (\<lambda>sc.
        Option.bind (optional_member read_text v ''tenantId'') (\<lambda>tn.
        Option.bind (optional_member (read_array (read_vocab category_options category_name)) v ''categories'') (\<lambda>cs.
        Option.bind (optional_member (read_datetime fmt) v ''dateFrom'') (\<lambda>df.
        Option.bind (optional_member (read_datetime fmt) v ''dateTo'') (\<lambda>dt.
        Option.bind (default_member read_pagination (1, 20) v ''pagination'') (\<lambda>pg.
          Some \<lparr>sq_query = q, sq_scope = sc, sq_tenant = tn, sq_categories = cs, sq_date_from = df, sq_date_to = dt,
                sq_page = fst pg, sq_page_size = snd pg\<rparr>))))))))"

section \<open>Contradiction references\<close>

record reference =
  rf_memory :: string
  rf_title :: string

definition shown_memory :: "graph_scope \<Rightarrow> curated_memory \<Rightarrow> bool" where
  "shown_memory sc m =
     (mem_lifecycle m = Active \<and> (case gs_tenant sc of None \<Rightarrow> True | Some t \<Rightarrow> mem_tenant m = t)
      \<and> (case gs_allowed sc of None \<Rightarrow> True | Some ts \<Rightarrow> mem_tenant m \<in> set ts)
      \<and> is_audience_visible_to_role (audience (mem_metadata m)) (Some (gs_role sc))
      \<and> is_search_visible_sensitivity (sensitivity_name (mem_sensitivity m)))"

text \<open>The loop over the neighbours, with the identifiers seen in lower case.\<close>

fun collect_references ::
  "formats \<Rightarrow> memory_table \<Rightarrow> graph_scope \<Rightarrow> tenant_id \<Rightarrow> string list \<Rightarrow> neighbor list \<Rightarrow> fault + reference list" where
  "collect_references fmt t sc tn seen [] = Inr []"
| "collect_references fmt t sc tn seen (n # ns) =
     (if nb_type n \<noteq> Contradicts \<or> js_lower (nb_memory n) \<in> set seen then collect_references fmt t sc tn seen ns
      else
        and_then (find_memory fmt (nb_memory n) t) (\<lambda>found.
        and_then (collect_references fmt t sc tn (js_lower (nb_memory n) # seen) ns) (\<lambda>rs.
          case found of
            Some m \<Rightarrow> if shown_memory sc m \<and> mem_tenant m = tn then Inr (\<lparr>rf_memory = mem_id m, rf_title = mem_title m\<rparr> # rs) else Inr rs
          | None \<Rightarrow> Inr rs)))"

text \<open>\<open>readContradictionReferences\<close>; \<open>None\<close> is the status \<open>unavailable\<close>, which every error becomes.\<close>

definition read_contradictions :: "formats \<Rightarrow> memory_table \<Rightarrow> memory_link list \<Rightarrow> string \<Rightarrow> graph_scope \<Rightarrow> reference list option" where
  "read_contradictions fmt t ls i sc =
     (if \<not> fmt_uuid fmt i \<or> gs_role sc \<notin> set [''member'', ''admin'', ''owner''] then None
      else (case find_memory fmt i t of
              Inr (Some m) \<Rightarrow>
                if shown_memory sc m then
                  (case collect_references fmt t sc (mem_tenant m) [js_lower i]
                          (neighbors t i (Some (sc\<lparr>gs_tenant := Some (mem_tenant m)\<rparr>)) ls) of
                     Inr rs \<Rightarrow> Some (sort_key rf_memory rs)
                   | Inl _ \<Rightarrow> None)
                else None
            | _ \<Rightarrow> None))"

definition parse_references :: "formats \<Rightarrow> reference list option \<Rightarrow> reference list option" where
  "parse_references fmt r =
     Option.bind r (\<lambda>rs.
       if list_all (\<lambda>x. fmt_uuid fmt (rf_memory x) \<and> non_empty_string (rf_title x) \<noteq> None) rs
          \<and> distinct (map (\<lambda>x. js_lower (rf_memory x)) rs)
       then Some (map (\<lambda>x. x\<lparr>rf_title := js_trim (rf_title x)\<rparr>) rs) else None)"

section \<open>The service\<close>

record search_hit =
  sh_memory :: "string option"
  sh_title :: string
  sh_snippet :: string
  sh_score :: rat
  sh_category :: "string option"
  sh_citation :: "string option"
  sh_collection :: "string option"
  sh_contradictions :: "reference list option option"

record search_result =
  sr_hits :: "search_hit list"
  sr_total :: nat
  sr_has_more :: bool

type_synonym query_port = "string \<Rightarrow> search_scope \<Rightarrow> tenant_id option \<Rightarrow> cited_hit list option"

type_synonym decay = "iso_datetime \<Rightarrow> iso_datetime \<Rightarrow> rat"

definition paginate :: "'h list \<Rightarrow> search_query \<Rightarrow> ('h \<Rightarrow> search_hit) \<Rightarrow> search_result" where
  "paginate hs q f =
     (let start = (sq_page q - 1) * sq_page_size q
      in \<lparr>sr_hits = map f (take (sq_page_size q) (drop start hs)), sr_total = length hs,
          sr_has_more = (start + sq_page_size q < length hs)\<rparr>)"

definition normalise_score :: "rat \<Rightarrow> rat \<Rightarrow> nat \<Rightarrow> nat \<Rightarrow> rat" where
  "normalise_score score most i n =
     (if 0 < most then min (max (score / most) 0) 1
      else if 0 < n then (of_nat n - of_nat i) / of_nat n else 0)"

text \<open>\<open>/[-_]+/g\<close> to one blank.\<close>

fun blank_separators :: "bool \<Rightarrow> string \<Rightarrow> string" where
  "blank_separators inside [] = []"
| "blank_separators inside (c # cs) =
     (if c = CHR ''-'' \<or> c = CHR ''_'' then (if inside then [] else [CHR '' '']) @ blank_separators True cs
      else c # blank_separators False cs)"

definition title_from_citation :: "string \<Rightarrow> string" where
  "title_from_citation c =
     (let s = js_trim (blank_separators False (drop_extension (citation_base c))) in if s = [] then c else s)"

definition bulk_visible :: "search_scope \<Rightarrow> curated_memory \<Rightarrow> bool" where
  "bulk_visible sc m =
     (case sc of Scope_curated \<Rightarrow> mem_source m \<noteq> Bulk_import | Scope_bulk \<Rightarrow> mem_source m = Bulk_import | _ \<Rightarrow> True)"

definition memory_input :: "string \<Rightarrow> curated_memory \<Rightarrow> rank_input" where
  "memory_input q m =
     \<lparr>ri_score = (if js_includes (js_lower q) (js_lower (mem_title m)) then 9 / 10 else 6 / 10),
      ri_category = category_name (mem_category m), ri_updated_at = updated_at m, ri_title = Some (mem_title m),
      ri_lifecycle = Some (lifecycle_name (mem_lifecycle m))\<rparr>"

definition memory_hit :: "curated_memory \<times> rat \<Rightarrow> search_hit" where
  "memory_hit p =
     (case p of (m, f) \<Rightarrow>
        \<lparr>sh_memory = Some (mem_id m), sh_title = mem_title m, sh_snippet = take 200 (mem_content m), sh_score = min f 1,
         sh_category = Some (category_name (mem_category m)), sh_citation = None, sh_collection = None, sh_contradictions = None\<rparr>)"

definition search_via_sqlite ::
  "world \<Rightarrow> decay \<Rightarrow> iso_datetime \<Rightarrow> search_query \<Rightarrow> string \<Rightarrow> memory_table \<Rightarrow> fault + search_result" where
  "search_via_sqlite w decay now q role t =
     and_then (search_by_text (w_formats w) (w_full_text w) (sq_query q) (sq_tenant q) (map_option (map category_name) (sq_categories q)) t) (\<lambda>ms.
       let shown = filter (\<lambda>m. is_search_visible_sensitivity (sensitivity_name (mem_sensitivity m))
             \<and> is_audience_visible_to_role (audience (mem_metadata m)) (Some role) \<and> bulk_visible (sq_scope q) m) ms
       in Inr (paginate (rerank decay now (Some (sq_query q)) (memory_input (sq_query q)) shown) q memory_hit))"

definition resolve_citation :: "formats \<Rightarrow> memory_table \<Rightarrow> string \<Rightarrow> fault + cited_metadata option" where
  "resolve_citation fmt t i =
     map_sum id (map_option (\<lambda>m.
       \<lparr>cm_category = category_name (mem_category m), cm_updated_at = updated_at m,
        cm_sensitivity = sensitivity_name (mem_sensitivity m), cm_audience = audience (mem_metadata m),
        cm_title = mem_title m, cm_lifecycle = lifecycle_name (mem_lifecycle m)\<rparr>)) (find_memory fmt i t)"

definition cited_search_hit :: "enriched_hit \<times> rat \<Rightarrow> search_hit" where
  "cited_search_hit p =
     (case p of (h, f) \<Rightarrow>
        \<lparr>sh_memory = eh_memory h, sh_title = title_from_citation (ch_file (eh_hit h)), sh_snippet = ch_snippet (eh_hit h),
         sh_score = min f 1, sh_category = (if eh_memory h = None then None else Some (eh_category h)),
         sh_citation = Some (ch_file (eh_hit h)), sh_collection = Some (ch_collection (eh_hit h)), sh_contradictions = None\<rparr>)"

definition normalised_hits :: "cited_hit list \<Rightarrow> cited_hit list" where
  "normalised_hits hs =
     (let most = foldl (\<lambda>m h. if m < ch_score h then ch_score h else m) 0 hs
      in map (\<lambda>(i, h). h\<lparr>ch_score := normalise_score (ch_score h) most i (length hs)\<rparr>) (enumerate 0 hs))"

definition search_via_qmd ::
  "world \<Rightarrow> decay \<Rightarrow> query_port \<Rightarrow> iso_datetime \<Rightarrow> search_query \<Rightarrow> string \<Rightarrow> memory_table \<Rightarrow> fault + search_result" where
  "search_via_qmd w decay port now q role t =
     (case port (sq_query q) (sq_scope q) (sq_tenant q) of
        None \<Rightarrow> Inr \<lparr>sr_hits = [], sr_total = 0, sr_has_more = False\<rparr>
      | Some hs \<Rightarrow>
          and_then (rerank_cited decay now (Some (sq_query q)) (resolve_citation (w_formats w) t) (normalised_hits hs)) (\<lambda>rs.
            let shown = filter (\<lambda>p. is_search_visible_sensitivity (eh_sensitivity (fst p))
                  \<and> is_audience_visible_to_role (Some (eh_audience (fst p))) (Some role)) rs
            in Inr (paginate shown q cited_search_hit)))"

definition with_contradictions ::
  "formats \<Rightarrow> memory_table \<Rightarrow> memory_link list \<Rightarrow> search_query \<Rightarrow> string \<Rightarrow> search_hit \<Rightarrow> search_hit" where
  "with_contradictions fmt t ls q role h =
     h\<lparr>sh_contradictions := Some (Option.bind (sh_memory h) (\<lambda>i.
         if i = [] then None
         else parse_references fmt (read_contradictions fmt t ls i \<lparr>gs_tenant = sq_tenant q, gs_allowed = None, gs_role = role\<rparr>)))\<rparr>"

datatype search_error = Empty_query | Search_fault fault

text \<open>\<open>SearchService.search\<close> as \<open>buildApp\<close> wires it, with the contradiction reader.\<close>

definition search ::
  "world \<Rightarrow> decay \<Rightarrow> query_port option \<Rightarrow> iso_datetime \<Rightarrow> search_query \<Rightarrow> string \<Rightarrow> store_state \<Rightarrow> search_error + search_result" where
  "search w decay port now q role s =
     (if js_trim (sq_query q) = [] then Inl Empty_query
      else (case (case port of None \<Rightarrow> search_via_sqlite w decay now q role (st_memories s)
                  | Some p \<Rightarrow> search_via_qmd w decay p now q role (st_memories s)) of
              Inl e \<Rightarrow> Inl (Search_fault e)
            | Inr r \<Rightarrow> Inr (r\<lparr>sr_hits := map (with_contradictions (w_formats w) (st_memories s) (st_links s) q role) (sr_hits r)\<rparr>)))"

text \<open>The route reads the body only.\<close>

definition search_route ::
  "world \<Rightarrow> decay \<Rightarrow> query_port option \<Rightarrow> iso_datetime \<Rightarrow> stamp \<Rightarrow> api_request \<Rightarrow> store_state \<Rightarrow> search_error option + search_result" where
  "search_route w decay port now st rq s =
     (case Option.bind (aq_body rq) (read_search_query (w_formats w)) of
        None \<Rightarrow> Inl None
      | Some q \<Rightarrow> map_sum Some id (search w decay port now q (reader_role_of st) s))"

end
