(* ===== verification/Access_Laws.thy ===== *)
theory Access_Laws
  imports Api_Access
begin

text \<open>
  What an admitted request has passed: who it is, what it may write and read, and the tenants its body and
  query may name; and what the counters admit within one window.
\<close>

section \<open>Admission\<close>

lemma admitted_parts:
  assumes "admit_request kdf mode l now rq s = (Inr (st, rq'), s')"
  shows "authenticate kdf now mode rq = Inr st" "write_gate st rq = Inr ()" "inbox_gate st rq = Inr ()"
    "sanitize_input (al_body_max l) rq = Inr ()" "bind_tenant st rq = Inr rq'"
  using assms by (auto simp: admit_request_def and_then_Inr split: prod.splits sum.splits)

lemma split_first_join: "split_first d s = Some (a, b) \<Longrightarrow> s = a @ d # b"
  by (induction s arbitrary: a) (auto split: if_splits)

lemma put_get: "map_of (json_put k v kvs) k' = (if k' = k then Some v else map_of kvs k')"
  by (induction kvs) auto

lemma filled_JStr [simp]: "filled_string (Some (JStr s)) = (if s = [] then None else Some s)"
  by (simp add: filled_string_def)

lemma requested_set: "set (requested_tenants rq) = {t. query_tenant_id rq = Some t \<or> body_tenant_id rq = Some t}"
  by (auto simp: requested_tenants_def map_filter_def)

lemma requested_none: "requested_tenants rq = [] \<longleftrightarrow> query_tenant_id rq = None \<and> body_tenant_id rq = None"
  by (cases "query_tenant_id rq"; cases "body_tenant_id rq") (simp_all add: requested_tenants_def map_filter_def)

lemma injected_query: "t \<noteq> [] \<Longrightarrow> query_tenant_id rq = None \<Longrightarrow> query_tenant_id (inject_effective_tenant t rq) = Some t"
  by (simp add: inject_effective_tenant_def query_tenant_id_def put_get)

lemma injected_body:
  "t \<noteq> [] \<Longrightarrow> body_tenant_id rq = None \<Longrightarrow> aq_body rq = Some (JObj kvs) \<Longrightarrow>
     body_tenant_id (inject_effective_tenant t rq) = Some t"
  "body_tenant_id rq = None \<Longrightarrow> aq_body rq = Some v \<Longrightarrow> \<nexists>kvs. v = JObj kvs \<Longrightarrow>
     body_tenant_id (inject_effective_tenant t rq) = None"
proof -
  show "body_tenant_id (inject_effective_tenant t rq) = Some t"
    if "t \<noteq> []" "body_tenant_id rq = None" "aq_body rq = Some (JObj kvs)"
    using that by (simp add: inject_effective_tenant_def body_tenant_id_def put_get)
  show "body_tenant_id (inject_effective_tenant t rq) = None"
    if "body_tenant_id rq = None" "aq_body rq = Some v" "\<nexists>kvs. v = JObj kvs"
    using that by (cases v) (simp_all add: inject_effective_tenant_def body_tenant_id_def)
qed

lemma bound_tenants:
  assumes "bind_tenant st rq = Inr rq'" "\<not> is_public_path (aq_url rq)" "sp_tenants st = Some ts" "ts \<noteq> []"
  shows "(requested_tenants rq \<noteq> [] \<and> rq' = rq \<and> set (requested_tenants rq) \<subseteq> set ts)
    \<or> (requested_tenants rq = [] \<and> (\<exists>t. ts = [t] \<and> rq' = inject_effective_tenant t rq))"
  using assms by (cases ts) (auto simp: bind_tenant_def list_ex_iff split: if_splits)

text \<open>
  C7. An admitted request is authorized. Where tokens are configured, a request that passes the hooks is for
  a public page or carries a bearer token that resolves, and is stamped with exactly that identity. A change
  under the admin prefixes, a promotion or rejection and a read of the raw inbox have an admin's stamp. Every
  tenant a scoped token's request names is on the token's list, or it names none, the token has one tenant
  and that tenant was written into its query and body.
\<close>

theorem admitted_request_is_authorized:
  assumes "admit_request kdf (Some rg) l now rq s = (Inr (st, rq'), s')"
  shows "(auth_exempt (aq_url rq) \<and> st = no_stamp
       \<or> (\<exists>token i. aq_authorization rq = Some (''Bearer '' @ token) \<and> resolve_token kdf now token rg = Some i
            \<and> st = identity_stamp i))
    \<and> (is_admin_write (aq_method rq) (url_path (aq_url rq)) \<longrightarrow> sp_role st = Some Role_admin)
    \<and> (aq_method rq = ''GET'' \<and> under_prefix candidates_prefix (url_path (aq_url rq)) \<and> \<not> is_public_path (aq_url rq)
        \<longrightarrow> sp_role st = Some Role_admin)
    \<and> (\<forall>ts. sp_tenants st = Some ts \<and> ts \<noteq> [] \<and> \<not> is_public_path (aq_url rq) \<longrightarrow>
         (rq' = rq \<and> requested_tenants rq \<noteq> [] \<and> set (requested_tenants rq) \<subseteq> set ts)
         \<or> (requested_tenants rq = [] \<and> (\<exists>t. ts = [t] \<and> rq' = inject_effective_tenant t rq)))"
proof (intro conjI impI allI)
  note parts = admitted_parts [OF assms]
  show "auth_exempt (aq_url rq) \<and> st = no_stamp
       \<or> (\<exists>token i. aq_authorization rq = Some (''Bearer '' @ token) \<and> resolve_token kdf now token rg = Some i
            \<and> st = identity_stamp i)"
  proof (cases "auth_exempt (aq_url rq)")
    case False
    then obtain hdr token i where "aq_authorization rq = Some hdr" "split_first (CHR '' '') hdr = Some (''Bearer'', token)"
        "resolve_token kdf now token rg = Some i" "st = identity_stamp i"
      using parts(1) by (auto simp: authenticate_def split: option.splits if_splits)
    then show ?thesis using split_first_join [of "CHR '' ''" hdr "''Bearer''" token] by auto
  qed (use parts(1) in \<open>simp add: authenticate_def\<close>)
  show "sp_role st = Some Role_admin" if "is_admin_write (aq_method rq) (url_path (aq_url rq))"
    using parts(2) that by (simp add: write_gate_def split: if_splits)
  show "sp_role st = Some Role_admin"
    if "aq_method rq = ''GET'' \<and> under_prefix candidates_prefix (url_path (aq_url rq)) \<and> \<not> is_public_path (aq_url rq)"
    using parts(3) that by (simp add: inbox_gate_def split: if_splits)
  show "(rq' = rq \<and> requested_tenants rq \<noteq> [] \<and> set (requested_tenants rq) \<subseteq> set ts)
      \<or> (requested_tenants rq = [] \<and> (\<exists>t. ts = [t] \<and> rq' = inject_effective_tenant t rq))"
    if "sp_tenants st = Some ts \<and> ts \<noteq> [] \<and> \<not> is_public_path (aq_url rq)" for ts
    using bound_tenants [OF parts(5)] that by blast
qed

definition key_registry :: registry where
  "key_registry = [\<lparr>hr_salt = [1], hr_hash = [3, 3],
     hr_identity = \<lparr>ti_actor = ''ann'', ti_role = Role_admin, ti_tenants = Some [''team''], ti_owner = False, ti_agent = False\<rparr>,
     hr_expires = None, hr_revoked = False\<rparr>]"

definition small_limits :: api_limits where
  "small_limits = \<lparr>al_rate_max = 2, al_rate_window = 10, al_quota_max = 1, al_quota_window = 10, al_body_max = 100\<rparr>"

definition small_request :: api_request where
  "small_request = \<lparr>aq_method = ''POST'', aq_url = ''/api/memories/m1/transition'', aq_ip = ''127.0.0.1'',
     aq_authorization = Some ''Bearer key'', aq_content_length = Some ''20'', aq_query = [], aq_body = Some (JObj [])\<rparr>"

theorem admitted_request_is_authorized_witness:
  "\<exists>st rq' s'. admit_request flat_kdf (Some key_registry) small_limits 0 small_request
       \<lparr>as_clients = Map.empty, as_actors = Map.empty\<rparr> = (Inr (st, rq'), s')
     \<and> sp_role st = Some Role_admin \<and> rq' = inject_effective_tenant ''team'' small_request"
proof -
  let ?run = "admit_request flat_kdf (Some key_registry) small_limits 0 small_request \<lparr>as_clients = Map.empty, as_actors = Map.empty\<rparr>"
  have "case fst ?run of Inr (st, rq') \<Rightarrow> sp_tenants st = Some [''team''] | Inl _ \<Rightarrow> False" by code_simp
  then obtain st rq' s' where run: "?run = (Inr (st, rq'), s')" and ts: "sp_tenants st = Some [''team'']"
    by (cases ?run) (auto split: sum.splits prod.splits)
  have path: "is_admin_write (aq_method small_request) (url_path (aq_url small_request))"
    "\<not> is_public_path (aq_url small_request)" "requested_tenants small_request = []" by code_simp+
  show ?thesis using admitted_request_is_authorized [OF run] path ts run by auto
qed

text \<open>What a handler that reads one of the two places may find there.\<close>

lemma body_after_binding:
  assumes "bind_tenant st rq = Inr rq'" "\<not> is_public_path (aq_url rq)" "sp_tenants st = Some ts" "ts \<noteq> []"
    "[] \<notin> set ts" "aq_body rq = Some (JObj kvs)" "query_tenant_id rq = None"
  shows "\<exists>t \<in> set ts. body_tenant_id rq' = Some t"
proof -
  from bound_tenants [OF assms(1-4)] show ?thesis
  proof (elim disjE conjE exE)
    assume "requested_tenants rq \<noteq> []" "rq' = rq" "set (requested_tenants rq) \<subseteq> set ts"
    then show ?thesis using assms(7) by (auto simp: requested_none requested_set)
  next
    fix t assume "requested_tenants rq = []" "ts = [t]" "rq' = inject_effective_tenant t rq"
    then show ?thesis using assms(5,6) injected_body(1) [of t rq kvs] by (simp add: requested_none)
  qed
qed

section \<open>Counting\<close>

text \<open>A sequence of hits, each with its time and its key, and which of them pass.\<close>

fun run_windows :: "nat \<Rightarrow> int \<Rightarrow> (int \<times> string) list \<Rightarrow> windows \<Rightarrow> bool list \<times> windows" where
  "run_windows most width [] m = ([], m)"
| "run_windows most width ((now, k) # es) m =
     (case hit_window most width now k m of
        (ok, m1) \<Rightarrow> (case run_windows most width es m1 of (oks, m2) \<Rightarrow> (ok # oks, m2)))"

definition passed :: "string \<Rightarrow> (int \<times> string) list \<Rightarrow> bool list \<Rightarrow> nat" where
  "passed k es oks = length (filter (\<lambda>((now, k'), ok). k' = k \<and> ok) (zip es oks))"

lemma passed_Cons: "passed k (e # es) (ok # oks) = (if snd e = k \<and> ok then 1 else 0) + passed k es oks"
  by (cases e) (simp add: passed_def)

lemma other_key: "k' \<noteq> k \<Longrightarrow> snd (hit_window most width now k' m) k = m k"
  by (auto simp: hit_window_def split: option.split)

lemma open_window_bound:
  assumes "m k = Some \<lparr>we_count = c, we_start = t0\<rparr>" "\<forall>(t, k') \<in> set es. k' = k \<longrightarrow> t - t0 \<le> width"
    "run_windows most width es m = (oks, m')"
  shows "passed k es oks \<le> most - c"
  using assms
proof (induction es arbitrary: m c oks)
  case (Cons e es)
  obtain t k' where e: "e = (t, k')" by (cases e)
  obtain ok m1 where hit: "hit_window most width t k' m = (ok, m1)" by (cases "hit_window most width t k' m")
  obtain oks1 where run: "run_windows most width es m1 = (oks1, m')" "oks = ok # oks1"
    using Cons.prems(3) by (auto simp: e hit split: prod.splits)
  have rest: "\<forall>(t, k') \<in> set es. k' = k \<longrightarrow> t - t0 \<le> width" using Cons.prems(2) by simp
  show ?case
  proof (cases "k' = k")
    case False
    then have "m1 k = Some \<lparr>we_count = c, we_start = t0\<rparr>" using other_key [of k' k most width t m] hit Cons.prems(1) by simp
    from Cons.IH [OF this rest run(1)] show ?thesis using False by (simp add: run(2) passed_Cons e)
  next
    case True
    have hits: "ok = (Suc c \<le> most)" "m1 k = Some \<lparr>we_count = Suc c, we_start = t0\<rparr>"
      using hit Cons.prems(1,2) by (auto simp: hit_window_def True e)
    from Cons.IH [OF hits(2) rest run(1)] show ?thesis using True by (auto simp: run(2) passed_Cons e hits(1))
  qed
qed (simp add: passed_def)

text \<open>
  C31. A window bounds what passes. Of the hits of one key from its first, whatever other keys do between
  them, at most the configured number and never fewer than one pass until the window is over; a hit after it
  passes and opens the next one.
\<close>

theorem window_bounds_hits:
  assumes "m k = None \<or> (\<exists>e. m k = Some e \<and> width < t0 - we_start e)"
    "\<forall>(t, k') \<in> set es. k' = k \<longrightarrow> t - t0 \<le> width"
    "run_windows most width ((t0, k) # es) m = (oks, m')"
  shows "1 \<le> passed k ((t0, k) # es) oks \<and> passed k ((t0, k) # es) oks \<le> max 1 most
    \<and> (\<forall>now e. m' k = Some e \<and> width < now - we_start e \<longrightarrow> fst (hit_window most width now k m'))"
proof -
  have hit: "hit_window most width t0 k m = (True, m(k \<mapsto> \<lparr>we_count = 1, we_start = t0\<rparr>))"
    using assms(1) by (auto simp: hit_window_def)
  obtain oks1 where run: "run_windows most width es (m(k \<mapsto> \<lparr>we_count = 1, we_start = t0\<rparr>)) = (oks1, m')" "oks = True # oks1"
    using assms(3) by (auto simp: hit split: prod.splits)
  have "passed k es oks1 \<le> most - 1" by (rule open_window_bound [OF _ assms(2) run(1)]) simp
  then show ?thesis by (auto simp: run(2) passed_Cons hit_window_def)
qed

theorem window_bounds_hits_witness:
  "passed ''a'' [(0, ''a''), (1, ''b''), (2, ''a''), (3, ''a'')]
     (fst (run_windows 2 10 [(0, ''a''), (1, ''b''), (2, ''a''), (3, ''a'')] Map.empty)) \<le> 2"
proof -
  obtain oks m' where run: "run_windows 2 10 ((0, ''a'') # [(1, ''b''), (2, ''a''), (3, ''a'')]) Map.empty = (oks, m')"
    by (cases "run_windows 2 10 ((0, ''a'') # [(1, ''b''), (2, ''a''), (3, ''a'')]) Map.empty")
  show ?thesis using window_bounds_hits [OF _ _ run] run by simp
qed

text \<open>The window is fixed, not sliding: three hits within two milliseconds pass a limit of two per ten.\<close>

lemma window_does_not_slide:
  "fst (run_windows 2 10 [(0, ''a''), (10, ''a''), (11, ''a''), (12, ''a'')] Map.empty) = [True, True, True, True]"
  by code_simp

end
