(* ===== verification/Search_Laws.thy ===== *)
theory Search_Laws
  imports Search_Service Access_Laws Hold_Expiry
begin

text \<open>
  What a search shows and to whom: only memories the reader is cleared for, in whole pages of one ranking;
  and how the tenant binding of the hooks reaches the query the route runs.
\<close>

section \<open>Hits and the rows behind them\<close>

text \<open>The full-text index returns rows of the table.\<close>

definition index_ok :: "world \<Rightarrow> bool" where
  "index_ok w \<longleftrightarrow> (\<forall>f. w_full_text w = Some f \<longrightarrow> (\<forall>t q. set (f t q) \<subseteq> set t))"

definition cleared :: "string \<Rightarrow> curated_memory \<Rightarrow> bool" where
  "cleared role m \<longleftrightarrow> is_search_visible_sensitivity (sensitivity_name (mem_sensitivity m))
     \<and> is_audience_visible_to_role (audience (mem_metadata m)) (Some role)"

lemma view_of_member: "rows_hold fmt ms t \<Longrightarrow> m \<in> set ms \<Longrightarrow> view fmt t (mem_id m) = Some m"
proof -
  assume ok: "rows_hold fmt ms t" and m: "m \<in> set ms"
  have "distinct (map mem_id ms)" using ok by (simp add: rows_hold_def)
  then have "find (\<lambda>x. mem_id x = mem_id m) ms = Some m" using m
    by (induction ms) auto
  then show ?thesis by (simp add: view_stored [OF ok])
qed

lemma map_result_member: "map_result f xs = Inr ys \<Longrightarrow> y \<in> set ys \<Longrightarrow> \<exists>x \<in> set xs. f x = Inr y"
proof (induction xs arbitrary: ys)
  case (Cons x xs)
  then obtain z zs where "f x = Inr z" "map_result f xs = Inr zs" "ys = z # zs" by (auto split: sum.splits)
  then show ?case using Cons by (cases "y = z") auto
qed simp

lemma searched_rows:
  assumes "search_by_text fmt full q tn cats t = Inr ms" "m \<in> set ms"
    "\<forall>f. full = Some f \<longrightarrow> (\<forall>t q. set (f t q) \<subseteq> set t)"
  shows "\<exists>r \<in> set t. read_memory fmt r = Inr m \<and> mr_lifecycle r = ''active'' \<and> optional_filters tn cats r"
proof (cases full)
  case None
  let ?rs = "filter (\<lambda>r. mr_lifecycle r = ''active'' \<and> (like_match (''%'' @ escape_like q @ ''%'') (mr_title r)
      \<or> like_match (''%'' @ escape_like q @ ''%'') (mr_content r)) \<and> optional_filters tn cats r) t"
  have "map_result (read_memory fmt) (take 100 ?rs) = Inr ms"
    using assms(1) None by (simp add: search_by_text_def search_by_like_def Let_def)
  moreover have "set ?rs \<subseteq> {r \<in> set t. mr_lifecycle r = ''active'' \<and> optional_filters tn cats r}" by auto
  ultimately obtain rs where "map_result (read_memory fmt) (take 100 rs) = Inr ms"
      "set rs \<subseteq> {r \<in> set t. mr_lifecycle r = ''active'' \<and> optional_filters tn cats r}" by blast
  then show ?thesis using map_result_member [OF _ assms(2)] set_take_subset [of 100 rs] by blast
next
  case (Some f)
  show ?thesis
  proof (cases "fts_query q = []")
    case False
    let ?rs = "filter (\<lambda>r. mr_lifecycle r = ''active'' \<and> optional_filters tn cats r) (f t (fts_query q))"
    have "map_result (read_memory fmt) (take 100 ?rs) = Inr ms"
      using assms(1) Some False by (simp add: search_by_text_def search_by_fts_def Let_def)
    moreover have "set ?rs \<subseteq> {r \<in> set (f t (fts_query q)). mr_lifecycle r = ''active'' \<and> optional_filters tn cats r}" by auto
    ultimately obtain rs where "map_result (read_memory fmt) (take 100 rs) = Inr ms"
        "set rs \<subseteq> {r \<in> set (f t (fts_query q)). mr_lifecycle r = ''active'' \<and> optional_filters tn cats r}" by blast
    then show ?thesis using map_result_member [OF _ assms(2)] set_take_subset [of 100 rs] assms(3) Some by blast
  qed (use assms Some in \<open>simp add: search_by_text_def search_by_fts_def\<close>)
qed

lemma searched_memory:
  assumes "table_ok fmt t" "search_by_text fmt full q tn cats t = Inr ms" "m \<in> set ms"
    "\<forall>f. full = Some f \<longrightarrow> (\<forall>t q. set (f t q) \<subseteq> set t)"
  shows "view fmt t (mem_id m) = Some m \<and> mem_lifecycle m = Active \<and> (\<forall>x. tn = Some x \<longrightarrow> mem_tenant m = x)"
proof -
  obtain xs where xs: "rows_hold fmt xs t" using assms(1) by (auto simp: table_ok_def)
  obtain r where r: "r \<in> set t" "read_memory fmt r = Inr m" "mr_lifecycle r = ''active''" "optional_filters tn cats r"
    using searched_rows [OF assms(2-4)] by blast
  obtain x where x: "x \<in> set xs" "r = memory_to_row x" "memory_wf fmt x" using xs r(1) by (auto simp: rows_hold_def)
  have m: "m = x" using r(2) read_stored [OF x(3)] x(2) by simp
  have "lifecycle_name (mem_lifecycle x) = ''active''" using r(3) x(2) by (simp add: memory_to_row_def)
  then have "mem_lifecycle x = Active" by (cases "mem_lifecycle x") simp_all
  then show ?thesis using view_of_member [OF xs x(1)] r(4) x(2) m
    by (auto simp: optional_filters_def memory_to_row_def)
qed

lemma page_members: "h \<in> set (sr_hits (paginate hs q f)) \<Longrightarrow> \<exists>x \<in> set hs. h = f x"
  by (auto simp: paginate_def Let_def dest!: in_set_takeD in_set_dropD)

lemma sqlite_hit:
  assumes "table_ok (w_formats w) t" "index_ok w" "search_via_sqlite w decay now q role t = Inr r" "h \<in> set (sr_hits r)"
  shows "\<exists>m. sh_memory h = Some (mem_id m) \<and> view (w_formats w) t (mem_id m) = Some m \<and> cleared role m
    \<and> mem_lifecycle m = Active \<and> bulk_visible (sq_scope q) m \<and> (\<forall>x. sq_tenant q = Some x \<longrightarrow> mem_tenant m = x)"
proof -
  obtain ms where ms: "search_by_text (w_formats w) (w_full_text w) (sq_query q) (sq_tenant q) (map_option (map category_name) (sq_categories q)) t = Inr ms"
      "r = paginate (rerank decay now (Some (sq_query q)) (memory_input (sq_query q))
        (filter (\<lambda>m. is_search_visible_sensitivity (sensitivity_name (mem_sensitivity m))
             \<and> is_audience_visible_to_role (audience (mem_metadata m)) (Some role) \<and> bulk_visible (sq_scope q) m) ms)) q memory_hit"
    using assms(3) by (auto simp: search_via_sqlite_def and_then_Inr Let_def)
  obtain m f where m: "h = memory_hit (m, f)" "m \<in> set ms" "cleared role m" "bulk_visible (sq_scope q) m"
    using page_members [OF assms(4) [unfolded ms(2)]] by (auto simp: cleared_def dest!: rerank_scores)
  show ?thesis using searched_memory [OF assms(1) ms(1) m(2)] assms(2) m(1,3,4) by (auto simp: index_ok_def memory_hit_def)
qed

lemma enriched_members:
  "enrich_hits now resolve hs = Inr es \<Longrightarrow> e \<in> set es \<Longrightarrow>
     \<exists>h \<in> set hs. \<exists>meta. (case extract_memory_id (ch_file h) of None \<Rightarrow> Inr None | Some i \<Rightarrow> resolve i) = Inr meta \<and> e = enrich_hit now h meta"
proof (induction hs arbitrary: es)
  case (Cons h hs)
  then obtain meta es1 where parts: "(case extract_memory_id (ch_file h) of None \<Rightarrow> Inr None | Some i \<Rightarrow> resolve i) = Inr meta"
      "enrich_hits now resolve hs = Inr es1" "es = enrich_hit now h meta # es1"
    by (auto simp: and_then_Inr)
  show ?case
  proof (cases "e = enrich_hit now h meta")
    case False
    then have "e \<in> set es1" using Cons.prems(2) parts(3) by simp
    then show ?thesis using Cons.IH [OF parts(2)] by auto
  qed (use parts(1) in auto)
qed simp

lemma normalised_files: "h \<in> set (normalised_hits hs) \<Longrightarrow> \<exists>h0 \<in> set hs. ch_file h = ch_file h0"
  by (force simp: normalised_hits_def Let_def in_set_enumerate_eq)

lemma qmd_hit:
  assumes "table_ok (w_formats w) t" "search_via_qmd w decay p now q role t = Inr r" "h \<in> set (sr_hits r)"
  shows "\<exists>hs c. p (sq_query q) (sq_scope q) (sq_tenant q) = Some hs \<and> c \<in> set hs \<and> sh_citation h = Some (ch_file c)
    \<and> (case sh_memory h of
         Some i \<Rightarrow> extract_memory_id (ch_file c) = Some i \<and> (\<exists>m. view (w_formats w) t i = Some m \<and> cleared role m)
       | None \<Rightarrow> (\<forall>i. extract_memory_id (ch_file c) = Some i \<longrightarrow> view (w_formats w) t i = None))"
proof -
  obtain hs where hs: "p (sq_query q) (sq_scope q) (sq_tenant q) = Some hs"
    using assms(2,3) by (auto simp: search_via_qmd_def split: option.splits)
  obtain es where es: "enrich_hits now (resolve_citation (w_formats w) t) (normalised_hits hs) = Inr es"
      "r = paginate (filter (\<lambda>x. is_search_visible_sensitivity (eh_sensitivity (fst x))
          \<and> is_audience_visible_to_role (Some (eh_audience (fst x))) (Some role)) (rerank decay now (Some (sq_query q)) enriched_input es)) q cited_search_hit"
    using assms(2) hs by (auto simp: search_via_qmd_def rerank_cited_def and_then_Inr Let_def)
  obtain e f where e: "h = cited_search_hit (e, f)" "e \<in> set es" "is_search_visible_sensitivity (eh_sensitivity e)"
      "is_audience_visible_to_role (Some (eh_audience e)) (Some role)"
    using page_members [OF assms(3) [unfolded es(2)]] by (auto dest!: rerank_scores)
  obtain c meta where c: "c \<in> set (normalised_hits hs)" "e = enrich_hit now c meta"
      "(case extract_memory_id (ch_file c) of None \<Rightarrow> Inr None | Some i \<Rightarrow> resolve_citation (w_formats w) t i) = Inr meta"
    using enriched_members [OF es(1) e(2)] by blast
  obtain c0 where c0: "c0 \<in> set hs" "ch_file c = ch_file c0" using normalised_files [OF c(1)] by blast
  have cite: "sh_citation h = Some (ch_file c0)"
    using e(1) c(2) c0(2) by (cases meta) (simp_all add: cited_search_hit_def enrich_hit_def)
  show ?thesis
  proof (cases meta)
    case None
    then have "sh_memory h = None" using e(1) c(2) by (simp add: cited_search_hit_def enrich_hit_def)
    moreover have "view (w_formats w) t i = None" if "extract_memory_id (ch_file c0) = Some i" for i
      using that c(3) None c0(2) find_memory_ok [OF assms(1), of i] by (simp add: resolve_citation_def)
    ultimately show ?thesis using hs c0(1) cite by auto
  next
    case (Some md)
    then obtain i where i: "extract_memory_id (ch_file c) = Some i" "resolve_citation (w_formats w) t i = Inr (Some md)"
      using c(3) by (auto split: option.splits)
    then obtain m where m: "view (w_formats w) t i = Some m"
        "md = \<lparr>cm_category = category_name (mem_category m), cm_updated_at = updated_at m,
          cm_sensitivity = sensitivity_name (mem_sensitivity m), cm_audience = audience (mem_metadata m),
          cm_title = mem_title m, cm_lifecycle = lifecycle_name (mem_lifecycle m)\<rparr>"
      using find_memory_ok [OF assms(1), of i] by (auto simp: resolve_citation_def)
    have "cleared role m" using e(3,4) c(2) Some m(2)
      by (cases "audience (mem_metadata m)") (simp_all add: enrich_hit_def cleared_def is_audience_visible_to_role_def resolve_audience_def split: option.splits)
    moreover have "sh_memory h = Some i" using e(1) c(2) Some i(1) by (simp add: cited_search_hit_def enrich_hit_def)
    ultimately show ?thesis using hs c0 cite i(1) m(1) by auto
  qed
qed

section \<open>References\<close>

lemma collected_references:
  "table_ok fmt t \<Longrightarrow> collect_references fmt t sc tn seen ns = Inr rs \<Longrightarrow> x \<in> set rs \<Longrightarrow>
     \<exists>m. view fmt t (rf_memory x) = Some m \<and> shown_memory sc m \<and> mem_tenant m = tn \<and> rf_title x = mem_title m"
proof (induction ns arbitrary: seen rs)
  case (Cons n ns)
  show ?case
  proof (cases "nb_type n \<noteq> Contradicts \<or> js_lower (nb_memory n) \<in> set seen")
    case True
    then show ?thesis using Cons by auto
  next
    case False
    have found: "find_memory fmt (nb_memory n) t = Inr (view fmt t (nb_memory n))" by (rule find_memory_ok [OF Cons.prems(1)])
    obtain rs1 where rs1: "collect_references fmt t sc tn (js_lower (nb_memory n) # seen) ns = Inr rs1"
      using Cons.prems(2) False found by (auto simp: and_then_Inr)
    note ih = Cons.IH [OF Cons.prems(1) rs1]
    obtain ms where ms: "rows_hold fmt ms t" using Cons.prems(1) by (auto simp: table_ok_def)
    show ?thesis
    proof (cases "view fmt t (nb_memory n)")
      case None
      then show ?thesis using Cons.prems(2,3) False found rs1 ih by auto
    next
      case (Some m)
      have "mem_id m = nb_memory n" using view_in [OF ms Some] by simp
      then show ?thesis using Cons.prems(2,3) False found rs1 ih Some by (auto split: if_splits)
    qed
  qed
qed simp

lemma read_references:
  assumes "table_ok fmt t" "parse_references fmt (read_contradictions fmt t ls i sc) = Some rs" "x \<in> set rs"
  shows "\<exists>m m'. view fmt t i = Some m \<and> shown_memory sc m \<and> view fmt t (rf_memory x) = Some m' \<and> shown_memory sc m'
    \<and> mem_tenant m' = mem_tenant m"
proof -
  obtain rs0 x0 where rs0: "read_contradictions fmt t ls i sc = Some rs0" "x0 \<in> set rs0" "rf_memory x = rf_memory x0"
    using assms(2,3) by (auto simp: parse_references_def split: Option.bind_splits if_splits)
  have found: "find_memory fmt i t = Inr (view fmt t i)" by (rule find_memory_ok [OF assms(1)])
  obtain m where m: "view fmt t i = Some m" "shown_memory sc m"
    using rs0(1) found by (auto simp: read_contradictions_def split: if_splits option.splits)
  obtain rs1 where rs1: "collect_references fmt t sc (mem_tenant m) [js_lower i]
      (neighbors t i (Some (sc\<lparr>gs_tenant := Some (mem_tenant m)\<rparr>)) ls) = Inr rs1" "rs0 = sort_key rf_memory rs1"
    using rs0(1) found m by (auto simp: read_contradictions_def split: if_splits sum.splits)
  have "x0 \<in> set rs1" using rs0(2) rs1(2) by simp
  from collected_references [OF assms(1) rs1(1) this] show ?thesis using m rs0(3) by metis
qed

text \<open>
  C12. A search shows only cleared memories. Over a well-formed table, a hit that names a memory names a
  stored one whose sensitivity is not hidden from search and whose audience the reader is cleared for; on the
  database path it is also active, of the tenant the query names and of the scope. A hit that names none
  comes from the index and its citation resolves to no stored memory. The contradictions of a hit are active
  memories of the same tenant that this reader may see as well.
\<close>

theorem search_shows_only_cleared_memories:
  assumes "table_ok (w_formats w) (st_memories s)" "index_ok w" "search w decay port now q role s = Inr r" "h \<in> set (sr_hits r)"
  shows "(\<forall>i. sh_memory h = Some i \<longrightarrow>
      (\<exists>m. view (w_formats w) (st_memories s) i = Some m \<and> cleared role m
         \<and> (port = None \<longrightarrow> mem_lifecycle m = Active \<and> bulk_visible (sq_scope q) m \<and> (\<forall>x. sq_tenant q = Some x \<longrightarrow> mem_tenant m = x))))
    \<and> (sh_memory h = None \<longrightarrow> (\<exists>p hs c. port = Some p \<and> p (sq_query q) (sq_scope q) (sq_tenant q) = Some hs \<and> c \<in> set hs
         \<and> sh_citation h = Some (ch_file c)
         \<and> (\<forall>i. extract_memory_id (ch_file c) = Some i \<longrightarrow> view (w_formats w) (st_memories s) i = None)))
    \<and> (\<forall>rs x. sh_contradictions h = Some (Some rs) \<and> x \<in> set rs \<longrightarrow>
         (\<exists>i m m'. sh_memory h = Some i \<and> view (w_formats w) (st_memories s) i = Some m
            \<and> view (w_formats w) (st_memories s) (rf_memory x) = Some m' \<and> mem_lifecycle m' = Active
            \<and> cleared role m' \<and> mem_tenant m' = mem_tenant m))"
proof -
  obtain r0 where r0: "(case port of None \<Rightarrow> search_via_sqlite w decay now q role (st_memories s)
        | Some p \<Rightarrow> search_via_qmd w decay p now q role (st_memories s)) = Inr r0"
      "r = r0\<lparr>sr_hits := map (with_contradictions (w_formats w) (st_memories s) (st_links s) q role) (sr_hits r0)\<rparr>"
    using assms(3) by (auto simp: search_def split: if_splits sum.splits)
  obtain h0 where h0: "h0 \<in> set (sr_hits r0)" "h = with_contradictions (w_formats w) (st_memories s) (st_links s) q role h0"
    using assms(4) r0(2) by auto
  have same: "sh_memory h = sh_memory h0" "sh_citation h = sh_citation h0" using h0(2) by (simp_all add: with_contradictions_def)
  have found: "\<exists>i m m'. sh_memory h = Some i \<and> view (w_formats w) (st_memories s) i = Some m
            \<and> view (w_formats w) (st_memories s) (rf_memory x) = Some m' \<and> mem_lifecycle m' = Active
            \<and> cleared role m' \<and> mem_tenant m' = mem_tenant m"
    if x: "sh_contradictions h = Some (Some rs)" "x \<in> set rs" for rs x
  proof -
    obtain i where i: "sh_memory h0 = Some i"
        "parse_references (w_formats w) (read_contradictions (w_formats w) (st_memories s) (st_links s) i
           \<lparr>gs_tenant = sq_tenant q, gs_allowed = None, gs_role = role\<rparr>) = Some rs"
      using x(1) h0(2) by (auto simp: with_contradictions_def split: Option.bind_splits if_splits)
    from read_references [OF assms(1) i(2) x(2)] show ?thesis using i(1) same(1) by (auto simp: shown_memory_def cleared_def)
  qed
  have refs: "\<forall>rs x. sh_contradictions h = Some (Some rs) \<and> x \<in> set rs \<longrightarrow>
         (\<exists>i m m'. sh_memory h = Some i \<and> view (w_formats w) (st_memories s) i = Some m
            \<and> view (w_formats w) (st_memories s) (rf_memory x) = Some m' \<and> mem_lifecycle m' = Active
            \<and> cleared role m' \<and> mem_tenant m' = mem_tenant m)"
    by (intro allI impI, elim conjE) (rule found)
  show ?thesis
  proof (cases port)
    case None
    then obtain m where m: "sh_memory h0 = Some (mem_id m)" "view (w_formats w) (st_memories s) (mem_id m) = Some m" "cleared role m"
        "mem_lifecycle m = Active" "bulk_visible (sq_scope q) m" "\<forall>x. sq_tenant q = Some x \<longrightarrow> mem_tenant m = x"
      using sqlite_hit [OF assms(1,2) _ h0(1), of decay now q role] r0(1) by auto
    then have one: "\<forall>i. sh_memory h = Some i \<longrightarrow>
      (\<exists>m. view (w_formats w) (st_memories s) i = Some m \<and> cleared role m
         \<and> (port = None \<longrightarrow> mem_lifecycle m = Active \<and> bulk_visible (sq_scope q) m \<and> (\<forall>x. sq_tenant q = Some x \<longrightarrow> mem_tenant m = x)))"
      using same by simp
    have "sh_memory h \<noteq> None" using m(1) same by simp
    then show ?thesis by (intro conjI one refs impI) (erule (1) notE)
  next
    case (Some p)
    from qmd_hit [OF assms(1) _ h0(1), of decay p now q role] r0(1) Some
    obtain hs c where c: "p (sq_query q) (sq_scope q) (sq_tenant q) = Some hs" "c \<in> set hs" "sh_citation h0 = Some (ch_file c)"
       "case sh_memory h0 of
         Some i \<Rightarrow> extract_memory_id (ch_file c) = Some i \<and> (\<exists>m. view (w_formats w) (st_memories s) i = Some m \<and> cleared role m)
       | None \<Rightarrow> (\<forall>i. extract_memory_id (ch_file c) = Some i \<longrightarrow> view (w_formats w) (st_memories s) i = None)" by auto
    have one: "\<forall>i. sh_memory h = Some i \<longrightarrow> (\<exists>m. view (w_formats w) (st_memories s) i = Some m \<and> cleared role m
         \<and> (port = None \<longrightarrow> mem_lifecycle m = Active \<and> bulk_visible (sq_scope q) m \<and> (\<forall>x. sq_tenant q = Some x \<longrightarrow> mem_tenant m = x)))"
      using c(4) same Some by auto
    have "sh_memory h = None \<longrightarrow> (\<forall>i. extract_memory_id (ch_file c) = Some i \<longrightarrow> view (w_formats w) (st_memories s) i = None)"
      using c(4) same by auto
    then have two: "sh_memory h = None \<longrightarrow> (\<exists>p hs c. port = Some p \<and> p (sq_query q) (sq_scope q) (sq_tenant q) = Some hs \<and> c \<in> set hs
         \<and> sh_citation h = Some (ch_file c)
         \<and> (\<forall>i. extract_memory_id (ch_file c) = Some i \<longrightarrow> view (w_formats w) (st_memories s) i = None))"
      using c(1-3) Some same(2) by auto
    show ?thesis by (intro conjI one two refs)
  qed
qed

section \<open>Pages\<close>

lemma final_score_nonneg:
  assumes "0 \<le> ri_score h" "\<And>a b. 0 \<le> decay a b \<and> decay a b \<le> 1"
  shows "0 \<le> final_score decay now q h"
proof -
  have "0 \<le> ri_score h * freshness_factor (decay (ri_updated_at h) now) * category_boost (ri_category h)
       * policy_factor (ri_title h) (ri_lifecycle h) q"
    using assms factor_bounds(1) [of "decay (ri_updated_at h) now"] factor_bounds(3) [of "ri_category h"]
      factor_bounds(5) [of "ri_title h" "ri_lifecycle h" q] by (intro mult_nonneg_nonneg) (auto intro: order_trans)
  moreover have "\<lfloor>1 / 2 :: rat\<rfloor> = 0" by (rule floor_unique) simp_all
  then have "round_milli 0 = 0" by (simp add: round_milli_def)
  ultimately show ?thesis using round_milli_mono by (fastforce simp: final_score_def)
qed

lemma falling_scores: "sorted (map (\<lambda>p. - snd p) ps) \<Longrightarrow> sorted (map (\<lambda>p. - min (snd p) 1) ps)" for ps :: "('h \<times> rat) list"
  by (induction ps) auto

text \<open>
  Pages are slices of one ranking. For a query there is one list of hits, the same for every page, with
  scores between zero and one that never rise along it; page \<open>p\<close> of size \<open>n\<close> is the \<open>n\<close> hits after the first
  \<open>(p - 1) * n\<close>, the total is the length of the list, and more are announced exactly when some hit comes after
  the page.
\<close>

theorem search_pages_are_slices:
  assumes "\<And>a b. 0 \<le> decay a b \<and> decay a b \<le> 1"
  shows "\<exists>hs. \<forall>p n. 1 \<le> p \<longrightarrow>
    (case search_via_sqlite w decay now (q\<lparr>sq_page := p, sq_page_size := n\<rparr>) role t of
       Inl e \<Rightarrow> search_by_text (w_formats w) (w_full_text w) (sq_query q) (sq_tenant q) (map_option (map category_name) (sq_categories q)) t = Inl e
     | Inr r \<Rightarrow> sr_hits r = take n (drop ((p - 1) * n) hs) \<and> sr_total r = length hs \<and> (sr_has_more r \<longleftrightarrow> p * n < length hs)
         \<and> sorted (map (\<lambda>h. - sh_score h) hs) \<and> (\<forall>h \<in> set hs. 0 \<le> sh_score h \<and> sh_score h \<le> 1))"
proof (cases "search_by_text (w_formats w) (w_full_text w) (sq_query q) (sq_tenant q) (map_option (map category_name) (sq_categories q)) t")
  case (Inl e)
  then show ?thesis by (simp add: search_via_sqlite_def)
next
  case (Inr ms)
  define L where "L = rerank decay now (Some (sq_query q)) (memory_input (sq_query q))
      (filter (\<lambda>m. is_search_visible_sensitivity (sensitivity_name (mem_sensitivity m))
             \<and> is_audience_visible_to_role (audience (mem_metadata m)) (Some role) \<and> bulk_visible (sq_scope q) m) ms)"
  have score: "sh_score (memory_hit x) = min (snd x) 1" for x by (cases x) (simp add: memory_hit_def)
  have low: "0 \<le> snd x" if "x \<in> set L" for x
  proof -
    obtain m f where x: "x = (m, f)" by (cases x)
    have "f = final_score decay now (Some (sq_query q)) (memory_input (sq_query q) m)"
      by (rule rerank_scores [OF that [unfolded L_def x], THEN conjunct2])
    then show ?thesis using final_score_nonneg [of "memory_input (sq_query q) m" decay] assms by (simp add: memory_input_def x)
  qed
  have "sorted (map (\<lambda>h. - sh_score h) (map memory_hit L))"
    using falling_scores [OF rerank_sorted] by (simp add: comp_def score L_def)
  moreover have "\<forall>h \<in> set (map memory_hit L). 0 \<le> sh_score h \<and> sh_score h \<le> 1" using low by (auto simp: score)
  moreover have "search_via_sqlite w decay now (q\<lparr>sq_page := p, sq_page_size := n\<rparr>) role t
      = Inr (paginate L (q\<lparr>sq_page := p, sq_page_size := n\<rparr>) memory_hit)" for p n
    by (simp add: search_via_sqlite_def Inr L_def)
  moreover have "(p - 1) * n + n = p * n" if "1 \<le> p" for p n :: nat using that by (simp add: diff_mult_distrib)
  ultimately show ?thesis
    by (intro exI [of _ "map memory_hit L"]) (simp add: paginate_def Let_def take_map drop_map)
qed

section \<open>The tenant a search runs under\<close>

lemma read_tenant:
  assumes "read_search_query fmt v = Some q"
  shows "sq_tenant q = (case jget v ''tenantId'' of Some (JStr s) \<Rightarrow> Some (js_trim s) | _ \<Rightarrow> None)"
    "jget v ''tenantId'' = None \<or> (\<exists>s. jget v ''tenantId'' = Some (JStr s))" "is_object v"
proof -
  obtain tn where tn: "optional_member read_text v ''tenantId'' = Some tn" "sq_tenant q = tn" "is_object v"
    using assms by (auto simp: read_search_query_def split: Option.bind_splits if_splits)
  have parsed: "read_text x = Some y \<Longrightarrow> \<exists>s. x = JStr s \<and> y = js_trim s" for x y
    by (cases x) (auto simp: read_text_def non_empty_string_def Let_def split: if_splits)
  show "sq_tenant q = (case jget v ''tenantId'' of Some (JStr s) \<Rightarrow> Some (js_trim s) | _ \<Rightarrow> None)"
    "jget v ''tenantId'' = None \<or> (\<exists>s. jget v ''tenantId'' = Some (JStr s))" "is_object v"
    using tn by (auto simp: optional_member_def split: option.splits dest!: parsed)
qed

lemma jset_object: "jset k x v = JObj kvs \<longleftrightarrow> (\<exists>kvs0. v = JObj kvs0 \<and> kvs = json_put k x kvs0)"
  by (cases v) auto


text \<open>
  A tenant in the query string takes the scope off the body. The guard counts a tenant named in the
  query string as the tenant of the request and writes none into the body; but the search route reads the
  body only. A request of a scoped token that names one of its tenants in the query string and none in the
  body is admitted as it is, and searches under no tenant at all, exactly as a token of the same standing
  with no list would.
\<close>

theorem query_tenant_unscopes_the_search:
  assumes "sp_tenants st = Some ts" "query_tenant_id rq = Some t" "t \<in> set ts"
    "aq_body rq = Some v" "jget v ''tenantId'' = None"
  shows "bind_tenant st rq = Inr rq
    \<and> (\<forall>q. read_search_query fmt v = Some q \<longrightarrow> sq_tenant q = None)
    \<and> search_route w decay port now st rq s = search_route w decay port now (st\<lparr>sp_tenants := None\<rparr>) rq s"
proof -
  have body: "body_tenant_id rq = None" using assms(4,5) by (simp add: body_tenant_id_def filled_string_def)
  then have "requested_tenants rq = [t]" using assms(2) by (simp add: requested_tenants_def map_filter_def)
  then have "bind_tenant st rq = Inr rq" using assms(1,3) by (cases ts) (auto simp: bind_tenant_def)
  moreover have "reader_role_of (st\<lparr>sp_tenants := None\<rparr>) = reader_role_of st" by (simp add: reader_role_of_def)
  then have "search_route w decay port now st rq s = search_route w decay port now (st\<lparr>sp_tenants := None\<rparr>) rq s"
    by (simp only: search_route_def)
  ultimately show ?thesis using read_tenant(1) assms(5) by auto
qed

section \<open>A small search\<close>

definition text_state :: store_state where
  "text_state = \<lparr>st_candidates = [], st_memories = [memory_to_row (plain_memory ''m1'' ''a text'')], st_audits = [],
     st_links = [], st_policies = []\<rparr>"

definition text_query :: search_query where
  "text_query = \<lparr>sq_query = ''text'', sq_scope = Scope_all, sq_tenant = Some ''team'', sq_categories = None, sq_date_from = None,
     sq_date_to = None, sq_page = 1, sq_page_size = 20\<rparr>"

definition no_decay :: decay where
  "no_decay a b = 1"

definition search_request :: api_request where
  "search_request = \<lparr>aq_method = ''POST'', aq_url = ''/api/search'', aq_ip = ''127.0.0.1'',
     aq_authorization = Some ''Bearer key'', aq_content_length = Some ''20'', aq_query = [],
     aq_body = Some (JObj [(''query'', JStr ''text''), (''scope'', JStr ''all'')])\<rparr>"

lemma plain_index [simp]: "w_formats plain_world = any_format" "w_full_text plain_world = None" "index_ok plain_world"
  by (simp_all add: plain_world_def index_ok_def)

lemma text_state_ok: "table_ok any_format (st_memories text_state)"
proof -
  have "memory_wf any_format (plain_memory ''m1'' ''a text'')" by (rule plain_memory_wf) simp
  then show ?thesis unfolding table_ok_def text_state_def
    by (intro exI [of _ "[plain_memory ''m1'' ''a text'']"]) (simp add: rows_hold_def)
qed

lemma text_found:
  "search_by_text any_format None ''text'' (Some ''team'') None (st_memories text_state) = Inr [plain_memory ''m1'' ''a text'']"
proof -
  let ?r = "memory_to_row (plain_memory ''m1'' ''a text'')"
  have "mr_lifecycle ?r = ''active''" "optional_filters (Some ''team'') None ?r"
    by (simp_all add: memory_to_row_def plain_memory_def optional_filters_def)
  moreover have "like_match (''%'' @ escape_like ''text'' @ ''%'') (mr_content ?r)"
    unfolding memory_row_cells plain_memory_def curated_memory.select_convs by code_simp
  moreover have "read_memory any_format ?r = Inr (plain_memory ''m1'' ''a text'')"
    by (rule read_stored, rule plain_memory_wf) simp
  ultimately show ?thesis by (simp add: search_by_text_def search_by_like_def Let_def text_state_def)
qed

lemma text_search:
  "\<exists>r h. search plain_world no_decay None ''t'' text_query ''member'' text_state = Inr r \<and> sr_hits r = [h]
     \<and> sh_memory h = Some ''m1''"
proof -
  let ?m = "plain_memory ''m1'' ''a text''"
  have "cleared ''member'' ?m"
    by (simp add: cleared_def plain_memory_def plain_metadata_def is_search_visible_sensitivity_def is_audience_visible_to_role_def
        resolve_audience_def)
  then have "\<exists>f. search_via_sqlite plain_world no_decay ''t'' text_query ''member'' (st_memories text_state)
      = Inr (paginate [(?m, f)] text_query memory_hit)"
    using text_found by (auto simp: search_via_sqlite_def text_query_def cleared_def bulk_visible_def rerank_def)
  moreover have "js_trim (sq_query text_query) \<noteq> []" by code_simp
  ultimately show ?thesis
    by (auto simp: search_def paginate_def text_query_def memory_hit_def with_contradictions_def plain_memory_def)
qed

theorem search_shows_only_cleared_memories_witness:
  "\<exists>r h m. search plain_world no_decay None ''t'' text_query ''member'' text_state = Inr r \<and> h \<in> set (sr_hits r)
     \<and> view any_format (st_memories text_state) ''m1'' = Some m \<and> cleared ''member'' m"
proof -
  obtain r h where r: "search plain_world no_decay None ''t'' text_query ''member'' text_state = Inr r" "sr_hits r = [h]"
      "sh_memory h = Some ''m1''" using text_search by blast
  have ok: "table_ok (w_formats plain_world) (st_memories text_state)" "index_ok plain_world" using text_state_ok by simp_all
  show ?thesis using search_shows_only_cleared_memories [OF ok r(1), of h] r by auto
qed

theorem search_pages_are_slices_witness:
  "\<exists>hs. \<forall>p n. 1 \<le> p \<longrightarrow>
     (case search_via_sqlite plain_world no_decay ''t'' (text_query\<lparr>sq_page := p, sq_page_size := n\<rparr>) ''member'' (st_memories text_state) of
        Inl e \<Rightarrow> True | Inr r \<Rightarrow> sr_hits r = take n (drop ((p - 1) * n) hs))"
proof -
  have flat: "\<And>a b. 0 \<le> no_decay a b \<and> no_decay a b \<le> 1" by (simp add: no_decay_def)
  obtain hs where "\<forall>p n. 1 \<le> p \<longrightarrow>
    (case search_via_sqlite plain_world no_decay ''t'' (text_query\<lparr>sq_page := p, sq_page_size := n\<rparr>) ''member'' (st_memories text_state) of
       Inl e \<Rightarrow> search_by_text (w_formats plain_world) (w_full_text plain_world) (sq_query text_query) (sq_tenant text_query) (map_option (map category_name) (sq_categories text_query)) (st_memories text_state) = Inl e
     | Inr r \<Rightarrow> sr_hits r = take n (drop ((p - 1) * n) hs) \<and> sr_total r = length hs \<and> (sr_has_more r \<longleftrightarrow> p * n < length hs)
         \<and> sorted (map (\<lambda>h. - sh_score h) hs) \<and> (\<forall>h \<in> set hs. 0 \<le> sh_score h \<and> sh_score h \<le> 1))"
    using search_pages_are_slices [where decay = no_decay and w = plain_world and now = "''t''" and q = text_query
        and role = "''member''" and t = "st_memories text_state"]
    using flat by blast
  then show ?thesis by (intro exI [of _ hs]) (auto split: sum.splits)
qed

lemma search_admitted:
  "\<exists>st rq' s'. admit_request flat_kdf (Some key_registry) small_limits 0 search_request
       \<lparr>as_clients = Map.empty, as_actors = Map.empty\<rparr> = (Inr (st, rq'), s') \<and> sp_tenants st = Some [''team'']
     \<and> aq_body rq' = Some (JObj [(''query'', JStr ''text''), (''scope'', JStr ''all''), (''tenantId'', JStr ''team'')])
     \<and> reader_role_of st = ''admin''"
proof -
  let ?run = "admit_request flat_kdf (Some key_registry) small_limits 0 search_request \<lparr>as_clients = Map.empty, as_actors = Map.empty\<rparr>"
  have "case fst ?run of Inr (st, rq') \<Rightarrow> sp_tenants st = Some [''team''] \<and> reader_role_of st = ''admin''
      \<and> aq_body rq' = Some (JObj [(''query'', JStr ''text''), (''scope'', JStr ''all''), (''tenantId'', JStr ''team'')])
    | Inl _ \<Rightarrow> False" by code_simp
  then show ?thesis by (cases ?run) (auto split: sum.splits prod.splits)
qed

lemma admin_route:
  assumes "aq_body rq = Some (JObj [(''query'', JStr ''text''), (''scope'', JStr ''all''), (''tenantId'', JStr ''team'')])"
    "reader_role_of st = ''admin''"
  shows "\<exists>r h. search_route plain_world no_decay None ''t'' st rq text_state = Inr r \<and> sr_hits r = [h]"
proof -
  have "read_search_query any_format (JObj [(''query'', JStr ''text''), (''scope'', JStr ''all''), (''tenantId'', JStr ''team'')]) = Some text_query"
    by code_simp
  moreover have "is_audience_visible_to_role (audience (mem_metadata (plain_memory ''m1'' ''a text''))) (Some ''admin'')"
    "is_search_visible_sensitivity (sensitivity_name (mem_sensitivity (plain_memory ''m1'' ''a text'')))"
    by (simp_all add: plain_memory_def plain_metadata_def is_search_visible_sensitivity_def is_audience_visible_to_role_def resolve_audience_def)
  then have "\<exists>f. search_via_sqlite plain_world no_decay ''t'' text_query ''admin'' (st_memories text_state)
      = Inr (paginate [(plain_memory ''m1'' ''a text'', f)] text_query memory_hit)"
    using text_found by (auto simp: search_via_sqlite_def text_query_def bulk_visible_def rerank_def)
  moreover have "js_trim (sq_query text_query) \<noteq> []" by code_simp
  ultimately show ?thesis
    using assms by (auto simp: search_route_def search_def paginate_def text_query_def)
qed


theorem query_tenant_unscopes_the_search_witness:
  "\<exists>st. sp_tenants st = Some [''team'']
     \<and> bind_tenant st (search_request\<lparr>aq_query := [(''tenantId'', JStr ''team'')]\<rparr>) = Inr (search_request\<lparr>aq_query := [(''tenantId'', JStr ''team'')]\<rparr>)
     \<and> map_option sq_tenant (read_search_query any_format (JObj [(''query'', JStr ''text''), (''scope'', JStr ''all'')])) = Some None"
proof -
  let ?st = "dev_stamp\<lparr>sp_tenants := Some [''team'']\<rparr>" and ?rq = "search_request\<lparr>aq_query := [(''tenantId'', JStr ''team'')]\<rparr>"
  let ?v = "JObj [(''query'', JStr ''text''), (''scope'', JStr ''all'')]"
  have in': "query_tenant_id ?rq = Some ''team''" "aq_body ?rq = Some ?v" "jget ?v ''tenantId'' = None"
    by (simp_all add: query_tenant_id_def filled_string_def search_request_def)
  have "read_search_query any_format ?v \<noteq> None" by code_simp
  then show ?thesis
    using query_tenant_unscopes_the_search [of ?st "[''team'']" ?rq "''team''" ?v any_format] in' by (intro exI [of _ ?st]) auto
qed

end
