(* ===== verification/Api_Errors.thy ===== *)
theory Api_Errors
  imports Promotion_Service Memory_Service Candidate_Intake Api_Access
begin

text \<open>
  The failures of the API handlers: \<open>ApiError\<close> of \<open>apps/api/src/errors.ts\<close> with its status, message and code, and
  the mapping of what the services refuse. Of a message composed elsewhere only its origin is kept.
\<close>

datatype error_text =
    Told string
  | By_schema string
  | By_resolve resolve_refusal
  | By_recommend recommend_refusal
  | By_service service_error
  | By_promotion promotion_refusal
  | By_intake intake_error

text \<open>An \<open>ApiError\<close>, or an exception the handler rethrows.\<close>

datatype api_failure = Api_error nat error_text "string option" | Api_fault fault

definition bad_request :: "string \<Rightarrow> api_failure" where
  "bad_request msg = Api_error 400 (Told msg) None"

text \<open>A body the schema refuses: the issues the parser lists follow the prefix.\<close>

definition schema_refusal :: "string \<Rightarrow> api_failure" where
  "schema_refusal lead = Api_error 400 (By_schema lead) None"

definition missing_record :: "string \<Rightarrow> string \<Rightarrow> api_failure" where
  "missing_record kind i = Api_error 404 (Told (kind @ '' '' @ i @ '' not found'')) None"

type_synonym 'a reply = "(api_failure + 'a) \<times> store_state"

text \<open>A call that reports its outcome next to the new state, and one whose outcome may be an exception.\<close>

definition reply_of :: "fault + 'a \<times> store_state \<Rightarrow> store_state \<Rightarrow> ('a \<Rightarrow> api_failure + 'b) \<Rightarrow> 'b reply" where
  "reply_of r s f = (case r of Inl e \<Rightarrow> (Inl (Api_fault e), s) | Inr (x, s') \<Rightarrow> (f x, s'))"

definition api_lift :: "fault + 'a \<Rightarrow> api_failure + 'a" where
  "api_lift r = (case r of Inl e \<Rightarrow> Inl (Api_fault e) | Inr x \<Rightarrow> Inr x)"

lemma api_lift_Inr [simp]: "api_lift r = Inr x \<longleftrightarrow> r = Inr x"
  by (auto simp: api_lift_def split: sum.split)

section \<open>Bodies\<close>

definition body_field :: "jval option \<Rightarrow> string \<Rightarrow> jval option" where
  "body_field body k = Option.bind body (\<lambda>v. jget v k)"

text \<open>\<open>typeof v === 'string'\<close>, or absent when it may be.\<close>

definition text_field :: "jval option \<Rightarrow> string \<Rightarrow> string option" where
  "text_field body k = (case body_field body k of Some (JStr t) \<Rightarrow> Some t | _ \<Rightarrow> None)"

definition optional_text :: "jval option \<Rightarrow> string \<Rightarrow> bool" where
  "optional_text body k = (body_field body k = None \<or> text_field body k \<noteq> None)"

text \<open>Only the values \<open>ai\<close> and \<open>system\<close> are honored as a declaration of the acting kind.\<close>

definition declared_actor_type :: "jval option \<Rightarrow> author_type" where
  "declared_actor_type body =
     (if body_field body ''actorType'' = Some (JStr ''ai'') then Ai
      else if body_field body ''actorType'' = Some (JStr ''system'') then System else Human)"

definition acting :: "author_type \<Rightarrow> stamp \<Rightarrow> author" where
  "acting k st = \<lparr>author_kind = k, author_id = (case sp_actor st of None \<Rightarrow> ''admin'' | Some a \<Rightarrow> a), author_name = None\<rparr>"

section \<open>What the services refuse\<close>

fun narrow_refusal_code :: "narrow_refusal \<Rightarrow> string" where
  "narrow_refusal_code N_missing_reason = ''missing_reason''"
| "narrow_refusal_code N_missing_actor = ''missing_actor''"
| "narrow_refusal_code N_not_found = ''not_found''"
| "narrow_refusal_code (N_invalid (Widening a b)) = ''widening''"
| "narrow_refusal_code (N_invalid (Same_audience a)) = ''same''"
| "narrow_refusal_code (N_invalid (Unknown_from a)) = ''unknown_from''"
| "narrow_refusal_code (N_invalid (Unknown_to a)) = ''unknown_to''"

text \<open>The memory service on the memory \<open>i\<close>.\<close>

fun service_failure :: "string \<Rightarrow> service_error \<Rightarrow> api_failure" where
  "service_failure i Memory_not_found = missing_record ''Memory'' i"
| "service_failure i (Narrowing_refused n x) = Api_error n (By_service (Narrowing_refused n x)) (Some (narrow_refusal_code x))"
| "service_failure i (Service_fault f) = Api_fault f"
| "service_failure i e = Api_error 400 (By_service e) None"

definition service_reply :: "string \<Rightarrow> service_error + 'a \<Rightarrow> api_failure + 'a" where
  "service_reply i r = (case r of Inl e \<Rightarrow> Inl (service_failure i e) | Inr x \<Rightarrow> Inr x)"

definition promotion_failure :: "promotion_refusal \<Rightarrow> api_failure" where
  "promotion_failure r =
     (case r of
        P_fault f \<Rightarrow> Api_fault f
      | _ \<Rightarrow> Api_error (case promotion_status r of None \<Rightarrow> 500 | Some n \<Rightarrow> n) (By_promotion r) (promotion_code r))"

fun rejection_failure :: "string \<Rightarrow> reject_refusal \<Rightarrow> api_failure" where
  "rejection_failure i J_not_found = missing_record ''Candidate'' i"
| "rejection_failure i J_other_tenant = bad_request ''Candidate does not belong to the requested tenant scope''"
| "rejection_failure i J_on_hold = Api_error 422 (Told
     (''Candidate is on hold for human review. A person with admin or owner standing resolves it; ''
      @ ''a reviewer may attach a recommendation. Nothing was changed.'')) (Some ''on_hold'')"
| "rejection_failure i J_not_pending = Api_error 422 (Told ''Candidate is no longer pending review. Nothing was changed.'') (Some ''not_pending'')"
| "rejection_failure i (J_fault f) = Api_fault f"

text \<open>\<open>CandidateService.intake\<close>: an invalid candidate is a 400, a disallowed one a 422.\<close>

fun intake_failure :: "intake_error \<Rightarrow> api_failure" where
  "intake_failure Intake_invalid = Api_error 400 (By_intake Intake_invalid) None"
| "intake_failure (Intake_other_tenant i) = Api_error 400 (By_intake (Intake_other_tenant i)) None"
| "intake_failure (Intake_channel c) = Api_error 422 (By_intake (Intake_channel c)) (Some ''unrecognized_channel'')"
| "intake_failure Intake_disclosure = Api_error 422 (By_intake Intake_disclosure) None"
| "intake_failure Intake_redacted = Api_error 422 (By_intake Intake_redacted) (Some ''redacted_content'')"
| "intake_failure (Intake_not_retained x) = Api_fault (Not_persisted x)"
| "intake_failure (Intake_fault f) = Api_fault f"

end
