(* ===== verification/Api_Routes.thy ===== *)
theory Api_Routes
  imports Api_Errors Wikilinks Memory_Search Memory_Links
begin

text \<open>
  The routes of \<open>apps/api/src/routes/memories.ts\<close> and \<open>graph.ts\<close>. A handler takes the stamp of the request, its parameters and its
  body; a query parameter is absent or one string. What a handler logs is not part of its answer.
\<close>

section \<open>Memories\<close>

text \<open>\<open>assertTenantVisible\<close> and \<open>assertAudienceVisible\<close> on a fetched record.\<close>

definition tenant_visible :: "stamp \<Rightarrow> curated_memory \<Rightarrow> bool" where
  "tenant_visible st m = (case sp_tenants st of None \<Rightarrow> True | Some ts \<Rightarrow> ts = [] \<or> mem_tenant m \<in> set ts)"

definition audience_visible :: "stamp \<Rightarrow> curated_memory \<Rightarrow> bool" where
  "audience_visible st m = is_audience_visible_to_role (audience (mem_metadata m)) (Some (reader_role_of st))"

definition assert_seen :: "bool \<Rightarrow> curated_memory \<Rightarrow> api_failure + unit" where
  "assert_seen seen m = (if seen then Inr () else Inl (missing_record ''Memory'' (mem_id m)))"

definition fetch_memory :: "world \<Rightarrow> string \<Rightarrow> store_state \<Rightarrow> api_failure + curated_memory" where
  "fetch_memory w i s = service_reply i (get_by_id w i s)"

definition list_memories_route :: "world \<Rightarrow> stamp \<Rightarrow> string option \<Rightarrow> store_state \<Rightarrow> api_failure + curated_memory list" where
  "list_memories_route w st tenant s =
     and_then (service_reply [] (list_memories w tenant s)) (\<lambda>ms. Inr (filter (audience_visible st) ms))"

definition no_memory_with_hash :: "string \<Rightarrow> api_failure" where
  "no_memory_with_hash h = Api_error 404 (Told (''No memory found with hash '' @ h)) None"

definition by_hash_route :: "world \<Rightarrow> stamp \<Rightarrow> string \<Rightarrow> store_state \<Rightarrow> api_failure + curated_memory" where
  "by_hash_route w st h s =
     and_then (api_lift (find_by_content_hash (w_formats w) h (st_memories s))) (\<lambda>found.
       case found of
         None \<Rightarrow> Inl (no_memory_with_hash h)
       | Some m \<Rightarrow>
           and_then (assert_seen (tenant_visible st m) m) (\<lambda>_.
             if audience_visible st m then Inr m else Inl (no_memory_with_hash h)))"

text \<open>The resolver of a wiki link: the first hit of the search by text with that title and a readable audience.\<close>

definition link_target :: "world \<Rightarrow> stamp \<Rightarrow> string \<Rightarrow> store_state \<Rightarrow> fault + (string \<times> string) option" where
  "link_target w st slug s =
     and_then (search_by_text (w_formats w) (w_full_text w) slug None None (st_memories s)) (\<lambda>ms.
       Inr (map_option (\<lambda>m. (mem_id m, mem_title m))
         (find (\<lambda>m. js_lower (mem_title m) = js_lower slug \<and> audience_visible st m) ms)))"

definition resolve_links :: "world \<Rightarrow> stamp \<Rightarrow> string \<Rightarrow> store_state \<Rightarrow> fault + string" where
  "resolve_links w st content s =
     (let slugs = (case extract_wiki_links content of None \<Rightarrow> [] | Some ls \<Rightarrow> js_set (map wl_slug ls))
      in and_then (map_result (\<lambda>g. link_target w st g s) slugs) (\<lambda>targets.
           Inr (case resolve_wiki_links content (\<lambda>g. Option.bind (map_of (zip slugs targets) g) id) of
                  None \<Rightarrow> content | Some (text', ls) \<Rightarrow> text')))"

definition get_memory_route :: "world \<Rightarrow> stamp \<Rightarrow> string \<Rightarrow> bool \<Rightarrow> store_state \<Rightarrow> api_failure + curated_memory" where
  "get_memory_route w st i with_links s =
     and_then (fetch_memory w i s) (\<lambda>m.
     and_then (assert_seen (tenant_visible st m) m) (\<lambda>_.
     and_then (assert_seen (audience_visible st m) m) (\<lambda>_.
       if with_links
       then and_then (api_lift (resolve_links w st (mem_content m) s)) (\<lambda>t. Inr (m\<lparr>mem_content := t\<rparr>))
       else Inr m)))"

definition store_reply :: "string \<Rightarrow> service_error + 'a \<times> store_state \<Rightarrow> store_state \<Rightarrow> 'a reply" where
  "store_reply i r s = (case r of Inl e \<Rightarrow> (Inl (service_failure i e), s) | Inr (x, s') \<Rightarrow> (Inr x, s'))"

text \<open>The routes that change a memory: the transition and the recategorization check the audience alone.\<close>

definition transition_route ::
  "world \<Rightarrow> stamp \<Rightarrow> string \<Rightarrow> string option \<Rightarrow> transition_request \<Rightarrow> uuid \<Rightarrow> iso_datetime \<Rightarrow> store_state \<Rightarrow> curated_memory reply" where
  "transition_route w st i target body eid now s =
     (case Option.bind target (parse_enum lifecycle_options lifecycle_name) of
        None \<Rightarrow> (Inl (bad_request (''Invalid lifecycle state: '' @ (case target of None \<Rightarrow> ''undefined'' | Some t \<Rightarrow> t))), s)
      | Some l \<Rightarrow>
          (case and_then (fetch_memory w i s) (\<lambda>m. assert_seen (audience_visible st m) m) of
             Inl e \<Rightarrow> (Inl e, s)
           | Inr _ \<Rightarrow> store_reply i (transition w i l body eid now s) s))"

definition narrow_route ::
  "world \<Rightarrow> stamp \<Rightarrow> string \<Rightarrow> jval option \<Rightarrow> uuid \<Rightarrow> iso_datetime \<Rightarrow> store_state \<Rightarrow> (string \<times> string \<times> string) reply" where
  "narrow_route w st i body eid now s =
     (case and_then (fetch_memory w i s) (\<lambda>m.
             and_then (assert_seen (tenant_visible st m) m) (\<lambda>_. assert_seen (audience_visible st m) m)) of
        Inl e \<Rightarrow> (Inl e, s)
      | Inr _ \<Rightarrow>
          store_reply i (service_narrow w i (text_field body ''to'') (text_field body ''reason'')
            (case sp_actor st of None \<Rightarrow> ''unknown'' | Some a \<Rightarrow> a) eid now s) s)"

definition recategorize_route ::
  "world \<Rightarrow> stamp \<Rightarrow> string \<Rightarrow> recategorize_request \<Rightarrow> uuid \<Rightarrow> iso_datetime \<Rightarrow> store_state \<Rightarrow> curated_memory reply" where
  "recategorize_route w st i body eid now s =
     (case and_then (fetch_memory w i s) (\<lambda>m. assert_seen (audience_visible st m) m) of
        Inl e \<Rightarrow> (Inl e, s)
      | Inr _ \<Rightarrow> store_reply i (recategorize w i body eid now s) s)"

section \<open>The link graph\<close>

text \<open>\<open>validateGraphSelection\<close> runs before the tenant binding, on the parameter as it came in.\<close>

definition validate_graph_selection :: "jval option \<Rightarrow> api_failure + unit" where
  "validate_graph_selection tenant =
     (case tenant of
        None \<Rightarrow> Inr ()
      | Some (JStr t) \<Rightarrow> if js_trim t = [] then Inl (bad_request ''tenantId must be one nonempty string'') else Inr ()
      | Some _ \<Rightarrow> Inl (bad_request ''tenantId must be one nonempty string''))"

definition graph_scope_of :: "stamp \<Rightarrow> jval option \<Rightarrow> graph_scope" where
  "graph_scope_of st tenant =
     \<lparr>gs_tenant = (case tenant of Some (JStr t) \<Rightarrow> if t \<noteq> [] then Some t else None | _ \<Rightarrow> None),
      gs_allowed = (case sp_tenants st of Some ts \<Rightarrow> if ts \<noteq> [] then Some ts else None | None \<Rightarrow> None),
      gs_role = reader_role_of st\<rparr>"

definition memory_in_scope :: "graph_scope \<Rightarrow> curated_memory \<Rightarrow> bool" where
  "memory_in_scope sc m =
     ((case gs_tenant sc of None \<Rightarrow> True | Some tn \<Rightarrow> mem_tenant m = tn)
      \<and> (case gs_allowed sc of None \<Rightarrow> True | Some ts \<Rightarrow> mem_tenant m \<in> set ts)
      \<and> is_audience_visible_to_role (audience (mem_metadata m)) (Some (gs_role sc)))"

definition is_readable :: "world \<Rightarrow> string \<Rightarrow> graph_scope \<Rightarrow> store_state \<Rightarrow> fault + bool" where
  "is_readable w i sc s =
     and_then (find_memory (w_formats w) i (st_memories s)) (\<lambda>found.
       Inr (case found of None \<Rightarrow> False | Some m \<Rightarrow> memory_in_scope sc m))"

text \<open>A filter whose predicate may throw.\<close>

fun filter_result :: "('a \<Rightarrow> 'e + bool) \<Rightarrow> 'a list \<Rightarrow> 'e + 'a list" where
  "filter_result p [] = Inr []"
| "filter_result p (x # xs) =
     and_then (p x) (\<lambda>keep. and_then (filter_result p xs) (\<lambda>ys. Inr (if keep then x # ys else ys)))"

definition assert_readable :: "world \<Rightarrow> string \<Rightarrow> graph_scope \<Rightarrow> store_state \<Rightarrow> api_failure + unit" where
  "assert_readable w i sc s =
     and_then (api_lift (is_readable w i sc s)) (\<lambda>ok. if ok then Inr () else Inl (missing_record ''Memory'' i))"

definition neighbors_route :: "world \<Rightarrow> stamp \<Rightarrow> string \<Rightarrow> jval option \<Rightarrow> store_state \<Rightarrow> api_failure + neighbor list" where
  "neighbors_route w st i tenant s =
     (let sc = graph_scope_of st tenant
      in and_then (assert_readable w i sc s) (\<lambda>_.
           api_lift (filter_result (\<lambda>n. is_readable w (nb_memory n) sc s) (neighbors (st_memories s) i (Some sc) (st_links s)))))"

definition max_depth :: int where
  "max_depth = 5"

definition default_depth :: int where
  "default_depth = 2"

definition graph_depth :: "string option \<Rightarrow> api_failure + int" where
  "graph_depth d =
     and_then (case d of
        None \<Rightarrow> Inr default_depth
      | Some t \<Rightarrow>
          (case js_parse_int t of
             None \<Rightarrow> Inl (bad_request (''depth must be a positive integer, got: '' @ t))
           | Some n \<Rightarrow> if n < 1 then Inl (bad_request (''depth must be a positive integer, got: '' @ t)) else Inr n)) (\<lambda>n.
       if max_depth < n then Inl (bad_request ''depth exceeds maximum allowed value of 5'') else Inr n)"

definition graph_route ::
  "world \<Rightarrow> stamp \<Rightarrow> string \<Rightarrow> jval option \<Rightarrow> string option \<Rightarrow> store_state \<Rightarrow> api_failure + graph_node list" where
  "graph_route w st i tenant depth s =
     and_then (graph_depth depth) (\<lambda>n.
       let sc = graph_scope_of st tenant
       in and_then (assert_readable w i sc s) (\<lambda>_.
            api_lift (filter_result (\<lambda>g. is_readable w (gn_memory g) sc s)
              (traverse (st_memories s) i (nat n) (Some sc) (st_links s)))))"

end
