(* ===== verification/Hold_Service.thy ===== *)
theory Hold_Service
  imports Resolve_Laws Api_Errors
begin

text \<open>
  The hold queue over HTTP: \<open>apps/api/src/services/hold-service.ts\<close> and its routes,
  \<open>apps/api/src/routes/holds.ts\<close>. A handler takes the stamp of the request, the tenant of the query (absent
  or one string) and the JSON body, and answers with a response or a failure, next to the store it
  leaves. The refresh of the search index after a release changes nothing here and cannot fail the request.
\<close>

section \<open>Refusals\<close>

definition not_on_hold_text :: "string \<Rightarrow> tenant_id \<Rightarrow> string" where
  "not_on_hold_text i tn = ''Candidate '' @ i @ '' is not on hold in tenant '' @ tn"

definition require_tenant :: "string option \<Rightarrow> api_failure + tenant_id" where
  "require_tenant t =
     (case t of
        None \<Rightarrow> Inl (bad_request ''tenantId query parameter is required'')
      | Some x \<Rightarrow> if js_trim x = [] then Inl (bad_request ''tenantId query parameter is required'') else Inr x)"

fun resolve_refusal_status :: "resolve_refusal \<Rightarrow> nat" where
  "resolve_refusal_status X_missing_reason = 400"
| "resolve_refusal_status X_missing_actor = 400"
| "resolve_refusal_status X_unknown_resolution = 400"
| "resolve_refusal_status X_missing_audience = 400"
| "resolve_refusal_status X_unknown_audience = 400"
| "resolve_refusal_status X_not_human = 403"
| "resolve_refusal_status X_forbidden_role = 403"
| "resolve_refusal_status X_not_on_hold = 404"
| "resolve_refusal_status X_audience_above_standing = 404"
| "resolve_refusal_status X_hold_expired = 422"
| "resolve_refusal_status X_wider_than_recommended = 422"
| "resolve_refusal_status X_gate_refused = 422"
| "resolve_refusal_status X_still_flagged = 422"

fun resolve_refusal_code :: "resolve_refusal \<Rightarrow> string" where
  "resolve_refusal_code X_missing_reason = ''missing_reason''"
| "resolve_refusal_code X_missing_actor = ''missing_actor''"
| "resolve_refusal_code X_not_human = ''not_human''"
| "resolve_refusal_code X_forbidden_role = ''forbidden_role''"
| "resolve_refusal_code X_unknown_resolution = ''unknown_resolution''"
| "resolve_refusal_code X_not_on_hold = ''not_on_hold''"
| "resolve_refusal_code X_audience_above_standing = ''audience_above_standing''"
| "resolve_refusal_code X_hold_expired = ''hold_expired''"
| "resolve_refusal_code X_missing_audience = ''missing_audience''"
| "resolve_refusal_code X_unknown_audience = ''unknown_audience''"
| "resolve_refusal_code X_wider_than_recommended = ''wider_than_recommended''"
| "resolve_refusal_code X_gate_refused = ''gate_refused''"
| "resolve_refusal_code X_still_flagged = ''still_flagged''"

section \<open>Listing\<close>

record hold_listing =
  hg_tenant :: tenant_id
  hg_count :: nat
  hg_max_active :: rat
  hg_hidden :: nat
  hg_holds :: "active_hold list"

definition hold_visible :: "string \<Rightarrow> active_hold \<Rightarrow> bool" where
  "hold_visible role h = is_audience_visible_to_role (Some (ah_declared h)) (Some role)"

definition list_holds ::
  "world \<Rightarrow> hold_limits option \<Rightarrow> string option \<Rightarrow> string \<Rightarrow> iso_datetime \<Rightarrow> store_state \<Rightarrow> api_failure + hold_listing" where
  "list_holds w limits tenant role now s =
     and_then (require_tenant tenant) (\<lambda>tn.
       case list_active_holds w tn now s of
         Inl e \<Rightarrow> Inl (Api_fault e)
       | Inr all \<Rightarrow>
           (let holds = filter (hold_visible role) all
            in Inr \<lparr>hg_tenant = tn, hg_count = length holds, hg_max_active = resolve_max_active_holds limits,
                    hg_hidden = length all - length holds, hg_holds = holds\<rparr>))"

section \<open>Recommending\<close>

definition assert_visible :: "world \<Rightarrow> string \<Rightarrow> tenant_id \<Rightarrow> string \<Rightarrow> iso_datetime \<Rightarrow> store_state \<Rightarrow> api_failure + unit" where
  "assert_visible w i tn role now s =
     (case list_active_holds w tn now s of
        Inl e \<Rightarrow> Inl (Api_fault e)
      | Inr all \<Rightarrow>
          if list_ex (\<lambda>h. ah_candidate h = i \<and> hold_visible role h) all then Inr ()
          else Inl (Api_error 404 (Told (not_on_hold_text i tn)) None))"

definition recommend_reply :: "recommend_result \<Rightarrow> api_failure + string \<times> bool" where
  "recommend_reply r =
     (case r of
        Recommended eid dup \<Rightarrow> Inr (eid, dup)
      | Recommend_refused R_not_on_hold \<Rightarrow> Inl (Api_error 404 (By_recommend R_not_on_hold) None)
      | Recommend_refused R_hold_expired \<Rightarrow> Inl (Api_error 422 (By_recommend R_hold_expired) (Some ''hold_expired''))
      | Recommend_refused R_recommendation_cap \<Rightarrow>
          Inl (Api_error 422 (By_recommend R_recommendation_cap) (Some ''recommendation_cap''))
      | Recommend_refused R_missing_reasoning \<Rightarrow>
          Inl (Api_error 400 (By_recommend R_missing_reasoning) (Some ''missing_reasoning''))
      | Recommend_refused R_missing_actor \<Rightarrow> Inl (Api_error 400 (By_recommend R_missing_actor) (Some ''missing_actor''))
      | Recommend_refused R_unknown_verdict \<Rightarrow> Inl (Api_error 400 (By_recommend R_unknown_verdict) (Some ''unknown_verdict''))
      | Recommend_refused R_unknown_audience \<Rightarrow> Inl (Api_error 400 (By_recommend R_unknown_audience) (Some ''unknown_audience'')))"

definition recommend_input_of :: "string \<Rightarrow> tenant_id \<Rightarrow> author \<Rightarrow> string \<Rightarrow> jval option \<Rightarrow> string \<Rightarrow> recommend_input" where
  "recommend_input_of i tn actor verdict body reasoning =
     \<lparr>ri_candidate = i, ri_tenant = tn, ri_actor = actor, ri_verdict = verdict, ri_audience = text_field body ''audience'',
      ri_reasoning = reasoning\<rparr>"

definition service_recommend ::
  "world \<Rightarrow> string \<Rightarrow> string option \<Rightarrow> string \<Rightarrow> author \<Rightarrow> jval option \<Rightarrow> uuid \<Rightarrow> iso_datetime \<Rightarrow> store_state \<Rightarrow> (string \<times> bool) reply" where
  "service_recommend w i tenant role actor body fresh now s =
     (case require_tenant tenant of
        Inl e \<Rightarrow> (Inl e, s)
      | Inr tn \<Rightarrow>
          (case text_field body ''verdict'' of
             None \<Rightarrow> (Inl (bad_request ''verdict is required (release or reject)''), s)
           | Some verdict \<Rightarrow>
               (case text_field body ''reasoning'' of
                  None \<Rightarrow> (Inl (bad_request ''reasoning is required''), s)
                | Some reasoning \<Rightarrow>
                    if \<not> optional_text body ''audience'' then (Inl (bad_request ''audience must be a string''), s)
                    else (case assert_visible w i tn role now s of
                            Inl e \<Rightarrow> (Inl e, s)
                          | Inr _ \<Rightarrow>
                              reply_of (recommend_on_hold w (recommend_input_of i tn actor verdict body reasoning) fresh now s) s
                                recommend_reply))))"

section \<open>Resolving\<close>

record hold_service_options =
  hs_resolve :: resolve_options
  hs_limits :: "hold_limits option"

datatype resolution_reply = Hold_was_rejected "string option" | Hold_was_released string "uuid option" bool "string option"

text \<open>What the caller is told: not why a hold above the standing is unavailable.\<close>

definition resolve_reply :: "string \<Rightarrow> tenant_id \<Rightarrow> resolve_result \<Rightarrow> api_failure + resolution_reply" where
  "resolve_reply i tn r =
     (case r of
        Hold_rejected receipt \<Rightarrow> Inr (Hold_was_rejected receipt)
      | Hold_released aud mid wider receipt \<Rightarrow> Inr (Hold_was_released aud mid wider receipt)
      | Resolve_refused x shut \<Rightarrow>
          Inl (Api_error (resolve_refusal_status x)
            (if x = X_audience_above_standing \<or> x = X_not_on_hold then Told (not_on_hold_text i tn) else By_resolve x)
            (Some (if x = X_audience_above_standing then ''not_on_hold'' else resolve_refusal_code x))))"

definition resolve_input_of ::
  "string \<Rightarrow> tenant_id \<Rightarrow> string \<Rightarrow> author \<Rightarrow> string \<Rightarrow> jval option \<Rightarrow> string \<Rightarrow> resolve_input" where
  "resolve_input_of i tn role actor resolution body reason =
     \<lparr>rs_candidate = i, rs_tenant = tn, rs_resolution = resolution, rs_audience = text_field body ''audience'',
      rs_acknowledge = (body_field body ''acknowledgeWider'' = Some (JBool True)), rs_actor = actor, rs_role = role,
      rs_reason = reason, rs_dry = False\<rparr>"

definition service_resolve ::
  "world \<Rightarrow> hold_service_options \<Rightarrow> string \<Rightarrow> string option \<Rightarrow> string \<Rightarrow> author \<Rightarrow> jval option \<Rightarrow> tick \<Rightarrow> iso_datetime \<Rightarrow> store_state \<Rightarrow>
    resolution_reply reply" where
  "service_resolve w o' i tenant role actor body tk now s =
     (case require_tenant tenant of
        Inl e \<Rightarrow> (Inl e, s)
      | Inr tn \<Rightarrow>
          (case text_field body ''resolution'' of
             None \<Rightarrow> (Inl (bad_request ''resolution is required (release or reject)''), s)
           | Some resolution \<Rightarrow>
               (case text_field body ''reason'' of
                  None \<Rightarrow> (Inl (bad_request ''reason is required''), s)
                | Some reason \<Rightarrow>
                    if \<not> optional_text body ''audience'' then (Inl (bad_request ''audience must be a string''), s)
                    else reply_of (resolve_hold w (resolve_input_of i tn role actor resolution body reason) (hs_resolve o') tk now s) s
                           (resolve_reply i tn))))"

section \<open>The routes\<close>

definition list_holds_route ::
  "world \<Rightarrow> hold_service_options \<Rightarrow> stamp \<Rightarrow> string option \<Rightarrow> iso_datetime \<Rightarrow> store_state \<Rightarrow> api_failure + hold_listing" where
  "list_holds_route w o' st tenant now s =
     (if sp_role st \<noteq> Some Role_admin then Inl (Api_error 403 (Told ''The hold queue is admin-only.'') None)
      else list_holds w (hs_limits o') tenant (reader_role_of st) now s)"

definition recommend_route ::
  "world \<Rightarrow> stamp \<Rightarrow> string \<Rightarrow> string option \<Rightarrow> jval option \<Rightarrow> uuid \<Rightarrow> iso_datetime \<Rightarrow> store_state \<Rightarrow> (string \<times> bool) reply" where
  "recommend_route w st i tenant body fresh now s =
     service_recommend w i tenant (reader_role_of st)
       (acting (if is_agent_request st then Ai else declared_actor_type body) st) body fresh now s"

definition human_required :: api_failure where
  "human_required = Api_error 403 (Told
     (''Only a person resolves a hold. An agent may attach a recommendation ''
      @ ''(POST /api/holds/:candidateId/recommend). Nothing was changed.'')) (Some ''human_required'')"

definition resolve_route ::
  "world \<Rightarrow> hold_service_options \<Rightarrow> stamp \<Rightarrow> string \<Rightarrow> string option \<Rightarrow> jval option \<Rightarrow> tick \<Rightarrow> iso_datetime \<Rightarrow> store_state \<Rightarrow>
    resolution_reply reply" where
  "resolve_route w o' st i tenant body tk now s =
     (if is_agent_request st \<or> declared_actor_type body \<noteq> Human then (Inl human_required, s)
      else service_resolve w o' i tenant (reader_role_of st) (acting Human st) body tk now s)"

end
