(* ===== verification/Hold_Service_Laws.thy ===== *)
theory Hold_Service_Laws
  imports Hold_Service Governance_Runs
begin

text \<open>
  What the hold routes promise: a hold above the standing of the caller answers as if it did not exist, and an
  agent's request leaves at most a recommendation in its own name.
\<close>

section \<open>Visibility\<close>

lemma resolved_audience_visible [simp]:
  "is_audience_visible_to_role (Some (resolve_audience a)) r = is_audience_visible_to_role a r"
  by (simp add: is_audience_visible_to_role_def resolve_audience_def split: option.split)

lemma hold_row_declared:
  assumes "state_ok w s" "hold_row w tn now s es held = Some h"
  shows "\<exists>c. cand w s (ah_candidate h) = Some c \<and> ah_declared h = resolve_audience (audience (cand_metadata c))"
proof -
  obtain c where c: "held_candidate w (ev_memory_id held) tn s = Some c"
    and h: "ah_declared h = resolve_audience (audience (cand_metadata c))" "ah_candidate h = cand_id c"
    using assms(2) by (auto simp: hold_row_def to_active_hold_def Let_def split: if_splits)
  then show ?thesis using held_candidate_iff [OF assms(1)] held_candidate_id [OF assms(1) c] by auto
qed

lemma active_hold_declared:
  assumes "state_ok w s" "find_active_hold w i tn now s = Inr (Some h)"
  shows "\<exists>c. cand w s i = Some c \<and> ah_declared h = resolve_audience (audience (cand_metadata c))"
proof -
  obtain c where c: "held_candidate w i tn s = Some c" and h: "ah_declared h = resolve_audience (audience (cand_metadata c))"
    using assms(2) by (auto simp: find_active_hold_def to_active_hold_def Let_def and_then_Inr split: option.splits if_splits)
  then show ?thesis using held_candidate_iff [OF assms(1)] by auto
qed

lemma find_active_hold_runs: "state_ok w s \<Longrightarrow> \<exists>found. find_active_hold w i tn now s = Inr found"
  by (auto simp: find_active_hold_def memory_events_ok [OF state_ok_parts(3)] split: option.split)

text \<open>The candidate \<open>i\<close> is not there for a caller of the role: it is missing or above the caller's standing.\<close>

definition out_of_sight :: "world \<Rightarrow> string \<Rightarrow> string \<Rightarrow> store_state \<Rightarrow> bool" where
  "out_of_sight w i role s \<longleftrightarrow>
     (\<forall>c. cand w s i = Some c \<longrightarrow> \<not> is_audience_visible_to_role (audience (cand_metadata c)) (Some role))"

lemma unseen_holds:
  assumes "state_ok w s" "out_of_sight w i role s" "h \<in> set (open_holds w tn now s)" "hold_visible role h"
  shows "ah_candidate h \<noteq> i"
proof
  assume i: "ah_candidate h = i"
  obtain e where "hold_row w tn now s (events_of w s) e = Some h" using assms(3) by (auto simp: open_holds_members)
  from hold_row_declared [OF assms(1) this] show False
    using assms(2,4) i by (auto simp: out_of_sight_def hold_visible_def)
qed

lemma unseen_visible: "state_ok w s \<Longrightarrow> out_of_sight w i role s \<Longrightarrow>
    assert_visible w i tn role now s = Inl (Api_error 404 (Told (not_on_hold_text i tn)) None)"
  using unseen_holds by (fastforce simp: assert_visible_def list_active_holds_ok list_ex_iff)

text \<open>The refusals that come before the hold is looked up.\<close>

definition early_refusal :: "resolve_input \<Rightarrow> resolve_refusal option" where
  "early_refusal inp =
     (if js_trim (rs_reason inp) = [] then Some X_missing_reason
      else if js_trim (author_id (rs_actor inp)) = [] then Some X_missing_actor
      else if author_kind (rs_actor inp) \<noteq> Human then Some X_not_human
      else if rs_role inp \<notin> set resolver_roles then Some X_forbidden_role
      else if rs_resolution inp \<noteq> ''release'' \<and> rs_resolution inp \<noteq> ''reject'' then Some X_unknown_resolution
      else None)"

lemma unseen_resolution:
  assumes ok: "state_ok w s" and unseen: "out_of_sight w (rs_candidate inp) (rs_role inp) s"
  shows "\<exists>x. resolve_hold w inp opts tk now s = Inr (Resolve_refused x False, s)
    \<and> (case early_refusal inp of Some e \<Rightarrow> x = e | None \<Rightarrow> x = X_not_on_hold \<or> x = X_audience_above_standing)"
proof -
  obtain found where f: "find_active_hold w (rs_candidate inp) (rs_tenant inp) now s = Inr found"
    using find_active_hold_runs [OF ok] by blast
  have hidden: "\<not> is_audience_visible_to_role (Some (ah_declared h)) (Some (rs_role inp))" if "found = Some h" for h
    using active_hold_declared [OF ok f [unfolded that]] unseen by (auto simp: out_of_sight_def)
  show ?thesis
    using f hidden by (cases found) (simp_all add: resolve_hold_def early_refusal_def del: js_trim_def)
qed

lemma unseen_reply:
  assumes "state_ok w s" "state_ok w s2" "out_of_sight w i role s" "out_of_sight w i role s2"
  shows "service_resolve w o' i tenant role actor body tk now s = (fst (service_resolve w o' i tenant role actor body tk now s2), s)"
    "service_recommend w i tenant role actor body fresh now s = (fst (service_recommend w i tenant role actor body fresh now s2), s)"
proof -
  show "service_recommend w i tenant role actor body fresh now s = (fst (service_recommend w i tenant role actor body fresh now s2), s)"
    by (simp add: service_recommend_def unseen_visible [OF assms(1,3)] unseen_visible [OF assms(2,4)] split: sum.split option.split)
  have same: "reply_of (resolve_hold w (resolve_input_of i tn role actor r body why) opts tk now s) s (resolve_reply i tn)
      = (fst (reply_of (resolve_hold w (resolve_input_of i tn role actor r body why) opts tk now s2) s2 (resolve_reply i tn)), s)"
    for tn r why opts
  proof -
    let ?inp = "resolve_input_of i tn role actor r body why"
    have u: "out_of_sight w (rs_candidate ?inp) (rs_role ?inp) s" "out_of_sight w (rs_candidate ?inp) (rs_role ?inp) s2"
      using assms(3,4) by (simp_all add: resolve_input_of_def)
    obtain x where x: "resolve_hold w ?inp opts tk now s = Inr (Resolve_refused x False, s)"
        "case early_refusal ?inp of Some e \<Rightarrow> x = e | None \<Rightarrow> x = X_not_on_hold \<or> x = X_audience_above_standing"
      using unseen_resolution [OF assms(1) u(1)] by blast
    obtain y where y: "resolve_hold w ?inp opts tk now s2 = Inr (Resolve_refused y False, s2)"
        "case early_refusal ?inp of Some e \<Rightarrow> y = e | None \<Rightarrow> y = X_not_on_hold \<or> y = X_audience_above_standing"
      using unseen_resolution [OF assms(2) u(2)] by blast
    have "resolve_reply i tn (Resolve_refused x False) = resolve_reply i tn (Resolve_refused y False)"
      using x(2) y(2) by (cases "early_refusal ?inp") (auto simp: resolve_reply_def)
    then show ?thesis by (simp add: x(1) y(1) reply_of_def)
  qed
  show "service_resolve w o' i tenant role actor body tk now s = (fst (service_resolve w o' i tenant role actor body tk now s2), s)"
    using same by (simp add: service_resolve_def split: sum.split option.split)
qed

section \<open>A hold the owner keeps to themselves\<close>

definition private_waiting :: memory_candidate where
  "private_waiting = waiting\<lparr>cand_metadata := plain_metadata\<lparr>audience := Some ''owner''\<rparr>\<rparr>"

definition private_state :: store_state where
  "private_state = waiting_state\<lparr>st_candidates := [candidate_to_row private_waiting plain_text None]\<rparr>"

definition plain_service :: hold_service_options where
  "plain_service = \<lparr>hs_resolve = plain_options, hs_limits = None\<rparr>"

definition admin_stamp :: stamp where
  "admin_stamp = \<lparr>sp_actor = Some ''alice'', sp_role = Some Role_admin, sp_owner = False, sp_agent = False, sp_tenants = None\<rparr>"

lemma private_fields [simp]:
  "cand_id private_waiting = ''c1''" "cand_tenant private_waiting = ''team''" "cand_status private_waiting = Quarantined"
  "audience (cand_metadata private_waiting) = Some ''owner''"
  by (simp_all add: private_waiting_def)

lemma wf_metadata: "candidate_wf fmt c \<Longrightarrow> metadata_check m \<Longrightarrow> candidate_wf fmt (c\<lparr>cand_metadata := m\<rparr>)"
  unfolding candidate_wf_def schema_candidate_def candidate_refinement_def
  by (cases c) (auto split: Option.bind_splits if_splits)

lemma private_wf: "candidate_wf any_format private_waiting"
proof -
  have "parse_enum audience_options audience_name ''owner'' \<noteq> None" by code_simp
  then have "metadata_check (plain_metadata\<lparr>audience := Some ''owner''\<rparr>)"
    using plain_metadata_check by (simp add: metadata_check_def plain_metadata_def)
  then show ?thesis using wf_metadata [OF waiting_wf] by (simp add: private_waiting_def)
qed

lemma private_state_ok: "state_ok plain_world private_state"
  using waiting_state_ok private_wf by (auto simp: state_ok_def private_state_def candidates_ok_def)

lemma private_view: "cand plain_world private_state ''c1'' = Some private_waiting"
proof -
  have "kr_id (candidate_to_row private_waiting plain_text None) = ''c1''" by (simp add: candidate_to_row_def)
  then show ?thesis
    by (simp add: candidate_view_def private_state_def row_to_candidate_safe_def candidate_round_trip [OF private_wf])
qed

definition agent_stamp :: stamp where
  "agent_stamp = \<lparr>sp_actor = Some ''teamkb-review-agent'', sp_role = Some Role_admin, sp_owner = False, sp_agent = True,
     sp_tenants = Some [''team'']\<rparr>"

section \<open>The theorems\<close>

text \<open>
  C9. A hold above the caller's standing is not disclosed to exist. For a candidate the caller may not read, the
  routes that resolve a hold and that recommend on one give, to every request, the answer they give over a
  database without that candidate, status, message and code included, and change nothing; and no listing
  names it.
\<close>

theorem hidden_holds_are_not_disclosed:
  assumes "state_ok w s" "cand w s i = Some c"
    and "\<not> is_audience_visible_to_role (audience (cand_metadata c)) (Some (reader_role_of st))"
    and "state_ok w s2" "cand w s2 i = None"
  shows "resolve_route w o' st i tenant body tk now s = (fst (resolve_route w o' st i tenant body tk now s2), s)
    \<and> recommend_route w st i tenant body fresh now s = (fst (recommend_route w st i tenant body fresh now s2), s)
    \<and> (\<forall>l. list_holds_route w o' st tenant now s = Inr l \<longrightarrow> i \<notin> ah_candidate ` set (hg_holds l))"
proof -
  have u: "out_of_sight w i (reader_role_of st) s" "out_of_sight w i (reader_role_of st) s2"
    using assms(2,3,5) by (simp_all add: out_of_sight_def)
  have "i \<notin> ah_candidate ` set (hg_holds l)" if l: "list_holds_route w o' st tenant now s = Inr l" for l
  proof
    assume "i \<in> ah_candidate ` set (hg_holds l)"
    then obtain h where h: "h \<in> set (hg_holds l)" "ah_candidate h = i" by auto
    obtain tn where "hg_holds l = filter (hold_visible (reader_role_of st)) (open_holds w tn now s)"
      using l by (auto simp: list_holds_route_def list_holds_def and_then_Inr list_active_holds_ok [OF assms(1)] Let_def split: if_split_asm)
    then show False using h unseen_holds [OF assms(1) u(1)] by auto
  qed
  then show ?thesis
    using unseen_reply [OF assms(1,4) u] by (auto simp: resolve_route_def recommend_route_def)
qed

theorem hidden_holds_are_not_disclosed_witness:
  "resolve_route plain_world plain_service admin_stamp ''c1'' (Some ''team'')
       (Some (JObj [(''resolution'', JStr ''reject''), (''reason'', JStr ''noise'')])) plain_tick ''t1'' private_state
     = (Inl (Api_error 404 (Told ''Candidate c1 is not on hold in tenant team'') (Some ''not_on_hold'')), private_state)"
proof -
  let ?body = "Some (JObj [(''resolution'', JStr ''reject''), (''reason'', JStr ''noise'')])"
  have role: "reader_role_of admin_stamp = ''admin''" by (simp add: reader_role_of_def admin_stamp_def reader_role_for_def)
  have hidden: "\<not> is_audience_visible_to_role (audience (cand_metadata private_waiting)) (Some (reader_role_of admin_stamp))"
    by (simp add: role) code_simp
  have none: "cand plain_world empty_state ''c1'' = None" by (simp add: candidate_view_def empty_state_def)
  have absent: "find_active_hold plain_world ''c1'' ''team'' ''t1'' empty_state = Inr None"
    by (simp add: find_active_hold_def held_candidate_def find_candidate_safe_ok [OF empty_state_ok] none [unfolded plain_world_simps])
  have "\<not> is_agent_request admin_stamp" by (simp add: is_agent_request_def admin_stamp_def review_agent_actor_def)
  moreover have "declared_actor_type ?body = Human" "text_field ?body ''resolution'' = Some ''reject''"
      "text_field ?body ''reason'' = Some ''noise''" "text_field ?body ''audience'' = None" "optional_text ?body ''audience''"
      "body_field ?body ''acknowledgeWider'' = None" "require_tenant (Some ''team'') = Inr ''team''"
      "not_on_hold_text ''c1'' ''team'' = ''Candidate c1 is not on hold in tenant team''"
    by code_simp+
  moreover have "author_kind (acting Human admin_stamp) = Human" "author_id (acting Human admin_stamp) = ''alice''"
    by (simp_all add: acting_def admin_stamp_def)
  ultimately have "fst (resolve_route plain_world plain_service admin_stamp ''c1'' (Some ''team'') ?body plain_tick ''t1'' empty_state)
      = Inl (Api_error 404 (Told ''Candidate c1 is not on hold in tenant team'') (Some ''not_on_hold''))"
    using words_kept absent
    by (simp add: resolve_route_def service_resolve_def resolve_hold_def resolve_input_of_def resolver_roles_def role
        reply_of_def resolve_reply_def del: js_trim_def)
  then show ?thesis
    using hidden_holds_are_not_disclosed [OF private_state_ok private_view hidden empty_state_ok none, of plain_service "Some ''team''" ?body
      plain_tick "''t1''"] by simp
qed

text \<open>
  C10. An agent only advises. For a request under an agent's token, or the review agent's, the route that resolves a
  hold answers 403 and changes nothing, whatever the body claims; the route that recommends leaves
  candidates, memories, links and policies alone and adds at most one \<open>hold_recommended\<close> receipt, which is
  recorded as an AI's and names the token.
\<close>

theorem agents_only_advise:
  assumes "state_ok w s" "is_agent_request st"
  shows "resolve_route w o' st i tenant body tk now s = (Inl human_required, s)
    \<and> (recommend_route w st i tenant body fresh now s = (ans, s') \<longrightarrow>
         st_candidates s' = st_candidates s \<and> st_memories s' = st_memories s \<and> st_links s' = st_links s \<and> st_policies s' = st_policies s
         \<and> (events_of w s' = events_of w s
            \<or> (\<exists>x. events_of w s' = events_of w s @ [x] \<and> ev_action x = A_hold_recommended \<and> ev_memory_id x = i
                 \<and> schema_author (acting Ai st) = Some (ev_actor x))))"
proof (intro conjI impI)
  show "resolve_route w o' st i tenant body tk now s = (Inl human_required, s)" using assms(2) by (simp add: resolve_route_def)
next
  assume run: "recommend_route w st i tenant body fresh now s = (ans, s')"
  have effect: "s' = s \<or> (\<exists>inp h. ri_candidate inp = i \<and> ri_actor inp = acting Ai st
      \<and> write_event w (recommended_event inp h fresh now) s = Inr s')"
  proof (cases "s' = s")
    case False
    then obtain tn verdict reasoning r where
      "recommend_on_hold w (recommend_input_of i tn (acting Ai st) verdict body reasoning) fresh now s = Inr (r, s')"
      using run assms(2) by (auto simp: recommend_route_def service_recommend_def reply_of_def split: sum.splits option.splits if_split_asm)
    then have "\<exists>h. write_event w (recommended_event (recommend_input_of i tn (acting Ai st) verdict body reasoning) h fresh now) s = Inr s'"
      using False unfolding recommend_on_hold_def
      by (auto simp: and_then_Inr simp del: js_trim_def split: if_split_asm option.split_asm)
    then show ?thesis by (auto simp: recommend_input_of_def)
  qed simp
  consider (same) "s' = s"
    | (wrote) x where "events_of w s' = events_of w s @ [x]" "ev_action x = A_hold_recommended" "ev_memory_id x = i"
        "schema_author (acting Ai st) = Some (ev_actor x)" "st_candidates s' = st_candidates s" "st_memories s' = st_memories s"
        "st_links s' = st_links s" "st_policies s' = st_policies s"
  proof (cases "s' = s")
    case False
    then obtain inp h where inp: "ri_candidate inp = i" "ri_actor inp = acting Ai st"
      and wr: "write_event w (recommended_event inp h fresh now) s = Inr s'" using effect by blast
    have keys: "json_distinct (JObj (ev_details (recommended_event inp h fresh now)))"
      by (simp add: recommended_event_def split: option.split)
    obtain x where x: "receipt_of w (recommended_event inp h fresh now) x" "events_of w s' = events_of w s @ [x]"
        "st_candidates s' = st_candidates s" "st_memories s' = st_memories s" "st_links s' = st_links s" "st_policies s' = st_policies s"
      using write_event_ok [OF assms(1) wr keys] by blast
    have "ev_action x = A_hold_recommended \<and> ev_memory_id x = i \<and> schema_author (acting Ai st) = Some (ev_actor x)"
      using receipt_fields [OF x(1)] receipt_actor [OF x(1)] inp by (simp add: recommended_event_def)
    then show thesis using wrote x by blast
  qed (use same in simp)
  then show "st_candidates s' = st_candidates s" "st_memories s' = st_memories s" "st_links s' = st_links s" "st_policies s' = st_policies s"
    "events_of w s' = events_of w s \<or> (\<exists>x. events_of w s' = events_of w s @ [x] \<and> ev_action x = A_hold_recommended \<and> ev_memory_id x = i
                 \<and> schema_author (acting Ai st) = Some (ev_actor x))"
    by (cases; blast)+
qed

theorem agents_only_advise_witness:
  "\<exists>ans s'. resolve_route plain_world plain_service agent_stamp ''c1'' (Some ''team'') (Some (JObj [(''resolution'', JStr ''release'')]))
         plain_tick ''t1'' waiting_state = (Inl human_required, waiting_state)
     \<and> recommend_route plain_world agent_stamp ''c1'' (Some ''team'')
         (Some (JObj [(''verdict'', JStr ''reject''), (''reasoning'', JStr ''noise'')])) ''e1'' ''t1'' waiting_state = (ans, s')
     \<and> st_candidates s' = st_candidates waiting_state \<and> st_memories s' = st_memories waiting_state"
proof -
  let ?b = "Some (JObj [(''verdict'', JStr ''reject''), (''reasoning'', JStr ''noise'')])"
  have "is_agent_request agent_stamp" by (simp add: is_agent_request_def agent_stamp_def)
  note law = agents_only_advise [OF waiting_state_ok this]
  show ?thesis
    using law [of plain_service "''c1''" "Some ''team''" "Some (JObj [(''resolution'', JStr ''release'')])" plain_tick "''t1''"]
      law [of plain_service "''c1''" "Some ''team''" ?b plain_tick "''t1''" "''e1''"]
    by (cases "recommend_route plain_world agent_stamp ''c1'' (Some ''team'') ?b ''e1'' ''t1'' waiting_state") blast
qed

end
