(* ===== verification/Inbox_Routes.thy ===== *)
theory Inbox_Routes
  imports Hold_Service_Laws Token_Registry Vault_Import Audit_Verify
begin

text \<open>
  The routes of the inbox, the audit log, the token registry and the import batches:
  \<open>apps/api/src/routes/candidates.ts\<close>, \<open>audit.ts\<close>, \<open>auth.ts\<close>, \<open>import.ts\<close> with
  \<open>services/candidate-service.ts\<close> and \<open>services/import-service.ts\<close>. A route that changes a state returns it next to
  its answer.
\<close>

section \<open>Candidates\<close>

definition intake_context_of :: "stamp \<Rightarrow> intake_context" where
  "intake_context_of st =
     \<lparr>ic_actor = sp_actor st, ic_role = map_option token_role_name (sp_role st), ic_tenants = sp_tenants st\<rparr>"

text \<open>The answer carries the status: 201 for a first landing, 200 for a proposal that was there already.\<close>

definition intake_status :: "intake_result \<Rightarrow> nat" where
  "intake_status r = (case r of Intake_created c \<Rightarrow> 201 | Intake_already_exists c \<Rightarrow> 200)"

definition intake_route ::
  "world \<Rightarrow> string list \<Rightarrow> stamp \<Rightarrow> memory_candidate \<Rightarrow> iso_datetime \<Rightarrow> store_state \<Rightarrow> (nat \<times> intake_result) reply" where
  "intake_route w allowed st data now s =
     (case intake_candidate w data (intake_context_of st) allowed now s of
        Inl e \<Rightarrow> (Inl (intake_failure e), s)
      | Inr (r, s') \<Rightarrow> (Inr (intake_status r, r), s'))"

definition promote_route ::
  "world \<Rightarrow> promotion_options \<Rightarrow> stamp \<Rightarrow> string \<Rightarrow> string option \<Rightarrow> jval option \<Rightarrow> uuid \<Rightarrow> iso_datetime \<Rightarrow> store_state \<Rightarrow>
    curated_memory reply" where
  "promote_route w o' st i tenant body fresh now s =
     (case require_tenant tenant of
        Inl e \<Rightarrow> (Inl e, s)
      | Inr tn \<Rightarrow>
          (case promote_candidate w o' i tn (Some (acting (declared_actor_type body) st)) (text_field body ''reason'') fresh now s of
             (Inl r, s') \<Rightarrow> (Inl (promotion_failure r), s')
           | (Inr m, s') \<Rightarrow> (Inr m, s')))"

definition reject_reason :: "jval option \<Rightarrow> api_failure + string" where
  "reject_reason body =
     (case text_field body ''reason'' of
        None \<Rightarrow> Inl (bad_request ''a non-empty reason is required to reject a candidate'')
      | Some r \<Rightarrow> if js_trim r = [] then Inl (bad_request ''a non-empty reason is required to reject a candidate'') else Inr r)"

definition reject_route ::
  "world \<Rightarrow> stamp \<Rightarrow> string \<Rightarrow> string option \<Rightarrow> jval option \<Rightarrow> uuid \<Rightarrow> iso_datetime \<Rightarrow> store_state \<Rightarrow> string reply" where
  "reject_route w st i tenant body fresh now s =
     (case and_then (require_tenant tenant) (\<lambda>tn. and_then (reject_reason body) (\<lambda>r. Inr (tn, r))) of
        Inl e \<Rightarrow> (Inl e, s)
      | Inr (tn, r) \<Rightarrow>
          (case reject_candidate w i tn (acting (declared_actor_type body) st) r fresh now s of
             Inl e \<Rightarrow> (Inl (rejection_failure i e), s)
           | Inr s' \<Rightarrow> (Inr i, s')))"

definition get_candidate_route :: "world \<Rightarrow> string \<Rightarrow> store_state \<Rightarrow> api_failure + memory_candidate" where
  "get_candidate_route w i s =
     and_then (api_lift (find_candidate (w_formats w) i (st_candidates s))) (\<lambda>found.
       case found of None \<Rightarrow> Inl (missing_record ''Candidate'' i) | Some c \<Rightarrow> Inr c)"

text \<open>The dash of the message is written in ASCII.\<close>

definition invalid_status_text :: "string \<Rightarrow> string" where
  "invalid_status_text t =
     ''Invalid status filter '' @ [CHR 0x27] @ t @ [CHR 0x27] @ '' -- must be one of: '' @ js_join '', '' (map status_name status_options)"

definition list_candidates_route ::
  "world \<Rightarrow> string option \<Rightarrow> string option \<Rightarrow> store_state \<Rightarrow> api_failure + memory_candidate list" where
  "list_candidates_route w tenant status s =
     (case tenant of
        None \<Rightarrow> Inl (bad_request ''tenantId query parameter is required'')
      | Some tn \<Rightarrow>
          if tn = [] then Inl (bad_request ''tenantId query parameter is required'')
          else (case status of
                  None \<Rightarrow> api_lift (find_candidates_by_tenant (w_formats w) tn (st_candidates s))
                | Some t \<Rightarrow>
                    if t = [] then api_lift (find_candidates_by_tenant (w_formats w) tn (st_candidates s))
                    else (case parse_enum status_options status_name t of
                            None \<Rightarrow> Inl (bad_request (invalid_status_text t))
                          | Some x \<Rightarrow> Inr (find_by_status (w_formats w) x tn (st_candidates s)))))"

section \<open>The audit log\<close>

definition filled_text :: "string option \<Rightarrow> string option" where
  "filled_text t = (case t of None \<Rightarrow> None | Some x \<Rightarrow> if x = [] then None else Some x)"

definition audit_route ::
  "world \<Rightarrow> string option \<Rightarrow> string option \<Rightarrow> string option \<Rightarrow> store_state \<Rightarrow> api_failure + audit_event list" where
  "audit_route w tenant memory action s =
     (case filled_text tenant of
        None \<Rightarrow> Inl (bad_request ''tenantId is required'')
      | Some tn \<Rightarrow>
          api_lift (lift_audit
            (case (filled_text memory, filled_text action) of
               (Some m, _) \<Rightarrow> find_by_memory_and_tenant (w_formats w) m tn (st_audits s)
             | (None, Some a) \<Rightarrow> find_by_tenant_and_action (w_formats w) tn a (st_audits s)
             | (None, None) \<Rightarrow> find_by_tenant (w_formats w) tn (st_audits s))))"

record chain_integrity =
  cg_tampered :: bool
  cg_checked :: nat
  cg_unverified :: nat
  cg_forks :: nat
  cg_breaks :: nat

record requested_tip =
  rq_hash :: string
  rq_present :: bool
  rq_sequence :: "nat option"
  rq_current :: bool

datatype tip_answer =
    Invalid_receipt_hash
  | Chain_tampered chain_integrity
  | Chain_tip "chain_position option" "requested_tip option" chain_integrity

fun tip_status :: "tip_answer \<Rightarrow> nat" where
  "tip_status Invalid_receipt_hash = 400"
| "tip_status (Chain_tampered g) = 503"
| "tip_status (Chain_tip c r g) = 200"

definition tamper_breaks :: "audit_verify_result \<Rightarrow> chain_break list" where
  "tamper_breaks v = filter (\<lambda>b. cb_reason b \<noteq> Chain_fork) (breaks v)"

definition integrity_of :: "audit_verify_result \<Rightarrow> chain_integrity" where
  "integrity_of v =
     \<lparr>cg_tampered = (tamper_breaks v \<noteq> []), cg_checked = clean_rows v, cg_unverified = unverified_rows v,
      cg_forks = length (breaks v) - length (tamper_breaks v), cg_breaks = length (tamper_breaks v)\<rparr>"

definition requested_tip_of :: "string \<Rightarrow> chain_position option \<Rightarrow> audit_table \<Rightarrow> requested_tip" where
  "requested_tip_of h current t =
     (let p = find_chain_position h t
      in \<lparr>rq_hash = h, rq_present = (p \<noteq> None), rq_sequence = map_option cp_sequence p,
          rq_current = (map_option cp_entry_hash current = Some h)\<rparr>)"

definition receipt_tip_route :: "world \<Rightarrow> jval option \<Rightarrow> store_state \<Rightarrow> tip_answer" where
  "receipt_tip_route w hash s =
     (if (case hash of None \<Rightarrow> False | Some (JStr h) \<Rightarrow> \<not> sha256_shape h | Some _ \<Rightarrow> True) then Invalid_receipt_hash
      else
        let v = verify_audit_chain (w_sha256 w) (st_audits s); current = find_chain_tip (st_audits s)
        in if tamper_breaks v \<noteq> [] then Chain_tampered (integrity_of v)
           else Chain_tip current
                  (case hash of Some (JStr h) \<Rightarrow> Some (requested_tip_of h current (st_audits s)) | _ \<Rightarrow> None)
                  (integrity_of v))"

section \<open>Token revocation\<close>

definition revoke_route :: "kdf \<Rightarrow> jval option \<Rightarrow> registry \<Rightarrow> (api_failure + bool) \<times> registry" where
  "revoke_route kdf body reg =
     (case filled_text (text_field body ''token'') of
        None \<Rightarrow> (Inl (bad_request ''token is required''), reg)
      | Some t \<Rightarrow> (case revoke_token kdf t reg of (b, reg') \<Rightarrow> (Inr b, reg')))"

text \<open>
  The registry first, then the list of revoked actors: \<open>persist\<close> writes a value over the file and yields its
  text, or nothing when the write throws, which the route only logs.
\<close>

definition revoke_actor_route ::
  "(jval \<Rightarrow> string option) \<Rightarrow> bool \<Rightarrow> jval option \<Rightarrow> iso_datetime \<Rightarrow> registry \<times> string option \<Rightarrow>
    (api_failure + nat) \<times> registry \<times> string option" where
  "revoke_actor_route persist durable body now rf =
     (case filled_text (text_field body ''actor'') of
        None \<Rightarrow> (Inl (bad_request ''actor is required''), rf)
      | Some a \<Rightarrow>
          (case revoke_by_actor a (fst rf) of
             (n, reg') \<Rightarrow>
               (Inr n, reg',
                if durable
                then (case persist (append_revoked_actor (snd rf) a now (filled_text (text_field body ''reason''))) of
                        None \<Rightarrow> snd rf | Some t \<Rightarrow> Some t)
                else snd rf)))"

section \<open>Imports\<close>

record import_body =
  mb_source :: string
  mb_tenant :: string
  mb_exclude :: "string list option"

definition schema_import :: "jval option \<Rightarrow> import_body option" where
  "schema_import body =
     (case (filled_text (text_field body ''sourcePath''), filled_text (text_field body ''tenantId''), body_field body ''excludeDirs'') of
        (Some p, Some tn, None) \<Rightarrow> Some \<lparr>mb_source = p, mb_tenant = tn, mb_exclude = None\<rparr>
      | (Some p, Some tn, Some (JArr vs)) \<Rightarrow>
          if list_all (\<lambda>v. case v of JStr _ \<Rightarrow> True | _ \<Rightarrow> False) vs
          then Some \<lparr>mb_source = p, mb_tenant = tn, mb_exclude = Some (List.map_filter (\<lambda>v. case v of JStr x \<Rightarrow> Some x | _ \<Rightarrow> None) vs)\<rparr>
          else None
      | _ \<Rightarrow> None)"

definition checked_import :: "jval option \<Rightarrow> api_failure + import_body" where
  "checked_import body =
     (case schema_import body of
        None \<Rightarrow> Inl (schema_refusal [])
      | Some b \<Rightarrow>
          if js_trim (mb_source b) = [] then Inl (bad_request ''sourcePath is required'')
          else if js_trim (mb_tenant b) = [] then Inl (bad_request ''tenantId is required'')
          else Inr b)"

text \<open>\<open>disk\<close> is what the walk finds under a path: the entries of the directory, or nothing when it cannot be read.\<close>

definition vault_of :: "(string \<Rightarrow> fs_entry list option) \<Rightarrow> import_body \<Rightarrow> vault_file list" where
  "vault_of disk b = walk_vault (mb_source b) (case mb_exclude b of None \<Rightarrow> [] | Some xs \<Rightarrow> xs) (disk (mb_source b))"

definition preview_route ::
  "world \<Rightarrow> (string \<Rightarrow> fs_entry list option) \<Rightarrow> jval option \<Rightarrow> store_state \<Rightarrow> api_failure + import_preview" where
  "preview_route w disk body s = and_then (checked_import body) (\<lambda>b. api_lift (preview_import w (vault_of disk b) s))"

text \<open>\<open>basename\<close> of the source path is a parameter, as are the batch id and the clock.\<close>

definition import_route ::
  "world \<Rightarrow> (string \<Rightarrow> fs_entry list option) \<Rightarrow> (string \<Rightarrow> string) \<Rightarrow> jval option \<Rightarrow> string \<Rightarrow> iso_datetime \<Rightarrow> intake_db \<Rightarrow>
    (api_failure + import_execution) \<times> intake_db" where
  "import_route w disk basename body batch now d =
     (case checked_import body of
        Inl e \<Rightarrow> (Inl e, d)
      | Inr b \<Rightarrow>
          (case execute_import w (mb_source b) (basename (mb_source b)) (mb_tenant b) batch now (vault_of disk b) d of
             (r, d') \<Rightarrow> (api_lift r, d')))"

definition list_batches_route :: "string option \<Rightarrow> intake_db \<Rightarrow> import_batch list" where
  "list_batches_route tenant d =
     (case filled_text tenant of
        Some tn \<Rightarrow> find_batches_by_tenant tn (id_batches d)
      | None \<Rightarrow> find_batches_by_status Batch_active (id_batches d) @ find_batches_by_status Batch_completed (id_batches d))"

definition get_batch_route :: "string \<Rightarrow> intake_db \<Rightarrow> api_failure + import_batch" where
  "get_batch_route i d =
     (case find_batch i (id_batches d) of
        None \<Rightarrow> Inl (Api_error 404 (Told (''Import batch not found: '' @ i)) None)
      | Some b \<Rightarrow> Inr b)"

text \<open>The service tells the refusals apart by their messages, and an id is part of the message.\<close>

fun rollback_text :: "rollback_refusal \<Rightarrow> string" where
  "rollback_text (Batch_not_found i) = ''Import batch not found: '' @ i"
| "rollback_text (Batch_already_rolled_back i) = ''Import batch already rolled back: '' @ i"

definition rollback_failure :: "rollback_refusal \<Rightarrow> api_failure" where
  "rollback_failure e =
     Api_error (if js_includes ''not found'' (rollback_text e) then 404 else 400) (Told (rollback_text e)) None"

definition rollback_route :: "string \<Rightarrow> bool \<Rightarrow> iso_datetime \<Rightarrow> intake_db \<Rightarrow> (api_failure + rollback_result) \<times> intake_db" where
  "rollback_route i with_links now d =
     (case rollback_import i with_links now d of
        Inl e \<Rightarrow> (Inl (rollback_failure e), d)
      | Inr (r, d') \<Rightarrow> (Inr r, d'))"

end
