(* ===== verification/Policy_Service.thy ===== *)
theory Policy_Service
  imports Api_Errors Recommended_Policy
begin

text \<open>
  Governance policies over HTTP: the repository \<open>packages/store/src/repositories/policy-repository.ts\<close>, the
  service \<open>apps/api/src/services/policy-service.ts\<close> and the routes \<open>apps/api/src/routes/policies.ts\<close>. The table is
  the list of policies in row order, whose codec is not modelled: a stored policy reads back as it was
  written. The body of a request is the typed object; \<open>None\<close> is one that has no such type.
\<close>

section \<open>The repository\<close>

type_synonym policy_table = "governance_policy list"

definition policy_insert :: "governance_policy \<Rightarrow> policy_table \<Rightarrow> fault + policy_table" where
  "policy_insert p t = (if policy_id p \<in> set (map policy_id t) then Inl (Key_taken (policy_id p)) else Inr (t @ [p]))"

definition find_policy :: "string \<Rightarrow> policy_table \<Rightarrow> governance_policy option" where
  "find_policy i t = find (\<lambda>p. policy_id p = i) t"

definition find_policies_by_tenant :: "tenant_id \<Rightarrow> policy_table \<Rightarrow> governance_policy list" where
  "find_policies_by_tenant tn t = filter (\<lambda>p. policy_tenant p = tn) t"

definition list_policies :: "policy_table \<Rightarrow> governance_policy list" where
  "list_policies t = t"

text \<open>The update names every column but \<open>id\<close> and \<open>created_at\<close>.\<close>

definition policy_update :: "governance_policy \<Rightarrow> policy_table \<Rightarrow> bool \<times> policy_table" where
  "policy_update p t =
     (policy_id p \<in> set (map policy_id t),
      map (\<lambda>q. if policy_id q = policy_id p then p\<lparr>policy_created_at := policy_created_at q\<rparr> else q) t)"

definition policy_delete :: "string \<Rightarrow> policy_table \<Rightarrow> bool \<times> policy_table" where
  "policy_delete i t = (i \<in> set (map policy_id t), filter (\<lambda>p. policy_id p \<noteq> i) t)"

section \<open>The schema\<close>

definition schema_rule :: "policy_rule \<Rightarrow> policy_rule option" where
  "schema_rule r = map_option (\<lambda>i. r\<lparr>rule_id := i\<rparr>) (non_empty_string (rule_id r))"

fun schema_rules :: "policy_rule list \<Rightarrow> policy_rule list option" where
  "schema_rules [] = Some []"
| "schema_rules (r # rs) = Option.bind (schema_rule r) (\<lambda>x. map_option (\<lambda>xs. x # xs) (schema_rules rs))"

definition schema_policy :: "formats \<Rightarrow> governance_policy \<Rightarrow> governance_policy option" where
  "schema_policy fmt p =
     Option.bind (non_empty_string (policy_name p)) (\<lambda>name.
     Option.bind (non_empty_string (policy_tenant p)) (\<lambda>tenant.
     Option.bind (schema_rules (policy_rules p)) (\<lambda>rules.
       if fmt_uuid fmt (policy_id p) \<and> policy_rules p \<noteq> [] \<and> 0 < policy_version p
          \<and> fmt_datetime fmt (policy_created_at p) \<and> fmt_datetime fmt (policy_updated_at p)
       then Some (p\<lparr>policy_name := name, policy_tenant := tenant, policy_rules := rules\<rparr>) else None)))"

section \<open>The service\<close>

definition create_policy :: "world \<Rightarrow> governance_policy option \<Rightarrow> store_state \<Rightarrow> governance_policy reply" where
  "create_policy w data s =
     (case Option.bind data (schema_policy (w_formats w)) of
        None \<Rightarrow> (Inl (schema_refusal ''Invalid policy: ''), s)
      | Some p \<Rightarrow>
          (case policy_insert p (st_policies s) of
             Inl e \<Rightarrow> (Inl (Api_fault e), s)
           | Inr t \<Rightarrow> (Inr p, s\<lparr>st_policies := t\<rparr>)))"

definition get_policy :: "string \<Rightarrow> store_state \<Rightarrow> api_failure + governance_policy" where
  "get_policy i s =
     (case find_policy i (st_policies s) of None \<Rightarrow> Inl (missing_record ''Policy'' i) | Some p \<Rightarrow> Inr p)"

definition policies_of_tenant :: "string option \<Rightarrow> store_state \<Rightarrow> api_failure + governance_policy list" where
  "policies_of_tenant tenant s =
     (case tenant of
        None \<Rightarrow> Inl (bad_request ''tenantId query parameter is required'')
      | Some tn \<Rightarrow>
          if tn = [] then Inl (bad_request ''tenantId query parameter is required'')
          else Inr (find_policies_by_tenant tn (st_policies s)))"

text \<open>The id of the URL wins over the id of the body.\<close>

definition update_policy :: "world \<Rightarrow> string \<Rightarrow> governance_policy option \<Rightarrow> store_state \<Rightarrow> governance_policy reply" where
  "update_policy w i data s =
     (case Option.bind data (schema_policy (w_formats w)) of
        None \<Rightarrow> (Inl (schema_refusal ''Invalid policy update: ''), s)
      | Some p \<Rightarrow>
          (let updated = p\<lparr>policy_id := i\<rparr>; (changed, t) = policy_update updated (st_policies s)
           in if changed then (Inr updated, s\<lparr>st_policies := t\<rparr>) else (Inl (missing_record ''Policy'' i), s)))"

definition delete_policy :: "string \<Rightarrow> store_state \<Rightarrow> unit reply" where
  "delete_policy i s =
     (let (deleted, t) = policy_delete i (st_policies s)
      in if deleted then (Inr (), s\<lparr>st_policies := t\<rparr>) else (Inl (missing_record ''Policy'' i), s))"

section \<open>Dormant rules\<close>

record policy_dormancy =
  pd_policy :: uuid
  pd_name :: string
  pd_tenant :: tenant_id
  pd_dormant :: "policy_rule_type list"

text \<open>\<open>HealthService.checkPolicyDormancy\<close>: the enabled policies that leave a registered rule inert.\<close>

definition check_policy_dormancy :: "store_state \<Rightarrow> policy_dormancy list" where
  "check_policy_dormancy s =
     List.map_filter (\<lambda>p.
       if \<not> policy_enabled p \<or> find_uncovered_rule_types p = [] then None
       else Some \<lparr>pd_policy = policy_id p, pd_name = policy_name p, pd_tenant = policy_tenant p,
                  pd_dormant = find_uncovered_rule_types p\<rparr>) (list_policies (st_policies s))"

text \<open>The diagnostics route: for administrators without a tenant binding only.\<close>

definition diagnostics_route :: "stamp \<Rightarrow> store_state \<Rightarrow> api_failure + policy_dormancy list" where
  "diagnostics_route st s =
     (if sp_role st \<noteq> Some Role_admin \<or> (case sp_tenants st of None \<Rightarrow> False | Some ts \<Rightarrow> ts \<noteq> [])
      then Inl (Api_error 403 (Told ''Global diagnostics require an unscoped administrator.'') (Some ''global_diagnostics_admin_required''))
      else Inr (check_policy_dormancy s))"

end
