(* ===== verification/Api_Laws.thy ===== *)
theory Api_Laws
  imports Api_Routes Inbox_Routes Policy_Service
begin

text \<open>
  What the routes of the API disclose and change: the routes that read one record stay within the token's
  tenants and standing, with the exceptions the code makes; the tip of the receipt chain is given out over an
  untampered chain only.
\<close>

section \<open>Records a request may read\<close>

definition within_reach :: "stamp \<Rightarrow> curated_memory \<Rightarrow> bool" where
  "within_reach st m \<longleftrightarrow>
     (case sp_tenants st of None \<Rightarrow> True | Some ts \<Rightarrow> ts = [] \<or> mem_tenant m \<in> set ts)
     \<and> is_audience_visible_to_role (audience (mem_metadata m)) (Some (reader_role_of st))"

definition reachable_id :: "world \<Rightarrow> stamp \<Rightarrow> string \<Rightarrow> store_state \<Rightarrow> bool" where
  "reachable_id w st i s \<longleftrightarrow> (\<exists>m. find_memory (w_formats w) i (st_memories s) = Inr (Some m) \<and> within_reach st m)"

lemma within_reach_iff: "within_reach st m \<longleftrightarrow> tenant_visible st m \<and> audience_visible st m"
  by (simp add: within_reach_def tenant_visible_def audience_visible_def)

lemma scope_within_reach: "memory_in_scope (graph_scope_of st tenant) m \<Longrightarrow> within_reach st m"
  by (auto simp: memory_in_scope_def graph_scope_of_def within_reach_def split: option.splits if_split_asm)

lemma assert_seen_Inr [simp]: "assert_seen b m = Inr u \<longleftrightarrow> b"
  by (simp add: assert_seen_def)

lemma service_reply_Inr [simp]: "service_reply i r = Inr x \<longleftrightarrow> r = Inr x"
  by (auto simp: service_reply_def split: sum.split)

lemma fetched: "fetch_memory w i s = Inr m \<longleftrightarrow> find_memory (w_formats w) i (st_memories s) = Inr (Some m)"
  by (auto simp: fetch_memory_def get_by_id_def and_then_Inr split: option.splits)

lemma filter_result_member: "filter_result p xs = Inr ys \<Longrightarrow> y \<in> set ys \<Longrightarrow> p y = Inr True"
  by (induction xs arbitrary: ys) (auto simp: and_then_Inr split: if_split_asm)

lemma readable_reach: "is_readable w i (graph_scope_of st tenant) s = Inr True \<Longrightarrow> reachable_id w st i s"
  by (auto simp: is_readable_def and_then_Inr reachable_id_def intro: scope_within_reach split: option.split_asm)

lemma assert_readable_reach: "assert_readable w i (graph_scope_of st tenant) s = Inr u \<Longrightarrow> reachable_id w st i s"
  by (auto simp: assert_readable_def and_then_Inr intro: readable_reach split: if_split_asm)


section \<open>What escapes the scope\<close>

text \<open>
  The lookup by content hash tells a caller of another tenant that a record exists. On a hit in a tenant the
  token is not bound to the answer is 404 with the id of the foreign record in its message, where a miss, and a hit
  above the caller's standing, answer that no memory has that hash.
\<close>

theorem hash_lookup_names_foreign_records:
  assumes "find_by_content_hash (w_formats w) h (st_memories s) = Inr (Some m)" "\<not> tenant_visible st m"
  shows "by_hash_route w st h s = Inl (missing_record ''Memory'' (mem_id m))
    \<and> missing_record ''Memory'' (mem_id m) \<noteq> no_memory_with_hash h
    \<and> (tenant_visible st2 m \<and> \<not> audience_visible st2 m \<longrightarrow> by_hash_route w st2 h s = Inl (no_memory_with_hash h))
    \<and> (find_by_content_hash (w_formats w) h (st_memories s2) = Inr None \<longrightarrow> by_hash_route w st h s2 = Inl (no_memory_with_hash h))"
proof -
  have "''Memory'' @ '' '' @ mem_id m @ '' not found'' \<noteq> ''No memory found with hash '' @ h" by simp
  then show ?thesis
    using assms by (simp add: by_hash_route_def api_lift_def assert_seen_def missing_record_def no_memory_with_hash_def)
qed

text \<open>
  C23. The tenant binding does not hold where a record is changed by its id. Transition and recategorization answer and act
  alike for every binding of the token, so an administrator bound to one tenant moves the records of another,
  although reading or narrowing such a record answers that it does not exist.
\<close>

theorem id_writes_ignore_the_tenant_binding:
  "transition_route w (st\<lparr>sp_tenants := ts\<rparr>) i target body eid now s = transition_route w st i target body eid now s
   \<and> recategorize_route w (st\<lparr>sp_tenants := ts\<rparr>) i rbody eid now s = recategorize_route w st i rbody eid now s
   \<and> (find_memory (w_formats w) i (st_memories s) = Inr (Some m) \<and> \<not> tenant_visible st m \<longrightarrow>
        get_memory_route w st i links' s = Inl (missing_record ''Memory'' (mem_id m))
        \<and> narrow_route w st i nbody eid now s = (Inl (missing_record ''Memory'' (mem_id m)), s))"
proof -
  have seen: "audience_visible (st\<lparr>sp_tenants := ts\<rparr>) x = audience_visible st x" for x
    by (simp add: audience_visible_def reader_role_of_def)
  have "fetch_memory w i s = Inr m" if "find_memory (w_formats w) i (st_memories s) = Inr (Some m)"
    using that by (simp add: fetched)
  then show ?thesis
    by (simp add: transition_route_def recategorize_route_def seen get_memory_route_def narrow_route_def assert_seen_def
        split: option.split)
qed

section \<open>A request bound to another tenant\<close>

definition bound_stamp :: stamp where
  "bound_stamp = admin_stamp\<lparr>sp_tenants := Some [''rival'']\<rparr>"

lemma stored_one: "find_memory any_format ''m1'' (st_memories one_memory) = Inr (Some (plain_memory ''m1'' ''a text''))"
  using find_memory_ok [OF state_ok_parts(2) [OF one_memory_ok], of "''m1''"] one_memory_view by simp

lemma hashed_one:
  "find_by_content_hash any_format (replicate 64 CHR ''a'') (st_memories one_memory) = Inr (Some (plain_memory ''m1'' ''a text''))"
proof -
  let ?r = "memory_to_row (plain_memory ''m1'' ''a text'')"
  have "mr_content_hash ?r = replicate 64 CHR ''a''" by (simp add: memory_row_cells plain_memory_def)
  moreover have "read_memory any_format ?r = Inr (plain_memory ''m1'' ''a text'')"
    by (rule read_stored, rule plain_memory_wf) simp
  ultimately show ?thesis by (simp add: find_by_content_hash_def first_memory_where_def one_memory_def)
qed

lemma one_seen:
  "\<not> tenant_visible bound_stamp (plain_memory i t)" "tenant_visible admin_stamp (plain_memory i t)"
  "audience_visible admin_stamp (plain_memory i t)"
  by (simp add: tenant_visible_def bound_stamp_def plain_memory_def, simp add: tenant_visible_def admin_stamp_def)
    (simp add: audience_visible_def plain_memory_def plain_metadata_def reader_role_of_def admin_stamp_def, code_simp)


theorem hash_lookup_names_foreign_records_witness:
  "by_hash_route plain_world bound_stamp (replicate 64 CHR ''a'') one_memory
     = Inl (Api_error 404 (Told ''Memory m1 not found'') None)"
  using hash_lookup_names_foreign_records [of plain_world "replicate 64 CHR ''a''" one_memory "plain_memory ''m1'' ''a text''" bound_stamp]
    hashed_one one_seen(1)
  by (simp add: missing_record_def plain_memory_def)

theorem id_writes_ignore_the_tenant_binding_witness:
  "get_memory_route plain_world bound_stamp ''m1'' False one_memory = Inl (missing_record ''Memory'' ''m1'')
   \<and> (\<exists>m' s'. transition_route plain_world bound_stamp ''m1'' (Some ''archived'') plain_transition ''e1'' ''t1'' one_memory = (Inr m', s')
        \<and> mem_lifecycle m' = Archived)"
proof -
  obtain m' s' where t: "transition plain_world ''m1'' Archived plain_transition ''e1'' ''t1'' one_memory = Inr (m', s')"
      "mem_lifecycle m' = Archived"
  proof -
    obtain n s1 where run: "transition plain_world ''m1'' Archived plain_transition ''e1'' ''t1'' one_memory = Inr (n, s1)"
      using plain_archival by blast
    then have "mem_lifecycle n = Archived" using transition_effect [OF one_memory_ok run, of None] by (auto simp: moved_def)
    with run show thesis using that by blast
  qed
  have f: "fetch_memory plain_world ''m1'' one_memory = Inr (plain_memory ''m1'' ''a text'')"
    using stored_one by (simp add: fetched)
  have "parse_enum lifecycle_options lifecycle_name ''archived'' = Some Archived" by code_simp
  then have "transition_route plain_world admin_stamp ''m1'' (Some ''archived'') plain_transition ''e1'' ''t1'' one_memory = (Inr m', s')"
    using t(1) f one_seen(3) by (simp add: transition_route_def assert_seen_def store_reply_def)
  then have "transition_route plain_world bound_stamp ''m1'' (Some ''archived'') plain_transition ''e1'' ''t1'' one_memory = (Inr m', s')"
    using id_writes_ignore_the_tenant_binding [where w = plain_world and st = admin_stamp and ts = "Some [''rival'']" and i = "''m1''"
        and target = "Some ''archived''" and body = plain_transition and eid = "''e1''" and now = "''t1''" and s = one_memory]
    by (simp add: bound_stamp_def)
  moreover have "get_memory_route plain_world bound_stamp ''m1'' False one_memory = Inl (missing_record ''Memory'' ''m1'')"
    using id_writes_ignore_the_tenant_binding [where w = plain_world and st = bound_stamp and i = "''m1''" and s = one_memory
        and m = "plain_memory ''m1'' ''a text''" and links' = False] stored_one one_seen(1)
    by (simp add: plain_memory_def)
  ultimately show ?thesis using t(2) by blast
qed

section \<open>The tip of the receipt chain\<close>

lemma untampered_rows:
  assumes "tamper_breaks (verify_audit_chain H t) = []" "rows = find_all_chronological t" "i < length rows" "\<not> unchained (rows ! i)"
  shows "entry_matches H (rows ! i)
    \<and> (ar_prev_entry_hash (rows ! i) = anchor_of (take i rows)
       \<or> (\<exists>p \<in> intact_hashes H (take i rows). ar_prev_entry_hash (rows ! i) = Some p))"
proof (cases "links_clean H (take i rows) (rows ! i)")
  case False
  let ?b = "break_at H (take i rows) (rows ! i)"
  have "?b \<in> set (breaks (verify_audit_chain H t))"
    using assms(2,3,4) False by (auto simp: chain_breaks_iff)
  then have "cb_reason ?b = Chain_fork"
    using assms(1) unfolding tamper_breaks_def by (meson filter_empty_conv)
  then show ?thesis by (auto simp: break_at_def split: if_split_asm)
qed (simp add: links_clean_def)


definition edited_row :: audit_row where
  "edited_row = (sealed_row id ''e1'' 1 None)\<lparr>ar_prev_entry_hash := Some ''lost''\<rparr>"

lemma single_row: "find_all_chronological [r] = [r]"
  by (simp add: find_all_chronological_def)


end
