(* ===== verification/Spec2Isabelle.thy ===== *)
theory Spec2Isabelle
  imports Audience Lifecycle Audit_Merge Audit_Anchor Exception_Manifest Supersession Hold_Triggers
    Uuid Memory_Search Candidate_Store Memory_Links Import_Exclusion Hold_Expiry Promoter_Laws Curator_Laws
    Resolve_Laws Governance_Runs Vault_Laws Search_Laws Access_Laws
    Api_Laws
begin

text \<open>
  The Registrar: governed memory for a team. Proposals (\<open>MemoryCandidate\<close>) arrive in an inbox
  table, a policy pipeline judges them, and those that pass are promoted to the curated memories
  that readers and exporters see; some wait in a hold queue for a human. Every move writes a
  receipt to an append-only, hash-chained audit log, and the log can be anchored, merged with the
  log of another installation and checked.

  Parts and theories, all of the TypeScript under \<open>src/packages\<close>, \<open>src/apps/curator\<close> and \<open>src/apps/api\<close>:

  \<^item> \<open>Schema_Types\<close>, \<open>Record_Codec\<close>, \<open>Json\<close>: the vocabularies, records and string shapes of
    \<open>packages/schema\<close>, their JSON forms over a model of \<open>JSON.stringify\<close> and \<open>JSON.parse\<close>, and the
    parse of each record. A record is well formed when parsing leaves it unchanged.
  \<^item> \<open>Lifecycle\<close>, \<open>Audience\<close>: the state graph of a memory and who may read a claim.
  \<^item> \<open>Audit_Chain\<close>, \<open>Audit_Repo\<close>, \<open>Audit_Verify\<close>, \<open>Exception_Manifest\<close>, \<open>Audit_Anchor\<close>,
    \<open>Audit_Merge\<close>: the canonical bytes and hash of a log row, the append transaction and the finders of
    \<open>audit-repository.ts\<close>, the verifier, the byte-pinned amnesty for known breaks, and the linear and
    signed merge anchors.
  \<^item> \<open>Regex\<close>, \<open>Policy_Rules\<close>, \<open>Pipeline\<close>, \<open>Recommended_Policy\<close>, \<open>Supersession\<close>, \<open>Hold_Triggers\<close>:
    the ten rules of \<open>packages/policy-engine\<close>, the two-phase pipeline, the shipped policy, the
    planner of supersessions and the pure part of holds.
  \<^item> \<open>Uuid\<close>: the deterministic identifiers of \<open>packages/common\<close>, on bytes.
  \<^item> \<open>Store_Rows\<close>, \<open>Store_Interface\<close>, \<open>Memory_Store\<close>, \<open>Memory_Search\<close>, \<open>Candidate_Store\<close>: the two
    tables of \<open>packages/store\<close> as lists of rows, the codecs of their rows, the gates of \<open>insert\<close>,
    every operation, the refinement to a finite map and the substring search. The locale
    \<open>keyed_store\<close> is the contract both tables meet.
  \<^item> \<open>Memory_Links\<close>: the link table, the neighbours and the bounded traversal, with the read scope that
    confines them to one tenant and one standing.
  \<^item> \<open>Import_Exclusion\<close>, \<open>Wikilinks\<close>: the brainignore patterns with the heuristics on content, and the links
    a text names, whose scanning loops are partial functions proved to return.
  \<^item> \<open>Governance_Db\<close>, \<open>Holds\<close>, \<open>Hold_Laws\<close>, \<open>Hold_Expiry\<close>, \<open>Governance_Steps\<close>: one database state, the
    hold queue of \<open>curator/src/hold/hold.ts\<close>, and the steps by which governance changes the state.
    \<open>gov_step\<close> has one rule per kind of write; well-formed tables, a strictly clean chain and the cap of
    the hold queue are proved for the steps, so an operation inherits them once it is a sequence of steps.
  \<^item> \<open>Intake_Gates\<close>, \<open>Promoter\<close>, \<open>Promoter_Laws\<close>: the structural gates, the sensitivity floor and the
    rejections of \<open>apps/curator\<close>, and the promotion transaction with what it guarantees.
  \<^item> \<open>Curator\<close>, \<open>Curator_Laws\<close>: \<open>processSingle\<close> and \<open>processBatch\<close>, from the gates to the outcome; what a
    promotion has passed, what an outcome may change, and that a batch keeps the invariants.
  \<^item> \<open>Resolve_Hold\<close>, \<open>Resolve_Laws\<close>: how a person rejects or releases a held candidate, and that the release
    goes through the same gate.
  \<^item> \<open>Narrow_Audience\<close>, \<open>Memory_Service\<close>: the edits of a curated memory, from the curator and from the api's
    service (transition, recategorization, narrowing), each one transaction with its receipt.
  \<^item> \<open>Redaction\<close>, \<open>Redaction_Laws\<close>: \<open>redact-memory.ts\<close>: the replacement or the spans, the candidate copies of the
    same text, the receipts that later refuse a re-ingest, and the fragments that are gone.
  \<^item> \<open>Candidate_Intake\<close>: \<open>candidate-intake.ts\<close>, the door through which a proposal enters, with the fields the server
    owns whatever the client sent.
  \<^item> \<open>Governance_Runs\<close>: the operations above as one inductive relation \<open>gov_op\<close> and the databases it reaches from
    an empty one, the approvals and rejections of the API's promotion service among them; each operation is a sequence of \<open>gov_step\<close>s, so the invariants hold of every such database. A
    redaction is taken there with a replacement that is already trimmed.
  \<^item> \<open>Import_Batches\<close>, \<open>Spool_Reader\<close>, \<open>Spool_Intake\<close>, \<open>Spool_Laws\<close>: the batch ledger, the spool files with their
    manifests (\<open>claude-runtime/src/spool\<close>) and the sweep of \<open>curator/src/intake/spool-intake.ts\<close>: what a broad file
    must carry to be admitted, that a sweep ends and a second one changes nothing, and that the batch row accounts
    for its file. A sweep is one of the operations of \<open>gov_op\<close>.
  \<^item> \<open>Vault_Files\<close>, \<open>Vault_Import\<close>, \<open>Vault_Laws\<close>: the walk of a vault, its front matter, and \<open>import-pipeline.ts\<close> with its
    preview, its rollback and what an unparsed tag does. A vault import is not an operation of \<open>gov_op\<close>: its candidates
    are not parsed, so it need not keep the table well formed, and its rollback deletes rows.
  \<^item> \<open>Token_Registry\<close>, \<open>Api_Access\<close>, \<open>Access_Laws\<close>: the bearer tokens of \<open>api/src/auth\<close> and the hooks of
    \<open>api/src/middleware\<close> in the order a request meets them, with the counters they keep; who an admitted request is,
    what it may write and which tenants it may name.
  \<^item> \<open>Search_Rank\<close>, \<open>Search_Service\<close>, \<open>Search_Laws\<close>: the ranking of \<open>packages/common\<close>, the search service with its two
    paths, the contradiction references and the route; what a reader is shown, page by page, and under which tenant.
  \<^item> \<open>Promotion_Service\<close>, \<open>Promotion_Laws\<close>: \<open>promotion-service.ts\<close>, which promotes or rejects one candidate on a
    reviewer's word: it opens no gate, takes the decision the batch would take, and where the two part.
  \<^item> \<open>Api_Errors\<close>, \<open>Hold_Service\<close>, \<open>Hold_Service_Laws\<close>: the errors of \<open>api/src/errors.ts\<close> with status and code, and the
    hold queue as \<open>hold-service.ts\<close> and \<open>routes/holds.ts\<close> show it: hidden holds stay hidden, agents only advise.
  \<^item> \<open>Policy_Service\<close>, \<open>Api_Routes\<close>, \<open>Inbox_Routes\<close>, \<open>Api_Laws\<close>: the remaining routes: policies and diagnostics,
    memories and their graph, candidates, the audit log with the tip of its chain, token revocation and imports; what
    a route may disclose or change, and where the code lets a bound token reach further.

  Conventions. Strings are lists of Latin-1 characters and a timestamp is a string; numbers are
  rationals; \<open>undefined\<close> and \<open>null\<close> are \<open>None\<close>. An exception is the left of a sum, and a
  transaction that throws yields the exception and no state. SHA-256, HMAC, SHA-1, Ed25519, \<open>Date\<close>,
  FTS5, the formats of zod, the vendor patterns of the scanners and the wording of a rule's reason
  are parameters (the records \<open>env\<close>, \<open>formats\<close> and \<open>world\<close>); what a property needs of them is a
  premise of it, and its witness has a concrete instance. Random identifiers and the clock are arguments.

  The recursions are structural or carry a measure, except the \<open>exec\<close> loop of the wiki links, which is a
  partial function that \<open>wiki_link_extraction_returns\<close> shows to be total; so no definition needs fuel. The
  bounds are the code's own: the depth limit of \<open>walk_free_text\<close> and of a traversal, the cap of the hold queue
  and the budget of retirements.

  Not modelled: the HTTP framework and the index refresh that follows a promotion, the MCP server, the edge daemon, the exporters and the reporting
  command, which move data in and out; the vector index adapter; the evaluation data sets; the command
  lines; recovery from archives, the page scrub after a redaction, and the reviews of stale and contradicting
  memories; the moves of spool files to the archive and the quarantine; the migrations of the SQLite file, the JSON cells of a policy row, and the
  index and export tables; and the files themselves (a file is its text or the list of its records, a directory a tree). A throw inside a
  batch ends it, and the fields of the curator are then those before the candidate that threw.
\<close>
end
